(* ===== verification/Py_Prelude.thy ===== *)
theory Py_Prelude
  imports Main "HOL-Library.Char_ord" "HOL-Library.List_Lexorder"
begin

text \<open>
  Shared vocabulary of the development: the parts of Python's \<^verbatim>\<open>str\<close> the service uses,
  exceptions as values, and SQL statements over a table held as a list of rows.

  A Python string is a HOL \<^typ>\<open>string\<close>; a HOL \<^typ>\<open>char\<close> is one code point below 256
  (Latin-1), so every string of the model is a Python string of such code points and the
  predicates below (white space, digits, lower case) are Python's on exactly that range.
  With the theories Char_ord and List_Lexorder the order \<^verbatim>\<open><\<close> on strings is Python's:
  lexicographic by code point.

  A table is the list of its rows in insertion order, which is the order in which SQLite
  scans a rowid table; \<^verbatim>\<open>fetchone()\<close> on a query without ORDER BY is the first match.
\<close>

section \<open>Collections of facts\<close>

named_theorems py_simps \<open>computation rules of the Python string model\<close>
named_theorems sql_simps \<open>rewriting of the SQL statement model\<close>

section \<open>Exceptions\<close>

text \<open>The exceptions the modelled code raises, with their messages.\<close>

datatype py_error =
    ValueError string
  | PermissionError string
  | TypeErr string
  | RuntimeErr string
  | IntegrityError string
  | KeyErr string
  | AttributeErr string
  | FileNotFoundErr string
  | ProgrammingErr string
  | QuarantineError string
  | QuarantineReleaseBlocked string

text \<open>\<^verbatim>\<open>type(exc).__name__\<close> and \<^verbatim>\<open>str(exc)\<close>.\<close>

fun error_name :: "py_error \<Rightarrow> string" where
  "error_name (ValueError _) = ''ValueError''"
| "error_name (PermissionError _) = ''PermissionError''"
| "error_name (TypeErr _) = ''TypeError''"
| "error_name (RuntimeErr _) = ''RuntimeError''"
| "error_name (IntegrityError _) = ''IntegrityError''"
| "error_name (KeyErr _) = ''KeyError''"
| "error_name (AttributeErr _) = ''AttributeError''"
| "error_name (FileNotFoundErr _) = ''FileNotFoundError''"
| "error_name (ProgrammingErr _) = ''ProgrammingError''"
| "error_name (QuarantineError _) = ''QuarantineError''"
| "error_name (QuarantineReleaseBlocked _) = ''QuarantineReleaseBlocked''"

fun error_text :: "py_error \<Rightarrow> string" where
  "error_text (ValueError m) = m"
| "error_text (PermissionError m) = m"
| "error_text (TypeErr m) = m"
| "error_text (RuntimeErr m) = m"
| "error_text (IntegrityError m) = m"
| "error_text (KeyErr m) = m"
| "error_text (AttributeErr m) = m"
| "error_text (FileNotFoundErr m) = m"
| "error_text (ProgrammingErr m) = m"
| "error_text (QuarantineError m) = m"
| "error_text (QuarantineReleaseBlocked m) = m"

text \<open>An operation on a connection: the exception or the result, and the state after it.
  A raise keeps the writes made before it, as they stay in the open transaction.\<close>

type_synonym ('s, 'a) outcome = "(py_error + 'a) \<times> 's"

definition bind_sum :: "'e + 'a \<Rightarrow> ('a \<Rightarrow> 'e + 'b) \<Rightarrow> 'e + 'b" where
  "bind_sum x f = (case x of Inl e \<Rightarrow> Inl e | Inr v \<Rightarrow> f v)"

definition and_then :: "('s, 'a) outcome \<Rightarrow> ('a \<Rightarrow> 's \<Rightarrow> ('s, 'b) outcome) \<Rightarrow> ('s, 'b) outcome" where
  "and_then r f = (case r of (Inl e, s) \<Rightarrow> (Inl e, s) | (Inr x, s) \<Rightarrow> f x s)"

text \<open>A computation that reads no state.\<close>

definition lift_result :: "py_error + 'a \<Rightarrow> 's \<Rightarrow> ('s, 'a) outcome" where
  "lift_result r s = (r, s)"

abbreviation raised :: "('s, 'a) outcome \<Rightarrow> bool" where
  "raised r \<equiv> \<exists>err. fst r = Inl err"

section \<open>Strings\<close>

abbreviation code_point :: "char \<Rightarrow> nat" where
  "code_point c \<equiv> of_char c"

definition py_isspace :: "char \<Rightarrow> bool" where
  "py_isspace c = (let n = code_point c in
     (9 \<le> n \<and> n \<le> 13) \<or> (28 \<le> n \<and> n \<le> 32) \<or> n = 133 \<or> n = 160)"

definition py_lstrip :: "string \<Rightarrow> string" where
  "py_lstrip s = dropWhile py_isspace s"

definition py_rstrip :: "string \<Rightarrow> string" where
  "py_rstrip s = rev (dropWhile py_isspace (rev s))"

definition py_strip :: "string \<Rightarrow> string" where
  "py_strip s = py_lstrip (py_rstrip s)"

text \<open>\<^verbatim>\<open>s.lstrip(chars)\<close>, \<^verbatim>\<open>s.rstrip(chars)\<close> and \<^verbatim>\<open>s.strip(chars)\<close> with an explicit set of characters.\<close>

definition lstrip_chars :: "string \<Rightarrow> string \<Rightarrow> string" where
  "lstrip_chars cs s = dropWhile (\<lambda>c. c \<in> set cs) s"

definition rstrip_chars :: "string \<Rightarrow> string \<Rightarrow> string" where
  "rstrip_chars cs s = rev (dropWhile (\<lambda>c. c \<in> set cs) (rev s))"

definition strip_chars :: "string \<Rightarrow> string \<Rightarrow> string" where
  "strip_chars cs s = lstrip_chars cs (rstrip_chars cs s)"

text \<open>ASCII digits (the regular expression class and what \<^verbatim>\<open>int()\<close> accepts) and
  \<^verbatim>\<open>str.isdigit\<close>, which on Latin-1 also holds of the three superscript digits.\<close>

definition ascii_digit :: "char \<Rightarrow> bool" where
  "ascii_digit c = (let n = code_point c in 48 \<le> n \<and> n \<le> 57)"

definition isdigit_char :: "char \<Rightarrow> bool" where
  "isdigit_char c = (ascii_digit c \<or> code_point c \<in> {178, 179, 185})"

definition py_isdigit :: "string \<Rightarrow> bool" where
  "py_isdigit s = (s \<noteq> [] \<and> list_all isdigit_char s)"

definition ascii_alpha :: "char \<Rightarrow> bool" where
  "ascii_alpha c = (let n = code_point c in (65 \<le> n \<and> n \<le> 90) \<or> (97 \<le> n \<and> n \<le> 122))"

definition lower_char :: "char \<Rightarrow> char" where
  "lower_char c = (let n = code_point c in
     if (65 \<le> n \<and> n \<le> 90) \<or> (192 \<le> n \<and> n \<le> 222 \<and> n \<noteq> 215) then char_of (n + 32) else c)"

definition py_lower :: "string \<Rightarrow> string" where
  "py_lower s = map lower_char s"

definition startswith :: "'a list \<Rightarrow> 'a list \<Rightarrow> bool" where
  "startswith s p = (take (length p) s = p)"

definition endswith :: "'a list \<Rightarrow> 'a list \<Rightarrow> bool" where
  "endswith s p = startswith (rev s) (rev p)"

text \<open>\<^verbatim>\<open>p in s\<close> for two strings.\<close>

fun substring_in :: "'a list \<Rightarrow> 'a list \<Rightarrow> bool" where
  "substring_in p [] = (p = [])"
| "substring_in p (c # s) = (startswith (c # s) p \<or> substring_in p s)"

text \<open>\<^verbatim>\<open>s.split(c)\<close> for a one-character separator, and \<^verbatim>\<open>sep.join(xs)\<close>.\<close>

fun split_on :: "char \<Rightarrow> string \<Rightarrow> string list" where
  "split_on d [] = [[]]"
| "split_on d (c # s) =
     (if c = d then [] # split_on d s
      else case split_on d s of [] \<Rightarrow> [[c]] | w # ws \<Rightarrow> (c # w) # ws)"

fun join_with :: "string \<Rightarrow> string list \<Rightarrow> string" where
  "join_with sep [] = []"
| "join_with sep [x] = x"
| "join_with sep (x # y # xs) = x @ sep @ join_with sep (y # xs)"

text \<open>Decimal numerals: \<^verbatim>\<open>int(s)\<close> on a string of ASCII digits and \<^verbatim>\<open>str(n)\<close>.\<close>

definition digit_value :: "char \<Rightarrow> nat" where
  "digit_value c = code_point c - 48"

definition nat_of_digits :: "string \<Rightarrow> nat" where
  "nat_of_digits s = foldl (\<lambda>n c. 10 * n + digit_value c) 0 s"

fun str_of_nat :: "nat \<Rightarrow> string" where
  "str_of_nat n = (if n < 10 then [char_of (n + 48)]
                   else str_of_nat (n div 10) @ [char_of (n mod 10 + 48)])"

declare str_of_nat.simps [simp del]

definition str_of_int :: "int \<Rightarrow> string" where
  "str_of_int i = (if i < 0 then CHR ''-'' # str_of_nat (nat (- i)) else str_of_nat (nat i))"

text \<open>Truth value and \<^verbatim>\<open>or\<close> of Python on optional strings: \<^verbatim>\<open>None\<close> and the empty string are false.\<close>

definition truthy :: "string option \<Rightarrow> bool" where
  "truthy x = (case x of None \<Rightarrow> False | Some s \<Rightarrow> s \<noteq> [])"

definition or_else :: "string option \<Rightarrow> string \<Rightarrow> string" where
  "or_else x d = (case x of None \<Rightarrow> d | Some s \<Rightarrow> if s = [] then d else s)"

definition or_opt :: "string option \<Rightarrow> string option \<Rightarrow> string option" where
  "or_opt x y = (if truthy x then x else y)"

section \<open>Tables\<close>

definition update_where :: "('r \<Rightarrow> bool) \<Rightarrow> ('r \<Rightarrow> 'r) \<Rightarrow> 'r list \<Rightarrow> 'r list" where
  "update_where p f t = map (\<lambda>r. if p r then f r else r) t"

definition delete_where :: "('r \<Rightarrow> bool) \<Rightarrow> 'r list \<Rightarrow> 'r list" where
  "delete_where p t = filter (\<lambda>r. \<not> p r) t"

definition rowcount :: "('r \<Rightarrow> bool) \<Rightarrow> 'r list \<Rightarrow> nat" where
  "rowcount p t = length (filter p t)"

text \<open>\<^verbatim>\<open>ORDER BY key\<close> is stable with respect to the scan order.\<close>

definition order_by :: "('r \<Rightarrow> 'k::linorder) \<Rightarrow> 'r list \<Rightarrow> 'r list" where
  "order_by k t = sort_key k t"

definition order_by_desc :: "('r \<Rightarrow> 'k::linorder) \<Rightarrow> 'r list \<Rightarrow> 'r list" where
  "order_by_desc k t = rev (sort_key k (rev t))"

section \<open>Facts on strings\<close>

lemma or_else_simps [simp]:
  "or_else None d = d" "or_else (Some []) d = d" "s \<noteq> [] \<Longrightarrow> or_else (Some s) d = s"
  by (auto simp: or_else_def)

lemma truthy_simps [simp]:
  "\<not> truthy None" "\<not> truthy (Some [])" "truthy (Some s) \<longleftrightarrow> s \<noteq> []"
  by (auto simp: truthy_def)

lemma or_else_neq_Nil: "d \<noteq> [] \<Longrightarrow> or_else x d \<noteq> []"
  by (cases x) (auto simp: or_else_def)

lemma startswith_append [simp]: "startswith (p @ s) p"
  by (simp add: startswith_def)

lemma startswith_iff: "startswith s p \<longleftrightarrow> (\<exists>t. s = p @ t)"
  by (metis append_eq_conv_conj append_take_drop_id startswith_def)

lemma substring_in_iff: "substring_in p s \<longleftrightarrow> (\<exists>a b. s = a @ p @ b)"
proof (induction s)
  case Nil
  then show ?case by simp
next
  case (Cons c s)
  have "(\<exists>a b. c # s = a @ p @ b) \<longleftrightarrow> startswith (c # s) p \<or> (\<exists>a b. s = a @ p @ b)"
    unfolding startswith_iff by (metis append_Cons append_Nil list.exhaust list.inject)
  with Cons show ?case by simp
qed

lemma split_on_neq_Nil [simp]: "split_on d s \<noteq> []"
  by (induction s) (auto split: list.splits)

lemma join_split [simp]: "join_with [d] (split_on d s) = s"
proof (induction s)
  case Nil
  then show ?case by simp
next
  case (Cons c s)
  obtain w ws where w: "split_on d s = w # ws"
    by (metis list.exhaust split_on_neq_Nil)
  with Cons have "join_with [d] (w # ws) = s" by simp
  then show ?case using w by (cases ws) auto
qed

lemma split_on_no_sep: "d \<notin> set s \<Longrightarrow> split_on d s = [s]"
  by (induction s) auto

lemma split_on_append_sep:
  "d \<notin> set s \<Longrightarrow> split_on d (s @ d # t) = s # split_on d t"
  by (induction s) auto

lemma split_on_parts_no_sep: "w \<in> set (split_on d s) \<Longrightarrow> d \<notin> set w"
proof (induction s arbitrary: w)
  case Nil
  then show ?case by simp
next
  case (Cons c s)
  then show ?case by (fastforce split: list.splits if_splits)
qed

lemma split_join:
  "xs \<noteq> [] \<Longrightarrow> list_all (\<lambda>x. d \<notin> set x) xs \<Longrightarrow> split_on d (join_with [d] xs) = xs"
proof (induction xs rule: induct_list012)
  case 1
  then show ?case by simp
next
  case (2 x)
  then show ?case by (simp add: split_on_no_sep)
next
  case (3 x y zs)
  then show ?case by (simp add: split_on_append_sep)
qed

lemma ascii_digit_char_of: "(n::nat) < 10 \<Longrightarrow> ascii_digit (char_of (n + 48))"
  by (simp add: ascii_digit_def)

lemma digit_value_char_of: "(n::nat) < 10 \<Longrightarrow> digit_value (char_of (n + 48)) = n"
  by (simp add: digit_value_def)

lemma str_of_nat_neq_Nil [simp]: "str_of_nat n \<noteq> []"
  by (subst str_of_nat.simps) simp

lemma str_of_nat_digits: "list_all ascii_digit (str_of_nat n)"
proof (induction n rule: str_of_nat.induct)
  case (1 n)
  then show ?case
    by (subst str_of_nat.simps) (simp add: ascii_digit_char_of)
qed

lemma str_of_nat_no_char: "\<not> ascii_digit c \<Longrightarrow> c \<notin> set (str_of_nat n)"
  using str_of_nat_digits [of n] by (auto simp: list_all_iff)

lemma nat_of_digits_snoc: "nat_of_digits (s @ [c]) = 10 * nat_of_digits s + digit_value c"
  by (simp add: nat_of_digits_def)

text \<open>Printing and reading a number is the identity.\<close>

lemma nat_of_digits_str_of_nat [simp]: "nat_of_digits (str_of_nat n) = n"
proof (induction n rule: str_of_nat.induct)
  case (1 n)
  show ?case
  proof (cases "n < 10")
    case True
    then show ?thesis
      by (subst str_of_nat.simps) (simp add: nat_of_digits_def digit_value_char_of)
  next
    case False
    then have "nat_of_digits (str_of_nat n) = 10 * (n div 10) + n mod 10"
      using 1 by (subst str_of_nat.simps) (simp add: nat_of_digits_snoc digit_value_char_of)
    then show ?thesis by simp
  qed
qed

lemma str_of_nat_inj: "str_of_nat m = str_of_nat n \<longleftrightarrow> m = n"
  by (metis nat_of_digits_str_of_nat)

lemma not_singleton_iff:
  assumes "x \<in> A"
  shows "A \<noteq> {x} \<longleftrightarrow> (\<exists>v \<in> A. \<exists>w \<in> A. v \<noteq> w)"
proof
  assume "A \<noteq> {x}"
  then obtain y where "y \<in> A" "x \<noteq> y" using assms by fast
  with assms show "\<exists>v \<in> A. \<exists>w \<in> A. v \<noteq> w" by (intro bexI)
qed auto

section \<open>Facts on tables\<close>

lemma bind_sum_Inr: "bind_sum x f = Inr y \<longleftrightarrow> (\<exists>v. x = Inr v \<and> f v = Inr y)"
  by (cases x) (auto simp: bind_sum_def)

lemma and_then_Inl [simp]: "and_then (Inl e, s) f = (Inl e, s)"
  by (simp add: and_then_def)

lemma and_then_Inr [simp]: "and_then (Inr x, s) f = f x s"
  by (simp add: and_then_def)

lemma lift_result_Inl [simp]: "and_then (lift_result (Inl e) s) f = (Inl e, s)"
  by (simp add: lift_result_def)

lemma lift_result_Inr [simp]: "and_then (lift_result (Inr x) s) f = f x s"
  by (simp add: lift_result_def)

lemma and_then_InrE:
  assumes "fst (and_then r f) = Inr y"
  obtains x s where "r = (Inr x, s)" "and_then r f = f x s"
  using assms by (cases r; cases "fst r") auto

lemma and_then_lift_InrE:
  assumes "fst (and_then (lift_result r s) f) = Inr y"
  obtains x where "r = Inr x" "and_then (lift_result r s) f = f x s"
  using assms by (cases r) auto

lemma and_then_cases:
  obtains (raise) e s where "r = (Inl e, s)" "and_then r f = (Inl e, s)"
    | (return) x s where "r = (Inr x, s)" "and_then r f = f x s"
  by (cases r; cases "fst r") auto

lemma and_then_eq_Inr: "and_then r f = (Inr x, s) \<longleftrightarrow> (\<exists>y t. r = (Inr y, t) \<and> f y t = (Inr x, s))"
  by (cases r; cases "fst r") (auto simp: and_then_def)

lemma lift_result_eq_Inr: "lift_result r s = (Inr x, t) \<longleftrightarrow> r = Inr x \<and> t = s"
  by (auto simp: lift_result_def)

lemma and_then_outcome:
  assumes "and_then r f = (res, s)"
  obtains (error) e where "r = (Inl e, s)" "res = Inl e" | (ok) x t where "r = (Inr x, t)" "f x t = (res, s)"
  using assms by (cases r; cases "fst r") (auto simp: and_then_def)

lemma and_then_lift: "and_then (lift_result r con) f = (case r of Inl e \<Rightarrow> (Inl e, con) | Inr x \<Rightarrow> f x con)"
  by (auto simp: and_then_def lift_result_def split: sum.split)

lemma length_update_where [simp, sql_simps]: "length (update_where p f t) = length t"
  by (simp add: update_where_def)

lemma update_where_Nil [simp, sql_simps]: "update_where p f [] = []"
  by (simp add: update_where_def)

lemma update_where_Cons [sql_simps]:
  "update_where p f (r # t) = (if p r then f r else r) # update_where p f t"
  by (simp add: update_where_def)

lemma update_where_append [sql_simps]:
  "update_where p f (t @ u) = update_where p f t @ update_where p f u"
  by (simp add: update_where_def)

lemma in_update_where:
  "x \<in> set (update_where p f t) \<longleftrightarrow> (\<exists>r \<in> set t. x = (if p r then f r else r))"
  by (auto simp: update_where_def)

lemma update_where_none: "\<forall>r \<in> set t. \<not> p r \<Longrightarrow> update_where p f t = t"
  by (induction t) (auto simp: update_where_def)

text \<open>A column the update does not write keeps its value in every row.\<close>

lemma map_update_where_frame:
  assumes "\<And>r. k (f r) = k r"
  shows "map k (update_where p f t) = map k t"
  using assms by (simp add: update_where_def)

text \<open>The first match of a key that the update keeps is the updated first match.\<close>

lemma find_update_where:
  assumes "\<And>r. q (f r) = q r"
  shows "find q (update_where p f t) = map_option (\<lambda>r. if p r then f r else r) (find q t)"
  using assms by (induction t) (auto simp: update_where_def)

lemma find_SomeD: "find p xs = Some x \<Longrightarrow> x \<in> set xs \<and> p x"
  by (induction xs) (auto split: if_splits)

lemma find_NoneD: "find p xs = None \<Longrightarrow> x \<in> set xs \<Longrightarrow> \<not> p x"
  by (simp add: find_None_iff)

lemma find_append:
  "find p (xs @ ys) = (case find p xs of None \<Rightarrow> find p ys | Some x \<Rightarrow> Some x)"
  by (induction xs) auto

lemma find_is_Some_iff: "(\<exists>x. find p xs = Some x) \<longleftrightarrow> (\<exists>x \<in> set xs. p x)"
  by (induction xs) auto

lemma in_delete_where [simp]: "x \<in> set (delete_where p t) \<longleftrightarrow> x \<in> set t \<and> \<not> p x"
  by (simp add: delete_where_def)

lemma set_order_by [simp]: "set (order_by k t) = set t"
  by (simp add: order_by_def)

lemma set_order_by_desc [simp]: "set (order_by_desc k t) = set t"
  by (simp add: order_by_desc_def)

lemma length_order_by: "length (order_by k t) = length t"
  by (simp add: order_by_def)

lemma length_order_by_desc [simp]: "length (order_by_desc k t) = length t"
  by (simp add: order_by_desc_def)

lemma filter_update_where:
  "(\<And>r. q (f r) = q r) \<Longrightarrow> filter q (update_where p f t) = update_where p f (filter q t)"
  by (induction t) (auto simp: update_where_def)

lemma order_by_update_where:
  "(\<And>r. k (f r) = k r) \<Longrightarrow> order_by k (update_where p f t) = update_where p f (order_by k t)"
proof (induction t)
  case Nil
  then show ?case by (simp add: order_by_def update_where_def)
next
  case (Cons r t)
  have ins: "insort_key k (if p r then f r else r) (update_where p f u)
      = update_where p f (insort_key k r u)" for u
    using Cons.prems by (induction u) (auto simp: update_where_def)
  from Cons show ?case by (simp add: order_by_def update_where_Cons ins)
qed

lemma rowcount_update_where:
  "(\<And>r. q (f r) = q r) \<Longrightarrow> rowcount q (update_where p f t) = rowcount q t"
  by (induction t) (auto simp: rowcount_def update_where_def)

lemma ball_update_where:
  "(\<forall>x \<in> set (update_where p f t). P x) \<longleftrightarrow> (\<forall>r \<in> set t. if p r then P (f r) else P r)"
  by (induction t) (auto simp: update_where_def)

text \<open>In a key column without duplicates two rows with the same key are the same row.\<close>

lemma distinct_key_unique:
  "distinct (map k t) \<Longrightarrow> r \<in> set t \<Longrightarrow> s \<in> set t \<Longrightarrow> k r = k s \<Longrightarrow> r = s"
  by (metis distinct_map inj_onD)

lemma find_key_unique:
  assumes "distinct (map k t)" "r \<in> set t"
  shows "find (\<lambda>s. k s = k r) t = Some r"
proof -
  obtain s where s: "find (\<lambda>s. k s = k r) t = Some s"
    using assms(2) find_is_Some_iff [of "\<lambda>s. k s = k r" t] by auto
  then have "s \<in> set t" "k s = k r" by (auto dest: find_SomeD)
  with assms have "s = r" by (rule_tac distinct_key_unique)
  with s show ?thesis by simp
qed

lemma filter_key_singleton:
  assumes "distinct (map k t)" "r \<in> set t"
  shows "filter (\<lambda>s. k s = k r) t = [r]"
  using assms
proof (induction t)
  case (Cons s t)
  show ?case
  proof (cases "s = r")
    case True
    then have "\<forall>u \<in> set t. k u \<noteq> k r" using Cons.prems(1) by (auto simp: image_iff)
    with True show ?thesis by (simp add: filter_False)
  next
    case False
    with Cons.prems have "r \<in> set t" "k s \<noteq> k r" by auto
    with Cons show ?thesis by simp
  qed
qed simp

text \<open>INSERT ... ON CONFLICT DO UPDATE keeps its key unique and touches no other row.\<close>

lemma upsert_table:
  assumes dist: "distinct (map k t)" and upd: "\<And>r. k (f r) = k r" and new: "k new = key"
  defines "t' \<equiv> (if find (\<lambda>r. k r = key) t \<noteq> None then update_where (\<lambda>r. k r = key) f t else t @ [new])"
  shows "distinct (map k t')"
    and "\<exists>row. filter (\<lambda>r. k r = key) t' = [row] \<and> (row = new \<or> (\<exists>r \<in> set t. k r = key \<and> row = f r))"
    and "filter (\<lambda>r. k r \<noteq> key) t' = filter (\<lambda>r. k r \<noteq> key) t"
proof -
  have "distinct (map k t') \<and> filter (\<lambda>r. k r \<noteq> key) t' = filter (\<lambda>r. k r \<noteq> key) t \<and>
    (\<exists>row. filter (\<lambda>r. k r = key) t' = [row] \<and> (row = new \<or> (\<exists>r \<in> set t. k r = key \<and> row = f r)))"
  proof (cases "find (\<lambda>r. k r = key) t")
    case None
    then have "\<forall>r \<in> set t. k r \<noteq> key" by (simp add: find_None_iff)
    then have "filter (\<lambda>r. k r = key) t = []" "key \<notin> k ` set t" by (auto simp: filter_empty_conv)
    with None dist new show ?thesis by (simp add: t'_def)
  next
    case (Some r)
    then have r: "r \<in> set t" "k r = key" using find_SomeD by fastforce+
    have one: "filter (\<lambda>s. k s = key) t = [r]" using filter_key_singleton [OF dist r(1)] r(2) by simp
    have "filter (\<lambda>s. k s \<noteq> key) (update_where (\<lambda>s. k s = key) f t) = filter (\<lambda>s. k s \<noteq> key) t"
      by (induction t) (auto simp: update_where_def upd)
    with Some dist one r show ?thesis
      by (auto simp: t'_def map_update_where_frame upd filter_update_where update_where_Cons)
  qed
  then show "distinct (map k t')"
    "\<exists>row. filter (\<lambda>r. k r = key) t' = [row] \<and> (row = new \<or> (\<exists>r \<in> set t. k r = key \<and> row = f r))"
    "filter (\<lambda>r. k r \<noteq> key) t' = filter (\<lambda>r. k r \<noteq> key) t" by blast+
qed

text \<open>\<^verbatim>\<open>max(xs, key=k)\<close> keeps the first of several maxima.\<close>

fun max_by :: "('a \<Rightarrow> 'k::linorder) \<Rightarrow> 'a \<Rightarrow> 'a list \<Rightarrow> 'a" where
  "max_by k best [] = best"
| "max_by k best (x # xs) = max_by k (if k best < k x then x else best) xs"

end
