(* ===== verification/Semver_Policy.thy ===== *)
theory Semver_Policy
  imports Py_Prelude "HOL-Library.Product_Lexorder"
begin

text \<open>
  Version strings and version conflicts: \<^verbatim>\<open>capmesh/semver_policy.py\<close>.

  The parser follows the regular expression \<^verbatim>\<open>_SEMVER_RE\<close>, whose classes make every
  greedy choice the only one. The comparison of the code is proved to be the order of a key
  in a linear order, from which its laws follow in the locale below; the resolver of
  conflicts is proved to choose a maximum of its own sort key, and where that key and the
  comparison disagree is stated as a theorem.
\<close>

section \<open>Parsing\<close>

record semver =
  sv_major :: nat
  sv_minor :: nat
  sv_patch :: nat
  sv_pre :: "string option"
  sv_build :: "string option"

definition semver_char :: "char \<Rightarrow> bool" where
  "semver_char c = (ascii_digit c \<or> ascii_alpha c \<or> c = CHR ''.'' \<or> c = CHR ''-'')"

definition take_number :: "string \<Rightarrow> (nat \<times> string) option" where
  "take_number s = (let d = takeWhile ascii_digit s in
     if d = [] then None else Some (nat_of_digits d, dropWhile ascii_digit s))"

definition take_char :: "char \<Rightarrow> string \<Rightarrow> string option" where
  "take_char d s = (case s of [] \<Rightarrow> None | c # r \<Rightarrow> if c = d then Some r else None)"

definition take_group :: "char \<Rightarrow> string \<Rightarrow> string option \<times> string" where
  "take_group d s =
     (case take_char d s of
        None \<Rightarrow> (None, s)
      | Some r \<Rightarrow> (let w = takeWhile semver_char r in
          if w = [] then (None, s) else (Some w, dropWhile semver_char r)))"

definition match_semver :: "string \<Rightarrow> semver option" where
  "match_semver s =
     Option.bind (take_number s) (\<lambda>(ma, r1).
     Option.bind (take_char (CHR ''.'') r1) (\<lambda>r2.
     Option.bind (take_number r2) (\<lambda>(mi, r3).
     Option.bind (take_char (CHR ''.'') r3) (\<lambda>r4.
     Option.bind (take_number r4) (\<lambda>(pa, r5).
       (let (pre, r6) = take_group (CHR ''-'') r5; (bld, r7) = take_group (CHR ''+'') r6 in
        if r7 = [] then Some \<lparr>sv_major = ma, sv_minor = mi, sv_patch = pa,
                              sv_pre = pre, sv_build = bld\<rparr>
        else None))))))"

definition parse_semver :: "string \<Rightarrow> semver option" where
  "parse_semver version = match_semver (lstrip_chars ''v'' (py_strip version))"

section \<open>Comparison\<close>

definition compare_ident :: "string \<Rightarrow> string \<Rightarrow> int" where
  "compare_ident pai pbi =
     (if py_isdigit pai \<and> py_isdigit pbi then
        (let ia = nat_of_digits pai; ib = nat_of_digits pbi in
         if ia < ib then -1 else if ib < ia then 1 else 0)
      else if py_isdigit pai \<and> \<not> py_isdigit pbi then -1
      else if \<not> py_isdigit pai \<and> py_isdigit pbi then 1
      else if pai < pbi then -1 else if pbi < pai then 1 else 0)"

fun compare_idents :: "string list \<Rightarrow> string list \<Rightarrow> int" where
  "compare_idents [] [] = 0"
| "compare_idents [] (y # ys) = -1"
| "compare_idents (x # xs) [] = 1"
| "compare_idents (x # xs) (y # ys) =
     (let c = compare_ident x y in if c \<noteq> 0 then c else compare_idents xs ys)"

definition compare_pre :: "string option \<Rightarrow> string option \<Rightarrow> int" where
  "compare_pre pa_pre pb_pre =
     (case (pa_pre, pb_pre) of
        (None, None) \<Rightarrow> 0
      | (None, Some _) \<Rightarrow> 1
      | (Some _, None) \<Rightarrow> -1
      | (Some x, Some y) \<Rightarrow> compare_idents (split_on (CHR ''.'') x) (split_on (CHR ''.'') y))"

definition compare_semver :: "string \<Rightarrow> string \<Rightarrow> int" where
  "compare_semver a b =
     (case (parse_semver a, parse_semver b) of
        (None, None) \<Rightarrow> if a = b then 0 else if a < b then -1 else 1
      | (None, Some _) \<Rightarrow> 1
      | (Some _, None) \<Rightarrow> -1
      | (Some pa, Some pb) \<Rightarrow>
          if sv_major pa < sv_major pb then -1 else if sv_major pb < sv_major pa then 1
          else if sv_minor pa < sv_minor pb then -1 else if sv_minor pb < sv_minor pa then 1
          else if sv_patch pa < sv_patch pb then -1 else if sv_patch pb < sv_patch pa then 1
          else compare_pre (sv_pre pa) (sv_pre pb))"

section \<open>Conflict resolution\<close>

type_synonym sort_key_tuple = "nat \<times> nat \<times> nat \<times> nat \<times> string"

definition semver_sort_key :: "string \<Rightarrow> sort_key_tuple" where
  "semver_sort_key version =
     (case parse_semver version of
        None \<Rightarrow> (0, 0, 0, 0, [])
      | Some p \<Rightarrow> (case sv_pre p of
            None \<Rightarrow> (sv_major p, sv_minor p, sv_patch p, 1, [])
          | Some pre \<Rightarrow> (sv_major p, sv_minor p, sv_patch p, 0, pre)))"

record conflict_result =
  cr_winner :: "string option"
  cr_conflict :: bool
  cr_all_valid :: bool
  cr_versions :: "string list"
  cr_invalid_versions :: "string list"

definition resolve_version_conflict :: "string list \<Rightarrow> conflict_result" where
  "resolve_version_conflict versions =
     (if versions = [] then
        \<lparr>cr_winner = None, cr_conflict = False, cr_all_valid = True, cr_versions = [],
         cr_invalid_versions = []\<rparr>
      else let unique = sort (remdups versions) in
        if length unique = 1 then
          \<lparr>cr_winner = Some (hd unique), cr_conflict = False,
           cr_all_valid = (parse_semver (hd unique) \<noteq> None), cr_versions = unique,
           cr_invalid_versions = []\<rparr>
        else let valid = filter (\<lambda>v. parse_semver v \<noteq> None) unique;
                 winner = (if valid = [] then max_by (\<lambda>v. v) (hd unique) (tl unique)
                           else max_by (\<lambda>v. (parse_semver v \<noteq> None, semver_sort_key v))
                                  (hd unique) (tl unique)) in
          \<lparr>cr_winner = Some winner, cr_conflict = True,
           cr_all_valid = (length valid = length unique), cr_versions = unique,
           cr_invalid_versions = filter (\<lambda>v. parse_semver v = None) unique\<rparr>)"

text \<open>A capability dictionary as far as \<^verbatim>\<open>check_version_conflicts\<close> reads it.\<close>

record versioned =
  vc_canonicalKey :: "string option"
  vc_canonical_key :: "string option"
  vc_version :: "string option"

definition versioned_key :: "versioned \<Rightarrow> string" where
  "versioned_key cap = or_else (vc_canonicalKey cap) (or_else (vc_canonical_key cap) [])"

definition versioned_version :: "versioned \<Rightarrow> string" where
  "versioned_version cap = or_else (vc_version cap) []"

fun append_to_key :: "string \<Rightarrow> string \<Rightarrow> (string \<times> string list) list \<Rightarrow> (string \<times> string list) list" where
  "append_to_key k v [] = [(k, [v])]"
| "append_to_key k v ((k', vs) # m) =
     (if k = k' then (k', vs @ [v]) # m else (k', vs) # append_to_key k v m)"

fun group_versions :: "(string \<times> string list) list \<Rightarrow> versioned list \<Rightarrow> (string \<times> string list) list" where
  "group_versions m [] = m"
| "group_versions m (cap # caps) =
     (let key = versioned_key cap; version = versioned_version cap in
      group_versions (if key \<noteq> [] \<and> version \<noteq> [] then append_to_key key version m else m) caps)"

record version_conflict =
  vcf_key :: string
  vcf_result :: conflict_result

definition check_version_conflicts :: "versioned list \<Rightarrow> version_conflict list" where
  "check_version_conflicts capabilities =
     map (\<lambda>(key, versions). \<lparr>vcf_key = key, vcf_result = resolve_version_conflict versions\<rparr>)
       (filter (\<lambda>(key, versions). cr_conflict (resolve_version_conflict versions))
          (group_versions [] capabilities))"

section \<open>Keys\<close>

text \<open>
  The intended order as data: a numeric identifier is below a textual one, a pre-release is
  below its release, a string that does not parse is above every version (as the code has it).
\<close>

datatype ident_key = NumIdent nat | TextIdent string

datatype pre_key = PreRelease "ident_key list" | Release

datatype version_key = ValidVersion "nat \<times> nat \<times> nat \<times> pre_key" | InvalidVersion string

instantiation ident_key :: linorder
begin

fun less_eq_ident_key :: "ident_key \<Rightarrow> ident_key \<Rightarrow> bool" where
  "less_eq_ident_key (NumIdent m) (NumIdent n) = (m \<le> n)"
| "less_eq_ident_key (NumIdent m) (TextIdent t) = True"
| "less_eq_ident_key (TextIdent s) (NumIdent n) = False"
| "less_eq_ident_key (TextIdent s) (TextIdent t) = (s \<le> t)"

definition less_ident_key :: "ident_key \<Rightarrow> ident_key \<Rightarrow> bool" where
  "less_ident_key x y = (x \<le> y \<and> \<not> y \<le> x)"

instance
proof
  fix x y z :: ident_key
  show "x < y \<longleftrightarrow> x \<le> y \<and> \<not> y \<le> x" by (simp add: less_ident_key_def)
  show "x \<le> x" by (cases x) auto
  show "x \<le> y \<Longrightarrow> y \<le> z \<Longrightarrow> x \<le> z" by (cases x; cases y; cases z) auto
  show "x \<le> y \<Longrightarrow> y \<le> x \<Longrightarrow> x = y" by (cases x; cases y) auto
  show "x \<le> y \<or> y \<le> x" by (cases x; cases y) auto
qed

end

instantiation pre_key :: linorder
begin

fun less_eq_pre_key :: "pre_key \<Rightarrow> pre_key \<Rightarrow> bool" where
  "less_eq_pre_key (PreRelease xs) (PreRelease ys) = (xs \<le> ys)"
| "less_eq_pre_key (PreRelease xs) Release = True"
| "less_eq_pre_key Release (PreRelease ys) = False"
| "less_eq_pre_key Release Release = True"

definition less_pre_key :: "pre_key \<Rightarrow> pre_key \<Rightarrow> bool" where
  "less_pre_key x y = (x \<le> y \<and> \<not> y \<le> x)"

instance
proof
  fix x y z :: pre_key
  show "x < y \<longleftrightarrow> x \<le> y \<and> \<not> y \<le> x" by (simp add: less_pre_key_def)
  show "x \<le> x" by (cases x) auto
  show "x \<le> y \<Longrightarrow> y \<le> z \<Longrightarrow> x \<le> z" by (cases x; cases y; cases z) auto
  show "x \<le> y \<Longrightarrow> y \<le> x \<Longrightarrow> x = y" by (cases x; cases y) auto
  show "x \<le> y \<or> y \<le> x" by (cases x; cases y) auto
qed

end

instantiation version_key :: linorder
begin

fun less_eq_version_key :: "version_key \<Rightarrow> version_key \<Rightarrow> bool" where
  "less_eq_version_key (ValidVersion p) (ValidVersion q) = (p \<le> q)"
| "less_eq_version_key (ValidVersion p) (InvalidVersion t) = True"
| "less_eq_version_key (InvalidVersion s) (ValidVersion q) = False"
| "less_eq_version_key (InvalidVersion s) (InvalidVersion t) = (s \<le> t)"

definition less_version_key :: "version_key \<Rightarrow> version_key \<Rightarrow> bool" where
  "less_version_key x y = (x \<le> y \<and> \<not> y \<le> x)"

instance
proof
  fix x y z :: version_key
  show "x < y \<longleftrightarrow> x \<le> y \<and> \<not> y \<le> x" by (simp add: less_version_key_def)
  show "x \<le> x" by (cases x) auto
  show "x \<le> y \<Longrightarrow> y \<le> z \<Longrightarrow> x \<le> z" by (cases x; cases y; cases z) auto
  show "x \<le> y \<Longrightarrow> y \<le> x \<Longrightarrow> x = y" by (cases x; cases y) auto
  show "x \<le> y \<or> y \<le> x" by (cases x; cases y) auto
qed

end

definition ident_key_of :: "string \<Rightarrow> ident_key" where
  "ident_key_of s = (if py_isdigit s then NumIdent (nat_of_digits s) else TextIdent s)"

definition pre_key_of :: "string option \<Rightarrow> pre_key" where
  "pre_key_of p = (case p of None \<Rightarrow> Release
     | Some x \<Rightarrow> PreRelease (map ident_key_of (split_on (CHR ''.'') x)))"

definition version_key_of :: "string \<Rightarrow> version_key" where
  "version_key_of v = (case parse_semver v of None \<Rightarrow> InvalidVersion v
     | Some p \<Rightarrow> ValidVersion (sv_major p, sv_minor p, sv_patch p, pre_key_of (sv_pre p)))"

definition cmp_of :: "'k::linorder \<Rightarrow> 'k \<Rightarrow> int" where
  "cmp_of x y = (if x < y then -1 else if x = y then 0 else 1)"

section \<open>The comparator contract\<close>

text \<open>
  What a three-way comparison promises when it is the order of a key. Clients (the version
  constraints of the dependency graph) use the laws, not the parser.
\<close>

locale key_comparator =
  fixes cmp :: "'a \<Rightarrow> 'a \<Rightarrow> int"
    and key :: "'a \<Rightarrow> 'k::linorder"
  assumes cmp_key: "cmp a b = cmp_of (key a) (key b)"
begin

lemma cmp_range: "cmp a b \<in> {-1, 0, 1}"
  by (simp add: cmp_key cmp_of_def)

lemma cmp_refl: "cmp a a = 0"
  by (simp add: cmp_key cmp_of_def)

lemma cmp_swap: "cmp b a = - cmp a b"
  by (auto simp: cmp_key cmp_of_def)

lemma cmp_le_iff: "cmp a b \<le> 0 \<longleftrightarrow> key a \<le> key b"
  by (auto simp: cmp_key cmp_of_def)

lemma cmp_less_iff: "cmp a b < 0 \<longleftrightarrow> key a < key b"
  by (auto simp: cmp_key cmp_of_def)

lemma cmp_ge_iff: "0 \<le> cmp a b \<longleftrightarrow> key b \<le> key a"
  by (auto simp: cmp_key cmp_of_def)

lemma cmp_eq_iff: "cmp a b = 0 \<longleftrightarrow> key a = key b"
  by (auto simp: cmp_key cmp_of_def)

lemma cmp_trans: "cmp a b \<le> 0 \<Longrightarrow> cmp b c \<le> 0 \<Longrightarrow> cmp a c \<le> 0"
  by (simp add: cmp_le_iff)

lemma cmp_strict_trans: "cmp a b \<le> 0 \<Longrightarrow> cmp b c < 0 \<Longrightarrow> cmp a c < 0"
  by (simp add: cmp_le_iff cmp_less_iff)

end

lemma compare_ident_key: "compare_ident x y = cmp_of (ident_key_of x) (ident_key_of y)"
  by (auto simp: compare_ident_def cmp_of_def ident_key_of_def less_ident_key_def Let_def)

lemma compare_idents_key:
  "compare_idents xs ys = cmp_of (map ident_key_of xs) (map ident_key_of ys)"
proof (induction xs ys rule: compare_idents.induct)
  case (4 x xs y ys)
  then show ?case by (auto simp: compare_ident_key cmp_of_def Let_def split: if_splits)
qed (auto simp: cmp_of_def)

lemma compare_pre_key: "compare_pre p q = cmp_of (pre_key_of p) (pre_key_of q)"
  by (cases p; cases q)
    (auto simp: compare_pre_def pre_key_of_def compare_idents_key cmp_of_def less_pre_key_def)

lemma version_key_less [simp]:
  "ValidVersion p < ValidVersion q \<longleftrightarrow> p < q"
  "ValidVersion p < InvalidVersion t" "\<not> InvalidVersion s < ValidVersion q"
  "InvalidVersion s < InvalidVersion t \<longleftrightarrow> s < t"
  by (auto simp: less_version_key_def)

lemma cmp_of_prod: "cmp_of (a, b) (c, d) = (if a < c then -1 else if c < a then 1 else cmp_of b d)"
  for a c :: "'a::linorder" and b d :: "'b::linorder"
  by (auto simp: cmp_of_def)

lemma cmp_of_valid: "cmp_of (ValidVersion p) (ValidVersion q) = cmp_of p q"
  by (simp add: cmp_of_def)

lemma compare_semver_key: "compare_semver a b = cmp_of (version_key_of a) (version_key_of b)"
proof (cases "parse_semver a"; cases "parse_semver b")
  fix pa pb assume "parse_semver a = Some pa" "parse_semver b = Some pb"
  then show ?thesis
    by (simp add: compare_semver_def version_key_of_def compare_pre_key cmp_of_valid cmp_of_prod)
qed (auto simp: compare_semver_def version_key_of_def cmp_of_def)

interpretation semver: key_comparator compare_semver version_key_of
  by unfold_locales (rule compare_semver_key)

section \<open>Parsing and printing\<close>

definition print_semver :: "semver \<Rightarrow> string" where
  "print_semver p = str_of_nat (sv_major p) @ ''.'' @ str_of_nat (sv_minor p) @ ''.'' @
     str_of_nat (sv_patch p) @ (case sv_pre p of None \<Rightarrow> [] | Some x \<Rightarrow> ''-'' @ x) @
     (case sv_build p of None \<Rightarrow> [] | Some x \<Rightarrow> ''+'' @ x)"

definition wf_group :: "string option \<Rightarrow> bool" where
  "wf_group g = (case g of None \<Rightarrow> True | Some x \<Rightarrow> x \<noteq> [] \<and> list_all semver_char x)"

definition wf_semver :: "semver \<Rightarrow> bool" where
  "wf_semver p = (wf_group (sv_pre p) \<and> wf_group (sv_build p))"

lemma takeWhile_append_stop:
  "list_all p xs \<Longrightarrow> (\<forall>c s. ys = c # s \<longrightarrow> \<not> p c) \<Longrightarrow> takeWhile p (xs @ ys) = xs"
  by (cases ys) (auto simp: takeWhile_append list_all_iff)

lemma dropWhile_append_stop:
  "list_all p xs \<Longrightarrow> (\<forall>c s. ys = c # s \<longrightarrow> \<not> p c) \<Longrightarrow> dropWhile p (xs @ ys) = ys"
  by (cases ys) (auto simp: dropWhile_append list_all_iff)

lemma take_number_print:
  "(\<forall>c s. r = c # s \<longrightarrow> \<not> ascii_digit c) \<Longrightarrow> take_number (str_of_nat n @ r) = Some (n, r)"
  by (simp add: take_number_def takeWhile_append_stop dropWhile_append_stop str_of_nat_digits Let_def)

lemma take_group_Some:
  "x \<noteq> [] \<Longrightarrow> list_all semver_char x \<Longrightarrow> (\<forall>c s. r = c # s \<longrightarrow> \<not> semver_char c) \<Longrightarrow>
   take_group d (d # x @ r) = (Some x, r)"
  by (simp add: take_group_def take_char_def takeWhile_append_stop dropWhile_append_stop Let_def)

lemma take_group_None: "(\<forall>c s. r = c # s \<longrightarrow> c \<noteq> d) \<Longrightarrow> take_group d r = (None, r)"
  by (cases r) (auto simp: take_group_def take_char_def)

lemma char_classes [simp]:
  "\<not> ascii_digit (CHR ''.'')" "\<not> ascii_digit (CHR ''-'')" "\<not> ascii_digit (CHR ''+'')"
  "\<not> semver_char (CHR ''+'')" "\<not> ascii_digit (CHR ''v'')"
  by (simp_all add: ascii_digit_def semver_char_def ascii_alpha_def Let_def)

lemma match_print_groups:
  assumes "wf_semver p"
  shows "take_group (CHR ''-'')
      ((case sv_pre p of None \<Rightarrow> [] | Some x \<Rightarrow> ''-'' @ x) @
       (case sv_build p of None \<Rightarrow> [] | Some x \<Rightarrow> ''+'' @ x)) =
      (sv_pre p, case sv_build p of None \<Rightarrow> [] | Some x \<Rightarrow> ''+'' @ x)"
    and "take_group (CHR ''+'') (case sv_build p of None \<Rightarrow> [] | Some x \<Rightarrow> ''+'' @ x) =
      (sv_build p, [])"
proof -
  show "take_group (CHR ''-'')
      ((case sv_pre p of None \<Rightarrow> [] | Some x \<Rightarrow> ''-'' @ x) @
       (case sv_build p of None \<Rightarrow> [] | Some x \<Rightarrow> ''+'' @ x)) =
      (sv_pre p, case sv_build p of None \<Rightarrow> [] | Some x \<Rightarrow> ''+'' @ x)"
  proof (cases "sv_pre p")
    case None
    then show ?thesis by (simp add: take_group_None split: option.split)
  next
    case (Some x)
    then show ?thesis
      using assms take_group_Some [of x "case sv_build p of None \<Rightarrow> [] | Some x \<Rightarrow> ''+'' @ x" "CHR ''-''"]
      by (auto simp: wf_semver_def wf_group_def split: option.splits)
  qed
  show "take_group (CHR ''+'') (case sv_build p of None \<Rightarrow> [] | Some x \<Rightarrow> ''+'' @ x) =
      (sv_build p, [])"
    using assms take_group_Some [of _ "[]" "CHR ''+''"]
    by (auto simp: wf_semver_def wf_group_def take_group_None split: option.splits)
qed

lemma match_print_semver:
  assumes "wf_semver p"
  shows "match_semver (print_semver p) = Some p"
proof -
  let ?g = "(case sv_pre p of None \<Rightarrow> [] | Some x \<Rightarrow> ''-'' @ x) @
            (case sv_build p of None \<Rightarrow> [] | Some x \<Rightarrow> ''+'' @ x)"
  have g: "\<forall>c s. ?g = c # s \<longrightarrow> \<not> ascii_digit c"
    by (auto split: option.splits)
  have n: "take_number (str_of_nat (sv_patch p) @ ?g) = Some (sv_patch p, ?g)"
    using g by (rule take_number_print)
  show ?thesis
    unfolding match_semver_def print_semver_def
    using n by (simp add: take_number_print take_char_def match_print_groups [OF assms])
qed

lemma semver_char_not_space: "semver_char c \<Longrightarrow> \<not> py_isspace c"
  by (auto simp: semver_char_def ascii_digit_def ascii_alpha_def py_isspace_def Let_def)

lemma print_semver_chars:
  "wf_semver p \<Longrightarrow> c \<in> set (print_semver p) \<Longrightarrow> semver_char c \<or> c = CHR ''+''"
  using str_of_nat_digits [of "sv_major p"] str_of_nat_digits [of "sv_minor p"]
    str_of_nat_digits [of "sv_patch p"]
  by (auto simp: print_semver_def wf_semver_def wf_group_def semver_char_def list_all_iff
      split: option.splits)

lemma print_semver_hd: "\<exists>c s. print_semver p = c # s \<and> ascii_digit c"
proof -
  obtain c s where "str_of_nat (sv_major p) = c # s"
    using str_of_nat_neq_Nil by (metis list.exhaust)
  with str_of_nat_digits [of "sv_major p"] show ?thesis by (simp add: print_semver_def)
qed

lemma py_strip_no_space: "list_all (\<lambda>c. \<not> py_isspace c) s \<Longrightarrow> py_strip s = s"
proof -
  have d: "list_all (\<lambda>c. \<not> py_isspace c) t \<Longrightarrow> dropWhile py_isspace t = t" for t
    by (cases t) auto
  assume "list_all (\<lambda>c. \<not> py_isspace c) s"
  then show ?thesis using d [of s] d [of "rev s"] by (simp add: py_strip_def py_lstrip_def py_rstrip_def)
qed

lemma print_semver_not_space: "wf_semver p \<Longrightarrow> list_all (\<lambda>c. \<not> py_isspace c) (print_semver p)"
proof -
  assume "wf_semver p"
  moreover have "\<not> py_isspace (CHR ''+'')" by (simp add: py_isspace_def Let_def)
  ultimately show ?thesis
    using print_semver_chars semver_char_not_space by (metis list_all_iff)
qed

lemma parse_print_semver: "wf_semver p \<Longrightarrow> parse_semver (print_semver p) = Some p"
proof -
  assume p: "wf_semver p"
  obtain c s where "print_semver p = c # s" "ascii_digit c" using print_semver_hd by blast
  then have "lstrip_chars ''v'' (print_semver p) = print_semver p"
    by (auto simp: lstrip_chars_def)
  with p show ?thesis
    by (simp add: parse_semver_def py_strip_no_space print_semver_not_space match_print_semver)
qed

text \<open>The strings \<^verbatim>\<open>f"{major}.{minor}.0"\<close> that the range operators build parse to what they say.\<close>

definition release_text :: "nat \<Rightarrow> nat \<Rightarrow> nat \<Rightarrow> string" where
  "release_text a b c = str_of_nat a @ ''.'' @ str_of_nat b @ ''.'' @ str_of_nat c"

lemma parse_release_text:
  "parse_semver (release_text a b c) =
     Some \<lparr>sv_major = a, sv_minor = b, sv_patch = c, sv_pre = None, sv_build = None\<rparr>"
proof -
  let ?p = "\<lparr>sv_major = a, sv_minor = b, sv_patch = c, sv_pre = None, sv_build = None\<rparr>"
  have "release_text a b c = print_semver ?p" by (simp add: release_text_def print_semver_def)
  then show ?thesis using parse_print_semver [of ?p] by (simp add: wf_semver_def wf_group_def)
qed

section \<open>Conflict resolution\<close>

lemma max_by_in: "max_by k b xs \<in> insert b (set xs)"
  by (induction xs arbitrary: b) (auto split: if_splits)

lemma max_by_ge_start: "k b \<le> k (max_by k b xs)"
proof (induction xs arbitrary: b)
  case (Cons x xs)
  have "k b \<le> k (if k b < k x then x else b)" by auto
  also have "\<dots> \<le> k (max_by k (if k b < k x then x else b) xs)" by (rule Cons)
  finally show ?case by simp
qed simp

lemma max_by_ge: "y \<in> insert b (set xs) \<Longrightarrow> k y \<le> k (max_by k b xs)"
proof (induction xs arbitrary: b)
  case (Cons x xs)
  let ?b = "if k b < k x then x else b"
  have s: "k ?b \<le> k (max_by k ?b xs)" by (rule max_by_ge_start)
  show ?case
  proof (cases "y \<in> set xs")
    case True
    then show ?thesis using Cons.IH [of ?b] by simp
  next
    case False
    with Cons.prems have "y = b \<or> y = x" by auto
    then have "k y \<le> k ?b" by auto
    with s show ?thesis by simp
  qed
qed simp

definition unique_versions :: "string list \<Rightarrow> string list" where
  "unique_versions vs = sort (remdups vs)"

lemma set_unique_versions [simp]: "set (unique_versions vs) = set vs"
  by (simp add: unique_versions_def)

lemma unique_versions_Nil [simp]: "unique_versions vs = [] \<longleftrightarrow> vs = []"
  by (metis set_empty set_unique_versions)

lemma unique_versions_single: "length (unique_versions vs) = 1 \<longleftrightarrow> (\<exists>v. set vs = {v})"
proof -
  have "length (unique_versions vs) = card (set vs)"
    by (simp add: unique_versions_def length_remdups_card_conv)
  then show ?thesis by (metis One_nat_def card_1_singleton_iff)
qed

lemma resolve_conflict_iff:
  "cr_conflict (resolve_version_conflict vs) \<longleftrightarrow> (\<exists>v \<in> set vs. \<exists>w \<in> set vs. v \<noteq> w)"
proof (cases "vs = []")
  case True
  then show ?thesis by (simp add: resolve_version_conflict_def)
next
  case False
  then have "cr_conflict (resolve_version_conflict vs) \<longleftrightarrow> \<not> (\<exists>v. set vs = {v})"
    using unique_versions_single [of vs]
    by (auto simp: resolve_version_conflict_def unique_versions_def [symmetric] Let_def)
  also have "\<dots> \<longleftrightarrow> (\<exists>v \<in> set vs. \<exists>w \<in> set vs. v \<noteq> w)"
  proof -
    obtain v where v: "v \<in> set vs" using False by (cases vs) auto
    then have single: "(\<exists>x. set vs = {x}) \<longleftrightarrow> set vs = {v}" by (metis singletonD)
    show ?thesis unfolding single using v by (rule not_singleton_iff)
  qed
  finally show ?thesis .
qed

text \<open>The winner is a maximum of the pair of validity and the sort key of the code.\<close>

lemma resolve_winner_key:
  assumes "cr_winner (resolve_version_conflict vs) = Some w" and "v \<in> set vs"
    and "\<exists>x \<in> set vs. parse_semver x \<noteq> None"
  shows "w \<in> set vs"
    and "(parse_semver v \<noteq> None, semver_sort_key v) \<le> (parse_semver w \<noteq> None, semver_sort_key w)"
proof -
  let ?u = "unique_versions vs"
  let ?k = "\<lambda>v. (parse_semver v \<noteq> None, semver_sort_key v)"
  have ne: "vs \<noteq> []" using assms(2) by auto
  then have u: "?u = hd ?u # tl ?u" using unique_versions_Nil by (metis list.collapse)
  have valid: "filter (\<lambda>v. parse_semver v \<noteq> None) ?u \<noteq> []"
    using assms(3) by (auto simp: filter_empty_conv)
  have w: "w = max_by ?k (hd ?u) (tl ?u) \<or> (length ?u = 1 \<and> w = hd ?u)"
    using assms(1) ne valid
    by (auto simp: resolve_version_conflict_def unique_versions_def [symmetric] Let_def
        split: if_splits)
  have s: "insert (hd ?u) (set (tl ?u)) = set vs"
    using u by (metis list.simps(15) set_unique_versions)
  have "w \<in> insert (hd ?u) (set (tl ?u))"
    using w max_by_in [of ?k "hd ?u" "tl ?u"] by blast
  then show "w \<in> set vs" by (simp only: s)
  show "?k v \<le> ?k w"
  proof (cases "length ?u = 1")
    case True
    then obtain x where "set vs = {x}" using unique_versions_single by blast
    with assms(2) \<open>w \<in> set vs\<close> show ?thesis by auto
  next
    case False
    then have "w = max_by ?k (hd ?u) (tl ?u)" using w by blast
    moreover have "v \<in> insert (hd ?u) (set (tl ?u))" using assms(2) by (simp only: s)
    ultimately show ?thesis using max_by_ge [of v "hd ?u" "tl ?u" ?k] by (simp only:)
  qed
qed

lemma resolve_winner_exists: "vs \<noteq> [] \<Longrightarrow> \<exists>w. cr_winner (resolve_version_conflict vs) = Some w"
  by (auto simp: resolve_version_conflict_def Let_def)

section \<open>Grouping by canonical key\<close>

definition versions_for :: "string \<Rightarrow> versioned list \<Rightarrow> string list" where
  "versions_for k caps = map versioned_version
     (filter (\<lambda>c. versioned_key c = k \<and> versioned_key c \<noteq> [] \<and> versioned_version c \<noteq> []) caps)"

lemma map_of_append_to_key:
  "map_of (append_to_key k v m) x =
     (if x = k then Some ((case map_of m k of None \<Rightarrow> [] | Some vs \<Rightarrow> vs) @ [v]) else map_of m x)"
  by (induction k v m rule: append_to_key.induct) auto

lemma keys_append_to_key: "fst ` set (append_to_key k v m) = insert k (fst ` set m)"
  by (induction k v m rule: append_to_key.induct) auto

lemma distinct_append_to_key:
  "distinct (map fst m) \<Longrightarrow> distinct (map fst (append_to_key k v m))"
proof (induction k v m rule: append_to_key.induct)
  case (2 k v k' vs m)
  have "k' \<in> fst ` set (append_to_key k v m) \<longleftrightarrow> k' = k \<or> k' \<in> fst ` set m"
    by (simp add: keys_append_to_key)
  with 2 show ?case by auto
qed simp

lemma distinct_group_versions:
  "distinct (map fst m) \<Longrightarrow> distinct (map fst (group_versions m caps))"
  by (induction m caps rule: group_versions.induct) (auto simp: Let_def distinct_append_to_key)

lemma map_of_group_versions:
  "map_of (group_versions m caps) k =
     (if versions_for k caps = [] then map_of m k
      else Some ((case map_of m k of None \<Rightarrow> [] | Some vs \<Rightarrow> vs) @ versions_for k caps))"
  by (induction m caps rule: group_versions.induct)
    (auto simp: Let_def versions_for_def map_of_append_to_key split: option.splits)

lemma group_versions_iff:
  "(k, vs) \<in> set (group_versions [] caps) \<longleftrightarrow> vs = versions_for k caps \<and> vs \<noteq> []"
proof -
  have "(k, vs) \<in> set (group_versions [] caps) \<longleftrightarrow> map_of (group_versions [] caps) k = Some vs"
    using distinct_group_versions [of "[]" caps] by simp
  then show ?thesis by (auto simp: map_of_group_versions)
qed

section \<open>Properties\<close>

text \<open>The three-way comparison of version strings is a total preorder on all strings: it
  only returns -1, 0 or 1, swapping the arguments negates it, and it is transitive, also
  through versions that differ in a numeric, a textual or a missing pre-release identifier and
  through strings that do not parse.\<close>

theorem compare_semver_total_preorder:
  "compare_semver a b \<in> {-1, 0, 1} \<and> compare_semver a a = 0 \<and>
   compare_semver b a = - compare_semver a b \<and>
   \<not> (compare_semver a b \<le> 0 \<and> compare_semver b c \<le> 0 \<and> 0 < compare_semver a c)"
  using semver.cmp_trans [of a b c] semver.cmp_range [of a b] semver.cmp_swap [of b a]
  by (auto simp: semver.cmp_refl)

text \<open>Every well-formed version prints to a string that parses back to the same version,
  so no printed version is lost or confused with another one.\<close>

theorem parse_semver_roundtrip:
  assumes "wf_semver p"
  shows "parse_semver (print_semver p) = Some p"
  using assms by (rule parse_print_semver)

theorem parse_semver_roundtrip_witness:
  "parse_semver (print_semver \<lparr>sv_major = 1, sv_minor = 20, sv_patch = 3,
      sv_pre = Some ''rc.1'', sv_build = Some ''x''\<rparr>) =
   Some \<lparr>sv_major = 1, sv_minor = 20, sv_patch = 3, sv_pre = Some ''rc.1'', sv_build = Some ''x''\<rparr>"
  by (rule parse_semver_roundtrip)
    (simp add: wf_semver_def wf_group_def semver_char_def ascii_digit_def ascii_alpha_def Let_def)

text \<open>The winner of a conflict is one of the versions, it is a version that parses whenever
  one does, and no version of the list has a larger major, minor and patch triple; at the same
  triple a release is never beaten by a pre-release.\<close>

theorem resolve_winner_dominates:
  assumes "cr_winner (resolve_version_conflict vs) = Some w"
    and "v \<in> set vs" and "parse_semver v = Some p"
  shows "w \<in> set vs \<and> (\<exists>q. parse_semver w = Some q \<and>
    (sv_major p, sv_minor p, sv_patch p) \<le> (sv_major q, sv_minor q, sv_patch q) \<and>
    ((sv_major p, sv_minor p, sv_patch p) = (sv_major q, sv_minor q, sv_patch q) \<and>
       sv_pre p = None \<longrightarrow> sv_pre q = None))"
proof -
  have ex: "\<exists>x \<in> set vs. parse_semver x \<noteq> None" using assms(2,3) by auto
  note k = resolve_winner_key [OF assms(1,2) ex]
  have "parse_semver w \<noteq> None" using k(2) assms(3) by auto
  then obtain q where q: "parse_semver w = Some q" by auto
  have "semver_sort_key v \<le> semver_sort_key w" using k(2) assms(3) q by auto
  with assms(3) q k(1) show ?thesis
    by (auto simp: semver_sort_key_def split: option.splits)
qed

theorem resolve_winner_dominates_witness:
  "''2.0.0'' \<in> set [''1.9.0'', ''2.0.0'', ''latest''] \<and>
   (\<exists>q. parse_semver ''2.0.0'' = Some q \<and> (1, 9, 0) \<le> (sv_major q, sv_minor q, sv_patch q))"
proof -
  have w: "cr_winner (resolve_version_conflict [''1.9.0'', ''2.0.0'', ''latest'']) = Some ''2.0.0''"
    by code_simp
  have p: "parse_semver ''1.9.0'' = Some \<lparr>sv_major = 1, sv_minor = 9, sv_patch = 0,
      sv_pre = None, sv_build = None\<rparr>"
    by code_simp
  show ?thesis using resolve_winner_dominates [OF w _ p] by auto
qed

text \<open>The winner of a conflict need not be a maximum of the comparison the rest of the
  service uses: pre-release identifiers are compared as whole strings by the sort key, so
  alpha.2 wins over alpha.10 although the comparison orders them the other way round.\<close>

theorem resolve_winner_not_semver_max:
  "\<exists>vs v w. cr_winner (resolve_version_conflict vs) = Some w \<and> v \<in> set vs \<and>
     parse_semver v \<noteq> None \<and> parse_semver w \<noteq> None \<and> compare_semver w v = -1"
proof (intro exI conjI)
  let ?v = "''1.0.0-alpha.10''" and ?w = "''1.0.0-alpha.2''"
  show "cr_winner (resolve_version_conflict [?v, ?w]) = Some ?w" by code_simp
  show "?v \<in> set [?v, ?w]" by simp
  show "parse_semver ?v \<noteq> None" by code_simp
  show "parse_semver ?w \<noteq> None" by code_simp
  show "compare_semver ?w ?v = -1" by code_simp
qed

text \<open>A canonical key is reported as conflicting exactly when two capabilities carry that
  key with two different non-empty versions, and it is reported once.\<close>

theorem check_version_conflicts_exact:
  "distinct (map vcf_key (check_version_conflicts caps)) \<and>
   (k \<in> vcf_key ` set (check_version_conflicts caps) \<longleftrightarrow>
     k \<noteq> [] \<and> (\<exists>c \<in> set caps. \<exists>d \<in> set caps. versioned_key c = k \<and> versioned_key d = k \<and>
       versioned_version c \<noteq> [] \<and> versioned_version d \<noteq> [] \<and>
       versioned_version c \<noteq> versioned_version d))"
proof
  let ?g = "group_versions [] caps"
  have "distinct (map fst ?g)" by (rule distinct_group_versions) simp
  then show "distinct (map vcf_key (check_version_conflicts caps))"
    by (simp add: check_version_conflicts_def comp_def case_prod_unfold distinct_map_filter)
  have "k \<in> vcf_key ` set (check_version_conflicts caps) \<longleftrightarrow>
      (\<exists>vs. (k, vs) \<in> set ?g \<and> cr_conflict (resolve_version_conflict vs))"
    by (force simp: check_version_conflicts_def)
  also have "\<dots> \<longleftrightarrow> (\<exists>v \<in> set (versions_for k caps). \<exists>w \<in> set (versions_for k caps). v \<noteq> w)"
    by (auto simp: group_versions_iff resolve_conflict_iff)
  also have "\<dots> \<longleftrightarrow> k \<noteq> [] \<and> (\<exists>c \<in> set caps. \<exists>d \<in> set caps. versioned_key c = k \<and>
       versioned_key d = k \<and> versioned_version c \<noteq> [] \<and> versioned_version d \<noteq> [] \<and>
       versioned_version c \<noteq> versioned_version d)"
    unfolding versions_for_def set_map set_filter bex_simps image_iff by (auto 0 4)
  finally show "k \<in> vcf_key ` set (check_version_conflicts caps) \<longleftrightarrow>
     k \<noteq> [] \<and> (\<exists>c \<in> set caps. \<exists>d \<in> set caps. versioned_key c = k \<and> versioned_key d = k \<and>
       versioned_version c \<noteq> [] \<and> versioned_version d \<noteq> [] \<and>
       versioned_version c \<noteq> versioned_version d)" .
qed

end
