(* ===== verification/Py_Json.thy ===== *)
theory Py_Json
  imports Py_Prelude
begin

text \<open>
  JSON values and \<^verbatim>\<open>json.dumps(value, sort_keys=True, separators=(",", ":"))\<close>
  (\<^verbatim>\<open>utils.json_dumps\<close>): the text that the hash chain of the registry log covers. Floats do not
  occur in what the modelled code serialises. A column that only stores such a text is kept
  as the value, which is what \<^verbatim>\<open>json_loads\<close> gives back.
\<close>

datatype json =
    JNull
  | JBool bool
  | JInt int
  | JStr string
  | JList "json list"
  | JObj "(string \<times> json) list"

definition json_hex4 :: "nat \<Rightarrow> string" where
  "json_hex4 n = (let h = (\<lambda>k. if k < 10 then char_of (k + 48) else char_of (k + 87)) in
     [CHR ''0'', CHR ''0'', h (n div 16), h (n mod 16)])"

definition json_escape_char :: "char \<Rightarrow> string" where
  "json_escape_char c = (let n = code_point c in
     if n = 34 then [CHR 0x5C, CHR 0x22] else if n = 92 then [CHR 0x5C, CHR 0x5C]
     else if n = 10 then [CHR 0x5C, CHR ''n''] else if n = 13 then [CHR 0x5C, CHR ''r'']
     else if n = 9 then [CHR 0x5C, CHR ''t''] else if n = 8 then [CHR 0x5C, CHR ''b'']
     else if n = 12 then [CHR 0x5C, CHR ''f'']
     else if n < 32 \<or> 126 < n then [CHR 0x5C, CHR ''u''] @ json_hex4 n
     else [c])"

definition json_quote :: "string \<Rightarrow> string" where
  "json_quote s = [CHR 0x22] @ concat (map json_escape_char s) @ [CHR 0x22]"

fun json_dumps :: "json \<Rightarrow> string" where
  "json_dumps JNull = ''null''"
| "json_dumps (JBool b) = (if b then ''true'' else ''false'')"
| "json_dumps (JInt i) = str_of_int i"
| "json_dumps (JStr s) = json_quote s"
| "json_dumps (JList xs) = ''['' @ join_with '','' (map json_dumps xs) @ '']''"
| "json_dumps (JObj kvs) = ''{'' @ join_with '',''
     (map (\<lambda>(k, t). json_quote k @ '':'' @ t)
       (sort_key fst (map (\<lambda>(k, v). (k, json_dumps v)) kvs))) @ ''}''"

text \<open>\<^verbatim>\<open>{**d, k: v}\<close>: an existing key keeps its place, a new one goes to the end.\<close>

fun dict_set :: "string \<Rightarrow> 'v \<Rightarrow> (string \<times> 'v) list \<Rightarrow> (string \<times> 'v) list" where
  "dict_set k v [] = [(k, v)]"
| "dict_set k v ((k', w) # d) = (if k = k' then (k, v) # d else (k', w) # dict_set k v d)"

definition dict_merge :: "(string \<times> 'v) list \<Rightarrow> (string \<times> 'v) list \<Rightarrow> (string \<times> 'v) list" where
  "dict_merge d e = foldl (\<lambda>m (k, v). dict_set k v m) d e"

definition json_opt :: "string option \<Rightarrow> json" where
  "json_opt x = (case x of None \<Rightarrow> JNull | Some s \<Rightarrow> JStr s)"

lemma map_of_dict_set: "map_of (dict_set k v d) = (map_of d)(k \<mapsto> v)"
  by (induction k v d rule: dict_set.induct) (auto simp: fun_upd_twist)

lemma keys_dict_set: "fst ` set (dict_set k v d) = insert k (fst ` set d)"
  by (induction k v d rule: dict_set.induct) auto

lemma distinct_dict_set: "distinct (map fst d) \<Longrightarrow> distinct (map fst (dict_set k v d))"
proof (induction k v d rule: dict_set.induct)
  case (2 k v k' w d)
  have "k' \<in> fst ` set (dict_set k v d) \<longleftrightarrow> k' = k \<or> k' \<in> fst ` set d"
    by (simp add: keys_dict_set)
  with 2 show ?case by auto
qed simp

end
