(* ===== verification/Py_Time.thy ===== *)
theory Py_Time
  imports Py_Prelude
begin

text \<open>
  Clock readings as text. The service stores and compares every instant as a string:
  \<^verbatim>\<open>utils.utc_now\<close> and \<^verbatim>\<open>utils.expires_in\<close> (whole seconds, suffix Z), \<^verbatim>\<open>datetime.isoformat\<close>
  (microseconds, suffix +00:00) and SQLite's CURRENT_TIMESTAMP. An instant is the number of
  seconds or microseconds since 1970-01-01T00:00:00Z, in the proleptic Gregorian calendar.

  The theorem of this theory is that the order of such strings is the order of time, up to the
  end of the year 9999.
\<close>

section \<open>The calendar\<close>

definition leap_year :: "nat \<Rightarrow> bool" where
  "leap_year y = (4 dvd y \<and> (\<not> 100 dvd y \<or> 400 dvd y))"

definition days_in_year :: "nat \<Rightarrow> nat" where
  "days_in_year y = (if leap_year y then 366 else 365)"

definition month_lengths :: "nat \<Rightarrow> nat list" where
  "month_lengths y = [31, if leap_year y then 29 else 28, 31, 30, 31, 30, 31, 31, 30, 31, 30, 31]"

lemma days_in_year_pos [simp]: "0 < days_in_year y"
  by (simp add: days_in_year_def)

text \<open>The year and the day of the year, and the month and the day of the month, counted from 0.\<close>

function year_split :: "nat \<Rightarrow> nat \<Rightarrow> nat \<times> nat" where
  "year_split y n = (if n < days_in_year y then (y, n) else year_split (Suc y) (n - days_in_year y))"
  by auto
termination
proof (relation "measure snd")
  fix y n :: nat
  assume "\<not> n < days_in_year y"
  with days_in_year_pos [of y] have "n - days_in_year y < n" by linarith
  then show "((Suc y, n - days_in_year y), y, n) \<in> measure snd" by simp
qed simp

declare year_split.simps [simp del]

fun month_split :: "nat list \<Rightarrow> nat \<Rightarrow> nat \<times> nat" where
  "month_split [] n = (0, n)"
| "month_split (l # ls) n = (if n < l then (0, n) else (case month_split ls (n - l) of (m, d) \<Rightarrow> (Suc m, d)))"

record civil =
  cv_year :: nat
  cv_month :: nat
  cv_day :: nat
  cv_second :: nat

definition civil_of_seconds :: "nat \<Rightarrow> civil" where
  "civil_of_seconds s =
     (let (y, yd) = year_split 1970 (s div 86400); (m, d) = month_split (month_lengths y) yd
      in \<lparr>cv_year = y, cv_month = m + 1, cv_day = d + 1, cv_second = s mod 86400\<rparr>)"

section \<open>Text\<close>

text \<open>\<^verbatim>\<open>f"{n:0{w}d}"\<close>.\<close>

definition zero_pad :: "nat \<Rightarrow> nat \<Rightarrow> string" where
  "zero_pad w n = replicate (w - length (str_of_nat n)) (CHR ''0'') @ str_of_nat n"

definition time_text :: "nat \<Rightarrow> string" where
  "time_text sec = zero_pad 2 (sec div 3600) @ '':'' @ zero_pad 2 (sec div 60 mod 60) @ '':'' @
     zero_pad 2 (sec mod 60)"

definition date_text :: "char \<Rightarrow> civil \<Rightarrow> string" where
  "date_text sep c =
     zero_pad 4 (cv_year c) @ ''-'' @ zero_pad 2 (cv_month c) @ ''-'' @ zero_pad 2 (cv_day c) @ [sep] @
     time_text (cv_second c)"

definition utc_text :: "nat \<Rightarrow> string" where
  "utc_text s = date_text (CHR ''T'') (civil_of_seconds s) @ ''Z''"

definition sql_text :: "nat \<Rightarrow> string" where
  "sql_text s = date_text (CHR '' '') (civil_of_seconds s)"

text \<open>\<^verbatim>\<open>datetime.isoformat()\<close> of an aware UTC value: the fraction is omitted when it is 0.\<close>

definition iso_text :: "nat \<Rightarrow> string" where
  "iso_text us = date_text (CHR ''T'') (civil_of_seconds (us div 1000000)) @
     (if us mod 1000000 = 0 then [] else ''.'' @ zero_pad 6 (us mod 1000000)) @ ''+00:00''"

section \<open>Order\<close>

lemma mod_less_same_div:
  fixes m n k :: nat
  assumes "m < n" "m div k = n div k"
  shows "m mod k < n mod k"
proof -
  have "m div k * k + m mod k < m div k * k + n mod k"
    using assms(1) div_mult_mod_eq [of m k] div_mult_mod_eq [of n k] assms(2) by simp
  then show ?thesis by (simp only: add_less_cancel_left)
qed

text \<open>Splitting into years and into months is strictly monotone for the lexicographic order.\<close>

definition lex_less :: "nat \<times> nat \<Rightarrow> nat \<times> nat \<Rightarrow> bool" where
  "lex_less a b = (fst a < fst b \<or> fst a = fst b \<and> snd a < snd b)"

lemma year_split_ge: "y \<le> fst (year_split y n)"
proof (induction y n rule: year_split.induct)
  case (1 y n)
  then show ?case by (subst year_split.simps) auto
qed

lemma year_split_mono: "n < n' \<Longrightarrow> lex_less (year_split y n) (year_split y n')"
proof (induction y n arbitrary: n' rule: year_split.induct)
  case (1 y n)
  show ?case
  proof (cases "n < days_in_year y")
    case True
    show ?thesis
    proof (cases "n' < days_in_year y")
      case True
      with 1(2) show ?thesis by (subst (1 2) year_split.simps) (simp add: lex_less_def)
    next
      case False
      with \<open>n < days_in_year y\<close> year_split_ge [of "Suc y" "n' - days_in_year y"] show ?thesis
        by (subst (1 2) year_split.simps) (simp add: lex_less_def)
    qed
  next
    case False
    with 1(2) have "n - days_in_year y < n' - days_in_year y" "\<not> n' < days_in_year y" by auto
    with 1(1) [OF False, of "n' - days_in_year y"] False show ?thesis
      by (subst (1 2) year_split.simps) simp
  qed
qed

lemma month_split_mono: "n < n' \<Longrightarrow> lex_less (month_split ls n) (month_split ls n')"
proof (induction ls n arbitrary: n' rule: month_split.induct)
  case (2 l ls n)
  show ?case
  proof (cases "n < l")
    case True
    with 2(2) show ?thesis by (auto simp: lex_less_def case_prod_unfold)
  next
    case False
    with 2(2) have "n - l < n' - l" "\<not> n' < l" by auto
    with 2(1) [OF False, of "n' - l"] False show ?thesis by (simp add: lex_less_def case_prod_unfold)
  qed
qed (simp add: lex_less_def)

text \<open>Fields stay in their width: months and days in two digits, years in four until 9999.\<close>

lemma month_split_bounds:
  "n < sum_list ls \<Longrightarrow> \<forall>l \<in> set ls. l \<le> 31 \<Longrightarrow>
     fst (month_split ls n) < length ls \<and> snd (month_split ls n) < 31"
proof (induction ls n rule: month_split.induct)
  case (2 l ls n)
  show ?case
  proof (cases "n < l")
    case True
    with 2(3) show ?thesis by auto
  next
    case False
    with 2(2) have "n - l < sum_list ls" by simp
    with 2(1) [OF False] 2(3) False show ?thesis by (simp add: case_prod_unfold)
  qed
qed simp

lemma year_split_rest: "snd (year_split y n) < days_in_year (fst (year_split y n))"
proof (induction y n rule: year_split.induct)
  case (1 y n)
  then show ?case by (subst (1 2) year_split.simps) auto
qed

lemma month_lengths_sum: "sum_list (month_lengths y) = days_in_year y"
  by (simp add: month_lengths_def days_in_year_def)

lemma length_month_lengths: "length (month_lengths y) = 12"
  by (simp add: month_lengths_def)

lemma civil_bounds:
  "1 \<le> cv_month (civil_of_seconds s)" "cv_month (civil_of_seconds s) \<le> 12"
  "1 \<le> cv_day (civil_of_seconds s)" "cv_day (civil_of_seconds s) \<le> 31"
  "cv_second (civil_of_seconds s) < 86400"
proof -
  obtain y yd where y: "year_split 1970 (s div 86400) = (y, yd)" by fastforce
  obtain m d where m: "month_split (month_lengths y) yd = (m, d)" by fastforce
  have "yd < sum_list (month_lengths y)"
    using year_split_rest [of 1970 "s div 86400"] by (simp add: y month_lengths_sum)
  moreover have "\<forall>l \<in> set (month_lengths y). l \<le> 31" by (simp add: month_lengths_def)
  ultimately have "m < 12" "d < 31"
    using month_split_bounds [of yd "month_lengths y"] m by (simp_all add: length_month_lengths)
  then show "1 \<le> cv_month (civil_of_seconds s)" "cv_month (civil_of_seconds s) \<le> 12"
    "1 \<le> cv_day (civil_of_seconds s)" "cv_day (civil_of_seconds s) \<le> 31"
    "cv_second (civil_of_seconds s) < 86400"
    by (simp_all add: civil_of_seconds_def y m)
qed

text \<open>Strings of one length compare by their first difference.\<close>

lemma less_append:
  fixes a b :: string
  assumes "a < b" "length a = length b"
  shows "a @ u < b @ v"
  using assms by (simp add: list_less_def lexord_sufI)

lemma less_prefix:
  fixes a :: string
  assumes "u < v"
  shows "a @ u < a @ v"
  using assms by (simp add: list_less_def lexord_append_leftI)

lemma zero_pad_1: "n < 10 \<Longrightarrow> zero_pad 1 n = [char_of (n + 48)]"
  by (simp add: zero_pad_def str_of_nat.simps)

lemma zero_pad_Suc:
  assumes "0 < w"
  shows "zero_pad (Suc w) n = zero_pad w (n div 10) @ [char_of (n mod 10 + 48)]"
proof (cases "n < 10")
  case True
  have "(CHR ''0'') = char_of (48::nat)" by code_simp
  with True assms show ?thesis
    by (simp add: zero_pad_def str_of_nat.simps [of n] str_of_nat.simps [of 0]
        flip: replicate_append_same)
      (metis Suc_pred replicate_Suc replicate_append_same)
next
  case False
  then have "str_of_nat n = str_of_nat (n div 10) @ [char_of (n mod 10 + 48)]"
    by (subst str_of_nat.simps) simp
  then show ?thesis by (simp add: zero_pad_def)
qed

lemma digit_less: "(m::nat) < n \<Longrightarrow> n < 10 \<Longrightarrow> (char_of (m + 48) :: char) < char_of (n + 48)"
  by (simp add: less_char_def)

lemma zero_pad_order:
  "0 < w \<Longrightarrow> n < 10 ^ w \<Longrightarrow> length (zero_pad w n) = w
     \<and> (m < n \<longrightarrow> zero_pad w m < zero_pad w n)"
proof (induction w arbitrary: m n)
  case (Suc w)
  show ?case
  proof (cases "w = 0")
    case True
    with Suc.prems show ?thesis
      by (auto simp: zero_pad_1 [unfolded One_nat_def] digit_less)
  next
    case False
    then have w: "0 < w" by simp
    have nd: "n div 10 < 10 ^ w" using Suc.prems(2) by (simp add: div_less_iff_less_mult)
    have len: "length (zero_pad (Suc w) n) = Suc w"
      using Suc.IH [OF w nd] by (simp add: zero_pad_Suc [OF w])
    have "zero_pad (Suc w) m < zero_pad (Suc w) n" if mn: "m < n"
    proof (cases "m div 10 = n div 10")
      case True
      then have "m mod 10 < n mod 10" using mn by (simp add: mod_less_same_div)
      then have "(char_of (m mod 10 + 48) :: char) < char_of (n mod 10 + 48)" by (simp add: digit_less)
      then show ?thesis by (simp add: zero_pad_Suc [OF w] True less_prefix)
    next
      case False
      then have md: "m div 10 < n div 10" using mn by (simp add: div_le_mono order_le_neq_trans less_imp_le)
      then have "m div 10 < 10 ^ w" using nd by simp
      then have "length (zero_pad w (m div 10)) = length (zero_pad w (n div 10))"
        using Suc.IH [OF w] nd by metis
      moreover have "zero_pad w (m div 10) < zero_pad w (n div 10)" using Suc.IH [OF w nd] md by blast
      ultimately show ?thesis by (simp add: zero_pad_Suc [OF w] less_append)
    qed
    with len show ?thesis by blast
  qed
qed simp

lemma length_zero_pad: "0 < w \<Longrightarrow> n < 10 ^ w \<Longrightarrow> length (zero_pad w n) = w"
  using zero_pad_order by blast

lemma zero_pad_less: "0 < w \<Longrightarrow> m < n \<Longrightarrow> n < 10 ^ w \<Longrightarrow> zero_pad w m < zero_pad w n"
  using zero_pad_order by blast

lemma second_fields:
  fixes s :: nat
  assumes "s < t" "t < 86400"
  shows "s div 3600 < t div 3600 \<or> s div 3600 = t div 3600 \<and>
    (s div 60 mod 60 < t div 60 mod 60 \<or> s div 60 mod 60 = t div 60 mod 60 \<and> s mod 60 < t mod 60)"
proof -
  have h: "x div 60 = 60 * (x div 3600) + x div 60 mod 60" for x :: nat
    using div_mult2_eq [of x 60 60] by simp
  have m: "x = 60 * (x div 60) + x mod 60" for x :: nat by simp
  consider "s div 60 < t div 60" | "s div 60 = t div 60" using assms(1) by (meson div_le_mono le_less less_imp_le)
  then show ?thesis
  proof cases
    case 1
    then show ?thesis using h [of s] h [of t] mod_less_divisor [of 60 "s div 60"]
        mod_less_divisor [of 60 "t div 60"] by (cases "s div 3600 = t div 3600") (auto, linarith)
  next
    case 2
    then have "s div 3600 = t div 3600"
      using div_mult2_eq [of s 60 60] div_mult2_eq [of t 60 60] by simp
    moreover have "s mod 60 < t mod 60" using 2 assms(1) m [of s] m [of t] by linarith
    ultimately show ?thesis using 2 by simp
  qed
qed

text \<open>The lexicographic order of two civil times.\<close>

definition civil_less :: "civil \<Rightarrow> civil \<Rightarrow> bool" where
  "civil_less a b =
     (cv_year a < cv_year b \<or> cv_year a = cv_year b \<and>
      (cv_month a < cv_month b \<or> cv_month a = cv_month b \<and>
       (cv_day a < cv_day b \<or> cv_day a = cv_day b \<and> cv_second a < cv_second b)))"

lemma civil_of_seconds_mono:
  assumes "s < t"
  shows "civil_less (civil_of_seconds s) (civil_of_seconds t)"
proof (cases "s div 86400 = t div 86400")
  case True
  then have "s mod 86400 < t mod 86400" using assms by (simp add: mod_less_same_div)
  with True show ?thesis by (simp add: civil_less_def civil_of_seconds_def case_prod_unfold Let_def)
next
  case False
  then have "s div 86400 < t div 86400" using assms by (simp add: div_le_mono order_le_neq_trans less_imp_le)
  from year_split_mono [OF this, of 1970] month_split_mono show ?thesis
    by (fastforce simp: civil_less_def civil_of_seconds_def case_prod_unfold Let_def lex_less_def)
qed

lemma length_time_text: "s < 86400 \<Longrightarrow> length (time_text s) = 8"
  by (simp add: time_text_def length_zero_pad)

lemma time_text_less:
  assumes "s < t" "t < 86400"
  shows "time_text s < time_text t"
proof -
  have len: "length (zero_pad 2 (s div 3600)) = length (zero_pad 2 (t div 3600))"
    "length (zero_pad 2 (s div 60 mod 60)) = length (zero_pad 2 (t div 60 mod 60))"
    using assms by (simp_all add: length_zero_pad)
  consider "s div 3600 < t div 3600"
    | "s div 3600 = t div 3600" "s div 60 mod 60 < t div 60 mod 60"
    | "s div 3600 = t div 3600" "s div 60 mod 60 = t div 60 mod 60" "s mod 60 < t mod 60"
    using second_fields [OF assms] by blast
  then show ?thesis
  proof cases
    case 1
    then have "zero_pad 2 (s div 3600) < zero_pad 2 (t div 3600)" using assms by (intro zero_pad_less) simp_all
    then show ?thesis unfolding time_text_def by (rule less_append) (rule len)
  next
    case 2
    then have "zero_pad 2 (s div 60 mod 60) < zero_pad 2 (t div 60 mod 60)" by (intro zero_pad_less) simp_all
    then show ?thesis unfolding time_text_def 2(1)
      by (intro less_prefix) (rule less_append, assumption, rule len)
  next
    case 3
    then have "zero_pad 2 (s mod 60) < zero_pad 2 (t mod 60)" by (intro zero_pad_less) simp_all
    then show ?thesis unfolding time_text_def 3(1,2) by (intro less_prefix)
  qed
qed

lemma date_text_less:
  assumes "civil_less a b" and "cv_year b \<le> 9999"
    and "cv_month a \<le> 12" "cv_month b \<le> 12" "cv_day a \<le> 31" "cv_day b \<le> 31"
    and "cv_second a < 86400" "cv_second b < 86400"
  shows "date_text c a < date_text c b" "length (date_text c a) = length (date_text c b)"
proof -
  have ya: "cv_year a \<le> 9999" using assms(1,2) by (auto simp: civil_less_def)
  have len: "length (zero_pad 4 (cv_year a)) = length (zero_pad 4 (cv_year b))"
    "length (zero_pad 2 (cv_month a)) = length (zero_pad 2 (cv_month b))"
    "length (zero_pad 2 (cv_day a)) = length (zero_pad 2 (cv_day b))"
    using assms ya by (simp_all add: length_zero_pad)
  show "length (date_text c a) = length (date_text c b)"
    using assms(7,8) by (simp add: date_text_def len length_time_text)
  consider (year) "cv_year a < cv_year b" | (month) "cv_year a = cv_year b" "cv_month a < cv_month b"
    | (day) "cv_year a = cv_year b" "cv_month a = cv_month b" "cv_day a < cv_day b"
    | (sec) "cv_year a = cv_year b" "cv_month a = cv_month b" "cv_day a = cv_day b" "cv_second a < cv_second b"
    using assms(1) by (auto simp: civil_less_def)
  then show "date_text c a < date_text c b"
  proof cases
    case year
    then have "zero_pad 4 (cv_year a) < zero_pad 4 (cv_year b)" using assms(2) by (intro zero_pad_less) simp_all
    then show ?thesis unfolding date_text_def by (rule less_append) (rule len)
  next
    case month
    then have "zero_pad 2 (cv_month a) < zero_pad 2 (cv_month b)" using assms(4) by (intro zero_pad_less) simp_all
    then show ?thesis unfolding date_text_def month(1)
      by (intro less_prefix) (rule less_append, assumption, rule len)
  next
    case day
    then have "zero_pad 2 (cv_day a) < zero_pad 2 (cv_day b)" using assms(6) by (intro zero_pad_less) simp_all
    then show ?thesis unfolding date_text_def day(1,2)
      by (intro less_prefix) (rule less_append, assumption, rule len)
  next
    case sec
    from time_text_less [OF sec(4) assms(8)] show ?thesis
      unfolding date_text_def sec(1-3) by (intro less_prefix)
  qed
qed

lemma utc_text_mono:
  assumes "s < t" "cv_year (civil_of_seconds t) \<le> 9999"
  shows "utc_text s < utc_text t"
  unfolding utc_text_def
  by (rule less_append; rule date_text_less [OF civil_of_seconds_mono [OF assms(1)] assms(2)])
    (rule civil_bounds)+

lemma utc_text_le_iff:
  assumes "cv_year (civil_of_seconds s) \<le> 9999" "cv_year (civil_of_seconds t) \<le> 9999"
  shows "utc_text s \<le> utc_text t \<longleftrightarrow> s \<le> t"
proof (cases s t rule: linorder_cases)
  case less
  with utc_text_mono [OF less assms(2)] show ?thesis by simp
next
  case greater
  with utc_text_mono [OF greater assms(1)] show ?thesis by simp
qed simp

lemma iso_text_mono:
  assumes "u < v" "cv_year (civil_of_seconds (v div 1000000)) \<le> 9999"
  shows "iso_text u < iso_text v"
proof (cases "u div 1000000 = v div 1000000")
  case True
  then have f: "u mod 1000000 < v mod 1000000"
    using assms(1) by (simp add: mod_less_same_div)
  have frac: "(if u mod 1000000 = 0 then [] else ''.'' @ zero_pad 6 (u mod 1000000)) @ ''+00:00''
      < (if v mod 1000000 = 0 then [] else ''.'' @ zero_pad 6 (v mod 1000000)) @ ''+00:00''"
  proof (cases "u mod 1000000 = 0")
    case True
    with f show ?thesis by (simp add: less_char_def)
  next
    case False
    have "zero_pad 6 (u mod 1000000) < zero_pad 6 (v mod 1000000)"
      "length (zero_pad 6 (u mod 1000000)) = length (zero_pad 6 (v mod 1000000))"
      using f by (simp_all add: zero_pad_less length_zero_pad)
    with False f show ?thesis by (simp add: less_append)
  qed
  show ?thesis unfolding iso_text_def True by (rule less_prefix [OF frac])
next
  case False
  then have "u div 1000000 < v div 1000000"
    using assms(1) by (simp add: div_le_mono order_le_neq_trans less_imp_le)
  then show ?thesis unfolding iso_text_def
    by (intro less_append; intro date_text_less [OF civil_of_seconds_mono assms(2)])
      (simp_all add: civil_bounds)
qed

text \<open>An ISO text against a text with suffix Z: within one second the ISO text is the smaller.\<close>

lemma utc_less_iso_iff:
  assumes "cv_year (civil_of_seconds s) \<le> 9999" "cv_year (civil_of_seconds (u div 1000000)) \<le> 9999"
  shows "utc_text s < iso_text u \<longleftrightarrow> s < u div 1000000"
proof (cases s "u div 1000000" rule: linorder_cases)
  case less
  then show ?thesis unfolding iso_text_def utc_text_def
    by (simp add: less_append date_text_less [OF civil_of_seconds_mono [OF less] assms(2)] civil_bounds)
next
  case equal
  have "(if u mod 1000000 = 0 then [] else ''.'' @ zero_pad 6 (u mod 1000000)) @ ''+00:00'' < ''Z''"
    by (simp add: less_char_def)
  then have "iso_text u < utc_text s" unfolding iso_text_def utc_text_def equal by (rule less_prefix)
  then show ?thesis by (simp add: equal less_not_sym)
next
  case greater
  then have "iso_text u < utc_text s" unfolding iso_text_def utc_text_def
    by (simp add: less_append date_text_less [OF civil_of_seconds_mono [OF greater] assms(1)] civil_bounds)
  then show ?thesis using greater by (auto dest: less_not_sym)
qed

end
