(* ===== verification/Sha256.thy ===== *)
theory Sha256
  imports Py_Prelude "HOL-Library.Word"
begin

text \<open>
  The digest the service takes from \<^verbatim>\<open>hashlib\<close>: SHA-256 over the UTF-8 bytes of a string,
  in hexadecimal. It is computed at the machine's width with 32-bit words, whose addition
  wraps; the identifiers (\<^verbatim>\<open>utils.stable_id\<close>), the secrets at rest (\<^verbatim>\<open>tokens.hash_secret\<close>) and
  the chain of the registry log (\<^verbatim>\<open>registry_log._compute_entry_hash\<close>) are built on it.
\<close>

unbundle bit_operations_syntax

type_synonym u32 = "32 word"

section \<open>Bytes\<close>

definition utf8_char :: "char \<Rightarrow> nat list" where
  "utf8_char c = (let n = code_point c in
     if n < 128 then [n] else [192 + n div 64, 128 + n mod 64])"

definition utf8 :: "string \<Rightarrow> nat list" where
  "utf8 s = concat (map utf8_char s)"

definition hex_digit :: "nat \<Rightarrow> char" where
  "hex_digit n = (if n < 10 then char_of (n + 48) else char_of (n + 87))"

definition hex_byte :: "nat \<Rightarrow> string" where
  "hex_byte n = [hex_digit (n div 16), hex_digit (n mod 16)]"

text \<open>Big-endian bytes of a number, \<open>k\<close> of them.\<close>

fun be_bytes :: "nat \<Rightarrow> nat \<Rightarrow> nat list" where
  "be_bytes 0 n = []"
| "be_bytes (Suc k) n = be_bytes k (n div 256) @ [n mod 256]"

definition be_word :: "nat list \<Rightarrow> u32" where
  "be_word bs = foldl (\<lambda>w b. push_bit 8 w OR of_nat b) 0 bs"

definition word_bytes :: "u32 \<Rightarrow> nat list" where
  "word_bytes w = map (\<lambda>k. unat (take_bit 8 (drop_bit k w))) [24, 16, 8, 0]"

fun words_of :: "nat list \<Rightarrow> u32 list" where
  "words_of (a # b # c # d # r) = be_word [a, b, c, d] # words_of r"
| "words_of _ = []"

section \<open>The compression function\<close>

text \<open>
  The constants of the standard, computed as it describes them: the first 32 bits of the fractional
  parts of the cube roots of the first 64 primes and of the square roots of the first eight. The
  integer root is found bit by bit; 40 bits suffice, as the roots are below 2 to the power 8.
\<close>

fun root_floor :: "nat \<Rightarrow> nat \<Rightarrow> int \<Rightarrow> int" where
  "root_floor 0 k n = 0"
| "root_floor (Suc b) k n =
     (let r = 2 * root_floor b k (n div 2 ^ k) in if (r + 1) ^ k \<le> n then r + 1 else r)"

definition first_primes :: "int list" where
  "first_primes = filter (\<lambda>p. list_all (\<lambda>q. p mod q \<noteq> 0) [2..p - 1]) [2..311]"

definition fraction_bits :: "nat \<Rightarrow> int \<Rightarrow> u32" where
  "fraction_bits k p = of_int (root_floor 40 k (p * 2 ^ (32 * k)))"

definition sha_k :: "u32 list" where
  "sha_k = map (fraction_bits 3) first_primes"

definition sha_h0 :: "u32 list" where
  "sha_h0 = map (fraction_bits 2) [2, 3, 5, 7, 11, 13, 17, 19]"

definition sha_ch :: "u32 \<Rightarrow> u32 \<Rightarrow> u32 \<Rightarrow> u32" where
  "sha_ch x y z = (x AND y) XOR (NOT x AND z)"

definition sha_maj :: "u32 \<Rightarrow> u32 \<Rightarrow> u32 \<Rightarrow> u32" where
  "sha_maj x y z = (x AND y) XOR (x AND z) XOR (y AND z)"

definition sha_rotr :: "nat \<Rightarrow> u32 \<Rightarrow> u32" where
  "sha_rotr n x = drop_bit n x OR push_bit (32 - n) x"

definition big_sigma0 :: "u32 \<Rightarrow> u32" where
  "big_sigma0 x = sha_rotr 2 x XOR sha_rotr 13 x XOR sha_rotr 22 x"

definition big_sigma1 :: "u32 \<Rightarrow> u32" where
  "big_sigma1 x = sha_rotr 6 x XOR sha_rotr 11 x XOR sha_rotr 25 x"

definition small_sigma0 :: "u32 \<Rightarrow> u32" where
  "small_sigma0 x = sha_rotr 7 x XOR sha_rotr 18 x XOR drop_bit 3 x"

definition small_sigma1 :: "u32 \<Rightarrow> u32" where
  "small_sigma1 x = sha_rotr 17 x XOR sha_rotr 19 x XOR drop_bit 10 x"

text \<open>The message schedule, kept newest word first.\<close>

fun extend_schedule :: "nat \<Rightarrow> u32 list \<Rightarrow> u32 list" where
  "extend_schedule 0 w = w"
| "extend_schedule (Suc n) w =
     extend_schedule n
       ((small_sigma1 (w ! 1) + w ! 6 + small_sigma0 (w ! 14) + w ! 15) # w)"

definition schedule :: "u32 list \<Rightarrow> u32 list" where
  "schedule block = rev (extend_schedule 48 (rev block))"

fun sha_round :: "u32 list \<Rightarrow> u32 \<times> u32 \<Rightarrow> u32 list" where
  "sha_round [a, b, c, d, e, f, g, h] (k, w) =
     (let t1 = h + big_sigma1 e + sha_ch e f g + k + w;
          t2 = big_sigma0 a + sha_maj a b c
      in [t1 + t2, a, b, c, d + t1, e, f, g])"
| "sha_round s _ = s"

definition compress :: "u32 list \<Rightarrow> u32 list \<Rightarrow> u32 list" where
  "compress h block = map2 (+) h (foldl sha_round h (zip sha_k (schedule block)))"

section \<open>The digest\<close>

definition sha_pad :: "nat list \<Rightarrow> nat list" where
  "sha_pad m = m @ [128] @ replicate ((119 - length m mod 64) mod 64) 0 @ be_bytes 8 (8 * length m)"

fun sha_blocks :: "nat \<Rightarrow> u32 list \<Rightarrow> u32 list list" where
  "sha_blocks 0 w = []"
| "sha_blocks (Suc n) w = take 16 w # sha_blocks n (drop 16 w)"

definition sha256_words :: "nat list \<Rightarrow> u32 list" where
  "sha256_words m = (let w = words_of (sha_pad m) in
     foldl compress sha_h0 (sha_blocks (length w div 16) w))"

definition sha256_bytes :: "nat list \<Rightarrow> nat list" where
  "sha256_bytes m = concat (map word_bytes (sha256_words m))"

definition hexdigest_bytes :: "nat list \<Rightarrow> string" where
  "hexdigest_bytes m = concat (map hex_byte (sha256_bytes m))"

definition sha256_hex :: "string \<Rightarrow> string" where
  "sha256_hex s = hexdigest_bytes (utf8 s)"

end
