(* ===== verification/Capmesh_Schema.thy ===== *)
theory Capmesh_Schema
  imports Py_Json Py_Time Sha256
begin

text \<open>
  The data of the service: \<^verbatim>\<open>models.Principal\<close> and \<^verbatim>\<open>models.Capability\<close>, the rows of the SQLite tables
  (\<^verbatim>\<open>governance.init_governance_schema\<close>, \<^verbatim>\<open>index.init_db\<close> and the \<^verbatim>\<open>ensure_*_table\<close> functions of the
  modules that own a table), the connection, and the helpers of \<^verbatim>\<open>utils.py\<close>.

  A nullable column is an option. The bookkeeping columns \<^verbatim>\<open>updated_at\<close> and \<^verbatim>\<open>metadata_json\<close> are
  kept only where a modelled statement reads them. Rows whose primary key is a fresh
  \<^verbatim>\<open>new_id\<close> are appended; a clash of two \<^verbatim>\<open>uuid4\<close> values is not modelled, a clash of a key that a
  caller supplies is.
\<close>

section \<open>Principals and capabilities\<close>

text \<open>A capability is the object and the row of its table at once; \<^verbatim>\<open>c_row_id\<close> is the id column of a stored
  row, and nothing for an object that was not read from the table.\<close>

record principal =
  p_subject :: string
  p_tenant_id :: string
  p_identity_id :: "string option"
  p_email :: "string option"
  p_display_name :: "string option"
  p_app_id :: "string option"
  p_groups :: "string list"
  p_roles :: "string list"
  p_scopes :: "string list"
  p_authenticated :: bool
  p_disabled :: bool
  p_step_up_authenticated :: bool

record capability =
  c_uri :: string
  c_type :: string
  c_name :: string
  c_version :: string
  c_title :: string
  c_description :: string
  c_package_path :: string
  c_entrypoint :: string
  c_source_path :: string
  c_source_kind :: string
  c_source_system :: string
  c_canonical_key :: string
  c_content_hash :: string
  c_visibility :: string
  c_discovery_mode :: string
  c_owner :: string
  c_plugin :: "string option"
  c_category :: "string option"
  c_keywords :: "string list"
  c_required_scopes :: "string list"
  c_allow_groups :: "string list"
  c_allow_users :: "string list"
  c_risk_tier :: string
  c_mutating :: bool
  c_lifecycle :: string
  c_tenant_id :: string
  c_store_id :: "string option"
  c_namespace_id :: "string option"
  c_created_by :: "string option"
  c_submitted_by :: "string option"
  c_promoted_from_uri :: "string option"
  c_approval_state :: string
  c_share_state :: string
  c_signature_status :: string
  c_provenance_status :: string
  c_risk_review_status :: string
  c_metadata :: "(string \<times> json) list"
  c_source_commit :: "string option"
  c_license :: "string option"
  c_row_id :: nat

definition CAPABILITY_TYPES :: "string list" where
  "CAPABILITY_TYPES = [''skill'', ''agent'', ''plugin'', ''command'', ''mcp_server'', ''workflow'',
     ''reference'', ''bundle'']"

definition VISIBILITIES :: "string list" where
  "VISIBILITIES = [''public'', ''internal'', ''protected'', ''secret'']"

definition DISCOVERY_MODES :: "string list" where
  "DISCOVERY_MODES = [''public'', ''locked'', ''hidden'']"

definition RISK_TIERS :: "string list" where
  "RISK_TIERS = [''low'', ''medium'', ''high'', ''critical'']"

text \<open>\<^verbatim>\<open>Capability.__post_init__\<close>: the first violated check raises.\<close>

definition capability_post_init :: "capability \<Rightarrow> py_error + capability" where
  "capability_post_init c =
     (if c_type c \<notin> set CAPABILITY_TYPES then
        Inl (ValueError (''Unsupported capability type: '' @ c_type c))
      else if c_visibility c \<notin> set VISIBILITIES then
        Inl (ValueError (''Unsupported visibility: '' @ c_visibility c))
      else if c_discovery_mode c \<notin> set DISCOVERY_MODES then
        Inl (ValueError (''Unsupported discovery mode: '' @ c_discovery_mode c))
      else if c_risk_tier c \<noteq> [] \<and> c_risk_tier c \<notin> set RISK_TIERS then
        Inl (ValueError (''Unsupported risk tier: '' @ c_risk_tier c))
      else Inr c)"

text \<open>\<^verbatim>\<open>index.capability_from_row\<close> coerces the four vocabulary columns.\<close>

definition capability_from_row :: "capability \<Rightarrow> capability" where
  "capability_from_row row = row\<lparr>
     c_discovery_mode := (if c_discovery_mode row \<in> set DISCOVERY_MODES then c_discovery_mode row else ''public''),
     c_visibility := (if c_visibility row \<in> set VISIBILITIES then c_visibility row else ''internal''),
     c_type := (if c_type row \<in> set CAPABILITY_TYPES then c_type row else ''reference''),
     c_risk_tier := (if c_risk_tier row \<in> set RISK_TIERS then c_risk_tier row else ''low'')\<rparr>"

section \<open>Rows\<close>

record tenant_row =
  tn_id :: string
  tn_slug :: string
  tn_display_name :: string
  tn_status :: string

record identity_row =
  id_id :: string
  id_tenant :: string
  id_external_id :: "string option"
  id_user_name :: string
  id_display_name :: "string option"
  id_email :: "string option"
  id_type :: string
  id_active :: bool
  id_raw_json :: string
  id_created_at :: string
  id_updated_at :: string

record app_row =
  app_key :: string
  app_tenant :: string
  app_app_id :: string
  app_display_name :: string

record organization_row =
  org_id :: string
  org_tenant :: string
  org_slug :: string
  org_display_name :: string
  org_store :: "string option"
  org_status :: string
  org_created_at :: string

record store_row =
  st_id :: string
  st_tenant :: string
  st_kind :: string
  st_name :: string
  st_uri_prefix :: string
  st_owner_identity :: "string option"
  st_owner_app :: "string option"
  st_disabled_at :: "string option"

record namespace_row =
  ns_id :: string
  ns_tenant :: string
  ns_store :: string
  ns_name :: string
  ns_uri_prefix :: string
  ns_visibility :: string
  ns_owner :: string
  ns_description :: string
  ns_lifecycle :: string

record namespace_member_row =
  nm_namespace :: string
  nm_subject_type :: string
  nm_subject_id :: string
  nm_role :: string
  nm_rights :: "string list"
  nm_revoked_at :: "string option"

record role_assignment_row =
  ra_id :: string
  ra_tenant :: string
  ra_subject_type :: string
  ra_subject_id :: string
  ra_role :: string
  ra_scope_type :: string
  ra_scope_id :: string
  ra_source :: string
  ra_created_by :: string
  ra_expires_at :: "string option"
  ra_revoked_at :: "string option"
  ra_created_at :: string

record relationship_row =
  rt_id :: string
  rt_tenant :: string
  rt_object :: string
  rt_relation :: string
  rt_user :: string
  rt_source :: string

record policy_decision_row =
  pd_id :: string
  pd_tenant :: string
  pd_principal :: string
  pd_action :: string
  pd_resource :: string
  pd_decision :: string
  pd_reason :: string

record share_row =
  sh_id :: string
  sh_tenant :: string
  sh_capability_uri :: string
  sh_from_identity :: string
  sh_subject_type :: string
  sh_subject_id :: string
  sh_rights :: "string list"
  sh_state :: string
  sh_expires_at :: "string option"
  sh_revoked_at :: "string option"
  sh_created_at :: string

text \<open>\<^verbatim>\<open>promotion_requests.gates_json\<close>: an object, a list of named entries, or unreadable text.\<close>

datatype gates_column =
    GatesObject "(string \<times> string) list"
  | GatesList "(string option \<times> string option) list"
  | GatesMalformed
  | GatesEmpty

record promotion_row =
  pr_id :: string
  pr_tenant :: string
  pr_capability_uri :: string
  pr_source_store :: "string option"
  pr_target_namespace :: string
  pr_requested_by :: string
  pr_state :: string
  pr_title :: string
  pr_rationale :: string
  pr_version :: string
  pr_gates :: gates_column
  pr_created_at :: string
  pr_decided_at :: "string option"

record approval_step_row =
  ap_id :: string
  ap_request :: string
  ap_step_name :: string
  ap_assigned_type :: string
  ap_assigned_id :: string
  ap_state :: string
  ap_decision_by :: "string option"
  ap_decision_note :: "string option"
  ap_decided_at :: "string option"

record review_row =
  rv_id :: string
  rv_tenant :: string
  rv_capability_uri :: string
  rv_content_hash :: string
  rv_scope :: string
  rv_gate_state :: string
  rv_evidence :: string
  rv_reviewer :: string
  rv_reviewed_at :: string
  rv_attestation :: "(string \<times> json) list"

record gate_run_row =
  gr_id :: string
  gr_request :: string
  gr_gate_name :: string
  gr_content_hash :: string
  gr_state :: string
  gr_evidence :: string
  gr_runner :: string
  gr_run_at :: string
  gr_attestation :: "(string \<times> json) list"

text \<open>The tables of \<^verbatim>\<open>capguard.py\<close>; JSON columns are kept as values.\<close>

record quarantine_row =
  qt_id :: string
  qt_tenant :: string
  qt_capability_uri :: string
  qt_capability_type :: string
  qt_name :: string
  qt_version :: string
  qt_source_path :: string
  qt_content_hash :: string
  qt_reason :: string
  qt_status :: string
  qt_submitted_by :: "string option"
  qt_metadata :: json
  qt_created_at :: string
  qt_updated_at :: string
  qt_released_at :: "string option"
  qt_rejected_at :: "string option"

record guard_attestation_row =
  ga_id :: string
  ga_tenant :: string
  ga_quarantine :: string
  ga_type :: string
  ga_subject_uri :: string
  ga_content_hash :: string
  ga_verdict :: "string option"
  ga_scanner_id :: "string option"
  ga_scanner_version :: "string option"
  ga_findings :: json
  ga_algorithm :: string
  ga_key_id :: string
  ga_public_key :: string
  ga_signature :: string
  ga_envelope :: json
  ga_verifies :: bool
  ga_actor :: "string option"
  ga_reason :: "string option"
  ga_created_at :: string

text \<open>Sign-in: the sessions of the service, the OAuth flows, the bindings of directory groups and the
  webhook subscriptions.\<close>

record session_row =
  se_id :: string
  se_tenant :: string
  se_token_hash :: string
  se_identity :: "string option"
  se_subject :: string
  se_principal :: "(string \<times> json) list"
  se_scopes :: "string list"
  se_issued_at :: string
  se_expires_at :: string
  se_revoked_at :: "string option"
  se_metadata :: "(string \<times> json) list"

record oauth_row =
  oa_id :: string
  oa_tenant :: string
  oa_flow :: string
  oa_state :: string
  oa_code_challenge :: "string option"
  oa_code_verifier_hash :: "string option"
  oa_redirect_uri :: string
  oa_scope :: string
  oa_nonce :: "string option"
  oa_status :: string
  oa_metadata :: "(string \<times> json) list"
  oa_expires_at :: string
  oa_completed_at :: "string option"

record entra_binding_row =
  eb_id :: string
  eb_tenant :: string
  eb_entra_tenant :: string
  eb_entra_group :: string
  eb_entra_group_name :: "string option"
  eb_mesh_group :: string
  eb_mesh_role :: string
  eb_bound_by :: string
  eb_bound_at :: string

record graph_subscription_row =
  gs_id :: string
  gs_tenant :: string
  gs_client_state_hash :: string
  gs_status :: string

text \<open>The results of the malware scan and the allowlist of call bindings.\<close>

record scan_row =
  sc_id :: string
  sc_tenant :: string
  sc_capability_uri :: string
  sc_source_path :: string
  sc_file_hash :: string
  sc_passed :: bool
  sc_findings :: json
  sc_scanned_at :: string

record binding_row =
  cb_id :: string
  cb_tenant :: string
  cb_capability_uri :: string
  cb_binding_hash :: string
  cb_signing_key_id :: string
  cb_signature :: string
  cb_approved_by :: string
  cb_approved_at :: string
  cb_revoked_at :: "string option"

text \<open>The groups a directory provisions, their members, and what was last seen of a resource.\<close>

record group_row =
  gp_id :: string
  gp_tenant :: string
  gp_external_id :: "string option"
  gp_display_name :: string
  gp_active :: bool
  gp_raw_json :: string
  gp_created_at :: string
  gp_updated_at :: string

record group_member_row =
  gm_group :: string
  gm_identity :: string
  gm_source :: string

record scim_state_row =
  sy_id :: string
  sy_tenant :: string
  sy_resource_type :: string
  sy_external_id :: string
  sy_internal_id :: string
  sy_version :: "string option"
  sy_raw_json :: string
  sy_last_seen_at :: string

record audit_row =
  ae_id :: string
  ae_tenant :: string
  ae_event_type :: string
  ae_actor :: string
  ae_actor_type :: string
  ae_target :: "string option"
  ae_action :: "string option"
  ae_decision :: "string option"
  ae_reason :: "string option"
  ae_payload :: json
  ae_created_at :: string

record log_row =
  rl_id :: string
  rl_sequence :: nat
  rl_event_type :: string
  rl_actor :: string
  rl_target_uri :: "string option"
  rl_action :: string
  rl_payload :: string
  rl_prev_hash :: "string option"
  rl_entry_hash :: string
  rl_created_at :: string

record break_glass_row =
  bg_id :: string
  bg_tenant :: string
  bg_principal :: string
  bg_reason :: string
  bg_granted_by :: string
  bg_expires_at :: string
  bg_revoked_at :: "string option"
  bg_created_at :: string

record task_row =
  tk_id :: string
  tk_tenant :: string
  tk_capability_uri :: string
  tk_principal :: string
  tk_status :: string
  tk_envelope :: json
  tk_result :: "json option"
  tk_error :: "string option"
  tk_created_at :: string
  tk_started_at :: "string option"
  tk_completed_at :: "string option"

record dependency_row =
  dp_id :: string
  dp_tenant :: string
  dp_capability_uri :: string
  dp_depends_on_uri :: string
  dp_version_constraint :: string
  dp_required_type :: "string option"

record source_row =
  cs_source_path :: string
  cs_uri :: string
  cs_source_kind :: string
  cs_source_system :: string
  cs_content_hash :: string

text \<open>The full-text index: a row has the number of the row of its capability.\<close>

record fts_row =
  ft_row_id :: nat
  ft_uri :: string
  ft_name :: string
  ft_title :: string
  ft_description :: string
  ft_keywords :: string
  ft_plugin :: string
  ft_category :: string
  ft_content :: string

text \<open>The reports of the router, and the tracking tables of \<^verbatim>\<open>scim_sync.py\<close>.\<close>

record report_row =
  rp_event :: string
  rp_uri :: "string option"
  rp_principal :: string
  rp_payload :: json

record authoritative_report_row =
  ar_event :: string
  ar_task :: string
  ar_report :: string
  ar_nonce :: string
  ar_principal :: string
  ar_digest :: string
  ar_receipt :: json

record entitlement_sync_row =
  es_id :: string
  es_tenant :: string
  es_source :: string
  es_last_sync_at :: string
  es_last_sync_count :: nat

record group_mapping_row =
  mp_id :: string
  mp_tenant :: string
  mp_scim_group :: string
  mp_display :: "string option"
  mp_namespace :: "string option"
  mp_role :: string

record database =
  tenants :: "tenant_row list"
  apps :: "app_row list"
  identities :: "identity_row list"
  organizations :: "organization_row list"
  stores :: "store_row list"
  namespaces :: "namespace_row list"
  namespace_members :: "namespace_member_row list"
  role_assignments :: "role_assignment_row list"
  relationship_tuples :: "relationship_row list"
  policy_decisions :: "policy_decision_row list"
  shares :: "share_row list"
  promotion_requests :: "promotion_row list"
  approval_steps :: "approval_step_row list"
  capability_reviews :: "review_row list"
  promotion_gate_runs :: "gate_run_row list"
  capguard_quarantine :: "quarantine_row list"
  capguard_attestations :: "guard_attestation_row list"
  capmesh_sessions :: "session_row list"
  oauth_sessions :: "oauth_row list"
  entra_group_bindings :: "entra_binding_row list"
  graph_subscriptions :: "graph_subscription_row list"
  malware_scan_results :: "scan_row list"
  call_binding_allowlist :: "binding_row list"
  group_rows :: "group_row list"
  group_members :: "group_member_row list"
  scim_sync_state :: "scim_state_row list"
  audit_events :: "audit_row list"
  registry_log :: "log_row list"
  break_glass_sessions :: "break_glass_row list"
  task_envelopes :: "task_row list"
  capability_dependencies :: "dependency_row list"
  capabilities :: "capability list"
  capability_sources :: "source_row list"
  capability_fts :: "fts_row list"
  router_reports :: "report_row list"
  authoritative_router_reports :: "authoritative_report_row list"
  scim_entitlement_sync :: "entitlement_sync_row list"
  scim_group_mappings :: "group_mapping_row list"
  catalog_generation :: "string option"
  last_ingest_at :: "string option"

section \<open>The process and the connection\<close>

text \<open>
  What an operation reads from its surroundings: the environment, the clock in microseconds,
  taken as constant during one call, and the streams of random identifiers and of random texts of
  a number of bytes (\<^verbatim>\<open>secrets.token_urlsafe\<close>).
\<close>

record runtime =
  environ :: "string \<rightharpoonup> string"
  clock_us :: nat
  uuid4_hex :: "nat \<Rightarrow> string"
  token_urlsafe :: "nat \<Rightarrow> nat \<Rightarrow> string"

text \<open>
  The connection: its own view of the database, the committed one, the number of identifiers
  drawn so far, and the process-wide \<^verbatim>\<open>_ORG_FOR_STORE_CACHE\<close> of \<^verbatim>\<open>access_control.py\<close>.
\<close>

record conn =
  db :: database
  durable :: database
  drawn :: nat
  org_cache :: "(string \<times> string) \<rightharpoonup> string option"

definition commit :: "conn \<Rightarrow> conn" where
  "commit con = con\<lparr>durable := db con\<rparr>"

definition commit_if :: "bool \<Rightarrow> conn \<Rightarrow> conn" where
  "commit_if b con = (if b then commit con else con)"

text \<open>The \<^verbatim>\<open>ensure_*_table\<close> functions of the modules run a CREATE TABLE IF NOT EXISTS script;
  \<^verbatim>\<open>executescript\<close> first commits an open transaction. The tables themselves are always there in the
  model. Queries are modelled by their answer alone.\<close>

definition ensure_table :: "conn \<Rightarrow> conn" where
  "ensure_table con = commit con"

definition rollback :: "conn \<Rightarrow> conn" where
  "rollback con = con\<lparr>db := durable con\<rparr>"

definition with_db :: "(database \<Rightarrow> database) \<Rightarrow> conn \<Rightarrow> conn" where
  "with_db f con = con\<lparr>db := f (db con)\<rparr>"

section \<open>utils.py\<close>

definition now_seconds :: "runtime \<Rightarrow> nat" where
  "now_seconds rt = clock_us rt div 1000000"

definition utc_now :: "runtime \<Rightarrow> string" where
  "utc_now rt = utc_text (now_seconds rt)"

definition expires_in :: "runtime \<Rightarrow> int \<Rightarrow> string" where
  "expires_in rt seconds = utc_text (nat (int (now_seconds rt) + seconds))"

text \<open>CURRENT_TIMESTAMP of SQLite and \<^verbatim>\<open>datetime.now(UTC).isoformat()\<close>.\<close>

definition sql_now :: "runtime \<Rightarrow> string" where
  "sql_now rt = sql_text (now_seconds rt)"

definition iso_now :: "runtime \<Rightarrow> string" where
  "iso_now rt = iso_text (clock_us rt)"

definition DEFAULT_TENANT :: "runtime \<Rightarrow> string" where
  "DEFAULT_TENANT rt = (case environ rt ''CAPMESH_DEFAULT_TENANT'' of None \<Rightarrow> ''asg'' | Some v \<Rightarrow> v)"

definition production_environment :: "runtime \<Rightarrow> bool" where
  "production_environment rt =
     (py_lower (py_strip (case environ rt ''CAPMESH_ENVIRONMENT'' of None \<Rightarrow> [] | Some v \<Rightarrow> v))
        \<in> {''production'', ''prod''})"

definition stable_id :: "string \<Rightarrow> string list \<Rightarrow> string" where
  "stable_id prefix parts =
     prefix @ ''_'' @ take 24 (sha256_hex (join_with [CHR 0x1F] parts))"

definition new_id :: "runtime \<Rightarrow> string \<Rightarrow> conn \<Rightarrow> string \<times> conn" where
  "new_id rt prefix con =
     (prefix @ ''_'' @ uuid4_hex rt (drawn con), con\<lparr>drawn := Suc (drawn con)\<rparr>)"

text \<open>\<^verbatim>\<open>principal.tenant_id or DEFAULT_TENANT\<close>.\<close>

definition tenant_of :: "runtime \<Rightarrow> principal \<Rightarrow> string" where
  "tenant_of rt p = (if p_tenant_id p = [] then DEFAULT_TENANT rt else p_tenant_id p)"

definition cap_tenant_of :: "runtime \<Rightarrow> capability \<Rightarrow> string" where
  "cap_tenant_of rt c = (if c_tenant_id c = [] then DEFAULT_TENANT rt else c_tenant_id c)"

lemma commit_simps [simp]:
  "db (commit con) = db con" "durable (commit con) = db con" "drawn (commit con) = drawn con"
  "org_cache (commit con) = org_cache con"
  by (simp_all add: commit_def)

lemma ensure_table_simps [simp]:
  "db (ensure_table con) = db con" "durable (ensure_table con) = db con" "drawn (ensure_table con) = drawn con"
  "org_cache (ensure_table con) = org_cache con"
  by (simp_all add: ensure_table_def)

lemma commit_if_simps [simp]:
  "db (commit_if b con) = db con" "org_cache (commit_if b con) = org_cache con"
  "drawn (commit_if b con) = drawn con"
  by (simp_all add: commit_if_def)

lemma with_db_simps [simp]:
  "db (with_db f con) = f (db con)" "durable (with_db f con) = durable con"
  "drawn (with_db f con) = drawn con" "org_cache (with_db f con) = org_cache con"
  by (simp_all add: with_db_def)

lemma new_id_simps [simp]:
  "db (snd (new_id rt pre con)) = db con" "durable (snd (new_id rt pre con)) = durable con"
  "org_cache (snd (new_id rt pre con)) = org_cache con"
  by (simp_all add: new_id_def)

text \<open>Every capability read from the database passes the checks of its constructor.\<close>

lemma capability_from_row_valid:
  "capability_post_init (capability_from_row row) = Inr (capability_from_row row)"
  by (auto simp: capability_post_init_def capability_from_row_def CAPABILITY_TYPES_def
      VISIBILITIES_def DISCOVERY_MODES_def RISK_TIERS_def)

lemma capability_from_row_fields [simp]:
  "c_uri (capability_from_row row) = c_uri row"
  "c_tenant_id (capability_from_row row) = c_tenant_id row"
  "c_store_id (capability_from_row row) = c_store_id row"
  "c_namespace_id (capability_from_row row) = c_namespace_id row"
  "c_lifecycle (capability_from_row row) = c_lifecycle row"
  "c_approval_state (capability_from_row row) = c_approval_state row"
  by (simp_all add: capability_from_row_def)

end
