(* ===== verification/Access_Control.thy ===== *)
theory Access_Control
  imports Capmesh_Schema
begin

text \<open>
  The authorization cascade: \<^verbatim>\<open>capmesh/access_control.py\<close>.

  Every grant function is a definition of its own over the tables it reads; the cascade
  \<^verbatim>\<open>evaluate_access\<close> asks them in the order of the code, threads the process-wide cache of
  organization lookups through, and records the decision. Python sets of references are lists
  here, used by membership only.

  Three things are proved about it: the cascade decides exactly what an order-free reading of
  the policy says (guards first, then any grant); a guard that fires wins over every grant;
  and an evaluation writes one row of \<^verbatim>\<open>policy_decisions\<close> and nothing else, which is the contract
  (locale \<^verbatim>\<open>access_gate\<close>) that every governed operation relies on.
\<close>

section \<open>Rights and roles\<close>

definition RIGHTS :: "string list" where
  "RIGHTS = [''discover'', ''load'', ''call'', ''delegate'', ''share'', ''submit'', ''publish'',
     ''approve'', ''manage'', ''audit'']"

definition STEP_UP_RIGHTS :: "string list" where
  "STEP_UP_RIGHTS = [''manage'', ''approve'', ''publish'']"

definition STEP_UP_RISK_TIERS :: "string list" where
  "STEP_UP_RISK_TIERS = [''high'', ''critical'']"

definition requires_step_up :: "string \<Rightarrow> capability option \<Rightarrow> bool" where
  "requires_step_up right cap =
     (if right \<notin> set STEP_UP_RIGHTS then False
      else case cap of None \<Rightarrow> False | Some c \<Rightarrow> c_risk_tier c \<in> set STEP_UP_RISK_TIERS)"

definition GLOBAL_ROLE_GRANT_ROLES :: "string list" where
  "GLOBAL_ROLE_GRANT_ROLES = [''platform_admin'', ''org_admin'']"

definition ROLE_RIGHTS :: "(string \<times> string list) list" where
  "ROLE_RIGHTS =
     [(''member'', [''discover'', ''load'', ''call'']),
      (''vibe_coder'', [''discover'', ''load'', ''call'', ''delegate'', ''share'', ''submit'']),
      (''publisher'', [''discover'', ''load'', ''call'', ''submit'', ''publish'']),
      (''namespace_admin'', [''discover'', ''load'', ''call'', ''delegate'', ''share'', ''submit'',
         ''publish'', ''approve'', ''manage'', ''audit'']),
      (''org_admin'', RIGHTS),
      (''platform_admin'', RIGHTS),
      (''auditor'', [''discover'', ''load'', ''audit'']),
      (''app_service'', [''discover'', ''load'', ''call'', ''delegate''])]"

definition role_rights :: "string \<Rightarrow> string list" where
  "role_rights role = (case map_of ROLE_RIGHTS role of None \<Rightarrow> [] | Some rs \<Rightarrow> rs)"

definition role_has_right :: "string \<Rightarrow> string \<Rightarrow> bool" where
  "role_has_right role right =
     (right \<in> set (role_rights role) \<or> ''manage'' \<in> set (role_rights role))"

definition global_role_has_right :: "string \<Rightarrow> string \<Rightarrow> bool" where
  "global_role_has_right role right =
     (if role \<in> set GLOBAL_ROLE_GRANT_ROLES then role_has_right role right
      else role = ''auditor'' \<and> right \<in> {''discover'', ''load'', ''audit''})"

section \<open>References\<close>

definition principal_identity :: "runtime \<Rightarrow> principal \<Rightarrow> string" where
  "principal_identity rt p =
     or_else (p_identity_id p) (stable_id ''idn'' [tenant_of rt p, p_subject p])"

definition subject_refs :: "runtime \<Rightarrow> principal \<Rightarrow> string list" where
  "subject_refs rt p =
     [''user:'' @ p_subject p, ''identity:'' @ principal_identity rt p]
     @ (if truthy (p_email p) \<and> p_email p \<noteq> Some (p_subject p)
        then [''user:'' @ the (p_email p)] else [])
     @ (if truthy (p_app_id p) then [''app:'' @ the (p_app_id p)] else [])
     @ map (\<lambda>g. ''group:'' @ g) (p_groups p)
     @ map (\<lambda>r. ''role:'' @ r) (p_roles p)"

definition resource_refs :: "runtime \<Rightarrow> capability option \<Rightarrow> string option \<Rightarrow> string list" where
  "resource_refs rt cap res =
     (case cap of
        Some c \<Rightarrow> [c_uri c]
          @ (if truthy (c_namespace_id c) then [''namespace:'' @ the (c_namespace_id c)] else [])
          @ (if truthy (c_store_id c) then [''store:'' @ the (c_store_id c)] else [])
          @ [''tenant:'' @ cap_tenant_of rt c]
      | None \<Rightarrow> (if truthy res then [the res] else []))"

text \<open>\<^verbatim>\<open>ref.partition(":")\<close>, as far as the code uses it.\<close>

definition ref_pair :: "string \<Rightarrow> string \<times> string" where
  "ref_pair ref = (takeWhile (\<lambda>c. c \<noteq> CHR '':'') ref, drop 1 (dropWhile (\<lambda>c. c \<noteq> CHR '':'') ref))"

definition expired :: "string option \<Rightarrow> string \<Rightarrow> bool" where
  "expired expires_at now = (truthy expires_at \<and> the expires_at \<le> now)"

section \<open>Guards\<close>

definition is_disabled :: "runtime \<Rightarrow> database \<Rightarrow> principal \<Rightarrow> bool" where
  "is_disabled rt d p =
     (if p_disabled p \<or> \<not> p_authenticated p then True
      else let rows = filter (\<lambda>i. id_tenant i = tenant_of rt p \<and>
                 (id_user_name i = p_subject p
                  \<or> (truthy (p_identity_id p) \<and> p_identity_id p = Some (id_id i))
                  \<or> (truthy (p_email p) \<and> p_email p = id_email i))) (identities d)
           in case order_by_desc id_updated_at rows of
                [] \<Rightarrow> False
              | row # _ \<Rightarrow> \<not> id_active row)"

definition blocked_states :: "string list" where
  "blocked_states = [''rejected'', ''recalled'', ''demoted'', ''yanked'']"

definition blocked_lifecycles :: "string list" where
  "blocked_lifecycles = [''disabled'', ''deleted'', ''retired'', ''recalled'', ''yanked'']"

definition capability_blocked :: "capability option \<Rightarrow> bool" where
  "capability_blocked cap =
     (case cap of None \<Rightarrow> False
      | Some c \<Rightarrow> c_approval_state c \<in> set blocked_states \<or> c_lifecycle c \<in> set blocked_lifecycles)"

definition has_formal_promotion_record :: "runtime \<Rightarrow> database \<Rightarrow> capability \<Rightarrow> bool" where
  "has_formal_promotion_record rt d c =
     (find (\<lambda>r. pr_tenant r = cap_tenant_of rt c \<and> pr_capability_uri r = c_uri c)
        (promotion_requests d) \<noteq> None)"

definition integrity_required :: "runtime \<Rightarrow> database \<Rightarrow> string \<Rightarrow> capability option \<Rightarrow> bool" where
  "integrity_required rt d right cap =
     (case cap of None \<Rightarrow> False
      | Some c \<Rightarrow> production_environment rt \<and> truthy (c_promoted_from_uri c)
          \<and> has_formal_promotion_record rt d c
          \<and> right \<in> {''discover'', ''load'', ''call'', ''delegate''})"

definition attested :: "capability \<Rightarrow> bool" where
  "attested c = (c_approval_state c = ''approved'' \<and> c_signature_status c = ''verified''
     \<and> c_provenance_status c = ''verified'' \<and> c_risk_review_status c = ''approved'')"

definition integrity_violated :: "runtime \<Rightarrow> database \<Rightarrow> string \<Rightarrow> capability option \<Rightarrow> bool" where
  "integrity_violated rt d right cap =
     (integrity_required rt d right cap \<and>
      (case cap of None \<Rightarrow> False | Some c \<Rightarrow> \<not> attested c))"

section \<open>Grants\<close>

definition tuple_match ::
  "database \<Rightarrow> string \<Rightarrow> string list \<Rightarrow> string list \<Rightarrow> string list \<Rightarrow> bool" where
  "tuple_match d tenant_id objects relations users =
     (if objects = [] \<or> relations = [] \<or> users = [] then False
      else find (\<lambda>t. rt_tenant t = tenant_id \<and> rt_object t \<in> set objects
                  \<and> rt_relation t \<in> set relations \<and> rt_user t \<in> set users)
             (relationship_tuples d) \<noteq> None)"

definition deny_match ::
  "runtime \<Rightarrow> database \<Rightarrow> string \<Rightarrow> principal \<Rightarrow> string \<Rightarrow> capability option \<Rightarrow> string option \<Rightarrow> bool" where
  "deny_match rt d tenant_id p right cap res =
     tuple_match d tenant_id (resource_refs rt cap res) [''deny_'' @ right, ''deny''] (subject_refs rt p)"

definition manifest_grant :: "capability \<Rightarrow> principal \<Rightarrow> string \<Rightarrow> bool" where
  "manifest_grant c p right =
     (if right \<notin> {''discover'', ''load'', ''call'', ''delegate''} then False
      else if c_allow_users c \<noteq> [] \<and> p_subject p \<in> set (c_allow_users c) then True
      else if c_allow_groups c \<noteq> [] \<and> set (p_groups p) \<inter> set (c_allow_groups c) \<noteq> {} then True
      else c_required_scopes c \<noteq> [] \<and> set (c_required_scopes c) \<subseteq> set (p_scopes p))"

type_synonym cache = "(string \<times> string) \<rightharpoonup> string option"

definition org_id_for_store ::
  "database \<Rightarrow> cache \<Rightarrow> string option \<Rightarrow> string \<Rightarrow> string option \<times> cache" where
  "org_id_for_store d cache store_id tenant_id =
     (if \<not> truthy store_id then (None, cache)
      else let key = (tenant_id, the store_id) in
        case cache key of
          Some v \<Rightarrow> (v, cache)
        | None \<Rightarrow>
            (let v = map_option org_id
                 (find (\<lambda>r. org_store r = store_id \<and> org_tenant r = tenant_id) (organizations d))
             in (v, cache(key \<mapsto> v))))"

definition org_scope_matches ::
  "database \<Rightarrow> cache \<Rightarrow> role_assignment_row \<Rightarrow> string \<Rightarrow> capability option \<Rightarrow> string option \<Rightarrow> bool \<times> cache" where
  "org_scope_matches d cache row tenant_id cap res =
     (case cap of
        None \<Rightarrow> (res \<in> {Some (''org:'' @ ra_scope_id row), Some (ra_scope_id row)}, cache)
      | Some c \<Rightarrow>
          (let cap_tenant = (if c_tenant_id c = [] then tenant_id else c_tenant_id c);
               (oid, cache') = org_id_for_store d cache (c_store_id c) cap_tenant
           in (oid = Some (ra_scope_id row), cache')))"

definition role_assignment_scope_matches ::
  "role_assignment_row \<Rightarrow> string \<Rightarrow> capability option \<Rightarrow> string option \<Rightarrow> bool" where
  "role_assignment_scope_matches row tenant_id cap res =
     (if ra_scope_type row = ''tenant'' then ra_scope_id row \<in> {tenant_id, ''*''}
      else case cap of
        None \<Rightarrow> res \<in> {Some (ra_scope_type row @ '':'' @ ra_scope_id row), Some (ra_scope_id row)}
      | Some c \<Rightarrow>
          if ra_scope_type row = ''store'' then c_store_id c = Some (ra_scope_id row)
          else if ra_scope_type row = ''namespace'' then c_namespace_id c = Some (ra_scope_id row)
          else if ra_scope_type row \<in> {''capability'', ''resource'', ''object''} then
            Some (ra_scope_id row) \<in> {Some (c_uri c), res}
          else False)"

fun role_rows_grant ::
  "runtime \<Rightarrow> database \<Rightarrow> string \<Rightarrow> string list \<Rightarrow> string \<Rightarrow> capability option \<Rightarrow> string option \<Rightarrow>
   role_assignment_row list \<Rightarrow> cache \<Rightarrow> bool \<times> cache" where
  "role_rows_grant rt d tenant_id subjects right cap res [] cache = (False, cache)"
| "role_rows_grant rt d tenant_id subjects right cap res (row # rows) cache =
     (if (ra_subject_type row, ra_subject_id row) \<notin> set (map ref_pair subjects) then
        role_rows_grant rt d tenant_id subjects right cap res rows cache
      else if expired (ra_expires_at row) (utc_now rt) then
        role_rows_grant rt d tenant_id subjects right cap res rows cache
      else
        let (matches, cache') =
              (if ra_scope_type row = ''org'' then org_scope_matches d cache row tenant_id cap res
               else (role_assignment_scope_matches row tenant_id cap res, cache))
        in if \<not> matches then role_rows_grant rt d tenant_id subjects right cap res rows cache'
           else if role_has_right (ra_role row) right then (True, cache')
           else role_rows_grant rt d tenant_id subjects right cap res rows cache')"

definition active_role_grant ::
  "runtime \<Rightarrow> database \<Rightarrow> cache \<Rightarrow> string \<Rightarrow> string list \<Rightarrow> string \<Rightarrow> capability option \<Rightarrow>
   string option \<Rightarrow> bool \<times> cache" where
  "active_role_grant rt d cache tenant_id subjects right cap res =
     (if subjects = [] then (False, cache)
      else role_rows_grant rt d tenant_id subjects right cap res
             (filter (\<lambda>r. ra_tenant r = tenant_id \<and> ra_revoked_at r = None) (role_assignments d)) cache)"

definition namespace_member_grant ::
  "database \<Rightarrow> string option \<Rightarrow> string list \<Rightarrow> string \<Rightarrow> bool" where
  "namespace_member_grant d namespace_id subjects right =
     (if \<not> truthy namespace_id \<or> subjects = [] then False
      else find (\<lambda>row. (nm_subject_type row @ '':'' @ nm_subject_id row) \<in> set subjects \<and>
                  (right \<in> set (nm_rights row) \<or> ''manage'' \<in> set (nm_rights row)
                   \<or> role_has_right (nm_role row) right))
             (filter (\<lambda>r. Some (nm_namespace r) = namespace_id \<and> nm_revoked_at r = None)
                (namespace_members d)) \<noteq> None)"

definition find_store :: "database \<Rightarrow> string option \<Rightarrow> string \<Rightarrow> store_row option" where
  "find_store d store_id tenant_id =
     find (\<lambda>s. Some (st_id s) = store_id \<and> st_tenant s = tenant_id) (stores d)"

definition store_owner_grant :: "runtime \<Rightarrow> database \<Rightarrow> capability \<Rightarrow> principal \<Rightarrow> string \<Rightarrow> bool" where
  "store_owner_grant rt d c p right =
     (if right \<notin> {''discover'', ''load'', ''call'', ''delegate'', ''share'', ''submit'', ''manage''} then False
      else if \<not> truthy (c_store_id c) then False
      else case find_store d (c_store_id c) (cap_tenant_of rt c) of
        None \<Rightarrow> False
      | Some row \<Rightarrow>
          if st_kind row \<in> {''user_private'', ''user_shared''}
             \<and> st_owner_identity row = Some (principal_identity rt p) then True
          else st_kind row = ''app'' \<and> truthy (p_app_id p) \<and> st_owner_app row = p_app_id p)"

definition all_users_store_grant :: "runtime \<Rightarrow> database \<Rightarrow> capability \<Rightarrow> principal \<Rightarrow> string \<Rightarrow> bool" where
  "all_users_store_grant rt d c p right =
     (if right \<notin> {''discover'', ''load'', ''call''} then False
      else if \<not> p_authenticated p then False
      else if \<not> truthy (c_store_id c) then False
      else if cap_tenant_of rt c \<noteq> tenant_of rt p then False
      else case find_store d (c_store_id c) (cap_tenant_of rt c) of
        None \<Rightarrow> False
      | Some row \<Rightarrow> st_kind row = ''all_users'')"

definition share_grant ::
  "runtime \<Rightarrow> database \<Rightarrow> string \<Rightarrow> string list \<Rightarrow> string \<Rightarrow> string \<Rightarrow> bool" where
  "share_grant rt d tenant_id subjects capability_uri right =
     (if capability_uri = [] then False
      else find (\<lambda>row. (sh_subject_type row @ '':'' @ sh_subject_id row) \<in> set subjects
                  \<and> \<not> expired (sh_expires_at row) (utc_now rt)
                  \<and> (right \<in> set (sh_rights row) \<or> ''manage'' \<in> set (sh_rights row)))
             (filter (\<lambda>r. sh_tenant r = tenant_id \<and> sh_capability_uri r = capability_uri
                  \<and> sh_state r = ''active'' \<and> sh_revoked_at r = None) (shares d)) \<noteq> None)"

definition owner_grant :: "capability \<Rightarrow> principal \<Rightarrow> string \<Rightarrow> bool" where
  "owner_grant c p right =
     (if right \<notin> {''discover'', ''load'', ''call'', ''delegate'', ''share'', ''submit'', ''manage''} then False
      else let owner = or_else (c_created_by c) (c_owner c) in
        owner = p_subject p \<or> Some owner = p_identity_id p \<or> owner \<in> set (p_groups p))"

definition store_is_org :: "database \<Rightarrow> string option \<Rightarrow> string \<Rightarrow> bool" where
  "store_is_org d store_id tenant_id =
     (if \<not> truthy store_id then False
      else find (\<lambda>s. Some (st_id s) = store_id \<and> st_tenant s = tenant_id \<and> st_kind s = ''org'')
             (stores d) \<noteq> None)"

text \<open>\<^verbatim>\<open>capability.tenant_id or principal.tenant_id or DEFAULT_TENANT\<close>.\<close>

definition cap_tenant_for :: "runtime \<Rightarrow> capability \<Rightarrow> principal \<Rightarrow> string" where
  "cap_tenant_for rt c p = (if c_tenant_id c = [] then tenant_of rt p else c_tenant_id c)"

definition org_membership_grant ::
  "runtime \<Rightarrow> database \<Rightarrow> cache \<Rightarrow> capability \<Rightarrow> principal \<Rightarrow> string \<Rightarrow> bool \<times> cache" where
  "org_membership_grant rt d cache c p right =
     (if right \<notin> {''discover'', ''load'', ''call''} then (False, cache)
      else if \<not> p_authenticated p then (False, cache)
      else if \<not> store_is_org d (c_store_id c) (cap_tenant_for rt c p) then (False, cache)
      else active_role_grant rt d cache (cap_tenant_for rt c p) (subject_refs rt p) right (Some c) None)"

definition default_visibility_grant ::
  "runtime \<Rightarrow> database \<Rightarrow> capability \<Rightarrow> principal \<Rightarrow> string \<Rightarrow> bool" where
  "default_visibility_grant rt d c p right =
     (if right \<notin> {''discover'', ''load'', ''call''} then False
      else if c_visibility c = ''public'' then True
      else if store_is_org d (c_store_id c) (cap_tenant_for rt c p) then False
      else c_visibility c = ''internal'' \<and> p_authenticated p)"

section \<open>The cascade\<close>

text \<open>\<^verbatim>\<open>principal.tenant_id or getattr(capability, "tenant_id", None) or DEFAULT_TENANT\<close>.\<close>

definition access_tenant :: "runtime \<Rightarrow> principal \<Rightarrow> capability option \<Rightarrow> string" where
  "access_tenant rt p cap =
     (if p_tenant_id p \<noteq> [] then p_tenant_id p
      else case cap of None \<Rightarrow> DEFAULT_TENANT rt | Some c \<Rightarrow> cap_tenant_of rt c)"

definition access_resource :: "capability option \<Rightarrow> string option \<Rightarrow> string" where
  "access_resource cap res = (case cap of Some c \<Rightarrow> c_uri c | None \<Rightarrow> or_else res [])"

definition access_cascade ::
  "runtime \<Rightarrow> database \<Rightarrow> cache \<Rightarrow> principal \<Rightarrow> string \<Rightarrow> capability option \<Rightarrow> string option \<Rightarrow>
   (string \<times> string) \<times> cache" where
  "access_cascade rt d cache p right cap res =
     (let tenant_id = access_tenant rt p cap;
          resources = resource_refs rt cap res;
          subjects = subject_refs rt p
      in
      if is_disabled rt d p then
        ((''deny'', ''Principal is disabled or unauthenticated.''), cache)
      else if capability_blocked cap then
        ((''deny'', ''Capability is inactive, recalled, demoted, rejected, or yanked.''), cache)
      else if requires_step_up right cap \<and> \<not> p_step_up_authenticated p then
        ((''deny'', ''Step-up authentication required for high-risk or destructive operation.''), cache)
      else if integrity_violated rt d right cap then
        ((''deny'', ''Promoted capability integrity or approval state is not valid for production use.''), cache)
      else if deny_match rt d tenant_id p right cap res then
        ((''deny'', ''Explicit deny relationship matched.''), cache)
      else if list_ex (\<lambda>role. global_role_has_right role right) (p_roles p) then
        ((''allow'', ''Principal role grants the requested right.''), cache)
      else let (by_role, cache1) = active_role_grant rt d cache tenant_id subjects right cap res in
      if by_role then
        ((''allow'', ''Active role assignment grants the requested right.''), cache1)
      else if share_grant rt d tenant_id subjects (access_resource cap res) right then
        ((''allow'', ''Active share grants the requested right.''), cache1)
      else if tuple_match d tenant_id resources [right, ''grant_'' @ right, ''owner''] subjects then
        ((''allow'', ''Relationship tuple grants the requested right.''), cache1)
      else case cap of None \<Rightarrow> ((''deny'', ''No matching grant.''), cache1)
      | Some c \<Rightarrow>
        if namespace_member_grant d (c_namespace_id c) subjects right then
          ((''allow'', ''Namespace membership grants the requested right.''), cache1)
        else if store_owner_grant rt d c p right then
          ((''allow'', ''Store ownership grants the requested right.''), cache1)
        else if manifest_grant c p right then
          ((''allow'', ''Capability manifest grant matches the principal.''), cache1)
        else if owner_grant c p right then
          ((''allow'', ''Owner rights grant the requested right.''), cache1)
        else if all_users_store_grant rt d c p right then
          ((''allow'', ''All-user store grants read-only access to authenticated tenant users.''), cache1)
        else let (by_org, cache2) = org_membership_grant rt d cache1 c p right in
        if by_org then
          ((''allow'', ''Org membership grants read access to the org store.''), cache2)
        else if default_visibility_grant rt d c p right then
          ((''allow'', ''Default visibility grants the requested right.''), cache2)
        else ((''deny'', ''No matching grant.''), cache2))"

definition record_policy_decision ::
  "runtime \<Rightarrow> string \<Rightarrow> principal \<Rightarrow> string \<Rightarrow> string \<Rightarrow> string \<Rightarrow> string \<Rightarrow> conn \<Rightarrow> conn" where
  "record_policy_decision rt tenant_id p action resource_uri decision reason con =
     (let (pid, con') = new_id rt ''pd'' con in
      with_db (\<lambda>d. d\<lparr>policy_decisions := policy_decisions d @
        [\<lparr>pd_id = pid, pd_tenant = tenant_id, pd_principal = p_subject p, pd_action = action,
          pd_resource = resource_uri, pd_decision = decision, pd_reason = reason\<rparr>]\<rparr>) con')"

definition evaluate_access ::
  "runtime \<Rightarrow> principal \<Rightarrow> string \<Rightarrow> capability option \<Rightarrow> string option \<Rightarrow> bool \<Rightarrow> conn \<Rightarrow>
   (bool \<times> string option) \<times> conn" where
  "evaluate_access rt p right cap res audit con =
     (if right \<notin> set RIGHTS then ((False, Some (''Unsupported right: '' @ right)), con)
      else
        let ((decision, reason), cache) = access_cascade rt (db con) (org_cache con) p right cap res;
            allowed = (decision = ''allow'');
            con1 = con\<lparr>org_cache := cache\<rparr>;
            con2 = (if audit
                    then record_policy_decision rt (access_tenant rt p cap) p right
                           (access_resource cap res) decision reason con1
                    else con1)
        in ((allowed, if allowed then None else Some reason), con2))"

text \<open>
  The guard of every governed operation:
  \<^verbatim>\<open>allowed, reason = evaluate_access(...); if not allowed: raise PermissionError(reason)\<close>.
\<close>

definition require_access ::
  "(conn \<Rightarrow> (bool \<times> string option) \<times> conn) \<Rightarrow> (conn \<Rightarrow> (conn, 'a) outcome) \<Rightarrow> conn \<Rightarrow> (conn, 'a) outcome" where
  "require_access evaluate body con =
     (let ((allowed, reason), con') = evaluate con in
      if \<not> allowed then (Inl (PermissionError (case reason of None \<Rightarrow> [] | Some r \<Rightarrow> r)), con')
      else body con')"

section \<open>The policy without order and without a cache\<close>

definition org_of_store :: "database \<Rightarrow> string option \<Rightarrow> string \<Rightarrow> string option" where
  "org_of_store d store_id tenant_id =
     (if \<not> truthy store_id then None
      else map_option org_id
        (find (\<lambda>r. org_store r = store_id \<and> org_tenant r = tenant_id) (organizations d)))"

text \<open>Every cached answer is what the table says.\<close>

definition cache_coherent :: "database \<Rightarrow> cache \<Rightarrow> bool" where
  "cache_coherent d cache =
     (\<forall>t s v. cache (t, s) = Some v \<longrightarrow> v = org_of_store d (Some s) t)"

definition role_scope_ok ::
  "database \<Rightarrow> string \<Rightarrow> capability option \<Rightarrow> string option \<Rightarrow> role_assignment_row \<Rightarrow> bool" where
  "role_scope_ok d tenant_id cap res row =
     (if ra_scope_type row = ''org'' then
        (case cap of
           None \<Rightarrow> res \<in> {Some (''org:'' @ ra_scope_id row), Some (ra_scope_id row)}
         | Some c \<Rightarrow> org_of_store d (c_store_id c) (if c_tenant_id c = [] then tenant_id else c_tenant_id c)
             = Some (ra_scope_id row))
      else role_assignment_scope_matches row tenant_id cap res)"

definition role_row_grants ::
  "runtime \<Rightarrow> database \<Rightarrow> string \<Rightarrow> string list \<Rightarrow> string \<Rightarrow> capability option \<Rightarrow> string option \<Rightarrow>
   role_assignment_row \<Rightarrow> bool" where
  "role_row_grants rt d tenant_id subjects right cap res row =
     ((ra_subject_type row, ra_subject_id row) \<in> set (map ref_pair subjects)
      \<and> \<not> expired (ra_expires_at row) (utc_now rt)
      \<and> role_scope_ok d tenant_id cap res row \<and> role_has_right (ra_role row) right)"

definition role_granted ::
  "runtime \<Rightarrow> database \<Rightarrow> string \<Rightarrow> string list \<Rightarrow> string \<Rightarrow> capability option \<Rightarrow> string option \<Rightarrow> bool" where
  "role_granted rt d tenant_id subjects right cap res =
     (\<exists>row \<in> set (role_assignments d). ra_tenant row = tenant_id \<and> ra_revoked_at row = None
        \<and> role_row_grants rt d tenant_id subjects right cap res row)"

definition guard_denies ::
  "runtime \<Rightarrow> database \<Rightarrow> principal \<Rightarrow> string \<Rightarrow> capability option \<Rightarrow> string option \<Rightarrow> bool" where
  "guard_denies rt d p right cap res =
     (is_disabled rt d p \<or> capability_blocked cap
      \<or> (requires_step_up right cap \<and> \<not> p_step_up_authenticated p)
      \<or> integrity_violated rt d right cap
      \<or> deny_match rt d (access_tenant rt p cap) p right cap res)"

definition capability_granted ::
  "runtime \<Rightarrow> database \<Rightarrow> principal \<Rightarrow> string \<Rightarrow> capability \<Rightarrow> bool" where
  "capability_granted rt d p right c =
     (namespace_member_grant d (c_namespace_id c) (subject_refs rt p) right
      \<or> store_owner_grant rt d c p right \<or> manifest_grant c p right \<or> owner_grant c p right
      \<or> all_users_store_grant rt d c p right
      \<or> (right \<in> {''discover'', ''load'', ''call''} \<and> p_authenticated p
          \<and> store_is_org d (c_store_id c) (cap_tenant_for rt c p)
          \<and> role_granted rt d (cap_tenant_for rt c p) (subject_refs rt p) right (Some c) None)
      \<or> default_visibility_grant rt d c p right)"

definition some_grant ::
  "runtime \<Rightarrow> database \<Rightarrow> principal \<Rightarrow> string \<Rightarrow> capability option \<Rightarrow> string option \<Rightarrow> bool" where
  "some_grant rt d p right cap res =
     ((\<exists>role \<in> set (p_roles p). global_role_has_right role right)
      \<or> role_granted rt d (access_tenant rt p cap) (subject_refs rt p) right cap res
      \<or> share_grant rt d (access_tenant rt p cap) (subject_refs rt p) (access_resource cap res) right
      \<or> tuple_match d (access_tenant rt p cap) (resource_refs rt cap res)
          [right, ''grant_'' @ right, ''owner''] (subject_refs rt p)
      \<or> (\<exists>c. cap = Some c \<and> capability_granted rt d p right c))"

definition access_allowed ::
  "runtime \<Rightarrow> database \<Rightarrow> principal \<Rightarrow> string \<Rightarrow> capability option \<Rightarrow> string option \<Rightarrow> bool" where
  "access_allowed rt d p right cap res =
     (right \<in> set RIGHTS \<and> \<not> guard_denies rt d p right cap res \<and> some_grant rt d p right cap res)"

section \<open>The cache is transparent\<close>

lemma cache_coherent_empty [simp]: "cache_coherent d Map.empty"
  by (simp add: cache_coherent_def)

lemma org_id_for_store_spec:
  assumes "cache_coherent d cache"
  shows "fst (org_id_for_store d cache s t) = org_of_store d s t"
    and "cache_coherent d (snd (org_id_for_store d cache s t))"
  using assms
  by (auto simp: org_id_for_store_def org_of_store_def cache_coherent_def Let_def truthy_def
      split: option.splits if_splits)

lemma org_scope_matches_spec:
  assumes "cache_coherent d cache" and "ra_scope_type row = ''org''"
  shows "fst (org_scope_matches d cache row t cap res) = role_scope_ok d t cap res row"
    and "cache_coherent d (snd (org_scope_matches d cache row t cap res))"
  using assms org_id_for_store_spec [OF assms(1)]
  by (auto simp: org_scope_matches_def role_scope_ok_def Let_def case_prod_unfold split: option.splits)

lemma role_rows_grant_spec:
  assumes "cache_coherent d cache"
  shows "fst (role_rows_grant rt d t subs right cap res rows cache)
           = (\<exists>row \<in> set rows. role_row_grants rt d t subs right cap res row)
         \<and> cache_coherent d (snd (role_rows_grant rt d t subs right cap res rows cache))"
  using assms
proof (induction rows arbitrary: cache)
  case Nil
  then show ?case by simp
next
  case (Cons row rows)
  show ?case
  proof (cases "ra_scope_type row = ''org''")
    case True
    note spec = org_scope_matches_spec [OF Cons.prems True, of t cap res]
    show ?thesis
      using Cons.IH [OF Cons.prems] Cons.IH [OF spec(2)] spec True
      by (auto simp: role_row_grants_def case_prod_unfold Let_def)
  next
    case False
    then show ?thesis
      using Cons.IH [OF Cons.prems] Cons.prems
      by (auto simp: role_row_grants_def role_scope_ok_def)
  qed
qed

lemma active_role_grant_spec:
  assumes "cache_coherent d cache"
  shows "fst (active_role_grant rt d cache t subs right cap res) =
      role_granted rt d t subs right cap res"
    and "cache_coherent d (snd (active_role_grant rt d cache t subs right cap res))"
  using role_rows_grant_spec [OF assms, of rt t subs right cap res
      "filter (\<lambda>r. ra_tenant r = t \<and> ra_revoked_at r = None) (role_assignments d)"] assms
  by (auto simp: active_role_grant_def role_granted_def role_row_grants_def)

lemma org_membership_grant_spec:
  assumes "cache_coherent d cache"
  shows "fst (org_membership_grant rt d cache c p right) =
      (right \<in> {''discover'', ''load'', ''call''} \<and> p_authenticated p
       \<and> store_is_org d (c_store_id c) (cap_tenant_for rt c p)
       \<and> role_granted rt d (cap_tenant_for rt c p) (subject_refs rt p) right (Some c) None)"
    and "cache_coherent d (snd (org_membership_grant rt d cache c p right))"
  using active_role_grant_spec [OF assms] assms by (auto simp: org_membership_grant_def)

section \<open>The cascade decides the policy\<close>

lemma cascade_guard:
  assumes "guard_denies rt d p right cap res"
  shows "fst (fst (access_cascade rt d cache p right cap res)) = ''deny''"
    and "snd (access_cascade rt d cache p right cap res) = cache"
  using assms by (auto simp: guard_denies_def access_cascade_def Let_def)

lemma cascade_spec:
  assumes "cache_coherent d cache"
  shows "(fst (fst (access_cascade rt d cache p right cap res)) = ''allow'') =
      (\<not> guard_denies rt d p right cap res \<and> some_grant rt d p right cap res)
    \<and> cache_coherent d (snd (access_cascade rt d cache p right cap res))"
proof (cases "guard_denies rt d p right cap res")
  case True
  then show ?thesis using cascade_guard [OF True, of cache] assms by simp
next
  case False
  let ?t = "access_tenant rt p cap" and ?s = "subject_refs rt p"
  obtain g c1 where r: "active_role_grant rt d cache ?t ?s right cap res = (g, c1)" by fastforce
  have g: "g = role_granted rt d ?t ?s right cap res" and c1: "cache_coherent d c1"
    using active_role_grant_spec [OF assms, of rt ?t ?s right cap res] r by auto
  show ?thesis
  proof (cases cap)
    case None
    then show ?thesis
      using False r g c1 assms
      by (auto simp: access_cascade_def guard_denies_def some_grant_def Let_def list_ex_iff)
  next
    case (Some c)
    obtain g2 c2 where m: "org_membership_grant rt d c1 c p right = (g2, c2)" by fastforce
    note spec = org_membership_grant_spec [OF c1, of rt c p right]
    from Some show ?thesis
      using False r g c1 assms m spec
      by (auto simp: access_cascade_def guard_denies_def some_grant_def capability_granted_def
          Let_def list_ex_iff)
  qed
qed

lemma evaluate_access_allowed:
  assumes "cache_coherent (db con) (org_cache con)"
  shows "fst (fst (evaluate_access rt p right cap res audit con)) =
           access_allowed rt (db con) p right cap res"
    and "cache_coherent (db con) (org_cache (snd (evaluate_access rt p right cap res audit con)))"
  using cascade_spec [OF assms, of rt p right cap res] assms
  by (auto simp: evaluate_access_def access_allowed_def record_policy_decision_def
      Let_def case_prod_unfold)

lemma evaluate_access_guard:
  "guard_denies rt (db con) p right cap res \<Longrightarrow>
   \<not> fst (fst (evaluate_access rt p right cap res audit con))"
  using cascade_guard(1) [of rt "db con" p right cap res "org_cache con"]
  by (auto simp: evaluate_access_def Let_def case_prod_unfold)

section \<open>The contract of the gate\<close>

text \<open>All tables but the record of decisions.\<close>

definition unaudited :: "database \<Rightarrow> database" where
  "unaudited d = d\<lparr>policy_decisions := []\<rparr>"

text \<open>
  What a governed operation relies on: asking may append to the record of decisions, changes
  no other table, commits nothing, keeps the organization table and hence the coherence of the
  cache, and gives a reason exactly when it denies.
\<close>

locale access_gate =
  fixes evaluate :: "conn \<Rightarrow> (bool \<times> string option) \<times> conn"
  assumes gate_frame: "unaudited (db (snd (evaluate con))) = unaudited (db con)"
    and gate_durable: "durable (snd (evaluate con)) = durable con"
    and gate_reason: "snd (fst (evaluate con)) = None \<longleftrightarrow> fst (fst (evaluate con))"
begin

lemma require_denied:
  assumes "\<not> fst (fst (evaluate con))"
  shows "\<exists>r. require_access evaluate body con = (Inl (PermissionError r), snd (evaluate con))
    \<and> snd (fst (evaluate con)) = Some r"
  using assms gate_reason [of con]
  by (auto simp: require_access_def case_prod_unfold Let_def split: option.splits)

lemma require_allowed:
  "fst (fst (evaluate con)) \<Longrightarrow> require_access evaluate body con = body (snd (evaluate con))"
  by (simp add: require_access_def case_prod_unfold Let_def)

lemma require_Inr:
  "fst (require_access evaluate body con) = Inr x \<Longrightarrow>
     fst (fst (evaluate con)) \<and> require_access evaluate body con = body (snd (evaluate con))"
  by (auto simp: require_access_def case_prod_unfold Let_def split: if_splits)

lemma denied_changes_nothing:
  assumes "\<not> fst (fst (evaluate con))"
  shows "raised (require_access evaluate body con)
    \<and> unaudited (db (snd (require_access evaluate body con))) = unaudited (db con)
    \<and> durable (snd (require_access evaluate body con)) = durable con"
  using require_denied [OF assms, of body] gate_frame [of con] gate_durable [of con] by auto

end

lemma unaudited_record:
  "unaudited (db (record_policy_decision rt t p a u dec r con)) = unaudited (db con)"
  by (simp add: record_policy_decision_def unaudited_def Let_def case_prod_unfold)

lemma durable_record: "durable (record_policy_decision rt t p a u dec r con) = durable con"
  by (simp add: record_policy_decision_def Let_def case_prod_unfold)

interpretation gate: access_gate "evaluate_access rt p right cap res audit"
  for rt p right cap res audit
proof unfold_locales
  fix con
  show "unaudited (db (snd (evaluate_access rt p right cap res audit con))) = unaudited (db con)"
    by (simp add: evaluate_access_def Let_def case_prod_unfold unaudited_record)
  show "durable (snd (evaluate_access rt p right cap res audit con)) = durable con"
    by (simp add: evaluate_access_def Let_def case_prod_unfold durable_record)
  show "snd (fst (evaluate_access rt p right cap res audit con)) = None \<longleftrightarrow>
      fst (fst (evaluate_access rt p right cap res audit con))"
    by (simp add: evaluate_access_def Let_def case_prod_unfold)
qed

lemma unaudited_tables:
  assumes "unaudited d = unaudited d'"
  shows "tenants d = tenants d'" "identities d = identities d'" "organizations d = organizations d'" "stores d = stores d'"
    "namespaces d = namespaces d'" "namespace_members d = namespace_members d'"
    "role_assignments d = role_assignments d'" "relationship_tuples d = relationship_tuples d'"
    "shares d = shares d'" "promotion_requests d = promotion_requests d'"
    "approval_steps d = approval_steps d'" "audit_events d = audit_events d'"
    "registry_log d = registry_log d'" "capabilities d = capabilities d'"
    "capability_sources d = capability_sources d'"
  using assms by (cases d; cases d'; simp add: unaudited_def)+

section \<open>The tables the policy reads\<close>

definition same_policy :: "database \<Rightarrow> database \<Rightarrow> bool" where
  "same_policy d d' = (identities d = identities d' \<and> organizations d = organizations d' \<and> stores d = stores d'
     \<and> namespace_members d = namespace_members d' \<and> role_assignments d = role_assignments d'
     \<and> relationship_tuples d = relationship_tuples d' \<and> shares d = shares d'
     \<and> promotion_requests d = promotion_requests d' \<and> approval_steps d = approval_steps d')"

lemma role_rows_grant_cong:
  assumes "same_policy d d'"
  shows "role_rows_grant rt d tid ss right cap res rows cache = role_rows_grant rt d' tid ss right cap res rows cache"
proof (induction rows arbitrary: cache)
  case (Cons row rows)
  have org_id: "org_id_for_store d c s t = org_id_for_store d' c s t" for c s t
    using assms by (simp add: org_id_for_store_def same_policy_def Let_def split: option.splits)
  have "org_scope_matches d c row tid cap res = org_scope_matches d' c row tid cap res" for c
    by (cases cap) (simp_all add: org_scope_matches_def org_id)
  with Cons show ?case by (simp add: Let_def case_prod_unfold)
qed simp

lemma access_cascade_cong:
  assumes same: "same_policy d d'"
  shows "access_cascade rt d cache p right cap res = access_cascade rt d' cache p right cap res"
proof -
  note r = role_rows_grant_cong [OF same, of rt]
  note eqs = same [unfolded same_policy_def]
  have grants: "is_disabled rt d p = is_disabled rt d' p"
    "deny_match rt d tid p right cap res = deny_match rt d' tid p right cap res"
    "active_role_grant rt d cc tid ss rg cap' res' = active_role_grant rt d' cc tid ss rg cap' res'"
    "share_grant rt d tid ss u right = share_grant rt d' tid ss u right"
    "tuple_match d tid os rs ss = tuple_match d' tid os rs ss"
    "namespace_member_grant d n ss right = namespace_member_grant d' n ss right"
    "find_store d sid tid = find_store d' sid tid" "store_is_org d sid tid = store_is_org d' sid tid"
    for tid cc ss rg cap' res' u os rs n sid
    by (simp_all add: is_disabled_def deny_match_def tuple_match_def active_role_grant_def r
        share_grant_def namespace_member_grant_def find_store_def store_is_org_def eqs)
  have integrity: "integrity_violated rt d right cap = integrity_violated rt d' right cap"
    by (cases cap) (simp_all add: integrity_violated_def integrity_required_def has_formal_promotion_record_def eqs)
  have more: "store_owner_grant rt d c p right = store_owner_grant rt d' c p right"
    "all_users_store_grant rt d c p right = all_users_store_grant rt d' c p right"
    "org_membership_grant rt d cc c p right = org_membership_grant rt d' cc c p right"
    "default_visibility_grant rt d c p right = default_visibility_grant rt d' c p right" for c cc
    by (simp_all add: store_owner_grant_def all_users_store_grant_def org_membership_grant_def
        default_visibility_grant_def grants eqs)
  show ?thesis unfolding access_cascade_def grants integrity more by simp
qed

lemma access_allowed_cong:
  assumes "same_policy d d'"
  shows "access_allowed rt d p right cap res = access_allowed rt d' p right cap res"
  using cascade_spec [where d = d, OF cache_coherent_empty, of rt p right cap res]
    cascade_spec [where d = d', OF cache_coherent_empty, of rt p right cap res] access_cascade_cong [OF assms]
  unfolding access_allowed_def by metis

lemma cache_coherent_cong: "organizations d = organizations d' \<Longrightarrow> cache_coherent d c = cache_coherent d' c"
  by (simp add: cache_coherent_def org_of_store_def)

text \<open>Asking without a record changes no table.\<close>

lemma evaluate_access_unaudited [simp]:
  "db (snd (evaluate_access rt p right cap res False con)) = db con"
  "durable (snd (evaluate_access rt p right cap res audit con)) = durable con"
  by (simp_all add: evaluate_access_def Let_def case_prod_unfold durable_record)

text \<open>Asking twice: the record of the first decision does not change the second.\<close>

lemma same_policy_evaluate:
  "same_policy (db (snd (evaluate_access rt p right cap res audit con))) (db con)"
  using unaudited_tables [OF gate.gate_frame, of rt p right cap res audit con] by (simp add: same_policy_def)

lemma evaluate_access_coherent:
  assumes "cache_coherent (db con) (org_cache con)"
  shows "cache_coherent (db (snd (evaluate_access rt p right cap res audit con)))
    (org_cache (snd (evaluate_access rt p right cap res audit con)))"
  using evaluate_access_allowed(2) [OF assms] cache_coherent_cong
    unaudited_tables(3) [OF gate.gate_frame] by metis

lemma is_disabledI: "p_disabled p \<or> \<not> p_authenticated p \<Longrightarrow> is_disabled rt d p"
  by (auto simp: is_disabled_def)

text \<open>No guard denies an enabled principal outside production when no deny tuple exists.\<close>

lemma unguardedI:
  assumes "p_authenticated p" "\<not> p_disabled p" "\<forall>i \<in> set (identities d). id_active i"
    and "\<forall>t \<in> set (relationship_tuples d). \<not> startswith (rt_relation t) ''deny''"
    and "\<not> capability_blocked cap" "\<not> requires_step_up right cap \<or> p_step_up_authenticated p"
    and "\<not> production_environment rt"
  shows "\<not> guard_denies rt d p right cap res"
proof -
  let ?rows = "filter (\<lambda>i. id_tenant i = tenant_of rt p \<and> (id_user_name i = p_subject p
      \<or> (truthy (p_identity_id p) \<and> p_identity_id p = Some (id_id i))
      \<or> (truthy (p_email p) \<and> p_email p = id_email i))) (identities d)"
  have "id_active r" if "order_by_desc id_updated_at ?rows = r # rs" for r rs
  proof -
    have "r \<in> set (order_by_desc id_updated_at ?rows)" using that by simp
    with assms(3) show ?thesis by simp
  qed
  then have "\<not> is_disabled rt d p" using assms(1,2) by (auto simp: is_disabled_def Let_def split: list.splits)
  moreover have "\<not> deny_match rt d tenant p right cap res" for tenant
    using assms(4) by (auto simp: deny_match_def tuple_match_def find_None_iff startswith_def)
  moreover have "\<not> integrity_violated rt d right cap"
    using assms(7) by (auto simp: integrity_violated_def integrity_required_def split: option.splits)
  ultimately show ?thesis using assms(5,6) by (auto simp: guard_denies_def)
qed

lemma global_admin_allowed:
  assumes "\<not> guard_denies rt d p right cap res" and "''platform_admin'' \<in> set (p_roles p)" and "right \<in> set RIGHTS"
  shows "access_allowed rt d p right cap res"
proof -
  have "global_role_has_right ''platform_admin'' right"
    using assms(3) by (simp add: global_role_has_right_def GLOBAL_ROLE_GRANT_ROLES_def role_has_right_def
        role_rights_def ROLE_RIGHTS_def)
  with assms show ?thesis by (auto simp: access_allowed_def some_grant_def)
qed

lemma default_visibility_allowed:
  assumes "right \<in> {''discover'', ''load'', ''call''}" and "c_visibility c = ''internal''"
    and "\<not> store_is_org d (c_store_id c) (cap_tenant_for rt c p)"
    and "\<not> guard_denies rt d p right (Some c) res"
  shows "access_allowed rt d p right (Some c) res"
proof -
  have "p_authenticated p" using assms(4) is_disabledI by (auto simp: guard_denies_def)
  then have "default_visibility_grant rt d c p right"
    using assms(1-3) by (auto simp: default_visibility_grant_def)
  moreover have "right \<in> set RIGHTS" using assms(1) by (auto simp: RIGHTS_def)
  ultimately show ?thesis
    using assms(4) by (simp add: access_allowed_def some_grant_def capability_granted_def)
qed

section \<open>Sample data\<close>

text \<open>A small installation on which the theorems with hypotheses are applied.\<close>

definition sample_runtime :: runtime where
  "sample_runtime = \<lparr>environ = Map.empty, clock_us = 1785542400000000, uuid4_hex = str_of_nat,
     token_urlsafe = (\<lambda>n k. str_of_nat k)\<rparr>"

definition empty_database :: database where
  "empty_database = \<lparr>tenants = [], apps = [], identities = [], organizations = [], stores = [], namespaces = [],
     namespace_members = [], role_assignments = [], relationship_tuples = [],
     policy_decisions = [], shares = [], promotion_requests = [], approval_steps = [],
     capability_reviews = [], promotion_gate_runs = [], capguard_quarantine = [],
     capguard_attestations = [], capmesh_sessions = [], oauth_sessions = [], entra_group_bindings = [], graph_subscriptions = [],
     malware_scan_results = [], call_binding_allowlist = [], group_rows = [], group_members = [], scim_sync_state = [],
     audit_events = [], registry_log = [], break_glass_sessions = [], task_envelopes = [],
     capability_dependencies = [], capabilities = [], capability_sources = [],
     capability_fts = [], router_reports = [], authoritative_router_reports = [],
     scim_entitlement_sync = [], scim_group_mappings = [], catalog_generation = None, last_ingest_at = None\<rparr>"

definition sample_conn :: "database \<Rightarrow> conn" where
  "sample_conn d = \<lparr>db = d, durable = d, drawn = 0, org_cache = Map.empty\<rparr>"

definition sample_principal :: principal where
  "sample_principal = \<lparr>p_subject = ''ann@example.com'', p_tenant_id = ''asg'',
     p_identity_id = Some ''idn_ann'', p_email = None, p_display_name = None, p_app_id = None,
     p_groups = [], p_roles = [''member''], p_scopes = [], p_authenticated = True,
     p_disabled = False, p_step_up_authenticated = False\<rparr>"

definition sample_capability :: capability where
  "sample_capability = \<lparr>c_uri = ''cap://all/asg/everyone/skill/p.s@1.0.0'', c_type = ''skill'',
     c_name = ''s'', c_version = ''1.0.0'', c_title = ''S'', c_description = ''a skill'',
     c_package_path = ''/'', c_entrypoint = ''s'',
     c_source_path = ''/s'', c_source_kind = ''skill'', c_source_system = ''asg-os.plugins'',
     c_canonical_key = ''p.s'', c_content_hash = ''sha256:0'', c_visibility = ''internal'',
     c_discovery_mode = ''public'', c_owner = ''asg'', c_plugin = Some ''p'', c_category = None, c_keywords = [],
     c_required_scopes = [], c_allow_groups = [], c_allow_users = [], c_risk_tier = ''low'',
     c_mutating = False, c_lifecycle = ''active'', c_tenant_id = ''asg'',
     c_store_id = Some ''store_all'', c_namespace_id = Some ''ns_all'', c_created_by = None,
     c_submitted_by = None, c_promoted_from_uri = None, c_approval_state = ''published'',
     c_share_state = ''not_shared'', c_signature_status = ''unchecked'',
     c_provenance_status = ''unchecked'', c_risk_review_status = ''pending'', c_metadata = [],
     c_source_commit = None, c_license = None, c_row_id = 1\<rparr>"

definition sample_store :: "string \<Rightarrow> string \<Rightarrow> string \<Rightarrow> store_row" where
  "sample_store sid tenant kind = \<lparr>st_id = sid, st_tenant = tenant, st_kind = kind,
     st_name = kind, st_uri_prefix = ''cap://'' @ kind @ ''/'' @ tenant, st_owner_identity = None,
     st_owner_app = None, st_disabled_at = None\<rparr>"

lemmas sample_defs = sample_runtime_def empty_database_def sample_conn_def sample_principal_def
  sample_capability_def sample_store_def

lemma sample_unguarded:
  "\<not> guard_denies sample_runtime (empty_database\<lparr>stores := ss\<rparr>)
     (sample_principal\<lparr>p_tenant_id := t\<rparr>) ''load'' (Some sample_capability) None"
  by (simp add: sample_defs guard_denies_def is_disabled_def order_by_desc_def
      capability_blocked_def blocked_states_def blocked_lifecycles_def requires_step_up_def
      STEP_UP_RIGHTS_def integrity_violated_def integrity_required_def production_environment_def
      deny_match_def tuple_match_def py_strip_def py_lstrip_def py_rstrip_def py_lower_def)

lemma sample_not_org:
  "\<not> store_is_org (empty_database\<lparr>stores := [sample_store i t ''all_users'']\<rparr>) s u"
  by (simp add: sample_store_def store_is_org_def)

section \<open>Properties\<close>

text \<open>C1. The cascade of evaluate_access decides exactly the policy read without order and
  without the cache: the right is known, no guard fires (disabled principal, blocked
  capability, missing step-up, broken attestation in production, explicit deny), and some
  grant holds. The process-wide organization cache never changes a decision while its answers
  agree with the table, and evaluation keeps that agreement.\<close>

theorem evaluate_access_decides_policy:
  assumes "cache_coherent (db con) (org_cache con)"
  shows "(fst (fst (evaluate_access rt p right cap res audit con))
           \<longleftrightarrow> access_allowed rt (db con) p right cap res)
    \<and> (cache_coherent (db con) (org_cache (snd (evaluate_access rt p right cap res audit con))))"
  using evaluate_access_allowed [OF assms] by auto

theorem evaluate_access_decides_policy_witness:
  "fst (fst (evaluate_access sample_runtime (sample_principal\<lparr>p_tenant_id := ''asg''\<rparr>) ''load''
      (Some sample_capability) None True
      (sample_conn (empty_database\<lparr>stores := [sample_store ''store_all'' ''asg'' ''all_users'']\<rparr>))))"
proof -
  let ?d = "empty_database\<lparr>stores := [sample_store ''store_all'' ''asg'' ''all_users'']\<rparr>"
  have c: "cache_coherent (db (sample_conn ?d)) (org_cache (sample_conn ?d))"
    by (simp add: sample_conn_def)
  have "access_allowed sample_runtime ?d (sample_principal\<lparr>p_tenant_id := ''asg''\<rparr>) ''load''
      (Some sample_capability) None"
    by (rule default_visibility_allowed)
      (simp_all add: sample_unguarded sample_not_org sample_capability_def [THEN arg_cong, of c_visibility])
  then show ?thesis
    using evaluate_access_decides_policy [OF c, THEN conjunct1] by (simp add: sample_conn_def)
qed

text \<open>Specification: the identities rows that speak about a principal (the model of the query in
  \<^const>\<open>is_disabled\<close> is written out there, not through this predicate).\<close>

definition identity_matches :: "runtime \<Rightarrow> principal \<Rightarrow> identity_row \<Rightarrow> bool" where
  "identity_matches rt p i =
     (id_tenant i = tenant_of rt p \<and>
      (id_user_name i = p_subject p
       \<or> (truthy (p_identity_id p) \<and> p_identity_id p = Some (id_id i))
       \<or> (truthy (p_email p) \<and> p_email p = id_email i)))"

lemma last_sort_key_max:
  assumes "x \<in> set xs"
  shows "k x \<le> k (last (sort_key k xs))"
proof -
  from assms have "x \<in> set (sort_key k xs)" by simp
  then obtain i where i: "i < length xs" "sort_key k xs ! i = x"
    by (metis in_set_conv_nth length_sort)
  have "map k (sort_key k xs) ! i \<le> map k (sort_key k xs) ! (length xs - 1)"
    by (rule sorted_nth_mono) (use i(1) in auto)
  moreover have "last (sort_key k xs) = sort_key k xs ! (length xs - 1)"
    using i(1) by (metis last_conv_nth length_0_conv length_sort less_nat_zero_code)
  ultimately show ?thesis using i by (simp add: nth_map)
qed

lemma order_by_desc_first_max:
  assumes "order_by_desc k xs = y # ys" and "x \<in> set xs"
  shows "k x \<le> k y"
proof -
  from assms(1) have "sort_key k (rev xs) = rev ys @ [y]"
    by (simp add: order_by_desc_def rev_eq_Cons_iff)
  then have "y = last (sort_key k (rev xs))" by simp
  then show ?thesis using last_sort_key_max [of x "rev xs" k] assms(2) by simp
qed

lemma newest_inactive_disabled:
  assumes "i \<in> set (identities d)" and "identity_matches rt p i"
    and newest: "\<And>j. j \<in> set (identities d) \<Longrightarrow> identity_matches rt p j
                   \<Longrightarrow> id_updated_at i \<le> id_updated_at j \<Longrightarrow> \<not> id_active j"
  shows "is_disabled rt d p"
proof (cases "order_by_desc id_updated_at (filter (identity_matches rt p) (identities d))")
  case Nil
  then have "set (filter (identity_matches rt p) (identities d)) = {}"
    by (metis set_order_by_desc set_empty)
  with assms(1,2) show ?thesis by auto
next
  case (Cons y ys)
  have "y \<in> set (filter (identity_matches rt p) (identities d))"
    by (metis Cons list.set_intros(1) set_order_by_desc)
  moreover have "id_updated_at i \<le> id_updated_at y"
    using order_by_desc_first_max [OF Cons, of i] assms(1,2) by simp
  ultimately have "\<not> id_active y" using newest by simp
  then show ?thesis
    using Cons by (simp add: is_disabled_def identity_matches_def [abs_def] Let_def)
qed

lemma guard_from_principal:
  "p_disabled p \<Longrightarrow> guard_denies rt d p right cap res"
  "\<not> p_authenticated p \<Longrightarrow> guard_denies rt d p right cap res"
  by (simp_all add: guard_denies_def is_disabled_def)

lemma guard_from_identity:
  "\<lbrakk>i \<in> set (identities d); identity_matches rt p i;
    \<forall>j \<in> set (identities d). identity_matches rt p j
       \<longrightarrow> id_updated_at i \<le> id_updated_at j \<longrightarrow> \<not> id_active j\<rbrakk>
   \<Longrightarrow> guard_denies rt d p right cap res"
  using newest_inactive_disabled [of i d rt p] by (auto simp: guard_denies_def)

lemma guard_from_block:
  "\<lbrakk>cap = Some c; c_approval_state c \<in> {''rejected'', ''recalled'', ''demoted'', ''yanked''}
      \<or> c_lifecycle c \<in> {''disabled'', ''deleted'', ''retired'', ''recalled'', ''yanked''}\<rbrakk>
   \<Longrightarrow> guard_denies rt d p right cap res"
  by (auto simp: guard_denies_def capability_blocked_def blocked_states_def blocked_lifecycles_def)

lemma guard_from_integrity:
  "\<lbrakk>cap = Some c; production_environment rt; truthy (c_promoted_from_uri c);
    \<exists>r \<in> set (promotion_requests d). pr_tenant r = cap_tenant_of rt c \<and> pr_capability_uri r = c_uri c;
    right \<in> {''discover'', ''load'', ''call'', ''delegate''};
    c_approval_state c \<noteq> ''approved'' \<or> c_signature_status c \<noteq> ''verified''
      \<or> c_provenance_status c \<noteq> ''verified'' \<or> c_risk_review_status c \<noteq> ''approved''\<rbrakk>
   \<Longrightarrow> guard_denies rt d p right cap res"
  unfolding guard_denies_def integrity_violated_def integrity_required_def
    has_formal_promotion_record_def attested_def find_None_iff
  by (simp only: option.case) blast

lemma guard_from_step_up:
  "\<lbrakk>cap = Some c; right \<in> {''manage'', ''approve'', ''publish''};
    c_risk_tier c \<in> {''high'', ''critical''}; \<not> p_step_up_authenticated p\<rbrakk>
   \<Longrightarrow> guard_denies rt d p right cap res"
  by (auto simp: guard_denies_def requires_step_up_def STEP_UP_RIGHTS_def STEP_UP_RISK_TIERS_def)

lemma guard_from_deny:
  "\<lbrakk>t \<in> set (relationship_tuples d); rt_tenant t = access_tenant rt p cap;
    rt_object t \<in> set (resource_refs rt cap res);
    rt_relation t \<in> {''deny_'' @ right, ''deny''}; rt_user t \<in> set (subject_refs rt p)\<rbrakk>
   \<Longrightarrow> guard_denies rt d p right cap res"
  by (auto simp: guard_denies_def deny_match_def tuple_match_def find_None_iff)

text \<open>C2. Guards win over every grant, whatever roles, shares or tuples the principal holds. Each
  of these is refused, with a reason: a principal whose record is disabled or unauthenticated; a
  principal that the identities table of its tenant matches, by user name, identity id or e-mail,
  where the newest matching rows (one of them and all that are as new) are inactive; a capability
  in a blocked approval state or lifecycle; in production, the use of a formally promoted
  capability that is not approved, signed, of verified provenance and risk-approved; a step-up
  right on a high or critical capability without step-up authentication; and a matching deny
  tuple.\<close>

theorem guards_win_over_grants:
  assumes "p_disabled p \<or> \<not> p_authenticated p
    \<or> (\<exists>i \<in> set (identities (db con)).
          identity_matches rt p i
          \<and> (\<forall>j \<in> set (identities (db con)). identity_matches rt p j
                \<longrightarrow> id_updated_at i \<le> id_updated_at j \<longrightarrow> \<not> id_active j))
    \<or> (\<exists>c. cap = Some c \<and> (c_approval_state c \<in> {''rejected'', ''recalled'', ''demoted'', ''yanked''}
          \<or> c_lifecycle c \<in> {''disabled'', ''deleted'', ''retired'', ''recalled'', ''yanked''}))
    \<or> (\<exists>c. cap = Some c \<and> production_environment rt \<and> truthy (c_promoted_from_uri c)
          \<and> (\<exists>r \<in> set (promotion_requests (db con)).
                pr_tenant r = cap_tenant_of rt c \<and> pr_capability_uri r = c_uri c)
          \<and> right \<in> {''discover'', ''load'', ''call'', ''delegate''}
          \<and> (c_approval_state c \<noteq> ''approved'' \<or> c_signature_status c \<noteq> ''verified''
              \<or> c_provenance_status c \<noteq> ''verified'' \<or> c_risk_review_status c \<noteq> ''approved''))
    \<or> (\<exists>c. cap = Some c \<and> right \<in> {''manage'', ''approve'', ''publish''}
          \<and> c_risk_tier c \<in> {''high'', ''critical''} \<and> \<not> p_step_up_authenticated p)
    \<or> (\<exists>t \<in> set (relationship_tuples (db con)). rt_tenant t = access_tenant rt p cap
          \<and> rt_object t \<in> set (resource_refs rt cap res)
          \<and> rt_relation t \<in> {''deny_'' @ right, ''deny''} \<and> rt_user t \<in> set (subject_refs rt p))"
  shows "\<exists>reason. fst (evaluate_access rt p right cap res audit con) = (False, Some reason)"
proof -
  have "guard_denies rt (db con) p right cap res"
    using assms
    by (elim disjE)
      (blast intro: guard_from_principal guard_from_identity guard_from_block guard_from_integrity
        guard_from_step_up guard_from_deny)+
  then have "\<not> fst (fst (evaluate_access rt p right cap res audit con))"
    by (rule evaluate_access_guard)
  with gate.gate_reason [of rt p right cap res audit con] show ?thesis
    by (cases "fst (evaluate_access rt p right cap res audit con)") auto
qed

theorem guards_win_over_grants_witness:
  "\<exists>reason. fst (evaluate_access sample_runtime (sample_principal\<lparr>p_roles := [''platform_admin'']\<rparr>)
     ''manage'' (Some (sample_capability\<lparr>c_risk_tier := ''critical''\<rparr>)) None True
     (sample_conn (empty_database\<lparr>identities :=
        [\<lparr>id_id = ''idn_1'', id_tenant = ''asg'', id_external_id = None,
          id_user_name = ''ann@example.com'', id_display_name = None, id_email = None,
          id_type = ''user'', id_active = False, id_raw_json = ''{}'',
          id_created_at = ''2026-01-01'', id_updated_at = ''2026-01-01''\<rparr>]\<rparr>))) = (False, Some reason)"
  by (rule guards_win_over_grants)
    (simp add: sample_principal_def sample_conn_def identity_matches_def)

text \<open>Every audited evaluation of a known right is recorded by exactly one new row of
  policy_decisions, which carries the decision that was returned; no other table changes and
  nothing is committed.\<close>

theorem evaluate_access_records_decision:
  assumes "right \<in> set RIGHTS"
  shows "\<exists>row. policy_decisions (db (snd (evaluate_access rt p right cap res True con)))
             = policy_decisions (db con) @ [row]
           \<and> pd_principal row = p_subject p \<and> pd_action row = right
           \<and> (pd_decision row = ''allow'') = fst (fst (evaluate_access rt p right cap res True con))
           \<and> unaudited (db (snd (evaluate_access rt p right cap res True con))) = unaudited (db con)
           \<and> durable (snd (evaluate_access rt p right cap res True con)) = durable con"
  using gate.gate_frame [of rt p right cap res True con]
    gate.gate_durable [of rt p right cap res True con] assms
  by (simp add: evaluate_access_def record_policy_decision_def new_id_def Let_def case_prod_unfold)

theorem evaluate_access_records_decision_witness:
  "\<exists>row. policy_decisions (db (snd (evaluate_access sample_runtime sample_principal ''audit'' None
       (Some ''tenant:asg'') True (sample_conn empty_database)))) = [row]
     \<and> pd_principal row = ''ann@example.com'' \<and> pd_action row = ''audit''"
proof -
  have "''audit'' \<in> set RIGHTS" by (simp add: RIGHTS_def)
  from evaluate_access_records_decision [OF this, of sample_runtime sample_principal None
      "Some ''tenant:asg''" "sample_conn empty_database"]
  show ?thesis by (auto simp: sample_conn_def empty_database_def sample_principal_def)
qed

text \<open>An internal capability outside an organization store is open for reading to every
  enabled principal of any tenant: the tenant comparison of the all-users store grant is
  overtaken by the default visibility grant below it, which does not look at tenants.\<close>

theorem internal_capability_readable_across_tenants:
  assumes "cache_coherent (db con) (org_cache con)"
    and "right \<in> {''discover'', ''load'', ''call''}"
    and "c_visibility c = ''internal''"
    and "\<not> store_is_org (db con) (c_store_id c) (cap_tenant_for rt c p)"
    and "\<not> guard_denies rt (db con) p right (Some c) res"
  shows "fst (fst (evaluate_access rt p right (Some c) res audit con))"
proof -
  have "access_allowed rt (db con) p right (Some c) res"
    using assms(2-5) by (rule default_visibility_allowed)
  then show ?thesis using evaluate_access_allowed(1) [OF assms(1)] by simp
qed

theorem internal_capability_readable_across_tenants_witness:
  "fst (fst (evaluate_access sample_runtime (sample_principal\<lparr>p_tenant_id := ''other''\<rparr>) ''load''
     (Some sample_capability) None True
     (sample_conn (empty_database\<lparr>stores := [sample_store ''store_all'' ''asg'' ''all_users'']\<rparr>))))"
  by (rule internal_capability_readable_across_tenants)
    (simp_all add: sample_conn_def sample_unguarded sample_not_org
      sample_capability_def [THEN arg_cong, of c_visibility])

end
