(* ===== verification/Dependency_Graph.thy ===== *)
theory Dependency_Graph
  imports Access_Control Semver_Policy "HOL-Library.Multiset"
begin

text \<open>
  Dependencies between capabilities (\<^verbatim>\<open>dependency_graph.py\<close>): the table and its upsert, the
  depth-first search for cycles, Kahn's topological sort, and version constraints.

  A query without ORDER BY promises no order of its rows, so the two graph algorithms are
  definitions over a list of edges and their theorems hold for every order. Recursion of the
  search and the loop of the sort carry fuel, the number of nodes; the theorems show that it
  is never exhausted.
\<close>

section \<open>The table\<close>

definition same_dependency :: "string \<Rightarrow> string \<Rightarrow> string \<Rightarrow> dependency_row \<Rightarrow> bool" where
  "same_dependency tenant_id capability_uri depends_on_uri r =
     (dp_tenant r = tenant_id \<and> dp_capability_uri r = capability_uri \<and> dp_depends_on_uri r = depends_on_uri)"

definition add_dependency ::
  "runtime \<Rightarrow> string \<Rightarrow> string \<Rightarrow> string \<Rightarrow> string option \<Rightarrow> string \<Rightarrow> bool \<Rightarrow> conn \<Rightarrow> (conn, json) outcome" where
  "add_dependency rt capability_uri depends_on_uri version_constraint required_type tenant_id do_commit con =
     (if capability_uri = depends_on_uri then
        (Inl (ValueError ''A capability cannot depend on itself''), ensure_table con)
      else
        let (dep_id, con1) = new_id rt ''dep'' (ensure_table con);
            same = same_dependency tenant_id capability_uri depends_on_uri;
            con2 = with_db (\<lambda>d. d\<lparr>capability_dependencies :=
              (if find same (capability_dependencies d) \<noteq> None
               then update_where same (\<lambda>r. r\<lparr>dp_version_constraint := version_constraint,
                      dp_required_type := required_type\<rparr>) (capability_dependencies d)
               else capability_dependencies d @
                 [\<lparr>dp_id = dep_id, dp_tenant = tenant_id, dp_capability_uri = capability_uri,
                   dp_depends_on_uri = depends_on_uri, dp_version_constraint = version_constraint,
                   dp_required_type = required_type\<rparr>])\<rparr>) con1
        in (Inr (JObj [(''capabilityUri'', JStr capability_uri), (''dependsOnUri'', JStr depends_on_uri),
              (''versionConstraint'', JStr version_constraint), (''requiredType'', json_opt required_type)]),
            commit_if do_commit con2))"

definition remove_dependency ::
  "string \<Rightarrow> string \<Rightarrow> string \<Rightarrow> bool \<Rightarrow> conn \<Rightarrow> bool \<times> conn" where
  "remove_dependency capability_uri depends_on_uri tenant_id do_commit con =
     (let same = same_dependency tenant_id capability_uri depends_on_uri in
      (0 < rowcount same (capability_dependencies (db con)),
       commit_if do_commit (with_db (\<lambda>d. d\<lparr>capability_dependencies :=
         delete_where same (capability_dependencies d)\<rparr>) (ensure_table con))))"

record resolved_dependency =
  rd_depends_on_uri :: string
  rd_version_constraint :: string
  rd_required_type :: "string option"
  rd_resolved_name :: "string option"
  rd_resolved_version :: "string option"
  rd_resolved_type :: "string option"
  rd_resolved :: bool

text \<open>\<^verbatim>\<open>str(x) if x else None\<close> on a nullable column.\<close>

definition nonempty :: "string option \<Rightarrow> string option" where
  "nonempty x = (if truthy x then x else None)"

text \<open>LEFT JOIN: a row without a partner is kept with NULLs.\<close>

definition left_join :: "('a \<Rightarrow> 'b \<Rightarrow> bool) \<Rightarrow> 'a list \<Rightarrow> 'b list \<Rightarrow> ('a \<times> 'b option) list" where
  "left_join on xs ys = concat (map (\<lambda>x. let m = filter (on x) ys in
     if m = [] then [(x, None)] else map (\<lambda>y. (x, Some y)) m) xs)"

definition dependency_record :: "dependency_row \<Rightarrow> capability option \<Rightarrow> resolved_dependency" where
  "dependency_record r c = \<lparr>rd_depends_on_uri = dp_depends_on_uri r,
     rd_version_constraint = dp_version_constraint r,
     rd_required_type = nonempty (dp_required_type r),
     rd_resolved_name = nonempty (map_option c_name c),
     rd_resolved_version = nonempty (map_option c_version c),
     rd_resolved_type = nonempty (map_option c_type c),
     rd_resolved = (c \<noteq> None)\<rparr>"

definition list_dependencies :: "conn \<Rightarrow> string \<Rightarrow> string \<Rightarrow> resolved_dependency list" where
  "list_dependencies con capability_uri tenant_id =
     (let d = db con;
          rows = left_join (\<lambda>r c. c_uri c = dp_depends_on_uri r \<and> c_tenant_id c = dp_tenant r)
            (filter (\<lambda>r. dp_capability_uri r = capability_uri \<and> dp_tenant r = tenant_id)
               (capability_dependencies d)) (capabilities d)
      in map (\<lambda>(r, c). dependency_record r c)
           (order_by (\<lambda>(r, c). dp_depends_on_uri r) rows))"

definition list_dependents ::
  "conn \<Rightarrow> string \<Rightarrow> string \<Rightarrow> (string \<times> string \<times> string option \<times> string option) list" where
  "list_dependents con depends_on_uri tenant_id =
     (let d = db con;
          rows = left_join (\<lambda>r c. c_uri c = dp_capability_uri r \<and> c_tenant_id c = dp_tenant r)
            (filter (\<lambda>r. dp_depends_on_uri r = depends_on_uri \<and> dp_tenant r = tenant_id)
               (capability_dependencies d)) (capabilities d)
      in map (\<lambda>(r, c). (dp_capability_uri r, dp_version_constraint r,
             nonempty (map_option c_name c), nonempty (map_option c_version c)))
           (order_by (\<lambda>(r, c). dp_capability_uri r) rows))"

text \<open>The edges \<^verbatim>\<open>(capability_uri, depends_on_uri)\<close> of one tenant.\<close>

definition dependency_edges :: "conn \<Rightarrow> string \<Rightarrow> (string \<times> string) list" where
  "dependency_edges con tenant_id =
     map (\<lambda>r. (dp_capability_uri r, dp_depends_on_uri r))
       (filter (\<lambda>r. dp_tenant r = tenant_id) (capability_dependencies (db con)))"

section \<open>Cycle detection\<close>

text \<open>\<^verbatim>\<open>graph.get(node, [])\<close> of the adjacency dictionary, and its keys in insertion order.\<close>

definition succs :: "(string \<times> string) list \<Rightarrow> string \<Rightarrow> string list" where
  "succs edges n = map snd (filter (\<lambda>e. fst e = n) edges)"

fun first_occurrences :: "string list \<Rightarrow> string list" where
  "first_occurrences [] = []"
| "first_occurrences (x # xs) = x # filter (\<lambda>y. y \<noteq> x) (first_occurrences xs)"

record dfs_state =
  ds_visited :: "string list"
  ds_rec_stack :: "string list"
  ds_path :: "string list"
  ds_cycles :: "string list list"

definition dfs_enter :: "string \<Rightarrow> dfs_state \<Rightarrow> dfs_state" where
  "dfs_enter node st = st\<lparr>ds_visited := node # ds_visited st, ds_rec_stack := node # ds_rec_stack st,
     ds_path := ds_path st @ [node]\<rparr>"

definition dfs_leave :: "string \<Rightarrow> dfs_state \<Rightarrow> dfs_state" where
  "dfs_leave node st = st\<lparr>ds_path := butlast (ds_path st),
     ds_rec_stack := filter (\<lambda>n. n \<noteq> node) (ds_rec_stack st)\<rparr>"

text \<open>\<^verbatim>\<open>path[path.index(neighbor):] + [neighbor]\<close>.\<close>

definition report_cycle :: "string \<Rightarrow> dfs_state \<Rightarrow> dfs_state" where
  "report_cycle neighbor st = st\<lparr>ds_cycles := ds_cycles st @
     [dropWhile (\<lambda>n. n \<noteq> neighbor) (ds_path st) @ [neighbor]]\<rparr>"

primrec dfs :: "nat \<Rightarrow> (string \<times> string) list \<Rightarrow> string \<Rightarrow> dfs_state \<Rightarrow> dfs_state" where
  "dfs 0 edges node st = st"
| "dfs (Suc fuel) edges node st =
     dfs_leave node (foldl (\<lambda>st neighbor.
         if neighbor \<notin> set (ds_visited st) then dfs fuel edges neighbor st
         else if neighbor \<in> set (ds_rec_stack st) then report_cycle neighbor st
         else st) (dfs_enter node st) (succs edges node))"

definition graph_nodes :: "(string \<times> string) list \<Rightarrow> string list" where
  "graph_nodes edges = first_occurrences (concat (map (\<lambda>(a, b). [a, b]) edges))"

definition find_cycles :: "(string \<times> string) list \<Rightarrow> string list list" where
  "find_cycles edges = ds_cycles (foldl (\<lambda>st node.
       if node \<notin> set (ds_visited st) then dfs (length (graph_nodes edges)) edges node st else st)
     \<lparr>ds_visited = [], ds_rec_stack = [], ds_path = [], ds_cycles = []\<rparr>
     (first_occurrences (map fst edges)))"

definition detect_cycles :: "conn \<Rightarrow> string \<Rightarrow> string list list" where
  "detect_cycles con tenant_id = find_cycles (dependency_edges con tenant_id)"

section \<open>Topological sort\<close>

text \<open>\<^verbatim>\<open>in_degree\<close> with the default 0 of the loop over \<^verbatim>\<open>all_nodes\<close>, the inner loop over the
  neighbours, and the queue loop; \<^verbatim>\<open>None\<close> when the fuel ends before the queue.\<close>

definition in_degrees :: "(string \<times> string) list \<Rightarrow> string \<Rightarrow> int" where
  "in_degrees edges n = int (length (filter (\<lambda>e. fst e = n) edges))"

definition dependents_of :: "(string \<times> string) list \<Rightarrow> string \<Rightarrow> string list" where
  "dependents_of edges n = map fst (filter (\<lambda>e. snd e = n) edges)"

fun release_neighbors :: "string list \<Rightarrow> (string \<Rightarrow> int) \<Rightarrow> string list \<Rightarrow> (string \<Rightarrow> int) \<times> string list" where
  "release_neighbors [] deg queue = (deg, queue)"
| "release_neighbors (n # ns) deg queue =
     (let deg' = deg(n := deg n - 1) in
      release_neighbors ns deg' (if deg' n = 0 then queue @ [n] else queue))"

fun kahn :: "nat \<Rightarrow> (string \<times> string) list \<Rightarrow> (string \<Rightarrow> int) \<Rightarrow> string list \<Rightarrow> string list \<Rightarrow> string list option" where
  "kahn fuel edges deg [] result = Some result"
| "kahn 0 edges deg (node # queue) result = None"
| "kahn (Suc fuel) edges deg (node # queue) result =
     (let (deg', queue') = release_neighbors (sort (dependents_of edges node)) deg queue
      in kahn fuel edges deg' queue' (result @ [node]))"

definition topo_sort :: "(string \<times> string) list \<Rightarrow> string list option" where
  "topo_sort edges =
     (let nodes = graph_nodes edges; deg = in_degrees edges
      in kahn (length nodes) edges deg (sort (filter (\<lambda>n. deg n = 0) nodes)) [])"

definition topological_sort :: "conn \<Rightarrow> string \<Rightarrow> string list option" where
  "topological_sort con tenant_id = topo_sort (dependency_edges con tenant_id)"

section \<open>Version constraints\<close>

text \<open>\<^verbatim>\<open>int(p) if p.isdigit() else 0\<close>: \<^verbatim>\<open>isdigit\<close> also accepts superscripts, \<^verbatim>\<open>int\<close> does not.\<close>

definition int_or_zero :: "string \<Rightarrow> py_error + nat" where
  "int_or_zero p =
     (if \<not> py_isdigit p then Inr 0
      else if list_all ascii_digit p then Inr (nat_of_digits p)
      else Inl (ValueError (''invalid literal for int() with base 10: '' @ [CHR 0x27] @ p @ [CHR 0x27])))"

definition satisfies_operator :: "string \<Rightarrow> string \<Rightarrow> bool" where
  "satisfies_operator version constraint =
     (if startswith constraint ''>='' then compare_semver version (py_strip (drop 2 constraint)) \<ge> 0
      else if startswith constraint ''<='' then compare_semver version (py_strip (drop 2 constraint)) \<le> 0
      else if startswith constraint ''=='' then compare_semver version (py_strip (drop 2 constraint)) = 0
      else if startswith constraint ''>'' then compare_semver version (py_strip (drop 1 constraint)) > 0
      else if startswith constraint ''<'' then compare_semver version (py_strip (drop 1 constraint)) < 0
      else compare_semver version constraint = 0)"

definition within :: "string \<Rightarrow> string \<Rightarrow> string \<Rightarrow> bool" where
  "within version low high = (compare_semver version low \<ge> 0 \<and> compare_semver version high < 0)"

definition satisfies_constraint :: "string \<Rightarrow> string \<Rightarrow> py_error + bool" where
  "satisfies_constraint version constraint0 =
     (let constraint = py_strip constraint0 in
      if constraint = ''*'' then Inr True
      else if startswith constraint ''^'' then
        (let base = py_strip (drop 1 constraint); parts = split_on (CHR ''.'') base in
         if 2 \<le> length parts then
           (case int_or_zero (parts ! 0) of Inl e \<Rightarrow> Inl e
            | Inr major \<Rightarrow> Inr (within version (release_text major 0 0) (release_text (major + 1) 0 0)))
         else Inr (compare_semver version base \<ge> 0))
      else if startswith constraint ''~'' then
        (let base = py_strip (drop 1 constraint); parts = split_on (CHR ''.'') base in
         if 3 \<le> length parts then
           (case int_or_zero (parts ! 0) of Inl e \<Rightarrow> Inl e
            | Inr major \<Rightarrow> (case int_or_zero (parts ! 1) of Inl e \<Rightarrow> Inl e
              | Inr minor \<Rightarrow> Inr (within version (release_text major minor 0) (release_text major (minor + 1) 0))))
         else Inr (compare_semver version base \<ge> 0))
      else Inr (satisfies_operator version constraint))"

datatype compat_issue =
    Unresolved string
  | TypeMismatch string string "string option"
  | VersionMismatch string string string

fun dependency_issues :: "resolved_dependency \<Rightarrow> py_error + compat_issue list" where
  "dependency_issues dep =
     (if \<not> rd_resolved dep then Inr [Unresolved (rd_depends_on_uri dep)]
      else
        let types = (case rd_required_type dep of
              None \<Rightarrow> []
            | Some t \<Rightarrow> if t \<noteq> [] \<and> rd_resolved_type dep \<noteq> Some t
                then [TypeMismatch (rd_depends_on_uri dep) t (rd_resolved_type dep)] else []);
            actual = or_else (rd_resolved_version dep) ''0.0.0''
        in if rd_version_constraint dep = ''*'' then Inr types
           else case satisfies_constraint actual (rd_version_constraint dep) of
               Inl e \<Rightarrow> Inl e
             | Inr ok \<Rightarrow> Inr (types @ (if ok then []
                 else [VersionMismatch (rd_depends_on_uri dep) (rd_version_constraint dep) actual])))"

fun collect_issues :: "resolved_dependency list \<Rightarrow> py_error + compat_issue list" where
  "collect_issues [] = Inr []"
| "collect_issues (dep # deps) =
     (case dependency_issues dep of Inl e \<Rightarrow> Inl e
      | Inr is \<Rightarrow> (case collect_issues deps of Inl e \<Rightarrow> Inl e | Inr js \<Rightarrow> Inr (is @ js)))"

record compatibility =
  co_capability_uri :: string
  co_dependencies :: nat
  co_issues :: "compat_issue list"
  co_compatible :: bool

definition check_compatibility :: "conn \<Rightarrow> string \<Rightarrow> string \<Rightarrow> py_error + compatibility" where
  "check_compatibility con capability_uri tenant_id =
     (let deps = list_dependencies con capability_uri tenant_id in
      case collect_issues deps of Inl e \<Rightarrow> Inl e
      | Inr issues \<Rightarrow> Inr \<lparr>co_capability_uri = capability_uri, co_dependencies = length deps,
          co_issues = issues, co_compatible = (length issues = 0)\<rparr>)"

section \<open>Correctness of the cycle search\<close>

abbreviation linked :: "(string \<times> string) list \<Rightarrow> string list \<Rightarrow> bool" where
  "linked edges \<equiv> successively (\<lambda>a b. (a, b) \<in> set edges)"

text \<open>A reported cycle: a closed walk along dependencies.\<close>

definition is_cycle :: "(string \<times> string) list \<Rightarrow> string list \<Rightarrow> bool" where
  "is_cycle edges c = (linked edges c \<and> 2 \<le> length c \<and> hd c = last c)"

definition finished :: "dfs_state \<Rightarrow> string set" where
  "finished st = set (ds_visited st) - set (ds_rec_stack st)"

text \<open>The invariant of the search: the path is a walk made of the nodes on the stack, what was
  reported are cycles, and as long as nothing was reported the finished nodes are closed
  under dependencies and lie on no cycle.\<close>

definition dfs_inv :: "(string \<times> string) list \<Rightarrow> dfs_state \<Rightarrow> bool" where
  "dfs_inv edges st =
     (set (ds_path st) = set (ds_rec_stack st) \<and> distinct (ds_path st) \<and> linked edges (ds_path st)
      \<and> set (ds_rec_stack st) \<subseteq> set (ds_visited st) \<and> set (ds_visited st) \<subseteq> set (graph_nodes edges)
      \<and> (\<forall>c \<in> set (ds_cycles st). is_cycle edges c)
      \<and> (ds_cycles st = [] \<longrightarrow> (\<forall>n \<in> finished st. set (succs edges n) \<subseteq> finished st
           \<and> (n, n) \<notin> (set edges)\<^sup>+)))"

definition dfs_ext :: "dfs_state \<Rightarrow> dfs_state \<Rightarrow> bool" where
  "dfs_ext st st' =
     (ds_path st' = ds_path st \<and> set (ds_rec_stack st') = set (ds_rec_stack st)
      \<and> set (ds_visited st) \<subseteq> set (ds_visited st') \<and> (ds_cycles st' = [] \<longrightarrow> ds_cycles st = []))"

lemma dfs_ext_refl [simp]: "dfs_ext st st"
  by (simp add: dfs_ext_def)

lemma dfs_ext_trans: "dfs_ext a b \<Longrightarrow> dfs_ext b c \<Longrightarrow> dfs_ext a c"
  by (auto simp: dfs_ext_def)

lemma dfs_ext_finished: "dfs_ext a b \<Longrightarrow> finished a \<subseteq> finished b"
  by (auto simp: dfs_ext_def finished_def)

lemma set_succs [simp]: "m \<in> set (succs edges n) \<longleftrightarrow> (n, m) \<in> set edges"
  by (force simp: succs_def)

lemma set_first_occurrences [simp]: "set (first_occurrences xs) = set xs"
  by (induction xs) auto

lemma distinct_first_occurrences [simp]: "distinct (first_occurrences xs)"
  by (induction xs) auto

lemma set_graph_nodes: "set (graph_nodes edges) = Field (set edges)"
  by (force simp: graph_nodes_def Field_def)

lemma distinct_graph_nodes [simp]: "distinct (graph_nodes edges)"
  by (simp add: graph_nodes_def)

lemma edge_nodes: "(a, b) \<in> set edges \<Longrightarrow> a \<in> set (graph_nodes edges) \<and> b \<in> set (graph_nodes edges)"
  by (simp add: set_graph_nodes FieldI1 FieldI2)

lemma closed_trancl:
  assumes "(a, b) \<in> r\<^sup>+" "\<And>x y. x \<in> S \<Longrightarrow> (x, y) \<in> r \<Longrightarrow> y \<in> S" "a \<in> S"
  shows "b \<in> S"
  using assms(1) by (induction rule: trancl_induct) (use assms(2,3) in blast)+

lemma dfs_enter_inv:
  assumes "dfs_inv edges st" "n \<notin> set (ds_visited st)" "n \<in> set (graph_nodes edges)"
    and "ds_path st = [] \<or> (last (ds_path st), n) \<in> set edges"
  shows "dfs_inv edges (dfs_enter n st)"
proof -
  have "finished (dfs_enter n st) = finished st"
    using assms(1,2) by (auto simp: finished_def dfs_enter_def dfs_inv_def)
  with assms show ?thesis
    by (auto simp: dfs_inv_def dfs_enter_def successively_append_iff)
qed

lemma report_cycle_inv:
  assumes "dfs_inv edges st" "m \<in> set (ds_rec_stack st)" "(last (ds_path st), m) \<in> set edges"
  shows "dfs_inv edges (report_cycle m st)"
proof -
  from assms have "m \<in> set (ds_path st)" by (auto simp: dfs_inv_def)
  then obtain p q where p: "ds_path st = p @ m # q" "m \<notin> set p" by (meson split_list_first)
  then have drop: "dropWhile (\<lambda>n. n \<noteq> m) (ds_path st) = m # q"
    by (simp add: dropWhile_append) 
  have "linked edges (m # q)" using assms(1) p by (auto simp: dfs_inv_def successively_append_iff)
  moreover have "(last (m # q), m) \<in> set edges" using assms(3) p by simp
  ultimately have "linked edges ((m # q) @ [m])" by (simp only: successively_append_iff) simp
  then have "is_cycle edges (m # q @ [m])" by (simp add: is_cycle_def)
  with assms(1) show ?thesis
    by (simp add: dfs_inv_def report_cycle_def drop finished_def)
qed

lemma dfs_leave_inv:
  assumes inv: "dfs_inv edges st" and p: "ds_path st = p @ [n]"
    and fin_succs: "ds_cycles st = [] \<Longrightarrow> set (succs edges n) \<subseteq> finished st"
  shows "dfs_inv edges (dfs_leave n st)"
proof -
  let ?st = "dfs_leave n st"
  have n: "n \<in> set (ds_visited st)" "n \<notin> finished st" "n \<notin> set p"
    using inv p by (auto simp: dfs_inv_def finished_def)
  have fin: "finished ?st = insert n (finished st)"
    using n by (auto simp: finished_def dfs_leave_def)
  have basic: "set (ds_path ?st) = set (ds_rec_stack ?st)" "distinct (ds_path ?st)"
      "linked edges (ds_path ?st)" "set (ds_rec_stack ?st) \<subseteq> set (ds_visited ?st)"
      "set (ds_visited ?st) \<subseteq> set (graph_nodes edges)" "\<forall>c \<in> set (ds_cycles ?st). is_cycle edges c"
    using inv p n(3) by (auto simp: dfs_inv_def dfs_leave_def successively_append_iff)
  have "\<forall>k \<in> finished ?st. set (succs edges k) \<subseteq> finished ?st \<and> (k, k) \<notin> (set edges)\<^sup>+"
    if c: "ds_cycles ?st = []"
  proof -
    from c have c': "ds_cycles st = []" by (simp add: dfs_leave_def)
    have old: "\<forall>k \<in> finished st. set (succs edges k) \<subseteq> finished st \<and> (k, k) \<notin> (set edges)\<^sup>+"
      using inv c' by (simp add: dfs_inv_def)
    have "(n, n) \<notin> (set edges)\<^sup>+"
    proof
      assume "(n, n) \<in> (set edges)\<^sup>+"
      then obtain m where m: "(n, m) \<in> set edges" "(m, n) \<in> (set edges)\<^sup>*"
        by (meson tranclD)
      then have "m \<in> finished st" using fin_succs [OF c'] by auto
      with m(2) have "n \<in> finished st"
      proof (induction rule: rtrancl_induct)
        case (step y z)
        then show ?case using old set_succs by blast
      qed
      with n show False by simp
    qed
    then show ?thesis using old fin_succs [OF c'] fin by auto
  qed
  with basic show ?thesis by (simp add: dfs_inv_def)
qed

definition dfs_budget :: "(string \<times> string) list \<Rightarrow> dfs_state \<Rightarrow> nat" where
  "dfs_budget edges st = card (set (graph_nodes edges) - set (ds_visited st))"

lemma dfs_budget_mono: "dfs_ext a b \<Longrightarrow> dfs_budget edges b \<le> dfs_budget edges a"
  by (auto simp: dfs_budget_def dfs_ext_def intro!: card_mono)

lemma dfs_budget_enter:
  assumes "n \<notin> set (ds_visited st)" "n \<in> set (graph_nodes edges)"
  shows "dfs_budget edges (dfs_enter n st) < dfs_budget edges st"
proof -
  have "set (graph_nodes edges) - set (ds_visited (dfs_enter n st))
      \<subset> set (graph_nodes edges) - set (ds_visited st)"
    using assms by (auto simp: dfs_enter_def)
  then show ?thesis unfolding dfs_budget_def by (intro psubset_card_mono) auto
qed

definition dfs_pre :: "(string \<times> string) list \<Rightarrow> string \<Rightarrow> dfs_state \<Rightarrow> bool" where
  "dfs_pre edges n st = (dfs_inv edges st \<and> n \<notin> set (ds_visited st) \<and> n \<in> set (graph_nodes edges)
     \<and> (ds_path st = [] \<or> (last (ds_path st), n) \<in> set edges))"

definition dfs_post :: "(string \<times> string) list \<Rightarrow> string \<Rightarrow> dfs_state \<Rightarrow> dfs_state \<Rightarrow> bool" where
  "dfs_post edges n st st' = (dfs_inv edges st' \<and> dfs_ext st st' \<and> n \<in> finished st')"

definition dfs_visit :: "(string \<Rightarrow> dfs_state \<Rightarrow> dfs_state) \<Rightarrow> dfs_state \<Rightarrow> string \<Rightarrow> dfs_state" where
  "dfs_visit f st m = (if m \<notin> set (ds_visited st) then f m st
     else if m \<in> set (ds_rec_stack st) then report_cycle m st else st)"

lemma dfs_Suc: "dfs (Suc k) edges n st =
    dfs_leave n (foldl (dfs_visit (dfs k edges)) (dfs_enter n st) (succs edges n))"
  by (simp add: dfs_visit_def [abs_def])

lemma dfs_visit_post:
  assumes f: "\<And>m s. dfs_pre edges m s \<Longrightarrow> dfs_budget edges s \<le> k \<Longrightarrow> dfs_post edges m s (f m s)"
    and inv: "dfs_inv edges st" and path: "ds_path st \<noteq> []" and edge: "(last (ds_path st), m) \<in> set edges"
    and k: "dfs_budget edges st \<le> k"
  shows "dfs_inv edges (dfs_visit f st m) \<and> dfs_ext st (dfs_visit f st m)
    \<and> (ds_cycles (dfs_visit f st m) = [] \<longrightarrow> m \<in> finished (dfs_visit f st m))"
proof -
  show ?thesis
  proof (cases "m \<in> set (ds_visited st)")
    case False
    then have "dfs_pre edges m st" using inv edge edge_nodes by (simp add: dfs_pre_def)
    from f [OF this k] False show ?thesis by (simp add: dfs_post_def dfs_visit_def)
  next
    case True
    then show ?thesis
      using report_cycle_inv [OF inv _ edge] inv
      by (simp add: dfs_visit_def dfs_ext_def report_cycle_def finished_def)
  qed
qed

lemma dfs_loop_post:
  assumes f: "\<And>m s. dfs_pre edges m s \<Longrightarrow> dfs_budget edges s \<le> k \<Longrightarrow> dfs_post edges m s (f m s)"
    and inv: "dfs_inv edges st" and path: "ds_path st \<noteq> []"
    and edge: "\<forall>m \<in> set ns. (last (ds_path st), m) \<in> set edges" and k: "dfs_budget edges st \<le> k"
  shows "dfs_inv edges (foldl (dfs_visit f) st ns) \<and> dfs_ext st (foldl (dfs_visit f) st ns)
    \<and> (ds_cycles (foldl (dfs_visit f) st ns) = [] \<longrightarrow> set ns \<subseteq> finished (foldl (dfs_visit f) st ns))"
  using inv path edge k
proof (induction ns arbitrary: st)
  case Nil
  then show ?case by simp
next
  case (Cons m ns)
  let ?st = "dfs_visit f st m" and ?fin = "foldl (dfs_visit f) (dfs_visit f st m) ns"
  have v: "dfs_inv edges ?st" "dfs_ext st ?st" "ds_cycles ?st = [] \<longrightarrow> m \<in> finished ?st"
    using dfs_visit_post [OF f Cons.prems(1,2) _ Cons.prems(4), of m] Cons.prems(3) by auto
  then have "ds_path ?st = ds_path st" by (simp add: dfs_ext_def)
  moreover have "dfs_budget edges ?st \<le> k" using dfs_budget_mono [OF v(2)] Cons.prems(4) by (rule order_trans)
  ultimately have e: "dfs_inv edges ?fin \<and> dfs_ext ?st ?fin \<and> (ds_cycles ?fin = [] \<longrightarrow> set ns \<subseteq> finished ?fin)"
    using Cons.IH [of ?st] v(1) Cons.prems(2,3) by simp
  then have "m \<in> finished ?fin" if "ds_cycles ?fin = []"
    using that v(3) dfs_ext_finished [of ?st ?fin] by (auto simp: dfs_ext_def)
  with e v(2) show ?case using dfs_ext_trans by auto
qed

lemma dfs_correct:
  "dfs_pre edges n st \<Longrightarrow> dfs_budget edges st \<le> k \<Longrightarrow> dfs_post edges n st (dfs k edges n st)"
proof (induction k arbitrary: n st)
  case 0
  then have "set (graph_nodes edges) - set (ds_visited st) = {}" by (simp add: dfs_budget_def)
  with 0 show ?case by (auto simp: dfs_pre_def)
next
  case (Suc k)
  let ?in = "dfs_enter n st"
  let ?out = "foldl (dfs_visit (dfs k edges)) ?in (succs edges n)"
  from Suc.prems have pre: "dfs_inv edges st" "n \<notin> set (ds_visited st)" "n \<in> set (graph_nodes edges)"
      "ds_path st = [] \<or> (last (ds_path st), n) \<in> set edges" by (simp_all add: dfs_pre_def)
  have i: "dfs_inv edges ?in" using pre by (rule dfs_enter_inv)
  have path: "ds_path ?in = ds_path st @ [n]" by (simp add: dfs_enter_def)
  have "dfs_budget edges ?in \<le> k" using dfs_budget_enter [OF pre(2,3)] Suc.prems(2) by simp
  then have out: "dfs_inv edges ?out \<and> dfs_ext ?in ?out
      \<and> (ds_cycles ?out = [] \<longrightarrow> set (succs edges n) \<subseteq> finished ?out)"
    using i path by (intro dfs_loop_post [OF Suc.IH]) auto
  have p: "ds_path ?out = ds_path st @ [n]" using out path by (simp add: dfs_ext_def)
  have "dfs_inv edges (dfs_leave n ?out)" using out p by (intro dfs_leave_inv) auto
  moreover have "dfs_ext st (dfs_leave n ?out)"
    using out p pre(1,2) by (auto simp: dfs_ext_def dfs_leave_def dfs_enter_def dfs_inv_def)
  moreover have "n \<in> finished (dfs_leave n ?out)"
    using out by (auto simp: finished_def dfs_leave_def dfs_ext_def dfs_enter_def)
  ultimately show ?case unfolding dfs_post_def dfs_Suc by blast
qed

text \<open>Enough fuel is enough: more of it changes nothing.\<close>

lemma dfs_loop_cong:
  assumes f: "\<And>m s. dfs_pre edges m s \<Longrightarrow> dfs_budget edges s \<le> k \<Longrightarrow> dfs_post edges m s (f m s)"
    and g: "\<And>m s. dfs_pre edges m s \<Longrightarrow> dfs_budget edges s \<le> k \<Longrightarrow> f m s = g m s"
    and "dfs_inv edges st" "ds_path st \<noteq> []"
    and "\<forall>m \<in> set ns. (last (ds_path st), m) \<in> set edges" "dfs_budget edges st \<le> k"
  shows "foldl (dfs_visit f) st ns = foldl (dfs_visit g) st ns"
  using assms(3-6)
proof (induction ns arbitrary: st)
  case Nil
  then show ?case by simp
next
  case (Cons m ns)
  have v: "dfs_inv edges (dfs_visit f st m)" "dfs_ext st (dfs_visit f st m)"
    using dfs_visit_post [OF f Cons.prems(1,2) _ Cons.prems(4), of m] Cons.prems(3) by auto
  have "dfs_pre edges m st" if "m \<notin> set (ds_visited st)"
    using that Cons.prems edge_nodes [of "last (ds_path st)" m edges] by (simp add: dfs_pre_def)
  then have "dfs_visit f st m = dfs_visit g st m"
    using g [of m st] Cons.prems(4) by (simp add: dfs_visit_def)
  moreover have "dfs_budget edges (dfs_visit f st m) \<le> k"
    using dfs_budget_mono [OF v(2)] Cons.prems(4) by (rule order_trans)
  ultimately show ?case
    using Cons.IH [of "dfs_visit f st m"] v Cons.prems by (simp add: dfs_ext_def)
qed

lemma dfs_fuel:
  "dfs_pre edges n st \<Longrightarrow> dfs_budget edges st \<le> k \<Longrightarrow> dfs_budget edges st \<le> k' \<Longrightarrow>
     dfs k edges n st = dfs k' edges n st"
proof (induction k arbitrary: k' n st)
  case 0
  then have "set (graph_nodes edges) - set (ds_visited st) = {}" by (simp add: dfs_budget_def)
  with 0 show ?case by (auto simp: dfs_pre_def)
next
  case (Suc k)
  from Suc.prems have pre: "dfs_inv edges st" "n \<notin> set (ds_visited st)" "n \<in> set (graph_nodes edges)"
      "ds_path st = [] \<or> (last (ds_path st), n) \<in> set edges" by (simp_all add: dfs_pre_def)
  have b: "dfs_budget edges (dfs_enter n st) < dfs_budget edges st" using pre(2,3) by (rule dfs_budget_enter)
  with Suc.prems obtain j where j: "k' = Suc j" by (cases k') auto
  have "foldl (dfs_visit (dfs k edges)) (dfs_enter n st) (succs edges n)
      = foldl (dfs_visit (dfs j edges)) (dfs_enter n st) (succs edges n)"
    using b Suc.prems j dfs_enter_inv [OF pre]
    by (intro dfs_loop_cong [where edges = edges and k = "min k j"] dfs_correct Suc.IH)
      (auto simp: dfs_enter_def)
  then show ?case unfolding j dfs_Suc by simp
qed

lemma dfs_budget_le: "dfs_budget edges st \<le> length (graph_nodes edges)"
  unfolding dfs_budget_def
  by (metis card_mono Diff_subset List.finite_set distinct_card distinct_graph_nodes)

abbreviation dfs_start :: dfs_state where
  "dfs_start \<equiv> \<lparr>ds_visited = [], ds_rec_stack = [], ds_path = [], ds_cycles = []\<rparr>"

definition dfs_root :: "(string \<times> string) list \<Rightarrow> dfs_state \<Rightarrow> string \<Rightarrow> dfs_state" where
  "dfs_root edges st node = (if node \<notin> set (ds_visited st)
     then dfs (length (graph_nodes edges)) edges node st else st)"

lemma find_cycles_eq: "find_cycles edges =
    ds_cycles (foldl (dfs_root edges) dfs_start (first_occurrences (map fst edges)))"
  by (simp add: find_cycles_def dfs_root_def [abs_def])

lemma dfs_roots:
  assumes "dfs_inv edges st" "ds_path st = []" "set ns \<subseteq> set (graph_nodes edges)"
  shows "dfs_inv edges (foldl (dfs_root edges) st ns)
    \<and> dfs_ext st (foldl (dfs_root edges) st ns) \<and> set ns \<subseteq> finished (foldl (dfs_root edges) st ns)"
  using assms
proof (induction ns arbitrary: st)
  case Nil
  then show ?case by simp
next
  case (Cons n ns)
  let ?st = "dfs_root edges st n" and ?fin = "foldl (dfs_root edges) (dfs_root edges st n) ns"
  have one: "dfs_inv edges ?st \<and> dfs_ext st ?st \<and> n \<in> finished ?st"
  proof (cases "n \<in> set (ds_visited st)")
    case True
    with Cons.prems show ?thesis by (auto simp: dfs_root_def finished_def dfs_inv_def)
  next
    case False
    with Cons.prems have "dfs_pre edges n st" by (simp add: dfs_pre_def)
    from dfs_correct [OF this dfs_budget_le] False show ?thesis by (simp add: dfs_root_def dfs_post_def)
  qed
  then have "ds_path ?st = []" using Cons.prems(2) by (simp add: dfs_ext_def)
  then have e: "dfs_inv edges ?fin \<and> dfs_ext ?st ?fin \<and> set ns \<subseteq> finished ?fin"
    using Cons.IH [of ?st] one Cons.prems(3) by simp
  with one show ?case using dfs_ext_trans dfs_ext_finished by fastforce
qed

lemma find_cycles_sound: "\<forall>c \<in> set (find_cycles edges). is_cycle edges c"
  and find_cycles_complete: "find_cycles edges = [] \<Longrightarrow> acyclic (set edges)"
proof -
  let ?keys = "first_occurrences (map fst edges)"
  let ?fin = "foldl (dfs_root edges) dfs_start ?keys"
  have "dfs_inv edges dfs_start" by (simp add: dfs_inv_def finished_def)
  moreover have "set ?keys \<subseteq> set (graph_nodes edges)" using edge_nodes by fastforce
  ultimately have e: "dfs_inv edges ?fin" "dfs_ext dfs_start ?fin" "set ?keys \<subseteq> finished ?fin"
    using dfs_roots [of edges dfs_start ?keys] by auto
  then show "\<forall>c \<in> set (find_cycles edges). is_cycle edges c"
    by (simp add: dfs_inv_def find_cycles_eq)
  assume "find_cycles edges = []"
  with e(1) have "\<forall>n \<in> finished ?fin. (n, n) \<notin> (set edges)\<^sup>+"
    by (simp add: dfs_inv_def find_cycles_eq)
  moreover have "n \<in> finished ?fin" if "(n, n) \<in> (set edges)\<^sup>+" for n
    using that e(3) tranclD by fastforce
  ultimately show "acyclic (set edges)" by (auto simp: acyclic_def)
qed

lemma linked_trancl: "linked edges (x # xs) \<Longrightarrow> xs \<noteq> [] \<Longrightarrow> (x, last xs) \<in> (set edges)\<^sup>+"
proof (induction xs arbitrary: x)
  case (Cons y ys)
  then show ?case by (cases ys) (auto intro: trancl_into_trancl2)
qed simp

lemma cycle_not_acyclic:
  assumes "is_cycle edges c"
  shows "\<not> acyclic (set edges)"
proof -
  from assms obtain x xs where "c = x # xs" "xs \<noteq> []" "last xs = x" "linked edges (x # xs)"
    by (cases c) (auto simp: is_cycle_def split: if_splits)
  with linked_trancl [of edges x xs] show ?thesis by (auto simp: acyclic_def)
qed

lemma find_cycles_Nil_iff: "find_cycles edges = [] \<longleftrightarrow> acyclic (set edges)"
  using find_cycles_sound find_cycles_complete cycle_not_acyclic
  by (metis list.set_intros(1) neq_Nil_conv)
section \<open>Correctness of the topological sort\<close>

lemma release_neighbors_spec:
  assumes "\<forall>n. int (count_list ns n) \<le> deg n"
  shows "\<exists>new. release_neighbors ns deg queue = (\<lambda>n. deg n - int (count_list ns n), queue @ new)
    \<and> distinct new \<and> set new = {n. 0 < count_list ns n \<and> deg n = int (count_list ns n)}"
  using assms
proof (induction ns arbitrary: deg queue)
  case Nil
  then show ?case by simp
next
  case (Cons m ns)
  let ?deg = "deg(m := deg m - 1)"
  have pre: "\<forall>n. int (count_list ns n) \<le> ?deg n"
    using Cons.prems by (auto split: if_splits)
  obtain new where new: "release_neighbors ns ?deg (if ?deg m = 0 then queue @ [m] else queue)
      = (\<lambda>n. ?deg n - int (count_list ns n), (if ?deg m = 0 then queue @ [m] else queue) @ new)"
      "distinct new" "set new = {n. 0 < count_list ns n \<and> ?deg n = int (count_list ns n)}"
    using Cons.IH [OF pre] by blast
  have deg: "(\<lambda>n. ?deg n - int (count_list ns n)) = (\<lambda>n. deg n - int (count_list (m # ns) n))"
    by auto
  show ?case
  proof (cases "deg m = 1")
    case True
    then have m: "count_list ns m = 0" using pre [rule_format, of m] by simp
    then have "m \<notin> set new" using new(3) by simp
    then have "distinct (m # new)" using new(2) by simp
    moreover have "n \<in> set (m # new) \<longleftrightarrow>
        n \<in> {n. 0 < count_list (m # ns) n \<and> deg n = int (count_list (m # ns) n)}" for n
      using new(3) True m by (cases "n = m") simp_all
    then have "set (m # new) = {n. 0 < count_list (m # ns) n \<and> deg n = int (count_list (m # ns) n)}"
      by (intro set_eqI)
    ultimately show ?thesis using new(1) True deg by (intro exI [of _ "m # new"]) simp
  next
    case False
    have "n \<in> set new \<longleftrightarrow>
        n \<in> {n. 0 < count_list (m # ns) n \<and> deg n = int (count_list (m # ns) n)}" for n
      using new(3) False by (cases "n = m") auto
    then have "set new = {n. 0 < count_list (m # ns) n \<and> deg n = int (count_list (m # ns) n)}"
      by (intro set_eqI)
    with new(1,2) False deg show ?thesis by (intro exI [of _ new]) simp
  qed
qed

text \<open>Unplaced dependencies of a node, which the in-degree counts.\<close>

definition open_deps :: "(string \<times> string) list \<Rightarrow> string list \<Rightarrow> string \<Rightarrow> nat" where
  "open_deps edges placed n = length (filter (\<lambda>e. fst e = n \<and> snd e \<notin> set placed) edges)"

definition kahn_inv ::
  "(string \<times> string) list \<Rightarrow> (string \<Rightarrow> int) \<Rightarrow> string list \<Rightarrow> string list \<Rightarrow> bool" where
  "kahn_inv edges deg queue result =
     (distinct (result @ queue)
      \<and> (\<forall>n. deg n = int (open_deps edges result n))
      \<and> set (result @ queue) = {n \<in> set (graph_nodes edges). open_deps edges result n = 0}
      \<and> (\<forall>i < length result. \<forall>m. (result ! i, m) \<in> set edges \<longrightarrow> m \<in> set (take i result)))"

lemma open_deps_0: "open_deps edges placed n = 0 \<longleftrightarrow> (\<forall>m. (n, m) \<in> set edges \<longrightarrow> m \<in> set placed)"
  by (auto simp: open_deps_def filter_empty_conv)

lemma open_deps_place:
  assumes "node \<notin> set placed"
  shows "open_deps edges placed n = open_deps edges (placed @ [node]) n + count_list (dependents_of edges node) n"
  using assms by (induction edges) (auto simp: open_deps_def dependents_of_def)

lemma count_list_sort [simp]: "count_list (sort xs) n = count_list xs n"
  by (metis count_mset mset_sort)

lemma kahn_step:
  assumes inv: "kahn_inv edges deg (node # queue) result"
    and r: "release_neighbors (sort (dependents_of edges node)) deg queue = (deg', queue')"
  shows "kahn_inv edges deg' queue' (result @ [node])"
proof -
  let ?ns = "sort (dependents_of edges node)" and ?res = "result @ [node]"
  from inv have node: "node \<notin> set result" "open_deps edges result node = 0"
      and dist: "distinct (result @ node # queue)"
      and deg: "deg n = int (open_deps edges result n)"
      and front: "set (result @ node # queue) = {n \<in> set (graph_nodes edges). open_deps edges result n = 0}"
    for n by (auto simp: kahn_inv_def)
  note place = open_deps_place [OF node(1), of edges]
  have le: "\<forall>n. int (count_list ?ns n) \<le> deg n" by (simp add: deg place)
  from release_neighbors_spec [OF le, of queue] r obtain new where new:
      "queue' = queue @ new" "deg' = (\<lambda>n. deg n - int (count_list ?ns n))" "distinct new"
      "set new = {n. 0 < count_list ?ns n \<and> deg n = int (count_list ?ns n)}" by auto
  have new': "set new = {n. 0 < count_list (dependents_of edges node) n \<and> open_deps edges ?res n = 0}"
    using new(4) by (auto simp: deg place)
  have nodes: "set new \<subseteq> set (graph_nodes edges)"
  proof
    fix n assume "n \<in> set new"
    then have "n \<in> set (dependents_of edges node)" using new' count_list_0_iff [of "dependents_of edges node" n] by auto
    then have "(n, node) \<in> set edges" by (auto simp: dependents_of_def)
    then show "n \<in> set (graph_nodes edges)" using edge_nodes by blast
  qed
  have apart: "set new \<inter> set (result @ node # queue) = {}"
    using front new' place by auto
  have order: "\<forall>i < length ?res. \<forall>m. (?res ! i, m) \<in> set edges \<longrightarrow> m \<in> set (take i ?res)"
    using inv node(2) by (auto simp: kahn_inv_def nth_append open_deps_0 less_Suc_eq)
  have "set (?res @ queue') = {n \<in> set (graph_nodes edges). open_deps edges ?res n = 0}"
    (is "?L = ?R")
  proof
    show "?L \<subseteq> ?R" using front new' nodes place by (auto simp: new(1))
    show "?R \<subseteq> ?L"
    proof
      fix n assume n: "n \<in> ?R"
      show "n \<in> ?L"
      proof (cases "count_list (dependents_of edges node) n = 0")
        case True
        with n have "n \<in> set (result @ node # queue)" unfolding front by (simp add: place)
        then show ?thesis by (auto simp: new(1))
      next
        case False
        with n have "n \<in> set new" by (simp add: new')
        then show ?thesis by (simp add: new(1))
      qed
    qed
  qed
  moreover have "distinct (?res @ queue')" using dist new(1,3) apart by auto
  moreover have "\<forall>n. deg' n = int (open_deps edges ?res n)" by (simp add: new(2) deg place)
  ultimately show ?thesis using order by (simp add: kahn_inv_def)
qed

lemma kahn_inv_length:
  assumes "kahn_inv edges deg queue result"
  shows "length result + length queue \<le> length (graph_nodes edges)"
proof -
  have "distinct (result @ queue)" "set (result @ queue) \<subseteq> set (graph_nodes edges)"
    using assms by (auto simp: kahn_inv_def)
  then have "length (result @ queue) \<le> length (graph_nodes edges)"
    by (metis List.finite_set card_mono distinct_card distinct_graph_nodes)
  then show ?thesis by simp
qed

lemma kahn_total:
  assumes "kahn_inv edges deg queue result" "length (graph_nodes edges) - length result \<le> fuel"
  shows "\<exists>order deg'. kahn fuel edges deg queue result = Some order \<and> kahn_inv edges deg' [] order"
  using assms
proof (induction fuel edges deg queue result rule: kahn.induct)
  case (1 fuel edges deg result)
  then show ?case by auto
next
  case (2 edges deg node queue result)
  then show ?case using kahn_inv_length [OF 2(1)] by simp
next
  case (3 fuel edges deg node queue result)
  obtain deg' queue' where r: "release_neighbors (sort (dependents_of edges node)) deg queue = (deg', queue')"
    by fastforce
  have "kahn_inv edges deg' queue' (result @ [node])" using 3(2) r by (rule kahn_step)
  with 3(1) [OF r [symmetric] refl] 3(3) show ?case by (simp add: r)
qed

lemma topo_sort_total: "\<exists>order deg. topo_sort edges = Some order \<and> kahn_inv edges deg [] order"
proof -
  let ?q = "sort (filter (\<lambda>n. in_degrees edges n = 0) (graph_nodes edges))"
  have "kahn_inv edges (in_degrees edges) ?q []"
    by (auto simp: kahn_inv_def in_degrees_def open_deps_def)
  then show ?thesis unfolding topo_sort_def Let_def by (rule kahn_total) simp
qed

text \<open>A dependency chain inside a finite set of nodes that never leaves it closes.\<close>

lemma stuck_set_cyclic:
  assumes "finite S" "S \<noteq> {}" "\<forall>n \<in> S. \<exists>m \<in> S. (n, m) \<in> r"
  shows "\<not> acyclic r"
proof
  assume a: "acyclic r"
  let ?r = "r \<inter> S \<times> S"
  have "finite ?r" using assms(1) by simp
  moreover have "acyclic ?r" using a by (rule acyclic_subset) simp
  ultimately have w: "wf (?r\<inverse>)" by (rule finite_acyclic_wf_converse)
  obtain s where "s \<in> S" using assms(2) by blast
  then obtain z where z: "z \<in> S" "\<And>y. (y, z) \<in> ?r\<inverse> \<Longrightarrow> y \<notin> S"
    using wfE_min [OF w, of s S] by blast
  from assms(3) z(1) obtain m where m: "m \<in> S" "(z, m) \<in> r" by blast
  then have "(m, z) \<in> ?r\<inverse>" using z(1) by simp
  from z(2) [OF this] m(1) show False by contradiction
qed

lemma kahn_order:
  assumes "kahn_inv edges deg [] order"
  shows "distinct order" "set order \<subseteq> set (graph_nodes edges)"
    "\<forall>i < length order. \<forall>m. (order ! i, m) \<in> set edges \<longrightarrow> m \<in> set (take i order)"
  using assms by (auto simp: kahn_inv_def)

lemma kahn_complete_iff:
  assumes inv: "kahn_inv edges deg [] order"
  shows "set order = set (graph_nodes edges) \<longleftrightarrow> acyclic (set edges)"
proof
  assume all: "set order = set (graph_nodes edges)"
  define pos where "pos n = (LEAST i. i < length order \<and> order ! i = n)" for n
  have pos: "pos n < length order \<and> order ! pos n = n" if "n \<in> set order" for n
    using that unfolding pos_def by (metis (mono_tags, lifting) LeastI in_set_conv_nth)
  have "(m, n) \<in> measure pos" if e: "(n, m) \<in> set edges" for n m
  proof -
    have n: "n \<in> set order" using e all edge_nodes by blast
    then have "m \<in> set (take (pos n) order)" using pos kahn_order(3) [OF inv] e by metis
    then obtain i where "i < pos n" "i < length order" "order ! i = m" by (auto simp: in_set_conv_nth)
    then have "pos m < pos n" unfolding pos_def [of m] by (metis (mono_tags, lifting) Least_le le_less_trans)
    then show ?thesis by simp
  qed
  then have "(set edges)\<inverse> \<subseteq> measure pos" by auto
  then have "wf ((set edges)\<inverse>)" by (meson wf_measure wf_subset)
  then show "acyclic (set edges)" by (metis acyclic_converse wf_acyclic)
next
  assume ac: "acyclic (set edges)"
  let ?S = "set (graph_nodes edges) - set order"
  have "\<exists>m \<in> ?S. (n, m) \<in> set edges" if "n \<in> ?S" for n
  proof -
    from that inv have "open_deps edges order n \<noteq> 0" by (auto simp: kahn_inv_def)
    then obtain m where "(n, m) \<in> set edges" "m \<notin> set order" by (auto simp: open_deps_0)
    then show ?thesis using edge_nodes by blast
  qed
  then have "?S = {}" using ac stuck_set_cyclic [of ?S "set edges"] by blast
  with kahn_order(2) [OF inv] show "set order = set (graph_nodes edges)" by blast
qed
section \<open>Constraints and compatibility\<close>

lemma release_text_no_space: "list_all (\<lambda>c. \<not> py_isspace c) (release_text a b c)"
proof -
  let ?p = "\<lparr>sv_major = a, sv_minor = b, sv_patch = c, sv_pre = None, sv_build = None\<rparr>"
  have "release_text a b c = print_semver ?p" by (simp add: release_text_def print_semver_def)
  then show ?thesis using print_semver_not_space [of ?p] by (simp add: wf_semver_def wf_group_def)
qed

lemma strip_release [simp]:
  "py_strip (release_text a b c) = release_text a b c"
  "\<not> py_isspace ch \<Longrightarrow> py_strip (ch # release_text a b c) = ch # release_text a b c"
  using release_text_no_space by (auto intro!: py_strip_no_space)

lemma split_release:
  "split_on (CHR ''.'') (release_text a b c) = [str_of_nat a, str_of_nat b, str_of_nat c]"
proof -
  have "CHR ''.'' \<notin> set (str_of_nat n)" for n
    by (rule str_of_nat_no_char) (simp add: ascii_digit_def)
  then show ?thesis by (simp add: release_text_def split_on_append_sep split_on_no_sep)
qed

lemma int_or_zero_str [simp]: "int_or_zero (str_of_nat n) = Inr n"
  using str_of_nat_digits [of n]
  by (simp add: int_or_zero_def py_isdigit_def list_all_iff isdigit_char_def)

lemma range_chars [simp]:
  "\<not> py_isspace (CHR ''^'')" "\<not> py_isspace (CHR ''~'')" "\<not> py_isspace (CHR ''>'')" "\<not> py_isspace (CHR ''='')"
  by (simp_all add: py_isspace_def Let_def)

lemma within_release:
  assumes "wf_semver p" "sv_pre p = None"
  shows "within (print_semver p) (release_text a b 0) (release_text a' b' 0) \<longleftrightarrow>
    (a, b) \<le> (sv_major p, sv_minor p) \<and> (sv_major p, sv_minor p) < (a', b')"
  using assms
  by (auto simp: within_def compare_semver_def parse_print_semver parse_release_text compare_pre_def
      split: if_splits)

lemma collect_issues_Nil_iff:
  "collect_issues deps = Inr [] \<longleftrightarrow> (\<forall>dep \<in> set deps. dependency_issues dep = Inr [])"
  by (induction deps) (auto split: sum.splits simp del: dependency_issues.simps)

definition constraint_met :: "conn \<Rightarrow> dependency_row \<Rightarrow> bool" where
  "constraint_met con r = (\<exists>c \<in> set (capabilities (db con)).
     c_uri c = dp_depends_on_uri r \<and> c_tenant_id c = dp_tenant r
     \<and> (truthy (dp_required_type r) \<longrightarrow> dp_required_type r = Some (c_type c))
     \<and> (dp_version_constraint r = ''*'' \<or>
         satisfies_constraint (if c_version c = [] then ''0.0.0'' else c_version c)
           (dp_version_constraint r) = Inr True))"

lemma in_left_join: "(x, y) \<in> set (left_join on xs ys) \<longleftrightarrow> x \<in> set xs \<and>
    (case y of None \<Rightarrow> \<forall>z \<in> set ys. \<not> on x z | Some z \<Rightarrow> z \<in> set ys \<and> on x z)"
  by (auto simp: left_join_def Let_def filter_empty_conv split: option.splits if_splits)

lemma in_list_dependencies:
  "dep \<in> set (list_dependencies con uri tenant) \<longleftrightarrow>
    (\<exists>r c. (r, c) \<in> set (left_join (\<lambda>r c. c_uri c = dp_depends_on_uri r \<and> c_tenant_id c = dp_tenant r)
        (filter (\<lambda>r. dp_capability_uri r = uri \<and> dp_tenant r = tenant) (capability_dependencies (db con)))
        (capabilities (db con)))
      \<and> dep = dependency_record r c)"
  by (simp add: list_dependencies_def Let_def image_iff Bex_def case_prod_unfold)

text \<open>What one joined row contributes.\<close>

lemma dependency_issues_row:
  "dependency_issues (dependency_record r c) = Inr [] \<longleftrightarrow>
     (\<exists>x. c = Some x \<and> (truthy (dp_required_type r) \<longrightarrow> dp_required_type r = Some (c_type x))
      \<and> (dp_version_constraint r = ''*'' \<or> satisfies_constraint
          (if c_version x = [] then ''0.0.0'' else c_version x) (dp_version_constraint r) = Inr True))"
  by (cases c; cases "dp_required_type r")
    (auto simp: dependency_record_def nonempty_def Let_def or_else_def
      split: sum.splits if_splits option.splits)

lemma compatible_iff:
  assumes "distinct (map c_uri (capabilities (db con)))"
  shows "(\<forall>dep \<in> set (list_dependencies con uri tenant). dependency_issues dep = Inr []) \<longleftrightarrow>
    (\<forall>r \<in> set (capability_dependencies (db con)).
       dp_capability_uri r = uri \<and> dp_tenant r = tenant \<longrightarrow> constraint_met con r)"
    (is "?L \<longleftrightarrow> ?R")
proof -
  let ?on = "\<lambda>r c. c_uri c = dp_depends_on_uri r \<and> c_tenant_id c = dp_tenant r"
  let ?ok = "\<lambda>r x. (truthy (dp_required_type r) \<longrightarrow> dp_required_type r = Some (c_type x))
      \<and> (dp_version_constraint r = ''*'' \<or> satisfies_constraint
          (if c_version x = [] then ''0.0.0'' else c_version x) (dp_version_constraint r) = Inr True)"
  let ?rows = "filter (\<lambda>r. dp_capability_uri r = uri \<and> dp_tenant r = tenant) (capability_dependencies (db con))"
  have same: "x = y" if "x \<in> set (capabilities (db con))" "y \<in> set (capabilities (db con))" "?on r x" "?on r y"
    for r x y using that by (intro distinct_key_unique [OF assms]) auto
  have "?L \<longleftrightarrow> (\<forall>r c. (r, c) \<in> set (left_join ?on ?rows (capabilities (db con))) \<longrightarrow>
      (\<exists>x. c = Some x \<and> ?ok r x))"
    unfolding dependency_issues_row [symmetric] Ball_def in_list_dependencies by blast
  also have "\<dots> \<longleftrightarrow> (\<forall>r \<in> set ?rows. \<exists>x \<in> set (capabilities (db con)). ?on r x \<and> ?ok r x)"
  proof (intro iffI ballI allI impI)
    fix r assume all: "\<forall>r c. (r, c) \<in> set (left_join ?on ?rows (capabilities (db con))) \<longrightarrow>
        (\<exists>x. c = Some x \<and> ?ok r x)" and r: "r \<in> set ?rows"
    have "\<exists>x \<in> set (capabilities (db con)). ?on r x"
      using all r in_left_join [of r None ?on ?rows] by fastforce
    then obtain x where x: "x \<in> set (capabilities (db con))" "?on r x" by blast
    then have "?ok r x" using all r in_left_join [of r "Some x" ?on ?rows] by fastforce
    with x show "\<exists>x \<in> set (capabilities (db con)). ?on r x \<and> ?ok r x" by blast
  next
    fix r c assume all: "\<forall>r \<in> set ?rows. \<exists>x \<in> set (capabilities (db con)). ?on r x \<and> ?ok r x"
      and rc: "(r, c) \<in> set (left_join ?on ?rows (capabilities (db con)))"
    then have r: "r \<in> set ?rows" by (simp add: in_left_join)
    with all obtain x where x: "x \<in> set (capabilities (db con))" "?on r x" "?ok r x" by blast
    with rc obtain y where y: "c = Some y" "y \<in> set (capabilities (db con))" "?on r y"
      by (cases c) (auto simp: in_left_join)
    with x same have "y = x" by blast
    with x y show "\<exists>x. c = Some x \<and> ?ok r x" by blast
  qed
  also have "\<dots> \<longleftrightarrow> ?R" by (auto simp: constraint_met_def)
  finally show ?thesis .
qed

section \<open>The upsert\<close>

definition dep_key :: "dependency_row \<Rightarrow> string \<times> string \<times> string" where
  "dep_key r = (dp_tenant r, dp_capability_uri r, dp_depends_on_uri r)"

lemma same_dependency_key: "same_dependency t a b = (\<lambda>r. dep_key r = (t, a, b))"
  by (auto simp: fun_eq_iff same_dependency_def dep_key_def)

lemma add_dependency_table:
  assumes "a \<noteq> b"
  shows "\<exists>j i. fst (add_dependency rt a b vc ty t cm con) = Inr j \<and>
    capability_dependencies (db (snd (add_dependency rt a b vc ty t cm con))) =
      (if find (same_dependency t a b) (capability_dependencies (db con)) \<noteq> None
       then update_where (same_dependency t a b) (\<lambda>r. r\<lparr>dp_version_constraint := vc, dp_required_type := ty\<rparr>)
              (capability_dependencies (db con))
       else capability_dependencies (db con) @ [\<lparr>dp_id = i, dp_tenant = t, dp_capability_uri = a,
              dp_depends_on_uri = b, dp_version_constraint = vc, dp_required_type = ty\<rparr>])"
  using assms by (simp add: add_dependency_def Let_def case_prod_unfold)

section \<open>Properties\<close>

text \<open>C17. topological_sort always returns, and what it returns is a deployment order: no capability
  twice, every capability after all its dependencies. It contains every capability of the graph
  exactly when the dependencies are acyclic.\<close>

theorem topological_sort_correct:
  "\<exists>order. topological_sort con tenant_id = Some order \<and> distinct order
     \<and> (\<forall>i < length order. \<forall>m. (order ! i, m) \<in> set (dependency_edges con tenant_id) \<longrightarrow>
          m \<in> set (take i order))
     \<and> set order \<subseteq> Field (set (dependency_edges con tenant_id))
     \<and> (set order = Field (set (dependency_edges con tenant_id)) \<longleftrightarrow>
          acyclic (set (dependency_edges con tenant_id)))"
proof -
  obtain order deg where o: "topo_sort (dependency_edges con tenant_id) = Some order"
      and inv: "kahn_inv (dependency_edges con tenant_id) deg [] order"
    using topo_sort_total by blast
  from o have "topological_sort con tenant_id = Some order" by (simp add: topological_sort_def)
  with kahn_order [OF inv] kahn_complete_iff [OF inv] show ?thesis
    unfolding set_graph_nodes by blast
qed

definition sample_dependencies :: "(string \<times> string) list \<Rightarrow> conn" where
  "sample_dependencies es = sample_conn (empty_database\<lparr>capability_dependencies :=
     map (\<lambda>(a, b). \<lparr>dp_id = a, dp_tenant = ''asg'', dp_capability_uri = a, dp_depends_on_uri = b,
        dp_version_constraint = ''*'', dp_required_type = None\<rparr>) es\<rparr>)"

lemma edges_sample: "dependency_edges (sample_dependencies es) ''asg'' = es"
  by (induction es) (auto simp: dependency_edges_def sample_dependencies_def sample_conn_def empty_database_def)

theorem topological_sort_correct_witness:
  "topological_sort (sample_dependencies [(''a'', ''b''), (''b'', ''c''), (''a'', ''c'')]) ''asg''
     = Some [''c'', ''b'', ''a''] \<and>
   acyclic (set [(''a'', ''b''), (''b'', ''c''), (''a'', ''c'')])"
proof -
  let ?c = "sample_dependencies [(''a'', ''b''), (''b'', ''c''), (''a'', ''c'')]"
  have s: "topological_sort ?c ''asg'' = Some [''c'', ''b'', ''a'']"
    unfolding topological_sort_def edges_sample by code_simp
  with topological_sort_correct [of ?c "''asg''"] show ?thesis
    by (auto simp: edges_sample Field_def)
qed

text \<open>C18. detect_cycles is exact: every list it reports is a closed walk along dependencies, it
  reports nothing exactly when the dependencies are acyclic, and it agrees with
  topological_sort, which leaves capabilities out exactly when a cycle is reported.\<close>

theorem detect_cycles_exact:
  "(\<forall>c \<in> set (detect_cycles con tenant_id). is_cycle (dependency_edges con tenant_id) c)
   \<and> (detect_cycles con tenant_id = [] \<longleftrightarrow> acyclic (set (dependency_edges con tenant_id)))
   \<and> (detect_cycles con tenant_id = [] \<longleftrightarrow> (\<exists>order. topological_sort con tenant_id = Some order
        \<and> set order = Field (set (dependency_edges con tenant_id))))"
proof -
  obtain order deg where o: "topo_sort (dependency_edges con tenant_id) = Some order"
      and inv: "kahn_inv (dependency_edges con tenant_id) deg [] order"
    using topo_sort_total by blast
  then show ?thesis
    using find_cycles_sound kahn_complete_iff [OF inv]
    by (simp add: detect_cycles_def topological_sort_def find_cycles_Nil_iff set_graph_nodes)
qed

theorem detect_cycles_exact_witness:
  "detect_cycles (sample_dependencies [(''a'', ''b''), (''b'', ''a'')]) ''asg'' = [[''a'', ''b'', ''a'']]
   \<and> is_cycle [(''a'', ''b''), (''b'', ''a'')] [''a'', ''b'', ''a'']"
proof -
  let ?c = "sample_dependencies [(''a'', ''b''), (''b'', ''a'')]"
  have s: "detect_cycles ?c ''asg'' = [[''a'', ''b'', ''a'']]"
    unfolding detect_cycles_def edges_sample by code_simp
  with detect_cycles_exact [of ?c "''asg''"] show ?thesis by (simp add: edges_sample)
qed

text \<open>add_dependency is an upsert: it keeps the key (tenant, capability, dependency) unique,
  leaves exactly one row for its own key, with the given constraint and type, keeps every row
  of another key, and remove_dependency undoes it; a self-dependency raises and changes
  nothing.\<close>

theorem add_dependency_upsert:
  fixes con rt a b vc ty t cm
  defines "con' \<equiv> snd (add_dependency rt a b vc ty t cm con)"
  assumes "distinct (map dep_key (capability_dependencies (db con)))" "a \<noteq> b"
  shows "(distinct (map dep_key (capability_dependencies (db con'))))
    \<and> (\<exists>row. filter (\<lambda>r. dep_key r = (t, a, b)) (capability_dependencies (db con')) = [row]
            \<and> dp_version_constraint row = vc \<and> dp_required_type row = ty)
    \<and> (filter (\<lambda>r. dep_key r \<noteq> (t, a, b)) (capability_dependencies (db con'))
           = filter (\<lambda>r. dep_key r \<noteq> (t, a, b)) (capability_dependencies (db con)))
    \<and> (fst (remove_dependency a b t cm con'))
    \<and> (capability_dependencies (db (snd (remove_dependency a b t cm con')))
           = filter (\<lambda>r. dep_key r \<noteq> (t, a, b)) (capability_dependencies (db con)))"
proof (intro conjI)
  obtain i where tab: "capability_dependencies (db con') =
      (if find (\<lambda>r. dep_key r = (t, a, b)) (capability_dependencies (db con)) \<noteq> None
       then update_where (\<lambda>r. dep_key r = (t, a, b))
              (\<lambda>r. r\<lparr>dp_version_constraint := vc, dp_required_type := ty\<rparr>) (capability_dependencies (db con))
       else capability_dependencies (db con) @ [\<lparr>dp_id = i, dp_tenant = t, dp_capability_uri = a,
              dp_depends_on_uri = b, dp_version_constraint = vc, dp_required_type = ty\<rparr>])"
    using add_dependency_table [OF assms(3), of rt vc ty t cm con]
    unfolding con'_def same_dependency_key by blast
  note up = upsert_table [OF assms(2), of "\<lambda>r. r\<lparr>dp_version_constraint := vc, dp_required_type := ty\<rparr>"
      "\<lparr>dp_id = i, dp_tenant = t, dp_capability_uri = a, dp_depends_on_uri = b,
        dp_version_constraint = vc, dp_required_type = ty\<rparr>" "(t, a, b)", folded tab]
  show "distinct (map dep_key (capability_dependencies (db con')))" by (rule up) (simp_all add: dep_key_def)
  show row: "\<exists>row. filter (\<lambda>r. dep_key r = (t, a, b)) (capability_dependencies (db con')) = [row]
      \<and> dp_version_constraint row = vc \<and> dp_required_type row = ty"
    using up(2) by (force simp: dep_key_def)
  show rest: "filter (\<lambda>r. dep_key r \<noteq> (t, a, b)) (capability_dependencies (db con'))
      = filter (\<lambda>r. dep_key r \<noteq> (t, a, b)) (capability_dependencies (db con))"
    by (rule up) (simp_all add: dep_key_def)
  show "fst (remove_dependency a b t cm con')"
    using row by (auto simp: remove_dependency_def rowcount_def same_dependency_key)
  show "capability_dependencies (db (snd (remove_dependency a b t cm con')))
      = filter (\<lambda>r. dep_key r \<noteq> (t, a, b)) (capability_dependencies (db con))"
    using rest by (simp add: remove_dependency_def delete_where_def same_dependency_key)
qed

theorem add_dependency_upsert_witness:
  "map dep_key (capability_dependencies (db (snd (remove_dependency ''a'' ''c'' ''asg'' True
     (snd (add_dependency sample_runtime ''a'' ''c'' ''^1.0.0'' None ''asg'' True
       (sample_dependencies [(''a'', ''b'')]))))))) = [(''asg'', ''a'', ''b'')]"
  by (subst add_dependency_upsert [THEN conjunct2, THEN conjunct2, THEN conjunct2, THEN conjunct2])
    (simp_all add: sample_dependencies_def sample_conn_def empty_database_def dep_key_def)

text \<open>On released versions the range operators decide by the leading components alone: a caret
  constraint accepts exactly the versions of its major number and a tilde constraint exactly
  those of its major and minor number, so the rest of the bound, such as the 2.3 of ^1.2.3, is
  not a lower limit.\<close>

theorem range_constraints_decide_by_prefix:
  assumes "wf_semver p" "sv_pre p = None"
  shows "(satisfies_constraint (print_semver p) (''^'' @ release_text a b c) = Inr (sv_major p = a))
    \<and> (satisfies_constraint (print_semver p) (''~'' @ release_text a b c)
           = Inr (sv_major p = a \<and> sv_minor p = b))"
  using assms
  by (auto simp: satisfies_constraint_def startswith_def split_release within_release)

theorem range_constraints_decide_by_prefix_witness:
  "satisfies_constraint (print_semver \<lparr>sv_major = 1, sv_minor = 0, sv_patch = 0, sv_pre = None,
     sv_build = None\<rparr>) (''^'' @ release_text 1 2 3) = Inr True"
  by (subst range_constraints_decide_by_prefix [THEN conjunct1]) (simp_all add: wf_semver_def wf_group_def)

text \<open>A version that is no version satisfies every lower bound: compare_semver ranks strings it
  cannot parse above all versions, so a dependency on >=9.9.9 is met by the string latest.\<close>

theorem unparsable_version_meets_lower_bounds:
  assumes "parse_semver v = None"
  shows "satisfies_constraint v (''>='' @ release_text a b c) = Inr True"
proof -
  have "py_strip (''>='' @ release_text a b c) = ''>='' @ release_text a b c"
    using release_text_no_space by (intro py_strip_no_space) simp
  with assms show ?thesis
    by (simp add: satisfies_constraint_def startswith_def satisfies_operator_def compare_semver_def
        parse_release_text)
qed

theorem unparsable_version_meets_lower_bounds_witness:
  "satisfies_constraint ''latest'' (''>='' @ release_text 9 9 9) = Inr True"
  by (rule unparsable_version_meets_lower_bounds) code_simp

text \<open>check_compatibility reports a capability as compatible exactly when each of its
  dependencies names a capability of the tenant that has the required type, if one is
  required, and a version that meets the constraint.\<close>

theorem check_compatibility_exact:
  assumes "distinct (map c_uri (capabilities (db con)))"
  shows "(\<exists>r. check_compatibility con uri tenant = Inr r \<and> co_compatible r) \<longleftrightarrow>
    (\<forall>r \<in> set (capability_dependencies (db con)).
       dp_capability_uri r = uri \<and> dp_tenant r = tenant \<longrightarrow> constraint_met con r)"
proof -
  have "(\<exists>r. check_compatibility con uri tenant = Inr r \<and> co_compatible r) \<longleftrightarrow>
      collect_issues (list_dependencies con uri tenant) = Inr []"
    by (auto simp: check_compatibility_def Let_def split: sum.splits)
  then show ?thesis unfolding collect_issues_Nil_iff compatible_iff [OF assms] .
qed

theorem check_compatibility_exact_witness:
  "\<not> (\<exists>r. check_compatibility (sample_dependencies [(''a'', ''b'')]) ''a'' ''asg'' = Inr r \<and> co_compatible r)"
proof -
  let ?con = "sample_dependencies [(''a'', ''b'')]"
  have none: "capabilities (db ?con) = []"
    by (simp add: sample_dependencies_def sample_conn_def empty_database_def)
  have "\<exists>r \<in> set (capability_dependencies (db ?con)). dp_capability_uri r = ''a'' \<and> dp_tenant r = ''asg''"
    by (simp add: sample_dependencies_def sample_conn_def empty_database_def)
  moreover have "\<not> constraint_met ?con r" for r by (simp add: constraint_met_def none)
  ultimately show ?thesis using check_compatibility_exact [of ?con "''a''" "''asg''"] none by auto
qed
end
