(* ===== verification/Lifecycle_Transitions.thy ===== *)
theory Lifecycle_Transitions
  imports Access_Control
begin

text \<open>
  Lifecycle states of capabilities and namespaces (\<^verbatim>\<open>lifecycle_transitions.py\<close>) and the transfer
  of a namespace to a new owner (\<^verbatim>\<open>namespace_owners.py\<close>).

  The two transition tables are data; the laws that both obey are the locale
  \<^verbatim>\<open>lifecycle_table\<close>, interpreted once on each. Histories of calls are the reflexive transitive
  closure of the step relation \<^verbatim>\<open>lifecycle_step\<close>: any caller, any arguments, success or error.
\<close>

section \<open>Transition tables\<close>

type_synonym transition_table = "(string \<times> string list) list"

definition CAPABILITY_LIFECYCLE_STATES :: "string list" where
  "CAPABILITY_LIFECYCLE_STATES = [''draft'', ''active'', ''deprecated'', ''retired'', ''published'',
     ''disabled'', ''deleted'', ''recalled'', ''yanked'']"

definition NAMESPACE_LIFECYCLE_STATES :: "string list" where
  "NAMESPACE_LIFECYCLE_STATES = [''draft'', ''active'', ''deprecated'', ''retired'']"

definition CAPABILITY_TRANSITIONS :: transition_table where
  "CAPABILITY_TRANSITIONS =
     [(''draft'', [''active'', ''deprecated'', ''retired'', ''published'']),
      (''active'', [''deprecated'', ''retired'', ''draft'']),
      (''published'', [''deprecated'', ''retired'', ''active'']),
      (''deprecated'', [''active'', ''retired'']),
      (''retired'', [''active'', ''deprecated'']),
      (''disabled'', [''active'', ''deleted'']),
      (''deleted'', []),
      (''recalled'', [''active'', ''draft'']),
      (''yanked'', [''active''])]"

definition NAMESPACE_TRANSITIONS :: transition_table where
  "NAMESPACE_TRANSITIONS =
     [(''draft'', [''active'', ''deprecated'', ''retired'']),
      (''active'', [''deprecated'', ''retired'', ''draft'']),
      (''deprecated'', [''active'', ''retired'']),
      (''retired'', [''active''])]"

definition is_valid_transition :: "string \<Rightarrow> string \<Rightarrow> transition_table option \<Rightarrow> bool" where
  "is_valid_transition current target transitions =
     (let table = (case transitions of None \<Rightarrow> CAPABILITY_TRANSITIONS
                   | Some t \<Rightarrow> if t = [] then CAPABILITY_TRANSITIONS else t)
      in if current = target then True
         else target \<in> set (case map_of table current of None \<Rightarrow> [] | Some allowed \<Rightarrow> allowed))"

section \<open>Operations\<close>

text \<open>The INSERT INTO audit_events of both modules: actor_type and reason keep their defaults.\<close>

definition insert_audit ::
  "runtime \<Rightarrow> string \<Rightarrow> string \<Rightarrow> string \<Rightarrow> string \<Rightarrow> string \<Rightarrow> json \<Rightarrow> conn \<Rightarrow> conn" where
  "insert_audit rt tenant_id event_type actor target action payload con =
     (let (i, con1) = new_id rt ''ae'' con
      in with_db (\<lambda>d. d\<lparr>audit_events := audit_events d @
           [\<lparr>ae_id = i, ae_tenant = tenant_id, ae_event_type = event_type, ae_actor = actor,
             ae_actor_type = ''user'', ae_target = Some target, ae_action = Some action,
             ae_decision = Some ''allow'', ae_reason = None, ae_payload = payload,
             ae_created_at = utc_now rt\<rparr>]\<rparr>) con1)"

definition transition_capability ::
  "runtime \<Rightarrow> string \<Rightarrow> string \<Rightarrow> string \<Rightarrow> string \<Rightarrow> string \<Rightarrow> bool \<Rightarrow> conn \<Rightarrow> (conn, json) outcome" where
  "transition_capability rt uri target_lifecycle actor tenant_id reason do_commit con =
     (if target_lifecycle \<notin> set CAPABILITY_LIFECYCLE_STATES then
        (Inl (ValueError (''Invalid lifecycle state: '' @ target_lifecycle)), con)
      else case find (\<lambda>c. c_uri c = uri \<and> c_tenant_id c = tenant_id) (capabilities (db con)) of
        None \<Rightarrow> (Inl (ValueError (''Capability not found: '' @ uri)), con)
      | Some row \<Rightarrow>
          (let current = c_lifecycle row in
           if \<not> is_valid_transition current target_lifecycle None then
             (Inl (ValueError (''Invalid transition: '' @ current @ '' -> '' @ target_lifecycle)), con)
           else
             let con1 = with_db (\<lambda>d. d\<lparr>capabilities :=
                   update_where (\<lambda>c. c_uri c = uri) (c_lifecycle_update (\<lambda>_. target_lifecycle))
                     (capabilities d)\<rparr>) con;
                 con2 = insert_audit rt tenant_id ''capability.lifecycle.transition'' actor uri
                   ''transition'' (JObj [(''from'', JStr current), (''to'', JStr target_lifecycle),
                     (''reason'', JStr reason)]) con1
             in (Inr (JObj [(''uri'', JStr uri), (''from'', JStr current),
                   (''to'', JStr target_lifecycle), (''reason'', JStr reason),
                   (''actor'', JStr actor)]), commit_if do_commit con2)))"

definition transition_namespace ::
  "runtime \<Rightarrow> string \<Rightarrow> string \<Rightarrow> string \<Rightarrow> string \<Rightarrow> string \<Rightarrow> bool \<Rightarrow> conn \<Rightarrow> (conn, json) outcome" where
  "transition_namespace rt namespace_id target_lifecycle actor tenant_id reason do_commit con =
     (if target_lifecycle \<notin> set NAMESPACE_LIFECYCLE_STATES then
        (Inl (ValueError (''Invalid namespace lifecycle state: '' @ target_lifecycle)), con)
      else case find (\<lambda>n. ns_id n = namespace_id \<and> ns_tenant n = tenant_id) (namespaces (db con)) of
        None \<Rightarrow> (Inl (ValueError (''Namespace not found: '' @ namespace_id)), con)
      | Some row \<Rightarrow>
          (let current = ns_lifecycle row in
           if \<not> is_valid_transition current target_lifecycle (Some NAMESPACE_TRANSITIONS) then
             (Inl (ValueError (''Invalid namespace transition: '' @ current @ '' -> '' @ target_lifecycle)), con)
           else
             let con1 = with_db (\<lambda>d. d\<lparr>namespaces :=
                   update_where (\<lambda>n. ns_id n = namespace_id) (ns_lifecycle_update (\<lambda>_. target_lifecycle))
                     (namespaces d)\<rparr>) con;
                 con2 = insert_audit rt tenant_id ''namespace.lifecycle.transition'' actor namespace_id
                   ''transition'' (JObj [(''from'', JStr current), (''to'', JStr target_lifecycle),
                     (''reason'', JStr reason)]) con1
             in (Inr (JObj [(''namespaceId'', JStr namespace_id), (''from'', JStr current),
                   (''to'', JStr target_lifecycle), (''reason'', JStr reason),
                   (''actor'', JStr actor)]), commit_if do_commit con2)))"

text \<open>GROUP BY lifecycle visits the groups in ascending order of the key.\<close>

definition list_lifecycle_states :: "conn \<Rightarrow> string \<Rightarrow> json" where
  "list_lifecycle_states con tenant_id =
     (let states = map c_lifecycle (filter (\<lambda>c. c_tenant_id c = tenant_id) (capabilities (db con)));
          groups = order_by_desc snd (map (\<lambda>l. (l, count_list states l)) (sort (remdups states)))
      in JObj [(''states'', JObj (map (\<lambda>(l, n). (l, JInt (int n))) groups)),
        (''validStates'', JList (map JStr (sort CAPABILITY_LIFECYCLE_STATES))),
        (''validTransitions'',
           JObj (map (\<lambda>(k, v). (k, JList (map JStr (sort v)))) CAPABILITY_TRANSITIONS))])"

definition transfer_namespace ::
  "runtime \<Rightarrow> string \<Rightarrow> string \<Rightarrow> string \<Rightarrow> string \<Rightarrow> string \<Rightarrow> bool \<Rightarrow> conn \<Rightarrow> (conn, json) outcome" where
  "transfer_namespace rt namespace_id new_owner actor tenant_id reason do_commit con =
     (case find (\<lambda>n. ns_id n = namespace_id \<and> ns_tenant n = tenant_id) (namespaces (db con)) of
        None \<Rightarrow> (Inl (ValueError (''Namespace not found: '' @ namespace_id)), con)
      | Some row \<Rightarrow>
          (let old_owner = ns_owner row in
           if old_owner = new_owner then
             (Inl (ValueError ''New owner is the same as current owner''), con)
           else
             let con1 = with_db (\<lambda>d. d\<lparr>namespaces :=
                   update_where (\<lambda>n. ns_id n = namespace_id) (ns_owner_update (\<lambda>_. new_owner))
                     (namespaces d)\<rparr>) con;
                 con2 = with_db (\<lambda>d. d\<lparr>capabilities :=
                   update_where (\<lambda>c. c_namespace_id c = Some namespace_id \<and> c_tenant_id c = tenant_id)
                     (c_owner_update (\<lambda>_. new_owner)) (capabilities d)\<rparr>) con1;
                 con3 = insert_audit rt tenant_id ''namespace.transfer'' actor namespace_id ''transfer''
                   (JObj [(''namespaceName'', JStr (ns_name row)), (''fromOwner'', JStr old_owner),
                     (''toOwner'', JStr new_owner), (''reason'', JStr reason)]) con2
             in (Inr (JObj [(''namespaceId'', JStr namespace_id), (''namespaceName'', JStr (ns_name row)),
                   (''fromOwner'', JStr old_owner), (''toOwner'', JStr new_owner),
                   (''reason'', JStr reason), (''actor'', JStr actor)]), commit_if do_commit con3)))"

text \<open>One line of the owner map: the namespace, the store it is in if that row exists, and the
  number of its capabilities.\<close>

record owner_map_entry =
  om_id :: string
  om_name :: string
  om_owner :: string
  om_lifecycle :: string
  om_visibility :: string
  om_store_name :: "string option"
  om_store_kind :: "string option"
  om_capability_count :: nat

definition namespace_owner_map :: "conn \<Rightarrow> string \<Rightarrow> owner_map_entry list" where
  "namespace_owner_map con tenant_id =
     (let d = db con in
      map (\<lambda>n. let s = find (\<lambda>s. st_id s = ns_store n) (stores d) in
           \<lparr>om_id = ns_id n, om_name = ns_name n, om_owner = ns_owner n, om_lifecycle = ns_lifecycle n,
            om_visibility = ns_visibility n,
            om_store_name = (if truthy (map_option st_name s) then map_option st_name s else None),
            om_store_kind = (if truthy (map_option st_kind s) then map_option st_kind s else None),
            om_capability_count = rowcount (\<lambda>c. c_namespace_id c = Some (ns_id n)
              \<and> c_tenant_id c = ns_tenant n) (capabilities d)\<rparr>)
        (order_by ns_name (filter (\<lambda>n. ns_tenant n = tenant_id) (namespaces d))))"

definition namespaces_by_owner :: "conn \<Rightarrow> string \<Rightarrow> string \<Rightarrow> (namespace_row \<times> nat) list" where
  "namespaces_by_owner con owner tenant_id =
     (let d = db con in
      map (\<lambda>n. (n, rowcount (\<lambda>c. c_namespace_id c = Some (ns_id n)) (capabilities d)))
        (order_by ns_name (filter (\<lambda>n. ns_tenant n = tenant_id \<and> ns_owner n = owner) (namespaces d))))"

section \<open>The laws of a transition table\<close>

definition table_step :: "transition_table \<Rightarrow> string \<Rightarrow> string \<Rightarrow> bool" where
  "table_step table a b = is_valid_transition a b (Some table)"

text \<open>
  What the operations rely on: the table is not empty (an empty one would silently select the
  capability table), and its keys and targets are declared states. The second group of lemmas
  follows a run through the table: a set of states that no row leaves is never left.
\<close>

locale lifecycle_table =
  fixes table :: transition_table and states :: "string list"
  assumes table_nonempty: "table \<noteq> []"
    and table_keys: "fst ` set table = set states"
    and table_targets: "\<forall>(k, ts) \<in> set table. set ts \<subseteq> set states"
begin

lemma valid_iff:
  "table_step table a b \<longleftrightarrow> a = b \<or> (\<exists>ts. map_of table a = Some ts \<and> b \<in> set ts)"
  using table_nonempty
  by (cases "map_of table a") (auto simp: table_step_def is_valid_transition_def Let_def)

lemma valid_declared:
  assumes "table_step table a b" "a \<noteq> b"
  shows "a \<in> set states" "b \<in> set states"
proof -
  from assms obtain ts where ts: "(a, ts) \<in> set table" "b \<in> set ts"
    by (auto simp: valid_iff dest: map_of_SomeD)
  then show "a \<in> set states" using table_keys by force
  from ts show "b \<in> set states" using table_targets by auto
qed

lemma closed_run:
  assumes "(table_step table)\<^sup>*\<^sup>* a b" and "a \<in> S"
    and closed: "\<And>k ts. k \<in> S \<Longrightarrow> map_of table k = Some ts \<Longrightarrow> set ts \<subseteq> S"
  shows "b \<in> S"
  using assms(1,2)
proof (induction rule: rtranclp_induct)
  case (step y z)
  then have "y \<in> S" by simp
  with step.hyps(2) show ?case using closed by (auto simp: valid_iff)
qed

end

interpretation cap_lifecycle: lifecycle_table CAPABILITY_TRANSITIONS CAPABILITY_LIFECYCLE_STATES
  by unfold_locales (auto simp: CAPABILITY_TRANSITIONS_def CAPABILITY_LIFECYCLE_STATES_def)

interpretation ns_lifecycle: lifecycle_table NAMESPACE_TRANSITIONS NAMESPACE_LIFECYCLE_STATES
  by unfold_locales (auto simp: NAMESPACE_TRANSITIONS_def NAMESPACE_LIFECYCLE_STATES_def)

lemma cap_valid_default: "is_valid_transition a b None = table_step CAPABILITY_TRANSITIONS a b"
  using cap_lifecycle.table_nonempty
  by (simp add: table_step_def is_valid_transition_def Let_def)

section \<open>Effect of one call\<close>

lemma insert_audit_frame [simp]:
  "capabilities (db (insert_audit rt t e a u x j con)) = capabilities (db con)"
  "namespaces (db (insert_audit rt t e a u x j con)) = namespaces (db con)"
  "stores (db (insert_audit rt t e a u x j con)) = stores (db con)"
  "durable (insert_audit rt t e a u x j con) = durable con"
  by (simp_all add: insert_audit_def Let_def case_prod_unfold)

lemma insert_audit_row:
  "\<exists>ev. audit_events (db (insert_audit rt t e a u x j con)) = audit_events (db con) @ [ev]
     \<and> ae_tenant ev = t \<and> ae_event_type ev = e \<and> ae_actor ev = a \<and> ae_target ev = Some u
     \<and> ae_payload ev = j"
  by (simp add: insert_audit_def Let_def case_prod_unfold)

definition legal_transition :: "conn \<Rightarrow> string \<Rightarrow> string \<Rightarrow> string \<Rightarrow> bool" where
  "legal_transition con uri tenant_id target =
     (target \<in> set CAPABILITY_LIFECYCLE_STATES \<and>
      (\<exists>c \<in> set (capabilities (db con)). c_uri c = uri \<and> c_tenant_id c = tenant_id
         \<and> table_step CAPABILITY_TRANSITIONS (c_lifecycle c) target))"

lemma transition_capability_illegal:
  assumes "distinct (map c_uri (capabilities (db con)))"
    and "\<not> legal_transition con uri tenant_id target"
  shows "\<exists>msg. transition_capability rt uri target actor tenant_id reason cm con
    = (Inl (ValueError msg), con)"
  using assms(2)
  by (auto simp: transition_capability_def legal_transition_def Let_def cap_valid_default
      split: option.splits dest: find_SomeD)

lemma transition_capability_legal:
  assumes d: "distinct (map c_uri (capabilities (db con)))"
    and "legal_transition con uri tenant_id target"
  obtains row j where "row \<in> set (capabilities (db con))" "c_uri row = uri" "c_tenant_id row = tenant_id"
    "table_step CAPABILITY_TRANSITIONS (c_lifecycle row) target"
    "transition_capability rt uri target actor tenant_id reason cm con =
      (Inr j, commit_if cm (insert_audit rt tenant_id ''capability.lifecycle.transition'' actor uri
         ''transition'' (JObj [(''from'', JStr (c_lifecycle row)), (''to'', JStr target),
           (''reason'', JStr reason)])
         (with_db (\<lambda>d. d\<lparr>capabilities := update_where (\<lambda>c. c_uri c = uri)
            (c_lifecycle_update (\<lambda>_. target)) (capabilities d)\<rparr>) con)))"
proof -
  from assms(2) obtain c where c: "c \<in> set (capabilities (db con))" "c_uri c = uri"
      "c_tenant_id c = tenant_id" "table_step CAPABILITY_TRANSITIONS (c_lifecycle c) target"
      and t: "target \<in> set CAPABILITY_LIFECYCLE_STATES"
    by (auto simp: legal_transition_def)
  let ?q = "\<lambda>c. c_uri c = uri \<and> c_tenant_id c = tenant_id"
  obtain r where r: "find ?q (capabilities (db con)) = Some r"
    using c find_is_Some_iff [of ?q "capabilities (db con)"] by auto
  then have "r \<in> set (capabilities (db con))" "c_uri r = c_uri c"
    using c by (auto dest: find_SomeD)
  then have "r = c" using d c(1) distinct_key_unique by metis
  with r c t show ?thesis
    by (intro that [of c]) (auto simp: transition_capability_def Let_def cap_valid_default)
qed

section \<open>Histories\<close>

inductive lifecycle_step :: "conn \<Rightarrow> conn \<Rightarrow> bool" where
  capability: "lifecycle_step con (snd (transition_capability rt uri target actor tenant reason cm con))"
| namespace_: "lifecycle_step con (snd (transition_namespace rt nsid target actor tenant reason cm con))"
| transfer: "lifecycle_step con (snd (transfer_namespace rt nsid owner actor tenant reason cm con))"

inductive_cases lifecycle_stepE: "lifecycle_step con con'"

text \<open>The relation between the capability rows before and after a history: same keys in the
  same order, and each lifecycle moved along the table.\<close>

definition moved_along_table :: "capability list \<Rightarrow> capability list \<Rightarrow> bool" where
  "moved_along_table cs cs' = list_all2 (\<lambda>c c'. c_uri c' = c_uri c
     \<and> (table_step CAPABILITY_TRANSITIONS)\<^sup>*\<^sup>* (c_lifecycle c) (c_lifecycle c')) cs cs'"

lemma moved_refl [simp]: "moved_along_table cs cs"
  by (simp add: moved_along_table_def list_all2_same)

lemma moved_trans: "moved_along_table a b \<Longrightarrow> moved_along_table b c \<Longrightarrow> moved_along_table a c"
  unfolding moved_along_table_def
  by (erule (1) list_all2_trans [rotated]) auto

lemma moved_keys: "moved_along_table cs cs' \<Longrightarrow> map c_uri cs' = map c_uri cs"
  by (simp add: moved_along_table_def list_all2_conv_all_nth list_eq_iff_nth_eq)

lemma moved_frame:
  "(\<And>c. c_uri (f c) = c_uri c \<and> c_lifecycle (f c) = c_lifecycle c) \<Longrightarrow>
     moved_along_table cs (update_where p f cs)"
  by (simp add: moved_along_table_def update_where_def list_all2_map2 list_all2_same)

lemma moved_update:
  assumes "distinct (map c_uri cs)" "row \<in> set cs" "table_step CAPABILITY_TRANSITIONS (c_lifecycle row) target"
  shows "moved_along_table cs
    (update_where (\<lambda>c. c_uri c = c_uri row) (c_lifecycle_update (\<lambda>_. target)) cs)"
proof -
  have "c = row" if "c \<in> set cs" "c_uri c = c_uri row" for c
    using assms(1,2) that distinct_key_unique by metis
  with assms(3) show ?thesis
    by (auto simp: moved_along_table_def update_where_def list_all2_map2 list_all2_same)
qed

lemma step_moves:
  assumes "lifecycle_step con con'" "distinct (map c_uri (capabilities (db con)))"
  shows "moved_along_table (capabilities (db con)) (capabilities (db con'))"
  using assms(1)
proof (cases rule: lifecycle_step.cases)
  case (capability rt uri target actor tenant reason cm)
  show ?thesis
  proof (cases "legal_transition con uri tenant target")
    case True
    then show ?thesis unfolding capability
      by (rule transition_capability_legal [OF assms(2), where rt = rt and actor = actor
            and reason = reason and cm = cm]) (use assms(2) moved_update in auto)
  next
    case False
    then obtain msg where "transition_capability rt uri target actor tenant reason cm con
        = (Inl (ValueError msg), con)"
      using transition_capability_illegal [OF assms(2)] by blast
    then show ?thesis by (simp add: capability)
  qed
next
  case (namespace_ rt nsid target actor tenant reason cm)
  then show ?thesis by (simp add: transition_namespace_def Let_def split: option.splits)
next
  case (transfer rt nsid owner actor tenant reason cm)
  then show ?thesis
    by (simp add: transfer_namespace_def Let_def moved_frame split: option.splits)
qed

lemma history_moves:
  assumes "lifecycle_step\<^sup>*\<^sup>* con con'" "distinct (map c_uri (capabilities (db con)))"
  shows "moved_along_table (capabilities (db con)) (capabilities (db con'))"
  using assms(1)
proof (induction rule: rtranclp_induct)
  case base
  then show ?case by simp
next
  case (step y z)
  then have "distinct (map c_uri (capabilities (db y)))"
    using assms(2) moved_keys by metis
  with step.hyps(2) have "moved_along_table (capabilities (db y)) (capabilities (db z))"
    by (rule step_moves)
  with step.IH show ?case by (rule moved_trans)
qed

lemma namespace_step_declared:
  assumes "lifecycle_step con con'"
    and "\<forall>n \<in> set (namespaces (db con)). ns_lifecycle n \<in> set NAMESPACE_LIFECYCLE_STATES"
  shows "\<forall>n \<in> set (namespaces (db con')). ns_lifecycle n \<in> set NAMESPACE_LIFECYCLE_STATES"
  using assms(1)
proof (cases rule: lifecycle_step.cases)
  case (capability rt uri target actor tenant reason cm)
  with assms(2) show ?thesis by (simp add: transition_capability_def Let_def split: option.splits)
next
  case (namespace_ rt nsid target actor tenant reason cm)
  with assms(2) show ?thesis
    by (auto simp: transition_namespace_def Let_def in_update_where split: option.splits if_splits)
next
  case (transfer rt nsid owner actor tenant reason cm)
  with assms(2) show ?thesis
    by (auto simp: transfer_namespace_def Let_def in_update_where split: option.splits if_splits)
qed

lemma namespace_history_declared:
  assumes "lifecycle_step\<^sup>*\<^sup>* con con'"
    and "\<forall>n \<in> set (namespaces (db con)). ns_lifecycle n \<in> set NAMESPACE_LIFECYCLE_STATES"
  shows "\<forall>n \<in> set (namespaces (db con')). ns_lifecycle n \<in> set NAMESPACE_LIFECYCLE_STATES"
  using assms by (induction rule: rtranclp_induct) (auto dest: namespace_step_declared)

definition serving_lifecycles :: "string set" where
  "serving_lifecycles = {''draft'', ''active'', ''published'', ''deprecated'', ''retired''}"

lemma serving_closed:
  "k \<in> serving_lifecycles \<Longrightarrow> map_of CAPABILITY_TRANSITIONS k = Some ts \<Longrightarrow> set ts \<subseteq> serving_lifecycles"
  by (auto simp: serving_lifecycles_def CAPABILITY_TRANSITIONS_def)

lemma deleted_closed:
  "k \<in> {''deleted''} \<Longrightarrow> map_of CAPABILITY_TRANSITIONS k = Some ts \<Longrightarrow> set ts \<subseteq> {''deleted''}"
  by (auto simp: CAPABILITY_TRANSITIONS_def)

lemma transfer_effect:
  assumes "find (\<lambda>n. ns_id n = nsid \<and> ns_tenant n = tenant) (namespaces (db con)) = Some row"
    and "ns_owner row \<noteq> new_owner"
  obtains j where "transfer_namespace rt nsid new_owner actor tenant reason cm con = (Inr j,
    commit_if cm (insert_audit rt tenant ''namespace.transfer'' actor nsid ''transfer''
      (JObj [(''namespaceName'', JStr (ns_name row)), (''fromOwner'', JStr (ns_owner row)),
         (''toOwner'', JStr new_owner), (''reason'', JStr reason)])
      (with_db (\<lambda>d. d\<lparr>capabilities := update_where
           (\<lambda>c. c_namespace_id c = Some nsid \<and> c_tenant_id c = tenant)
           (c_owner_update (\<lambda>_. new_owner)) (capabilities d)\<rparr>)
        (with_db (\<lambda>d. d\<lparr>namespaces := update_where (\<lambda>n. ns_id n = nsid)
           (ns_owner_update (\<lambda>_. new_owner)) (namespaces d)\<rparr>) con))))"
  using assms by (simp add: transfer_namespace_def Let_def)

section \<open>Properties\<close>

text \<open>transition_capability acts exactly on the legal requests: when the target is a declared
  state, the tenant has the capability and the table allows the move (or it is no move), only
  that row changes, only in its lifecycle, and one audit row with the old and the new state is
  appended; every other request raises ValueError and leaves the connection as it was.\<close>

theorem transition_capability_effect:
  fixes con uri tenant_id target rt actor reason cm
  defines "r \<equiv> transition_capability rt uri target actor tenant_id reason cm con"
  assumes "distinct (map c_uri (capabilities (db con)))"
  shows "if legal_transition con uri tenant_id target then
      \<exists>j ev row. fst r = Inr j \<and> row \<in> set (capabilities (db con)) \<and> c_uri row = uri
        \<and> capabilities (db (snd r))
            = map (\<lambda>c. if c = row then row\<lparr>c_lifecycle := target\<rparr> else c) (capabilities (db con))
        \<and> namespaces (db (snd r)) = namespaces (db con)
        \<and> audit_events (db (snd r)) = audit_events (db con) @ [ev]
        \<and> ae_actor ev = actor \<and> ae_target ev = Some uri
        \<and> ae_payload ev = JObj [(''from'', JStr (c_lifecycle row)), (''to'', JStr target),
            (''reason'', JStr reason)]
        \<and> (if cm then durable (snd r) = db (snd r) else durable (snd r) = durable con)
    else (\<exists>msg. r = (Inl (ValueError msg), con))"
proof (cases "legal_transition con uri tenant_id target")
  case True
  obtain row j where row: "row \<in> set (capabilities (db con))" "c_uri row = uri"
    and r: "r = (Inr j, commit_if cm (insert_audit rt tenant_id ''capability.lifecycle.transition''
         actor uri ''transition'' (JObj [(''from'', JStr (c_lifecycle row)), (''to'', JStr target),
           (''reason'', JStr reason)])
         (with_db (\<lambda>d. d\<lparr>capabilities := update_where (\<lambda>c. c_uri c = uri)
            (c_lifecycle_update (\<lambda>_. target)) (capabilities d)\<rparr>) con)))"
    unfolding r_def by (rule transition_capability_legal [OF assms(2) True])
  have "\<forall>c \<in> set (capabilities (db con)). c_uri c = uri \<longleftrightarrow> c = row"
    using assms(2) row distinct_key_unique by metis
  then have caps: "capabilities (db (snd r))
      = map (\<lambda>c. if c = row then row\<lparr>c_lifecycle := target\<rparr> else c) (capabilities (db con))"
    by (simp add: r update_where_def)
  have dur: "if cm then durable (snd r) = db (snd r) else durable (snd r) = durable con"
    by (simp add: r commit_if_def)
  obtain ev where ev: "audit_events (db (snd r)) = audit_events (db con) @ [ev]" "ae_actor ev = actor"
      "ae_target ev = Some uri" "ae_payload ev = JObj [(''from'', JStr (c_lifecycle row)),
        (''to'', JStr target), (''reason'', JStr reason)]"
    by (simp add: r insert_audit_def Let_def case_prod_unfold)
  have "fst r = Inr j" "namespaces (db (snd r)) = namespaces (db con)" by (simp_all add: r)
  with True row caps dur ev show ?thesis by (simp only: if_True) blast
next
  case False
  then show ?thesis using transition_capability_illegal [OF assms(2)] by (simp add: r_def)
qed

theorem transition_capability_effect_witness:
  "\<exists>j. fst (transition_capability sample_runtime (c_uri sample_capability) ''deprecated'' ''ann''
      ''asg'' ''old'' True (sample_conn (empty_database\<lparr>capabilities := [sample_capability]\<rparr>))) = Inr j"
proof -
  let ?con = "sample_conn (empty_database\<lparr>capabilities := [sample_capability]\<rparr>)"
  have "table_step CAPABILITY_TRANSITIONS ''active'' ''deprecated''"
    by (subst cap_lifecycle.valid_iff) (simp add: CAPABILITY_TRANSITIONS_def)
  then have "legal_transition ?con (c_uri sample_capability) ''asg'' ''deprecated''"
    by (simp add: legal_transition_def sample_defs CAPABILITY_LIFECYCLE_STATES_def)
  then show ?thesis
    using transition_capability_effect [where con = ?con and rt = sample_runtime and uri = "c_uri sample_capability"
        and target = "''deprecated''" and tenant_id = "''asg''" and cm = True
        and actor = "''ann''" and reason = "''old''"]
    by (auto simp: sample_conn_def)
qed

text \<open>C21. Whatever sequence of lifecycle transitions and namespace transfers is requested, by
  anyone, a capability that starts in draft, active, published, deprecated or retired is never
  disabled, deleted, recalled or yanked by it, a deleted capability stays deleted, no
  capability appears or disappears, and namespaces stay in declared states.\<close>

theorem lifecycle_history_invariant:
  assumes "lifecycle_step\<^sup>*\<^sup>* con con'" "distinct (map c_uri (capabilities (db con)))"
    and "\<forall>n \<in> set (namespaces (db con)). ns_lifecycle n \<in> set NAMESPACE_LIFECYCLE_STATES"
  shows "(list_all2 (\<lambda>c c'. c_uri c' = c_uri c
      \<and> (c_lifecycle c \<in> {''draft'', ''active'', ''published'', ''deprecated'', ''retired''} \<longrightarrow>
           c_lifecycle c' \<notin> {''disabled'', ''deleted'', ''recalled'', ''yanked''})
      \<and> (c_lifecycle c = ''deleted'' \<longrightarrow> c_lifecycle c' = ''deleted''))
    (capabilities (db con)) (capabilities (db con')))
    \<and> (\<forall>n \<in> set (namespaces (db con')). ns_lifecycle n \<in> set NAMESPACE_LIFECYCLE_STATES)"
proof (intro conjI)
  have serve: "b \<notin> {''disabled'', ''deleted'', ''recalled'', ''yanked''}"
    if "(table_step CAPABILITY_TRANSITIONS)\<^sup>*\<^sup>* a b" "a \<in> serving_lifecycles" for a b
    using cap_lifecycle.closed_run [OF that serving_closed] by (auto simp: serving_lifecycles_def)
  have gone: "b = ''deleted''" if "(table_step CAPABILITY_TRANSITIONS)\<^sup>*\<^sup>* ''deleted'' b" for b
    using cap_lifecycle.closed_run [OF that, of "{''deleted''}"] deleted_closed by auto
  from history_moves [OF assms(1,2)] show "list_all2 (\<lambda>c c'. c_uri c' = c_uri c
      \<and> (c_lifecycle c \<in> {''draft'', ''active'', ''published'', ''deprecated'', ''retired''} \<longrightarrow>
           c_lifecycle c' \<notin> {''disabled'', ''deleted'', ''recalled'', ''yanked''})
      \<and> (c_lifecycle c = ''deleted'' \<longrightarrow> c_lifecycle c' = ''deleted''))
    (capabilities (db con)) (capabilities (db con'))"
    unfolding moved_along_table_def
    by (rule list_all2_mono) (use serve gone in \<open>auto simp: serving_lifecycles_def\<close>)
  show "\<forall>n \<in> set (namespaces (db con')). ns_lifecycle n \<in> set NAMESPACE_LIFECYCLE_STATES"
    using assms(1,3) by (rule namespace_history_declared)
qed

theorem lifecycle_history_invariant_witness:
  "list_all2 (\<lambda>c c'. c_lifecycle c' \<notin> {''disabled'', ''deleted'', ''recalled'', ''yanked''})
    [sample_capability]
    (capabilities (db (snd (transition_capability sample_runtime (c_uri sample_capability) ''retired''
      ''ann'' ''asg'' [] True (sample_conn (empty_database\<lparr>capabilities := [sample_capability]\<rparr>))))))"
proof -
  let ?con = "sample_conn (empty_database\<lparr>capabilities := [sample_capability]\<rparr>)"
  have "lifecycle_step\<^sup>*\<^sup>* ?con (snd (transition_capability sample_runtime (c_uri sample_capability)
      ''retired'' ''ann'' ''asg'' [] True ?con))"
    by (intro r_into_rtranclp lifecycle_step.capability)
  from lifecycle_history_invariant [OF this, THEN conjunct1]
  have "list_all2 (\<lambda>c c'. c_lifecycle c = ''active'' \<longrightarrow>
      c_lifecycle c' \<notin> {''disabled'', ''deleted'', ''recalled'', ''yanked''}) [sample_capability]
    (capabilities (db (snd (transition_capability sample_runtime (c_uri sample_capability) ''retired''
      ''ann'' ''asg'' [] True ?con))))"
    by (auto simp: sample_conn_def empty_database_def elim: list_all2_mono)
  then show ?thesis by (auto simp: list_all2_Cons1 sample_capability_def)
qed

text \<open>A transfer is what the owner map shows: after a successful transfer_namespace the owner
  map of the tenant is the old one with the owner of that namespace replaced and nothing else
  (same order, same stores, same capability counts), every capability of the namespace in the
  tenant belongs to the new owner, and one audit row names the old and the new owner.\<close>

theorem transfer_namespace_refines_owner_map:
  fixes con nsid new_owner rt actor tenant reason cm
  defines "r \<equiv> transfer_namespace rt nsid new_owner actor tenant reason cm con"
  assumes "find (\<lambda>n. ns_id n = nsid \<and> ns_tenant n = tenant) (namespaces (db con)) = Some row"
    and "ns_owner row \<noteq> new_owner"
  shows "(namespace_owner_map (snd r) tenant
      = map (\<lambda>e. if om_id e = nsid then e\<lparr>om_owner := new_owner\<rparr> else e) (namespace_owner_map con tenant))
    \<and> (\<forall>c \<in> set (capabilities (db (snd r))). c_namespace_id c = Some nsid \<and> c_tenant_id c = tenant
      \<longrightarrow> c_owner c = new_owner)
    \<and> (\<exists>ev. audit_events (db (snd r)) = audit_events (db con) @ [ev]
      \<and> ae_payload ev = JObj [(''namespaceName'', JStr (ns_name row)),
          (''fromOwner'', JStr (ns_owner row)), (''toOwner'', JStr new_owner), (''reason'', JStr reason)])"
proof (intro conjI)
  obtain j where r: "r = (Inr j,
    commit_if cm (insert_audit rt tenant ''namespace.transfer'' actor nsid ''transfer''
      (JObj [(''namespaceName'', JStr (ns_name row)), (''fromOwner'', JStr (ns_owner row)),
         (''toOwner'', JStr new_owner), (''reason'', JStr reason)])
      (with_db (\<lambda>d. d\<lparr>capabilities := update_where
           (\<lambda>c. c_namespace_id c = Some nsid \<and> c_tenant_id c = tenant)
           (c_owner_update (\<lambda>_. new_owner)) (capabilities d)\<rparr>)
        (with_db (\<lambda>d. d\<lparr>namespaces := update_where (\<lambda>n. ns_id n = nsid)
           (ns_owner_update (\<lambda>_. new_owner)) (namespaces d)\<rparr>) con))))"
    unfolding r_def by (rule transfer_effect [OF assms(2,3)])
  show "namespace_owner_map (snd r) tenant
      = map (\<lambda>e. if om_id e = nsid then e\<lparr>om_owner := new_owner\<rparr> else e) (namespace_owner_map con tenant)"
    by (simp add: r namespace_owner_map_def Let_def filter_update_where order_by_update_where
        rowcount_update_where) (simp add: update_where_def)
  show "\<forall>c \<in> set (capabilities (db (snd r))). c_namespace_id c = Some nsid \<and> c_tenant_id c = tenant
      \<longrightarrow> c_owner c = new_owner"
    by (simp add: r ball_update_where) blast
  show "\<exists>ev. audit_events (db (snd r)) = audit_events (db con) @ [ev]
      \<and> ae_payload ev = JObj [(''namespaceName'', JStr (ns_name row)),
          (''fromOwner'', JStr (ns_owner row)), (''toOwner'', JStr new_owner), (''reason'', JStr reason)]"
    by (simp add: r insert_audit_def Let_def case_prod_unfold)
qed

theorem transfer_namespace_refines_owner_map_witness:
  "map om_owner (namespace_owner_map (snd (transfer_namespace sample_runtime ''ns'' ''bob'' ''ann''
      ''asg'' [] True (sample_conn (empty_database\<lparr>namespaces :=
        [\<lparr>ns_id = ''ns'', ns_tenant = ''asg'', ns_store = ''s'', ns_name = ''n'', ns_uri_prefix = [],
          ns_visibility = ''internal'', ns_owner = ''ann'', ns_description = [],
          ns_lifecycle = ''active''\<rparr>]\<rparr>)))) ''asg'') = [''bob'']"
  by (subst transfer_namespace_refines_owner_map [THEN conjunct1])
    (auto simp: sample_conn_def empty_database_def namespace_owner_map_def Let_def order_by_def)

end
