(* ===== verification/Registry_Log.thy ===== *)
theory Registry_Log
  imports Access_Control "HOL-Library.Multiset"
begin

text \<open>
  The hash-chained log of registry mutations (\<^verbatim>\<open>registry_log.py\<close>) and the writer that mirrors
  capability events into it (\<^verbatim>\<open>governance.audit_event\<close>).

  The laws of a chain are the locale \<^verbatim>\<open>hash_chain\<close>, over an arbitrary digest whose values are
  not empty and contain no separator; its interpretation discharges them for SHA-256. No
  theorem assumes that SHA-256 has no collisions: tamper evidence is stated as "or else here is
  a collision".
\<close>

section \<open>Entries\<close>

definition entry_text ::
  "nat \<Rightarrow> string \<Rightarrow> string \<Rightarrow> string option \<Rightarrow> string \<Rightarrow> string \<Rightarrow> string option \<Rightarrow> string" where
  "entry_text sequence event_type actor target_uri action payload_json prev_hash =
     join_with ''|'' [str_of_nat sequence, event_type, actor, or_else target_uri [], action,
       payload_json, or_else prev_hash []]"

definition compute_entry_hash ::
  "nat \<Rightarrow> string \<Rightarrow> string \<Rightarrow> string option \<Rightarrow> string \<Rightarrow> string \<Rightarrow> string option \<Rightarrow> string" where
  "compute_entry_hash sequence event_type actor target_uri action payload_json prev_hash =
     sha256_hex (entry_text sequence event_type actor target_uri action payload_json prev_hash)"

text \<open>The head row: ORDER BY sequence DESC LIMIT 1.\<close>

definition log_head :: "database \<Rightarrow> log_row option" where
  "log_head d = (case order_by_desc rl_sequence (registry_log d) of [] \<Rightarrow> None | r # _ \<Rightarrow> Some r)"

text \<open>INSERT INTO registry_log: sequence and entry_hash are UNIQUE.\<close>

definition insert_log :: "log_row \<Rightarrow> conn \<Rightarrow> (conn, unit) outcome" where
  "insert_log row con =
     (if rl_sequence row \<in> rl_sequence ` set (registry_log (db con))
         \<or> rl_entry_hash row \<in> rl_entry_hash ` set (registry_log (db con))
      then (Inl (IntegrityError ''UNIQUE constraint failed: registry_log''), con)
      else (Inr (), with_db (\<lambda>d. d\<lparr>registry_log := registry_log d @ [row]\<rparr>) con))"

text \<open>The next row: the sequence after the head, chained to its hash.\<close>

definition next_log_row ::
  "runtime \<Rightarrow> string \<Rightarrow> string \<Rightarrow> string option \<Rightarrow> string \<Rightarrow> string \<Rightarrow> string \<Rightarrow> database \<Rightarrow> log_row" where
  "next_log_row rt entry_id event_type target_uri actor action payload_str d =
     (let (sequence, prev_hash) = (case log_head d of None \<Rightarrow> (1, None)
            | Some row \<Rightarrow> (rl_sequence row + 1, Some (rl_entry_hash row)))
      in \<lparr>rl_id = entry_id, rl_sequence = sequence, rl_event_type = event_type, rl_actor = actor,
          rl_target_uri = target_uri, rl_action = action, rl_payload = payload_str,
          rl_prev_hash = prev_hash,
          rl_entry_hash = compute_entry_hash sequence event_type actor target_uri action payload_str prev_hash,
          rl_created_at = utc_now rt\<rparr>)"

definition append_log_entry ::
  "runtime \<Rightarrow> string \<Rightarrow> string \<Rightarrow> string \<Rightarrow> string option \<Rightarrow> (string \<times> json) list \<Rightarrow> bool \<Rightarrow> conn \<Rightarrow>
   (conn, log_row) outcome" where
  "append_log_entry rt event_type actor action target_uri payload do_commit con =
     (let (entry_id, con1) = new_id rt ''rlog'' (ensure_table con);
          row = next_log_row rt entry_id event_type target_uri actor action
            (json_dumps (JObj payload)) (db con)
      in case insert_log row con1 of
           (Inl e, con2) \<Rightarrow> (Inl e, con2)
         | (Inr _, con2) \<Rightarrow> (Inr row, commit_if do_commit con2))"

record verification =
  ve_valid :: bool
  ve_entries :: nat
  ve_broken_at :: "nat option"
  ve_reason :: "string option"
  ve_last_hash :: "string option"

fun verify_rows :: "nat \<Rightarrow> string option \<Rightarrow> log_row list \<Rightarrow> verification" where
  "verify_rows n prev_hash [] = \<lparr>ve_valid = True, ve_entries = n, ve_broken_at = None,
     ve_reason = None, ve_last_hash = prev_hash\<rparr>"
| "verify_rows n prev_hash (row # rows) =
     (let actual_prev = (if truthy (rl_prev_hash row) then rl_prev_hash row else None) in
      if prev_hash \<noteq> actual_prev then
        \<lparr>ve_valid = False, ve_entries = n, ve_broken_at = Some (rl_sequence row),
         ve_reason = Some ''prev_hash mismatch'', ve_last_hash = None\<rparr>
      else if compute_entry_hash (rl_sequence row) (rl_event_type row) (rl_actor row)
                (if truthy (rl_target_uri row) then rl_target_uri row else None) (rl_action row)
                (rl_payload row) actual_prev \<noteq> rl_entry_hash row then
        \<lparr>ve_valid = False, ve_entries = n, ve_broken_at = Some (rl_sequence row),
         ve_reason = Some ''entry_hash mismatch'', ve_last_hash = None\<rparr>
      else verify_rows n (Some (rl_entry_hash row)) rows)"

definition verify_log_chain :: "conn \<Rightarrow> verification" where
  "verify_log_chain con =
     (let rows = order_by rl_sequence (registry_log (db con)) in
      if rows = [] then \<lparr>ve_valid = True, ve_entries = 0, ve_broken_at = None, ve_reason = None,
        ve_last_hash = None\<rparr>
      else verify_rows (length rows) None rows)"

text \<open>LIMIT and OFFSET; a negative OFFSET counts as 0.\<close>

definition list_log_entries :: "conn \<Rightarrow> int \<Rightarrow> int \<Rightarrow> string option \<Rightarrow> log_row list" where
  "list_log_entries con limit offset event_type =
     (let rows = (if truthy event_type
                  then filter (\<lambda>r. Some (rl_event_type r) = event_type) (registry_log (db con))
                  else registry_log (db con))
      in take (nat (min (max limit 1) 500)) (drop (nat offset) (order_by_desc rl_sequence rows)))"

record log_head_info =
  lh_empty :: bool
  lh_sequence :: nat
  lh_hash :: "string option"
  lh_created_at :: "string option"

definition get_log_head :: "conn \<Rightarrow> log_head_info" where
  "get_log_head con =
     (case log_head (db con) of
        None \<Rightarrow> \<lparr>lh_empty = True, lh_sequence = 0, lh_hash = None, lh_created_at = None\<rparr>
      | Some row \<Rightarrow> \<lparr>lh_empty = False, lh_sequence = rl_sequence row,
          lh_hash = Some (rl_entry_hash row), lh_created_at = Some (rl_created_at row)\<rparr>)"

section \<open>governance.audit\_event\<close>

definition mirrored :: "string \<Rightarrow> string option \<Rightarrow> bool" where
  "mirrored event_type action =
     (startswith event_type ''capability.'' \<and> truthy action
      \<and> action \<notin> {Some ''read'', Some ''list'', Some ''status''})"

text \<open>The exception of a failed mirror is swallowed.\<close>

definition mirror_to_log ::
  "runtime \<Rightarrow> string \<Rightarrow> string \<Rightarrow> string option \<Rightarrow> string \<Rightarrow> string option \<Rightarrow> string option \<Rightarrow>
   (string \<times> json) list \<Rightarrow> conn \<Rightarrow> conn" where
  "mirror_to_log rt event_type actor target action decision reason payload con =
     (let payload_str = json_dumps (JObj (dict_merge
            [(''decision'', json_opt decision), (''reason'', json_opt reason)] payload));
          (entry_id, con1) = new_id rt ''rlog'' con;
          row = next_log_row rt entry_id event_type target actor action payload_str (db con)
      in snd (insert_log row con1))"

definition audit_event ::
  "runtime \<Rightarrow> string \<Rightarrow> string \<Rightarrow> string option \<Rightarrow> string option \<Rightarrow> string option \<Rightarrow> string option \<Rightarrow>
   (string \<times> json) list \<Rightarrow> string \<Rightarrow> string \<Rightarrow> conn \<Rightarrow> string \<times> conn" where
  "audit_event rt event_type actor target action decision reason payload tenant_id actor_type con =
     (let (event_id, con1) = new_id rt ''aud'' con;
          con2 = with_db (\<lambda>d. d\<lparr>audit_events := audit_events d @
            [\<lparr>ae_id = event_id, ae_tenant = tenant_id, ae_event_type = event_type, ae_actor = actor,
              ae_actor_type = actor_type, ae_target = target, ae_action = action,
              ae_decision = decision, ae_reason = reason, ae_payload = JObj payload,
              ae_created_at = sql_now rt\<rparr>]\<rparr>) con1
      in (event_id,
          if mirrored event_type action
          then mirror_to_log rt event_type actor target (the action) decision reason payload con2
          else con2))"

section \<open>Chains\<close>

lemma or_else_or_opt: "or_else (or_opt x None) [] = or_else x []"
  by (cases x) (auto simp: or_opt_def)

lemma takeWhile_last_field:
  assumes "d \<notin> set u"
  shows "takeWhile (\<lambda>c. c \<noteq> d) (rev (a @ [d] @ u)) = rev u"
  using assms by (induction u arbitrary: a rule: rev_induct) auto

text \<open>The field after the last separator is determined by the text.\<close>

lemma last_field_unique:
  assumes "a @ [d] @ u = b @ [d] @ v" "d \<notin> set u" "d \<notin> set v"
  shows "a = b \<and> u = v"
proof -
  have "rev u = rev v" by (metis takeWhile_last_field assms)
  with assms(1) show ?thesis by simp
qed

text \<open>
  An entry has a serialised body, to which the hash of its predecessor (empty for the first) is
  joined before the digest is taken.
\<close>

locale hash_chain =
  fixes digest :: "string \<Rightarrow> string" and body :: "'e \<Rightarrow> string"
    and stored :: "'e \<Rightarrow> string" and prev :: "'e \<Rightarrow> string option"
  assumes digest_nonempty: "digest t \<noteq> []"
    and digest_no_bar: "CHR ''|'' \<notin> set (digest t)"
begin

fun chained :: "string option \<Rightarrow> 'e list \<Rightarrow> bool" where
  "chained p [] = True"
| "chained p (e # es) = (or_opt (prev e) None = p
     \<and> stored e = digest (body e @ ''|'' @ or_else p []) \<and> chained (Some (stored e)) es)"

definition tip :: "string option \<Rightarrow> 'e list \<Rightarrow> string option" where
  "tip p es = (if es = [] then p else Some (stored (last es)))"

lemma chained_append:
  "chained p (es @ fs) \<longleftrightarrow> chained p es \<and> chained (tip p es) fs"
  by (induction es arbitrary: p) (auto simp: tip_def)

definition full :: "'e \<Rightarrow> string" where
  "full e = body e @ ''|'' @ or_else (prev e) []"

lemma chained_full: "chained p es \<Longrightarrow> e \<in> set es \<Longrightarrow> stored e = digest (full e)"
proof (induction p es rule: chained.induct)
  case (2 p e' es)
  with or_else_or_opt [of "prev e'"] show ?case by (auto simp: full_def)
qed simp

text \<open>Two chains with the same tip carry the same entries, or two of their entries at the same
  place are a collision of the digest.\<close>

lemma same_tip:
  assumes "chained None es" "chained None fs" "length es = length fs" "tip None es = tip None fs"
  shows "map body es = map body fs \<or>
    (\<exists>(e, f) \<in> set (zip es fs). full e \<noteq> full f \<and> digest (full e) = digest (full f))"
  using assms
proof (induction es arbitrary: fs rule: rev_induct)
  case Nil
  then show ?case by simp
next
  case (snoc e es)
  then obtain fs' f where fs: "fs = fs' @ [f]" "length es = length fs'"
    by (cases fs rule: rev_cases) auto
  have ch: "chained None es" "chained None fs'"
      "stored e = digest (body e @ ''|'' @ or_else (tip None es) [])"
      "stored f = digest (body f @ ''|'' @ or_else (tip None fs') [])"
    using snoc.prems(1,2) by (auto simp: fs chained_append)
  have eq: "stored e = stored f" using snoc.prems(4) by (simp add: fs tip_def)
  have bar: "CHR ''|'' \<notin> set (or_else (tip None gs) [])" if "chained None gs" for gs
    using that digest_no_bar
    by (cases gs rule: rev_cases) (auto simp: tip_def chained_append or_else_def)
  have tip_some: "tip None gs = Some x \<Longrightarrow> chained None gs \<Longrightarrow> x \<noteq> []" for gs x
    using digest_nonempty by (cases gs rule: rev_cases) (auto simp: tip_def chained_append)
  have fl: "full e = body e @ ''|'' @ or_else (tip None es) []" "full f = body f @ ''|'' @ or_else (tip None fs') []"
    using snoc.prems(1,2) or_else_or_opt [of "prev e"] or_else_or_opt [of "prev f"]
    by (auto simp: fs chained_append full_def)
  show ?case
  proof (cases "full e = full f")
    case True
    note True [unfolded fl]
    then have True: "body e @ [CHR ''|''] @ or_else (tip None es) [] = body f @ [CHR ''|''] @ or_else (tip None fs') []" by simp
    from last_field_unique [OF True bar [OF ch(1)] bar [OF ch(2)]]
    have b: "body e = body f" "or_else (tip None es) [] = or_else (tip None fs') []" by auto
    then have "tip None es = tip None fs'"
      using tip_some [OF _ ch(1)] tip_some [OF _ ch(2)]
      by (cases "tip None es"; cases "tip None fs'") (auto simp: or_else_def split: if_splits)
    from snoc.IH [OF ch(1,2) fs(2) this] show ?thesis using fs(2) by (auto simp: fs(1) b)
  next
    case False
    with ch(3,4) eq fs(2) show ?thesis by (auto simp: fs(1) fl)
  qed
qed

end

section \<open>SHA-256 digests as chain links\<close>

lemma length_sha_round: "length s = 8 \<Longrightarrow> length (sha_round s kw) = 8"
  by (cases "(s, kw)" rule: sha_round.cases) (auto simp: Let_def)

lemma length_sha_rounds: "length s = 8 \<Longrightarrow> length (foldl sha_round s xs) = 8"
  by (induction xs arbitrary: s) (simp_all add: length_sha_round)

lemma length_compress: "length h = 8 \<Longrightarrow> length (compress h b) = 8"
  by (simp add: compress_def length_sha_rounds)

lemma length_foldl_compress: "length h = 8 \<Longrightarrow> length (foldl compress h bs) = 8"
  by (induction bs arbitrary: h) (simp_all add: length_compress)

lemma length_concat_const: "\<forall>x \<in> set xs. length (f x) = k \<Longrightarrow> length (concat (map f xs)) = k * length xs"
  by (induction xs) auto

lemma length_sha256_hex: "length (sha256_hex s) = 64"
proof -
  have "length (sha256_words m) = 8" for m
    by (simp add: sha256_words_def Let_def length_foldl_compress sha_h0_def)
  then have "length (sha256_bytes m) = 32" for m
    by (simp add: sha256_bytes_def length_concat_const [where k = 4] word_bytes_def)
  then show ?thesis
    by (simp add: sha256_hex_def hexdigest_bytes_def length_concat_const [where k = 2] hex_byte_def)
qed

lemma hex_digit_not_bar: "n < 16 \<Longrightarrow> hex_digit n \<noteq> CHR ''|''"
  by (auto simp: hex_digit_def dest: arg_cong [where f = "of_char :: char \<Rightarrow> nat"])

lemma sha256_bytes_less: "b \<in> set (sha256_bytes m) \<Longrightarrow> b < 256"
proof -
  have "unat (take_bit 8 (w :: u32)) < 256" for w
    using unsigned_take_bit_eq [of 8 w, where ?'a = nat] take_bit_nat_less_exp [of 8 "unat w"] by simp
  then show "b \<in> set (sha256_bytes m) \<Longrightarrow> b < 256" by (auto simp: sha256_bytes_def word_bytes_def)
qed

lemma sha256_hex_no_bar: "CHR ''|'' \<notin> set (sha256_hex s)"
proof
  assume "CHR ''|'' \<in> set (sha256_hex s)"
  then obtain b where b: "b \<in> set (sha256_bytes (utf8 s))" "CHR ''|'' \<in> set (hex_byte b)"
    by (auto simp: sha256_hex_def hexdigest_bytes_def)
  then have "b < 256" by (simp add: sha256_bytes_less)
  then have "b div 16 < 16" by (simp add: div_less_iff_less_mult)
  with b(2) show False using hex_digit_not_bar [of "b div 16"] hex_digit_not_bar [of "b mod 16"]
    by (auto simp: hex_byte_def)
qed

text \<open>The part of an entry that precedes the hash of its predecessor.\<close>

definition entry_body :: "log_row \<Rightarrow> string" where
  "entry_body r = join_with ''|'' [str_of_nat (rl_sequence r), rl_event_type r, rl_actor r,
     or_else (rl_target_uri r) [], rl_action r, rl_payload r]"

interpretation log: hash_chain sha256_hex entry_body rl_entry_hash rl_prev_hash
proof unfold_locales
  show "sha256_hex t \<noteq> []" for t using length_sha256_hex [of t] by auto
  show "CHR ''|'' \<notin> set (sha256_hex t)" for t by (rule sha256_hex_no_bar)
qed

lemma entry_text_body:
  "entry_text (rl_sequence r) (rl_event_type r) (rl_actor r)
     (if truthy (rl_target_uri r) then rl_target_uri r else None) (rl_action r) (rl_payload r) p
   = entry_body r @ ''|'' @ or_else p []"
  by (cases "rl_target_uri r") (auto simp: entry_text_def entry_body_def)

lemma verify_rows_valid: "ve_valid (verify_rows n p rows) \<longleftrightarrow> log.chained p rows"
proof (induction n p rows rule: verify_rows.induct)
  case (2 n p row rows)
  then show ?case by (auto simp: Let_def or_opt_def compute_entry_hash_def entry_text_body)
qed simp

lemma verify_rows_tip:
  "log.chained p rows \<Longrightarrow> verify_rows n p rows = \<lparr>ve_valid = True, ve_entries = n,
     ve_broken_at = None, ve_reason = None, ve_last_hash = log.tip p rows\<rparr>"
proof (induction n p rows rule: verify_rows.induct)
  case (2 n p row rows)
  then show ?case
    by (auto simp: Let_def or_opt_def compute_entry_hash_def entry_text_body log.tip_def)
qed (simp add: log.tip_def)

abbreviation log_rows :: "conn \<Rightarrow> log_row list" where
  "log_rows con \<equiv> order_by rl_sequence (registry_log (db con))"

lemma verify_log_chain_iff: "ve_valid (verify_log_chain con) \<longleftrightarrow> log.chained None (log_rows con)"
  by (simp add: verify_log_chain_def Let_def verify_rows_valid)

lemma verify_log_chain_tip:
  "log.chained None (log_rows con) \<Longrightarrow> ve_last_hash (verify_log_chain con) = log.tip None (log_rows con)
     \<and> ve_entries (verify_log_chain con) = length (log_rows con)"
  by (simp add: verify_log_chain_def Let_def verify_rows_tip log.tip_def)

section \<open>Appending\<close>

lemma order_by_desc_distinct:
  assumes "distinct (map k t)"
  shows "order_by_desc k t = rev (order_by k t)"
proof -
  have "sort_key k (rev t) = sort_key k t"
  proof (rule properties_for_sort_key)
    show "mset (sort_key k t) = mset (rev t)" by simp
    show "sorted (map k (sort_key k t))" by simp
    fix r assume "r \<in> set (sort_key k t)"
    then have r: "r \<in> set t" by simp
    have f: "(\<lambda>x. k r = k x) = (\<lambda>x. k x = k r)" by auto
    have d: "distinct (map k (sort_key k t))" "distinct (map k (rev t))"
      using assms by (simp_all add: distinct_map rev_map)
    show "filter (\<lambda>x. k r = k x) (sort_key k t) = filter (\<lambda>x. k r = k x) (rev t)"
      unfolding f using filter_key_singleton [OF d(1), of r] filter_key_singleton [OF d(2), of r] r by simp
  qed
  then show ?thesis by (simp add: order_by_desc_def order_by_def)
qed

lemma order_by_snoc:
  assumes "\<forall>x \<in> set t. k x \<le> k r"
  shows "order_by k (t @ [r]) = order_by k t @ [r]"
proof -
  have ins: "insort_key k x (ys @ [r]) = insort_key k x ys @ [r]" if "k x \<le> k r" for x ys
    using that by (induction ys) auto
  from assms show ?thesis by (induction t) (auto simp: order_by_def ins)
qed

lemma last_order_by:
  assumes "t \<noteq> []"
  shows "last (order_by k t) \<in> set t" "\<forall>x \<in> set t. k x \<le> k (last (order_by k t))"
proof -
  let ?s = "order_by k t"
  have ne: "?s \<noteq> []" using assms by (metis set_empty set_order_by)
  then show "last ?s \<in> set t" by (metis last_in_set set_order_by)
  have sorted: "sorted (map k ?s)" by (simp add: order_by_def)
  show "\<forall>x \<in> set t. k x \<le> k (last ?s)"
  proof
    fix x assume "x \<in> set t"
    then have "x \<in> set (butlast ?s @ [last ?s])" using ne by simp
    moreover have "sorted (map k (butlast ?s @ [last ?s]))" using sorted ne by simp
    ultimately show "k x \<le> k (last ?s)" by (auto simp: sorted_append simp del: append_butlast_last_id)
  qed
qed

definition log_ok :: "database \<Rightarrow> bool" where
  "log_ok d = (distinct (map rl_sequence (registry_log d))
     \<and> log.chained None (order_by rl_sequence (registry_log d)))"

lemma log_head_last:
  assumes "distinct (map rl_sequence (registry_log d))"
  shows "log_head d = (if registry_log d = [] then None
     else Some (last (order_by rl_sequence (registry_log d))))"
proof (cases "registry_log d = []")
  case False
  then have "order_by rl_sequence (registry_log d) \<noteq> []" by (metis set_empty set_order_by)
  with False show ?thesis
    by (simp add: log_head_def order_by_desc_distinct [OF assms] split: list.splits)
qed (simp add: log_head_def order_by_desc_def)

lemma entry_text_next:
  "entry_text s et a t act pl p = join_with ''|'' [str_of_nat s, et, a, or_else t [], act, pl] @ ''|'' @ or_else p []"
  by (simp add: entry_text_def)

lemma next_log_row_ok:
  assumes ok: "log_ok d"
    and row: "row = next_log_row rt i et t a act pl d"
  shows "\<forall>r \<in> set (registry_log d). rl_sequence r < rl_sequence row"
    and "log.chained None (order_by rl_sequence (registry_log d @ [row]))"
proof -
  let ?rows = "order_by rl_sequence (registry_log d)"
  have dist: "distinct (map rl_sequence (registry_log d))" and ch: "log.chained None ?rows"
    using ok by (auto simp: log_ok_def)
  note head = log_head_last [OF dist]
  show less: "\<forall>r \<in> set (registry_log d). rl_sequence r < rl_sequence row"
  proof (cases "registry_log d = []")
    case False
    then have "rl_sequence row = Suc (rl_sequence (last ?rows))"
      by (simp add: row next_log_row_def head)
    with last_order_by(2) [OF False, of rl_sequence] show ?thesis by (auto simp: less_Suc_eq_le)
  qed simp
  have prev: "rl_prev_hash row = log.tip None ?rows"
    by (simp add: row next_log_row_def head log.tip_def)
      (metis set_empty set_order_by)
  have nonempty: "or_opt (log.tip None ?rows) None = log.tip None ?rows"
    using ch log.digest_nonempty
    by (cases ?rows rule: rev_cases) (auto simp: log.tip_def or_opt_def log.chained_append)
  have hash: "rl_entry_hash row = sha256_hex (entry_body row @ ''|'' @ or_else (rl_prev_hash row) [])"
    by (simp add: row next_log_row_def entry_body_def compute_entry_hash_def entry_text_next Let_def
        split: option.splits)
  have "order_by rl_sequence (registry_log d @ [row]) = ?rows @ [row]"
    using less by (intro order_by_snoc) auto
  with ch prev nonempty hash show "log.chained None (order_by rl_sequence (registry_log d @ [row]))"
    by (simp add: log.chained_append)
qed

lemma audit_event_tables [simp]:
  "role_assignments (db (snd (audit_event rt et a t act dec r pl ten ty con))) = role_assignments (db con)"
  "capabilities (db (snd (audit_event rt et a t act dec r pl ten ty con))) = capabilities (db con)"
  "shares (db (snd (audit_event rt et a t act dec r pl ten ty con))) = shares (db con)"
  "relationship_tuples (db (snd (audit_event rt et a t act dec r pl ten ty con))) = relationship_tuples (db con)"
  "stores (db (snd (audit_event rt et a t act dec r pl ten ty con))) = stores (db con)"
  "namespaces (db (snd (audit_event rt et a t act dec r pl ten ty con))) = namespaces (db con)"
  "organizations (db (snd (audit_event rt et a t act dec r pl ten ty con))) = organizations (db con)"
  "tenants (db (snd (audit_event rt et a t act dec r pl ten ty con))) = tenants (db con)"
  "identities (db (snd (audit_event rt et a t act dec r pl ten ty con))) = identities (db con)"
  "promotion_requests (db (snd (audit_event rt et a t act dec r pl ten ty con))) = promotion_requests (db con)"
  "approval_steps (db (snd (audit_event rt et a t act dec r pl ten ty con))) = approval_steps (db con)"
  "capability_reviews (db (snd (audit_event rt et a t act dec r pl ten ty con))) = capability_reviews (db con)"
  "promotion_gate_runs (db (snd (audit_event rt et a t act dec r pl ten ty con))) = promotion_gate_runs (db con)"
  "capguard_quarantine (db (snd (audit_event rt et a t act dec r pl ten ty con))) = capguard_quarantine (db con)"
  "group_rows (db (snd (audit_event rt et a t act dec r pl ten ty con))) = group_rows (db con)"
  "group_members (db (snd (audit_event rt et a t act dec r pl ten ty con))) = group_members (db con)"
  "scim_sync_state (db (snd (audit_event rt et a t act dec r pl ten ty con))) = scim_sync_state (db con)"
  "capguard_attestations (db (snd (audit_event rt et a t act dec r pl ten ty con))) = capguard_attestations (db con)"
  "capmesh_sessions (db (snd (audit_event rt et a t act dec r pl ten ty con))) = capmesh_sessions (db con)"
  "oauth_sessions (db (snd (audit_event rt et a t act dec r pl ten ty con))) = oauth_sessions (db con)"
  "entra_group_bindings (db (snd (audit_event rt et a t act dec r pl ten ty con))) = entra_group_bindings (db con)"
  "durable (snd (audit_event rt et a t act dec r pl ten ty con)) = durable con"
  by (simp_all add: audit_event_def mirror_to_log_def insert_log_def Let_def case_prod_unfold)

lemma insert_log_ok:
  assumes "log_ok (db con)" "row = next_log_row rt i et t a act pl (db con)"
    and "db con1 = db con"
  shows "log_ok (db (snd (insert_log row con1)))"
proof -
  note n = next_log_row_ok [OF assms(1,2)]
  show ?thesis
    using assms(1) n by (auto simp: insert_log_def assms(3) log_ok_def)
qed

text \<open>Any history of writers, with any arguments.\<close>

inductive log_step :: "conn \<Rightarrow> conn \<Rightarrow> bool" where
  append: "log_step con (snd (append_log_entry rt event_type actor action target payload cm con))"
| event: "log_step con (snd (audit_event rt event_type actor target action decision reason payload tenant actor_type con))"

lemma append_log_entry_ok:
  assumes "log_ok (db con)"
  shows "log_ok (db (snd (append_log_entry rt et a act t pl cm con)))"
proof -
  let ?new = "new_id rt ''rlog'' (ensure_table con)"
  let ?row = "next_log_row rt (fst ?new) et t a act (json_dumps (JObj pl)) (db con)"
  have "log_ok (db (snd (insert_log ?row (snd ?new))))"
    by (rule insert_log_ok [OF assms refl]) simp
  then show ?thesis
    by (auto simp: append_log_entry_def Let_def case_prod_unfold split: sum.splits)
qed

lemma mirror_to_log_ok:
  assumes "log_ok (db con)"
  shows "log_ok (db (mirror_to_log rt et a t act dec r pl con))"
  unfolding mirror_to_log_def Let_def case_prod_unfold by (rule insert_log_ok [OF assms refl]) simp

lemma audit_event_ok:
  assumes "log_ok (db con)"
  shows "log_ok (db (snd (audit_event rt et a t act dec r pl ten ty con)))"
  using assms by (auto simp: audit_event_def Let_def case_prod_unfold log_ok_def
      intro!: mirror_to_log_ok [unfolded log_ok_def])

lemma log_step_ok: "log_step con con' \<Longrightarrow> log_ok (db con) \<Longrightarrow> log_ok (db con')"
  by (auto elim!: log_step.cases intro: append_log_entry_ok audit_event_ok)

lemma log_history_ok: "log_step\<^sup>*\<^sup>* con con' \<Longrightarrow> log_ok (db con) \<Longrightarrow> log_ok (db con')"
  by (induction rule: rtranclp_induct) (auto dest: log_step_ok)

lemma verify_rows_Cons:
  "verify_rows n p (row # rows) =
     (if p \<noteq> or_opt (rl_prev_hash row) None then
        \<lparr>ve_valid = False, ve_entries = n, ve_broken_at = Some (rl_sequence row),
         ve_reason = Some ''prev_hash mismatch'', ve_last_hash = None\<rparr>
      else if sha256_hex (entry_body row @ ''|'' @ or_else p []) \<noteq> rl_entry_hash row then
        \<lparr>ve_valid = False, ve_entries = n, ve_broken_at = Some (rl_sequence row),
         ve_reason = Some ''entry_hash mismatch'', ve_last_hash = None\<rparr>
      else verify_rows n (Some (rl_entry_hash row)) rows)"
  by (simp add: compute_entry_hash_def entry_text_body or_opt_def Let_def)

lemma verify_rows_forged:
  assumes "\<And>r. P r \<Longrightarrow> r \<in> set rows \<Longrightarrow> entry_body (f r) = entry_body r"
    and "\<And>r. rl_sequence (f r) = rl_sequence r \<and> rl_prev_hash (f r) = rl_prev_hash r
      \<and> rl_entry_hash (f r) = rl_entry_hash r"
  shows "verify_rows n p (update_where P f rows) = verify_rows n p rows"
  using assms
  by (induction rows arbitrary: p) (simp_all add: update_where_Cons verify_rows_Cons del: verify_rows.simps(2))

lemma next_log_row_audit [simp]:
  "next_log_row rt i et t a act pl (d\<lparr>audit_events := x\<rparr>) = next_log_row rt i et t a act pl d"
  by (simp add: next_log_row_def log_head_def)

definition extend_log :: "log_row \<Rightarrow> log_row list \<Rightarrow> log_row list" where
  "extend_log row t = (if rl_sequence row \<in> rl_sequence ` set t \<or> rl_entry_hash row \<in> rl_entry_hash ` set t
     then t else t @ [row])"

lemma insert_log_table: "registry_log (db (snd (insert_log row con))) = extend_log row (registry_log (db con))"
  by (simp add: insert_log_def extend_log_def)

lemma mirror_to_log_table:
  "\<exists>i pl. registry_log (db (mirror_to_log rt et a t act dec r p con)) =
     extend_log (next_log_row rt i et t a act pl (db con)) (registry_log (db con))"
  unfolding mirror_to_log_def Let_def case_prod_unfold insert_log_table new_id_simps
  by (intro exI) (rule refl)

lemma audit_event_log:
  assumes "mirrored et (Some act)"
  shows "\<exists>i pl. registry_log (db (snd (audit_event rt et a t (Some act) dec r p ten ty con))) =
     extend_log (next_log_row rt i et t a act pl (db con)) (registry_log (db con))"
proof -
  let ?con1 = "with_db (\<lambda>d. d\<lparr>audit_events := audit_events d @
      [\<lparr>ae_id = fst (new_id rt ''aud'' con), ae_tenant = ten, ae_event_type = et, ae_actor = a,
        ae_actor_type = ty, ae_target = t, ae_action = Some act, ae_decision = dec,
        ae_reason = r, ae_payload = JObj p, ae_created_at = sql_now rt\<rparr>]\<rparr>) (snd (new_id rt ''aud'' con))"
  have "snd (audit_event rt et a t (Some act) dec r p ten ty con) = mirror_to_log rt et a t act dec r p ?con1"
    using assms by (simp add: audit_event_def Let_def case_prod_unfold)
  with mirror_to_log_table [of rt et a t act dec r p ?con1] show ?thesis by simp
qed

section \<open>Properties\<close>

text \<open>C8. Whatever is appended by append_log_entry and audit_event, with any arguments and in any
  order, a log that starts empty always passes verify_log_chain, with all its rows counted.\<close>

theorem registry_log_always_verifies:
  assumes "log_step\<^sup>*\<^sup>* con con'" "registry_log (db con) = []"
  shows "(ve_valid (verify_log_chain con'))
    \<and> (ve_entries (verify_log_chain con') = length (registry_log (db con')))"
proof (intro conjI)
  have "log_ok (db con)" using assms(2) by (simp add: log_ok_def order_by_def)
  then have ok: "log.chained None (log_rows con')"
    using log_history_ok [OF assms(1)] by (simp add: log_ok_def)
  then show "ve_valid (verify_log_chain con')" by (simp add: verify_log_chain_iff)
  from verify_log_chain_tip [OF ok]
  show "ve_entries (verify_log_chain con') = length (registry_log (db con'))" by (simp add: order_by_def)
qed

theorem registry_log_always_verifies_witness:
  "ve_valid (verify_log_chain (snd (append_log_entry sample_runtime ''capability.ingest'' ''ann''
     ''create'' (Some ''cap://a'') [] True (sample_conn empty_database))))"
  by (rule registry_log_always_verifies [OF r_into_rtranclp, THEN conjunct1])
    (rule log_step.append, simp add: sample_conn_def empty_database_def)

text \<open>The fields of an entry that its text carries; the time of the entry is not among them.\<close>

definition hashed_fields :: "log_row \<Rightarrow> nat \<times> string \<times> string \<times> string \<times> string \<times> string" where
  "hashed_fields r = (rl_sequence r, rl_event_type r, rl_actor r, or_else (rl_target_uri r) [], rl_action r, rl_payload r)"

definition bar_free :: "log_row \<Rightarrow> bool" where
  "bar_free r = (CHR ''|'' \<notin> set (rl_event_type r) \<and> CHR ''|'' \<notin> set (rl_actor r)
     \<and> CHR ''|'' \<notin> set (or_else (rl_target_uri r) []) \<and> CHR ''|'' \<notin> set (rl_action r))"

lemma split_at_bar:
  "\<lbrakk>x @ c # y = x' @ c # y'; c \<notin> set x; c \<notin> set x'\<rbrakk> \<Longrightarrow> x = x' \<and> y = y'"
proof (induction x arbitrary: x')
  case Nil
  then show ?case by (cases x') auto
next
  case (Cons a x)
  then show ?case by (cases x') auto
qed

lemma entry_body_fields:
  assumes "entry_body r = entry_body r'" "bar_free r" "bar_free r'"
  shows "hashed_fields r = hashed_fields r'"
proof -
  have n: "CHR ''|'' \<notin> set (str_of_nat k)" for k by (simp add: str_of_nat_no_char ascii_digit_def)
  have eq: "str_of_nat (rl_sequence r) @ CHR ''|'' # rl_event_type r @ CHR ''|'' # rl_actor r @ CHR ''|'' #
      or_else (rl_target_uri r) [] @ CHR ''|'' # rl_action r @ CHR ''|'' # rl_payload r
    = str_of_nat (rl_sequence r') @ CHR ''|'' # rl_event_type r' @ CHR ''|'' # rl_actor r' @ CHR ''|'' #
      or_else (rl_target_uri r') [] @ CHR ''|'' # rl_action r' @ CHR ''|'' # rl_payload r'"
    using assms(1) by (simp add: entry_body_def)
  note free = assms(2,3) [unfolded bar_free_def]
  note e1 = split_at_bar [OF eq n n]
  note e2 = split_at_bar [OF e1 [THEN conjunct2] conjunct1 [OF free(1)] conjunct1 [OF free(2)]]
  have e3: "rl_actor r = rl_actor r' \<and> or_else (rl_target_uri r) [] @ CHR ''|'' # rl_action r @ CHR ''|'' # rl_payload r
      = or_else (rl_target_uri r') [] @ CHR ''|'' # rl_action r' @ CHR ''|'' # rl_payload r'"
    using free by (intro split_at_bar [OF e2 [THEN conjunct2]]) simp_all
  have e4: "or_else (rl_target_uri r) [] = or_else (rl_target_uri r') []
      \<and> rl_action r @ CHR ''|'' # rl_payload r = rl_action r' @ CHR ''|'' # rl_payload r'"
    using free by (intro split_at_bar [OF e3 [THEN conjunct2]]) simp_all
  have e5: "rl_action r = rl_action r' \<and> rl_payload r = rl_payload r'"
    using free by (intro split_at_bar [OF e4 [THEN conjunct2]]) simp_all
  show ?thesis
    using conjunct1 [OF e1] conjunct1 [OF e2] conjunct1 [OF e3] conjunct1 [OF e4] e5
    by (simp only: hashed_fields_def str_of_nat_inj)
qed

lemma map_entry_body_fields:
  assumes "map entry_body es = map entry_body fs" "list_all bar_free es" "list_all bar_free fs"
  shows "map hashed_fields es = map hashed_fields fs"
  using assms
proof (induction es arbitrary: fs)
  case (Cons e es)
  then obtain f gs where fs: "fs = f # gs" "entry_body e = entry_body f" "map entry_body es = map entry_body gs"
    by (cases fs) (simp_all only: list.map list.distinct list.inject simp_thms)
  then have "hashed_fields e = hashed_fields f" "map hashed_fields es = map hashed_fields gs"
    using Cons.prems(2,3) entry_body_fields [OF fs(2)] Cons.IH [OF fs(3)] by (simp_all add: fs(1))
  then show ?case by (simp add: fs(1))
qed simp

text \<open>C19. Tamper evidence. Take two logs that both verify, with the same number of entries and the same
  last hash. Either two entries at the same place are distinct hashed texts with the same SHA-256 digest,
  or all the hashed texts agree one by one; and then, when no event type, actor, target or action of the
  two logs contains the bar that separates the fields, the entries agree in sequence number, event type,
  actor, target, action and payload. The time of an entry is not hashed, and a bar inside a field lets its
  boundary move.\<close>

theorem verified_log_is_tamper_evident:
  assumes "ve_valid (verify_log_chain con)" "ve_valid (verify_log_chain con')"
    and "ve_entries (verify_log_chain con) = ve_entries (verify_log_chain con')"
    and "ve_last_hash (verify_log_chain con) = ve_last_hash (verify_log_chain con')"
  shows "(map entry_body (log_rows con) = map entry_body (log_rows con')
      \<and> (list_all bar_free (log_rows con) \<and> list_all bar_free (log_rows con')
          \<longrightarrow> map hashed_fields (log_rows con) = map hashed_fields (log_rows con'))) \<or>
    (\<exists>(e, f) \<in> set (zip (log_rows con) (log_rows con')).
       entry_body e @ ''|'' @ or_else (rl_prev_hash e) [] \<noteq> entry_body f @ ''|'' @ or_else (rl_prev_hash f) []
       \<and> sha256_hex (entry_body e @ ''|'' @ or_else (rl_prev_hash e) [])
           = sha256_hex (entry_body f @ ''|'' @ or_else (rl_prev_hash f) []))"
proof -
  from assms(1,2) have ch: "log.chained None (log_rows con)" "log.chained None (log_rows con')"
    by (simp_all add: verify_log_chain_iff)
  from log.same_tip [OF ch] assms(3,4) verify_log_chain_tip [OF ch(1)] verify_log_chain_tip [OF ch(2)]
  have "map entry_body (log_rows con) = map entry_body (log_rows con') \<or>
    (\<exists>(e, f) \<in> set (zip (log_rows con) (log_rows con')).
       entry_body e @ ''|'' @ or_else (rl_prev_hash e) [] \<noteq> entry_body f @ ''|'' @ or_else (rl_prev_hash f) []
       \<and> sha256_hex (entry_body e @ ''|'' @ or_else (rl_prev_hash e) [])
           = sha256_hex (entry_body f @ ''|'' @ or_else (rl_prev_hash f) []))"
    unfolding log.full_def by simp
  with map_entry_body_fields show ?thesis by blast
qed

theorem verified_log_is_tamper_evident_witness:
  "let con = snd (append_log_entry sample_runtime ''capability.ingest'' ''ann'' ''create''
       (Some ''cap://a'') [] True (sample_conn empty_database));
     con' = with_db (\<lambda>d. d\<lparr>registry_log := update_where (\<lambda>r. True) (rl_created_at_update (\<lambda>_. []))
       (registry_log d)\<rparr>) con
   in map entry_body (log_rows con) = map entry_body (log_rows con')"
proof -
  let ?con = "snd (append_log_entry sample_runtime ''capability.ingest'' ''ann'' ''create''
       (Some ''cap://a'') [] True (sample_conn empty_database))"
  let ?f = "rl_created_at_update (\<lambda>_. [])"
  let ?con' = "with_db (\<lambda>d. d\<lparr>registry_log := update_where (\<lambda>r. True) ?f (registry_log d)\<rparr>) ?con"
  have "log_ok (db (sample_conn empty_database))"
    by (simp add: log_ok_def order_by_def sample_conn_def empty_database_def)
  then have "log_ok (db ?con)" by (rule append_log_entry_ok)
  then have v: "ve_valid (verify_log_chain ?con)" by (simp add: log_ok_def verify_log_chain_iff)
  have rows: "log_rows ?con' = update_where (\<lambda>r. True) ?f (log_rows ?con)"
    by (simp add: order_by_update_where)
  have same: "verify_log_chain ?con' = verify_log_chain ?con"
    unfolding verify_log_chain_def rows Let_def
    by (subst verify_rows_forged) (auto simp: entry_body_def update_where_def)
  have body: "entry_body f = entry_body e \<and> rl_prev_hash f = rl_prev_hash e"
    if "(e, f) \<in> set (zip (log_rows ?con) (update_where (\<lambda>r. True) ?f (log_rows ?con)))" for e f
    using that by (auto simp: in_set_zip update_where_def entry_body_def)
  from verified_log_is_tamper_evident [of ?con ?con', unfolded same rows, OF v v refl refl] body
  have "map entry_body (log_rows ?con) = map entry_body (log_rows ?con')" unfolding rows by fastforce
  then show ?thesis unfolding Let_def .
qed

text \<open>What the chain does not see. Because the fields are joined by a bar that the fields may
  contain, and the time of an entry is not part of the digest, moving the boundary between actor
  and target of a row and rewriting its created_at leaves the result of verify_log_chain
  unchanged.\<close>

theorem moved_field_boundary_verifies:
  assumes "\<forall>r \<in> set (registry_log (db con)). P r \<longrightarrow>
      rl_actor r = a @ ''|'' @ b \<and> rl_target_uri r = Some c \<and> c \<noteq> []"
  shows "verify_log_chain (with_db (\<lambda>d. d\<lparr>registry_log := update_where P
      (\<lambda>r. r\<lparr>rl_actor := a, rl_target_uri := Some (b @ ''|'' @ c), rl_created_at := t\<rparr>)
      (registry_log d)\<rparr>) con) = verify_log_chain con"
proof -
  define f :: "log_row \<Rightarrow> log_row" where
    "f = (\<lambda>r. r\<lparr>rl_actor := a, rl_target_uri := Some (b @ ''|'' @ c), rl_created_at := t\<rparr>)"
  have o: "order_by rl_sequence (update_where P f (registry_log (db con))) = update_where P f (log_rows con)"
    by (rule order_by_update_where) (simp add: f_def)
  have "verify_rows n None (update_where P f (log_rows con)) = verify_rows n None (log_rows con)" for n
    by (rule verify_rows_forged) (use assms in \<open>auto simp: entry_body_def f_def\<close>)
  moreover have "update_where P f (log_rows con) = [] \<longleftrightarrow> log_rows con = []"
    by (simp add: update_where_def)
  ultimately show ?thesis unfolding f_def [symmetric] by (simp add: verify_log_chain_def Let_def o)
qed

theorem moved_field_boundary_verifies_witness:
  "verify_log_chain (with_db (\<lambda>d. d\<lparr>registry_log := update_where (\<lambda>r. True)
      (\<lambda>r. r\<lparr>rl_actor := ''ann'', rl_target_uri := Some ''root|cap://a'', rl_created_at := []\<rparr>)
      (registry_log d)\<rparr>) (snd (append_log_entry sample_runtime ''capability.ingest'' ''ann|root'' ''create''
       (Some ''cap://a'') [] True (sample_conn empty_database))))
   = verify_log_chain (snd (append_log_entry sample_runtime ''capability.ingest'' ''ann|root'' ''create''
       (Some ''cap://a'') [] True (sample_conn empty_database)))"
  using moved_field_boundary_verifies [where a = "''ann''" and b = "''root''" and c = "''cap://a''"
      and P = "\<lambda>r. True" and t = "[]" and con = "snd (append_log_entry sample_runtime ''capability.ingest''
       ''ann|root'' ''create'' (Some ''cap://a'') [] True (sample_conn empty_database))"]
  by (simp add: append_log_entry_def Let_def case_prod_unfold insert_log_def sample_conn_def
      empty_database_def next_log_row_def log_head_def order_by_desc_def)

text \<open>Governance events reach the log. For a capability event with a mutating action,
  audit_event appends one audit row and one log row that carries the event, actor, target and
  action and is chained to the previous head; the only way to miss the log is that the new
  entry has the hash of an entry already there.\<close>

theorem audit_event_is_mirrored:
  assumes "log_ok (db con)" "startswith event_type ''capability.''" "action \<noteq> []"
    and "action \<notin> {''read'', ''list'', ''status''}"
  shows "(\<exists>ev. audit_events (db (snd (audit_event rt event_type actor target (Some action) decision
        reason payload tenant actor_type con))) = audit_events (db con) @ [ev] \<and> ae_target ev = target)
    \<and> (\<exists>row. rl_event_type row = event_type \<and> rl_actor row = actor \<and> rl_target_uri row = target
        \<and> rl_action row = action
        \<and> rl_prev_hash row = map_option rl_entry_hash (log_head (db con))
        \<and> (registry_log (db (snd (audit_event rt event_type actor target (Some action) decision
              reason payload tenant actor_type con))) = registry_log (db con) @ [row]
           \<or> (\<exists>r \<in> set (registry_log (db con)). rl_entry_hash r = rl_entry_hash row)))"
proof (intro conjI)
  have m: "mirrored event_type (Some action)" using assms(2-4) by (simp add: mirrored_def)
  show "\<exists>ev. audit_events (db (snd (audit_event rt event_type actor target (Some action) decision
        reason payload tenant actor_type con))) = audit_events (db con) @ [ev] \<and> ae_target ev = target"
    using m by (simp add: audit_event_def mirror_to_log_def insert_log_def Let_def case_prod_unfold)
  let ?row = "\<lambda>i pl. next_log_row rt i event_type target actor action pl (db con)"
  have fresh: "rl_sequence (?row i pl) \<notin> rl_sequence ` set (registry_log (db con))" for i pl
    using next_log_row_ok(1) [OF assms(1) refl, of rt i event_type target actor action pl] by fastforce
  have fields: "rl_event_type (?row i pl) = event_type \<and> rl_actor (?row i pl) = actor
      \<and> rl_target_uri (?row i pl) = target \<and> rl_action (?row i pl) = action
      \<and> rl_prev_hash (?row i pl) = map_option rl_entry_hash (log_head (db con))" for i pl
    by (simp add: next_log_row_def Let_def case_prod_unfold split: option.splits)
  obtain i pl where "registry_log (db (snd (audit_event rt event_type actor target (Some action) decision
      reason payload tenant actor_type con))) = (if rl_entry_hash (?row i pl) \<in> rl_entry_hash ` set (registry_log (db con))
        then registry_log (db con) else registry_log (db con) @ [?row i pl])"
    using audit_event_log [OF m, of rt actor target decision reason payload tenant actor_type con] fresh
    unfolding extend_log_def by metis
  with fields [of i pl] show "\<exists>row. rl_event_type row = event_type \<and> rl_actor row = actor \<and> rl_target_uri row = target
        \<and> rl_action row = action
        \<and> rl_prev_hash row = map_option rl_entry_hash (log_head (db con))
        \<and> (registry_log (db (snd (audit_event rt event_type actor target (Some action) decision
              reason payload tenant actor_type con))) = registry_log (db con) @ [row]
           \<or> (\<exists>r \<in> set (registry_log (db con)). rl_entry_hash r = rl_entry_hash row))"
    by (intro exI [of _ "?row i pl"]) (auto split: if_splits)
qed

theorem audit_event_is_mirrored_witness:
  "\<exists>row. registry_log (db (snd (audit_event sample_runtime ''capability.share'' ''ann'' (Some ''cap://a'')
      (Some ''create'') None None [] ''asg'' ''user'' (sample_conn empty_database)))) = [row]
    \<and> rl_actor row = ''ann''"
proof -
  have "log_ok (db (sample_conn empty_database))"
    by (simp add: log_ok_def order_by_def sample_conn_def empty_database_def)
  from audit_event_is_mirrored [OF this, of "''capability.share''" "''create''" sample_runtime "''ann''"
      "Some ''cap://a''" None None "[]" "''asg''" "''user''", THEN conjunct2]
  show ?thesis by (auto simp: sample_conn_def empty_database_def startswith_def)
qed

end
