(* ===== verification/Break_Glass.thy ===== *)
theory Break_Glass
  imports Lifecycle_Transitions
begin

text \<open>
  Emergency sessions: \<^verbatim>\<open>break_glass.py\<close> and the check \<^verbatim>\<open>governance._break_glass_active\<close>.

  A session runs from its grant to its expiry, which is a text computed from the clock; that
  the comparison of texts ends it at the right instant rests on the order theorem of
  \<^verbatim>\<open>Py_Time\<close>. Histories of grants and revocations are a step relation.
\<close>

section \<open>Operations\<close>

definition DEFAULT_BREAK_GLASS_TTL_MINUTES :: int where
  "DEFAULT_BREAK_GLASS_TTL_MINUTES = 30"

definition MAX_BREAK_GLASS_TTL_MINUTES :: int where
  "MAX_BREAK_GLASS_TTL_MINUTES = 120"

definition session_expiry :: "runtime \<Rightarrow> int \<Rightarrow> string" where
  "session_expiry rt ttl_minutes = iso_text (clock_us rt + nat ttl_minutes * 60000000)"

definition grant_break_glass ::
  "runtime \<Rightarrow> string \<Rightarrow> string \<Rightarrow> string \<Rightarrow> string \<Rightarrow> int \<Rightarrow> bool \<Rightarrow> conn \<Rightarrow> (conn, break_glass_row) outcome" where
  "grant_break_glass rt who reason granted_by tenant_id ttl_minutes do_commit con =
     (if reason = [] \<or> py_strip reason = [] then
        (Inl (ValueError ''Break-glass requires a non-empty reason''), con)
      else if ttl_minutes < 1 \<or> ttl_minutes > MAX_BREAK_GLASS_TTL_MINUTES then
        (Inl (ValueError (''Break-glass TTL must be between 1 and ''
           @ str_of_int MAX_BREAK_GLASS_TTL_MINUTES @ '' minutes'')), con)
      else
        let (session_id, con1) = new_id rt ''bg'' con;
            expires_at = session_expiry rt ttl_minutes;
            row = \<lparr>bg_id = session_id, bg_tenant = tenant_id, bg_principal = who,
              bg_reason = reason, bg_granted_by = granted_by, bg_expires_at = expires_at,
              bg_revoked_at = None, bg_created_at = utc_now rt\<rparr>;
            con2 = with_db (\<lambda>d. d\<lparr>break_glass_sessions := break_glass_sessions d @ [row]\<rparr>) con1;
            con3 = insert_audit rt tenant_id ''break_glass.grant'' granted_by who ''grant''
              (JObj [(''sessionId'', JStr session_id), (''reason'', JStr reason),
                 (''ttlMinutes'', JInt ttl_minutes), (''expiresAt'', JStr expires_at)]) con2
        in (Inr row, commit_if do_commit con3))"

definition find_session :: "database \<Rightarrow> string \<Rightarrow> string \<Rightarrow> break_glass_row option" where
  "find_session d session_id tenant_id =
     find (\<lambda>r. bg_id r = session_id \<and> bg_tenant r = tenant_id) (break_glass_sessions d)"

definition revoke_break_glass ::
  "runtime \<Rightarrow> string \<Rightarrow> string \<Rightarrow> string \<Rightarrow> bool \<Rightarrow> conn \<Rightarrow> (conn, json) outcome" where
  "revoke_break_glass rt session_id revoked_by tenant_id do_commit con =
     (case find_session (db con) session_id tenant_id of
        None \<Rightarrow> (Inl (ValueError (''Break-glass session not found: '' @ session_id)), con)
      | Some row \<Rightarrow>
          if bg_revoked_at row \<noteq> None then
            (Inl (ValueError ''Break-glass session already revoked''), con)
          else
            let con1 = with_db (\<lambda>d. d\<lparr>break_glass_sessions :=
                  update_where (\<lambda>r. bg_id r = session_id) (bg_revoked_at_update (\<lambda>_. Some (utc_now rt)))
                    (break_glass_sessions d)\<rparr>) con;
                con2 = insert_audit rt tenant_id ''break_glass.revoke'' revoked_by session_id ''revoke''
                  (JObj [(''principal'', JStr (bg_principal row)), (''reason'', JStr (bg_reason row))]) con1
            in (Inr (JObj [(''sessionId'', JStr session_id), (''principal'', JStr (bg_principal row)),
                  (''revokedBy'', JStr revoked_by), (''revokedAt'', JStr (utc_now rt)),
                  (''status'', JStr ''revoked'')]), commit_if do_commit con2))"

definition list_break_glass_sessions :: "conn \<Rightarrow> string \<Rightarrow> bool \<Rightarrow> break_glass_row list" where
  "list_break_glass_sessions con tenant_id active_only =
     order_by_desc bg_created_at
       (filter (\<lambda>r. bg_tenant r = tenant_id \<and> (active_only \<longrightarrow> bg_revoked_at r = None))
          (break_glass_sessions (db con)))"

definition is_break_glass_active :: "runtime \<Rightarrow> conn \<Rightarrow> string \<Rightarrow> string \<Rightarrow> bool" where
  "is_break_glass_active rt con session_id tenant_id =
     (case find_session (db con) session_id tenant_id of
        None \<Rightarrow> False
      | Some row \<Rightarrow> if bg_revoked_at row \<noteq> None then False else bg_expires_at row > iso_now rt)"

definition break_glass_active :: "runtime \<Rightarrow> conn \<Rightarrow> principal \<Rightarrow> bool" where
  "break_glass_active rt con p =
     list_ex (\<lambda>row. is_break_glass_active rt con (bg_id row) (tenant_of rt p))
       (filter (\<lambda>r. bg_tenant r = tenant_of rt p \<and> bg_principal r = p_subject p
            \<and> bg_revoked_at r = None \<and> bg_expires_at r > utc_now rt)
          (break_glass_sessions (db con)))"

section \<open>Histories\<close>

inductive break_glass_step :: "conn \<Rightarrow> conn \<Rightarrow> bool" where
  grant: "break_glass_step con (snd (grant_break_glass rt who reason by_whom tenant ttl cm con))"
| revoke: "break_glass_step con (snd (revoke_break_glass rt sid by_whom tenant cm con))"

lemma insert_audit_sessions [simp]:
  "break_glass_sessions (db (insert_audit rt t e a u x j con)) = break_glass_sessions (db con)"
  by (simp add: insert_audit_def Let_def case_prod_unfold)

text \<open>A found session is found again after any step, with the same principal and expiry, and if
  it was revoked it still is.\<close>

definition session_keeps :: "break_glass_row \<Rightarrow> break_glass_row \<Rightarrow> bool" where
  "session_keeps r s = (bg_id s = bg_id r \<and> bg_tenant s = bg_tenant r \<and> bg_principal s = bg_principal r
     \<and> bg_expires_at s = bg_expires_at r \<and> (bg_revoked_at r \<noteq> None \<longrightarrow> bg_revoked_at s \<noteq> None))"

lemma session_step:
  assumes "break_glass_step con con'" "find_session (db con) sid tenant = Some r"
  shows "\<exists>s. find_session (db con') sid tenant = Some s \<and> session_keeps r s"
  using assms(1)
proof (cases rule: break_glass_step.cases)
  case (grant rt who reason by_whom tn ttl cm)
  with assms(2) show ?thesis
    by (auto simp: grant_break_glass_def find_session_def find_append session_keeps_def Let_def case_prod_unfold)
next
  case (revoke rt s by_whom tn cm)
  have "find_session (db con') sid tenant = Some r \<or>
      find_session (db con') sid tenant = Some (if bg_id r = s then r\<lparr>bg_revoked_at := Some (utc_now rt)\<rparr> else r)"
    using assms(2) revoke
    by (auto simp: revoke_break_glass_def find_session_def Let_def find_update_where split: option.splits)
  then show ?thesis by (auto simp: session_keeps_def)
qed

lemma session_history:
  assumes "break_glass_step\<^sup>*\<^sup>* con con'" "find_session (db con) sid tenant = Some r"
  shows "\<exists>s. find_session (db con') sid tenant = Some s \<and> session_keeps r s"
  using assms(1)
proof (induction rule: rtranclp_induct)
  case base
  with assms(2) show ?case by (simp add: session_keeps_def)
next
  case (step y z)
  then obtain s where s: "find_session (db y) sid tenant = Some s" "session_keeps r s" by blast
  from session_step [OF step.hyps(2) s(1)] s(2) show ?case by (fastforce simp: session_keeps_def)
qed

lemma grant_effect:
  assumes "fst (grant_break_glass rt who reason by_whom tenant ttl cm con) = Inr row"
  shows "1 \<le> ttl" "ttl \<le> 120" "py_strip reason \<noteq> []" "bg_expires_at row = session_expiry rt ttl"
    "bg_revoked_at row = None" "bg_principal row = who" "bg_tenant row = tenant"
    "break_glass_sessions (db (snd (grant_break_glass rt who reason by_whom tenant ttl cm con)))
       = break_glass_sessions (db con) @ [row]"
  using assms
  by (auto simp: grant_break_glass_def MAX_BREAK_GLASS_TTL_MINUTES_def Let_def case_prod_unfold
      split: if_splits)

lemma iso_text_less_iff:
  assumes "cv_year (civil_of_seconds (u div 1000000)) \<le> 9999" "cv_year (civil_of_seconds (v div 1000000)) \<le> 9999"
  shows "iso_text u < iso_text v \<longleftrightarrow> u < v"
proof (cases u v rule: linorder_cases)
  case less
  with iso_text_mono [OF less assms(2)] show ?thesis by simp
next
  case greater
  from iso_text_mono [OF greater assms(1)] greater show ?thesis by (auto dest: less_not_sym)
qed simp

section \<open>Access control does not read the sessions\<close>

abbreviation drop_sessions :: "break_glass_row list \<Rightarrow> database \<Rightarrow> database" where
  "drop_sessions x d \<equiv> d\<lparr>break_glass_sessions := x\<rparr>"

lemma access_cascade_sessions:
  "access_cascade rt (drop_sessions x d) cache p right cap res = access_cascade rt d cache p right cap res"
  by (rule access_cascade_cong) (simp add: same_policy_def)

section \<open>Properties\<close>

text \<open>C20. A granted session lasts exactly its term: the grant requires a reason that is not blank
  and a term of 1 to 120 minutes, and as long as nobody revokes it, whatever other sessions are
  granted or revoked, is_break_glass_active answers yes at an instant exactly when the instant
  lies before the grant plus the term, up to the year 9999.\<close>

theorem break_glass_lasts_its_term:
  assumes "fst (grant_break_glass rt who reason by_whom tenant ttl cm con) = Inr row"
    and "\<forall>r \<in> set (break_glass_sessions (db con)). bg_id r \<noteq> bg_id row"
    and "break_glass_step\<^sup>*\<^sup>* (snd (grant_break_glass rt who reason by_whom tenant ttl cm con)) con'"
    and "\<forall>s. find_session (db con') (bg_id row) tenant = Some s \<longrightarrow> bg_revoked_at s = None"
    and "cv_year (civil_of_seconds (clock_us rt' div 1000000)) \<le> 9999"
    and "cv_year (civil_of_seconds ((clock_us rt + nat ttl * 60000000) div 1000000)) \<le> 9999"
  shows "(1 \<le> ttl \<and> ttl \<le> 120 \<and> py_strip reason \<noteq> [])
    \<and> (is_break_glass_active rt' con' (bg_id row) tenant \<longleftrightarrow>
      clock_us rt' < clock_us rt + nat ttl * 60000000)"
proof (intro conjI)
  note g = grant_effect [OF assms(1)]
  from g(1-3) show "1 \<le> ttl" "ttl \<le> 120" "py_strip reason \<noteq> []" by simp_all
  have "find (\<lambda>r. bg_id r = bg_id row \<and> bg_tenant r = tenant) (break_glass_sessions (db con)) = None"
    using assms(2) by (auto simp: find_None_iff)
  then have "find_session (db (snd (grant_break_glass rt who reason by_whom tenant ttl cm con)))
      (bg_id row) tenant = Some row"
    using g(7,8) by (simp add: find_session_def find_append)
  then obtain s where s: "find_session (db con') (bg_id row) tenant = Some s" "session_keeps row s"
    using session_history [OF assms(3)] by blast
  then have "bg_revoked_at s = None" "bg_expires_at s = iso_text (clock_us rt + nat ttl * 60000000)"
    using assms(4) g(4) by (auto simp: session_keeps_def session_expiry_def)
  with s(1) show "is_break_glass_active rt' con' (bg_id row) tenant \<longleftrightarrow>
      clock_us rt' < clock_us rt + nat ttl * 60000000"
    using iso_text_less_iff [OF assms(5,6)] by (simp add: is_break_glass_active_def iso_now_def)
qed

lemma sample_grant:
  "\<exists>row. fst (grant_break_glass sample_runtime ''ann'' ''outage'' ''root'' ''asg'' 30 True
     (sample_conn empty_database)) = Inr row"
  by (simp add: grant_break_glass_def MAX_BREAK_GLASS_TTL_MINUTES_def py_strip_def py_lstrip_def
      py_rstrip_def py_isspace_def Let_def case_prod_unfold)

lemma sample_year:
  "cv_year (civil_of_seconds 1785542400) = 2026" "cv_year (civil_of_seconds 1785544200) = 2026"
  by (simp_all add: civil_of_seconds_def year_split.simps days_in_year_def leap_year_def Let_def case_prod_unfold)

theorem break_glass_lasts_its_term_witness:
  "\<exists>row. fst (grant_break_glass sample_runtime ''ann'' ''outage'' ''root'' ''asg'' 30 True
       (sample_conn empty_database)) = Inr row
     \<and> is_break_glass_active sample_runtime (snd (grant_break_glass sample_runtime ''ann'' ''outage'' ''root''
         ''asg'' 30 True (sample_conn empty_database))) (bg_id row) ''asg''"
proof -
  obtain row where row: "fst (grant_break_glass sample_runtime ''ann'' ''outage'' ''root'' ''asg'' 30 True
     (sample_conn empty_database)) = Inr row" using sample_grant by blast
  let ?con = "snd (grant_break_glass sample_runtime ''ann'' ''outage'' ''root'' ''asg'' 30 True
     (sample_conn empty_database))"
  have none: "break_glass_sessions (db (sample_conn empty_database)) = []"
    by (simp add: sample_conn_def empty_database_def)
  have "\<forall>s. find_session (db ?con) (bg_id row) ''asg'' = Some s \<longrightarrow> bg_revoked_at s = None"
    using grant_effect(5,8) [OF row] by (simp add: find_session_def none)
  then have "is_break_glass_active sample_runtime ?con (bg_id row) ''asg'' \<longleftrightarrow>
      clock_us sample_runtime < clock_us sample_runtime + nat 30 * 60000000"
    by (intro break_glass_lasts_its_term [OF row _ rtranclp.rtrancl_refl, THEN conjunct2])
      (simp_all add: none sample_runtime_def sample_year)
  with row show ?thesis by simp
qed

text \<open>Revocation is final: after a successful revoke_break_glass the session is inactive at
  every instant, whatever is granted or revoked later, and revoking it again raises.\<close>

theorem break_glass_revocation_is_final:
  assumes "fst (revoke_break_glass rt sid by_whom tenant cm con) = Inr j"
    and "break_glass_step\<^sup>*\<^sup>* (snd (revoke_break_glass rt sid by_whom tenant cm con)) con'"
  shows "(\<not> is_break_glass_active rt' con' sid tenant)
    \<and> (revoke_break_glass rt' sid by_whom' tenant cm' con'
      = (Inl (ValueError ''Break-glass session already revoked''), con'))"
proof (intro conjI)
  from assms(1) obtain r where r: "find_session (db con) sid tenant = Some r"
    by (auto simp: revoke_break_glass_def split: option.splits)
  then have "bg_id r = sid" by (auto simp: find_session_def dest: find_SomeD)
  with r assms(1) have "find_session (db (snd (revoke_break_glass rt sid by_whom tenant cm con))) sid tenant
      = Some (r\<lparr>bg_revoked_at := Some (utc_now rt)\<rparr>)"
    by (auto simp: revoke_break_glass_def find_session_def find_update_where Let_def split: if_splits)
  from session_history [OF assms(2) this] obtain s where
    "find_session (db con') sid tenant = Some s" "bg_revoked_at s \<noteq> None"
    by (auto simp: session_keeps_def)
  then show "\<not> is_break_glass_active rt' con' sid tenant"
    "revoke_break_glass rt' sid by_whom' tenant cm' con'
      = (Inl (ValueError ''Break-glass session already revoked''), con')"
    by (simp_all add: is_break_glass_active_def revoke_break_glass_def)
qed

theorem break_glass_revocation_is_final_witness:
  "\<exists>con. (\<exists>j. fst (revoke_break_glass sample_runtime ''s'' ''root'' ''asg'' True con) = Inr j)
     \<and> \<not> is_break_glass_active sample_runtime
         (snd (revoke_break_glass sample_runtime ''s'' ''root'' ''asg'' True con)) ''s'' ''asg''"
proof -
  let ?con = "sample_conn (empty_database\<lparr>break_glass_sessions := [\<lparr>bg_id = ''s'', bg_tenant = ''asg'',
     bg_principal = ''ann'', bg_reason = ''r'', bg_granted_by = ''root'', bg_expires_at = ''9'',
     bg_revoked_at = None, bg_created_at = []\<rparr>]\<rparr>)"
  obtain j where j: "fst (revoke_break_glass sample_runtime ''s'' ''root'' ''asg'' True ?con) = Inr j"
    by (simp add: revoke_break_glass_def find_session_def sample_conn_def empty_database_def Let_def)
  from break_glass_revocation_is_final [OF j rtranclp.rtrancl_refl, THEN conjunct1] j show ?thesis by blast
qed

text \<open>Break-glass sessions grant nothing: whatever the table of sessions holds, every decision
  of evaluate_access, with its reason, is the same.\<close>

theorem break_glass_does_not_affect_access:
  "fst (evaluate_access rt p right cap res audit
      (with_db (\<lambda>d. d\<lparr>break_glass_sessions := sessions\<rparr>) con))
   = fst (evaluate_access rt p right cap res audit con)"
  by (simp add: evaluate_access_def access_cascade_sessions Let_def case_prod_unfold)

end
