(* ===== verification/Provisioning.thy ===== *)
theory Provisioning
  imports Registry_Log
begin

text \<open>
  Bootstrap of tenants and identities (\<^verbatim>\<open>governance.py\<close>): deterministic identifiers and URI
  prefixes, \<^verbatim>\<open>ensure_default_tenant\<close>, the operator grants \<^verbatim>\<open>ensure_platform_superadmins\<close> and
  \<^verbatim>\<open>ensure_local_service_org_access\<close>, and \<^verbatim>\<open>ensure_identity_for_principal\<close> with the stores it creates.

  An INSERT is a partial function on the database: OR IGNORE skips a row that clashes with a
  unique key, a plain INSERT raises, and a reference to a missing row raises; a sequence of
  statements stops at the first exception and keeps the writes before it. The environment is
  read as it is during the call; the service reads some of these variables once at import.
\<close>

section \<open>Configuration\<close>

definition env_or :: "runtime \<Rightarrow> string \<Rightarrow> string \<Rightarrow> string" where
  "env_or rt k d = (case environ rt k of None \<Rightarrow> d | Some v \<Rightarrow> v)"

definition DEFAULT_USER_SUBJECT :: "runtime \<Rightarrow> string" where
  "DEFAULT_USER_SUBJECT rt = env_or rt ''CAPMESH_DEFAULT_USER_SUBJECT'' ''admin@example.com''"

definition CORPORATE_EMAIL_DOMAIN :: "runtime \<Rightarrow> string" where
  "CORPORATE_EMAIL_DOMAIN rt = env_or rt ''CAPMESH_CORPORATE_EMAIL_DOMAIN'' ''example.com''"

definition DEFAULT_ORG_SLUG :: "runtime \<Rightarrow> string" where
  "DEFAULT_ORG_SLUG rt = env_or rt ''CAPMESH_DEFAULT_ORG_SLUG'' ''the-company''"

definition DEFAULT_ORG_DISPLAY_NAME :: "runtime \<Rightarrow> string" where
  "DEFAULT_ORG_DISPLAY_NAME rt = env_or rt ''CAPMESH_DEFAULT_ORG_DISPLAY_NAME'' ''the company''"

definition LOCAL_SERVICE_APP_ID :: string where
  "LOCAL_SERVICE_APP_ID = ''capmesh-service''"

definition parse_superadmin_actors :: "runtime \<Rightarrow> string list" where
  "parse_superadmin_actors rt =
     map (\<lambda>a. py_lower (py_strip a))
       (filter (\<lambda>a. py_strip a \<noteq> []) (split_on (CHR '','') (env_or rt ''CAPMESH_SUPERADMIN_ACTORS'' [])))"

definition superadmin_actor :: "runtime \<Rightarrow> string" where
  "superadmin_actor rt = env_or rt ''CAPMESH_SUPERADMIN_ACTOR'' ''admin@example.com''"

definition superadmin_subjects :: "runtime \<Rightarrow> string list" where
  "superadmin_subjects rt =
     (let actors = parse_superadmin_actors rt in
      if actors \<noteq> [] then actors
      else let single = py_lower (py_strip (superadmin_actor rt)) in
        if single \<noteq> [] then [single] else [])"

section \<open>Identifiers and prefixes\<close>

definition corporate_identity_id :: "runtime \<Rightarrow> string \<Rightarrow> string \<Rightarrow> string \<Rightarrow> string" where
  "corporate_identity_id rt tenant_id email provider_subject =
     (let normalized_email = py_lower (py_strip email);
          identity_key = (if endswith normalized_email (''@'' @ CORPORATE_EMAIL_DOMAIN rt)
                          then normalized_email else provider_subject)
      in stable_id ''idn'' [tenant_id, identity_key])"

definition default_user_identity_id :: "runtime \<Rightarrow> string \<Rightarrow> string" where
  "default_user_identity_id rt tenant_id = stable_id ''idn'' [tenant_id, DEFAULT_USER_SUBJECT rt]"

definition default_user_private_store_id :: "runtime \<Rightarrow> string \<Rightarrow> string" where
  "default_user_private_store_id rt tenant_id =
     stable_id ''store'' [tenant_id, ''user_private'', default_user_identity_id rt tenant_id]"

definition default_user_private_namespace_id :: "runtime \<Rightarrow> string \<Rightarrow> string" where
  "default_user_private_namespace_id rt tenant_id =
     stable_id ''ns'' [tenant_id, default_user_private_store_id rt tenant_id, ''personal'']"

definition default_user_store_prefix :: "runtime \<Rightarrow> string \<Rightarrow> string" where
  "default_user_store_prefix rt tenant_id =
     ''cap://user/'' @ tenant_id @ ''/'' @ default_user_identity_id rt tenant_id @ ''/private''"

definition default_user_namespace_prefix :: "runtime \<Rightarrow> string \<Rightarrow> string" where
  "default_user_namespace_prefix rt tenant_id = default_user_store_prefix rt tenant_id @ ''/personal''"

definition all_users_store_id :: "string \<Rightarrow> string" where
  "all_users_store_id tenant_id = stable_id ''store'' [tenant_id, ''all_users'', ''all'']"

definition all_users_store_prefix :: "string \<Rightarrow> string" where
  "all_users_store_prefix tenant_id = ''cap://all/'' @ tenant_id"

definition all_users_namespace_id :: "string \<Rightarrow> string" where
  "all_users_namespace_id tenant_id = stable_id ''ns'' [tenant_id, all_users_store_id tenant_id, ''everyone'']"

definition all_users_namespace_prefix :: "string \<Rightarrow> string" where
  "all_users_namespace_prefix tenant_id = ''cap://all/'' @ tenant_id @ ''/everyone''"

definition org_store_id :: "runtime \<Rightarrow> string \<Rightarrow> string" where
  "org_store_id rt tenant_id = stable_id ''store'' [tenant_id, ''org'', DEFAULT_ORG_SLUG rt]"

definition org_store_prefix :: "runtime \<Rightarrow> string \<Rightarrow> string" where
  "org_store_prefix rt tenant_id = ''cap://org/'' @ tenant_id @ ''/'' @ DEFAULT_ORG_SLUG rt"

definition org_shared_namespace_id :: "runtime \<Rightarrow> string \<Rightarrow> string" where
  "org_shared_namespace_id rt tenant_id = stable_id ''ns'' [tenant_id, org_store_id rt tenant_id, ''shared'']"

definition org_shared_namespace_prefix :: "runtime \<Rightarrow> string \<Rightarrow> string" where
  "org_shared_namespace_prefix rt tenant_id = org_store_prefix rt tenant_id @ ''/shared''"

section \<open>Statements\<close>

type_synonym stmt = "database \<Rightarrow> py_error + database"

fun run_statements :: "stmt list \<Rightarrow> database \<Rightarrow> py_error option \<times> database" where
  "run_statements [] d = (None, d)"
| "run_statements (s # ss) d = (case s d of Inl e \<Rightarrow> (Some e, d) | Inr d' \<Rightarrow> run_statements ss d')"

abbreviation FK_ERROR :: py_error where
  "FK_ERROR \<equiv> IntegrityError ''FOREIGN KEY constraint failed''"

abbreviation UNIQUE_ERROR :: py_error where
  "UNIQUE_ERROR \<equiv> IntegrityError ''UNIQUE constraint failed''"

definition has_tenant :: "database \<Rightarrow> string \<Rightarrow> bool" where
  "has_tenant d t = list_ex (\<lambda>r. tn_id r = t) (tenants d)"

definition has_store :: "database \<Rightarrow> string \<Rightarrow> bool" where
  "has_store d s = list_ex (\<lambda>r. st_id r = s) (stores d)"

definition ref_ok :: "('r \<Rightarrow> string) \<Rightarrow> 'r list \<Rightarrow> string option \<Rightarrow> bool" where
  "ref_ok k t x = (case x of None \<Rightarrow> True | Some i \<Rightarrow> list_ex (\<lambda>r. k r = i) t)"

definition insert_tenant_or_ignore :: "tenant_row \<Rightarrow> stmt" where
  "insert_tenant_or_ignore row d =
     Inr (if list_ex (\<lambda>r. tn_id r = tn_id row \<or> tn_slug r = tn_slug row) (tenants d) then d
          else d\<lparr>tenants := tenants d @ [row]\<rparr>)"

definition update_tenant :: "runtime \<Rightarrow> string \<Rightarrow> stmt" where
  "update_tenant rt tenant_id d = Inr (d\<lparr>tenants := update_where (\<lambda>r. tn_id r = tenant_id)
     (\<lambda>r. r\<lparr>tn_display_name := DEFAULT_ORG_DISPLAY_NAME rt, tn_status := ''active''\<rparr>) (tenants d)\<rparr>)"

definition same_identity_key :: "identity_row \<Rightarrow> identity_row \<Rightarrow> bool" where
  "same_identity_key a b = (id_tenant a = id_tenant b \<and>
     (id_user_name a = id_user_name b \<or> (id_external_id a \<noteq> None \<and> id_external_id a = id_external_id b)))"

definition insert_identity_or_ignore :: "identity_row \<Rightarrow> stmt" where
  "insert_identity_or_ignore row d =
     (if list_ex (\<lambda>r. id_id r = id_id row \<or> same_identity_key row r) (identities d) then Inr d
      else if \<not> has_tenant d (id_tenant row) then Inl FK_ERROR
      else Inr (d\<lparr>identities := identities d @ [row]\<rparr>))"

definition insert_store_or_ignore :: "store_row \<Rightarrow> stmt" where
  "insert_store_or_ignore row d =
     (if list_ex (\<lambda>r. st_id r = st_id row \<or> st_uri_prefix r = st_uri_prefix row) (stores d) then Inr d
      else if \<not> has_tenant d (st_tenant row) \<or> \<not> ref_ok id_id (identities d) (st_owner_identity row)
         \<or> \<not> ref_ok app_key (apps d) (st_owner_app row) then Inl FK_ERROR
      else Inr (d\<lparr>stores := stores d @ [row]\<rparr>))"

definition insert_namespace_or_ignore :: "namespace_row \<Rightarrow> stmt" where
  "insert_namespace_or_ignore row d =
     (if list_ex (\<lambda>r. ns_id r = ns_id row \<or> ns_uri_prefix r = ns_uri_prefix row
           \<or> (ns_tenant r = ns_tenant row \<and> ns_store r = ns_store row \<and> ns_name r = ns_name row)) (namespaces d)
      then Inr d
      else if \<not> has_tenant d (ns_tenant row) \<or> \<not> has_store d (ns_store row) then Inl FK_ERROR
      else Inr (d\<lparr>namespaces := namespaces d @ [row]\<rparr>))"

definition insert_org_or_ignore :: "organization_row \<Rightarrow> stmt" where
  "insert_org_or_ignore row d =
     (if list_ex (\<lambda>r. org_id r = org_id row \<or> (org_tenant r = org_tenant row \<and> org_slug r = org_slug row))
           (organizations d) then Inr d
      else if \<not> has_tenant d (org_tenant row) \<or> \<not> ref_ok st_id (stores d) (org_store row) then Inl FK_ERROR
      else Inr (d\<lparr>organizations := organizations d @ [row]\<rparr>))"

text \<open>INSERT INTO identities ... ON CONFLICT(id) DO UPDATE; COALESCE keeps a stored value against a
  new NULL.\<close>

definition upsert_identity :: "identity_row \<Rightarrow> stmt" where
  "upsert_identity row d =
     (case find (\<lambda>r. id_id r = id_id row) (identities d) of
        Some old \<Rightarrow>
          if list_ex (\<lambda>r. id_id r \<noteq> id_id row \<and> id_tenant r = id_tenant old
                \<and> id_user_name r = id_user_name row) (identities d) then Inl UNIQUE_ERROR
          else Inr (d\<lparr>identities := update_where (\<lambda>r. id_id r = id_id row)
            (\<lambda>r. r\<lparr>id_user_name := id_user_name row,
               id_display_name := (case id_display_name row of None \<Rightarrow> id_display_name r | Some v \<Rightarrow> Some v),
               id_email := (case id_email row of None \<Rightarrow> id_email r | Some v \<Rightarrow> Some v),
               id_active := id_active row, id_raw_json := id_raw_json row,
               id_updated_at := id_updated_at row\<rparr>) (identities d)\<rparr>)
      | None \<Rightarrow>
          if list_ex (same_identity_key row) (identities d) then Inl UNIQUE_ERROR
          else if \<not> has_tenant d (id_tenant row) then Inl FK_ERROR
          else Inr (d\<lparr>identities := identities d @ [row]\<rparr>))"

section \<open>The default tenant\<close>

definition mk_store :: "string \<Rightarrow> string \<Rightarrow> string \<Rightarrow> string \<Rightarrow> string \<Rightarrow> string option \<Rightarrow> store_row" where
  "mk_store sid tenant kind name prefix owner =
     \<lparr>st_id = sid, st_tenant = tenant, st_kind = kind, st_name = name, st_uri_prefix = prefix,
      st_owner_identity = owner, st_owner_app = None, st_disabled_at = None\<rparr>"

definition mk_namespace ::
  "string \<Rightarrow> string \<Rightarrow> string \<Rightarrow> string \<Rightarrow> string \<Rightarrow> string \<Rightarrow> string \<Rightarrow> string \<Rightarrow> namespace_row" where
  "mk_namespace nid tenant sid name prefix visibility owner description =
     \<lparr>ns_id = nid, ns_tenant = tenant, ns_store = sid, ns_name = name, ns_uri_prefix = prefix,
      ns_visibility = visibility, ns_owner = owner, ns_description = description, ns_lifecycle = ''active''\<rparr>"

definition default_tenant_statements :: "runtime \<Rightarrow> string \<Rightarrow> stmt list" where
  "default_tenant_statements rt tenant_id =
     (let org_name = DEFAULT_ORG_DISPLAY_NAME rt; user = DEFAULT_USER_SUBJECT rt;
          identity = default_user_identity_id rt tenant_id;
          org_store_key = stable_id ''store'' [tenant_id, ''org'', DEFAULT_ORG_SLUG rt];
          system_store = stable_id ''store'' [tenant_id, ''system'', ''system'']
      in [insert_tenant_or_ignore \<lparr>tn_id = tenant_id, tn_slug = tenant_id, tn_display_name = org_name,
            tn_status = ''active''\<rparr>,
          update_tenant rt tenant_id,
          insert_identity_or_ignore \<lparr>id_id = identity, id_tenant = tenant_id, id_external_id = Some user,
            id_user_name = user, id_display_name = Some user, id_email = Some user, id_type = ''human'',
            id_active = True, id_raw_json = json_dumps (JObj [(''defaultOwner'', JBool True)]),
            id_created_at = sql_now rt, id_updated_at = sql_now rt\<rparr>,
          insert_store_or_ignore (mk_store (stable_id ''store'' [tenant_id, ''user_private'', identity])
            tenant_id ''user_private'' (user @ '' Private'') (default_user_store_prefix rt tenant_id) (Some identity)),
          insert_store_or_ignore (mk_store (stable_id ''store'' [tenant_id, ''user_shared'', identity])
            tenant_id ''user_shared'' (user @ '' Shared'')
            (''cap://user/'' @ tenant_id @ ''/'' @ identity @ ''/shared'') (Some identity)),
          insert_namespace_or_ignore (mk_namespace (default_user_private_namespace_id rt tenant_id) tenant_id
            (default_user_private_store_id rt tenant_id) ''personal'' (default_user_namespace_prefix rt tenant_id)
            ''protected'' user ''Default private namespace for current ingested capabilities.''),
          insert_store_or_ignore (mk_store org_store_key tenant_id ''org'' (org_name @ '' Org Store'')
            (''cap://org/'' @ tenant_id @ ''/'' @ DEFAULT_ORG_SLUG rt) None),
          insert_org_or_ignore \<lparr>org_id = stable_id ''org'' [tenant_id, DEFAULT_ORG_SLUG rt],
            org_tenant = tenant_id, org_slug = DEFAULT_ORG_SLUG rt, org_display_name = org_name,
            org_store = Some org_store_key, org_status = ''active'', org_created_at = sql_now rt\<rparr>,
          insert_store_or_ignore (mk_store system_store tenant_id ''system'' ''System Governance''
            (''cap://system/'' @ tenant_id) None),
          insert_namespace_or_ignore (mk_namespace (stable_id ''ns'' [tenant_id, system_store, ''system''])
            tenant_id system_store ''system'' (''cap://system/'' @ tenant_id) ''protected'' ''asg-platform''
            ''Built-in governance capabilities.''),
          insert_store_or_ignore (mk_store (all_users_store_id tenant_id) tenant_id ''all_users''
            (org_name @ '' All Users Store'') (all_users_store_prefix tenant_id) None),
          insert_namespace_or_ignore (mk_namespace (all_users_namespace_id tenant_id) tenant_id
            (all_users_store_id tenant_id) ''everyone'' (all_users_namespace_prefix tenant_id) ''internal''
            ''asg-platform'' ''Tenant-wide capabilities visible to every authenticated user.'')])"

definition bootstrapped :: "runtime \<Rightarrow> string \<Rightarrow> database \<Rightarrow> bool" where
  "bootstrapped rt tenant_id d =
     (case find (\<lambda>r. tn_id r = tenant_id) (tenants d) of
        None \<Rightarrow> False
      | Some r \<Rightarrow> tn_status r = ''active'' \<and> tn_display_name r = DEFAULT_ORG_DISPLAY_NAME rt)"

definition ensure_default_tenant :: "runtime \<Rightarrow> string \<Rightarrow> conn \<Rightarrow> (conn, string) outcome" where
  "ensure_default_tenant rt tenant_id con =
     (if bootstrapped rt tenant_id (db con) then (Inr tenant_id, con)
      else case run_statements (default_tenant_statements rt tenant_id) (db con) of
        (None, d) \<Rightarrow> (Inr tenant_id, con\<lparr>db := d\<rparr>)
      | (Some e, d) \<Rightarrow> (Inl e, con\<lparr>db := d\<rparr>))"

definition run_on :: "stmt list \<Rightarrow> 'a \<Rightarrow> conn \<Rightarrow> (conn, 'a) outcome" where
  "run_on ss x con = (case run_statements ss (db con) of
     (None, d) \<Rightarrow> (Inr x, con\<lparr>db := d\<rparr>) | (Some e, d) \<Rightarrow> (Inl e, con\<lparr>db := d\<rparr>))"

definition ensure_org_shared_namespace :: "runtime \<Rightarrow> string \<Rightarrow> conn \<Rightarrow> (conn, string) outcome" where
  "ensure_org_shared_namespace rt tenant_id con =
     (case ensure_default_tenant rt tenant_id con of
        (Inl e, con1) \<Rightarrow> (Inl e, con1)
      | (Inr _, con1) \<Rightarrow> run_on [insert_namespace_or_ignore (mk_namespace (org_shared_namespace_id rt tenant_id)
          tenant_id (org_store_id rt tenant_id) ''shared'' (org_shared_namespace_prefix rt tenant_id) ''internal''
          ''asg-platform'' ''Org-internal shared capabilities promoted via the vault-placement manifest.'')]
          (org_shared_namespace_id rt tenant_id) con1)"

definition ensure_all_users_namespace :: "runtime \<Rightarrow> string \<Rightarrow> conn \<Rightarrow> (conn, string) outcome" where
  "ensure_all_users_namespace rt tenant_id con =
     (case ensure_default_tenant rt tenant_id con of
        (Inl e, con1) \<Rightarrow> (Inl e, con1)
      | (Inr _, con1) \<Rightarrow> (Inr (all_users_namespace_id tenant_id), con1))"

section \<open>Operator grants\<close>

definition grant_is_correct :: "role_assignment_row \<Rightarrow> role_assignment_row \<Rightarrow> bool" where
  "grant_is_correct want row =
     (ra_subject_type row = ra_subject_type want \<and> ra_subject_id row = ra_subject_id want
      \<and> ra_role row = ra_role want \<and> ra_scope_type row = ra_scope_type want
      \<and> ra_scope_id row = ra_scope_id want \<and> ra_source row = ra_source want \<and> ra_revoked_at row = None)"

text \<open>INSERT ... ON CONFLICT(id) DO UPDATE; the expiry and creation time of an existing row stay.\<close>

definition upsert_assignment :: "role_assignment_row \<Rightarrow> database \<Rightarrow> database" where
  "upsert_assignment row d = d\<lparr>role_assignments :=
     (if list_ex (\<lambda>r. ra_id r = ra_id row) (role_assignments d)
      then update_where (\<lambda>r. ra_id r = ra_id row) (\<lambda>r. r\<lparr>ra_tenant := ra_tenant row,
             ra_subject_type := ra_subject_type row, ra_subject_id := ra_subject_id row,
             ra_role := ra_role row, ra_scope_type := ra_scope_type row, ra_scope_id := ra_scope_id row,
             ra_source := ra_source row, ra_created_by := ra_created_by row, ra_revoked_at := None\<rparr>)
             (role_assignments d)
      else role_assignments d @ [row])\<rparr>"

definition enforce_grant :: "runtime \<Rightarrow> string \<Rightarrow> (string \<times> json) list \<Rightarrow> role_assignment_row \<Rightarrow> conn \<Rightarrow> (conn, unit) outcome"
  where
  "enforce_grant rt event_type payload want con =
     (if (case find (\<lambda>r. ra_id r = ra_id want) (role_assignments (db con)) of
            None \<Rightarrow> False | Some row \<Rightarrow> grant_is_correct want row)
      then (Inr (), con)
      else if \<not> has_tenant (db con) (ra_tenant want) then (Inl FK_ERROR, con)
      else (Inr (), snd (audit_event rt event_type ''capmesh-system'' (Some (ra_id want)) (Some ''assign'')
              (Some ''allow'') None payload (ra_tenant want) ''service''
              (with_db (upsert_assignment want) con))))"

definition superadmin_assignment :: "runtime \<Rightarrow> string \<Rightarrow> string \<Rightarrow> role_assignment_row" where
  "superadmin_assignment rt tenant_id subject =
     \<lparr>ra_id = stable_id ''rol'' [tenant_id, ''platform-superadmin'', subject], ra_tenant = tenant_id,
      ra_subject_type = ''user'', ra_subject_id = subject, ra_role = ''platform_admin'',
      ra_scope_type = ''tenant'', ra_scope_id = tenant_id, ra_source = ''operator-policy'',
      ra_created_by = ''capmesh-system'', ra_expires_at = None, ra_revoked_at = None,
      ra_created_at = sql_now rt\<rparr>"

fun enforce_superadmins :: "runtime \<Rightarrow> string \<Rightarrow> string list \<Rightarrow> conn \<Rightarrow> (conn, unit) outcome" where
  "enforce_superadmins rt tenant_id [] con = (Inr (), con)"
| "enforce_superadmins rt tenant_id (subject # subjects) con =
     (case enforce_grant rt ''role.operator_policy_enforced''
             [(''subject'', JStr subject), (''role'', JStr ''platform_admin''),
              (''scope'', JStr (''tenant:'' @ tenant_id))]
             (superadmin_assignment rt tenant_id subject) con of
        (Inl e, con1) \<Rightarrow> (Inl e, con1)
      | (Inr _, con1) \<Rightarrow> enforce_superadmins rt tenant_id subjects con1)"

definition ensure_platform_superadmins :: "runtime \<Rightarrow> string \<Rightarrow> conn \<Rightarrow> (conn, unit) outcome" where
  "ensure_platform_superadmins rt tenant_id con =
     enforce_superadmins rt tenant_id (superadmin_subjects rt) con"

definition ensure_local_service_org_access :: "runtime \<Rightarrow> string \<Rightarrow> conn \<Rightarrow> (conn, unit) outcome" where
  "ensure_local_service_org_access rt tenant_id con =
     (let org_key = stable_id ''org'' [tenant_id, DEFAULT_ORG_SLUG rt];
          assignment_id = stable_id ''rol''
            [tenant_id, ''local-service-org-access'', LOCAL_SERVICE_APP_ID, org_key]
      in enforce_grant rt ''role.authority_policy_enforced''
           [(''subject'', JStr (''app:'' @ LOCAL_SERVICE_APP_ID)), (''role'', JStr ''app_service''),
            (''scope'', JStr (''org:'' @ org_key))]
           \<lparr>ra_id = assignment_id, ra_tenant = tenant_id, ra_subject_type = ''app'',
            ra_subject_id = LOCAL_SERVICE_APP_ID, ra_role = ''app_service'', ra_scope_type = ''org'',
            ra_scope_id = org_key, ra_source = ''authority-policy'', ra_created_by = ''capmesh-system'',
            ra_expires_at = None, ra_revoked_at = None, ra_created_at = sql_now rt\<rparr> con)"

section \<open>Identities\<close>

definition principal_to_dict :: "principal \<Rightarrow> json" where
  "principal_to_dict p = JObj [(''subject'', JStr (p_subject p)), (''tenantId'', JStr (p_tenant_id p)),
     (''identityId'', json_opt (p_identity_id p)), (''email'', json_opt (p_email p)),
     (''displayName'', json_opt (p_display_name p)), (''appId'', json_opt (p_app_id p)),
     (''groups'', JList (map JStr (p_groups p))), (''roles'', JList (map JStr (p_roles p))),
     (''scopes'', JList (map JStr (p_scopes p))), (''authenticated'', JBool (p_authenticated p)),
     (''disabled'', JBool (p_disabled p))]"

definition identity_raw_json :: "principal \<Rightarrow> string" where
  "identity_raw_json p = json_dumps (JObj [(''principal'', principal_to_dict p)])"

definition provisioned_identity :: "runtime \<Rightarrow> principal \<Rightarrow> string" where
  "provisioned_identity rt p =
     or_else (p_identity_id p) (stable_id ''idn'' [tenant_of rt p, take 256 (p_subject p)])"

definition provisioned_email :: "principal \<Rightarrow> string option" where
  "provisioned_email p =
     (let subject = take 256 (p_subject p) in
      if truthy (p_email p) then p_email p else if CHR ''@'' \<in> set subject then Some subject else None)"

definition provisioned_display_name :: "principal \<Rightarrow> string" where
  "provisioned_display_name p = or_else (p_display_name p) (p_subject p)"

definition underscore_subject :: "string \<Rightarrow> string" where
  "underscore_subject s = map (\<lambda>c. if c = CHR ''/'' \<or> c = CHR '':'' then CHR ''_'' else c) s"

definition principal_store_statements :: "runtime \<Rightarrow> principal \<Rightarrow> string \<Rightarrow> stmt list" where
  "principal_store_statements rt p identity =
     (let tenant_id = tenant_of rt p; safe = underscore_subject (p_subject p);
          base = ''cap://user/'' @ tenant_id @ ''/'' @ identity;
          store = (\<lambda>kind. stable_id ''store'' [tenant_id, kind, identity]);
          pair = (\<lambda>kind label low space.
            [insert_store_or_ignore (mk_store (store kind) tenant_id kind (safe @ '' '' @ label)
               (base @ ''/'' @ low) (Some identity)),
             insert_namespace_or_ignore (mk_namespace (stable_id ''ns'' [tenant_id, store kind, space]) tenant_id
               (store kind) space (base @ ''/'' @ low @ ''/'' @ space) ''protected'' (p_subject p)
               (''Default '' @ low @ '' namespace for '' @ p_subject p @ ''.''))])
      in pair ''user_private'' ''Private'' ''private'' ''personal''
         @ pair ''user_shared'' ''Shared'' ''shared'' ''shared''
         @ [insert_store_or_ignore (mk_store (stable_id ''store'' [tenant_id, ''org'', DEFAULT_ORG_SLUG rt])
              tenant_id ''org'' (DEFAULT_ORG_DISPLAY_NAME rt @ '' Org Store'')
              (''cap://org/'' @ tenant_id @ ''/'' @ DEFAULT_ORG_SLUG rt) None)])"

definition ensure_principal_stores :: "runtime \<Rightarrow> principal \<Rightarrow> string option \<Rightarrow> conn \<Rightarrow> (conn, unit) outcome" where
  "ensure_principal_stores rt p identity con =
     run_on (principal_store_statements rt p
       (or_else identity (or_else (p_identity_id p) (stable_id ''idn'' [tenant_of rt p, p_subject p])))) () con"

text \<open>The read-first path: every stored attribute already has the value that would be written.\<close>

definition identity_unchanged :: "runtime \<Rightarrow> principal \<Rightarrow> identity_row \<Rightarrow> bool" where
  "identity_unchanged rt p row =
     (id_user_name row = p_subject p \<and> id_display_name row = Some (provisioned_display_name p)
      \<and> (provisioned_email p = None \<or> id_email row = provisioned_email p) \<and> id_type row = ''human''
      \<and> id_active row \<and> id_raw_json row = identity_raw_json p)"

definition identity_to_write :: "runtime \<Rightarrow> principal \<Rightarrow> identity_row" where
  "identity_to_write rt p =
     \<lparr>id_id = provisioned_identity rt p, id_tenant = tenant_of rt p, id_external_id = Some (p_subject p),
      id_user_name = p_subject p, id_display_name = Some (provisioned_display_name p),
      id_email = provisioned_email p, id_type = ''human'', id_active = True,
      id_raw_json = identity_raw_json p, id_created_at = sql_now rt, id_updated_at = sql_now rt\<rparr>"

definition stores_provisioned :: "runtime \<Rightarrow> principal \<Rightarrow> database \<Rightarrow> bool" where
  "stores_provisioned rt p d =
     (2 \<le> rowcount (\<lambda>s. st_tenant s = tenant_of rt p \<and> st_owner_identity s = Some (provisioned_identity rt p)
            \<and> st_kind s \<in> {''user_private'', ''user_shared''}) (stores d))"

definition provision_stores :: "runtime \<Rightarrow> principal \<Rightarrow> conn \<Rightarrow> (conn, string) outcome" where
  "provision_stores rt p con =
     (case ensure_principal_stores rt p (Some (provisioned_identity rt p)) con of
        (Inl e, con1) \<Rightarrow> (Inl e, con1) | (Inr _, con1) \<Rightarrow> (Inr (provisioned_identity rt p), con1))"

definition write_identity :: "runtime \<Rightarrow> principal \<Rightarrow> conn \<Rightarrow> (conn, string) outcome" where
  "write_identity rt p con =
     (case ensure_default_tenant rt (DEFAULT_TENANT rt) con of
        (Inl e, con1) \<Rightarrow> (Inl e, con1)
      | (Inr _, con1) \<Rightarrow> (case run_on [upsert_identity (identity_to_write rt p)] () con1 of
          (Inl e, con2) \<Rightarrow> (Inl e, con2) | (Inr _, con2) \<Rightarrow> provision_stores rt p con2))"

definition ensure_identity_for_principal :: "runtime \<Rightarrow> principal \<Rightarrow> conn \<Rightarrow> (conn, string) outcome" where
  "ensure_identity_for_principal rt p con =
     (let identity = provisioned_identity rt p in
      case find (\<lambda>r. id_id r = identity \<and> id_tenant r = tenant_of rt p) (identities (db con)) of
        None \<Rightarrow> write_identity rt p con
      | Some row \<Rightarrow>
          if identity_unchanged rt p row then
            (if stores_provisioned rt p (db con) then (Inr identity, con) else provision_stores rt p con)
          else write_identity rt p con)"

section \<open>Facts\<close>

text \<open>
  A property of the database that every statement of a class keeps is kept by every run of such
  statements, also by one that stops at an exception.
\<close>

locale statement_invariant =
  fixes allowed :: "stmt \<Rightarrow> bool" and inv :: "database \<Rightarrow> bool"
  assumes statement_keeps: "allowed s \<Longrightarrow> s d = Inr d' \<Longrightarrow> inv d \<Longrightarrow> inv d'"
begin

lemma run_keeps: "list_all allowed ss \<Longrightarrow> inv d \<Longrightarrow> inv (snd (run_statements ss d))"
  by (induction ss d rule: run_statements.induct) (auto split: sum.splits dest: statement_keeps)

lemma run_on_keeps: "list_all allowed ss \<Longrightarrow> inv (db con) \<Longrightarrow> inv (db (snd (run_on ss x con)))"
  using run_keeps [of ss "db con"]
  by (auto simp: run_on_def split: prod.splits option.splits)

end

text \<open>The unique keys of the tables that provisioning writes.\<close>

definition keys_unique :: "database \<Rightarrow> bool" where
  "keys_unique d = (distinct (map tn_id (tenants d)) \<and> distinct (map tn_slug (tenants d))
     \<and> distinct (map id_id (identities d)) \<and> distinct (map st_id (stores d))
     \<and> distinct (map st_uri_prefix (stores d)) \<and> distinct (map ns_id (namespaces d))
     \<and> distinct (map ns_uri_prefix (namespaces d)) \<and> distinct (map org_id (organizations d)))"

text \<open>Every row refers to rows that exist.\<close>

definition refs_resolved :: "database \<Rightarrow> bool" where
  "refs_resolved d =
     (st_tenant ` set (stores d) \<subseteq> tn_id ` set (tenants d)
      \<and> ns_tenant ` set (namespaces d) \<subseteq> tn_id ` set (tenants d)
      \<and> id_tenant ` set (identities d) \<subseteq> tn_id ` set (tenants d)
      \<and> org_tenant ` set (organizations d) \<subseteq> tn_id ` set (tenants d)
      \<and> ns_store ` set (namespaces d) \<subseteq> st_id ` set (stores d)
      \<and> (\<Union>s \<in> set (stores d). set_option (st_owner_identity s)) \<subseteq> id_id ` set (identities d)
      \<and> (\<Union>r \<in> set (organizations d). set_option (org_store r)) \<subseteq> st_id ` set (stores d))"

definition tables_ok :: "database \<Rightarrow> bool" where
  "tables_ok d = (keys_unique d \<and> refs_resolved d)"

lemmas tables_ok_defs = tables_ok_def keys_unique_def refs_resolved_def

lemma has_tenant_iff: "has_tenant d t \<longleftrightarrow> t \<in> tn_id ` set (tenants d)"
  by (auto simp: has_tenant_def list_ex_iff)

lemma has_store_iff: "has_store d s \<longleftrightarrow> s \<in> st_id ` set (stores d)"
  by (auto simp: has_store_def list_ex_iff)

lemma ref_ok_iff: "ref_ok k t x \<longleftrightarrow> set_option x \<subseteq> k ` set t"
  by (cases x) (auto simp: ref_ok_def list_ex_iff)

lemma list_ex_key: "\<not> list_ex (\<lambda>r. k r = a \<or> Q r) t \<Longrightarrow> a \<notin> k ` set t \<and> \<not> list_ex Q t"
  by (auto simp: list_ex_iff)

lemma list_ex_key1: "\<not> list_ex (\<lambda>r. k r = a) t \<longleftrightarrow> a \<notin> k ` set t"
  by (auto simp: list_ex_iff)

definition provisioning_stmt :: "runtime \<Rightarrow> stmt \<Rightarrow> bool" where
  "provisioning_stmt rt s = ((\<exists>r. s = insert_tenant_or_ignore r) \<or> (\<exists>t. s = update_tenant rt t)
     \<or> (\<exists>r. s = insert_identity_or_ignore r) \<or> (\<exists>r. s = insert_store_or_ignore r)
     \<or> (\<exists>r. s = insert_namespace_or_ignore r) \<or> (\<exists>r. s = insert_org_or_ignore r)
     \<or> (\<exists>r. s = upsert_identity r))"

lemma insert_tenant_ok: "insert_tenant_or_ignore row d = Inr d' \<Longrightarrow> tables_ok d \<Longrightarrow> tables_ok d'"
  by (clarsimp simp: insert_tenant_or_ignore_def tables_ok_defs list_ex_key1 subset_insertI2
      split: if_splits dest!: list_ex_key)

lemma update_tenant_ok: "update_tenant rt t d = Inr d' \<Longrightarrow> tables_ok d \<Longrightarrow> tables_ok d'"
proof -
  assume u: "update_tenant rt t d = Inr d'" and ok: "tables_ok d"
  have "map tn_id (tenants d') = map tn_id (tenants d)" "map tn_slug (tenants d') = map tn_slug (tenants d)"
    using u by (auto simp: update_tenant_def map_update_where_frame)
  then have "tn_id ` set (tenants d') = tn_id ` set (tenants d)" by (metis list.set_map)
  moreover have "identities d' = identities d" "stores d' = stores d" "namespaces d' = namespaces d"
      "organizations d' = organizations d"
    using u by (auto simp: update_tenant_def)
  ultimately show "tables_ok d'"
    using ok \<open>map tn_id (tenants d') = map tn_id (tenants d)\<close> \<open>map tn_slug (tenants d') = map tn_slug (tenants d)\<close>
    by (simp add: tables_ok_defs)
qed

lemma insert_identity_ok: "insert_identity_or_ignore row d = Inr d' \<Longrightarrow> tables_ok d \<Longrightarrow> tables_ok d'"
  by (clarsimp simp: insert_identity_or_ignore_def tables_ok_defs has_tenant_iff subset_insertI2
      split: if_splits dest!: list_ex_key)

lemma insert_store_ok: "insert_store_or_ignore row d = Inr d' \<Longrightarrow> tables_ok d \<Longrightarrow> tables_ok d'"
  by (clarsimp simp: insert_store_or_ignore_def tables_ok_defs subset_insertI2 has_tenant_iff ref_ok_iff list_ex_key1
      split: if_splits dest!: list_ex_key)

lemma insert_namespace_ok: "insert_namespace_or_ignore row d = Inr d' \<Longrightarrow> tables_ok d \<Longrightarrow> tables_ok d'"
  by (clarsimp simp: insert_namespace_or_ignore_def tables_ok_defs subset_insertI2 has_tenant_iff has_store_iff
      split: if_splits dest!: list_ex_key)

lemma insert_org_ok: "insert_org_or_ignore row d = Inr d' \<Longrightarrow> tables_ok d \<Longrightarrow> tables_ok d'"
  by (clarsimp simp: insert_org_or_ignore_def tables_ok_defs subset_insertI2 has_tenant_iff ref_ok_iff
      split: if_splits dest!: list_ex_key)

lemma upsert_identity_ok: "upsert_identity row d = Inr d' \<Longrightarrow> tables_ok d \<Longrightarrow> tables_ok d'"
proof -
  assume u: "upsert_identity row d = Inr d'" and ok: "tables_ok d"
  show "tables_ok d'"
  proof (cases "find (\<lambda>r. id_id r = id_id row) (identities d)")
    case None
    then have "id_id row \<notin> id_id ` set (identities d)" by (auto simp: find_None_iff)
    with u ok None show ?thesis
      by (clarsimp simp: upsert_identity_def tables_ok_defs has_tenant_iff subset_insertI2 split: if_splits)
  next
    case (Some old)
    with u have "map id_id (identities d') = map id_id (identities d)"
      "map id_tenant (identities d') = map id_tenant (identities d)" and rest: "tenants d' = tenants d"
      "stores d' = stores d" "namespaces d' = namespaces d" "organizations d' = organizations d"
      by (auto simp: upsert_identity_def map_update_where_frame split: if_splits)
    moreover from this have "id_id ` set (identities d') = id_id ` set (identities d)"
      "id_tenant ` set (identities d') = id_tenant ` set (identities d)" by (metis list.set_map)+
    ultimately show ?thesis using ok by (simp add: tables_ok_defs)
  qed
qed

text \<open>Statements on other tables keep the tenants and the identities.\<close>

definition store_stmt :: "stmt \<Rightarrow> bool" where
  "store_stmt s = ((\<exists>r. s = insert_store_or_ignore r) \<or> (\<exists>r. s = insert_namespace_or_ignore r)
     \<or> (\<exists>r. s = insert_org_or_ignore r))"

interpretation keeps_identities: statement_invariant store_stmt "\<lambda>d. identities d = is" for "is"
  by unfold_locales
    (auto simp: store_stmt_def insert_store_or_ignore_def insert_namespace_or_ignore_def
      insert_org_or_ignore_def split: if_splits)

interpretation keeps_tenants: statement_invariant
  "\<lambda>s. store_stmt s \<or> (\<exists>r. s = insert_identity_or_ignore r)" "\<lambda>d. tenants d = ts" for ts
  by unfold_locales
    (auto simp: store_stmt_def insert_store_or_ignore_def insert_namespace_or_ignore_def
      insert_org_or_ignore_def insert_identity_or_ignore_def split: if_splits)

lemma provisioning_stmtI [simp]:
  "provisioning_stmt rt (insert_tenant_or_ignore a)" "provisioning_stmt rt (update_tenant rt t)"
  "provisioning_stmt rt (insert_identity_or_ignore b)" "provisioning_stmt rt (insert_store_or_ignore c)"
  "provisioning_stmt rt (insert_namespace_or_ignore e)" "provisioning_stmt rt (insert_org_or_ignore f)"
  "provisioning_stmt rt (upsert_identity b)"
  unfolding provisioning_stmt_def by blast+

lemma store_stmtI [simp]:
  "store_stmt (insert_store_or_ignore c)" "store_stmt (insert_namespace_or_ignore e)"
  "store_stmt (insert_org_or_ignore f)"
  unfolding store_stmt_def by blast+

lemma default_tenant_allowed: "list_all (provisioning_stmt rt) (default_tenant_statements rt t)"
  by (simp add: default_tenant_statements_def Let_def)

lemma default_tenant_split:
  obtains row rest where
    "default_tenant_statements rt t = insert_tenant_or_ignore row # update_tenant rt t # rest"
    "tn_id row = t" "tn_slug row = t"
    "list_all (\<lambda>s. store_stmt s \<or> (\<exists>r. s = insert_identity_or_ignore r)) rest"
  by (rule that [OF default_tenant_statements_def [of rt t, unfolded Let_def]]) auto

lemma principal_store_allowed:
  "list_all store_stmt (principal_store_statements rt p i)"
  "list_all (provisioning_stmt rt) (principal_store_statements rt p i)"
  by (simp_all add: principal_store_statements_def Let_def)

lemma ensure_default_tenant_run:
  "ensure_default_tenant rt t con =
     (if bootstrapped rt t (db con) then (Inr t, con) else run_on (default_tenant_statements rt t) t con)"
  by (simp add: ensure_default_tenant_def run_on_def)

lemma ensure_principal_stores_identities:
  "identities (db (snd (ensure_principal_stores rt p i con))) = identities (db con)"
  unfolding ensure_principal_stores_def by (rule keeps_identities.run_on_keeps [OF principal_store_allowed(1)]) simp

lemma provision_stores_db:
  "db (snd (provision_stores rt p con))
     = db (snd (ensure_principal_stores rt p (Some (provisioned_identity rt p)) con))"
  by (simp add: provision_stores_def split: prod.splits sum.splits)

text \<open>What every provisioning statement keeps, every provisioning operation keeps.\<close>

locale provisioning_invariant = statement_invariant "provisioning_stmt rt" inv
  for rt :: runtime and inv :: "database \<Rightarrow> bool"
begin

lemma ensure_default_tenant_keeps: "inv (db con) \<Longrightarrow> inv (db (snd (ensure_default_tenant rt t con)))"
  by (simp add: ensure_default_tenant_run run_on_keeps [OF default_tenant_allowed])

lemma ensure_principal_stores_keeps: "inv (db con) \<Longrightarrow> inv (db (snd (ensure_principal_stores rt p i con)))"
  unfolding ensure_principal_stores_def by (rule run_on_keeps [OF principal_store_allowed(2)])

lemma single_run_keeps:
  "provisioning_stmt rt s \<Longrightarrow> inv (db con) \<Longrightarrow> inv (db (snd (run_on [s] x con)))"
  by (rule run_on_keeps) simp_all

lemma ensure_identity_keeps:
  assumes "inv (db con)"
  shows "inv (db (snd (ensure_identity_for_principal rt p con)))"
proof -
  have stores: "inv (db (snd (provision_stores rt p c)))" if "inv (db c)" for c
    unfolding provision_stores_db using that by (rule ensure_principal_stores_keeps)
  obtain r1 con1 where e1: "ensure_default_tenant rt (DEFAULT_TENANT rt) con = (r1, con1)" by fastforce
  obtain r2 con2 where e2: "run_on [upsert_identity (identity_to_write rt p)] () con1 = (r2, con2)" by fastforce
  have ok1: "inv (db con1)" using ensure_default_tenant_keeps [OF assms, of "DEFAULT_TENANT rt"] e1 by simp
  have ok2: "inv (db con2)"
    using single_run_keeps [OF provisioning_stmtI(7) ok1, of "identity_to_write rt p" "()"] e2 by simp
  have "inv (db (snd (write_identity rt p con)))"
    using ok1 ok2 stores [OF ok2] e2 by (simp add: write_identity_def e1 split: sum.splits)
  then show ?thesis
    using assms stores by (simp add: ensure_identity_for_principal_def Let_def split: option.splits)
qed

end

interpretation provisioning: provisioning_invariant rt tables_ok for rt
  by unfold_locales
    (auto simp: provisioning_stmt_def dest: insert_tenant_ok update_tenant_ok insert_identity_ok
      insert_store_ok insert_namespace_ok insert_org_ok upsert_identity_ok)

text \<open>Provisioning does not touch the tables of grants, shares, requests and records.\<close>

definition governed_tables where
  "governed_tables d = (role_assignments d, relationship_tuples d, shares d, namespace_members d,
     promotion_requests d, approval_steps d, audit_events d, registry_log d, capabilities d, policy_decisions d)"

interpretation ungoverned: provisioning_invariant rt "\<lambda>d. governed_tables d = g" for rt g
  by unfold_locales
    (auto simp: provisioning_stmt_def governed_tables_def insert_tenant_or_ignore_def update_tenant_def
      insert_identity_or_ignore_def insert_store_or_ignore_def insert_namespace_or_ignore_def
      insert_org_or_ignore_def upsert_identity_def split: if_splits option.splits)

lemma upsert_identity_written:
  assumes "upsert_identity row d = Inr d'"
  shows "\<exists>r \<in> set (identities d'). id_id r = id_id row"
    and "\<forall>r \<in> set (identities d'). id_id r = id_id row \<longrightarrow> id_active r = id_active row"
proof -
  show "\<exists>r \<in> set (identities d'). id_id r = id_id row"
  proof (cases "find (\<lambda>r. id_id r = id_id row) (identities d)")
    case None
    with assms show ?thesis by (auto simp: upsert_identity_def split: if_splits)
  next
    case (Some old)
    then have "old \<in> set (identities d)" "id_id old = id_id row" by (auto dest: find_SomeD)
    moreover from Some assms have "map id_id (identities d') = map id_id (identities d)"
      by (auto simp: upsert_identity_def map_update_where_frame split: if_splits)
    ultimately show ?thesis by (metis in_set_conv_nth length_map nth_map)
  qed
  show "\<forall>r \<in> set (identities d'). id_id r = id_id row \<longrightarrow> id_active r = id_active row"
  proof (cases "find (\<lambda>r. id_id r = id_id row) (identities d)")
    case None
    with assms show ?thesis by (auto simp: upsert_identity_def find_None_iff split: if_splits)
  next
    case (Some old)
    with assms have "identities d' = update_where (\<lambda>r. id_id r = id_id row)
        (\<lambda>r. r\<lparr>id_user_name := id_user_name row,
           id_display_name := (case id_display_name row of None \<Rightarrow> id_display_name r | Some v \<Rightarrow> Some v),
           id_email := (case id_email row of None \<Rightarrow> id_email r | Some v \<Rightarrow> Some v),
           id_active := id_active row, id_raw_json := id_raw_json row,
           id_updated_at := id_updated_at row\<rparr>) (identities d)"
      by (auto simp: upsert_identity_def split: if_splits)
    then show ?thesis by (simp add: ball_update_where)
  qed
qed

lemma write_identity_active:
  assumes "write_identity rt p con = (Inr i, con')"
  shows "\<exists>r \<in> set (identities (db con')). id_id r = provisioned_identity rt p"
    and "\<forall>r \<in> set (identities (db con')). id_id r = provisioned_identity rt p \<longrightarrow> id_active r"
proof -
  obtain con1 con2 where w: "run_on [upsert_identity (identity_to_write rt p)] () con1 = (Inr (), con2)"
      "identities (db con') = identities (db con2)"
    using assms provision_stores_db [of rt p] ensure_principal_stores_identities [of rt p]
    by (auto simp: write_identity_def split: prod.splits sum.splits) (metis snd_conv)
  from w(1) obtain d' where "upsert_identity (identity_to_write rt p) (db con1) = Inr d'" "db con2 = d'"
    by (auto simp: run_on_def split: sum.splits)
  from upsert_identity_written [OF this(1)] this(2) w(2)
  show "\<exists>r \<in> set (identities (db con')). id_id r = provisioned_identity rt p"
    "\<forall>r \<in> set (identities (db con')). id_id r = provisioned_identity rt p \<longrightarrow> id_active r"
    by (simp_all add: identity_to_write_def)
qed

lemma bootstrapped_after_run:
  assumes "\<forall>r \<in> set (tenants (db con)). tn_slug r = tn_id r"
    and "run_on (default_tenant_statements rt t) x con = (Inr y, con')"
  shows "bootstrapped rt t (db con')"
proof -
  let ?upd = "update_where (\<lambda>r. tn_id r = t)
    (\<lambda>r. r\<lparr>tn_display_name := DEFAULT_ORG_DISPLAY_NAME rt, tn_status := ''active''\<rparr>)"
  obtain row rest where st:
    "default_tenant_statements rt t = insert_tenant_or_ignore row # update_tenant rt t # rest"
    "tn_id row = t" "tn_slug row = t"
    "list_all (\<lambda>s. store_stmt s \<or> (\<exists>r. s = insert_identity_or_ignore r)) rest"
    by (rule default_tenant_split)
  define d1 where "d1 = (if list_ex (\<lambda>r. tn_id r = t \<or> tn_slug r = t) (tenants (db con)) then db con
    else (db con)\<lparr>tenants := tenants (db con) @ [row]\<rparr>)"
  have ts: "tenants (db con') = ?upd (tenants d1)"
    using assms(2) keeps_tenants.run_keeps [OF st(4), of "d1\<lparr>tenants := ?upd (tenants d1)\<rparr>" "?upd (tenants d1)"]
    by (auto simp: run_on_def st insert_tenant_or_ignore_def update_tenant_def d1_def
        split: prod.splits option.splits if_splits)
  have "\<exists>r \<in> set (tenants d1). tn_id r = t" using assms(1) st(2) by (auto simp: d1_def list_ex_iff)
  then obtain r where "find (\<lambda>r. tn_id r = t) (tenants d1) = Some r"
    using find_is_Some_iff [of "\<lambda>r. tn_id r = t" "tenants d1"] by blast
  moreover from this have "tn_id r = t" by (auto dest: find_SomeD)
  ultimately have "find (\<lambda>r. tn_id r = t) (?upd (tenants d1)) =
      Some (r\<lparr>tn_display_name := DEFAULT_ORG_DISPLAY_NAME rt, tn_status := ''active''\<rparr>)"
    by (subst find_update_where) simp_all
  then show ?thesis by (simp add: bootstrapped_def ts)
qed

lemma update_where_memI: "x \<in> set t \<Longrightarrow> p x \<Longrightarrow> f x \<in> set (update_where p f t)"
  by (force simp: update_where_def)

lemma enforce_grant_effect:
  assumes "enforce_grant rt ev pl want con = (Inr (), con')" "ra_revoked_at want = None"
  shows "\<exists>r \<in> set (role_assignments (db con')). ra_id r = ra_id want \<and> grant_is_correct want r"
proof (cases "case find (\<lambda>r. ra_id r = ra_id want) (role_assignments (db con)) of
    None \<Rightarrow> False | Some row \<Rightarrow> grant_is_correct want row")
  case True
  with assms(1) show ?thesis
    by (auto simp: enforce_grant_def split: option.splits dest: find_SomeD)
next
  case False
  with assms(1) have r: "role_assignments (db con') = role_assignments (upsert_assignment want (db con))"
    by (auto simp: enforce_grant_def split: if_splits)
  show ?thesis
  proof (cases "list_ex (\<lambda>r. ra_id r = ra_id want) (role_assignments (db con))")
    case True
    then obtain x where "x \<in> set (role_assignments (db con))" "ra_id x = ra_id want"
      by (auto simp: list_ex_iff)
    then show ?thesis
      unfolding r upsert_assignment_def using True
      by (simp, intro bexI [OF _ update_where_memI [of x]]) (simp_all add: grant_is_correct_def)
  next
    case False
    with assms(2) show ?thesis by (simp add: r upsert_assignment_def grant_is_correct_def)
  qed
qed

lemma superadmin_subjects_unset:
  assumes "environ rt ''CAPMESH_SUPERADMIN_ACTORS'' = None" "environ rt ''CAPMESH_SUPERADMIN_ACTOR'' = None"
  shows "superadmin_subjects rt = [''admin@example.com'']"
proof -
  have "py_lower (py_strip ''admin@example.com'') = ''admin@example.com''" by code_simp
  moreover have "filter (\<lambda>a. py_strip a \<noteq> []) (split_on (CHR '','') []) = []"
    by (simp add: py_strip_def py_lstrip_def py_rstrip_def)
  ultimately show ?thesis
    using assms by (simp add: superadmin_subjects_def parse_superadmin_actors_def superadmin_actor_def env_or_def)
qed

section \<open>Properties\<close>

text \<open>Provisioning keeps the database consistent: each of the bootstrap operations, whether it
  succeeds or raises, preserves that the keys of tenants, identities, stores, namespaces and
  organizations are unique and that every row refers to rows that exist.\<close>

theorem provisioning_keeps_tables:
  assumes "tables_ok (db con)"
  shows "(tables_ok (db (snd (ensure_default_tenant rt t con))))
    \<and> (tables_ok (db (snd (ensure_org_shared_namespace rt t con))))
    \<and> (tables_ok (db (snd (ensure_all_users_namespace rt t con))))
    \<and> (tables_ok (db (snd (ensure_principal_stores rt p i con))))
    \<and> (tables_ok (db (snd (ensure_identity_for_principal rt p con))))"
proof (intro conjI)
  show d: "tables_ok (db (snd (ensure_default_tenant rt t con)))" using assms by (rule provisioning.ensure_default_tenant_keeps)
  obtain r1 con1 where e: "ensure_default_tenant rt t con = (r1, con1)" by fastforce
  with d have ok: "tables_ok (db con1)" by simp
  show "tables_ok (db (snd (ensure_org_shared_namespace rt t con)))"
    using ok by (simp add: ensure_org_shared_namespace_def e provisioning.single_run_keeps [OF provisioning_stmtI(5)] split: sum.splits)
  show "tables_ok (db (snd (ensure_all_users_namespace rt t con)))"
    using ok by (simp add: ensure_all_users_namespace_def e split: sum.splits)
  show "tables_ok (db (snd (ensure_principal_stores rt p i con)))" using assms by (rule provisioning.ensure_principal_stores_keeps)
  show "tables_ok (db (snd (ensure_identity_for_principal rt p con)))" using assms by (rule provisioning.ensure_identity_keeps)
qed

theorem provisioning_keeps_tables_witness:
  "tables_ok (db (snd (ensure_identity_for_principal sample_runtime sample_principal (sample_conn empty_database))))"
  by (rule provisioning_keeps_tables [THEN conjunct2, THEN conjunct2, THEN conjunct2, THEN conjunct2])
    (simp add: sample_conn_def empty_database_def tables_ok_defs)

text \<open>Bootstrapping is idempotent: once ensure_default_tenant has succeeded, calling it again
  returns the tenant and writes nothing, provided that every tenant row has its id as slug, as
  all rows written by the bootstrap do.\<close>

theorem ensure_default_tenant_idempotent:
  assumes "\<forall>r \<in> set (tenants (db con)). tn_slug r = tn_id r"
    and "ensure_default_tenant rt t con = (Inr y, con')"
  shows "ensure_default_tenant rt t con' = (Inr t, con')"
proof (cases "bootstrapped rt t (db con)")
  case True
  with assms(2) show ?thesis by (simp add: ensure_default_tenant_run)
next
  case False
  with assms(2) have "run_on (default_tenant_statements rt t) t con = (Inr y, con')"
    by (simp add: ensure_default_tenant_run)
  from bootstrapped_after_run [OF assms(1) this] show ?thesis by (simp add: ensure_default_tenant_run)
qed

definition sample_tenants :: "tenant_row list" where
  "sample_tenants = [\<lparr>tn_id = ''asg'', tn_slug = ''asg'', tn_display_name = ''the company'', tn_status = ''active''\<rparr>]"

lemma sample_bootstrapped:
  "bootstrapped sample_runtime ''asg'' (empty_database\<lparr>tenants := sample_tenants, identities := is\<rparr>)"
  by (simp add: bootstrapped_def sample_tenants_def sample_runtime_def DEFAULT_ORG_DISPLAY_NAME_def env_or_def)

theorem ensure_default_tenant_idempotent_witness:
  "ensure_default_tenant sample_runtime ''asg'' (sample_conn (empty_database\<lparr>tenants := sample_tenants\<rparr>))
     = (Inr ''asg'', sample_conn (empty_database\<lparr>tenants := sample_tenants\<rparr>))"
proof (rule ensure_default_tenant_idempotent [where con = "sample_conn (empty_database\<lparr>tenants := sample_tenants\<rparr>)"])
  show "\<forall>r \<in> set (tenants (db (sample_conn (empty_database\<lparr>tenants := sample_tenants\<rparr>)))). tn_slug r = tn_id r"
    by (simp add: sample_conn_def sample_tenants_def)
  show "ensure_default_tenant sample_runtime ''asg'' (sample_conn (empty_database\<lparr>tenants := sample_tenants\<rparr>))
     = (Inr ''asg'', sample_conn (empty_database\<lparr>tenants := sample_tenants\<rparr>))"
    using sample_bootstrapped [of "[]"]
    by (simp add: ensure_default_tenant_run sample_conn_def empty_database_def)
qed

text \<open>Provisioning re-enables a disabled identity: when ensure_identity_for_principal succeeds
  for a principal whose stored identity is inactive, every identity row with that id is active
  afterwards, although no right was checked.\<close>

theorem disabled_identity_is_reactivated:
  assumes "find (\<lambda>r. id_id r = provisioned_identity rt p \<and> id_tenant r = tenant_of rt p)
      (identities (db con)) = Some row" and "\<not> id_active row"
    and "ensure_identity_for_principal rt p con = (Inr i, con')"
  shows "(\<exists>r \<in> set (identities (db con')). id_id r = provisioned_identity rt p)
    \<and> (\<forall>r \<in> set (identities (db con')). id_id r = provisioned_identity rt p \<longrightarrow> id_active r)"
proof (intro conjI)
  have "write_identity rt p con = (Inr i, con')"
    using assms by (simp add: ensure_identity_for_principal_def identity_unchanged_def)
  from write_identity_active [OF this]
  show "\<exists>r \<in> set (identities (db con')). id_id r = provisioned_identity rt p"
    "\<forall>r \<in> set (identities (db con')). id_id r = provisioned_identity rt p \<longrightarrow> id_active r" by auto
qed

definition sample_disabled_conn :: conn where
  "sample_disabled_conn =
     (let store = (\<lambda>kind. mk_store (stable_id ''store'' [''asg'', kind, ''idn_ann'']) ''asg'' kind [] kind None);
          org = mk_store (stable_id ''store'' [''asg'', ''org'', ''the-company'']) ''asg'' ''org'' [] ''o'' None;
          namespace = (\<lambda>kind space. mk_namespace (stable_id ''ns'' [''asg'',
            stable_id ''store'' [''asg'', kind, ''idn_ann''], space]) ''asg'' [] [] kind [] [] [])
      in sample_conn (empty_database\<lparr>tenants := sample_tenants,
        identities := [\<lparr>id_id = ''idn_ann'', id_tenant = ''asg'', id_external_id = None,
          id_user_name = ''ann@example.com'', id_display_name = None, id_email = None, id_type = ''human'',
          id_active = False, id_raw_json = [], id_created_at = [], id_updated_at = []\<rparr>],
        stores := [store ''user_private'', store ''user_shared'', org],
        namespaces := [namespace ''user_private'' ''personal'', namespace ''user_shared'' ''shared'']\<rparr>))"

theorem disabled_identity_is_reactivated_witness:
  "is_disabled sample_runtime (db sample_disabled_conn) sample_principal
   \<and> list_all (\<lambda>r. id_id r \<noteq> ''idn_ann'' \<or> id_active r) (identities (db (snd (ensure_identity_for_principal
        sample_runtime sample_principal sample_disabled_conn))))"
proof -
  have t: "tenant_of sample_runtime sample_principal = ''asg''"
    by (simp add: tenant_of_def sample_principal_def)
  have i: "provisioned_identity sample_runtime sample_principal = ''idn_ann''"
    by (simp add: provisioned_identity_def sample_principal_def)
  have slug: "DEFAULT_ORG_SLUG sample_runtime = ''the-company''" "DEFAULT_TENANT sample_runtime = ''asg''"
    by (simp_all add: DEFAULT_ORG_SLUG_def DEFAULT_TENANT_def env_or_def sample_runtime_def)
  have dis: "is_disabled sample_runtime (db sample_disabled_conn) sample_principal"
    by (simp add: is_disabled_def t sample_disabled_conn_def sample_conn_def empty_database_def
        order_by_desc_def Let_def) (simp add: sample_principal_def)
  have tn: "bootstrapped sample_runtime ''asg'' (db sample_disabled_conn)"
    using sample_bootstrapped [of "[]"]
    by (simp add: bootstrapped_def sample_disabled_conn_def sample_conn_def empty_database_def Let_def)
  let ?st = "principal_store_statements sample_runtime sample_principal ''idn_ann''"
  have run: "run_statements ?st (db sample_disabled_conn\<lparr>identities := is\<rparr>)
      = (None, db sample_disabled_conn\<lparr>identities := is\<rparr>)" for "is"
    by (simp add: principal_store_statements_def t slug sample_disabled_conn_def sample_conn_def Let_def
        insert_store_or_ignore_def insert_namespace_or_ignore_def mk_store_def mk_namespace_def)
  have up: "\<exists>is. upsert_identity (identity_to_write sample_runtime sample_principal) (db sample_disabled_conn)
      = Inr (db sample_disabled_conn\<lparr>identities := is\<rparr>)"
    by (simp add: upsert_identity_def identity_to_write_def i t sample_disabled_conn_def sample_conn_def
        empty_database_def Let_def)
  then obtain "is" where up: "run_on [upsert_identity (identity_to_write sample_runtime sample_principal)] ()
      sample_disabled_conn = (Inr (), sample_disabled_conn\<lparr>db := db sample_disabled_conn\<lparr>identities := is\<rparr>\<rparr>)"
    by (auto simp: run_on_def)
  have "ensure_principal_stores sample_runtime sample_principal (Some ''idn_ann'')
      (sample_disabled_conn\<lparr>db := db sample_disabled_conn\<lparr>identities := is\<rparr>\<rparr>)
      = (Inr (), sample_disabled_conn\<lparr>db := db sample_disabled_conn\<lparr>identities := is\<rparr>\<rparr>)"
    by (simp add: ensure_principal_stores_def run_on_def run)
  then have "\<exists>con'. write_identity sample_runtime sample_principal sample_disabled_conn = (Inr ''idn_ann'', con')"
    by (simp add: write_identity_def slug ensure_default_tenant_run tn up provision_stores_def i)
  moreover have "ensure_identity_for_principal sample_runtime sample_principal sample_disabled_conn
      = write_identity sample_runtime sample_principal sample_disabled_conn"
    by (simp add: ensure_identity_for_principal_def i t identity_unchanged_def sample_disabled_conn_def
        sample_conn_def empty_database_def Let_def)
  ultimately have "\<exists>con'. ensure_identity_for_principal sample_runtime sample_principal sample_disabled_conn
      = (Inr ''idn_ann'', con')" by simp
  then obtain con' where c: "ensure_identity_for_principal sample_runtime sample_principal sample_disabled_conn
      = (Inr ''idn_ann'', con')" by blast
  have "\<exists>row. find (\<lambda>r. id_id r = ''idn_ann'' \<and> id_tenant r = ''asg'') (identities (db sample_disabled_conn))
      = Some row \<and> \<not> id_active row"
    by (simp add: sample_disabled_conn_def sample_conn_def empty_database_def Let_def)
  then obtain row where row: "find (\<lambda>r. id_id r = ''idn_ann'' \<and> id_tenant r = ''asg'')
      (identities (db sample_disabled_conn)) = Some row" "\<not> id_active row" by blast
  from disabled_identity_is_reactivated [OF row(1) [folded i t] row(2) c, THEN conjunct2] dis show ?thesis
    by (auto simp: c i list_all_iff)
qed

text \<open>Without any configuration the placeholder address is superadmin: when neither
  CAPMESH_SUPERADMIN_ACTORS nor CAPMESH_SUPERADMIN_ACTOR is set, a successful
  ensure_platform_superadmins leaves an unrevoked platform_admin grant on the whole tenant for
  admin@example.com.\<close>

theorem unconfigured_superadmin_is_placeholder:
  assumes "environ rt ''CAPMESH_SUPERADMIN_ACTORS'' = None" "environ rt ''CAPMESH_SUPERADMIN_ACTOR'' = None"
    and "ensure_platform_superadmins rt tenant con = (Inr (), con')"
  shows "\<exists>r \<in> set (role_assignments (db con')). ra_subject_type r = ''user''
    \<and> ra_subject_id r = ''admin@example.com'' \<and> ra_role r = ''platform_admin''
    \<and> ra_scope_type r = ''tenant'' \<and> ra_scope_id r = tenant \<and> ra_revoked_at r = None"
proof -
  have "\<exists>pl. enforce_grant rt ''role.operator_policy_enforced'' pl
      (superadmin_assignment rt tenant ''admin@example.com'') con = (Inr (), con')"
    using assms by (auto simp: ensure_platform_superadmins_def superadmin_subjects_unset split: prod.splits sum.splits)
  then obtain r where "r \<in> set (role_assignments (db con'))"
      "grant_is_correct (superadmin_assignment rt tenant ''admin@example.com'') r"
    using enforce_grant_effect by (fastforce simp: superadmin_assignment_def)
  then show ?thesis by (auto simp: grant_is_correct_def superadmin_assignment_def)
qed

theorem unconfigured_superadmin_is_placeholder_witness:
  "\<exists>r \<in> set (role_assignments (db (snd (ensure_platform_superadmins sample_runtime ''asg''
      (sample_conn (empty_database\<lparr>tenants := sample_tenants\<rparr>)))))). ra_subject_id r = ''admin@example.com''
      \<and> ra_role r = ''platform_admin''"
proof -
  let ?con = "sample_conn (empty_database\<lparr>tenants := sample_tenants\<rparr>)"
  have env: "environ sample_runtime k = None" for k by (simp add: sample_runtime_def)
  have "\<exists>con'. ensure_platform_superadmins sample_runtime ''asg'' ?con = (Inr (), con')"
    by (simp add: ensure_platform_superadmins_def superadmin_subjects_unset [OF env env] enforce_grant_def
        sample_conn_def empty_database_def has_tenant_def sample_tenants_def superadmin_assignment_def)
  then obtain con' where c: "ensure_platform_superadmins sample_runtime ''asg'' ?con = (Inr (), con')" by blast
  from unconfigured_superadmin_is_placeholder [OF env env c] c show ?thesis by auto
qed

end
