(* ===== verification/Py_Payload.thy ===== *)
theory Py_Payload
  imports Py_Json
begin

text \<open>
  Request payloads: a dictionary of JSON values, read with \<^verbatim>\<open>payload.get(key)\<close>, coerced with
  \<^verbatim>\<open>str(...)\<close> and bound to SQL parameters. \<^verbatim>\<open>str\<close> of a list or a dictionary is Python's \<^verbatim>\<open>repr\<close>.
\<close>

section \<open>Truth value, str and repr\<close>

definition json_truthy :: "json \<Rightarrow> bool" where
  "json_truthy v = (case v of JNull \<Rightarrow> False | JBool b \<Rightarrow> b | JInt i \<Rightarrow> i \<noteq> 0 | JStr s \<Rightarrow> s \<noteq> []
     | JList xs \<Rightarrow> xs \<noteq> [] | JObj kvs \<Rightarrow> kvs \<noteq> [])"

definition printable :: "char \<Rightarrow> bool" where
  "printable c = (let n = code_point c in 32 \<le> n \<and> \<not> (127 \<le> n \<and> n \<le> 160) \<and> n \<noteq> 173)"

definition hex2 :: "nat \<Rightarrow> string" where
  "hex2 n = (let h = (\<lambda>k. if k < 10 then char_of (k + 48) else char_of (k + 87)) in [h (n div 16), h (n mod 16)])"

definition repr_char :: "char \<Rightarrow> char \<Rightarrow> string" where
  "repr_char q c =
     (if c = q \<or> c = CHR 0x5C then [CHR 0x5C, c]
      else if c = CHR 0x09 then [CHR 0x5C, CHR ''t''] else if c = CHR 0x0A then [CHR 0x5C, CHR ''n'']
      else if c = CHR 0x0D then [CHR 0x5C, CHR ''r''] else if printable c then [c]
      else [CHR 0x5C, CHR ''x''] @ hex2 (code_point c))"

definition repr_str :: "string \<Rightarrow> string" where
  "repr_str s = (let q = (if CHR 0x27 \<in> set s \<and> CHR 0x22 \<notin> set s then CHR 0x22 else CHR 0x27)
     in [q] @ concat (map (repr_char q) s) @ [q])"

fun py_repr :: "json \<Rightarrow> string" where
  "py_repr JNull = ''None''"
| "py_repr (JBool b) = (if b then ''True'' else ''False'')"
| "py_repr (JInt i) = str_of_int i"
| "py_repr (JStr s) = repr_str s"
| "py_repr (JList xs) = ''['' @ join_with '', '' (map py_repr xs) @ '']''"
| "py_repr (JObj kvs) = ''{'' @ join_with '', '' (map (\<lambda>(k, v). repr_str k @ '': '' @ py_repr v) kvs) @ ''}''"

definition py_str :: "json \<Rightarrow> string" where
  "py_str v = (case v of JStr s \<Rightarrow> s | _ \<Rightarrow> py_repr v)"

section \<open>Payloads\<close>

type_synonym payload = "(string \<times> json) list"

definition pget :: "payload \<Rightarrow> string \<Rightarrow> json" where
  "pget p k = (case map_of p k of None \<Rightarrow> JNull | Some v \<Rightarrow> v)"

text \<open>\<^verbatim>\<open>a or b\<close> on values, and \<^verbatim>\<open>str(payload.get(k) or default)\<close>.\<close>

definition json_or :: "json \<Rightarrow> json \<Rightarrow> json" where
  "json_or a b = (if json_truthy a then a else b)"

definition str_or :: "payload \<Rightarrow> string \<Rightarrow> string \<Rightarrow> string" where
  "str_or p k d = py_str (json_or (pget p k) (JStr d))"

text \<open>A value bound to a nullable TEXT column: numbers take the text affinity, a container is
  refused by the driver.\<close>

definition bind_text :: "json \<Rightarrow> py_error + string option" where
  "bind_text v = (case v of JNull \<Rightarrow> Inr None | JStr s \<Rightarrow> Inr (Some s) | JInt i \<Rightarrow> Inr (Some (str_of_int i))
     | JBool b \<Rightarrow> Inr (Some (if b then ''1'' else ''0''))
     | _ \<Rightarrow> Inl (ProgrammingErr ''Error binding parameter: type is not supported''))"

text \<open>\<^verbatim>\<open>int(value)\<close> of a payload value; None for a \<^verbatim>\<open>TypeError\<close> or \<^verbatim>\<open>ValueError\<close>.\<close>

definition int_text :: "string \<Rightarrow> int option" where
  "int_text t =
     (let s = py_strip t; neg = startswith s ''-''; body = (if neg \<or> startswith s ''+'' then tl s else s);
          groups = split_on (CHR ''_'') body
      in if list_all (\<lambda>g. g \<noteq> [] \<and> list_all ascii_digit g) groups
         then Some ((if neg then -1 else 1) * int (nat_of_digits (concat groups))) else None)"

definition py_int :: "json \<Rightarrow> int option" where
  "py_int v = (case v of JInt i \<Rightarrow> Some i | JBool b \<Rightarrow> Some (if b then 1 else 0) | JStr s \<Rightarrow> int_text s | _ \<Rightarrow> None)"

section \<open>Values of unknown type\<close>

text \<open>Iteration, \<^verbatim>\<open>value.get(key)\<close> and \<^verbatim>\<open>int(value)\<close>.\<close>

definition iterate :: "json \<Rightarrow> py_error + json list" where
  "iterate v = (case v of JList xs \<Rightarrow> Inr xs | JObj kvs \<Rightarrow> Inr (map (JStr \<circ> fst) kvs)
     | JStr s \<Rightarrow> Inr (map (\<lambda>c. JStr [c]) s) | _ \<Rightarrow> Inl (TypeErr ''object is not iterable''))"

definition is_dict :: "json \<Rightarrow> bool" where
  "is_dict v = (case v of JObj _ \<Rightarrow> True | _ \<Rightarrow> False)"

definition get_of :: "string \<Rightarrow> json \<Rightarrow> json" where
  "get_of k v = (case v of JObj kvs \<Rightarrow> pget kvs k | _ \<Rightarrow> JNull)"

definition to_int :: "json \<Rightarrow> py_error + int" where
  "to_int v = (case py_int v of Some i \<Rightarrow> Inr i
     | None \<Rightarrow> (case v of JStr s \<Rightarrow> Inl (ValueError (''invalid literal for int() with base 10: '' @ repr_str s))
         | _ \<Rightarrow> Inl (TypeErr ''int() argument must be a string, a bytes-like object or a real number'')))"

lemma str_or_string [simp]:
  "map_of p k = Some (JStr s) \<Longrightarrow> s \<noteq> [] \<Longrightarrow> str_or p k d = s"
  by (simp add: str_or_def pget_def json_or_def json_truthy_def py_str_def)

lemma str_or_absent [simp]: "map_of p k = None \<Longrightarrow> str_or p k d = d"
  by (simp add: str_or_def pget_def json_or_def json_truthy_def py_str_def)

end
