(* ===== verification/Roles_Orgs.thy ===== *)
theory Roles_Orgs
  imports Provisioning Py_Payload
begin

text \<open>
  Role assignments and organization membership: \<^verbatim>\<open>roles_orgs.py\<close>.

  Every writer asks \<^verbatim>\<open>evaluate_access\<close> first; what a refused request leaves behind and what an
  accepted one presupposes follow from the contract \<^verbatim>\<open>access_gate\<close> of the cascade.
\<close>

section \<open>Roles\<close>

definition insert_assignment :: "role_assignment_row \<Rightarrow> conn \<Rightarrow> conn" where
  "insert_assignment row con = with_db (\<lambda>d. d\<lparr>role_assignments := role_assignments d @ [row]\<rparr>) con"

text \<open>INSERT OR IGNORE INTO relationship_tuples, unique on (tenant, object, relation, user).\<close>

definition insert_tuple_or_ignore :: "relationship_row \<Rightarrow> conn \<Rightarrow> conn" where
  "insert_tuple_or_ignore row con =
     with_db (\<lambda>d. if list_ex (\<lambda>r. rt_tenant r = rt_tenant row \<and> rt_object r = rt_object row
           \<and> rt_relation r = rt_relation row \<and> rt_user r = rt_user row) (relationship_tuples d)
        then d else d\<lparr>relationship_tuples := relationship_tuples d @ [row]\<rparr>) con"

type_synonym subject_ref = string
type_synonym role_name = string

definition mk_assignment ::
  "runtime \<Rightarrow> string \<Rightarrow> string \<Rightarrow> string \<Rightarrow> subject_ref \<Rightarrow> role_name \<Rightarrow> string \<Rightarrow> string \<Rightarrow> string \<Rightarrow> subject_ref \<Rightarrow>
   string option \<Rightarrow> role_assignment_row" where
  "mk_assignment rt i tenant stype sid role scope_type scope_id source created_by expires_at =
     \<lparr>ra_id = i, ra_tenant = tenant, ra_subject_type = stype, ra_subject_id = sid, ra_role = role,
      ra_scope_type = scope_type, ra_scope_id = scope_id, ra_source = source, ra_created_by = created_by,
      ra_expires_at = expires_at, ra_revoked_at = None, ra_created_at = sql_now rt\<rparr>"

definition role_record :: "role_assignment_row \<Rightarrow> json" where
  "role_record row = JObj [(''id'', JStr (ra_id row)), (''tenantId'', JStr (ra_tenant row)),
     (''subjectType'', JStr (ra_subject_type row)), (''subjectId'', JStr (ra_subject_id row)),
     (''role'', JStr (ra_role row)), (''scopeType'', JStr (ra_scope_type row)),
     (''scopeId'', JStr (ra_scope_id row)), (''source'', JStr (ra_source row)),
     (''createdBy'', JStr (ra_created_by row)), (''expiresAt'', json_opt (ra_expires_at row)),
     (''revokedAt'', json_opt (ra_revoked_at row)), (''createdAt'', JStr (ra_created_at row))]"

definition assign_role :: "runtime \<Rightarrow> principal \<Rightarrow> payload \<Rightarrow> conn \<Rightarrow> (conn, json) outcome" where
  "assign_role rt p payload con =
     (let tenant_id = tenant_of rt p in
      require_access (evaluate_access rt p ''manage'' None (Some (''tenant:'' @ tenant_id)) True) (\<lambda>con1.
        let role = str_or payload ''role'' [] in
        if role \<notin> set (map fst ROLE_RIGHTS) then (Inl (ValueError ''Unsupported role.''), con1)
        else
          let (assignment_id, con2) = new_id rt ''rol'' con1 in
          case bind_text (pget payload ''expiresAt'') of
            Inl e \<Rightarrow> (Inl e, con2)
          | Inr expires_at \<Rightarrow>
              let row = mk_assignment rt assignment_id tenant_id (str_or payload ''subjectType'' ''user'')
                    (str_or payload ''subjectId'' []) role (str_or payload ''scopeType'' ''tenant'')
                    (str_or payload ''scopeId'' tenant_id) (str_or payload ''source'' ''manual'') (p_subject p)
                    expires_at;
                  con3 = insert_assignment row con2;
                  con4 = (if json_truthy (pget payload ''relationshipObject'') then
                      let (rel, c) = new_id rt ''rel'' con3 in
                      insert_tuple_or_ignore \<lparr>rt_id = rel, rt_tenant = tenant_id,
                        rt_object = py_str (pget payload ''relationshipObject''), rt_relation = role,
                        rt_user = str_or payload ''subjectType'' ''user'' @ '':'' @ str_or payload ''subjectId'' [],
                        rt_source = str_or payload ''source'' ''manual''\<rparr> c
                    else con3);
                  con5 = snd (audit_event rt ''role.assigned'' (p_subject p) (Some assignment_id) (Some ''assign'')
                    (Some ''allow'') None payload tenant_id ''user'' con4)
              in (Inr (role_record row), commit con5)) con)"

definition revoke_role :: "runtime \<Rightarrow> principal \<Rightarrow> string \<Rightarrow> conn \<Rightarrow> (conn, json) outcome" where
  "revoke_role rt p assignment_id con =
     require_access (evaluate_access rt p ''manage'' None (Some (''role:'' @ assignment_id)) True) (\<lambda>con1.
       let con2 = with_db (\<lambda>d. d\<lparr>role_assignments :=
             update_where (\<lambda>r. ra_id r = assignment_id \<and> ra_tenant r = p_tenant_id p)
               (ra_revoked_at_update (\<lambda>_. Some (sql_now rt))) (role_assignments d)\<rparr>) con1;
           con3 = snd (audit_event rt ''role.revoked'' (p_subject p) (Some assignment_id) (Some ''revoke'')
             (Some ''allow'') None [] (p_tenant_id p) ''user'' con2)
       in (Inr (JObj [(''id'', JStr assignment_id), (''state'', JStr ''revoked'')]), commit con3)) con"

definition require_admin_or_audit :: "runtime \<Rightarrow> principal \<Rightarrow> string \<Rightarrow> conn \<Rightarrow> (conn, unit) outcome" where
  "require_admin_or_audit rt p resource_uri con =
     (let ((allowed, _), con1) = evaluate_access rt p ''manage'' None (Some resource_uri) True con in
      if allowed then (Inr (), con1)
      else let ((allowed, _), con2) = evaluate_access rt p ''audit'' None (Some resource_uri) True con1 in
        if allowed then (Inr (), con2)
        else (Inl (PermissionError ''This listing requires the manage or audit right.''), con2))"

definition list_roles :: "runtime \<Rightarrow> principal \<Rightarrow> conn \<Rightarrow> (conn, json list) outcome" where
  "list_roles rt p con =
     (case require_admin_or_audit rt p (''tenant:'' @ tenant_of rt p) con of
        (Inl e, con1) \<Rightarrow> (Inl e, con1)
      | (Inr _, con1) \<Rightarrow> (Inr (map role_record (order_by_desc ra_created_at
          (filter (\<lambda>r. ra_tenant r = p_tenant_id p) (role_assignments (db con1))))), con1))"

section \<open>Organizations\<close>

definition ORG_MEMBER_ROLES :: "string list" where
  "ORG_MEMBER_ROLES = [''member'', ''namespace_admin'', ''org_admin'']"

definition resolve_org :: "database \<Rightarrow> string \<Rightarrow> string \<Rightarrow> py_error + organization_row" where
  "resolve_org d tenant_id ref =
     (if ref = [] then Inl (ValueError ''An org slug, id, or store id is required.'')
      else case find (\<lambda>r. org_tenant r = tenant_id \<and>
              (org_id r = ref \<or> org_slug r = ref \<or> org_store r = Some ref)) (organizations d) of
        None \<Rightarrow> Inl (ValueError (''Unknown organization: '' @ ref))
      | Some row \<Rightarrow> Inr row)"

definition organization_record :: "organization_row \<Rightarrow> json" where
  "organization_record row = JObj [(''id'', JStr (org_id row)), (''tenantId'', JStr (org_tenant row)),
     (''slug'', JStr (org_slug row)), (''displayName'', JStr (org_display_name row)),
     (''storeId'', json_opt (org_store row)), (''status'', JStr (org_status row)),
     (''createdAt'', JStr (org_created_at row))]"

definition list_organizations :: "runtime \<Rightarrow> principal \<Rightarrow> conn \<Rightarrow> (conn, json list) outcome" where
  "list_organizations rt p con =
     (case ensure_identity_for_principal rt p con of
        (Inl e, con1) \<Rightarrow> (Inl e, con1)
      | (Inr _, con1) \<Rightarrow> (Inr (map organization_record (order_by org_slug
          (filter (\<lambda>r. org_tenant r = tenant_of rt p) (organizations (db con1))))), con1))"

text \<open>The organization a payload names, and \<^verbatim>\<open>f"store:{org_store_id}"\<close>, where a missing store prints
  as None.\<close>

definition org_ref :: "payload \<Rightarrow> string" where
  "org_ref payload = py_str (json_or (pget payload ''org'')
     (json_or (pget payload ''storeId'') (json_or (pget payload ''orgId'') (JStr []))))"

definition org_store_ref :: "organization_row \<Rightarrow> string" where
  "org_store_ref org = ''store:'' @ (case org_store org of None \<Rightarrow> ''None'' | Some s \<Rightarrow> s)"

text \<open>Manage on the store of the organization, or else on the tenant.\<close>

definition manage_org ::
  "runtime \<Rightarrow> principal \<Rightarrow> organization_row \<Rightarrow> conn \<Rightarrow> (bool \<times> string option) \<times> conn" where
  "manage_org rt p org con =
     (let ((allowed, reason), con1) = evaluate_access rt p ''manage'' None (Some (org_store_ref org)) True con in
      if allowed then ((True, reason), con1)
      else evaluate_access rt p ''manage'' None (Some (''tenant:'' @ tenant_of rt p)) True con1)"

definition member_subject :: "payload \<Rightarrow> string" where
  "member_subject payload = py_str (json_or (pget payload ''subjectId'') (json_or (pget payload ''user'') (JStr [])))"

text \<open>What the two writers do once the principal may manage the organization.\<close>

definition add_member :: "runtime \<Rightarrow> principal \<Rightarrow> payload \<Rightarrow> organization_row \<Rightarrow> conn \<Rightarrow> (conn, json) outcome" where
  "add_member rt p payload org con1 =
     (let role = str_or payload ''role'' ''member''; subject_id = member_subject payload in
      if role \<notin> set ORG_MEMBER_ROLES then
        (Inl (ValueError (''Unsupported org membership role: '' @ role @
           '' (use member, namespace_admin, or org_admin).'')), con1)
      else if subject_id = [] then (Inl (ValueError ''A subjectId (user email/identity) is required.''), con1)
      else
        let (assignment_id, con2) = new_id rt ''rol'' con1 in
        case bind_text (pget payload ''expiresAt'') of
          Inl e \<Rightarrow> (Inl e, con2)
        | Inr expires_at \<Rightarrow>
            let row = mk_assignment rt assignment_id (tenant_of rt p) (str_or payload ''subjectType'' ''user'')
                  subject_id role ''org'' (org_id org) (str_or payload ''source'' ''manual'') (p_subject p)
                  expires_at;
                con3 = snd (audit_event rt ''org.member_added'' (p_subject p) (Some (org_id org))
                  (Some ''add_member'') (Some ''allow'') None
                  [(''subjectId'', JStr subject_id), (''role'', JStr role),
                   (''assignmentId'', JStr assignment_id), (''orgSlug'', JStr (org_slug org))]
                  (tenant_of rt p) ''user'' (insert_assignment row con2))
            in (Inr (role_record row), commit con3))"

definition add_org_member :: "runtime \<Rightarrow> principal \<Rightarrow> payload \<Rightarrow> conn \<Rightarrow> (conn, json) outcome" where
  "add_org_member rt p payload con =
     (case resolve_org (db con) (tenant_of rt p) (org_ref payload) of
        Inl e \<Rightarrow> (Inl e, con)
      | Inr org \<Rightarrow> require_access (manage_org rt p org) (add_member rt p payload org) con)"

definition org_grant_of :: "string \<Rightarrow> string \<Rightarrow> string \<Rightarrow> string \<Rightarrow> role_assignment_row \<Rightarrow> bool" where
  "org_grant_of tenant_id oid subject_type subject_id r =
     (ra_tenant r = tenant_id \<and> ra_scope_type r = ''org'' \<and> ra_scope_id r = oid
      \<and> ra_subject_type r = subject_type \<and> ra_subject_id r = subject_id \<and> ra_revoked_at r = None)"

definition remove_member :: "runtime \<Rightarrow> principal \<Rightarrow> payload \<Rightarrow> organization_row \<Rightarrow> conn \<Rightarrow> (conn, json) outcome" where
  "remove_member rt p payload org con1 =
     (let subject_id = member_subject payload in
      if subject_id = [] then (Inl (ValueError ''A subjectId (user email/identity) is required.''), con1)
      else
        let subject_type = str_or payload ''subjectType'' ''user'';
            hit = org_grant_of (tenant_of rt p) (org_id org) subject_type subject_id;
            revoked = int (rowcount hit (role_assignments (db con1)));
            con2 = with_db (\<lambda>d. d\<lparr>role_assignments :=
              update_where hit (ra_revoked_at_update (\<lambda>_. Some (sql_now rt))) (role_assignments d)\<rparr>) con1;
            con3 = snd (audit_event rt ''org.member_removed'' (p_subject p) (Some (org_id org))
              (Some ''remove_member'') (Some ''allow'') None
              [(''subjectId'', JStr subject_id), (''subjectType'', JStr subject_type),
               (''revoked'', JInt revoked), (''orgSlug'', JStr (org_slug org))] (tenant_of rt p) ''user'' con2)
        in (Inr (JObj [(''orgId'', JStr (org_id org)), (''slug'', JStr (org_slug org)),
              (''subjectId'', JStr subject_id), (''revoked'', JInt revoked), (''state'', JStr ''removed'')]),
            commit con3))"

definition remove_org_member :: "runtime \<Rightarrow> principal \<Rightarrow> payload \<Rightarrow> conn \<Rightarrow> (conn, json) outcome" where
  "remove_org_member rt p payload con =
     (case resolve_org (db con) (tenant_of rt p) (org_ref payload) of
        Inl e \<Rightarrow> (Inl e, con)
      | Inr org \<Rightarrow> require_access (manage_org rt p org) (remove_member rt p payload org) con)"

definition list_org_members ::
  "runtime \<Rightarrow> principal \<Rightarrow> string \<Rightarrow> conn \<Rightarrow> (conn, json list) outcome" where
  "list_org_members rt p ref con =
     (case resolve_org (db con) (tenant_of rt p) ref of
        Inl e \<Rightarrow> (Inl e, con)
      | Inr org \<Rightarrow> (case require_admin_or_audit rt p (org_store_ref org) con of
          (Inl e, con1) \<Rightarrow> (Inl e, con1)
        | (Inr _, con1) \<Rightarrow>
            (Inr (map role_record (filter (\<lambda>r. \<not> expired (ra_expires_at r) (utc_now rt))
               (order_by_desc ra_created_at (filter (\<lambda>r. ra_tenant r = tenant_of rt p
                  \<and> ra_scope_type r = ''org'' \<and> ra_scope_id r = org_id org \<and> ra_revoked_at r = None)
                  (role_assignments (db con1)))))), con1)))"

definition audit_record :: "audit_row \<Rightarrow> json" where
  "audit_record row = JObj [(''id'', JStr (ae_id row)), (''eventType'', JStr (ae_event_type row)),
     (''actor'', JStr (ae_actor row)), (''actorType'', JStr (ae_actor_type row)),
     (''target'', json_opt (ae_target row)), (''action'', json_opt (ae_action row)),
     (''decision'', json_opt (ae_decision row)), (''reason'', json_opt (ae_reason row)),
     (''payload'', ae_payload row), (''createdAt'', JStr (ae_created_at row))]"

definition list_audit_events :: "runtime \<Rightarrow> principal \<Rightarrow> int \<Rightarrow> conn \<Rightarrow> (conn, json list) outcome" where
  "list_audit_events rt p limit con =
     require_access (evaluate_access rt p ''audit'' None (Some (''tenant:'' @ p_tenant_id p)) True) (\<lambda>con1.
       (Inr (map audit_record (take (nat (min (max limit 1) 200)) (order_by_desc ae_created_at
          (filter (\<lambda>e. ae_tenant e = p_tenant_id p) (audit_events (db con1)))))), con1)) con"

section \<open>Administration requests\<close>

text \<open>The writers of the module as one kind of request, and the right each one presupposes.\<close>

datatype role_request =
    AssignRole payload
  | RevokeRole string
  | AddOrgMember payload
  | RemoveOrgMember payload

definition run_role_request :: "runtime \<Rightarrow> principal \<Rightarrow> role_request \<Rightarrow> conn \<Rightarrow> (conn, json) outcome" where
  "run_role_request rt p req con = (case req of
     AssignRole pl \<Rightarrow> assign_role rt p pl con
   | RevokeRole i \<Rightarrow> revoke_role rt p i con
   | AddOrgMember pl \<Rightarrow> add_org_member rt p pl con
   | RemoveOrgMember pl \<Rightarrow> remove_org_member rt p pl con)"

definition may_manage :: "runtime \<Rightarrow> database \<Rightarrow> principal \<Rightarrow> string \<Rightarrow> bool" where
  "may_manage rt d p res = access_allowed rt d p ''manage'' None (Some res)"

definition may_manage_org :: "runtime \<Rightarrow> database \<Rightarrow> principal \<Rightarrow> string \<Rightarrow> bool" where
  "may_manage_org rt d p ref = (case resolve_org d (tenant_of rt p) ref of
     Inl _ \<Rightarrow> False
   | Inr org \<Rightarrow> may_manage rt d p (org_store_ref org) \<or> may_manage rt d p (''tenant:'' @ tenant_of rt p))"

definition may_administer :: "runtime \<Rightarrow> database \<Rightarrow> principal \<Rightarrow> role_request \<Rightarrow> bool" where
  "may_administer rt d p req = (case req of
     AssignRole _ \<Rightarrow> may_manage rt d p (''tenant:'' @ tenant_of rt p)
   | RevokeRole i \<Rightarrow> may_manage rt d p (''role:'' @ i)
   | AddOrgMember pl \<Rightarrow> may_manage_org rt d p (org_ref pl)
   | RemoveOrgMember pl \<Rightarrow> may_manage_org rt d p (org_ref pl))"

section \<open>The gate of an organization\<close>

interpretation org_gate: access_gate "manage_org rt p org" for rt p org
proof unfold_locales
  fix con
  show "unaudited (db (snd (manage_org rt p org con))) = unaudited (db con)"
    by (simp add: manage_org_def Let_def case_prod_unfold gate.gate_frame)
  show "durable (snd (manage_org rt p org con)) = durable con"
    by (simp add: manage_org_def Let_def case_prod_unfold gate.gate_durable)
  show "snd (fst (manage_org rt p org con)) = None \<longleftrightarrow> fst (fst (manage_org rt p org con))"
    by (simp add: manage_org_def Let_def case_prod_unfold gate.gate_reason)
qed

lemma manage_org_allowed:
  assumes "cache_coherent (db con) (org_cache con)"
  shows "fst (fst (manage_org rt p org con)) \<longleftrightarrow>
    may_manage rt (db con) p (org_store_ref org) \<or> may_manage rt (db con) p (''tenant:'' @ tenant_of rt p)"
  using evaluate_access_allowed(1) [OF assms] access_allowed_cong [OF same_policy_evaluate]
    evaluate_access_allowed(1) [OF evaluate_access_coherent [OF assms]]
  by (simp add: manage_org_def may_manage_def Let_def case_prod_unfold)

lemma manage_org_tables:
  "role_assignments (db (snd (manage_org rt p org con))) = role_assignments (db con)"
  "organizations (db (snd (manage_org rt p org con))) = organizations (db con)"
  "identities (db (snd (manage_org rt p org con))) = identities (db con)"
  "relationship_tuples (db (snd (manage_org rt p org con))) = relationship_tuples (db con)"
  using unaudited_tables [OF org_gate.gate_frame] by auto

lemma org_request_Inr:
  assumes "resolve_org (db con) (tenant_of rt p) (org_ref payload) = Inr org"
  shows "fst (add_org_member rt p payload con) = Inr out \<Longrightarrow>
      add_org_member rt p payload con = add_member rt p payload org (snd (manage_org rt p org con))"
    and "fst (remove_org_member rt p payload con) = Inr out \<Longrightarrow>
      remove_org_member rt p payload con = remove_member rt p payload org (snd (manage_org rt p org con))"
  unfolding add_org_member_def remove_org_member_def assms sum.case
  by (rule org_gate.require_Inr [THEN conjunct2], assumption)+

text \<open>The row a successful \<^verbatim>\<open>add_org_member\<close> appends.\<close>

definition member_row ::
  "runtime \<Rightarrow> principal \<Rightarrow> payload \<Rightarrow> organization_row \<Rightarrow> string \<Rightarrow> string option \<Rightarrow> role_assignment_row" where
  "member_row rt p payload org i expires_at = mk_assignment rt i (tenant_of rt p)
     (str_or payload ''subjectType'' ''user'') (member_subject payload) (str_or payload ''role'' ''member'')
     ''org'' (org_id org) (str_or payload ''source'' ''manual'') (p_subject p) expires_at"

lemma add_member_effect:
  assumes "fst (add_member rt p payload org con1) = Inr out"
  shows "\<exists>i e. bind_text (pget payload ''expiresAt'') = Inr e \<and> out = role_record (member_row rt p payload org i e)
    \<and> role_assignments (db (snd (add_member rt p payload org con1)))
        = role_assignments (db con1) @ [member_row rt p payload org i e]
    \<and> organizations (db (snd (add_member rt p payload org con1))) = organizations (db con1)
    \<and> identities (db (snd (add_member rt p payload org con1))) = identities (db con1)
    \<and> relationship_tuples (db (snd (add_member rt p payload org con1))) = relationship_tuples (db con1)
    \<and> str_or payload ''role'' ''member'' \<in> set ORG_MEMBER_ROLES \<and> member_subject payload \<noteq> []"
proof (cases "bind_text (pget payload ''expiresAt'')")
  case (Inr e)
  with assms show ?thesis
    by (simp add: add_member_def member_row_def Let_def case_prod_unfold insert_assignment_def
        split: if_split_asm) blast
qed (use assms in \<open>simp add: add_member_def Let_def case_prod_unfold split: if_split_asm\<close>)

lemma remove_member_effect:
  assumes "fst (remove_member rt p payload org con1) = Inr out"
  shows "role_assignments (db (snd (remove_member rt p payload org con1))) =
    update_where (org_grant_of (tenant_of rt p) (org_id org) (str_or payload ''subjectType'' ''user'')
      (member_subject payload)) (ra_revoked_at_update (\<lambda>_. Some (sql_now rt))) (role_assignments (db con1))"
    and "organizations (db (snd (remove_member rt p payload org con1))) = organizations (db con1)"
proof -
  have "member_subject payload \<noteq> []" using assms by (auto simp: remove_member_def)
  then show "role_assignments (db (snd (remove_member rt p payload org con1))) =
    update_where (org_grant_of (tenant_of rt p) (org_id org) (str_or payload ''subjectType'' ''user'')
      (member_subject payload)) (ra_revoked_at_update (\<lambda>_. Some (sql_now rt))) (role_assignments (db con1))"
    and "organizations (db (snd (remove_member rt p payload org con1))) = organizations (db con1)"
    unfolding remove_member_def Let_def by simp_all
qed

lemma revoked_not_active:
  "\<forall>r \<in> set (update_where (org_grant_of t i st s) (ra_revoked_at_update (\<lambda>_. Some v)) rows).
     \<not> org_grant_of t i st s r"
  by (simp add: ball_update_where) (simp add: org_grant_of_def)

text \<open>A field of a reply.\<close>

definition reply_field :: "json \<Rightarrow> string \<Rightarrow> json" where
  "reply_field v k = (case v of JObj kvs \<Rightarrow> pget kvs k | _ \<Rightarrow> JNull)"

lemma reply_field_role [simp]:
  "reply_field (role_record r) ''subjectId'' = JStr (ra_subject_id r)"
  "reply_field (role_record r) ''subjectType'' = JStr (ra_subject_type r)"
  by (simp_all add: reply_field_def role_record_def pget_def)

lemma require_admin_tables:
  "role_assignments (db (snd (require_admin_or_audit rt p res con))) = role_assignments (db con)"
  using unaudited_tables(7) [OF gate.gate_frame]
  by (simp add: require_admin_or_audit_def Let_def case_prod_unfold)

lemma list_org_members_rows:
  assumes "fst (list_org_members rt p ref con) = Inr ms" and "m \<in> set ms"
  obtains r org where "resolve_org (db con) (tenant_of rt p) ref = Inr org" "m = role_record r"
    "r \<in> set (role_assignments (db con))" "ra_tenant r = tenant_of rt p" "ra_scope_type r = ''org''"
    "ra_scope_id r = org_id org" "ra_revoked_at r = None" "\<not> expired (ra_expires_at r) (utc_now rt)"
proof -
  from assms(1) obtain org where o: "resolve_org (db con) (tenant_of rt p) ref = Inr org"
    by (auto simp: list_org_members_def split: sum.splits)
  obtain e con1 where e: "require_admin_or_audit rt p (org_store_ref org) con = (e, con1)" by fastforce
  with require_admin_tables [of rt p "org_store_ref org" con]
  have "role_assignments (db con1) = role_assignments (db con)" by simp
  with assms o e have "\<exists>r \<in> set (role_assignments (db con)). m = role_record r \<and> ra_tenant r = tenant_of rt p
      \<and> ra_scope_type r = ''org'' \<and> ra_scope_id r = org_id org \<and> ra_revoked_at r = None
      \<and> \<not> expired (ra_expires_at r) (utc_now rt)"
    by (auto simp: list_org_members_def split: sum.splits)
  with o that show thesis by blast
qed

lemma denied_request:
  assumes "cache_coherent (db con) (org_cache con)" and "\<not> may_administer rt (db con) p req"
  shows "raised (run_role_request rt p req con)
    \<and> unaudited (db (snd (run_role_request rt p req con))) = unaudited (db con)
    \<and> durable (snd (run_role_request rt p req con)) = durable con"
proof (cases req)
  case (AssignRole pl)
  then have "\<not> fst (fst (evaluate_access rt p ''manage'' None (Some (''tenant:'' @ tenant_of rt p)) True con))"
    using assms(2) evaluate_access_allowed(1) [OF assms(1)] by (simp add: may_administer_def may_manage_def)
  from gate.denied_changes_nothing [OF this] AssignRole show ?thesis
    by (simp add: run_role_request_def assign_role_def Let_def)
next
  case (RevokeRole i)
  then have "\<not> fst (fst (evaluate_access rt p ''manage'' None (Some (''role:'' @ i)) True con))"
    using assms(2) evaluate_access_allowed(1) [OF assms(1)] by (simp add: may_administer_def may_manage_def)
  from gate.denied_changes_nothing [OF this] RevokeRole show ?thesis
    by (simp add: run_role_request_def revoke_role_def)
next
  case (AddOrgMember pl)
  show ?thesis
  proof (cases "resolve_org (db con) (tenant_of rt p) (org_ref pl)")
    case (Inr org)
    then have "\<not> fst (fst (manage_org rt p org con))"
      using assms(2) AddOrgMember manage_org_allowed [OF assms(1)] by (simp add: may_administer_def may_manage_org_def)
    from org_gate.denied_changes_nothing [OF this] AddOrgMember Inr show ?thesis
      by (simp add: run_role_request_def add_org_member_def)
  qed (simp add: AddOrgMember run_role_request_def add_org_member_def)
next
  case (RemoveOrgMember pl)
  show ?thesis
  proof (cases "resolve_org (db con) (tenant_of rt p) (org_ref pl)")
    case (Inr org)
    then have "\<not> fst (fst (manage_org rt p org con))"
      using assms(2) RemoveOrgMember manage_org_allowed [OF assms(1)]
      by (simp add: may_administer_def may_manage_org_def)
    from org_gate.denied_changes_nothing [OF this] RemoveOrgMember Inr show ?thesis
      by (simp add: run_role_request_def remove_org_member_def)
  qed (simp add: RemoveOrgMember run_role_request_def remove_org_member_def)
qed

section \<open>Properties\<close>

text \<open>Nobody changes roles without the manage right: a request to assign or revoke a role, or to add or
  remove a member of an organization, by a principal to whom the policy does not allow manage on
  the tenant, the role, or the store of the organization (or its tenant) raises, leaves every
  table but the record of decisions as it was, and commits nothing.\<close>

theorem role_requests_need_manage:
  assumes "cache_coherent (db con) (org_cache con)" and "\<not> may_administer rt (db con) p req"
  shows "(raised (run_role_request rt p req con))
    \<and> (unaudited (db (snd (run_role_request rt p req con))) = unaudited (db con))
    \<and> (durable (snd (run_role_request rt p req con)) = durable con)"
  using denied_request [OF assms] by blast+

lemma sample_may_not_manage:
  "\<not> may_manage sample_runtime empty_database sample_principal ''role:rol_1''"
  by (simp add: may_manage_def access_allowed_def some_grant_def role_granted_def share_grant_def
      tuple_match_def sample_defs global_role_has_right_def GLOBAL_ROLE_GRANT_ROLES_def)

theorem role_requests_need_manage_witness:
  "raised (run_role_request sample_runtime sample_principal (RevokeRole ''rol_1'') (sample_conn empty_database))"
  using role_requests_need_manage [of "sample_conn empty_database" sample_runtime sample_principal
      "RevokeRole ''rol_1''", THEN conjunct1] sample_may_not_manage
  by (simp add: may_administer_def sample_conn_def)

text \<open>A member that is added gets in: after add_org_member succeeds for a user without an expiry, every
  principal with that subject in the tenant is allowed, on each capability kept in the store of
  the organization, every right of the role it was given, unless one of the guards denies.\<close>

theorem added_member_gains_role:
  assumes "fst (add_org_member rt p payload con) = Inr out"
    and "resolve_org (db con) (tenant_of rt p) (org_ref payload) = Inr org"
    and "pget payload ''subjectType'' = JNull" and "pget payload ''expiresAt'' = JNull"
    and "p_subject q = member_subject payload" and "p_tenant_id q = tenant_of rt p" and "p_tenant_id q \<noteq> []"
    and "c_tenant_id c = tenant_of rt p"
    and "org_of_store (db con) (c_store_id c) (tenant_of rt p) = Some (org_id org)"
    and "right \<in> set (role_rights (str_or payload ''role'' ''member''))" and "right \<in> set RIGHTS"
  defines "con' \<equiv> snd (add_org_member rt p payload con)"
  assumes "\<not> guard_denies rt' (db con') q right (Some c) None"
  shows "access_allowed rt' (db con') q right (Some c) None"
proof -
  note eq = org_request_Inr(1) [OF assms(2,1)]
  from add_member_effect [of rt p payload org "snd (manage_org rt p org con)" out] assms(1) eq assms(4)
  obtain i where rows: "role_assignments (db con') = role_assignments (db con) @ [member_row rt p payload org i None]"
    and orgs: "organizations (db con') = organizations (db con)"
    by (auto simp: con'_def manage_org_tables bind_text_def)
  have org: "org_of_store (db con') (c_store_id c) (tenant_of rt p) = Some (org_id org)"
    using assms(9) unfolding org_of_store_def orgs .
  have sub: "str_or payload ''subjectType'' ''user'' = ''user''"
    using assms(3) by (simp add: str_or_def json_or_def json_truthy_def py_str_def)
  have "role_row_grants rt' (db con') (tenant_of rt p) (subject_refs rt' q) right (Some c) None
      (member_row rt p payload org i None)"
    using assms(5,6,7,8,10) org sub
    by (simp add: role_row_grants_def member_row_def mk_assignment_def subject_refs_def ref_pair_def
        expired_def truthy_def role_scope_ok_def role_has_right_def)
  then have "role_granted rt' (db con') (tenant_of rt p) (subject_refs rt' q) right (Some c) None"
    unfolding role_granted_def rows by (auto simp: member_row_def mk_assignment_def)
  then show ?thesis
    using assms(6,7,11,13) by (simp add: access_allowed_def some_grant_def access_tenant_def)
qed

text \<open>An installation with one organization and a platform administrator.\<close>

definition sample_org :: organization_row where
  "sample_org = \<lparr>org_id = ''org_1'', org_tenant = ''asg'', org_slug = ''acme'', org_display_name = ''Acme'',
     org_store = Some ''store_all'', org_status = ''active'', org_created_at = []\<rparr>"

definition sample_admin :: principal where
  "sample_admin = sample_principal\<lparr>p_subject := ''root@example.com'', p_identity_id := Some ''idn_root'',
     p_roles := [''platform_admin''], p_step_up_authenticated := True\<rparr>"

abbreviation org_database :: database where
  "org_database \<equiv> empty_database\<lparr>organizations := [sample_org]\<rparr>"

definition sample_member :: payload where
  "sample_member = [(''org'', JStr ''acme''), (''subjectId'', JStr ''ann@example.com'')]"

lemma sample_member_unguarded:
  assumes "identities d = []" and "relationship_tuples d = []"
  shows "\<not> guard_denies sample_runtime d sample_principal ''load'' (Some sample_capability) res"
  using assms by (simp add: sample_defs sample_admin_def guard_denies_def is_disabled_def order_by_desc_def
      capability_blocked_def blocked_states_def blocked_lifecycles_def requires_step_up_def
      STEP_UP_RIGHTS_def integrity_violated_def integrity_required_def production_environment_def
      deny_match_def tuple_match_def py_strip_def py_lstrip_def py_rstrip_def py_lower_def)

lemma sample_admin_unguarded:
  assumes "identities d = []" and "relationship_tuples d = []"
  shows "\<not> guard_denies sample_runtime d sample_admin ''manage'' None res"
  using assms by (simp add: sample_defs sample_admin_def guard_denies_def is_disabled_def order_by_desc_def
      capability_blocked_def blocked_states_def blocked_lifecycles_def requires_step_up_def
      STEP_UP_RIGHTS_def integrity_violated_def integrity_required_def production_environment_def
      deny_match_def tuple_match_def py_strip_def py_lstrip_def py_rstrip_def py_lower_def)

lemma sample_admin_manages:
  assumes "identities d = []" and "relationship_tuples d = []"
  shows "may_manage sample_runtime d sample_admin res"
  using sample_admin_unguarded [OF assms, of "Some res"]
  by (simp add: may_manage_def access_allowed_def some_grant_def sample_admin_def RIGHTS_def
      global_role_has_right_def GLOBAL_ROLE_GRANT_ROLES_def role_has_right_def role_rights_def ROLE_RIGHTS_def)

lemma sample_admin_gate:
  assumes "identities (db con) = []" "relationship_tuples (db con) = []" "cache_coherent (db con) (org_cache con)"
  shows "fst (fst (manage_org sample_runtime sample_admin sample_org con))"
  using manage_org_allowed [OF assms(3)] sample_admin_manages [OF assms(1,2)] by blast

lemma sample_resolve:
  "organizations d = [sample_org] \<Longrightarrow>
   resolve_org d (tenant_of sample_runtime sample_admin) (org_ref sample_member) = Inr sample_org"
  by (simp add: resolve_org_def org_ref_def sample_member_def pget_def json_or_def json_truthy_def py_str_def
      sample_org_def sample_admin_def sample_principal_def tenant_of_def)

lemma sample_payload:
  "str_or sample_member ''role'' ''member'' = ''member''" "member_subject sample_member = ''ann@example.com''"
  "pget sample_member ''expiresAt'' = JNull" "pget sample_member ''subjectType'' = JNull"
  by (simp_all add: sample_member_def member_subject_def pget_def json_or_def json_truthy_def py_str_def)

lemma sample_added:
  "\<exists>out. fst (add_org_member sample_runtime sample_admin sample_member (sample_conn org_database)) = Inr out"
proof -
  let ?c = "sample_conn org_database"
  have g: "fst (fst (manage_org sample_runtime sample_admin sample_org ?c))"
    by (rule sample_admin_gate) (simp_all add: sample_conn_def empty_database_def)
  have r: "resolve_org (db ?c) (tenant_of sample_runtime sample_admin) (org_ref sample_member) = Inr sample_org"
    by (rule sample_resolve) (simp add: sample_conn_def)
  show ?thesis
    by (simp add: add_org_member_def r org_gate.require_allowed [OF g] add_member_def sample_payload
        ORG_MEMBER_ROLES_def bind_text_def Let_def case_prod_unfold)
qed

theorem added_member_gains_role_witness:
  "access_allowed sample_runtime
     (db (snd (add_org_member sample_runtime sample_admin sample_member (sample_conn org_database))))
     sample_principal ''load'' (Some sample_capability) None"
proof -
  let ?c = "sample_conn org_database"
  obtain out where ok: "fst (add_org_member sample_runtime sample_admin sample_member ?c) = Inr out"
    using sample_added by blast
  have r: "resolve_org (db ?c) (tenant_of sample_runtime sample_admin) (org_ref sample_member) = Inr sample_org"
    by (rule sample_resolve) (simp add: sample_conn_def)
  note eq = org_request_Inr(1) [OF r ok]
  have d: "identities (db (snd (add_org_member sample_runtime sample_admin sample_member ?c))) = []"
    "relationship_tuples (db (snd (add_org_member sample_runtime sample_admin sample_member ?c))) = []"
    using add_member_effect [OF ok [unfolded eq]] unfolding eq
    by (auto simp: manage_org_tables sample_conn_def empty_database_def)
  show ?thesis
    by (rule added_member_gains_role [OF ok r _ _ _ _ _ _ _ _ _ sample_member_unguarded [OF d]])
      (simp_all add: sample_payload tenant_of_def sample_admin_def sample_principal_def
        sample_capability_def sample_org_def org_of_store_def sample_conn_def truthy_def role_rights_def
        ROLE_RIGHTS_def RIGHTS_def)
qed

text \<open>A member that is removed is out: after remove_org_member succeeds, no grant of the organization
  to that subject is active, the grants of everybody else are unchanged, and no listing of the
  organization in the state it leaves shows the subject, whoever asks and whenever.\<close>

theorem removed_member_is_gone:
  assumes "fst (remove_org_member rt p payload con) = Inr out"
    and "resolve_org (db con) (tenant_of rt p) (org_ref payload) = Inr org"
  defines "con' \<equiv> snd (remove_org_member rt p payload con)"
    and "st \<equiv> str_or payload ''subjectType'' ''user''" and "who \<equiv> member_subject payload"
  shows "(\<forall>r \<in> set (role_assignments (db con')). \<not> org_grant_of (tenant_of rt p) (org_id org) st who r)
    \<and> (\<forall>r \<in> set (role_assignments (db con)). \<not> org_grant_of (tenant_of rt p) (org_id org) st who r \<longrightarrow>
      r \<in> set (role_assignments (db con')))
    \<and> (\<forall>rt' q ref ms. tenant_of rt' q = tenant_of rt p \<longrightarrow> resolve_org (db con') (tenant_of rt p) ref = Inr org \<longrightarrow>
      fst (list_org_members rt' q ref con') = Inr ms \<longrightarrow>
      (\<forall>m \<in> set ms. \<not> (reply_field m ''subjectType'' = JStr st \<and> reply_field m ''subjectId'' = JStr who)))"
proof (intro conjI allI impI)
  note eq = org_request_Inr(2) [OF assms(2,1)]
  have rows: "role_assignments (db con') = update_where (org_grant_of (tenant_of rt p) (org_id org) st who)
      (ra_revoked_at_update (\<lambda>_. Some (sql_now rt))) (role_assignments (db con))"
    using remove_member_effect(1) [OF assms(1) [unfolded eq]]
    by (simp add: con'_def st_def who_def eq manage_org_tables)
  show gone: "\<forall>r \<in> set (role_assignments (db con')). \<not> org_grant_of (tenant_of rt p) (org_id org) st who r"
    unfolding rows by (rule revoked_not_active)
  show "\<forall>r \<in> set (role_assignments (db con)). \<not> org_grant_of (tenant_of rt p) (org_id org) st who r \<longrightarrow>
      r \<in> set (role_assignments (db con'))"
    unfolding rows in_update_where by auto
  fix rt' q ref ms
  assume l: "tenant_of rt' q = tenant_of rt p" "resolve_org (db con') (tenant_of rt p) ref = Inr org"
    "fst (list_org_members rt' q ref con') = Inr ms"
  show "\<forall>m \<in> set ms. \<not> (reply_field m ''subjectType'' = JStr st \<and> reply_field m ''subjectId'' = JStr who)"
  proof
    fix m assume "m \<in> set ms"
    with l(3) obtain r o' where "resolve_org (db con') (tenant_of rt' q) ref = Inr o'" "m = role_record r"
      "r \<in> set (role_assignments (db con'))" "ra_tenant r = tenant_of rt' q" "ra_scope_type r = ''org''"
      "ra_scope_id r = org_id o'" "ra_revoked_at r = None"
      using list_org_members_rows by metis
    with l(1,2) gone show "\<not> (reply_field m ''subjectType'' = JStr st \<and> reply_field m ''subjectId'' = JStr who)"
      by (auto simp: org_grant_of_def)
  qed
qed

theorem removed_member_is_gone_witness:
  "\<not> list_ex (org_grant_of ''asg'' ''org_1'' ''user'' ''ann@example.com'')
     (role_assignments (db (snd (remove_org_member sample_runtime sample_admin sample_member
       (sample_conn org_database)))))"
proof -
  let ?c = "sample_conn org_database"
  have g: "fst (fst (manage_org sample_runtime sample_admin sample_org ?c))"
    by (rule sample_admin_gate) (simp_all add: sample_conn_def empty_database_def)
  have r: "resolve_org (db ?c) (tenant_of sample_runtime sample_admin) (org_ref sample_member) = Inr sample_org"
    by (rule sample_resolve) (simp add: sample_conn_def)
  have ok: "\<exists>out. fst (remove_org_member sample_runtime sample_admin sample_member ?c) = Inr out"
    by (simp add: remove_org_member_def r org_gate.require_allowed [OF g] remove_member_def sample_payload Let_def)
  have "str_or sample_member ''subjectType'' ''user'' = ''user''" by (simp add: sample_member_def)
  with ok removed_member_is_gone [OF _ r, THEN conjunct1] show ?thesis
    by (auto simp: list_ex_iff sample_payload sample_org_def tenant_of_def sample_admin_def sample_principal_def)
qed

end
