(* ===== verification/Catalog_Names.thy ===== *)
theory Catalog_Names
  imports Provisioning
begin

text \<open>
  Names and URIs of the catalog: \<^verbatim>\<open>slug\<close>, \<^verbatim>\<open>normalize_version\<close>, the URI of a capability in the default
  user namespace and the rewrite into that namespace (\<^verbatim>\<open>governance.py\<close>).

  The loop of \<^verbatim>\<open>slug\<close> halves runs of dashes until none is left; it is a \<^theory_text>\<open>function\<close> with its
  termination proof, and is shown equal to a definition without a loop: the words between the
  separators, joined by one dash.
\<close>

section \<open>Slugs\<close>

definition py_isalnum :: "char \<Rightarrow> bool" where
  "py_isalnum c = (ascii_alpha c \<or> ascii_digit c \<or>
     code_point c \<in> {170, 178, 179, 181, 185, 186, 188, 189, 190}
     \<or> (192 \<le> code_point c \<and> code_point c \<noteq> 215 \<and> code_point c \<noteq> 247))"

definition dash :: char where
  "dash = CHR ''-''"

text \<open>\<^verbatim>\<open>cleaned.replace("--", "-")\<close>\<close>

fun halve_dashes :: "string \<Rightarrow> string" where
  "halve_dashes (a # b # s) =
     (if a = dash \<and> b = dash then dash # halve_dashes s else a # halve_dashes (b # s))"
| "halve_dashes s = s"

lemma length_halve_dashes: "length (halve_dashes s) \<le> length s"
  by (induction s rule: halve_dashes.induct) auto

lemma halve_dashes_shrinks:
  "substring_in [dash, dash] s \<Longrightarrow> length (halve_dashes s) < length s"
proof (induction s rule: halve_dashes.induct)
  case (1 a b s)
  then show ?case using length_halve_dashes [of s] by (auto simp: startswith_def)
qed (auto simp: startswith_def)

function squeeze_dashes :: "string \<Rightarrow> string" where
  "squeeze_dashes s = (if substring_in [dash, dash] s then squeeze_dashes (halve_dashes s) else s)"
  by pat_completeness auto

termination squeeze_dashes
  by (relation "measure length") (simp_all add: halve_dashes_shrinks)

declare squeeze_dashes.simps [simp del]

definition slug_char :: "char \<Rightarrow> char" where
  "slug_char c = (if py_isalnum c then lower_char c else dash)"

definition slug :: "string \<Rightarrow> string" where
  "slug s = (let cleaned = squeeze_dashes (strip_chars [dash] (map slug_char s)) in
     if cleaned = [] then ''unnamed'' else cleaned)"

definition normalize_version :: "string \<Rightarrow> string" where
  "normalize_version s =
     (let version = strip_chars ''.-'' (map (\<lambda>c. if py_isalnum c \<or> c \<in> {CHR ''.'', CHR ''-''}
        then lower_char c else dash) s)
      in if version = [] then ''0.1.0'' else version)"

section \<open>The default user namespace\<close>

definition capability_tail :: "capability \<Rightarrow> string" where
  "capability_tail c = c_type c @ ''/'' @ slug (or_else (c_plugin c) ''global'') @ ''.'' @ slug (c_name c)
     @ ''@'' @ normalize_version (if c_version c = [] then ''0.1.0'' else c_version c)"

definition user_namespace_capability_uri :: "runtime \<Rightarrow> capability \<Rightarrow> string" where
  "user_namespace_capability_uri rt c =
     default_user_namespace_prefix rt (cap_tenant_of rt c) @ ''/'' @ capability_tail c"

definition setdefault :: "string \<Rightarrow> 'v \<Rightarrow> (string \<times> 'v) list \<Rightarrow> (string \<times> 'v) list" where
  "setdefault k v d = (case map_of d k of None \<Rightarrow> d @ [(k, v)] | Some _ \<Rightarrow> d)"

definition namespaced_uri :: "string \<Rightarrow> bool" where
  "namespaced_uri u = list_ex (startswith u) [''cap://user/'', ''cap://org/'', ''cap://app/'', ''cap://all/'']"

definition apply_default_user_namespace :: "runtime \<Rightarrow> capability \<Rightarrow> capability" where
  "apply_default_user_namespace rt c =
     (if c_source_kind c = ''system_capability'' \<or> startswith (c_uri c) ''cap://system/'' then c
      else let tenant_id = cap_tenant_of rt c in
      if namespaced_uri (c_uri c) then c\<lparr>c_tenant_id := tenant_id\<rparr>
      else
        let target_prefix = rstrip_chars ''/'' (default_user_namespace_prefix rt tenant_id) @ ''/'' in
        c\<lparr>c_uri := (if \<not> startswith (c_uri c) target_prefix then user_namespace_capability_uri rt c else c_uri c),
          c_tenant_id := tenant_id,
          c_store_id := Some (default_user_private_store_id rt tenant_id),
          c_namespace_id := Some (default_user_private_namespace_id rt tenant_id),
          c_visibility := ''protected'', c_discovery_mode := ''hidden'',
          c_owner := DEFAULT_USER_SUBJECT rt, c_created_by := Some (DEFAULT_USER_SUBJECT rt),
          c_approval_state := (if c_approval_state c \<in> {''published'', ''approved''} then ''draft'' else c_approval_state c),
          c_lifecycle := (if c_lifecycle c \<in> {''active'', ''published''} then ''draft'' else c_lifecycle c),
          c_metadata := setdefault ''originalOwner'' (JStr (c_owner c)) (setdefault ''originalUri'' (JStr (c_uri c))
            (dict_set ''defaultUserNamespace'' (JBool True) (c_metadata c)))\<rparr>)"

text \<open>\<^verbatim>\<open>str.removeprefix\<close>\<close>

definition removeprefix :: "string \<Rightarrow> string \<Rightarrow> string" where
  "removeprefix s p = (if startswith s p then drop (length p) s else s)"

definition capability_canonical_tail :: "runtime \<Rightarrow> capability \<Rightarrow> string" where
  "capability_canonical_tail rt c = removeprefix (user_namespace_capability_uri rt c)
     (rstrip_chars ''/'' (default_user_namespace_prefix rt (cap_tenant_of rt c)) @ ''/'')"

section \<open>The loop of slug against its result\<close>

definition words :: "string \<Rightarrow> string list" where
  "words s = filter (\<lambda>w. w \<noteq> []) (split_on dash s)"

definition well_dashed :: "string \<Rightarrow> bool" where
  "well_dashed s = (s \<noteq> [] \<longrightarrow> hd s \<noteq> dash \<and> last s \<noteq> dash)"

lemma split_on_append: "split_on d (s @ d # t) = split_on d s @ split_on d t"
  by (induction s) (auto split: list.splits)

lemma words_append: "words (s @ dash # t) = words s @ words t"
  by (simp add: words_def split_on_append)

lemma words_Nil [simp]: "words [] = []"
  by (simp add: words_def)

lemma words_Cons_dash [simp]: "words (dash # s) = words s"
  by (simp add: words_def)

lemma words_lstrip: "words (dropWhile (\<lambda>c. c = dash) s) = words s"
  by (induction s) auto

lemma words_rstrip: "words (rev (dropWhile (\<lambda>c. c = dash) (rev s))) = words s"
proof (induction s rule: rev_induct)
  case (snoc c s)
  then show ?case using words_append [of s "[]"] by simp
qed simp

lemma words_strip: "words (strip_chars [dash] s) = words s"
  by (simp add: strip_chars_def lstrip_chars_def rstrip_chars_def words_lstrip words_rstrip)

lemma split_on_Cons_neq:
  "c \<noteq> d \<Longrightarrow> split_on d (c # s) = (c # hd (split_on d s)) # tl (split_on d s)"
  by (cases "split_on d s") auto

abbreviation nonempty_words :: "string list \<Rightarrow> string list" where
  "nonempty_words ws \<equiv> filter (\<lambda>w. w \<noteq> []) ws"

lemma words_hd_tl: "words s = nonempty_words [hd (split_on dash s)] @ nonempty_words (tl (split_on dash s))"
  by (cases "split_on dash s") (simp_all add: words_def)

lemma halve_dashes_split:
  "hd (split_on dash (halve_dashes s)) = hd (split_on dash s) \<and>
   nonempty_words (tl (split_on dash (halve_dashes s))) = nonempty_words (tl (split_on dash s))"
proof (induction s rule: halve_dashes.induct)
  case (1 a b s)
  show ?case
  proof (cases "a = dash \<and> b = dash")
    case True
    with 1 show ?thesis using words_hd_tl [of s] words_hd_tl [of "halve_dashes s"] by (simp add: words_def)
  next
    case False
    with 1 have IH: "hd (split_on dash (halve_dashes (b # s))) = hd (split_on dash (b # s))"
      "nonempty_words (tl (split_on dash (halve_dashes (b # s)))) = nonempty_words (tl (split_on dash (b # s)))"
      by simp_all
    then have "words (halve_dashes (b # s)) = words (b # s)" by (simp only: words_hd_tl)
    then have "nonempty_words (split_on dash (halve_dashes (b # s))) = nonempty_words (split_on dash (b # s))"
      by (simp only: words_def)
    moreover have "halve_dashes (a # b # s) = a # halve_dashes (b # s)" using False by auto
    moreover have "split_on dash (dash # t) = [] # split_on dash t" for t by simp
    ultimately show ?thesis
      using IH by (cases "a = dash") (simp_all only: split_on_Cons_neq list.sel simp_thms)
  qed
qed simp_all

lemma words_halve_dashes: "words (halve_dashes s) = words s"
  using halve_dashes_split [of s] by (simp only: words_hd_tl)

lemma words_squeeze_dashes: "words (squeeze_dashes s) = words s"
proof (induction s rule: squeeze_dashes.induct)
  case (1 s)
  then show ?case by (subst squeeze_dashes.simps) (simp add: words_halve_dashes)
qed

lemma well_dashed_halve: "well_dashed s \<Longrightarrow> well_dashed (halve_dashes s)"
proof -
  have "halve_dashes s = [] \<longleftrightarrow> s = []" by (cases s rule: halve_dashes.cases) simp_all
  moreover have "s \<noteq> [] \<Longrightarrow> hd (halve_dashes s) = hd s" by (cases s rule: halve_dashes.cases) simp_all
  moreover have "last (halve_dashes s) = last s"
  proof (induction s rule: halve_dashes.induct)
    case (1 a b s)
    have "halve_dashes (b # s) \<noteq> []" by (cases s) simp_all
    moreover have "halve_dashes s = [] \<longleftrightarrow> s = []" by (cases s rule: halve_dashes.cases) simp_all
    ultimately show ?case using 1 by auto
  qed simp_all
  ultimately show "well_dashed s \<Longrightarrow> well_dashed (halve_dashes s)" by (simp add: well_dashed_def)
qed

lemma squeeze_dashes_normal:
  assumes "well_dashed s"
  shows "well_dashed (squeeze_dashes s) \<and> \<not> substring_in [dash, dash] (squeeze_dashes s)"
  using assms
proof (induction s rule: squeeze_dashes.induct)
  case (1 s)
  then show ?case by (subst (1 2) squeeze_dashes.simps) (simp add: well_dashed_halve)
qed

lemma single_dashed_parts:
  assumes "s \<noteq> []" "last s \<noteq> dash" "\<not> substring_in [dash, dash] s"
  shows "[] \<notin> set (tl (split_on dash s))"
  using assms
proof (induction s)
  case (Cons c s)
  show ?case
  proof (cases s)
    case Nil
    with Cons.prems show ?thesis by simp
  next
    case (Cons b t)
    with Cons.prems Cons.IH have IH: "[] \<notin> set (tl (split_on dash s))" by simp
    show ?thesis
    proof (cases "c = dash")
      case True
      with Cons.prems Cons have "b \<noteq> dash" by (auto simp: startswith_def)
      with Cons have "split_on dash s = (b # hd (split_on dash t)) # tl (split_on dash t)"
        by (simp only: split_on_Cons_neq simp_thms)
      with IH True show ?thesis by simp
    next
      case False
      with IH show ?thesis by (simp only: split_on_Cons_neq list.sel simp_thms)
    qed
  qed
qed simp

lemma normal_words:
  assumes "well_dashed s" "\<not> substring_in [dash, dash] s"
  shows "join_with [dash] (words s) = s"
proof (cases s)
  case (Cons c t)
  with assms(1) have "c \<noteq> dash" "last s \<noteq> dash" by (simp_all add: well_dashed_def)
  with single_dashed_parts [of s] assms(2) Cons have "[] \<notin> set (split_on dash s)"
    by (simp add: split_on_Cons_neq del: split_on.simps(2))
  then have "words s = split_on dash s" unfolding words_def by (metis (mono_tags, lifting) filter_True)
  then show ?thesis by simp
qed (simp add: words_def)

lemma well_dashed_strip: "well_dashed (strip_chars [dash] s)"
proof -
  have l: "well_dashed (dropWhile (\<lambda>c. c = dash) t)" if "t = [] \<or> last t \<noteq> dash" for t
    using that
  proof (induction t)
    case (Cons c t)
    then show ?case by (cases t) (auto simp: well_dashed_def)
  qed (simp add: well_dashed_def)
  have "t = [] \<or> last t \<noteq> dash" if "t = rev (dropWhile (\<lambda>c. c = dash) (rev s))" for t
    using that hd_dropWhile [of "\<lambda>c. c = dash" "rev s"] by (auto simp: last_rev)
  then show ?thesis by (simp add: strip_chars_def lstrip_chars_def rstrip_chars_def l)
qed

definition slug_words :: "string \<Rightarrow> string" where
  "slug_words s = (case words (map slug_char s) of [] \<Rightarrow> ''unnamed'' | ws \<Rightarrow> join_with [dash] ws)"

lemma slug_eq: "slug s = slug_words s"
proof -
  let ?t = "squeeze_dashes (strip_chars [dash] (map slug_char s))"
  have "join_with [dash] (words ?t) = ?t"
    using squeeze_dashes_normal [OF well_dashed_strip] normal_words by blast
  moreover have "words ?t = words (map slug_char s)" by (simp add: words_squeeze_dashes words_strip)
  ultimately have t: "?t = join_with [dash] (words (map slug_char s))" by simp
  have "?t = [] \<longleftrightarrow> words (map slug_char s) = []"
  proof (cases "words (map slug_char s)")
    case (Cons w ws)
    then have "w \<in> set (words (map slug_char s))" by simp
    then have "w \<noteq> []" by (simp add: words_def)
    with t Cons show ?thesis by (cases ws) auto
  qed (simp add: t)
  with t show ?thesis unfolding slug_def slug_words_def Let_def by (simp split: list.splits)
qed

section \<open>Shape of slugs and rewritten capabilities\<close>

lemma lower_char_slug:
  assumes "py_isalnum c"
  shows "py_isalnum (lower_char c) \<and> lower_char (lower_char c) = lower_char c"
proof -
  have "code_point c < 256" by simp
  then show ?thesis
    using assms by (auto simp: lower_char_def py_isalnum_def ascii_alpha_def ascii_digit_def Let_def)
qed

lemma slug_char_idem: "slug_char (slug_char c) = slug_char c"
  using lower_char_slug [of c] by (auto simp: slug_char_def py_isalnum_def dash_def ascii_alpha_def ascii_digit_def)

lemma words_chars: "w \<in> set (words s) \<Longrightarrow> set w \<subseteq> set s"
proof (induction s arbitrary: w)
  case (Cons c s)
  show ?case
  proof (cases "c = dash")
    case False
    with Cons.prems have "w \<in> set ((c # hd (split_on dash s)) # tl (split_on dash s))"
      by (simp only: words_def split_on_Cons_neq set_filter simp_thms) blast
    moreover have "set v \<subseteq> set s" if "v \<in> set (split_on dash s)" for v
      using that Cons.IH [of v] by (cases "v = []") (simp_all add: words_def)
    ultimately show ?thesis by (cases "split_on dash s") fastforce+
  qed (use Cons in auto)
qed simp

lemma join_chars: "set (join_with sep ws) \<subseteq> set sep \<union> (\<Union>w \<in> set ws. set w)"
  by (induction sep ws rule: join_with.induct) auto

lemma slug_chars: "c \<in> set (slug s) \<Longrightarrow> slug_char c = c"
proof -
  assume c: "c \<in> set (slug s)"
  have d: "slug_char dash = dash" by (simp add: slug_char_def py_isalnum_def ascii_alpha_def ascii_digit_def dash_def)
  have w: "slug_char x = x" if "v \<in> set (words (map slug_char s))" "x \<in> set v" for v x
    using words_chars [OF that(1)] that(2) slug_char_idem by auto
  show ?thesis
  proof (cases "words (map slug_char s)")
    case Nil
    with c show ?thesis
      by (auto simp: slug_eq slug_words_def slug_char_def py_isalnum_def ascii_alpha_def ascii_digit_def lower_char_def)
  next
    case (Cons v vs)
    with c have "c \<in> set (join_with [dash] (words (map slug_char s)))" by (simp add: slug_eq slug_words_def)
    with join_chars [of "[dash]"] w d show ?thesis by fastforce
  qed
qed

lemma slug_idem: "slug (slug s) = slug s"
proof -
  have m: "map slug_char (slug s) = slug s" using slug_chars by (simp add: map_idI)
  show ?thesis
  proof (cases "words (map slug_char s)")
    case Nil
    then have u: "slug s = ''unnamed''" by (simp add: slug_eq slug_words_def)
    from m have "map slug_char ''unnamed'' = ''unnamed''" by (simp only: u)
    then have "words (map slug_char ''unnamed'') = [''unnamed'']" by (simp only:) (simp add: words_def dash_def)
    then have "slug ''unnamed'' = ''unnamed''" by (simp only: slug_eq slug_words_def list.case join_with.simps)
    then show ?thesis by (simp only: u)
  next
    case (Cons v vs)
    let ?ws = "words (map slug_char s)"
    have j: "slug s = join_with [dash] ?ws" using Cons by (simp add: slug_eq slug_words_def)
    have "list_all (\<lambda>x. dash \<notin> set x) ?ws"
      by (auto simp: list_all_iff words_def dest: split_on_parts_no_sep)
    then have "split_on dash (slug s) = ?ws" using split_join [of ?ws] Cons j by simp
    then have "words (map slug_char (slug s)) = ?ws" by (simp add: m words_def)
    then show ?thesis by (simp add: slug_eq slug_words_def)
  qed
qed

lemma map_of_setdefault:
  "map_of (setdefault k v d) k' = (if k' = k \<and> map_of d k = None then Some v else map_of d k')"
  by (auto simp: setdefault_def map_add_def split: option.splits)

lemma default_prefix_slash:
  "rstrip_chars ''/'' (default_user_namespace_prefix rt t) = default_user_namespace_prefix rt t"
  by (simp add: default_user_namespace_prefix_def rstrip_chars_def)

lemma rewritten_uri_namespaced: "namespaced_uri (user_namespace_capability_uri rt c)"
  by (simp add: namespaced_uri_def user_namespace_capability_uri_def default_user_namespace_prefix_def
      default_user_store_prefix_def startswith_def)

lemma target_prefix_namespaced:
  "startswith u (default_user_namespace_prefix rt t @ ''/'') \<Longrightarrow> namespaced_uri u"
  by (auto simp: namespaced_uri_def default_user_namespace_prefix_def default_user_store_prefix_def
      startswith_iff)

section \<open>Properties\<close>

text \<open>The loop of slug ends on every input and computes the words between the separators, in lower
  case and joined by single dashes, or the name unnamed when there is no word; hence a slug is
  never empty, contains no two dashes in a row, and is its own slug.\<close>

theorem slug_joins_words:
  "slug s = slug_words s \<and> slug s \<noteq> [] \<and> \<not> substring_in ''--'' (slug s) \<and> slug (slug s) = slug s"
proof (intro conjI)
  let ?t = "squeeze_dashes (strip_chars [dash] (map slug_char s))"
  have n: "\<not> substring_in [dash, dash] ?t" using squeeze_dashes_normal [OF well_dashed_strip] by blast
  show "\<not> substring_in ''--'' (slug s)"
    using n by (auto simp: slug_def Let_def dash_def startswith_def)
  show "slug s \<noteq> []" by (simp add: slug_def Let_def)
qed (rule slug_eq, rule slug_idem)

text \<open>Rewriting into the default user namespace confines a capability and happens once: the result
  of apply_default_user_namespace, unless the capability is a system one or already lies under a
  user, organization, app or everyone prefix, is hidden, protected, owned by the default user,
  neither active nor published nor approved, and keeps its old URI in the metadata; applying the
  function to its own result changes nothing.\<close>

theorem default_namespace_confines:
  assumes "cap_tenant_of rt c \<noteq> []"
  defines "c' \<equiv> apply_default_user_namespace rt c"
  shows "apply_default_user_namespace rt c' = c'
    \<and> (c_source_kind c = ''system_capability'' \<or> startswith (c_uri c) ''cap://system/'' \<or> namespaced_uri (c_uri c)
      \<or> c_visibility c' = ''protected'' \<and> c_discovery_mode c' = ''hidden'' \<and> c_owner c' = DEFAULT_USER_SUBJECT rt
        \<and> c_lifecycle c' \<notin> {''active'', ''published''} \<and> c_approval_state c' \<notin> {''published'', ''approved''}
        \<and> (map_of (c_metadata c) ''originalUri'' = None \<longrightarrow>
            map_of (c_metadata c') ''originalUri'' = Some (JStr (c_uri c))))"
proof (cases "c_source_kind c = ''system_capability'' \<or> startswith (c_uri c) ''cap://system/''")
  case True
  then have "apply_default_user_namespace rt c = c" by (simp add: apply_default_user_namespace_def)
  with True show ?thesis by (auto simp: c'_def)
next
  case False
  note sys = False
  show ?thesis
  proof (cases "namespaced_uri (c_uri c)")
    case True
    with sys show ?thesis by (simp add: c'_def apply_default_user_namespace_def Let_def cap_tenant_of_def)
  next
    case False
    have ns: "namespaced_uri (c_uri c')" "c_source_kind c' = c_source_kind c" "c_tenant_id c' = cap_tenant_of rt c"
      using sys False rewritten_uri_namespaced [of rt c] target_prefix_namespaced [of "c_uri c" rt "cap_tenant_of rt c"]
      by (auto simp: c'_def apply_default_user_namespace_def default_prefix_slash Let_def)
    then have "\<not> startswith (c_uri c') ''cap://system/''"
      by (auto simp: namespaced_uri_def startswith_iff)
    with ns sys assms(1) have "apply_default_user_namespace rt c' = c'\<lparr>c_tenant_id := c_tenant_id c'\<rparr>"
      by (simp add: apply_default_user_namespace_def [of rt c'] cap_tenant_of_def [of rt c'] Let_def)
    then have "apply_default_user_namespace rt c' = c'" by simp
    moreover have "c_visibility c' = ''protected''" "c_discovery_mode c' = ''hidden''"
      "c_owner c' = DEFAULT_USER_SUBJECT rt" "c_lifecycle c' \<notin> {''active'', ''published''}"
      "c_approval_state c' \<notin> {''published'', ''approved''}"
      "c_metadata c' = setdefault ''originalOwner'' (JStr (c_owner c)) (setdefault ''originalUri'' (JStr (c_uri c))
         (dict_set ''defaultUserNamespace'' (JBool True) (c_metadata c)))"
      using sys False by (simp_all add: c'_def apply_default_user_namespace_def Let_def)
    ultimately show ?thesis by (simp add: map_of_setdefault map_of_dict_set)
  qed
qed

theorem default_namespace_confines_witness:
  "c_discovery_mode (apply_default_user_namespace sample_runtime (sample_capability\<lparr>c_uri := ''cap://legacy/p.s''\<rparr>))
     = ''hidden''"
  using default_namespace_confines [of sample_runtime "sample_capability\<lparr>c_uri := ''cap://legacy/p.s''\<rparr>"]
  by (simp add: sample_capability_def cap_tenant_of_def namespaced_uri_def startswith_def)

end
