(* ===== verification/Stores_Shares.thy ===== *)
theory Stores_Shares
  imports Catalog_Names Roles_Orgs "HOL-Library.Product_Lexorder"
begin

text \<open>
  Stores, namespaces and shares: \<^verbatim>\<open>stores.py\<close>. The columns \<^verbatim>\<open>metadata_json\<close>, \<^verbatim>\<open>created_at\<close> and
  \<^verbatim>\<open>updated_at\<close> of stores and namespaces are written and shown but decide nothing; the records
  returned to the caller leave them out.
\<close>

section \<open>Statements\<close>

definition insert_store :: "store_row \<Rightarrow> stmt" where
  "insert_store row d =
     (if list_ex (\<lambda>r. st_id r = st_id row \<or> st_uri_prefix r = st_uri_prefix row) (stores d) then Inl UNIQUE_ERROR
      else insert_store_or_ignore row d)"

definition insert_namespace :: "namespace_row \<Rightarrow> stmt" where
  "insert_namespace row d =
     (if list_ex (\<lambda>r. ns_id r = ns_id row \<or> ns_uri_prefix r = ns_uri_prefix row
           \<or> (ns_tenant r = ns_tenant row \<and> ns_store r = ns_store row \<and> ns_name r = ns_name row)) (namespaces d)
      then Inl UNIQUE_ERROR else insert_namespace_or_ignore row d)"

definition insert_app_or_ignore :: "app_row \<Rightarrow> stmt" where
  "insert_app_or_ignore row d =
     (if list_ex (\<lambda>r. app_key r = app_key row \<or> (app_tenant r = app_tenant row \<and> app_app_id r = app_app_id row)) (apps d)
      then Inr d
      else if \<not> has_tenant d (app_tenant row) then Inl FK_ERROR
      else Inr (d\<lparr>apps := apps d @ [row]\<rparr>))"

text \<open>A supplied identifier or a fresh one: \<^verbatim>\<open>str(payload.get("id") or new_id(prefix))\<close>.\<close>

definition given_id :: "runtime \<Rightarrow> payload \<Rightarrow> string \<Rightarrow> conn \<Rightarrow> string \<times> conn" where
  "given_id rt payload prefix con =
     (if json_truthy (pget payload ''id'') then (py_str (pget payload ''id''), con) else new_id rt prefix con)"

section \<open>Stores\<close>

definition STORE_KINDS :: "string list" where
  "STORE_KINDS = [''user_private'', ''user_shared'', ''org'', ''app'', ''system'', ''all_users'']"

definition store_record :: "store_row \<Rightarrow> json" where
  "store_record row = JObj [(''id'', JStr (st_id row)), (''tenantId'', JStr (st_tenant row)),
     (''kind'', JStr (st_kind row)), (''name'', JStr (st_name row)), (''uriPrefix'', JStr (st_uri_prefix row)),
     (''ownerIdentityId'', json_opt (st_owner_identity row)), (''ownerAppId'', json_opt (st_owner_app row))]"

definition list_stores :: "runtime \<Rightarrow> principal \<Rightarrow> string option \<Rightarrow> bool \<Rightarrow> conn \<Rightarrow> (conn, json list) outcome" where
  "list_stores rt p kind ensure con =
     and_then (if ensure then ensure_identity_for_principal rt p con else (Inr [], con)) (\<lambda>_ con1.
       (Inr (map store_record (order_by (\<lambda>s. (st_kind s, st_name s))
          (filter (\<lambda>s. st_tenant s = p_tenant_id p \<and> st_disabled_at s = None
             \<and> (truthy kind \<longrightarrow> Some (st_kind s) = kind)) (stores (db con1))))), con1))"

definition default_store_prefix :: "string \<Rightarrow> string \<Rightarrow> string \<Rightarrow> string \<Rightarrow> json \<Rightarrow> string" where
  "default_store_prefix tenant_id kind store_id identity_id owner_app_id =
     (if kind = ''org'' then ''cap://org/'' @ tenant_id @ ''/'' @ store_id
      else if kind = ''app'' then ''cap://app/'' @ tenant_id @ ''/'' @ py_str (json_or owner_app_id (JStr store_id))
      else if kind = ''system'' then ''cap://system/'' @ tenant_id @ ''/'' @ store_id
      else if kind = ''all_users'' then all_users_store_prefix tenant_id
      else ''cap://user/'' @ tenant_id @ ''/'' @ identity_id @ ''/''
        @ (if kind = ''user_shared'' then ''shared'' else ''private'') @ ''/'' @ store_id)"

text \<open>The statements of one store: the application it belongs to, the row, and the organization.\<close>

definition store_statements ::
  "runtime \<Rightarrow> payload \<Rightarrow> string \<Rightarrow> string \<Rightarrow> string option \<Rightarrow> store_row \<Rightarrow> stmt list" where
  "store_statements rt payload tenant_id kind owner_app row =
     (if kind = ''app'' \<and> json_truthy (pget payload ''ownerAppId'') then
        [insert_app_or_ignore \<lparr>app_key = (case owner_app of None \<Rightarrow> [] | Some a \<Rightarrow> a), app_tenant = tenant_id,
           app_app_id = (case owner_app of None \<Rightarrow> [] | Some a \<Rightarrow> a),
           app_display_name = str_or payload ''appDisplayName'' (st_name row)\<rparr>] else [])
     @ [insert_store row]
     @ (if kind = ''org'' then
          let org_slug = str_or payload ''orgSlug'' (slug (st_name row)) in
          [insert_org_or_ignore \<lparr>org_id = str_or payload ''orgId'' (stable_id ''org'' [tenant_id, org_slug]),
             org_tenant = tenant_id, org_slug = org_slug, org_display_name = st_name row,
             org_store = Some (st_id row), org_status = ''active'', org_created_at = sql_now rt\<rparr>] else [])"

definition write_store :: "runtime \<Rightarrow> principal \<Rightarrow> payload \<Rightarrow> string \<Rightarrow> conn \<Rightarrow> (conn, json) outcome" where
  "write_store rt p payload kind con =
     and_then (ensure_identity_for_principal rt p con) (\<lambda>identity_id con1.
       let tenant_id = tenant_of rt p; owner_app_id = pget payload ''ownerAppId'';
           (store_id, con2) = given_id rt payload ''store'' con1;
           name = str_or payload ''name'' (kind @ '' store'');
           prefix = str_or payload ''uriPrefix'' (default_store_prefix tenant_id kind store_id identity_id owner_app_id)
       in and_then (lift_result (bind_text owner_app_id) con2) (\<lambda>owner_app con2.
          and_then (lift_result (if startswith kind ''user_'' then Inr (Some identity_id)
              else bind_text (pget payload ''ownerIdentityId'')) con2) (\<lambda>owner con2.
          let row = \<lparr>st_id = store_id, st_tenant = tenant_id, st_kind = kind, st_name = name, st_uri_prefix = prefix,
                st_owner_identity = owner, st_owner_app = owner_app, st_disabled_at = None\<rparr>
          in and_then (run_on (store_statements rt payload tenant_id kind owner_app row) () con2) (\<lambda>_ con3.
             (Inr (store_record row), commit (snd (audit_event rt ''store.created'' (p_subject p) (Some store_id)
                (Some ''create'') (Some ''allow'') None payload tenant_id ''user'' con3)))))))"

definition create_store :: "runtime \<Rightarrow> principal \<Rightarrow> payload \<Rightarrow> conn \<Rightarrow> (conn, json) outcome" where
  "create_store rt p payload con =
     (let kind = str_or payload ''kind'' ''user_private'' in
      if kind \<notin> set STORE_KINDS then (Inl (ValueError ''Unsupported store kind.''), con)
      else if kind \<in> {''org'', ''system'', ''all_users''} then
        require_access (evaluate_access rt p ''manage'' None (Some (''tenant:'' @ tenant_of rt p)) True)
          (write_store rt p payload kind) con
      else write_store rt p payload kind con)"

section \<open>Namespaces\<close>

definition namespace_record :: "namespace_row \<Rightarrow> json" where
  "namespace_record row = JObj [(''id'', JStr (ns_id row)), (''tenantId'', JStr (ns_tenant row)),
     (''storeId'', JStr (ns_store row)), (''name'', JStr (ns_name row)), (''uriPrefix'', JStr (ns_uri_prefix row)),
     (''visibility'', JStr (ns_visibility row)), (''owner'', JStr (ns_owner row)),
     (''description'', JStr (ns_description row)), (''lifecycle'', JStr (ns_lifecycle row))]"

definition list_namespaces :: "runtime \<Rightarrow> principal \<Rightarrow> string option \<Rightarrow> conn \<Rightarrow> (conn, json list) outcome" where
  "list_namespaces rt p store_id con =
     and_then (ensure_identity_for_principal rt p con) (\<lambda>_ con1.
       (Inr (map namespace_record (order_by (\<lambda>n. (ns_visibility n, ns_name n))
          (filter (\<lambda>n. ns_tenant n = p_tenant_id p \<and> (truthy store_id \<longrightarrow> Some (ns_store n) = store_id))
             (namespaces (db con1))))), con1))"

definition write_namespace :: "runtime \<Rightarrow> principal \<Rightarrow> payload \<Rightarrow> store_row \<Rightarrow> conn \<Rightarrow> (conn, json) outcome" where
  "write_namespace rt p payload store con =
     (let name = py_strip (str_or payload ''name'' []); visibility = str_or payload ''visibility'' ''internal'' in
      if name = [] then (Inl (ValueError ''name is required.''), con)
      else if visibility \<notin> set VISIBILITIES then (Inl (ValueError ''Unsupported visibility.''), con)
      else
        let (namespace_id, con1) = given_id rt payload ''ns'' con;
            row = mk_namespace namespace_id (tenant_of rt p) (st_id store) name
              (str_or payload ''uriPrefix'' (rstrip_chars ''/'' (st_uri_prefix store) @ ''/'' @ strip_chars ''/'' name))
              visibility (str_or payload ''owner'' (p_subject p)) (str_or payload ''description'' [])
        in and_then (run_on [insert_namespace row] () con1) (\<lambda>_ con2.
             (Inr (namespace_record row), commit (snd (audit_event rt ''namespace.created'' (p_subject p)
                (Some namespace_id) (Some ''create'') (Some ''allow'') None payload (tenant_of rt p) ''user'' con2)))))"

definition create_namespace :: "runtime \<Rightarrow> principal \<Rightarrow> payload \<Rightarrow> conn \<Rightarrow> (conn, json) outcome" where
  "create_namespace rt p payload con =
     (let store_id = str_or payload ''storeId'' [] in
      if store_id = [] then (Inl (ValueError ''storeId is required.''), con)
      else case find (\<lambda>s. st_id s = store_id \<and> st_tenant s = tenant_of rt p) (stores (db con)) of
        None \<Rightarrow> (Inl (ValueError ''Store not found.''), con)
      | Some store \<Rightarrow>
          if st_kind store \<in> {''org'', ''system''} then
            require_access (evaluate_access rt p ''manage'' None (Some (''store:'' @ store_id)) True)
              (write_namespace rt p payload store) con
          else write_namespace rt p payload store con)"

section \<open>Shares\<close>

definition share_record :: "share_row \<Rightarrow> json" where
  "share_record row = JObj [(''id'', JStr (sh_id row)), (''tenantId'', JStr (sh_tenant row)),
     (''capabilityUri'', JStr (sh_capability_uri row)), (''fromIdentityId'', JStr (sh_from_identity row)),
     (''subjectType'', JStr (sh_subject_type row)), (''subjectId'', JStr (sh_subject_id row)),
     (''rights'', JList (map JStr (sh_rights row))), (''state'', JStr (sh_state row)),
     (''expiresAt'', json_opt (sh_expires_at row)), (''revokedAt'', json_opt (sh_revoked_at row)),
     (''createdAt'', JStr (sh_created_at row))]"

text \<open>\<^verbatim>\<open>tuple(str(item) for item in payload.get("rights", (...)))\<close>: a string iterates over its
  characters, a dictionary over its keys.\<close>

definition rights_of :: "payload \<Rightarrow> py_error + string list" where
  "rights_of payload = (case map_of payload ''rights'' of
     None \<Rightarrow> Inr [''discover'', ''load'', ''call'']
   | Some (JList xs) \<Rightarrow> Inr (map py_str xs)
   | Some (JStr s) \<Rightarrow> Inr (map (\<lambda>c. [c]) s)
   | Some (JObj kvs) \<Rightarrow> Inr (map fst kvs)
   | Some _ \<Rightarrow> Inl (TypeErr ''object is not iterable''))"

definition find_capability :: "database \<Rightarrow> string \<Rightarrow> string \<Rightarrow> capability option" where
  "find_capability d uri tenant_id =
     map_option capability_from_row (find (\<lambda>c. c_uri c = uri \<and> c_tenant_id c = tenant_id) (capabilities d))"

text \<open>Nobody shares a right they do not hold: the loop over the requested rights.\<close>

fun check_rights :: "runtime \<Rightarrow> principal \<Rightarrow> capability \<Rightarrow> string list \<Rightarrow> conn \<Rightarrow> (conn, unit) outcome" where
  "check_rights rt p c [] con = (Inr (), con)"
| "check_rights rt p c (right # rights) con =
     (let ((allowed, reason), con1) = evaluate_access rt p right (Some c) None True con in
      if \<not> allowed then (Inl (PermissionError (''Cannot share '' @ repr_str right @ '': ''
        @ (case reason of None \<Rightarrow> ''None'' | Some r \<Rightarrow> r))), con1)
      else check_rights rt p c rights con1)"

fun insert_share_tuples :: "runtime \<Rightarrow> string \<Rightarrow> string \<Rightarrow> string \<Rightarrow> string list \<Rightarrow> conn \<Rightarrow> conn" where
  "insert_share_tuples rt tenant_id uri user [] con = con"
| "insert_share_tuples rt tenant_id uri user (right # rights) con =
     (let (rel, con1) = new_id rt ''rel'' con in
      insert_share_tuples rt tenant_id uri user rights
        (insert_tuple_or_ignore \<lparr>rt_id = rel, rt_tenant = tenant_id, rt_object = uri, rt_relation = right,
           rt_user = user, rt_source = ''share''\<rparr> con1))"

definition write_share ::
  "runtime \<Rightarrow> principal \<Rightarrow> payload \<Rightarrow> string \<Rightarrow> string list \<Rightarrow> conn \<Rightarrow> (conn, json) outcome" where
  "write_share rt p payload uri rights con =
     (let subject_type = str_or payload ''subjectType'' ''user''; subject_id = str_or payload ''subjectId'' [] in
      if subject_id = [] then (Inl (ValueError ''subjectId is required.''), con)
      else and_then (ensure_identity_for_principal rt p con) (\<lambda>identity_id con1.
        let (share_id, con2) = new_id rt ''shr'' con1 in
        and_then (lift_result (bind_text (pget payload ''expiresAt'')) con2) (\<lambda>expires_at con2.
          let row = \<lparr>sh_id = share_id, sh_tenant = tenant_of rt p, sh_capability_uri = uri,
                sh_from_identity = identity_id, sh_subject_type = subject_type, sh_subject_id = subject_id,
                sh_rights = rights, sh_state = ''active'', sh_expires_at = expires_at, sh_revoked_at = None,
                sh_created_at = sql_now rt\<rparr>;
              con3 = with_db (\<lambda>d. d\<lparr>shares := shares d @ [row]\<rparr>) con2;
              con4 = insert_share_tuples rt (tenant_of rt p) uri (subject_type @ '':'' @ subject_id) rights con3;
              con5 = with_db (\<lambda>d. d\<lparr>capabilities := update_where (\<lambda>c. c_uri c = uri)
                (c_share_state_update (\<lambda>_. ''shared'')) (capabilities d)\<rparr>) con4
          in (Inr (share_record row), commit (snd (audit_event rt ''share.created'' (p_subject p) (Some uri)
                (Some ''share'') (Some ''allow'') None payload (tenant_of rt p) ''user'' con5))))))"

definition share_uri :: "payload \<Rightarrow> string" where
  "share_uri payload = py_str (json_or (pget payload ''capabilityUri'') (json_or (pget payload ''uri'') (JStr [])))"

definition share_checked :: "runtime \<Rightarrow> principal \<Rightarrow> payload \<Rightarrow> capability \<Rightarrow> conn \<Rightarrow> (conn, json) outcome" where
  "share_checked rt p payload c con1 =
     and_then (lift_result (rights_of payload) con1) (\<lambda>rights con1.
       if rights = [] \<or> list_ex (\<lambda>right. right \<notin> set RIGHTS) rights
       then (Inl (ValueError ''rights contains an unsupported right.''), con1)
       else and_then (check_rights rt p c rights con1) (\<lambda>_ con2.
         write_share rt p payload (share_uri payload) rights con2))"

definition create_share :: "runtime \<Rightarrow> principal \<Rightarrow> payload \<Rightarrow> conn \<Rightarrow> (conn, json) outcome" where
  "create_share rt p payload con =
     (if share_uri payload = [] then (Inl (ValueError ''capabilityUri is required.''), con)
      else case find_capability (db con) (share_uri payload) (tenant_of rt p) of
        None \<Rightarrow> (Inl (ValueError ''Capability not found.''), con)
      | Some c \<Rightarrow> require_access (evaluate_access rt p ''share'' (Some c) None True) (share_checked rt p payload c) con)"

definition share_tuple_of :: "string \<Rightarrow> share_row \<Rightarrow> relationship_row \<Rightarrow> bool" where
  "share_tuple_of tenant_id row t = (rt_tenant t = tenant_id \<and> rt_object t = sh_capability_uri row
     \<and> rt_relation t \<in> set (sh_rights row)
     \<and> rt_user t = sh_subject_type row @ '':'' @ sh_subject_id row \<and> rt_source t = ''share'')"

definition revoke_share :: "runtime \<Rightarrow> principal \<Rightarrow> string \<Rightarrow> conn \<Rightarrow> (conn, json) outcome" where
  "revoke_share rt p share_id con =
     (case find (\<lambda>s. sh_id s = share_id \<and> sh_tenant s = p_tenant_id p) (shares (db con)) of
        None \<Rightarrow> (Inl (ValueError ''Share not found.''), con)
      | Some row \<Rightarrow> (case find_capability (db con) (sh_capability_uri row) (p_tenant_id p) of
          None \<Rightarrow> (Inl (ValueError ''Capability not found.''), con)
        | Some c \<Rightarrow>
            let identity_id = or_else (p_identity_id p) (stable_id ''idn'' [tenant_of rt p, p_subject p]);
                ((allowed, reason), con1) = evaluate_access rt p ''share'' (Some c) None True con in
            if \<not> allowed \<and> sh_from_identity row \<noteq> identity_id
            then (Inl (PermissionError (case reason of None \<Rightarrow> [] | Some r \<Rightarrow> r)), con1)
            else
              let con2 = with_db (\<lambda>d. d\<lparr>shares := update_where (\<lambda>s. sh_id s = share_id)
                    (\<lambda>s. s\<lparr>sh_state := ''revoked'', sh_revoked_at := Some (sql_now rt)\<rparr>) (shares d),
                    relationship_tuples := delete_where (share_tuple_of (p_tenant_id p) row) (relationship_tuples d)\<rparr>) con1
              in (Inr (JObj [(''id'', JStr share_id), (''state'', JStr ''revoked'')]),
                  commit (snd (audit_event rt ''share.revoked'' (p_subject p) (Some (sh_capability_uri row))
                    (Some ''revoke'') (Some ''allow'') None [(''shareId'', JStr share_id)] (p_tenant_id p) ''user'' con2)))))"

definition list_shares :: "runtime \<Rightarrow> principal \<Rightarrow> string option \<Rightarrow> conn \<Rightarrow> (conn, json list) outcome" where
  "list_shares rt p capability_uri con =
     (let rows = (\<lambda>con1. (Inr (map share_record (order_by_desc sh_created_at
            (filter (\<lambda>s. sh_tenant s = p_tenant_id p \<and> (truthy capability_uri \<longrightarrow> Some (sh_capability_uri s) = capability_uri))
               (shares (db con1))))), con1)) in
      case capability_uri of
        Some uri \<Rightarrow>
          if uri = [] then require_access (evaluate_access rt p ''audit'' None (Some (''tenant:'' @ p_tenant_id p)) True) rows con
          else (case find_capability (db con) uri (p_tenant_id p) of
              None \<Rightarrow> (Inl (ValueError ''Capability not found.''), con)
            | Some c \<Rightarrow> require_access (evaluate_access rt p ''share'' (Some c) None True) rows con)
      | None \<Rightarrow> require_access (evaluate_access rt p ''audit'' None (Some (''tenant:'' @ p_tenant_id p)) True) rows con)"

section \<open>Facts\<close>

lemma check_rights_ok:
  assumes "cache_coherent (db con) (org_cache con)" and "fst (check_rights rt p c rights con) = Inr u"
  shows "(\<forall>right \<in> set rights. access_allowed rt (db con) p right (Some c) None)
    \<and> unaudited (db (snd (check_rights rt p c rights con))) = unaudited (db con)"
  using assms
proof (induction rights arbitrary: con)
  case (Cons right rights)
  let ?con1 = "snd (evaluate_access rt p right (Some c) None True con)"
  have allowed: "access_allowed rt (db con) p right (Some c) None"
    and rest: "check_rights rt p c (right # rights) con = check_rights rt p c rights ?con1"
    using Cons.prems evaluate_access_allowed(1) [OF Cons.prems(1), of rt p right "Some c" None True]
    by (auto simp: Let_def case_prod_unfold split: if_splits)
  from Cons.IH [of ?con1] Cons.prems rest evaluate_access_coherent [OF Cons.prems(1)]
  have "(\<forall>r \<in> set rights. access_allowed rt (db ?con1) p r (Some c) None)
      \<and> unaudited (db (snd (check_rights rt p c rights ?con1))) = unaudited (db ?con1)" by simp
  with allowed rest access_allowed_cong [OF same_policy_evaluate [of rt p right "Some c" None True con]] gate.gate_frame
  show ?case by simp
qed simp

lemma insert_share_tuples_frame [simp]:
  "shares (db (insert_share_tuples rt t u w rights con)) = shares (db con)"
  "capabilities (db (insert_share_tuples rt t u w rights con)) = capabilities (db con)"
  "identities (db (insert_share_tuples rt t u w rights con)) = identities (db con)"
  by (induction rt t u w rights con rule: insert_share_tuples.induct)
    (simp_all add: Let_def case_prod_unfold insert_tuple_or_ignore_def)

text \<open>Which tuples are in the table, apart from their identifiers and sources.\<close>

definition tuple_keys :: "database \<Rightarrow> (string \<times> string \<times> string \<times> string) set" where
  "tuple_keys d = (\<lambda>t. (rt_tenant t, rt_object t, rt_relation t, rt_user t)) ` set (relationship_tuples d)"

lemma insert_tuple_keys:
  "tuple_keys (db (insert_tuple_or_ignore row con)) =
     insert (rt_tenant row, rt_object row, rt_relation row, rt_user row) (tuple_keys (db con))"
proof (cases "list_ex (\<lambda>r. rt_tenant r = rt_tenant row \<and> rt_object r = rt_object row
           \<and> rt_relation r = rt_relation row \<and> rt_user r = rt_user row) (relationship_tuples (db con))")
  case True
  then have "(rt_tenant row, rt_object row, rt_relation row, rt_user row) \<in> tuple_keys (db con)"
    by (auto simp: list_ex_iff tuple_keys_def image_iff) metis
  with True show ?thesis by (simp add: insert_tuple_or_ignore_def insert_absorb)
qed (simp add: insert_tuple_or_ignore_def tuple_keys_def)

lemma insert_share_tuples_keys:
  "tuple_keys (db (insert_share_tuples rt t u w rights con)) =
     (\<lambda>right. (t, u, right, w)) ` set rights \<union> tuple_keys (db con)"
proof (induction rights arbitrary: con)
  case (Cons right rights)
  show ?case by (simp add: Let_def case_prod_unfold Cons.IH insert_tuple_keys)
qed simp

lemma tuple_match_keys:
  "tuple_match d t objs rels users \<longleftrightarrow>
     (\<exists>ob \<in> set objs. \<exists>r \<in> set rels. \<exists>u \<in> set users. (t, ob, r, u) \<in> tuple_keys d)"
proof -
  have "tuple_match d t objs rels users \<longleftrightarrow> (\<exists>x \<in> set (relationship_tuples d). rt_tenant x = t
      \<and> rt_object x \<in> set objs \<and> rt_relation x \<in> set rels \<and> rt_user x \<in> set users)"
    by (auto simp: tuple_match_def find_None_iff)
  then show ?thesis by (auto simp: tuple_keys_def image_iff)
qed

lemma audit_event_tuple_keys [simp]:
  "tuple_keys (db (snd (audit_event rt et a t act dec r pl ten ty con))) = tuple_keys (db con)"
  by (simp add: tuple_keys_def)

text \<open>What a successful \<^verbatim>\<open>create_share\<close> went through.\<close>

lemma create_share_InrE:
  assumes "fst (create_share rt p payload con) = Inr out"
  obtains c rights con1 con2 where
    "find_capability (db con) (share_uri payload) (tenant_of rt p) = Some c"
    "fst (fst (evaluate_access rt p ''share'' (Some c) None True con))"
    "con1 = snd (evaluate_access rt p ''share'' (Some c) None True con)"
    "rights_of payload = Inr rights" "rights \<noteq> []" "set rights \<subseteq> set RIGHTS"
    "check_rights rt p c rights con1 = (Inr (), con2)"
    "create_share rt p payload con = write_share rt p payload (share_uri payload) rights con2"
proof -
  have u: "share_uri payload \<noteq> []" using assms by (auto simp: create_share_def)
  from assms u obtain c where c: "find_capability (db con) (share_uri payload) (tenant_of rt p) = Some c"
    by (cases "find_capability (db con) (share_uri payload) (tenant_of rt p)") (simp_all add: create_share_def)
  have e: "create_share rt p payload con =
      require_access (evaluate_access rt p ''share'' (Some c) None True) (share_checked rt p payload c) con"
    using u c by (simp add: create_share_def)
  let ?con1 = "snd (evaluate_access rt p ''share'' (Some c) None True con)"
  from gate.require_Inr [OF assms [unfolded e]]
  have g: "fst (fst (evaluate_access rt p ''share'' (Some c) None True con))"
    and b: "create_share rt p payload con = share_checked rt p payload c ?con1"
    by (simp_all add: e)
  obtain rights where r: "rights_of payload = Inr rights"
    using assms unfolding b share_checked_def by (cases "rights_of payload") auto
  with assms b have ok: "rights \<noteq> []" "set rights \<subseteq> set RIGHTS"
    by (auto simp: share_checked_def list_ex_iff split: if_splits)
  then have b2: "create_share rt p payload con = and_then (check_rights rt p c rights ?con1)
      (\<lambda>_ con2. write_share rt p payload (share_uri payload) rights con2)"
    unfolding b share_checked_def by (auto simp: r list_ex_iff)
  from assms [unfolded b2] obtain v con2 where "check_rights rt p c rights ?con1 = (Inr v, con2)"
    by (rule and_then_InrE)
  with b2 have "check_rights rt p c rights ?con1 = (Inr (), con2)"
    "create_share rt p payload con = write_share rt p payload (share_uri payload) rights con2" by simp_all
  with c g r ok show thesis by (rule that [OF _ _ refl])
qed

lemma write_share_effect:
  assumes "fst (write_share rt p payload uri rights con) = Inr out"
  shows "tuple_keys (db (snd (write_share rt p payload uri rights con))) =
      (\<lambda>right. (tenant_of rt p, uri, right, str_or payload ''subjectType'' ''user'' @ '':'' @ str_or payload ''subjectId'' []))
        ` set rights \<union> tuple_keys (db (snd (ensure_identity_for_principal rt p con)))"
    and "\<exists>row. shares (db (snd (write_share rt p payload uri rights con)))
        = shares (db (snd (ensure_identity_for_principal rt p con))) @ [row] \<and> sh_rights row = rights
        \<and> sh_capability_uri row = uri \<and> sh_state row = ''active'' \<and> sh_revoked_at row = None"
proof -
  have s: "str_or payload ''subjectId'' [] \<noteq> []" using assms by (auto simp: write_share_def Let_def)
  from assms s obtain i con1 where i: "ensure_identity_for_principal rt p con = (Inr i, con1)"
    unfolding write_share_def Let_def by (auto elim!: and_then_InrE)
  from assms s i obtain e where e: "bind_text (pget payload ''expiresAt'') = Inr e"
    by (cases "bind_text (pget payload ''expiresAt'')") (auto simp: write_share_def Let_def case_prod_unfold)
  have k: "tuple_keys (d\<lparr>shares := x\<rparr>) = tuple_keys d" "tuple_keys (d\<lparr>capabilities := y\<rparr>) = tuple_keys d" for d x y
    by (simp_all add: tuple_keys_def)
  show "tuple_keys (db (snd (write_share rt p payload uri rights con))) =
      (\<lambda>right. (tenant_of rt p, uri, right, str_or payload ''subjectType'' ''user'' @ '':'' @ str_or payload ''subjectId'' []))
        ` set rights \<union> tuple_keys (db (snd (ensure_identity_for_principal rt p con)))"
    using s by (simp add: write_share_def Let_def i e case_prod_unfold k insert_share_tuples_keys)
  show "\<exists>row. shares (db (snd (write_share rt p payload uri rights con)))
        = shares (db (snd (ensure_identity_for_principal rt p con))) @ [row] \<and> sh_rights row = rights
        \<and> sh_capability_uri row = uri \<and> sh_state row = ''active'' \<and> sh_revoked_at row = None"
    using s by (simp add: write_share_def Let_def i e case_prod_unfold)
qed

lemma ensure_identity_governed [simp]:
  "shares (db (snd (ensure_identity_for_principal rt p con))) = shares (db con)"
  "relationship_tuples (db (snd (ensure_identity_for_principal rt p con))) = relationship_tuples (db con)"
  "capabilities (db (snd (ensure_identity_for_principal rt p con))) = capabilities (db con)"
  "role_assignments (db (snd (ensure_identity_for_principal rt p con))) = role_assignments (db con)"
  using ungoverned.ensure_identity_keeps [OF refl, of rt p con] by (simp_all add: governed_tables_def)

lemma find_capability_uri: "find_capability d uri t = Some c \<Longrightarrow> c_uri c = uri \<and> c_tenant_id c = t"
  by (auto simp: find_capability_def dest!: find_SomeD)

lemma tuple_grant_allowed:
  assumes "(p_tenant_id q, c_uri c, right, ''user:'' @ p_subject q) \<in> tuple_keys d" and "p_tenant_id q \<noteq> []"
    and "right \<in> set RIGHTS" and "\<not> guard_denies rt d q right (Some c) None"
  shows "access_allowed rt d q right (Some c) None"
proof -
  have "tuple_match d (access_tenant rt q (Some c)) (resource_refs rt (Some c) None)
      [right, ''grant_'' @ right, ''owner''] (subject_refs rt q)"
    unfolding tuple_match_keys using assms(1,2)
    by (intro bexI [of _ "c_uri c"] bexI [of _ right] bexI [of _ "''user:'' @ p_subject q"])
      (simp_all add: access_tenant_def resource_refs_def subject_refs_def)
  with assms(3,4) show ?thesis by (auto simp: access_allowed_def some_grant_def)
qed

lemma check_rights_succeeds:
  assumes "cache_coherent (db con) (org_cache con)"
    and "\<forall>right \<in> set rights. access_allowed rt (db con) p right (Some c) None"
  shows "\<exists>con2. check_rights rt p c rights con = (Inr (), con2) \<and> unaudited (db con2) = unaudited (db con)"
  using assms
proof (induction rights arbitrary: con)
  case (Cons right rights)
  let ?e = "evaluate_access rt p right (Some c) None True con"
  have "fst (fst ?e)" using Cons.prems evaluate_access_allowed(1) [OF Cons.prems(1)] by simp
  then have "check_rights rt p c (right # rights) con = check_rights rt p c rights (snd ?e)"
    by (simp add: Let_def case_prod_unfold)
  moreover have "\<forall>r \<in> set rights. access_allowed rt (db (snd ?e)) p r (Some c) None"
    using Cons.prems(2) access_allowed_cong [OF same_policy_evaluate] by simp
  ultimately show ?case
    using Cons.IH [OF evaluate_access_coherent [OF Cons.prems(1)]] gate.gate_frame by metis
qed simp

lemma create_share_succeeds:
  assumes coh: "cache_coherent (db con) (org_cache con)" and "share_uri payload \<noteq> []"
    and c: "find_capability (db con) (share_uri payload) (tenant_of rt p) = Some c"
    and share: "access_allowed rt (db con) p ''share'' (Some c) None"
    and r: "rights_of payload = Inr rights" "rights \<noteq> []" "set rights \<subseteq> set RIGHTS"
      "\<forall>right \<in> set rights. access_allowed rt (db con) p right (Some c) None"
    and s: "str_or payload ''subjectId'' [] \<noteq> []" "bind_text (pget payload ''expiresAt'') = Inr e"
    and ident: "\<And>con2. unaudited (db con2) = unaudited (db con) \<Longrightarrow> \<exists>i con3. ensure_identity_for_principal rt p con2 = (Inr i, con3)"
  shows "\<exists>out. fst (create_share rt p payload con) = Inr out"
proof -
  let ?e = "evaluate_access rt p ''share'' (Some c) None True con"
  have g: "fst (fst ?e)" using share evaluate_access_allowed(1) [OF coh] by simp
  have "\<forall>right \<in> set rights. access_allowed rt (db (snd ?e)) p right (Some c) None"
    using r(4) access_allowed_cong [OF same_policy_evaluate] by simp
  then obtain con2 where ch: "check_rights rt p c rights (snd ?e) = (Inr (), con2)"
    "unaudited (db con2) = unaudited (db con)"
    using check_rights_succeeds [OF evaluate_access_coherent [OF coh]] gate.gate_frame by metis
  obtain i con3 where i: "ensure_identity_for_principal rt p con2 = (Inr i, con3)"
    using ident [OF ch(2)] by blast
  have "\<exists>out. fst (write_share rt p payload (share_uri payload) rights con2) = Inr out"
    using s by (simp add: write_share_def Let_def i case_prod_unfold)
  moreover have "create_share rt p payload con = write_share rt p payload (share_uri payload) rights con2"
    using assms(2) r(2,3) ch(1)
    by (auto simp: create_share_def c gate.require_allowed [OF g] share_checked_def r(1) list_ex_iff)
  ultimately show ?thesis by simp
qed

lemma known_identity:
  assumes "identities (db con) = [identity_to_write rt p]" and "stores_provisioned rt p (db con)"
  shows "ensure_identity_for_principal rt p con = (Inr (provisioned_identity rt p), con)"
  using assms by (simp add: ensure_identity_for_principal_def Let_def identity_unchanged_def identity_to_write_def)

section \<open>Properties\<close>

lemma create_share_granted:
  assumes "cache_coherent (db con) (org_cache con)" and "fst (create_share rt p payload con) = Inr out"
  shows "\<exists>c rights row. find_capability (db con) (share_uri payload) (tenant_of rt p) = Some c
    \<and> rights_of payload = Inr rights \<and> access_allowed rt (db con) p ''share'' (Some c) None
    \<and> (\<forall>right \<in> set rights. access_allowed rt (db con) p right (Some c) None)
    \<and> shares (db (snd (create_share rt p payload con))) = shares (db con) @ [row] \<and> sh_rights row = rights
    \<and> sh_capability_uri row = share_uri payload
    \<and> tuple_keys (db (snd (create_share rt p payload con))) = tuple_keys (db con)
        \<union> (\<lambda>right. (tenant_of rt p, share_uri payload, right,
              str_or payload ''subjectType'' ''user'' @ '':'' @ str_or payload ''subjectId'' [])) ` set rights"
proof -
  from assms(2) obtain c rights con1 con2 where c: "find_capability (db con) (share_uri payload) (tenant_of rt p) = Some c"
    and g: "fst (fst (evaluate_access rt p ''share'' (Some c) None True con))"
    and rights: "rights_of payload = Inr rights"
    and con1: "con1 = snd (evaluate_access rt p ''share'' (Some c) None True con)"
    and ch: "check_rights rt p c rights con1 = (Inr (), con2)"
    and w: "create_share rt p payload con = write_share rt p payload (share_uri payload) rights con2"
    by (rule create_share_InrE)
  have share: "access_allowed rt (db con) p ''share'' (Some c) None"
    using evaluate_access_allowed(1) [OF assms(1)] g by simp
  have held: "(\<forall>right \<in> set rights. access_allowed rt (db con1) p right (Some c) None)
      \<and> unaudited (db con2) = unaudited (db con1)"
    using check_rights_ok [OF evaluate_access_coherent [OF assms(1), of rt p "''share''" "Some c" None True, folded con1]]
      ch by (metis fst_conv snd_conv)
  have "same_policy (db con1) (db con)" unfolding con1 by (rule same_policy_evaluate)
  with held have held': "\<forall>right \<in> set rights. access_allowed rt (db con) p right (Some c) None"
    using access_allowed_cong by blast
  have "unaudited (db con2) = unaudited (db con)" using held gate.gate_frame by (simp add: con1)
  then have same: "shares (db con2) = shares (db con)" "tuple_keys (db con2) = tuple_keys (db con)"
    using unaudited_tables(8,9) [of "db con2" "db con"] by (simp_all add: tuple_keys_def)
  from assms(2) w have ok: "fst (write_share rt p payload (share_uri payload) rights con2) = Inr out" by simp
  obtain row where row: "shares (db (snd (create_share rt p payload con))) = shares (db con) @ [row]"
      "sh_rights row = rights" "sh_capability_uri row = share_uri payload"
    using write_share_effect(2) [OF ok] by (auto simp: w same)
  have "tuple_keys (db (snd (ensure_identity_for_principal rt p con2))) = tuple_keys (db con)"
    using same by (simp add: tuple_keys_def)
  with write_share_effect(1) [OF ok] w c rights share held' row show ?thesis by (auto simp: Un_commute)
qed

text \<open>What a refused share leaves alone.\<close>

definition share_tables where
  "share_tables d = (shares d, relationship_tuples d, capabilities d, role_assignments d)"

lemma check_rights_frame: "unaudited (db (snd (check_rights rt p c rights con))) = unaudited (db con)"
proof (induction rights arbitrary: con)
  case (Cons right rights)
  then show ?case using gate.gate_frame [of rt p right "Some c" None True con] by (simp add: Let_def case_prod_unfold)
qed simp

lemma write_share_refused:
  assumes "write_share rt p payload uri rights con = (Inl e, con')"
  shows "share_tables (db con') = share_tables (db con)"
proof -
  obtain r con1 where i: "ensure_identity_for_principal rt p con = (r, con1)" by fastforce
  have "share_tables (db con1) = share_tables (db con)"
    using ensure_identity_governed [of rt p con] by (simp add: i share_tables_def)
  with assms show ?thesis
    unfolding write_share_def Let_def i
    by (auto simp: and_then_def lift_result_def new_id_def case_prod_unfold Let_def split: if_splits sum.splits)
qed

lemma share_tables_unaudited: "unaudited d = unaudited d' \<Longrightarrow> share_tables d = share_tables d'"
  using unaudited_tables [of d d'] by (simp add: share_tables_def)

lemma create_share_refused:
  assumes "create_share rt p payload con = (Inl e, con')"
  shows "share_tables (db con') = share_tables (db con)"
proof (cases "share_uri payload = [] \<or> find_capability (db con) (share_uri payload) (tenant_of rt p) = None")
  case True
  with assms show ?thesis by (auto simp: create_share_def split: if_splits option.splits)
next
  case False
  then obtain c where c: "find_capability (db con) (share_uri payload) (tenant_of rt p) = Some c" by auto
  let ?con1 = "snd (evaluate_access rt p ''share'' (Some c) None True con)"
  have con1: "share_tables (db ?con1) = share_tables (db con)" by (rule share_tables_unaudited, rule gate.gate_frame)
  show ?thesis
  proof (cases "fst (fst (evaluate_access rt p ''share'' (Some c) None True con))")
    case denied: False
    with assms False c have "con' = ?con1" by (simp add: create_share_def require_access_def case_prod_unfold Let_def)
    with con1 show ?thesis by simp
  next
    case True
    have run: "share_checked rt p payload c ?con1 = (Inl e, con')"
      using assms False c gate.require_allowed [OF True, of "share_checked rt p payload c"] by (simp add: create_share_def)
    show ?thesis
    proof (cases "rights_of payload")
      case (Inl x)
      with run con1 show ?thesis by (auto simp: share_checked_def lift_result_def)
    next
      case (Inr rights)
      obtain r con2 where ch: "check_rights rt p c rights ?con1 = (r, con2)" by fastforce
      have c2: "share_tables (db con2) = share_tables (db con)"
        using check_rights_frame [of rt p c rights ?con1] con1 share_tables_unaudited [of "db con2" "db ?con1"] by (simp add: ch)
      consider "con' = ?con1" | "con' = con2" | "write_share rt p payload (share_uri payload) rights con2 = (Inl e, con')"
        using run by (cases r) (auto simp: share_checked_def Inr lift_result_def ch split: if_splits)
      then show ?thesis using con1 c2 write_share_refused by cases simp_all
    qed
  qed
qed

text \<open>C22. Nobody shares more than they hold: when create_share succeeds, the policy allowed the
  principal the share right and each of the requested rights on the capability, the new row of
  the shares table carries exactly those rights, and the only relationship tuples that appear
  are those rights for the named subject. When it raises, no share, tuple, capability and role
  assignment has changed; the decisions are recorded, and the sharer may have been provisioned (its
  identity and home stores) by then.\<close>

theorem shares_only_held_rights:
  assumes "cache_coherent (db con) (org_cache con)"
  shows "case create_share rt p payload con of
    (Inl _, con') \<Rightarrow> shares (db con') = shares (db con) \<and> relationship_tuples (db con') = relationship_tuples (db con)
      \<and> capabilities (db con') = capabilities (db con) \<and> role_assignments (db con') = role_assignments (db con)
  | (Inr _, con') \<Rightarrow> \<exists>c rights row. find_capability (db con) (share_uri payload) (tenant_of rt p) = Some c
      \<and> rights_of payload = Inr rights \<and> access_allowed rt (db con) p ''share'' (Some c) None
      \<and> (\<forall>right \<in> set rights. access_allowed rt (db con) p right (Some c) None)
      \<and> shares (db con') = shares (db con) @ [row] \<and> sh_rights row = rights
      \<and> sh_capability_uri row = share_uri payload
      \<and> tuple_keys (db con') = tuple_keys (db con)
          \<union> (\<lambda>right. (tenant_of rt p, share_uri payload, right,
                str_or payload ''subjectType'' ''user'' @ '':'' @ str_or payload ''subjectId'' [])) ` set rights"
proof (cases "create_share rt p payload con")
  case (Pair res con')
  show ?thesis
  proof (cases res)
    case (Inl e)
    with create_share_refused [OF Pair [unfolded Inl]] Pair Inl show ?thesis by (simp add: share_tables_def)
  next
    case (Inr out)
    with Pair create_share_granted [OF assms, of rt p payload out] show ?thesis by simp
  qed
qed

text \<open>An administrator with provisioned stores, who shares one capability until the start of 1970.\<close>

definition sharing_database :: database where
  "sharing_database = empty_database\<lparr>identities := [identity_to_write sample_runtime sample_admin],
     stores := [(sample_store ''s1'' ''asg'' ''user_private'')\<lparr>st_owner_identity := Some ''idn_root''\<rparr>,
       (sample_store ''s2'' ''asg'' ''user_shared'')\<lparr>st_owner_identity := Some ''idn_root''\<rparr>],
     capabilities := [sample_capability]\<rparr>"

definition sample_share :: payload where
  "sample_share = [(''capabilityUri'', JStr (c_uri sample_capability)), (''subjectId'', JStr ''ann@example.com''),
     (''rights'', JList [JStr ''load'']), (''expiresAt'', JStr (utc_text 0))]"

lemma sample_share_fields:
  "share_uri sample_share = c_uri sample_capability" "str_or sample_share ''subjectId'' [] = ''ann@example.com''"
  "rights_of sample_share = Inr [''load'']" "pget sample_share ''subjectType'' = JNull"
  "bind_text (pget sample_share ''expiresAt'') = Inr (Some (utc_text 0))"
  "str_or sample_share ''subjectType'' ''user'' = ''user''"
  by (simp_all add: sample_share_def share_uri_def rights_of_def pget_def json_or_def json_truthy_def py_str_def
      bind_text_def sample_capability_def)

lemma sample_capability_row: "capability_from_row sample_capability = sample_capability"
  by (simp add: capability_from_row_def sample_capability_def DISCOVERY_MODES_def VISIBILITIES_def
      CAPABILITY_TYPES_def RISK_TIERS_def)

lemma sample_capability_open:
  "\<not> capability_blocked (Some sample_capability)" "\<not> requires_step_up right (Some sample_capability)"
  "\<not> production_environment sample_runtime"
  by (simp_all add: sample_defs capability_blocked_def blocked_states_def blocked_lifecycles_def
      requires_step_up_def STEP_UP_RISK_TIERS_def production_environment_def py_strip_def py_lstrip_def
      py_rstrip_def py_lower_def)

lemma sample_tenants_of: "tenant_of sample_runtime sample_admin = ''asg''" "p_tenant_id sample_admin = ''asg''"
  "provisioned_identity sample_runtime sample_admin = ''idn_root''"
  by (simp_all add: tenant_of_def sample_admin_def sample_principal_def provisioned_identity_def)

lemma sample_share_allowed:
  assumes "right \<in> set RIGHTS"
  shows "access_allowed sample_runtime sharing_database sample_admin right (Some sample_capability) None"
proof (rule global_admin_allowed [OF unguardedI _ assms])
  show "\<forall>i \<in> set (identities sharing_database). id_active i" by (simp add: sharing_database_def identity_to_write_def)
qed (simp_all add: sample_admin_def sample_principal_def sharing_database_def empty_database_def sample_capability_open)

lemma sample_shared:
  "\<exists>out. fst (create_share sample_runtime sample_admin sample_share (sample_conn sharing_database)) = Inr out"
proof (rule create_share_succeeds)
  let ?con = "sample_conn sharing_database"
  show "cache_coherent (db ?con) (org_cache ?con)" by (simp add: sample_conn_def)
  show "share_uri sample_share \<noteq> []" by (simp add: sample_share_fields sample_capability_def)
  show "find_capability (db ?con) (share_uri sample_share) (tenant_of sample_runtime sample_admin) = Some sample_capability"
    by (simp add: find_capability_def sample_conn_def sharing_database_def sample_share_fields sample_tenants_of
        sample_capability_row) (simp add: sample_capability_def)
  show "access_allowed sample_runtime (db ?con) sample_admin ''share'' (Some sample_capability) None"
    "\<forall>right \<in> set [''load'']. access_allowed sample_runtime (db ?con) sample_admin right (Some sample_capability) None"
    using sample_share_allowed by (simp_all add: sample_conn_def RIGHTS_def)
  fix con2 :: conn
  assume "unaudited (db con2) = unaudited (db ?con)"
  from unaudited_tables(2,4) [OF this]
  have "identities (db con2) = [identity_to_write sample_runtime sample_admin]"
    "stores_provisioned sample_runtime sample_admin (db con2)"
    by (simp_all add: sample_conn_def sharing_database_def stores_provisioned_def sample_tenants_of sample_store_def rowcount_def)
  from known_identity [OF this]
  show "\<exists>i con3. ensure_identity_for_principal sample_runtime sample_admin con2 = (Inr i, con3)" by blast
qed (simp_all add: sample_share_fields RIGHTS_def)

theorem shares_only_held_rights_witness:
  "\<exists>row. shares (db (snd (create_share sample_runtime sample_admin sample_share (sample_conn sharing_database)))) = [row]
     \<and> sh_capability_uri row = c_uri sample_capability"
proof -
  let ?con = "sample_conn sharing_database"
  have c: "cache_coherent (db ?con) (org_cache ?con)" by (simp add: sample_conn_def)
  from sample_shared obtain out where "fst (create_share sample_runtime sample_admin sample_share ?con) = Inr out" ..
  then show ?thesis using shares_only_held_rights [OF c, where rt = sample_runtime and p = sample_admin and payload = sample_share]
    by (cases "create_share sample_runtime sample_admin sample_share ?con")
      (auto simp: sample_conn_def sharing_database_def empty_database_def sample_share_fields)
qed

text \<open>A share does not end with its expiry: create_share also writes a relationship tuple per right,
  and tuples carry no expiry, so the policy allows the subject every shared right on the capability
  at every later time, whatever expiresAt says, unless a guard denies or somebody revokes the share.\<close>

theorem share_outlives_its_expiry:
  assumes "fst (create_share rt p payload con) = Inr out" and "rights_of payload = Inr rights" "right \<in> set rights"
    and "pget payload ''subjectType'' = JNull" "p_subject q = str_or payload ''subjectId'' []"
    and "p_tenant_id q = tenant_of rt p" "p_tenant_id q \<noteq> []" "c_uri c = share_uri payload"
  defines "con' \<equiv> snd (create_share rt p payload con)"
  assumes "\<not> guard_denies rt' (db con') q right (Some c) None"
  shows "access_allowed rt' (db con') q right (Some c) None"
proof -
  from assms(1) obtain c' rights' con1 con2 where r: "rights_of payload = Inr rights'" "set rights' \<subseteq> set RIGHTS"
    and w: "create_share rt p payload con = write_share rt p payload (share_uri payload) rights' con2"
    by (rule create_share_InrE)
  from assms(1) w have ok: "fst (write_share rt p payload (share_uri payload) rights' con2) = Inr out" by simp
  have "str_or payload ''subjectType'' ''user'' = ''user''"
    using assms(4) by (simp add: str_or_def json_or_def json_truthy_def py_str_def)
  then have "(p_tenant_id q, c_uri c, right, ''user:'' @ p_subject q) \<in> tuple_keys (db con')"
    using write_share_effect(1) [OF ok] r assms(2,3,5,6,8) by (auto simp: con'_def w)
  moreover have "right \<in> set RIGHTS" using r assms(2,3) by auto
  ultimately show ?thesis using assms(7,10) by (intro tuple_grant_allowed)
qed

lemma sample_share_state:
  defines "con' \<equiv> snd (create_share sample_runtime sample_admin sample_share (sample_conn sharing_database))"
  shows "identities (db con') = [identity_to_write sample_runtime sample_admin]"
    and "tuple_keys (db con') = {(''asg'', c_uri sample_capability, ''load'', ''user:ann@example.com'')}"
proof -
  let ?con = "sample_conn sharing_database"
  from sample_shared obtain out where ok: "fst (create_share sample_runtime sample_admin sample_share ?con) = Inr out" ..
  then obtain c rights con1 con2 where con1: "con1 = snd (evaluate_access sample_runtime sample_admin ''share'' (Some c) None True ?con)"
    and rights: "rights_of sample_share = Inr rights" and ch: "check_rights sample_runtime sample_admin c rights con1 = (Inr (), con2)"
    and w: "create_share sample_runtime sample_admin sample_share ?con
      = write_share sample_runtime sample_admin sample_share (share_uri sample_share) rights con2"
    by (rule create_share_InrE)
  have coh: "cache_coherent (db con1) (org_cache con1)"
    unfolding con1 by (rule evaluate_access_coherent) (simp add: sample_conn_def)
  have "unaudited (db con2) = unaudited (db ?con)"
    using check_rights_ok [OF coh] ch gate.gate_frame by (metis con1 fst_conv snd_conv)
  from unaudited_tables(2,4,8) [OF this] have t: "identities (db con2) = [identity_to_write sample_runtime sample_admin]"
    "stores_provisioned sample_runtime sample_admin (db con2)" "relationship_tuples (db con2) = []"
    by (simp_all add: sample_conn_def sharing_database_def empty_database_def stores_provisioned_def sample_tenants_of
        sample_store_def rowcount_def)
  note k = known_identity [OF t(1,2)]
  show "identities (db con') = [identity_to_write sample_runtime sample_admin]"
    unfolding con'_def w using t(1)
    by (simp add: write_share_def Let_def k sample_share_fields case_prod_unfold)
  show "tuple_keys (db con') = {(''asg'', c_uri sample_capability, ''load'', ''user:ann@example.com'')}"
    using write_share_effect(1) [OF ok [unfolded w]] rights [unfolded sample_share_fields(3)] t(3)
    by (auto simp: con'_def w k sample_share_fields sample_tenants_of tuple_keys_def)
qed

theorem share_outlives_its_expiry_witness:
  "expired (Some (utc_text 0)) (utc_now sample_runtime) \<and>
   access_allowed sample_runtime
     (db (snd (create_share sample_runtime sample_admin sample_share (sample_conn sharing_database))))
     sample_principal ''load'' (Some sample_capability) None"
proof
  let ?con = "sample_conn sharing_database"
  let ?con' = "snd (create_share sample_runtime sample_admin sample_share ?con)"
  from sample_shared obtain out where ok: "fst (create_share sample_runtime sample_admin sample_share ?con) = Inr out" ..
  have "(rt_tenant t, rt_object t, rt_relation t, rt_user t) \<in> tuple_keys (db ?con')"
    if "t \<in> set (relationship_tuples (db ?con'))" for t
    using that by (simp add: tuple_keys_def)
  then have "\<forall>t \<in> set (relationship_tuples (db ?con')). rt_relation t = ''load''"
    unfolding sample_share_state(2) by blast
  then have "\<not> guard_denies sample_runtime (db ?con') sample_principal ''load'' (Some sample_capability) None"
    by (intro unguardedI) (simp_all add: sample_share_state(1) identity_to_write_def sample_capability_open
        startswith_def, simp_all add: sample_principal_def)
  then show "access_allowed sample_runtime (db ?con') sample_principal ''load'' (Some sample_capability) None"
    by (intro share_outlives_its_expiry [OF ok sample_share_fields(3)])
      (simp_all add: sample_share_fields sample_tenants_of sample_principal_def)
  have "cv_year (civil_of_seconds 1785542400) = 2026" "cv_year (civil_of_seconds 0) = 1970"
    by (simp_all add: civil_of_seconds_def year_split.simps days_in_year_def leap_year_def Let_def case_prod_unfold)
  then have "utc_text 0 \<le> utc_now sample_runtime"
    using utc_text_le_iff [of 0 1785542400] by (simp add: utc_now_def now_seconds_def sample_runtime_def)
  then show "expired (Some (utc_text 0)) (utc_now sample_runtime)"
    by (simp add: expired_def truthy_def utc_text_def)
qed

text \<open>A revoked share gives nothing any more: after revoke_share succeeds, no row with that id is
  active, no relationship tuple that sharing put there for its subject and rights is left, and the
  rows of all other shares are as they were. A request by somebody who neither may share the
  capability nor made the share raises and changes nothing.\<close>

theorem revoke_share_withdraws:
  fixes rt
  assumes "cache_coherent (db con) (org_cache con)"
    and "find (\<lambda>s. sh_id s = share_id \<and> sh_tenant s = p_tenant_id p) (shares (db con)) = Some row"
    and "find_capability (db con) (sh_capability_uri row) (p_tenant_id p) = Some c"
  defines "r \<equiv> revoke_share rt p share_id con"
    and "me \<equiv> or_else (p_identity_id p) (stable_id ''idn'' [tenant_of rt p, p_subject p])"
  shows "if access_allowed rt (db con) p ''share'' (Some c) None \<or> sh_from_identity row = me
    then (\<exists>v. fst r = Inr v) \<and> (\<forall>s \<in> set (shares (db (snd r))). sh_id s = share_id \<longrightarrow> sh_state s = ''revoked'')
      \<and> (\<forall>t \<in> set (relationship_tuples (db (snd r))). \<not> share_tuple_of (p_tenant_id p) row t)
      \<and> filter (\<lambda>s. sh_id s \<noteq> share_id) (shares (db (snd r))) = filter (\<lambda>s. sh_id s \<noteq> share_id) (shares (db con))
    else raised r \<and> unaudited (db (snd r)) = unaudited (db con) \<and> durable (snd r) = durable con"
proof -
  let ?e = "evaluate_access rt p ''share'' (Some c) None True con"
  have allowed: "fst (fst ?e) = access_allowed rt (db con) p ''share'' (Some c) None"
    by (rule evaluate_access_allowed(1) [OF assms(1)])
  have tabs: "shares (db (snd ?e)) = shares (db con)" "relationship_tuples (db (snd ?e)) = relationship_tuples (db con)"
    using unaudited_tables(8,9) [OF gate.gate_frame] by auto
  show ?thesis
  proof (cases "fst (fst ?e) \<or> sh_from_identity row = me")
    case True
    then have "\<exists>v. fst r = Inr v" "shares (db (snd r)) = update_where (\<lambda>s. sh_id s = share_id)
          (\<lambda>s. s\<lparr>sh_state := ''revoked'', sh_revoked_at := Some (sql_now rt)\<rparr>) (shares (db con))"
      "relationship_tuples (db (snd r)) = delete_where (share_tuple_of (p_tenant_id p) row) (relationship_tuples (db con))"
      by (auto simp: r_def me_def revoke_share_def assms(2,3) Let_def case_prod_unfold tabs)
    moreover have "filter (\<lambda>s. sh_id s \<noteq> share_id) (update_where (\<lambda>s. sh_id s = share_id)
          (\<lambda>s. s\<lparr>sh_state := ''revoked'', sh_revoked_at := Some (sql_now rt)\<rparr>) ss) = filter (\<lambda>s. sh_id s \<noteq> share_id) ss" for ss
      by (induction ss) (auto simp: update_where_def)
    ultimately show ?thesis
      using True allowed by (simp add: ball_update_where delete_where_def)
  next
    case False
    then have "r = (Inl (PermissionError (case snd (fst ?e) of None \<Rightarrow> [] | Some m \<Rightarrow> m)), snd ?e)"
      by (simp add: r_def me_def revoke_share_def assms(2,3) Let_def case_prod_unfold)
    with False allowed show ?thesis by (simp add: gate.gate_frame gate.gate_durable)
  qed
qed

definition sample_share_row :: share_row where
  "sample_share_row = \<lparr>sh_id = ''shr_1'', sh_tenant = ''asg'', sh_capability_uri = c_uri sample_capability,
     sh_from_identity = ''idn_bob'', sh_subject_type = ''user'', sh_subject_id = ''ann@example.com'',
     sh_rights = [''load''], sh_state = ''active'', sh_expires_at = None, sh_revoked_at = None, sh_created_at = []\<rparr>"

theorem revoke_share_withdraws_witness:
  "\<exists>v. fst (revoke_share sample_runtime sample_admin ''shr_1''
     (sample_conn (sharing_database\<lparr>shares := [sample_share_row]\<rparr>))) = Inr v"
proof -
  let ?d = "sharing_database\<lparr>shares := [sample_share_row]\<rparr>"
  have c: "cache_coherent (db (sample_conn ?d)) (org_cache (sample_conn ?d))" by (simp add: sample_conn_def)
  have s: "find (\<lambda>s. sh_id s = ''shr_1'' \<and> sh_tenant s = p_tenant_id sample_admin) (shares (db (sample_conn ?d)))
      = Some sample_share_row"
    by (simp add: sample_conn_def sample_share_row_def sample_tenants_of)
  have f: "find_capability (db (sample_conn ?d)) (sh_capability_uri sample_share_row) (p_tenant_id sample_admin)
      = Some sample_capability"
    by (simp add: find_capability_def sample_conn_def sharing_database_def sample_share_row_def sample_tenants_of
        sample_capability_row) (simp add: sample_capability_def)
  have "access_allowed sample_runtime (db (sample_conn ?d)) sample_admin ''share'' (Some sample_capability) None"
  proof (rule global_admin_allowed [OF unguardedI])
    show "\<forall>i \<in> set (identities (db (sample_conn ?d))). id_active i"
      by (simp add: sample_conn_def sharing_database_def identity_to_write_def)
  qed (simp_all add: sample_conn_def sample_admin_def sample_principal_def sharing_database_def empty_database_def
      sample_capability_open RIGHTS_def)
  with revoke_share_withdraws [OF c s f] show ?thesis by simp
qed

end
