(* ===== verification/Task_Runner.thy ===== *)
theory Task_Runner
  imports Py_Payload Access_Control
begin

text \<open>
  Delegated tasks: the queue of task envelopes (\<^verbatim>\<open>task_runner.py\<close>), the choice of a model tier
  (\<^verbatim>\<open>model_router.py\<close>) and the dispatch to a gateway (\<^verbatim>\<open>task_dispatcher.py\<close>).

  The handler of a task and the gateway are code outside the repository: a handler maps an
  envelope to the text of its exception or to its result, a gateway maps a URL and a request to a
  reply. \<^verbatim>\<open>process_task\<close> reads the status, marks the task running, commits, calls the handler and records the
  outcome, and \<^verbatim>\<open>cancel_task\<close> reads the status and marks the task cancelled; each of these parts is a
  definition of its own (\<^verbatim>\<open>check_task\<close>, \<^verbatim>\<open>mark_running\<close>, \<^verbatim>\<open>finish_task\<close>, \<^verbatim>\<open>check_cancel\<close>, \<^verbatim>\<open>mark_cancelled\<close>), and other
  connections may run between any two of them: the interleavings are a step relation.
\<close>

section \<open>Envelopes\<close>

definition TASK_STATUSES :: "string list" where
  "TASK_STATUSES = [''queued'', ''running'', ''completed'', ''failed'', ''cancelled'']"

definition create_task_envelope ::
  "runtime \<Rightarrow> string \<Rightarrow> string \<Rightarrow> payload \<Rightarrow> string \<Rightarrow> bool \<Rightarrow> conn \<Rightarrow> json \<times> conn" where
  "create_task_envelope rt capability_uri who envelope tenant_id do_commit con =
     (let (task_id, con1) = new_id rt ''task'' (ensure_table con);
          row = \<lparr>tk_id = task_id, tk_tenant = tenant_id, tk_capability_uri = capability_uri, tk_principal = who,
            tk_status = ''queued'', tk_envelope = JObj envelope, tk_result = None, tk_error = None,
            tk_created_at = utc_now rt, tk_started_at = None, tk_completed_at = None\<rparr>
      in (JObj [(''taskId'', JStr task_id), (''capabilityUri'', JStr capability_uri), (''principal'', JStr who),
            (''status'', JStr ''queued'')],
          commit_if do_commit (with_db (\<lambda>d. d\<lparr>task_envelopes := task_envelopes d @ [row]\<rparr>) con1)))"

text \<open>\<^verbatim>\<open>_row_to_dict\<close>: a falsy text column reads as None.\<close>

definition task_record :: "task_row \<Rightarrow> json" where
  "task_record row = JObj [(''taskId'', JStr (tk_id row)), (''tenantId'', JStr (tk_tenant row)),
     (''capabilityUri'', JStr (tk_capability_uri row)), (''principal'', JStr (tk_principal row)),
     (''status'', JStr (tk_status row)), (''taskEnvelope'', tk_envelope row),
     (''result'', case tk_result row of None \<Rightarrow> JNull | Some v \<Rightarrow> v),
     (''error'', if truthy (tk_error row) then json_opt (tk_error row) else JNull),
     (''createdAt'', JStr (tk_created_at row)),
     (''startedAt'', if truthy (tk_started_at row) then json_opt (tk_started_at row) else JNull),
     (''completedAt'', if truthy (tk_completed_at row) then json_opt (tk_completed_at row) else JNull)]"

definition list_queued_tasks :: "string \<Rightarrow> int \<Rightarrow> conn \<Rightarrow> json list \<times> conn" where
  "list_queued_tasks tenant_id limit con =
     (map task_record (take (nat (min (max limit 1) 200)) (order_by tk_created_at
        (filter (\<lambda>r. tk_status r = ''queued'' \<and> tk_tenant r = tenant_id) (task_envelopes (db con))))), ensure_table con)"

definition find_task :: "database \<Rightarrow> string \<Rightarrow> string \<Rightarrow> task_row option" where
  "find_task d task_id tenant_id = find (\<lambda>r. tk_id r = task_id \<and> tk_tenant r = tenant_id) (task_envelopes d)"

definition update_task :: "string \<Rightarrow> (task_row \<Rightarrow> task_row) \<Rightarrow> conn \<Rightarrow> conn" where
  "update_task task_id f con =
     with_db (\<lambda>d. d\<lparr>task_envelopes := update_where (\<lambda>r. tk_id r = task_id) f (task_envelopes d)\<rparr>) con"

text \<open>The SELECT of \<^verbatim>\<open>process_task\<close> with its two tests, and the UPDATE after it, which does not test the
  status again.\<close>

definition check_task :: "string \<Rightarrow> string \<Rightarrow> conn \<Rightarrow> (conn, json) outcome" where
  "check_task task_id tenant_id con =
     (let con0 = ensure_table con in
      case find_task (db con0) task_id tenant_id of
        None \<Rightarrow> (Inl (ValueError (''Task not found: '' @ task_id)), con0)
      | Some row \<Rightarrow>
          if tk_status row \<notin> {''queued'', ''failed''}
          then (Inl (ValueError (''Task is not in a processable state: '' @ tk_status row)), con0)
          else (Inr (tk_envelope row), con0))"

definition mark_running :: "runtime \<Rightarrow> string \<Rightarrow> bool \<Rightarrow> conn \<Rightarrow> conn" where
  "mark_running rt task_id do_commit con = commit_if do_commit (update_task task_id
     (\<lambda>r. r\<lparr>tk_status := ''running'', tk_started_at := Some (utc_now rt)\<rparr>) con)"

definition finish_task :: "runtime \<Rightarrow> string \<Rightarrow> string + json \<Rightarrow> bool \<Rightarrow> conn \<Rightarrow> json \<times> conn" where
  "finish_task rt task_id answer do_commit con =
     (case answer of
        Inr result \<Rightarrow>
          (JObj [(''taskId'', JStr task_id), (''status'', JStr ''completed''), (''result'', result)],
           commit_if do_commit (update_task task_id (\<lambda>r. r\<lparr>tk_status := ''completed'', tk_result := Some result,
             tk_completed_at := Some (utc_now rt)\<rparr>) con))
      | Inl exc \<Rightarrow>
          (JObj [(''taskId'', JStr task_id), (''status'', JStr ''failed''), (''error'', JStr exc)],
           commit_if do_commit (update_task task_id (\<lambda>r. r\<lparr>tk_status := ''failed'', tk_error := Some exc\<rparr>) con)))"

definition process_task ::
  "runtime \<Rightarrow> string \<Rightarrow> (json \<Rightarrow> string + json) \<Rightarrow> string \<Rightarrow> bool \<Rightarrow> conn \<Rightarrow> (conn, json) outcome" where
  "process_task rt task_id handler tenant_id do_commit con =
     and_then (check_task task_id tenant_id con) (\<lambda>envelope con0.
       let con1 = mark_running rt task_id do_commit con0;
           (reply, con2) = finish_task rt task_id (handler envelope) do_commit con1
       in (Inr reply, con2))"

text \<open>\<^verbatim>\<open>cancel_task\<close> likewise: a SELECT with its tests, then an UPDATE that does not test the status.\<close>

definition check_cancel :: "string \<Rightarrow> string \<Rightarrow> conn \<Rightarrow> (conn, unit) outcome" where
  "check_cancel task_id tenant_id con =
     (case find_task (db con) task_id tenant_id of
        None \<Rightarrow> (Inl (ValueError (''Task not found: '' @ task_id)), con)
      | Some row \<Rightarrow>
          if tk_status row \<notin> {''queued'', ''running''}
          then (Inl (ValueError (''Cannot cancel task in state: '' @ tk_status row)), con)
          else (Inr (), con))"

definition mark_cancelled :: "string \<Rightarrow> bool \<Rightarrow> conn \<Rightarrow> conn" where
  "mark_cancelled task_id do_commit con =
     commit_if do_commit (update_task task_id (tk_status_update (\<lambda>_. ''cancelled'')) con)"

definition cancel_task :: "string \<Rightarrow> string \<Rightarrow> bool \<Rightarrow> conn \<Rightarrow> (conn, json) outcome" where
  "cancel_task task_id tenant_id do_commit con =
     and_then (check_cancel task_id tenant_id con) (\<lambda>_ con1.
       (Inr (JObj [(''taskId'', JStr task_id), (''status'', JStr ''cancelled'')]), mark_cancelled task_id do_commit con1))"

definition task_status :: "string \<Rightarrow> string \<Rightarrow> conn \<Rightarrow> (conn, task_row) outcome" where
  "task_status task_id tenant_id con =
     (case find_task (db con) task_id tenant_id of
        None \<Rightarrow> (Inl (ValueError (''Task not found: '' @ task_id)), ensure_table con)
      | Some row \<Rightarrow> (Inr row, ensure_table con))"

section \<open>Model tiers\<close>

definition MODEL_TIERS :: "string list" where
  "MODEL_TIERS = [''qwen-worker'', ''qwen-director'', ''glm'', ''opus'']"

definition RISK_TIER_TO_MODEL :: "(string \<times> string) list" where
  "RISK_TIER_TO_MODEL = [(''low'', ''qwen-worker''), (''medium'', ''qwen-director''), (''high'', ''glm''),
     (''critical'', ''opus'')]"

definition COMPLEXITY_KEYWORDS :: "(string \<times> string list) list" where
  "COMPLEXITY_KEYWORDS =
     [(''qwen-director'', [''synthesize'', ''review'', ''verify'', ''validate'', ''audit'', ''analyze'', ''summarize'']),
      (''glm'', [''refactor'', ''architecture'', ''design'', ''security'', ''adversarial'', ''migrate'', ''optimize'']),
      (''opus'', [''legal'', ''financial'', ''irreversible'', ''compliance'', ''board'', ''investor''])]"

text \<open>\<^verbatim>\<open>MODEL_TIERS.index(tier)\<close>; every tier that occurs is in the list.\<close>

definition tier_index :: "string \<Rightarrow> nat" where
  "tier_index tier = length (takeWhile (\<lambda>t. t \<noteq> tier) MODEL_TIERS)"

definition backend_for :: "string \<Rightarrow> string" where
  "backend_for tier = (if tier = ''glm'' then ''bolde-exec'' else if tier = ''opus'' then ''codex-exec'' else ''asgcode-build'')"

record routing =
  ro_tier :: string
  ro_rationale :: string
  ro_backend :: string

fun bump_keywords :: "string \<Rightarrow> (string \<times> string list) list \<Rightarrow> string \<times> string \<Rightarrow> string \<times> string" where
  "bump_keywords task [] st = st"
| "bump_keywords task ((bump_tier, keywords) # rest) (tier, rationale) =
     bump_keywords task rest
       (if list_ex (\<lambda>kw. substring_in kw task) keywords \<and> tier_index tier < tier_index bump_tier
        then (bump_tier, rationale @ ''; keyword bump -> '' @ bump_tier) else (tier, rationale))"

definition raise_to :: "string \<Rightarrow> string \<Rightarrow> string" where
  "raise_to floor tier = (if tier_index tier < tier_index floor then floor else tier)"

definition route_by_risk :: "string \<Rightarrow> bool \<Rightarrow> string \<Rightarrow> payload \<Rightarrow> routing" where
  "route_by_risk risk_tier mutating task meta =
     (let tier0 = (case map_of RISK_TIER_TO_MODEL risk_tier of None \<Rightarrow> ''qwen-worker'' | Some t \<Rightarrow> t);
          (tier1, r1) = bump_keywords (py_lower task) COMPLEXITY_KEYWORDS
            (tier0, ''risk_tier='' @ risk_tier @ '' -> '' @ tier0);
          (tier2, r2) = (if mutating \<and> tier_index tier1 < tier_index ''qwen-director''
            then (''qwen-director'', r1 @ ''; mutating -> qwen-director'') else (tier1, r1));
          (tier3, r3) = (if json_truthy (pget meta ''requiresFrontier'')
            then (raise_to ''glm'' tier2, r2 @ ''; requiresFrontier -> glm'') else (tier2, r2));
          (tier4, r4) = (if json_truthy (pget meta ''requiresCloud'')
            then (raise_to ''opus'' tier3, r3 @ ''; requiresCloud -> opus'') else (tier3, r3))
      in \<lparr>ro_tier = tier4, ro_rationale = r4, ro_backend = backend_for tier4\<rparr>)"

definition route_model :: "string \<Rightarrow> bool \<Rightarrow> string \<Rightarrow> payload \<Rightarrow> string option \<Rightarrow> routing" where
  "route_model risk_tier mutating task meta override =
     (case override of
        Some o' \<Rightarrow> if o' \<in> set MODEL_TIERS
          then \<lparr>ro_tier = o', ro_rationale = ''explicit override: '' @ o', ro_backend = backend_for o'\<rparr>
          else route_by_risk risk_tier mutating task meta
      | None \<Rightarrow> route_by_risk risk_tier mutating task meta)"

section \<open>Dispatch\<close>

text \<open>What the HTTP call to the gateway does: no connection, another exception, or a decoded reply.\<close>

datatype gateway_reply =
    Unreachable string
  | Crashed string
  | Replied json

definition GATEWAY_URL :: "runtime \<Rightarrow> string" where
  "GATEWAY_URL rt = (case environ rt ''CAPMESH_GATEWAY_URL'' of None \<Rightarrow> ''http://127.0.0.1:17777/mcp'' | Some v \<Rightarrow> v)"

definition backend_tool :: "string \<Rightarrow> string" where
  "backend_tool backend = (if backend \<in> {''bolde-exec'', ''codex-exec''} then ''codex_exec'' else ''asgcode_workflow_go'')"

definition gateway_request :: "string \<Rightarrow> string \<Rightarrow> string \<Rightarrow> string \<Rightarrow> json" where
  "gateway_request backend task agent_uri task_id =
     (let params = (if backend = ''asgcode-build''
            then [(''objective'', JStr task), (''evidence'', JBool True), (''synthesize'', JBool True)]
            else if backend = ''bolde-exec'' then
              [(''prompt'', JStr (''Task: '' @ task @ [CHR 0x0A] @ ''Agent: '' @ agent_uri @ [CHR 0x0A] @ ''Task ID: '' @ task_id))]
            else [(''prompt'', JStr task)])
      in JObj [(''jsonrpc'', JStr ''2.0''), (''id'', JStr (''dispatch-'' @ task_id)), (''method'', JStr ''tools/call''),
           (''params'', JObj [(''name'', JStr (backend_tool backend)), (''arguments'', JObj params)])])"

text \<open>A reply that is no object fails in \<^verbatim>\<open>"error" in response_data\<close>, the subscript or \<^verbatim>\<open>.get\<close>; the
  exception is caught and its text reported.\<close>

definition reply_exception :: "json \<Rightarrow> string" where
  "reply_exception v = (case v of
     JList xs \<Rightarrow> if JStr ''error'' \<in> set xs then ''list indices must be integers or slices, not str''
       else [CHR 0x27] @ ''list'' @ [CHR 0x27] @ '' object has no attribute '' @ [CHR 0x27] @ ''get'' @ [CHR 0x27]
   | JStr s \<Rightarrow> if substring_in ''error'' s then ''string indices must be integers, not '' @ [CHR 0x27] @ ''str'' @ [CHR 0x27]
       else [CHR 0x27] @ ''str'' @ [CHR 0x27] @ '' object has no attribute '' @ [CHR 0x27] @ ''get'' @ [CHR 0x27]
   | JInt _ \<Rightarrow> ''argument of type '' @ [CHR 0x27] @ ''int'' @ [CHR 0x27] @ '' is not iterable''
   | JBool _ \<Rightarrow> ''argument of type '' @ [CHR 0x27] @ ''bool'' @ [CHR 0x27] @ '' is not iterable''
   | _ \<Rightarrow> ''argument of type '' @ [CHR 0x27] @ ''NoneType'' @ [CHR 0x27] @ '' is not iterable'')"

definition dispatch_outcome :: "runtime \<Rightarrow> string \<Rightarrow> string \<Rightarrow> string \<Rightarrow> gateway_reply \<Rightarrow> json" where
  "dispatch_outcome rt backend model_tier task_id reply =
     (let failed = (\<lambda>err. JObj [(''status'', JStr ''failed''), (''backend'', JStr backend), (''modelTier'', JStr model_tier),
            (''error'', JStr err), (''taskId'', JStr task_id)]) in
      case reply of
        Unreachable exc \<Rightarrow> failed (''Gateway unreachable: '' @ exc)
      | Crashed exc \<Rightarrow> failed exc
      | Replied (JObj kvs) \<Rightarrow> (case map_of kvs ''error'' of
            Some err \<Rightarrow> failed (py_str err)
          | None \<Rightarrow> JObj [(''status'', JStr ''completed''), (''backend'', JStr backend), (''modelTier'', JStr model_tier),
              (''result'', case map_of kvs ''result'' of None \<Rightarrow> JObj [] | Some v \<Rightarrow> v), (''taskId'', JStr task_id),
              (''dispatchedAt'', JStr (utc_now rt))])
      | Replied v \<Rightarrow> failed (reply_exception v))"

definition dispatch_task ::
  "runtime \<Rightarrow> (string \<Rightarrow> json \<Rightarrow> gateway_reply) \<Rightarrow> payload \<Rightarrow> json \<Rightarrow> string option \<Rightarrow> py_error + json" where
  "dispatch_task rt gateway envelope routing gateway_url =
     (let task = str_or envelope ''task'' []; agent_uri = str_or envelope ''agentUri'' [];
          task_id = str_or envelope ''taskId'' [];
          chosen = (if routing \<noteq> JNull then routing else
            if pget envelope ''modelRouting'' \<noteq> JNull then pget envelope ''modelRouting'' else
            let r = route_model ''medium'' False task [] None in
            JObj [(''modelTier'', JStr (ro_tier r)), (''rationale'', JStr (ro_rationale r)), (''backend'', JStr (ro_backend r))])
      in case chosen of
           JObj kvs \<Rightarrow>
             let backend = str_or kvs ''backend'' ''asgcode-build''; model_tier = str_or kvs ''modelTier'' ''qwen-worker'' in
             Inr (dispatch_outcome rt backend model_tier task_id
               (gateway (or_else gateway_url (GATEWAY_URL rt)) (gateway_request backend task agent_uri task_id)))
         | _ \<Rightarrow> Inl (AttributeErr ''object has no attribute get''))"

definition envelope_dict :: "json \<Rightarrow> payload" where
  "envelope_dict v = (case v of JObj kvs \<Rightarrow> kvs | _ \<Rightarrow> [])"

definition dispatch_queued_task ::
  "runtime \<Rightarrow> (string \<Rightarrow> json \<Rightarrow> gateway_reply) \<Rightarrow> string \<Rightarrow> string \<Rightarrow> string option \<Rightarrow> conn \<Rightarrow> (conn, json) outcome" where
  "dispatch_queued_task rt gateway task_id tenant_id gateway_url con =
     and_then (task_status task_id tenant_id con) (\<lambda>row con1.
       if tk_status row \<notin> {''queued'', ''failed''} then
         (Inr (JObj [(''status'', JStr ''error''),
            (''error'', JStr (''Task is not in a processable state: '' @ tk_status row)), (''taskId'', JStr task_id)]), con1)
       else and_then (lift_result (dispatch_task rt gateway (envelope_dict (tk_envelope row)) JNull gateway_url) con1)
         (\<lambda>result con1. and_then (process_task rt task_id (\<lambda>_. Inr result) tenant_id True con1)
           (\<lambda>_ con2. (Inr result, con2))))"

section \<open>Routing takes the strongest demand\<close>

text \<open>The tiers a request asks for: by its risk, by each group of keywords that occurs in the task,
  by being mutating and by the two hints of the metadata.\<close>

definition keyword_tiers :: "string \<Rightarrow> (string \<times> string list) list \<Rightarrow> string list" where
  "keyword_tiers task groups =
     map fst (filter (\<lambda>(tier, keywords). list_ex (\<lambda>kw. substring_in kw task) keywords) groups)"

definition demanded_tiers :: "string \<Rightarrow> bool \<Rightarrow> string \<Rightarrow> payload \<Rightarrow> string list" where
  "demanded_tiers risk_tier mutating task meta =
     (case map_of RISK_TIER_TO_MODEL risk_tier of None \<Rightarrow> ''qwen-worker'' | Some t \<Rightarrow> t)
     # keyword_tiers (py_lower task) COMPLEXITY_KEYWORDS
     @ (if mutating then [''qwen-director''] else [])
     @ (if json_truthy (pget meta ''requiresFrontier'') then [''glm''] else [])
     @ (if json_truthy (pget meta ''requiresCloud'') then [''opus''] else [])"

lemma bump_keywords_fold:
  "fst (bump_keywords task groups st) = fold raise_to (keyword_tiers task groups) (fst st)"
  by (induction task groups st rule: bump_keywords.induct) (auto simp: keyword_tiers_def raise_to_def)

lemma fold_raise_to:
  "fold raise_to ts t \<in> set (t # ts) \<and> (\<forall>u \<in> set (t # ts). tier_index u \<le> tier_index (fold raise_to ts t))"
proof (induction ts arbitrary: t)
  case (Cons a ts)
  have "raise_to a t \<in> {a, t}" "tier_index t \<le> tier_index (raise_to a t)" "tier_index a \<le> tier_index (raise_to a t)"
    by (simp_all add: raise_to_def)
  then show ?case using Cons [of "raise_to a t"] by fastforce
qed simp

lemma route_by_risk_tier:
  "ro_tier (route_by_risk risk_tier mutating task meta)
     = fold raise_to (tl (demanded_tiers risk_tier mutating task meta)) (hd (demanded_tiers risk_tier mutating task meta))"
proof -
  have b: "fold raise_to (keyword_tiers (py_lower task) COMPLEXITY_KEYWORDS) t
      = fst (bump_keywords (py_lower task) COMPLEXITY_KEYWORDS (t, r))" for t r
    by (simp add: bump_keywords_fold)
  show ?thesis
    by (simp add: route_by_risk_def demanded_tiers_def Let_def case_prod_unfold raise_to_def
        b [of _ "''risk_tier='' @ risk_tier @ '' -> '' @
          (case map_of RISK_TIER_TO_MODEL risk_tier of None \<Rightarrow> ''qwen-worker'' | Some t \<Rightarrow> t)"])
qed

section \<open>The life of a task\<close>

text \<open>The queue with the operations in flight on it. An operation that has read the status and passed its
  tests has still to write, and \<^verbatim>\<open>process_task\<close> commits before it calls the handler, so that any statement of
  another connection may come in between; nothing stops two operations on the same task.
  Identifiers are random; a creation draws one not yet in use.\<close>

datatype inflight = Checked string | Working string | Cancelling string

fun inflight_task :: "inflight \<Rightarrow> string" where
  "inflight_task (Checked t) = t"
| "inflight_task (Working t) = t"
| "inflight_task (Cancelling t) = t"

inductive task_step :: "conn \<times> inflight list \<Rightarrow> conn \<times> inflight list \<Rightarrow> bool" where
  create: "fst (new_id rt ''task'' con) \<notin> tk_id ` set (task_envelopes (db con)) \<Longrightarrow>
    task_step (con, fs) (snd (create_task_envelope rt uri who env tenant True con), fs)"
| check: "check_task tid tenant con = (Inr env, con') \<Longrightarrow> task_step (con, fs) (con', Checked tid # fs)"
| mark: "Checked tid \<in> set fs \<Longrightarrow>
    task_step (con, fs) (mark_running rt tid True con, Working tid # remove1 (Checked tid) fs)"
| finish: "Working tid \<in> set fs \<Longrightarrow>
    task_step (con, fs) (snd (finish_task rt tid answer True con), remove1 (Working tid) fs)"
| check_cancel: "check_cancel tid tenant con = (Inr (), con') \<Longrightarrow> task_step (con, fs) (con', Cancelling tid # fs)"
| cancel: "Cancelling tid \<in> set fs \<Longrightarrow>
    task_step (con, fs) (mark_cancelled tid True con, remove1 (Cancelling tid) fs)"

text \<open>What every row satisfies at every moment.\<close>

definition task_ok :: "inflight list \<Rightarrow> task_row \<Rightarrow> bool" where
  "task_ok fs r = (tk_status r \<in> set TASK_STATUSES
     \<and> (tk_status r = ''queued'' \<longrightarrow> tk_result r = None \<and> tk_error r = None \<and> tk_started_at r = None)
     \<and> (tk_status r \<in> {''running'', ''completed'', ''failed''} \<longrightarrow> tk_started_at r \<noteq> None)
     \<and> (tk_status r = ''running'' \<longrightarrow> Working (tk_id r) \<in> set fs)
     \<and> (tk_status r = ''completed'' \<longrightarrow> tk_result r \<noteq> None \<and> tk_completed_at r \<noteq> None)
     \<and> (tk_status r = ''failed'' \<longrightarrow> tk_error r \<noteq> None)
     \<and> (Working (tk_id r) \<in> set fs \<longrightarrow> tk_started_at r \<noteq> None \<and> tk_status r \<noteq> ''queued''))"

definition queue_inv :: "conn \<times> inflight list \<Rightarrow> bool" where
  "queue_inv = (\<lambda>(con, fs). distinct (map tk_id (task_envelopes (db con)))
     \<and> inflight_task ` set fs \<subseteq> tk_id ` set (task_envelopes (db con))
     \<and> list_all (task_ok fs) (task_envelopes (db con)))"

definition task_outcome :: "runtime \<Rightarrow> string + json \<Rightarrow> task_row \<Rightarrow> task_row" where
  "task_outcome rt answer r = (case answer of
     Inr v \<Rightarrow> r\<lparr>tk_status := ''completed'', tk_result := Some v, tk_completed_at := Some (utc_now rt)\<rparr>
   | Inl exc \<Rightarrow> r\<lparr>tk_status := ''failed'', tk_error := Some exc\<rparr>)"

lemma update_task_rows [simp]:
  "task_envelopes (db (update_task tid f con)) = update_where (\<lambda>r. tk_id r = tid) f (task_envelopes (db con))"
  by (simp add: update_task_def)

lemma finish_task_rows:
  "task_envelopes (db (snd (finish_task rt tid answer cm con)))
     = update_where (\<lambda>r. tk_id r = tid) (task_outcome rt answer) (task_envelopes (db con))"
  by (cases answer) (simp_all add: finish_task_def task_outcome_def [abs_def])

lemma mark_running_rows:
  "task_envelopes (db (mark_running rt tid cm con)) = update_where (\<lambda>r. tk_id r = tid)
     (\<lambda>r. r\<lparr>tk_status := ''running'', tk_started_at := Some (utc_now rt)\<rparr>) (task_envelopes (db con))"
  by (simp add: mark_running_def)

lemma mark_cancelled_rows:
  "task_envelopes (db (mark_cancelled tid cm con)) = update_where (\<lambda>r. tk_id r = tid)
     (tk_status_update (\<lambda>_. ''cancelled'')) (task_envelopes (db con))"
  by (simp add: mark_cancelled_def)

lemma task_outcome_simps [simp]:
  "tk_id (task_outcome rt answer r) = tk_id r" "tk_tenant (task_outcome rt answer r) = tk_tenant r"
  "tk_status (task_outcome rt answer r) = (case answer of Inr _ \<Rightarrow> ''completed'' | Inl _ \<Rightarrow> ''failed'')"
  "tk_started_at (task_outcome rt answer r) = tk_started_at r"
  by (simp_all add: task_outcome_def split: sum.splits)

lemma task_outcome_ok:
  "task_ok fs r \<Longrightarrow> Working (tk_id r) \<in> set fs \<Longrightarrow> task_ok (remove1 (Working (tk_id r)) fs) (task_outcome rt answer r)"
  by (auto simp: task_ok_def TASK_STATUSES_def task_outcome_def split: sum.splits)

text \<open>An update of one task that keeps its identifier preserves the invariant when the new row
  fits the new operations in flight and the workers of the other tasks are the same.\<close>

lemma queue_inv_update:
  assumes inv: "queue_inv (con, fs)" and key: "\<And>r. tk_id (f r) = tk_id r"
    and rows: "task_envelopes (db con') = update_where (\<lambda>r. tk_id r = tid) f (task_envelopes (db con))"
    and fs: "inflight_task ` set fs' \<subseteq> inflight_task ` set fs"
      "\<And>t. t \<noteq> tid \<Longrightarrow> Working t \<in> set fs' \<longleftrightarrow> Working t \<in> set fs"
    and new: "\<And>r. r \<in> set (task_envelopes (db con)) \<Longrightarrow> tk_id r = tid \<Longrightarrow> task_ok fs r \<Longrightarrow> task_ok fs' (f r)"
  shows "queue_inv (con', fs')"
proof -
  have ids: "map tk_id (update_where (\<lambda>r. tk_id r = tid) f t) = map tk_id t" for t
    by (simp add: map_update_where_frame key)
  then have ids_set: "tk_id ` set (update_where (\<lambda>r. tk_id r = tid) f t) = tk_id ` set t" for t
    by (metis list.set_map)
  have other: "task_ok fs' r" if "task_ok fs r" "tk_id r \<noteq> tid" for r
    using that fs(2) [of "tk_id r"] by (auto simp: task_ok_def)
  have "list_all (task_ok fs') (task_envelopes (db con'))"
    using inv new other by (simp add: queue_inv_def list_all_iff rows ball_update_where)
  then show ?thesis using inv fs(1) by (auto simp: queue_inv_def rows ids ids_set)
qed

lemma find_task_row:
  assumes "find_task d tid tenant = Some r"
  shows "r \<in> set (task_envelopes d)" "tk_id r = tid" "tk_tenant r = tenant"
  using find_SomeD [OF assms [unfolded find_task_def]] by auto

lemma inflight_remove1: "inflight_task ` set (remove1 x fs) \<subseteq> inflight_task ` set fs"
  by (intro image_mono set_remove1_subset)

text \<open>A read adds an operation in flight on a task that exists.\<close>

lemma queue_inv_read:
  assumes "queue_inv (con, fs)" "task_envelopes (db con') = task_envelopes (db con)"
    and "find_task (db con) tid tenant = Some r" "inflight_task x = tid" "x \<noteq> Working tid"
  shows "queue_inv (con', x # fs)"
proof -
  have "tid \<in> tk_id ` set (task_envelopes (db con))" using find_task_row [OF assms(3)] by blast
  moreover have "task_ok (x # fs) = task_ok fs"
    using assms(4,5) by (cases x) (auto simp: task_ok_def fun_eq_iff)
  ultimately show ?thesis using assms(1,2,4) by (simp add: queue_inv_def)
qed

lemma check_task_found:
  "check_task tid tenant con = (Inr env, con') \<longleftrightarrow>
     (\<exists>r. find_task (db con) tid tenant = Some r \<and> tk_status r \<in> {''queued'', ''failed''} \<and> env = tk_envelope r)
     \<and> con' = ensure_table con"
  by (auto simp: check_task_def Let_def split: option.splits)

lemma check_cancel_found:
  "check_cancel tid tenant con = (Inr (), con') \<longleftrightarrow>
     (\<exists>r. find_task (db con) tid tenant = Some r \<and> tk_status r \<in> {''queued'', ''running''}) \<and> con' = con"
  by (auto simp: check_cancel_def split: option.splits)

lemma task_step_inv: "task_step s s' \<Longrightarrow> queue_inv s \<Longrightarrow> queue_inv s'"
proof (induction rule: task_step.induct)
  case (create rt con fs uri who env tenant)
  have id: "fst (new_id rt ''task'' (ensure_table con)) = fst (new_id rt ''task'' con)" by (simp add: new_id_def)
  have "Working (fst (new_id rt ''task'' con)) \<notin> set fs"
    using create by (force simp: queue_inv_def)
  with create id show ?case
    by (auto simp: queue_inv_def create_task_envelope_def Let_def case_prod_unfold task_ok_def TASK_STATUSES_def)
next
  case (check tid tenant con env con' fs)
  then obtain r where "find_task (db con) tid tenant = Some r" "con' = ensure_table con" by (auto simp: check_task_found)
  then show ?case by (intro queue_inv_read [OF check(2)]) simp_all
next
  case (mark tid fs con rt)
  show ?case
  proof (rule queue_inv_update [OF mark(2) _ mark_running_rows])
    show "inflight_task ` set (Working tid # remove1 (Checked tid) fs) \<subseteq> inflight_task ` set fs"
      using inflight_remove1 [of "Checked tid" fs] imageI [OF mark(1), of inflight_task] by simp
  qed (auto simp: task_ok_def TASK_STATUSES_def)
next
  case (finish tid fs con rt answer)
  show ?case
    by (rule queue_inv_update [OF finish(2) _ finish_task_rows])
      (use finish(1) inflight_remove1 [of "Working tid" fs] task_outcome_ok [of fs] in \<open>auto simp del: task_outcome_simps(3)\<close>)
next
  case (check_cancel tid tenant con con' fs)
  then obtain r where "find_task (db con) tid tenant = Some r" "con' = con" by (auto simp: check_cancel_found)
  then show ?case by (intro queue_inv_read [OF check_cancel(2)]) simp_all
next
  case (cancel tid fs con)
  show ?case
    by (rule queue_inv_update [OF cancel(2) _ mark_cancelled_rows])
      (use inflight_remove1 [of "Cancelling tid" fs] in \<open>auto simp: task_ok_def TASK_STATUSES_def\<close>)
qed

lemma task_history_inv: "task_step\<^sup>*\<^sup>* s s' \<Longrightarrow> queue_inv s \<Longrightarrow> queue_inv s'"
  by (induction rule: rtranclp_induct) (auto intro: task_step_inv)

text \<open>\<^verbatim>\<open>process_task\<close> on a processable task.\<close>

lemma find_task_updated:
  assumes "find_task (db con) tid tenant = Some r"
    "task_envelopes (db con') = update_where (\<lambda>s. tk_id s = tid) f (task_envelopes (db con))"
    "\<And>s. tk_id (f s) = tk_id s" "\<And>s. tk_tenant (f s) = tk_tenant s"
  shows "find_task (db con') tid tenant = Some (f r)"
  using assms(1) find_task_row(2) [OF assms(1)] by (simp add: find_task_def assms(2-4) find_update_where)

lemma process_task_ok:
  fixes cm :: bool and rt :: runtime and handler :: "json \<Rightarrow> string + json"
  assumes "find_task (db con) tid tenant = Some r" "tk_status r \<in> {''queued'', ''failed''}"
  defines "con' \<equiv> snd (process_task rt tid handler tenant cm con)"
  shows "fst (process_task rt tid handler tenant cm con)
      = Inr (fst (finish_task rt tid (handler (tk_envelope r)) cm con))"
    "find_task (db con') tid tenant = Some (task_outcome rt (handler (tk_envelope r))
       (r\<lparr>tk_status := ''running'', tk_started_at := Some (utc_now rt)\<rparr>))"
    "filter (\<lambda>s. tk_id s \<noteq> tid) (task_envelopes (db con')) = filter (\<lambda>s. tk_id s \<noteq> tid) (task_envelopes (db con))"
    "cm \<longrightarrow> durable con' = db con'"
proof -
  define con1 where "con1 = mark_running rt tid cm (ensure_table con)"
  have c1: "check_task tid tenant con = (Inr (tk_envelope r), ensure_table con)"
    using assms(1,2) by (auto simp: check_task_found)
  have rows1: "task_envelopes (db con1) = update_where (\<lambda>s. tk_id s = tid)
      (\<lambda>s. s\<lparr>tk_status := ''running'', tk_started_at := Some (utc_now rt)\<rparr>) (task_envelopes (db con))"
    by (simp add: con1_def mark_running_rows)
  let ?ans = "handler (tk_envelope r)"
  have pt: "process_task rt tid handler tenant cm con
      = (Inr (fst (finish_task rt tid ?ans cm con1)), snd (finish_task rt tid ?ans cm con1))"
    by (simp add: process_task_def c1 con1_def case_prod_unfold Let_def)
  have reply: "fst (finish_task rt tid ?ans cm con1) = fst (finish_task rt tid ?ans cm con)"
    by (simp add: finish_task_def split: sum.splits)
  show "fst (process_task rt tid handler tenant cm con) = Inr (fst (finish_task rt tid ?ans cm con))"
    by (simp add: pt reply)
  have f1: "find_task (db con1) tid tenant = Some (r\<lparr>tk_status := ''running'', tk_started_at := Some (utc_now rt)\<rparr>)"
    by (rule find_task_updated [OF assms(1) rows1]) simp_all
  show "find_task (db con') tid tenant = Some (task_outcome rt ?ans
      (r\<lparr>tk_status := ''running'', tk_started_at := Some (utc_now rt)\<rparr>))"
    unfolding con'_def pt snd_conv by (rule find_task_updated [OF f1 finish_task_rows]) simp_all
  have "filter (\<lambda>s. tk_id s \<noteq> tid) (update_where (\<lambda>s. tk_id s = tid) f t) = filter (\<lambda>s. tk_id s \<noteq> tid) t"
    if "\<And>s. tk_id (f s) = tk_id s" for f and t :: "task_row list"
    by (induction t) (simp_all add: update_where_Cons that)
  then show "filter (\<lambda>s. tk_id s \<noteq> tid) (task_envelopes (db con'))
      = filter (\<lambda>s. tk_id s \<noteq> tid) (task_envelopes (db con))"
    by (simp add: con'_def pt finish_task_rows rows1)
  show "cm \<longrightarrow> durable con' = db con'"
    unfolding con'_def pt by (simp add: finish_task_def commit_if_def split: sum.splits)
qed

section \<open>Properties\<close>

text \<open>A delegated task is routed to the cheapest tier that meets every demand: without a valid
  override, the tier of route_model is one of the tiers demanded by the risk, the keywords of the
  task, the mutating flag and the hints, no demanded tier is above it, and the backend is the one of
  that tier; a valid override is taken as it is.\<close>

theorem route_model_meets_demands:
  "(if \<exists>t \<in> set MODEL_TIERS. override = Some t then Some (ro_tier (route_model risk_tier mutating task meta override)) = override
    else ro_tier (route_model risk_tier mutating task meta override) \<in> set (demanded_tiers risk_tier mutating task meta)
      \<and> list_all (\<lambda>t. tier_index t \<le> tier_index (ro_tier (route_model risk_tier mutating task meta override)))
          (demanded_tiers risk_tier mutating task meta))
   \<and> ro_backend (route_model risk_tier mutating task meta override)
       = backend_for (ro_tier (route_model risk_tier mutating task meta override))"
proof -
  let ?ds = "demanded_tiers risk_tier mutating task meta"
  have ds: "?ds = hd ?ds # tl ?ds" by (simp add: demanded_tiers_def)
  from fold_raise_to [of "tl ?ds" "hd ?ds"]
  have "ro_tier (route_by_risk risk_tier mutating task meta) \<in> set ?ds"
    "list_all (\<lambda>t. tier_index t \<le> tier_index (ro_tier (route_by_risk risk_tier mutating task meta))) ?ds"
    unfolding route_by_risk_tier ds [symmetric] list_all_iff by blast+
  moreover have "ro_backend (route_by_risk risk_tier mutating task meta)
      = backend_for (ro_tier (route_by_risk risk_tier mutating task meta))"
    by (simp add: route_by_risk_def Let_def case_prod_unfold)
  ultimately show ?thesis by (auto simp: route_model_def split: option.splits)
qed

definition sample_task :: task_row where
  "sample_task = \<lparr>tk_id = ''task_0'', tk_tenant = ''asg'', tk_capability_uri = ''cap://a'', tk_principal = ''ann'',
     tk_status = ''queued'', tk_envelope = JObj [], tk_result = None, tk_error = None,
     tk_created_at = utc_now sample_runtime, tk_started_at = None, tk_completed_at = None\<rparr>"

abbreviation sample_queue :: "string \<Rightarrow> conn" where
  "sample_queue status \<equiv> sample_conn (empty_database\<lparr>task_envelopes := [sample_task\<lparr>tk_status := status\<rparr>]\<rparr>)"

lemma sample_queue_find: "find_task (db (sample_queue status)) ''task_0'' ''asg'' = Some (sample_task\<lparr>tk_status := status\<rparr>)"
  by (simp add: find_task_def sample_conn_def sample_task_def)

text \<open>C23. The task table stays consistent whatever the workers do: in every interleaving, from an empty
  queue, of creations with the single reads and writes of any number of process_task and cancel_task
  calls, two of them on one task included, the identifiers stay distinct, every operation in flight is on
  a task of the table, every status is a declared one, a queued task has never been started and has
  neither result nor error, a running, completed or failed task has its start time, a running task has a
  worker in flight, a completed one its result and completion time, and a failed one its error. In
  particular no task is left running once no operation is in flight.\<close>

theorem task_table_stays_consistent:
  assumes "task_step\<^sup>*\<^sup>* (con, []) (con', fs)" and "task_envelopes (db con) = []"
  shows "distinct (map tk_id (task_envelopes (db con')))
    \<and> inflight_task ` set fs \<subseteq> tk_id ` set (task_envelopes (db con'))
    \<and> list_all (\<lambda>r. tk_status r \<in> {''queued'', ''running'', ''completed'', ''failed'', ''cancelled''}
        \<and> (tk_status r = ''queued'' \<longrightarrow> tk_result r = None \<and> tk_error r = None \<and> tk_started_at r = None)
        \<and> (tk_status r \<in> {''running'', ''completed'', ''failed''} \<longrightarrow> tk_started_at r \<noteq> None)
        \<and> (tk_status r = ''running'' \<longrightarrow> Working (tk_id r) \<in> set fs)
        \<and> (tk_status r = ''completed'' \<longrightarrow> tk_result r \<noteq> None \<and> tk_completed_at r \<noteq> None)
        \<and> (tk_status r = ''failed'' \<longrightarrow> tk_error r \<noteq> None)) (task_envelopes (db con'))"
proof -
  have "queue_inv (con, [])" using assms(2) by (simp add: queue_inv_def)
  from task_history_inv [OF assms(1) this] show ?thesis
    by (auto simp: queue_inv_def task_ok_def TASK_STATUSES_def list_all_iff)
qed

lemma sample_creation:
  defines "c1 \<equiv> snd (create_task_envelope sample_runtime ''cap://a'' ''ann'' [] ''asg'' True (sample_conn empty_database))"
  shows "task_step (sample_conn empty_database, fs) (c1, fs)" "find_task (db c1) ''task_0'' ''asg'' = Some sample_task"
    "task_envelopes (db c1) = [sample_task]"
proof -
  have zero: "str_of_nat 0 = ''0''" by code_simp
  show rows: "task_envelopes (db c1) = [sample_task]"
    by (simp add: c1_def create_task_envelope_def new_id_def sample_defs sample_task_def zero)
  show "find_task (db c1) ''task_0'' ''asg'' = Some sample_task"
    by (simp add: find_task_def rows) (simp add: sample_task_def)
  show "task_step (sample_conn empty_database, fs) (c1, fs)"
    unfolding c1_def by (rule task_step.create) (simp add: sample_conn_def empty_database_def)
qed

text \<open>Two workers may start the same task: both read the status while it is queued, and the UPDATE that
  marks it running does not look at it again.\<close>

theorem two_workers_can_share_a_task:
  "\<exists>con'. task_step\<^sup>*\<^sup>* (sample_conn empty_database, []) (con', [Working ''task_0'', Working ''task_0''])
     \<and> map tk_status (task_envelopes (db con')) = [''running'']"
proof -
  define c1 where "c1 = snd (create_task_envelope sample_runtime ''cap://a'' ''ann'' [] ''asg'' True (sample_conn empty_database))"
  note made = sample_creation [folded c1_def]
  have "tk_status sample_task = ''queued''" by (simp add: sample_task_def)
  then have chk: "check_task ''task_0'' ''asg'' con = (Inr (tk_envelope sample_task), ensure_table con)"
    if "find_task (db con) ''task_0'' ''asg'' = Some sample_task" for con
    using that by (simp add: check_task_found)
  let ?m = "\<lambda>con. mark_running sample_runtime ''task_0'' True con"
  let ?c3 = "ensure_table (ensure_table c1)"
  have s1: "task_step (c1, []) (ensure_table c1, [Checked ''task_0''])"
    using chk [OF made(2)] by (rule task_step.check)
  have s2: "task_step (ensure_table c1, [Checked ''task_0'']) (?c3, [Checked ''task_0'', Checked ''task_0''])"
    by (rule task_step.check, rule chk) (simp add: made(2))
  have s3: "task_step (?c3, [Checked ''task_0'', Checked ''task_0'']) (?m ?c3, [Working ''task_0'', Checked ''task_0''])"
    using task_step.mark [of "''task_0''" "[Checked ''task_0'', Checked ''task_0'']" ?c3 sample_runtime] by simp
  have s4: "task_step (?m ?c3, [Working ''task_0'', Checked ''task_0'']) (?m (?m ?c3), [Working ''task_0'', Working ''task_0''])"
    using task_step.mark [of "''task_0''" "[Working ''task_0'', Checked ''task_0'']" "?m ?c3" sample_runtime] by simp
  have "task_step\<^sup>*\<^sup>* (sample_conn empty_database, []) (?m (?m ?c3), [Working ''task_0'', Working ''task_0''])"
    by (rule converse_rtranclp_into_rtranclp [where r = task_step, OF made(1)],
        rule converse_rtranclp_into_rtranclp [where r = task_step, OF s1],
        rule converse_rtranclp_into_rtranclp [where r = task_step, OF s2],
        rule converse_rtranclp_into_rtranclp [where r = task_step, OF s3],
        rule r_into_rtranclp [where r = task_step, OF s4])
  moreover have "map tk_status (task_envelopes (db (?m (?m ?c3)))) = [''running'']"
    by (simp add: mark_running_rows made(3) update_where_Cons) (simp add: sample_task_def)
  ultimately show ?thesis by (intro exI conjI)
qed

theorem task_table_stays_consistent_witness:
  "\<exists>con'. task_step\<^sup>*\<^sup>* (sample_conn empty_database, []) (con', [Working ''task_0'', Working ''task_0''])
     \<and> map tk_status (task_envelopes (db con')) = [''running'']
     \<and> list_all (\<lambda>r. tk_started_at r \<noteq> None) (task_envelopes (db con'))"
proof -
  from two_workers_can_share_a_task
  obtain con' where run: "task_step\<^sup>*\<^sup>* (sample_conn empty_database, []) (con', [Working ''task_0'', Working ''task_0''])"
    and st: "map tk_status (task_envelopes (db con')) = [''running'']"
    by (elim exE conjE)
  obtain r where r: "task_envelopes (db con') = [r]" "tk_status r = ''running''" using st by auto
  have "task_envelopes (db (sample_conn empty_database)) = []" by (simp add: sample_conn_def empty_database_def)
  from task_table_stays_consistent [OF run this] have "tk_started_at r \<noteq> None" by (simp add: r)
  with run st r show ?thesis by (intro exI [of _ con']) simp
qed

text \<open>process_task always answers on a task that is queued or failed: its row ends completed
  with the result of the handler, or failed with the text of its exception, the reply says so, every
  other task is untouched and a requested commit makes it durable. Any other task raises.\<close>

theorem process_task_settles:
  assumes "find_task (db con) tid tenant = Some r"
  shows "if tk_status r \<in> {''queued'', ''failed''} then
      fst (process_task rt tid handler tenant True con)
        = Inr (JObj (case handler (tk_envelope r) of
            Inr v \<Rightarrow> [(''taskId'', JStr tid), (''status'', JStr ''completed''), (''result'', v)]
          | Inl exc \<Rightarrow> [(''taskId'', JStr tid), (''status'', JStr ''failed''), (''error'', JStr exc)]))
      \<and> find_task (durable (snd (process_task rt tid handler tenant True con))) tid tenant
        = Some (task_outcome rt (handler (tk_envelope r)) (r\<lparr>tk_started_at := Some (utc_now rt)\<rparr>))
      \<and> filter (\<lambda>s. tk_id s \<noteq> tid) (task_envelopes (durable (snd (process_task rt tid handler tenant True con))))
        = filter (\<lambda>s. tk_id s \<noteq> tid) (task_envelopes (db con))
    else fst (process_task rt tid handler tenant True con)
        = Inl (ValueError (''Task is not in a processable state: '' @ tk_status r))
      \<and> db (snd (process_task rt tid handler tenant True con)) = db con"
proof (cases "tk_status r \<in> {''queued'', ''failed''}")
  case True
  note ok = process_task_ok [OF assms True, where rt = rt and handler = handler and cm = True]
  have d: "durable (snd (process_task rt tid handler tenant True con)) = db (snd (process_task rt tid handler tenant True con))"
    using ok(4) by simp
  have o: "task_outcome rt a (r\<lparr>tk_status := s, tk_started_at := u\<rparr>) = task_outcome rt a (r\<lparr>tk_started_at := u\<rparr>)" for a s u
    by (simp add: task_outcome_def split: sum.splits)
  show ?thesis unfolding d
    using True ok(1-3) by (simp add: o finish_task_def split: sum.splits)
next
  case False
  then show ?thesis using assms by (auto simp: process_task_def check_task_def Let_def)
qed

theorem process_task_settles_witness:
  "fst (process_task sample_runtime ''task_0'' (\<lambda>_. Inr (JInt 1)) ''asg'' True (sample_queue ''queued''))
     = Inr (JObj [(''taskId'', JStr ''task_0''), (''status'', JStr ''completed''), (''result'', JInt 1)])"
  using process_task_settles [OF sample_queue_find, where rt = sample_runtime and handler = "\<lambda>_. Inr (JInt 1)" and status1 = "''queued''"] by simp

text \<open>A cancellation during the run is lost: when cancel_task has answered that a running task
  is cancelled, the worker that finishes afterwards overwrites the row, and the task ends completed
  or failed.\<close>

theorem cancelled_run_is_overwritten:
  assumes "find_task (db con) tid tenant = Some r" and "tk_status r = ''running''"
  shows "fst (cancel_task tid tenant True con) = Inr (JObj [(''taskId'', JStr tid), (''status'', JStr ''cancelled'')])
    \<and> (case find_task (db (snd (finish_task rt tid answer True (snd (cancel_task tid tenant True con))))) tid tenant of
        None \<Rightarrow> False
      | Some s \<Rightarrow> tk_status s = (case answer of Inr _ \<Rightarrow> ''completed'' | Inl _ \<Rightarrow> ''failed''))"
proof -
  have c: "cancel_task tid tenant True con = (Inr (JObj [(''taskId'', JStr tid), (''status'', JStr ''cancelled'')]),
      commit (update_task tid (tk_status_update (\<lambda>_. ''cancelled'')) con))"
    using assms by (simp add: cancel_task_def check_cancel_def mark_cancelled_def commit_if_def)
  have "find_task (db (snd (cancel_task tid tenant True con))) tid tenant = Some (r\<lparr>tk_status := ''cancelled''\<rparr>)"
    by (rule find_task_updated [OF assms(1)]) (simp_all add: c)
  from find_task_updated [OF this finish_task_rows, of rt answer True] show ?thesis by (simp add: c)
qed

theorem cancelled_run_is_overwritten_witness:
  "fst (cancel_task ''task_0'' ''asg'' True (sample_queue ''running''))
     = Inr (JObj [(''taskId'', JStr ''task_0''), (''status'', JStr ''cancelled'')])"
  using cancelled_run_is_overwritten [OF sample_queue_find, of "''running''"] by simp

text \<open>A dispatch that fails is stored as a success: when the gateway cannot be reached,
  dispatch_queued_task returns a failure, and the row of the task is completed with that failure as
  its result, so that it is not retried.\<close>

theorem failed_dispatch_is_stored_as_completed:
  assumes "find_task (db con) tid tenant = Some r" and "tk_status r = ''queued''"
    and "tk_envelope r = JObj env" and "pget env ''modelRouting'' = JNull"
    and "\<And>url req. gateway url req = Unreachable exc"
  shows "\<exists>j s. fst (dispatch_queued_task rt gateway tid tenant url con) = Inr (JObj j)
    \<and> map_of j ''status'' = Some (JStr ''failed'')
    \<and> find_task (db (snd (dispatch_queued_task rt gateway tid tenant url con))) tid tenant = Some s
    \<and> tk_status s = ''completed'' \<and> tk_result s = Some (JObj j)"
proof -
  have fe: "find_task (db (ensure_table con)) tid tenant = Some r" using assms(1) by simp
  have q: "tk_status r \<in> {''queued'', ''failed''}" using assms(2) by simp
  obtain j where j: "dispatch_task rt gateway env JNull url = Inr (JObj j)" "map_of j ''status'' = Some (JStr ''failed'')"
    using assms(4,5) by (simp add: dispatch_task_def dispatch_outcome_def Let_def)
  let ?p = "process_task rt tid (\<lambda>_. Inr (JObj j)) tenant True (ensure_table con)"
  note ok = process_task_ok [OF fe q, where rt = rt and handler = "\<lambda>_. Inr (JObj j)" and cm = True]
  obtain reply where p: "?p = (Inr reply, snd ?p)" using ok(1) by (metis prod.collapse)
  have "dispatch_queued_task rt gateway tid tenant url con = (Inr (JObj j), snd ?p)"
    using assms(1-3) j(1) p
    by (simp add: dispatch_queued_task_def task_status_def envelope_dict_def)
      (metis and_then_Inr)
  with ok(2) j(2) show ?thesis by (simp add: task_outcome_def)
qed

theorem failed_dispatch_is_stored_as_completed_witness:
  "\<exists>j s. fst (dispatch_queued_task sample_runtime (\<lambda>_ _. Unreachable ''refused'') ''task_0'' ''asg'' None (sample_queue ''queued''))
       = Inr (JObj j) \<and> map_of j ''status'' = Some (JStr ''failed'')
    \<and> find_task (db (snd (dispatch_queued_task sample_runtime (\<lambda>_ _. Unreachable ''refused'') ''task_0'' ''asg'' None
         (sample_queue ''queued'')))) ''task_0'' ''asg'' = Some s \<and> tk_status s = ''completed'' \<and> tk_result s = Some (JObj j)"
  by (rule failed_dispatch_is_stored_as_completed [OF sample_queue_find, where env = "[]"])
    (simp_all add: sample_task_def pget_def)

end
