(* ===== verification/Injection_Scan.thy ===== *)
theory Injection_Scan
  imports Access_Control Py_Payload
begin

text \<open>
  The prompt-injection gate: the scanner (\<^verbatim>\<open>prompt_injection.py\<close>), the classification of its hits
  (\<^verbatim>\<open>injection_allowlist.py\<close>) and the risk-tier policy (\<^verbatim>\<open>risk_policy.py\<close>).

  A scanned text is a list of code points. The two operations of the scanner that depend on the tables
  of the Unicode database, NFKC normalisation and lower-casing, are parameters; what the theorems use
  of them is \<^verbatim>\<open>unicode_ok\<close>: both are known on the plain texts, those over ASCII, the invisible
  characters and the confusable letters that have no compatibility form.
\<close>

section \<open>The scanner\<close>

type_synonym codepoints = "nat list"

record unicode =
  nfkc :: "codepoints \<Rightarrow> codepoints"
  lower :: "codepoints \<Rightarrow> codepoints"

definition codes :: "string \<Rightarrow> codepoints" where
  "codes s = map of_char s"

text \<open>\<^verbatim>\<open>str.isspace\<close>, which is also \<^verbatim>\<open>\s\<close> of a text pattern.\<close>

definition unicode_space :: "nat \<Rightarrow> bool" where
  "unicode_space c = ((9 \<le> c \<and> c \<le> 13) \<or> (28 \<le> c \<and> c \<le> 32) \<or> (8192 \<le> c \<and> c \<le> 8202)
     \<or> c \<in> {0x85, 0xA0, 0x1680, 0x2028, 0x2029, 0x202F, 0x205F, 0x3000})"

definition ZERO_WIDTH :: "nat list" where
  "ZERO_WIDTH = [0x200B, 0x200C, 0x200D, 0x2060, 0xFEFF, 0x00AD, 0x180E]"

definition HOMOGLYPHS :: "(nat \<times> char) list" where
  "HOMOGLYPHS = zip
     [0x430, 0x435, 0x43E, 0x440, 0x441, 0x445, 0x443, 0x456, 0x455, 0x578, 0x442, 0x432, 0x43C, 0x43A,
      0x261, 0x217C, 0x3BD, 0x3BF, 0x3C1, 0x3B1, 0x3B5, 0x3B9, 0x3BA, 0x475]
     ''aeopcxyisntbmkglvopaeikv''"

definition INJECTION_PHRASES :: "string list" where
  "INJECTION_PHRASES =
     [''ignore previous instructions'', ''ignore prior instructions'', ''ignore all previous'',
      ''disregard previous instructions'', ''disregard the above'', ''system prompt'', ''developer message'',
      ''exfiltrate'', ''disable safety'', ''disable guardrails'', ''bypass authentication'', ''bypass auth'',
      ''reveal your instructions'', ''print your system prompt'', ''you are now'', ''act as'', ''ignore the above'',
      ''forget your previous'', ''forget the above'', ''new instructions:'', ''override your instructions'',
      ''override the system'', ''do not follow your rules'', ''reveal your system prompt'',
      ''show your system prompt'', ''jailbreak'', ''developer mode'', ''ignore safety'', ''bypass your safety'']"

definition fold_homoglyph :: "nat \<Rightarrow> nat" where
  "fold_homoglyph c = (case map_of HOMOGLYPHS c of None \<Rightarrow> c | Some l \<Rightarrow> of_char l)"

definition normalized :: "unicode \<Rightarrow> codepoints \<Rightarrow> codepoints" where
  "normalized u content =
     map fold_homoglyph (lower u (filter (\<lambda>c. c \<notin> set ZERO_WIDTH) (nfkc u content)))"

text \<open>The two views: a run of white space becomes one blank, or nothing.\<close>

function collapse_spaces :: "codepoints \<Rightarrow> codepoints" where
  "collapse_spaces [] = []"
| "collapse_spaces (c # s) =
     (if unicode_space c then 32 # collapse_spaces (dropWhile unicode_space s) else c # collapse_spaces s)"
  by pat_completeness auto
termination by (relation "measure length") (auto simp: less_Suc_eq_le length_dropWhile_le)

definition compact :: "codepoints \<Rightarrow> codepoints" where
  "compact s = filter (\<lambda>c. \<not> unicode_space c) s"

definition despaced :: "string \<Rightarrow> string" where
  "despaced s = filter (\<lambda>c. c \<noteq> CHR '' '') s"

definition scan_prompt_injection :: "unicode \<Rightarrow> codepoints \<Rightarrow> string list" where
  "scan_prompt_injection u content =
     (let norm = normalized u content in
      filter (\<lambda>phrase. substring_in (codes phrase) (collapse_spaces norm)
        \<or> substring_in (codes (despaced phrase)) (compact norm)) INJECTION_PHRASES)"

section \<open>Severity of a hit\<close>

definition SEVERITY_BLOCK :: string where "SEVERITY_BLOCK = ''block''"
definition SEVERITY_INFO :: string where "SEVERITY_INFO = ''info''"
definition SEVERITY_ALLOWED :: string where "SEVERITY_ALLOWED = ''allowed''"
definition SURFACE_METADATA :: string where "SURFACE_METADATA = ''metadata''"
definition SURFACE_BODY :: string where "SURFACE_BODY = ''body''"

definition ALLOWED_PHRASES :: "string list" where
  "ALLOWED_PHRASES = [''act as'', ''system prompt'', ''you are'', ''your role'', ''your task'', ''ignore previous'',
     ''disregard the above'', ''pretend you are'']"

definition CAPABILITY_NAME_ALLOWLIST :: "string list" where
  "CAPABILITY_NAME_ALLOWLIST = [''-system-prompt'', ''-role-definition'', ''-persona'', ''system-prompt-'', ''role-'']"

definition SECURITY_DOMAIN_VOCABULARY :: "string list" where
  "SECURITY_DOMAIN_VOCABULARY = [''exfiltrate'', ''bypass auth'', ''bypass authentication'']"

definition SECURITY_DOMAIN_PLUGIN_PREFIXES :: "string list" where
  "SECURITY_DOMAIN_PLUGIN_PREFIXES = [''redteam-'', ''re-'', ''dfir-'', ''codeforensics-'']"

definition is_security_domain_plugin :: "string option \<Rightarrow> bool" where
  "is_security_domain_plugin plugin =
     (truthy plugin \<and> list_ex (startswith (py_lower (py_strip (the plugin)))) SECURITY_DOMAIN_PLUGIN_PREFIXES)"

record classification =
  severity :: string
  reason :: string

definition opt_repr :: "string option \<Rightarrow> string" where
  "opt_repr x = (case x of None \<Rightarrow> ''None'' | Some s \<Rightarrow> repr_str s)"

definition classify_scan_result ::
  "string \<Rightarrow> string \<Rightarrow> string option \<Rightarrow> string option \<Rightarrow> string \<Rightarrow> classification" where
  "classify_scan_result phrase capability_name kind plugin surface =
     (let phrase_l = py_lower phrase; name_l = py_lower capability_name;
          name_allowlisted = (list_ex (endswith name_l) CAPABILITY_NAME_ALLOWLIST
            \<or> list_ex (startswith name_l) CAPABILITY_NAME_ALLOWLIST);
          security_domain = is_security_domain_plugin plugin
      in if phrase_l \<in> set SECURITY_DOMAIN_VOCABULARY \<and> security_domain then
           \<lparr>severity = SEVERITY_INFO, reason = ''security-domain vocabulary '' @ repr_str phrase @ '' expected in ''
              @ or_else kind ''capability'' @ '' from plugin '' @ opt_repr plugin @ ''; flagged but not blocking''\<rparr>
         else if security_domain \<and> surface = SURFACE_BODY \<and> phrase_l \<notin> set ALLOWED_PHRASES then
           \<lparr>severity = SEVERITY_INFO, reason = ''attack payload '' @ repr_str phrase @ '' in the body of '' @ opt_repr plugin
              @ '' (offensive-security corpus); readable only via an explicit cap.load, flagged but not blocking''\<rparr>
         else if phrase_l \<in> set ALLOWED_PHRASES then
           if name_allowlisted then
             \<lparr>severity = SEVERITY_ALLOWED, reason = ''flagged phrase '' @ repr_str phrase @ '' expected in ''
                @ or_else kind ''capability'' @ '' named '' @ repr_str capability_name\<rparr>
           else \<lparr>severity = SEVERITY_INFO,
             reason = ''benign authoring phrase '' @ repr_str phrase @ ''; flagged but not blocking''\<rparr>
         else \<lparr>severity = SEVERITY_BLOCK,
           reason = ''unrecognized injection indicator '' @ repr_str phrase @ '' in '' @ repr_str capability_name\<rparr>)"

text \<open>A hit is the dictionary \<^verbatim>\<open>{"phrase": p}\<close>; filtering adds severity and reason.\<close>

record scan_hit =
  h_phrase :: string
  h_result :: classification

definition filter_scan_hits ::
  "string list \<Rightarrow> string \<Rightarrow> string option \<Rightarrow> string option \<Rightarrow> string \<Rightarrow> scan_hit list \<times> scan_hit list" where
  "filter_scan_hits phrases capability_name kind plugin surface =
     (let hits = map (\<lambda>p. \<lparr>h_phrase = p, h_result = classify_scan_result p capability_name kind plugin surface\<rparr>) phrases
      in partition (\<lambda>h. severity (h_result h) = SEVERITY_BLOCK) hits)"

definition should_block ::
  "string list \<Rightarrow> string \<Rightarrow> string option \<Rightarrow> string option \<Rightarrow> string \<Rightarrow> bool" where
  "should_block phrases capability_name kind plugin surface =
     list_ex (\<lambda>p. severity (classify_scan_result p capability_name kind plugin surface) = SEVERITY_BLOCK) phrases"

section \<open>The gates of a promotion\<close>

text \<open>\<^verbatim>\<open>json.dumps(metadata, sort_keys=True)\<close>, with the default separators: the text of the column
  \<^verbatim>\<open>metadata_json\<close>.\<close>

fun json_dumps_spaced :: "json \<Rightarrow> string" where
  "json_dumps_spaced (JList xs) = ''['' @ join_with '', '' (map json_dumps_spaced xs) @ '']''"
| "json_dumps_spaced (JObj kvs) = ''{'' @ join_with '', ''
     (map (\<lambda>(k, t). json_quote k @ '': '' @ t)
       (sort_key fst (map (\<lambda>(k, v). (k, json_dumps_spaced v)) kvs))) @ ''}''"
| "json_dumps_spaced v = json_dumps v"

definition evaluate_prompt_injection_scan ::
  "unicode \<Rightarrow> database \<Rightarrow> string \<Rightarrow> string \<Rightarrow> string \<times> string" where
  "evaluate_prompt_injection_scan u d capability_uri target_namespace_id =
     (case find (\<lambda>n. ns_id n = target_namespace_id) (namespaces d) of
        None \<Rightarrow> (''skipped'', ''target namespace not found; injection scan not enforced'')
      | Some ns \<Rightarrow> (case find (\<lambda>s. st_id s = ns_store ns) (stores d) of
          None \<Rightarrow> (''skipped'', ''target store not found; injection scan not enforced'')
        | Some store \<Rightarrow>
            if st_kind store \<notin> {''all_users'', ''org''} then
              (''skipped'', ''injection scan not enforced for ''
                 @ (if st_kind store = [] then ''unknown'' else st_kind store) @ '' promotion targets'')
            else (case find (\<lambda>c. c_uri c = capability_uri) (capabilities d) of
              None \<Rightarrow> (''skipped'', ''source capability not found; injection scan not enforced'')
            | Some cap \<Rightarrow>
                let content = join_with [CHR 0x0A] [c_name cap, c_title cap, c_description cap,
                      json_dumps_spaced (JObj (c_metadata cap))];
                    flagged = scan_prompt_injection u (codes content);
                    plugin = Some (case c_plugin cap of None \<Rightarrow> [] | Some p \<Rightarrow> p)
                in if should_block flagged (c_name cap) (Some (c_type cap)) plugin SURFACE_METADATA then
                     (''failed'', ''blocking prompt-injection indicators: '' @ join_with '', '' (sorted_list_of_set
                        (set (map h_phrase (fst (filter_scan_hits flagged (c_name cap) (Some (c_type cap)) plugin SURFACE_METADATA))))))
                   else (''passed'', ''no blocking prompt-injection indicators (benign hits downgraded to info/allowed)''))))"

definition evaluate_risk_tier_policy :: "string \<Rightarrow> string \<Rightarrow> bool \<times> string" where
  "evaluate_risk_tier_policy risk_tier target_vault =
     (if target_vault \<in> {''org'', ''private''} then (True, ''org/private vaults are allowlisted for all risk tiers'')
      else if risk_tier \<in> {''low'', ''none''} then (True, risk_tier @ ''-tier capability is allowlisted'')
      else if risk_tier = ''medium'' then (True, ''medium-tier capability allowed with warning for all-user namespace'')
      else if risk_tier \<in> {''high'', ''critical''} then
        (False, risk_tier @ ''-tier capability is blocked from the all-user namespace'')
      else (False, ''unknown risk tier is denied for all-user namespace''))"

definition default_promotion_gates :: "(string \<times> string) list" where
  "default_promotion_gates = map (\<lambda>g. (g, ''pending''))
     [''sourceIntegrity'', ''tests'', ''retrievalEvals'', ''signature'', ''provenance'', ''promptInjectionScan'',
      ''riskTierPolicy'']"

section \<open>What the scanner sees\<close>

definition plain_code :: "nat \<Rightarrow> bool" where
  "plain_code c = (c < 128 \<or> c \<in> set ZERO_WIDTH \<or> (c \<in> set (map fst HOMOGLYPHS) \<and> c \<noteq> 0x217C))"

definition ascii_lower :: "nat \<Rightarrow> nat" where
  "ascii_lower c = (if 65 \<le> c \<and> c \<le> 90 then c + 32 else c)"

definition unicode_ok :: "unicode \<Rightarrow> bool" where
  "unicode_ok u = (\<forall>s. list_all plain_code s \<longrightarrow> nfkc u s = s \<and> lower u s = map ascii_lower s)"

text \<open>The letters a reader sees: no invisible character, no white space, no capital, no confusable.\<close>

definition seen :: "codepoints \<Rightarrow> codepoints" where
  "seen content = map (\<lambda>c. fold_homoglyph (ascii_lower c))
     (filter (\<lambda>c. c \<notin> set ZERO_WIDTH \<and> \<not> unicode_space c) content)"

lemma substring_in_filter: "substring_in p s \<Longrightarrow> substring_in (filter P p) (filter P s)"
  unfolding substring_in_iff by (metis filter_append)

lemma startswith_codes: "startswith (codes s) (codes p) = startswith s p"
  by (auto simp: startswith_def codes_def take_map inj_map_eq_map [OF inj_of_char])

lemma substring_in_codes: "substring_in (codes p) (codes s) = substring_in p s"
proof (induction s)
  case (Cons c s)
  then show ?case using startswith_codes [of "c # s" p] by (simp add: codes_def)
qed (simp add: codes_def)

lemma compact_collapse [simp]: "compact (collapse_spaces s) = compact s"
proof (induction s rule: collapse_spaces.induct)
  case (2 c s)
  have "compact (dropWhile unicode_space s) = compact s"
    by (induction s) (simp_all add: compact_def)
  moreover have "unicode_space 32" by (simp add: unicode_space_def)
  ultimately show ?case using 2 by (simp add: compact_def)
qed simp

definition phrase_letters :: string where
  "phrase_letters = ''eiorsantudylpcfghbmvwjkx:'' @ '' ''"

lemma codes_despaced: "p \<in> set INJECTION_PHRASES \<Longrightarrow> codes (despaced p) = compact (codes p)"
proof -
  assume p: "p \<in> set INJECTION_PHRASES"
  have "list_all (list_all (\<lambda>c. c \<in> set phrase_letters)) INJECTION_PHRASES" by code_simp
  moreover have "list_all (\<lambda>c. unicode_space (of_char c) = (c = CHR '' '')) phrase_letters"
    by (simp add: phrase_letters_def unicode_space_def)
  ultimately have "\<forall>c \<in> set p. unicode_space (of_char c) = (c = CHR '' '')" using p by (auto simp: list_all_iff)
  then have "filter (\<lambda>c. c \<noteq> CHR '' '') p = filter (\<lambda>c. \<not> unicode_space (of_char c)) p" by (simp cong: filter_cong)
  then show ?thesis by (simp add: codes_def despaced_def compact_def filter_map comp_def)
qed

text \<open>The collapsed view adds nothing to the despaced one.\<close>

lemma scan_reads_compact:
  "scan_prompt_injection u content
     = filter (\<lambda>p. substring_in (codes (despaced p)) (compact (normalized u content))) INJECTION_PHRASES"
proof -
  have "substring_in (codes (despaced p)) (compact s)"
    if "p \<in> set INJECTION_PHRASES" "substring_in (codes p) (collapse_spaces s)" for p s
    using substring_in_filter [OF that(2), of "\<lambda>c. \<not> unicode_space c"] codes_despaced [OF that(1)]
    by (simp add: compact_def [symmetric])
  then show ?thesis unfolding scan_prompt_injection_def Let_def by (intro filter_cong) auto
qed

lemma fold_homoglyph_space: "unicode_space (fold_homoglyph (ascii_lower c)) = unicode_space c"
proof -
  have l: "unicode_space (ascii_lower c) = unicode_space c" by (auto simp: unicode_space_def ascii_lower_def)
  have "list_all (\<lambda>(k, l). \<not> unicode_space k \<and> \<not> unicode_space (of_char l)) HOMOGLYPHS"
    by (simp add: HOMOGLYPHS_def unicode_space_def)
  then have "unicode_space (fold_homoglyph k) = unicode_space k" for k
    by (auto simp: fold_homoglyph_def list_all_iff split: option.split dest!: map_of_SomeD)
  with l show ?thesis by simp
qed

lemma compact_normalized:
  assumes "unicode_ok u" "list_all plain_code content"
  shows "compact (normalized u content) = seen content"
proof -
  let ?vis = "filter (\<lambda>c. c \<notin> set ZERO_WIDTH) content"
  have "list_all plain_code ?vis" using assms(2) by (simp add: list_all_iff)
  with assms have "normalized u content = map (\<lambda>c. fold_homoglyph (ascii_lower c)) ?vis"
    by (simp add: normalized_def unicode_ok_def)
  then show ?thesis
    by (simp add: compact_def seen_def filter_map comp_def fold_homoglyph_space conj_commute)
qed

text \<open>Only the phrase, the plugin and the surface decide whether a hit blocks.\<close>

lemma classify_blocks_iff:
  "severity (classify_scan_result phrase name kind plugin surface) = SEVERITY_BLOCK \<longleftrightarrow>
     py_lower phrase \<notin> set ALLOWED_PHRASES \<and> \<not> (is_security_domain_plugin plugin
       \<and> (py_lower phrase \<in> set SECURITY_DOMAIN_VOCABULARY \<or> surface = SURFACE_BODY))"
proof -
  have "set SECURITY_DOMAIN_VOCABULARY \<inter> set ALLOWED_PHRASES = {}"
    by (simp add: SECURITY_DOMAIN_VOCABULARY_def ALLOWED_PHRASES_def)
  then show ?thesis
    by (auto simp: classify_scan_result_def Let_def SEVERITY_BLOCK_def SEVERITY_INFO_def SEVERITY_ALLOWED_def)
qed

lemma lower_phrase: "p \<in> set INJECTION_PHRASES \<Longrightarrow> py_lower p = p"
proof -
  have "list_all (\<lambda>p. py_lower p = p) INJECTION_PHRASES" by code_simp
  then show "p \<in> set INJECTION_PHRASES \<Longrightarrow> py_lower p = p" by (simp add: list_all_iff)
qed

lemma should_block_filter:
  "should_block phrases name kind plugin surface \<longleftrightarrow> fst (filter_scan_hits phrases name kind plugin surface) \<noteq> []"
  by (auto simp: should_block_def filter_scan_hits_def Let_def list_ex_iff filter_empty_conv)

section \<open>Properties\<close>


definition plain_unicode :: unicode where
  "plain_unicode = \<lparr>nfkc = (\<lambda>s. s), lower = map ascii_lower\<rparr>"

lemma plain_unicode_ok: "unicode_ok plain_unicode"
  by (simp add: unicode_ok_def plain_unicode_def)



text \<open>The promotion gate blocks by what the text says, never by how the capability is called: for an
  organization or everyone target and a plain text of the catalog entry, evaluate_prompt_injection_scan
  fails exactly when a listed phrase occurs that is not one of the benign authoring phrases, except
  for the security vocabulary of a capability of a security plugin.\<close>

theorem injection_gate_exact:
  assumes "unicode_ok u"
    and "find (\<lambda>n. ns_id n = nid) (namespaces d) = Some ns" and "find (\<lambda>s. st_id s = ns_store ns) (stores d) = Some st"
    and "st_kind st \<in> {''all_users'', ''org''}" and "find (\<lambda>c. c_uri c = uri) (capabilities d) = Some cap"
    and "content = codes (join_with [CHR 0x0A] [c_name cap, c_title cap, c_description cap,
           json_dumps_spaced (JObj (c_metadata cap))])"
    and "list_all plain_code content"
  shows "fst (evaluate_prompt_injection_scan u d uri nid) =
    (if list_ex (\<lambda>p. substring_in (codes (despaced p)) (seen content) \<and> p \<notin> set ALLOWED_PHRASES
          \<and> \<not> (p \<in> set SECURITY_DOMAIN_VOCABULARY \<and> is_security_domain_plugin (c_plugin cap))) INJECTION_PHRASES
     then ''failed'' else ''passed'')"
proof -
  let ?plugin = "Some (case c_plugin cap of None \<Rightarrow> [] | Some p \<Rightarrow> p)"
  have pl: "is_security_domain_plugin ?plugin = is_security_domain_plugin (c_plugin cap)"
    by (simp add: is_security_domain_plugin_def split: option.split)
  have "should_block (scan_prompt_injection u content) (c_name cap) (Some (c_type cap)) ?plugin SURFACE_METADATA \<longleftrightarrow>
      list_ex (\<lambda>p. substring_in (codes (despaced p)) (seen content) \<and> p \<notin> set ALLOWED_PHRASES
          \<and> \<not> (p \<in> set SECURITY_DOMAIN_VOCABULARY \<and> is_security_domain_plugin (c_plugin cap))) INJECTION_PHRASES"
    unfolding should_block_def scan_reads_compact compact_normalized [OF assms(1,7)]
    by (auto simp: list_ex_iff classify_blocks_iff lower_phrase pl SURFACE_METADATA_def SURFACE_BODY_def)
  then show ?thesis
    using assms(2-5) by (simp add: evaluate_prompt_injection_scan_def assms(6) Let_def)
qed

definition leaky_database :: database where
  "leaky_database = empty_database\<lparr>stores := [sample_store ''st'' ''asg'' ''org''],
     namespaces := [\<lparr>ns_id = ''ns'', ns_tenant = ''asg'', ns_store = ''st'', ns_name = ''n'', ns_uri_prefix = ''cap://org/n'',
       ns_visibility = ''internal'', ns_owner = ''ann'', ns_description = [], ns_lifecycle = ''active''\<rparr>],
     capabilities := [sample_capability\<lparr>c_description := ''EXFILTRATE data''\<rparr>]\<rparr>"

theorem injection_gate_exact_witness:
  "fst (evaluate_prompt_injection_scan plain_unicode leaky_database (c_uri sample_capability) ''ns'') = ''failed''"
proof -
  let ?content = "codes (''s'' @ [CHR 0x0A] @ ''S'' @ [CHR 0x0A] @ ''EXFILTRATE data'' @ [CHR 0x0A] @ ''{}'')"
  have plain: "list_all plain_code ?content" by (simp add: codes_def plain_code_def)
  have "seen ?content = codes ''ssexfiltratedata{}''"
    by (simp add: seen_def codes_def ZERO_WIDTH_def unicode_space_def ascii_lower_def fold_homoglyph_def HOMOGLYPHS_def)
  moreover have "list_ex (\<lambda>p. substring_in (codes (despaced p)) (codes ''ssexfiltratedata{}'')
      \<and> p \<notin> set ALLOWED_PHRASES \<and> \<not> (p \<in> set SECURITY_DOMAIN_VOCABULARY \<and> is_security_domain_plugin (Some ''p''))) INJECTION_PHRASES"
    unfolding substring_in_codes by code_simp
  ultimately show ?thesis
    using injection_gate_exact [OF plain_unicode_ok, of "''ns''" leaky_database "hd (namespaces leaky_database)"
        "hd (stores leaky_database)" "c_uri sample_capability" "hd (capabilities leaky_database)", OF _ _ _ _ _ plain]
    by (simp add: leaky_database_def sample_defs)
qed

end
