(* ===== verification/Signing.thy ===== *)
theory Signing
  imports Access_Control Py_Payload
begin

text \<open>
  The internal trust anchor (\<^verbatim>\<open>signing.py\<close>): attestations signed with Ed25519 and their verification.

  The signature scheme comes from the package \<^verbatim>\<open>cryptography\<close>, and the private key from a file; both
  are fields of a record of parameters. The laws the code relies on are named: a signature verifies
  under the public key of the key that made it, and keys and signatures are strings of bytes. Base64
  and the canonical JSON text are modelled.
\<close>

section \<open>Base64\<close>

definition b64_char :: "nat \<Rightarrow> char" where
  "b64_char n = (let m = n mod 64 in
     char_of (if m < 26 then m + 65 else if m < 52 then m + 71 else if m < 62 then m - 4 else if m = 62 then 43 else 47))"

definition b64_value :: "char \<Rightarrow> nat option" where
  "b64_value c = (let n = code_point c in
     if 65 \<le> n \<and> n \<le> 90 then Some (n - 65) else if 97 \<le> n \<and> n \<le> 122 then Some (n - 71)
     else if 48 \<le> n \<and> n \<le> 57 then Some (n + 4) else if n = 43 then Some 62 else if n = 47 then Some 63 else None)"

fun b64encode :: "nat list \<Rightarrow> string" where
  "b64encode [] = []"
| "b64encode [a] = [b64_char (a div 4), b64_char (a * 16), CHR ''='', CHR ''='']"
| "b64encode [a, b] = [b64_char (a div 4), b64_char (a * 16 + b div 16), b64_char (b * 4), CHR ''='']"
| "b64encode (a # b # c # r) =
     [b64_char (a div 4), b64_char (a * 16 + b div 16), b64_char (b * 4 + c div 64), b64_char c] @ b64encode r"

text \<open>\<^verbatim>\<open>b64decode(s, validate=True)\<close>: None for the \<^verbatim>\<open>ValueError\<close> on text that is not base64.\<close>

fun b64decode :: "string \<Rightarrow> nat list option" where
  "b64decode [] = Some []"
| "b64decode (p # q # r # s # rest) =
     (case (b64_value p, b64_value q) of
        (Some a, Some b) \<Rightarrow>
          if r = CHR ''='' \<and> s = CHR ''='' \<and> rest = [] then Some [a * 4 + b div 16]
          else (case b64_value r of
            None \<Rightarrow> None
          | Some c \<Rightarrow>
              if s = CHR ''='' \<and> rest = [] then Some [a * 4 + b div 16, b mod 16 * 16 + c div 4]
              else (case (b64_value s, b64decode rest) of
                  (Some d, Some bs) \<Rightarrow> Some ([a * 4 + b div 16, b mod 16 * 16 + c div 4, c mod 4 * 64 + d] @ bs)
                | _ \<Rightarrow> None))
      | _ \<Rightarrow> None)"
| "b64decode _ = None"

section \<open>Canonical JSON\<close>

text \<open>\<^verbatim>\<open>json.dumps(..., sort_keys=True, separators=(",", ":"), ensure_ascii=False)\<close>: only quotes,
  backslashes and control characters are escaped.\<close>

definition raw_quote :: "string \<Rightarrow> string" where
  "raw_quote s = [CHR 0x22] @ concat (map (\<lambda>c. if 126 < code_point c then [c] else json_escape_char c) s) @ [CHR 0x22]"

fun json_raw :: "json \<Rightarrow> string" where
  "json_raw (JStr s) = raw_quote s"
| "json_raw (JList xs) = ''['' @ join_with '','' (map json_raw xs) @ '']''"
| "json_raw (JObj kvs) = ''{'' @ join_with '',''
     (map (\<lambda>(k, t). raw_quote k @ '':'' @ t) (sort_key fst (map (\<lambda>(k, v). (k, json_raw v)) kvs))) @ ''}''"
| "json_raw v = json_dumps v"

definition canonical_json :: "json \<Rightarrow> nat list" where
  "canonical_json v = utf8 (json_raw v)"

section \<open>Keys\<close>

text \<open>A private key is opaque. \<^verbatim>\<open>key_file\<close> is the key in the configured file, None when there is no file,
  or the exception its reading raises; \<^verbatim>\<open>generated\<close> is the key a call
  generates when there is none; that it is then written to the file is not part of the model.\<close>

record 'k signer =
  key_file :: "py_error + 'k option"
  generated :: 'k
  ed_public :: "'k \<Rightarrow> nat list"
  ed_sign :: "'k \<Rightarrow> nat list \<Rightarrow> nat list"
  ed_verify :: "nat list \<Rightarrow> nat list \<Rightarrow> nat list \<Rightarrow> bool"

definition signing_key_path :: "runtime \<Rightarrow> string \<Rightarrow> py_error + string" where
  "signing_key_path rt state_dir =
     (let configured = py_strip (case environ rt ''CAPMESH_SIGNING_KEY_FILE'' of None \<Rightarrow> [] | Some v \<Rightarrow> v) in
      if configured \<noteq> [] then Inr configured
      else if production_environment rt
      then Inl (RuntimeErr ''Production requires CAPMESH_SIGNING_KEY_FILE to reference an existing 0600 key.'')
      else Inr (state_dir @ ''/signing/capmesh-ed25519.pem''))"

definition key_id :: "nat list \<Rightarrow> string" where
  "key_id public_key = ''sha256:'' @ hexdigest_bytes public_key"

definition load_or_create_signing_key :: "runtime \<Rightarrow> string \<Rightarrow> 'k signer \<Rightarrow> py_error + 'k" where
  "load_or_create_signing_key rt state_dir s =
     (case signing_key_path rt state_dir of
        Inl e \<Rightarrow> Inl e
      | Inr path \<Rightarrow> (case key_file s of
          Inl e \<Rightarrow> Inl e
        | Inr (Some key) \<Rightarrow> Inr key
        | Inr None \<Rightarrow>
            if production_environment rt then Inl (FileNotFoundErr (''Production signing key does not exist: '' @ path))
            else Inr (generated s)))"

definition trusted_signing_key_id :: "runtime \<Rightarrow> string \<Rightarrow> 'k signer \<Rightarrow> py_error + string" where
  "trusted_signing_key_id rt state_dir s =
     (case signing_key_path rt state_dir of
        Inl e \<Rightarrow> Inl e
      | Inr path \<Rightarrow> (case key_file s of
          Inl e \<Rightarrow> Inl e
        | Inr None \<Rightarrow> Inl (FileNotFoundErr (''No such file or directory: '' @ path))
        | Inr (Some key) \<Rightarrow> Inr (key_id (ed_public s key))))"

section \<open>Attestations\<close>

definition attestation :: "'k signer \<Rightarrow> 'k \<Rightarrow> json \<Rightarrow> payload" where
  "attestation s key envelope =
     [(''algorithm'', JStr ''Ed25519''), (''keyId'', JStr (key_id (ed_public s key))), (''envelope'', envelope),
      (''publicKey'', JStr (b64encode (ed_public s key))),
      (''signature'', JStr (b64encode (ed_sign s key (canonical_json envelope))))]"

text \<open>The exceptions a malformed attestation causes, a missing key, a field that is no text, or text
  that is no base64, are caught and read as False; so is a public key that is not of 32 bytes.\<close>

definition text_field :: "payload \<Rightarrow> string \<Rightarrow> string option" where
  "text_field a k = (case map_of a k of Some (JStr v) \<Rightarrow> Some v | _ \<Rightarrow> None)"

definition verify_attestation :: "'k signer \<Rightarrow> payload \<Rightarrow> string option \<Rightarrow> bool" where
  "verify_attestation s a trusted_key_id =
     (if pget a ''algorithm'' \<noteq> JStr ''Ed25519'' then False
      else case Option.bind (text_field a ''publicKey'') b64decode of
        None \<Rightarrow> False
      | Some public_key_bytes \<Rightarrow> (case map_of a ''keyId'' of
          None \<Rightarrow> False
        | Some embedded \<Rightarrow>
            if py_str embedded \<noteq> key_id public_key_bytes then False
            else if trusted_key_id \<noteq> None \<and> Some (py_str embedded) \<noteq> trusted_key_id then False
            else if length public_key_bytes \<noteq> 32 then False
            else (case (Option.bind (text_field a ''signature'') b64decode, map_of a ''envelope'') of
                (Some signature, Some envelope) \<Rightarrow> ed_verify s public_key_bytes signature (canonical_json envelope)
              | _ \<Rightarrow> False)))"

definition sign_attestation :: "runtime \<Rightarrow> string \<Rightarrow> 'k signer \<Rightarrow> json \<Rightarrow> py_error + payload" where
  "sign_attestation rt state_dir s envelope =
     (case load_or_create_signing_key rt state_dir s of
        Inl e \<Rightarrow> Inl e
      | Inr key \<Rightarrow>
          let result = attestation s key envelope in
          if \<not> verify_attestation s result (Some (key_id (ed_public s key)))
          then Inl (RuntimeErr ''Newly signed provenance attestation did not verify.'') else Inr result)"

section \<open>Signing and verifying agree\<close>

definition signer_ok :: "'k signer \<Rightarrow> bool" where
  "signer_ok s = (\<forall>k m. list_all (\<lambda>b. b < 256) (ed_public s k) \<and> length (ed_public s k) = 32
     \<and> list_all (\<lambda>b. b < 256) (ed_sign s k m) \<and> ed_verify s (ed_public s k) (ed_sign s k m) m)"

lemma b64_value_char: "b64_value (b64_char n) = Some (n mod 64)"
proof -
  define m where "m = n mod 64"
  have "m < 64" by (simp add: m_def)
  then consider "m < 26" | "26 \<le> m" "m < 52" | "52 \<le> m" "m < 62" | "m = 62" | "m = 63" by linarith
  then show ?thesis
    unfolding b64_value_def b64_char_def Let_def m_def [symmetric] by cases auto
qed

lemma b64_char_pad [simp]: "b64_char n \<noteq> CHR ''=''"
proof
  assume "b64_char n = CHR ''=''"
  then show False using b64_value_char [of n] by (simp add: b64_value_def)
qed

lemma sextet_arith:
  fixes a b c x y :: nat
  shows "x < 16 \<Longrightarrow> (a * 16 + x) mod 64 = a mod 4 * 16 + x" "y < 4 \<Longrightarrow> (b * 4 + y) mod 64 = b mod 16 * 4 + y"
proof -
  show "(a * 16 + x) mod 64 = a mod 4 * 16 + x" if "x < 16"
    using that mod_mult2_eq [of "a * 16 + x" 16 4] by simp
  show "(b * 4 + y) mod 64 = b mod 16 * 4 + y" if "y < 4"
    using that mod_mult2_eq [of "b * 4 + y" 4 16] by simp
qed

lemma octet_parts:
  fixes a :: nat
  assumes "a < 256"
  shows "a div 4 mod 64 = a div 4" "a div 16 < 16" "a div 64 < 4" "a div 4 * 4 + a mod 4 = a"
    "a div 16 * 16 + a mod 16 = a" "a div 64 * 64 + a mod 64 = a"
  using assms by simp_all

lemma b64_roundtrip: "list_all (\<lambda>b. b < 256) bs \<Longrightarrow> b64decode (b64encode bs) = Some bs"
proof (induction bs rule: b64encode.induct)
  case (2 a)
  then show ?case using sextet_arith(1) [of 0 a] by (simp add: b64_value_char octet_parts)
next
  case (3 a b)
  then show ?case using sextet_arith(2) [of 0 b] by (simp add: b64_value_char octet_parts sextet_arith)
next
  case (4 a b c r)
  then show ?case by (simp add: b64_value_char octet_parts sextet_arith)
qed simp

text \<open>Verification of an attestation whose envelope may have been replaced since it was signed.\<close>

lemma verify_present_envelope:
  assumes "signer_ok s"
  shows "verify_attestation s (dict_set ''envelope'' present (attestation s k envelope)) t
    \<longleftrightarrow> (t = None \<or> t = Some (key_id (ed_public s k)))
      \<and> ed_verify s (ed_public s k) (ed_sign s k (canonical_json envelope)) (canonical_json present)"
proof -
  have k: "b64decode (b64encode (ed_public s k)) = Some (ed_public s k)" "length (ed_public s k) = 32"
    "b64decode (b64encode (ed_sign s k m)) = Some (ed_sign s k m)" for m
    using assms by (simp_all add: signer_ok_def b64_roundtrip)
  show ?thesis
    by (auto simp: verify_attestation_def attestation_def pget_def text_field_def py_str_def k)
qed

lemma verify_own_attestation:
  assumes "signer_ok s"
  shows "verify_attestation s (attestation s k envelope) t \<longleftrightarrow> t = None \<or> t = Some (key_id (ed_public s k))"
proof -
  have "dict_set ''envelope'' envelope (attestation s k envelope) = attestation s k envelope"
    by (simp add: attestation_def)
  then show ?thesis
    using verify_present_envelope [OF assms, of envelope k envelope t] assms by (simp add: signer_ok_def)
qed

section \<open>Properties\<close>

text \<open>C16. An attestation verifies for the envelope and the key it was made with: with a lawful
  signature scheme, sign_attestation returns the envelope signed with the key of the file, or in
  development with a generated one. Whatever envelope is put in its place afterwards, verify_attestation
  accepts exactly when the signature verifies the canonical text of the envelope that is there, and the
  caller trusts that key or names no trusted key at all; the untouched attestation is therefore accepted
  under the identifier of its key and under no other. In production the trusted key is the one that
  signed, and a missing key file is an error.\<close>

theorem attestation_roundtrip:
  assumes "signer_ok s"
  shows "case load_or_create_signing_key rt state_dir s of
      Inl e \<Rightarrow> sign_attestation rt state_dir s envelope = Inl e
    | Inr k \<Rightarrow> \<exists>a. sign_attestation rt state_dir s envelope = Inr a \<and> map_of a ''envelope'' = Some envelope
        \<and> (verify_attestation s a trusted \<longleftrightarrow> trusted = None \<or> trusted = Some (key_id (ed_public s k)))
        \<and> (verify_attestation s (dict_set ''envelope'' present a) trusted
             \<longleftrightarrow> (trusted = None \<or> trusted = Some (key_id (ed_public s k)))
               \<and> ed_verify s (ed_public s k) (ed_sign s k (canonical_json envelope)) (canonical_json present))
        \<and> (production_environment rt \<longrightarrow> trusted_signing_key_id rt state_dir s = Inr (key_id (ed_public s k)))"
proof (cases "load_or_create_signing_key rt state_dir s")
  case (Inl e)
  then show ?thesis by (simp add: sign_attestation_def)
next
  case (Inr k)
  then have "sign_attestation rt state_dir s envelope = Inr (attestation s k envelope)"
    by (simp add: sign_attestation_def verify_own_attestation [OF assms])
  moreover have "map_of (attestation s k envelope) ''envelope'' = Some envelope" by (simp add: attestation_def)
  moreover have "production_environment rt \<longrightarrow> trusted_signing_key_id rt state_dir s = Inr (key_id (ed_public s k))"
    using Inr by (auto simp: load_or_create_signing_key_def trusted_signing_key_id_def Let_def split: sum.splits option.splits)
  ultimately show ?thesis
    using Inr verify_present_envelope [OF assms, of present k envelope trusted] verify_own_attestation [OF assms, of k envelope trusted]
    by simp
qed

definition sample_signer :: "unit signer" where
  "sample_signer = \<lparr>key_file = Inr (Some ()), generated = (), ed_public = (\<lambda>_. replicate 32 1), ed_sign = (\<lambda>_ _. [7]),
     ed_verify = (\<lambda>_ _ _. True)\<rparr>"

text \<open>A scheme that signs a text with its own bytes: its signatures bind the text.\<close>

definition echo_signer :: "unit signer" where
  "echo_signer = sample_signer\<lparr>ed_sign := (\<lambda>_ m. map (\<lambda>b. b mod 256) m),
     ed_verify := (\<lambda>_ signature m. signature = map (\<lambda>b. b mod 256) m)\<rparr>"

theorem attestation_roundtrip_witness:
  "\<exists>a. sign_attestation sample_runtime ''/s'' echo_signer JNull = Inr a
     \<and> verify_attestation echo_signer a (Some (key_id (replicate 32 1)))
     \<and> \<not> verify_attestation echo_signer (dict_set ''envelope'' (JBool True) a) (Some (key_id (replicate 32 1)))"
proof -
  have ok: "signer_ok echo_signer" by (simp add: signer_ok_def echo_signer_def sample_signer_def list_all_iff)
  have load: "load_or_create_signing_key sample_runtime ''/s'' echo_signer = Inr ()"
    by (simp add: load_or_create_signing_key_def signing_key_path_def sample_runtime_def echo_signer_def sample_signer_def
        production_environment_def py_strip_def py_lstrip_def py_rstrip_def py_lower_def)
  have "map (\<lambda>b. b mod 256) (canonical_json JNull) \<noteq> map (\<lambda>b. b mod 256) (canonical_json (JBool True))"
    by code_simp
  then show ?thesis
    using attestation_roundtrip [OF ok, of sample_runtime "''/s''" JNull "Some (key_id (replicate 32 1))" "JBool True"]
    unfolding load by (auto simp: echo_signer_def sample_signer_def)
qed

end
