(* ===== verification/Review_Gates.thy ===== *)
theory Review_Gates
  imports Injection_Scan Signing Registry_Log
begin

text \<open>
  The review gates of a capability (\<^verbatim>\<open>lifecycle.py\<close>, with \<^verbatim>\<open>provenance.py\<close> and \<^verbatim>\<open>index.get_capability\<close>):
  the seven gates, the review that approves a capability when all of them pass, the batch and the
  catalog review built on it, and the gate run of a promotion request.

  What the gates read outside the database is a record of parameters: the file at a path, the resolved
  form of a path, the JSON decoder of the standard library, the Unicode tables and the signer. A file
  does not change during one call. Log lines, metrics and trace spans, which the code emits without
  reading them, are not modelled.
\<close>

section \<open>Text helpers\<close>

text \<open>\<^verbatim>\<open>bytes.decode("utf-8", errors="replace")\<close>: an ill-formed maximal subpart becomes U+FFFD.\<close>

definition cont_byte :: "nat \<Rightarrow> bool" where
  "cont_byte b = (128 \<le> b \<and> b < 192)"

definition second_of_three :: "nat \<Rightarrow> nat \<Rightarrow> bool" where
  "second_of_three b c = (cont_byte c \<and> (b = 0xE0 \<longrightarrow> 0xA0 \<le> c) \<and> (b = 0xED \<longrightarrow> c < 0xA0))"

definition second_of_four :: "nat \<Rightarrow> nat \<Rightarrow> bool" where
  "second_of_four b c = (cont_byte c \<and> (b = 0xF0 \<longrightarrow> 0x90 \<le> c) \<and> (b = 0xF4 \<longrightarrow> c < 0x90))"

function utf8_decode :: "nat list \<Rightarrow> codepoints" where
  "utf8_decode [] = []"
| "utf8_decode (b # s) =
     (if b < 128 then b # utf8_decode s
      else if 0xC2 \<le> b \<and> b \<le> 0xDF \<and> s \<noteq> [] \<and> cont_byte (hd s)
      then ((b - 192) * 64 + (hd s - 128)) # utf8_decode (tl s)
      else if 0xE0 \<le> b \<and> b \<le> 0xEF \<and> s \<noteq> [] \<and> second_of_three b (hd s) then
        (if tl s \<noteq> [] \<and> cont_byte (hd (tl s))
         then ((b - 224) * 4096 + (hd s - 128) * 64 + (hd (tl s) - 128)) # utf8_decode (tl (tl s))
         else 0xFFFD # utf8_decode (tl s))
      else if 0xF0 \<le> b \<and> b \<le> 0xF4 \<and> s \<noteq> [] \<and> second_of_four b (hd s) then
        (if tl s \<noteq> [] \<and> cont_byte (hd (tl s)) then
           (if tl (tl s) \<noteq> [] \<and> cont_byte (hd (tl (tl s)))
            then ((b - 240) * 262144 + (hd s - 128) * 4096 + (hd (tl s) - 128) * 64 + (hd (tl (tl s)) - 128))
              # utf8_decode (tl (tl (tl s)))
            else 0xFFFD # utf8_decode (tl (tl s)))
         else 0xFFFD # utf8_decode (tl s))
      else 0xFFFD # utf8_decode s)"
  by pat_completeness auto
termination by (relation "measure length") auto

definition strip_spaces :: "codepoints \<Rightarrow> codepoints" where
  "strip_spaces s = rev (dropWhile unicode_space (rev (dropWhile unicode_space s)))"

definition strip_code :: "nat \<Rightarrow> codepoints \<Rightarrow> codepoints" where
  "strip_code q s = rev (dropWhile (\<lambda>c. c = q) (rev (dropWhile (\<lambda>c. c = q) s)))"

text \<open>\<^verbatim>\<open>str.splitlines\<close>\<close>

definition line_break :: "nat \<Rightarrow> bool" where
  "line_break c = (c \<in> {10, 11, 12, 13, 28, 29, 30, 0x85, 0x2028, 0x2029})"

fun split_lines :: "codepoints \<Rightarrow> codepoints \<Rightarrow> codepoints list" where
  "split_lines cur [] = (if cur = [] then [] else [cur])"
| "split_lines cur (c # s) =
     (if line_break c then cur # split_lines [] (if c = 13 \<and> s \<noteq> [] \<and> hd s = 10 then tl s else s)
      else split_lines (cur @ [c]) s)"

text \<open>The text before and after the first occurrence of \<open>p\<close>.\<close>

fun split_first :: "codepoints \<Rightarrow> codepoints \<Rightarrow> (codepoints \<times> codepoints) option" where
  "split_first p [] = (if p = [] then Some ([], []) else None)"
| "split_first p (c # s) = (if startswith (c # s) p then Some ([], drop (length p) (c # s))
     else map_option (\<lambda>(a, b). (c # a, b)) (split_first p s))"

definition ascii_letter :: "nat \<Rightarrow> bool" where
  "ascii_letter c = ((65 \<le> c \<and> c \<le> 90) \<or> (97 \<le> c \<and> c \<le> 122))"

definition key_code :: "nat \<Rightarrow> bool" where
  "key_code c = (ascii_letter c \<or> (48 \<le> c \<and> c \<le> 57) \<or> c \<in> {95, 45})"

text \<open>A line \<^verbatim>\<open>key: value\<close>, with the key in lower case and the value stripped.\<close>

definition match_field :: "codepoints \<Rightarrow> (string \<times> codepoints) option" where
  "match_field line =
     (let k = takeWhile key_code line; rest = dropWhile key_code line in
      if k \<noteq> [] \<and> ascii_letter (hd k) \<and> rest \<noteq> [] \<and> hd rest = 58
      then Some (map (\<lambda>c. char_of (ascii_lower c)) k, strip_spaces (tl rest)) else None)"

definition indented :: "codepoints \<Rightarrow> bool" where
  "indented line = (line \<noteq> [] \<and> hd line \<in> {32, 9})"

fun join_codes :: "codepoints \<Rightarrow> codepoints list \<Rightarrow> codepoints" where
  "join_codes sep [] = []"
| "join_codes sep [x] = x"
| "join_codes sep (x # xs) = x @ sep @ join_codes sep xs"

function field_lines :: "codepoints list \<Rightarrow> (string \<times> codepoints) list \<Rightarrow> (string \<times> codepoints) list" where
  "field_lines [] acc = acc"
| "field_lines (line # rest) acc =
     (case match_field line of
        None \<Rightarrow> field_lines rest acc
      | Some (k, value) \<Rightarrow>
          if value \<noteq> [] then field_lines rest (dict_set k value acc)
          else field_lines (dropWhile indented rest)
            (dict_set k (strip_code 39 (strip_code 34 (strip_spaces
               (join_codes [32] (map strip_spaces (takeWhile indented rest)))))) acc))"
  by pat_completeness auto
termination by (relation "measure (\<lambda>(ls, _). length ls)") (auto simp: less_Suc_eq_le length_dropWhile_le)

definition frontmatter_fields :: "codepoints \<Rightarrow> (string \<times> codepoints) list" where
  "frontmatter_fields t =
     (if \<not> startswith t (codes ''---'') then []
      else case split_first (codes ''---'') (drop 3 t) of
        None \<Rightarrow> []
      | Some (middle, _) \<Rightarrow> field_lines (split_lines [] middle) [])"

lemma shorter_after_break: "dropWhile P s \<noteq> [] \<Longrightarrow> length (dropWhile P s) - Suc 0 < length s"
  using length_dropWhile_le [of P s] by (cases "dropWhile P s") auto

text \<open>\<^verbatim>\<open>re.search(r"(?m)^#\s+\S", text)\<close>\<close>

function markdown_heading :: "codepoints \<Rightarrow> bool" where
  "markdown_heading s =
     ((s \<noteq> [] \<and> hd s = 35 \<and> tl s \<noteq> [] \<and> unicode_space (hd (tl s)) \<and> dropWhile unicode_space (tl s) \<noteq> [])
      \<or> (if dropWhile (\<lambda>c. c \<noteq> 10) s = [] then False else markdown_heading (tl (dropWhile (\<lambda>c. c \<noteq> 10) s))))"
  by pat_completeness auto
termination by (relation "measure length") (simp_all add: shorter_after_break)

text \<open>\<^verbatim>\<open>Path(p).suffix.lower()\<close>\<close>

definition path_suffix :: "string \<Rightarrow> string" where
  "path_suffix p =
     (let parts = filter (\<lambda>w. w \<notin> {[], ''.''}) (split_on (CHR ''/'') p); name = (if parts = [] then [] else last parts);
          ext = rev (takeWhile (\<lambda>c. c \<noteq> CHR ''.'') (rev name))
      in if CHR ''.'' \<notin> set name \<or> ext = [] \<or> length ext + 1 = length name then [] else py_lower (''.'' @ ext))"

section \<open>Surroundings\<close>

datatype source_file =
    NoFile
  | Unopenable
  | NotRegular
  | Contents "nat list"

record 'k review_env =
  file_at :: "string \<Rightarrow> source_file"
  resolve_path :: "string \<Rightarrow> string"
  parse_json :: "codepoints \<Rightarrow> (nat \<times> nat) + json"
  unicode_tables :: unicode
  key_signer :: "'k signer"
  key_dir :: string

section \<open>Gates\<close>

definition MAX_SOURCE_BYTES :: nat where "MAX_SOURCE_BYTES = 4 * 1024 * 1024"
definition MAX_EVIDENCE_BYTES :: nat where "MAX_EVIDENCE_BYTES = 16 * 1024"
definition MAX_BATCH :: int where "MAX_BATCH = 500"

definition REQUIRED_GATES :: "string list" where
  "REQUIRED_GATES = [''sourceIntegrity'', ''tests'', ''retrievalEvals'', ''signature'', ''provenance'',
     ''promptInjectionScan'', ''riskTierPolicy'']"

record gate =
  g_state :: string
  g_evidence :: payload

type_synonym gates = "(string \<times> gate) list"

definition mk_gate :: "string \<Rightarrow> string \<Rightarrow> string list \<Rightarrow> payload \<Rightarrow> gate" where
  "mk_gate state code warnings details =
     \<lparr>g_state = state, g_evidence = [(''code'', JStr code), (''warnings'', JList (map JStr warnings))] @ details\<rparr>"

definition gate_json :: "gate \<Rightarrow> json" where
  "gate_json g = JObj [(''state'', JStr (g_state g)), (''evidence'', JObj (g_evidence g))]"

definition bounded_evidence :: "json \<Rightarrow> string" where
  "bounded_evidence v =
     (let encoded = canonical_json v in
      if length encoded \<le> MAX_EVIDENCE_BYTES then json_raw v
      else json_raw (JObj [(''truncated'', JBool True), (''encodedBytes'', JInt (int (length encoded))),
        (''sha256'', JStr (hexdigest_bytes encoded))]))"

definition attestation_envelope ::
  "'k review_env \<Rightarrow> capability \<Rightarrow> string \<Rightarrow> json \<Rightarrow> string \<Rightarrow> string \<Rightarrow> json" where
  "attestation_envelope env cap scope target_namespace_id reviewer timestamp =
     JObj [(''schema'', JStr ''https://slsa.dev/provenance/v1''), (''tenantId'', JStr (c_tenant_id cap)),
       (''capabilityUri'', JStr (c_uri cap)), (''canonicalKey'', JStr (c_canonical_key cap)),
       (''contentHash'', JStr (c_content_hash cap)), (''sourceSystem'', JStr (c_source_system cap)),
       (''sourcePath'', JStr (resolve_path env (c_source_path cap))), (''reviewScope'', JStr scope),
       (''targetNamespaceId'', target_namespace_id), (''reviewer'', JStr reviewer), (''timestamp'', JStr timestamp),
       (''assurance'', JStr ''internal-ed25519;not-sigstore-or-transparency-log'')]"

definition source_bytes :: "'k review_env \<Rightarrow> capability \<Rightarrow> nat list option \<times> gate" where
  "source_bytes env cap =
     (let path = resolve_path env (c_source_path cap);
          failed = (\<lambda>code details. (None, mk_gate ''failed'' code [] details)) in
      case file_at env (c_source_path cap) of
        NoFile \<Rightarrow> failed ''source_missing'' [(''path'', JStr path)]
      | Unopenable \<Rightarrow> failed ''source_open_failed'' [(''path'', JStr path)]
      | NotRegular \<Rightarrow> failed ''source_not_regular_file'' [(''path'', JStr path)]
      | Contents content \<Rightarrow>
          if MAX_SOURCE_BYTES < length content
          then failed ''source_too_large'' [(''sizeBytes'', JInt (int (length content))), (''limitBytes'', JInt (int MAX_SOURCE_BYTES))]
          else
            let actual = ''sha256:'' @ hexdigest_bytes content in
            if actual \<noteq> c_content_hash cap
            then failed ''content_hash_mismatch'' [(''expectedHash'', JStr (c_content_hash cap)), (''actualHash'', JStr actual),
              (''sizeBytes'', JInt (int (length content)))]
            else (Some content, mk_gate ''passed'' ''source_hash_verified'' []
              [(''contentHash'', JStr actual), (''sizeBytes'', JInt (int (length content)))]))"

definition blank :: "string \<Rightarrow> bool" where
  "blank s = (py_strip s = [])"

definition missing_fields :: "capability \<Rightarrow> string list" where
  "missing_fields cap = map fst (filter (\<lambda>(_, v). blank v)
     [(''name'', c_name cap), (''title'', c_title cap), (''description'', c_description cap)])"

definition metadata_verdict :: "string list \<Rightarrow> payload \<Rightarrow> gate" where
  "metadata_verdict missing details =
     (if missing \<noteq> []
      then mk_gate ''failed'' ''metadata_invalid'' [] ((''missing'', JList (map JStr (sorted_list_of_set (set missing)))) # details)
      else mk_gate ''passed'' ''metadata_validated_static_only'' [] details)"

definition server_entry :: "json \<Rightarrow> bool" where
  "server_entry v = (case v of
     JObj kvs \<Rightarrow> json_truthy (pget kvs ''command'') \<or> json_truthy (pget kvs ''url'') \<or> json_truthy (pget kvs ''type'')
   | _ \<Rightarrow> False)"

definition json_gate :: "'k review_env \<Rightarrow> capability \<Rightarrow> codepoints \<Rightarrow> payload \<Rightarrow> gate" where
  "json_gate env cap t details =
     (case parse_json env t of
        Inl (line, column) \<Rightarrow>
          mk_gate ''failed'' ''invalid_json'' [] [(''line'', JInt (int line)), (''column'', JInt (int column))]
      | Inr (JObj parsed) \<Rightarrow>
          let plugin_name = (if c_type cap = ''plugin'' \<and> blank (py_str (json_or (pget parsed ''name'') (JStr (c_name cap))))
                then [''plugin.name''] else []);
              connected = (list_ex (\<lambda>k. json_truthy (pget parsed k)) [''mcpServers'', ''command'', ''url'', ''transport'']
                \<or> list_ex (\<lambda>(_, v). server_entry v) parsed);
              connection = (if c_type cap = ''mcp_server'' \<and> \<not> connected then [''mcp_server.connection''] else [])
          in metadata_verdict (missing_fields cap @ plugin_name @ connection) (details @ [(''jsonObject'', JBool True)])
      | Inr _ \<Rightarrow> mk_gate ''failed'' ''json_root_not_object'' [] [])"

definition markdown_gate :: "capability \<Rightarrow> codepoints \<Rightarrow> payload \<Rightarrow> gate" where
  "markdown_gate cap t details =
     (let frontmatter = frontmatter_fields t in
      if frontmatter \<noteq> [] then
        metadata_verdict (missing_fields cap @ (if c_type cap = ''skill'' \<and>
            (case map_of frontmatter ''description'' of None \<Rightarrow> True | Some v \<Rightarrow> v = [])
          then [''frontmatter.description''] else [])) (details @ [(''frontmatter'', JBool True)])
      else metadata_verdict (missing_fields cap @ (if markdown_heading t then [] else [''markdown.heading''])) details)"

definition metadata_gate :: "'k review_env \<Rightarrow> capability \<Rightarrow> nat list \<Rightarrow> gate" where
  "metadata_gate env cap content =
     (let t = utf8_decode content; suffix = path_suffix (c_source_path cap);
          details = [(''type'', JStr (c_type cap)), (''sourceKind'', JStr (c_source_kind cap))] in
      if suffix = ''.json'' then json_gate env cap t details
      else if suffix \<in> {''.md'', ''.mdx''} \<and> c_type cap \<in> {''skill'', ''agent'', ''command''}
      then markdown_gate cap t details
      else metadata_verdict (missing_fields cap) details)"

definition retrieval_gate :: "database \<Rightarrow> capability \<Rightarrow> gate" where
  "retrieval_gate d cap =
     (let source = list_ex (\<lambda>r. cs_uri r = c_uri cap) (capability_sources d);
          fts = list_ex (\<lambda>f. ft_uri f = c_uri cap) (capability_fts d);
          details = [(''sourceIndexed'', JBool source), (''ftsIndexed'', JBool fts)] in
      if \<not> source \<or> \<not> fts then mk_gate ''failed'' ''retrieval_index_incomplete'' [] details
      else mk_gate ''passed'' ''retrieval_index_verified'' [] details)"

definition sorted_texts :: "string list \<Rightarrow> json" where
  "sorted_texts xs = JList (map JStr (sorted_list_of_set (set xs)))"

definition prompt_injection_gate :: "'k review_env \<Rightarrow> capability \<Rightarrow> nat list \<Rightarrow> gate" where
  "prompt_injection_gate env cap content =
     (let scan = scan_prompt_injection (unicode_tables env);
          metadata_text = join_with [CHR 0x0A] [c_name cap, c_title cap, c_description cap];
          hits = (\<lambda>phrases surface. filter_scan_hits phrases (c_name cap) (Some (c_type cap)) (c_plugin cap) surface);
          (meta_blocking, meta_ok) = hits (scan (codes metadata_text)) SURFACE_METADATA;
          (body_blocking, body_ok) = hits (scan (utf8_decode content)) SURFACE_BODY;
          tagged = (\<lambda>meta body. map (\<lambda>h. (h, SURFACE_METADATA)) meta @ map (\<lambda>h. (h, SURFACE_BODY)) body);
          blocking = tagged meta_blocking body_blocking; non_blocking = tagged meta_ok body_ok
      in if blocking \<noteq> [] then
           mk_gate ''failed'' ''prompt_injection_blocked'' []
             [(''blockingPhrases'', sorted_texts (map (h_phrase \<circ> fst) blocking)),
              (''reasons'', sorted_texts (map (reason \<circ> h_result \<circ> fst) blocking)),
              (''blockingSurfaces'', sorted_texts (map snd blocking))]
         else mk_gate ''passed'' ''no_blocking_prompt_injection''
           (map (\<lambda>(h, surface). ''prompt_injection_downgraded:'' @ surface @ '':'' @ h_phrase h) non_blocking)
           [(''hits'', JList (map (\<lambda>(h, surface). JObj [(''phrase'', JStr (h_phrase h)),
              (''severity'', JStr (severity (h_result h))), (''surface'', JStr surface)]) non_blocking))])"

text \<open>\<^verbatim>\<open>_scope_for\<close>: the requested scope, or the kind of the store behind the target namespace.\<close>

definition scope_of_namespace :: "database \<Rightarrow> string \<Rightarrow> string" where
  "scope_of_namespace d nid =
     (case find (\<lambda>n. ns_id n = nid) (namespaces d) of
        None \<Rightarrow> ''private''
      | Some ns \<Rightarrow> (case find (\<lambda>s. st_id s = ns_store ns) (stores d) of
          None \<Rightarrow> ''private''
        | Some st \<Rightarrow> if st_kind st \<in> {''all_users'', ''org''} then st_kind st else ''private''))"

definition scope_for :: "database \<Rightarrow> capability \<Rightarrow> json \<Rightarrow> json \<Rightarrow> py_error + (string \<times> json)" where
  "scope_for d cap target requested =
     (if json_truthy requested then
        (case requested of
           JStr s \<Rightarrow>
             let norm = map (\<lambda>c. if c = CHR ''-'' then CHR ''_'' else c) (py_lower (py_strip s)) in
             if norm \<notin> {''private'', ''org'', ''all_users''}
             then Inl (ValueError ''reviewScope must be private, org, or all_users.'') else Inr (norm, target)
         | _ \<Rightarrow> Inl (AttributeErr ''object has no attribute strip''))
      else
        let namespace_id = json_or target (json_opt (c_namespace_id cap)) in
        if json_truthy namespace_id then
          (case bind_text namespace_id of
             Inl e \<Rightarrow> Inl e
           | Inr None \<Rightarrow> Inr (''private'', namespace_id)
           | Inr (Some nid) \<Rightarrow> Inr (scope_of_namespace d nid, namespace_id))
        else Inr (''private'', namespace_id))"

definition risk_gate :: "capability \<Rightarrow> string \<Rightarrow> bool \<Rightarrow> gate" where
  "risk_gate cap scope approved_exception =
     (let risky = (c_mutating cap \<or> c_risk_tier cap \<in> {''high'', ''critical''}) in
      if scope = ''all_users'' \<and> risky then
        mk_gate ''failed'' ''all_users_risk_policy'' []
          [(''riskTier'', JStr (c_risk_tier cap)), (''mutating'', JBool (c_mutating cap))]
      else if scope = ''org'' \<and> c_risk_tier cap = ''critical'' \<and> \<not> approved_exception then
        mk_gate ''failed'' ''org_critical_requires_exception'' [] [(''riskTier'', JStr (c_risk_tier cap))]
      else mk_gate ''passed'' ''risk_policy_satisfied''
        (if scope = ''private'' \<and> risky then [''private_scope_high_risk_or_mutating''] else [])
        [(''scope'', JStr scope), (''riskTier'', JStr (c_risk_tier cap)), (''mutating'', JBool (c_mutating cap)),
         (''approvedException'', JBool approved_exception)])"

subsection \<open>Provenance\<close>

record provenance_record =
  source_commit :: string
  ingest_hash :: string
  builder_identity :: string
  built_at :: string
  subject_uri :: string

definition PREDICATE_TYPE :: string where
  "PREDICATE_TYPE = ''https://slsa.dev/provenance/v1''"

text \<open>Status, record and reason.\<close>

definition compute_provenance_status ::
  "string \<Rightarrow> string \<Rightarrow> string \<Rightarrow> string \<Rightarrow> string \<Rightarrow> string \<times> provenance_record option \<times> string" where
  "compute_provenance_status content_hash canonical_uri commit_ref builder at =
     (if commit_ref = [] \<or> commit_ref = ''unknown'' then (''skipped'', None, ''source commit unknown'')
      else if content_hash = [] then (''failed'', None, ''capability missing content_hash'')
      else (''passed'', Some \<lparr>source_commit = commit_ref, ingest_hash = content_hash, builder_identity = builder,
              built_at = at, subject_uri = canonical_uri\<rparr>, ''provenance record built''))"

definition to_jsonl_attestation :: "provenance_record \<Rightarrow> string" where
  "to_jsonl_attestation r = json_dumps (JObj
     [(''_type'', JStr ''https://in-toto.io/Statement/v1''), (''predicateType'', JStr PREDICATE_TYPE),
      (''subject'', JList [JObj [(''uri'', JStr (subject_uri r)), (''digest'', JObj [(''sha256'', JStr (ingest_hash r))])]]),
      (''predicate'', JObj [(''builder'', JObj [(''id'', JStr (builder_identity r))]), (''buildType'', JStr ''capmesh-ingest''),
         (''materials'', JList [JObj [(''uri'', JStr (''git+'' @ source_commit r))]]),
         (''startedAt'', JStr (built_at r)), (''finishedAt'', JStr (built_at r))])])"

definition attestation_digest :: "provenance_record \<Rightarrow> string" where
  "attestation_digest r = sha256_hex (to_jsonl_attestation r)"

definition provenance_gate :: "capability \<Rightarrow> string \<Rightarrow> string \<Rightarrow> gate" where
  "provenance_gate cap reviewer at =
     (let explicit = pget (c_metadata cap) ''sourceCommit'';
          commit_ref = (if json_truthy explicit then py_str explicit else c_content_hash cap);
          (status, rec, why) = compute_provenance_status (c_content_hash cap) (c_uri cap) commit_ref reviewer at
      in case rec of
           Some r \<Rightarrow> mk_gate ''passed'' ''provenance_record_built'' []
             [(''reason'', JStr why), (''status'', JStr status), (''sourceCommit'', JStr commit_ref),
              (''builderIdentity'', JStr (builder_identity r)), (''builtAt'', JStr (built_at r)),
              (''predicateType'', JStr PREDICATE_TYPE), (''attestation'', JStr (to_jsonl_attestation r)),
              (''digest'', JStr (attestation_digest r))]
         | None \<Rightarrow> mk_gate status (if status = ''failed'' then ''provenance_unverified'' else ''provenance_skipped'') []
             [(''reason'', JStr why), (''status'', JStr status), (''sourceCommit'', JStr commit_ref)])"

subsection \<open>All gates\<close>

definition content_gates :: "'k review_env \<Rightarrow> capability \<Rightarrow> gates" where
  "content_gates env cap =
     (let (content, integrity) = source_bytes env cap in
      (''sourceIntegrity'', integrity) #
      (case content of
         None \<Rightarrow> map (\<lambda>n. (n, mk_gate ''failed'' ''source_integrity_prerequisite_failed'' [] [])) [''tests'', ''promptInjectionScan'']
       | Some bytes \<Rightarrow> [(''tests'', metadata_gate env cap bytes), (''promptInjectionScan'', prompt_injection_gate env cap bytes)]))"

definition evaluate_gates ::
  "runtime \<Rightarrow> 'k review_env \<Rightarrow> database \<Rightarrow> capability \<Rightarrow> string \<Rightarrow> json \<Rightarrow> string \<Rightarrow> bool \<Rightarrow> gates \<times> payload option" where
  "evaluate_gates rt env d cap scope target reviewer approved_exception =
     (let at = utc_now rt;
          signed = sign_attestation rt (key_dir env) (key_signer env)
            (attestation_envelope env cap scope target reviewer at);
          signature = (case signed of
              Inr _ \<Rightarrow> mk_gate ''passed'' ''ed25519_signature_verified'' [] [(''algorithm'', JStr ''Ed25519'')]
            | Inl e \<Rightarrow> mk_gate ''failed'' ''signature_unavailable'' []
                [(''error'', JStr (error_name e @ '': '' @ take 240 (error_text e)))])
      in (content_gates env cap @
            [(''retrievalEvals'', retrieval_gate d cap), (''riskTierPolicy'', risk_gate cap scope approved_exception),
             (''signature'', signature), (''provenance'', provenance_gate cap reviewer at)],
          case signed of Inr a \<Rightarrow> Some a | Inl _ \<Rightarrow> None))"

definition gate_state :: "gates \<Rightarrow> string \<Rightarrow> string option" where
  "gate_state gs name = map_option g_state (map_of gs name)"

definition all_passed :: "gates \<Rightarrow> bool" where
  "all_passed gs = list_all (\<lambda>name. if name = ''provenance'' then gate_state gs name \<in> {Some ''passed'', Some ''skipped''}
     else gate_state gs name = Some ''passed'') REQUIRED_GATES"

section \<open>Review of one capability\<close>

definition own_tenant :: "principal \<Rightarrow> string" where
  "own_tenant p = (if p_tenant_id p = [] then ''asg'' else p_tenant_id p)"

fun authorize_rights :: "runtime \<Rightarrow> principal \<Rightarrow> string list \<Rightarrow> conn \<Rightarrow> (conn, unit) outcome" where
  "authorize_rights rt p [] con = (Inr (), con)"
| "authorize_rights rt p (right # rest) con =
     (let ((allowed, why), con1) = evaluate_access rt p right None (Some (''tenant:'' @ own_tenant p)) False con in
      if \<not> allowed then (Inl (PermissionError (or_else why (right @ '' right required.''))), con1)
      else authorize_rights rt p rest con1)"

definition authorize :: "runtime \<Rightarrow> principal \<Rightarrow> conn \<Rightarrow> (conn, unit) outcome" where
  "authorize rt p con = authorize_rights rt p [''manage'', ''approve''] con"

text \<open>\<^verbatim>\<open>index._capguard_is_held\<close> and \<^verbatim>\<open>index.get_capability\<close>; rows that tie in the ordering come in table order.\<close>

definition capguard_is_held :: "database \<Rightarrow> capability \<Rightarrow> bool" where
  "capguard_is_held d cap = list_ex (\<lambda>q. qt_tenant q = (if c_tenant_id cap = [] then ''asg'' else c_tenant_id cap)
     \<and> qt_capability_uri q = c_uri cap \<and> qt_content_hash q = c_content_hash cap \<and> qt_status q = ''quarantined'')
     (capguard_quarantine d)"

definition get_capability :: "database \<Rightarrow> string \<Rightarrow> capability option" where
  "get_capability d key =
     (let named = (\<lambda>c. c_name c = key \<or> c_title c = key);
          row = (case find (\<lambda>c. c_uri c = key) (capabilities d) of
              Some c \<Rightarrow> Some c
            | None \<Rightarrow> (case find (\<lambda>c. named c \<and> c_source_system c = ''asg-os.plugins'') (capabilities d) of
                Some c \<Rightarrow> Some c
              | None \<Rightarrow> find named (capabilities d)))
      in case row of
           None \<Rightarrow> None
         | Some r \<Rightarrow> let cap = capability_from_row r in if capguard_is_held d cap then None else Some cap)"

record review_result =
  rr_uri :: string
  rr_content_hash :: string
  rr_scope :: string
  rr_dry_run :: bool
  rr_passed :: bool
  rr_gates :: gates
  rr_approved :: bool
  rr_idempotent :: bool

definition gates_json :: "gates \<Rightarrow> json" where
  "gates_json gs = JObj (map (\<lambda>(n, g). (n, gate_json g)) gs)"

definition same_review :: "capability \<Rightarrow> string \<Rightarrow> review_row \<Rightarrow> bool" where
  "same_review cap scope r = (rv_tenant r = c_tenant_id cap \<and> rv_capability_uri r = c_uri cap
     \<and> rv_content_hash r = c_content_hash cap \<and> rv_scope r = scope)"

definition approve_columns :: "capability \<Rightarrow> capability" where
  "approve_columns c = c\<lparr>c_approval_state := ''approved'', c_lifecycle := ''published'', c_signature_status := ''verified'',
     c_provenance_status := ''verified'', c_risk_review_status := ''approved''\<rparr>"

text \<open>The writes of an approving review: the review row unless there is one for this content and
  scope, the columns of the capability if it still has the reviewed content, and the audit event.\<close>

definition record_review ::
  "runtime \<Rightarrow> principal \<Rightarrow> capability \<Rightarrow> string \<Rightarrow> gates \<Rightarrow> payload \<Rightarrow> bool \<Rightarrow> conn \<Rightarrow> bool \<times> conn" where
  "record_review rt p cap scope gs att approved_exception con =
     (let existing = list_ex (same_review cap scope) (capability_reviews (db con));
          (rid, con1) = new_id rt ''crv'' con;
          row = \<lparr>rv_id = rid, rv_tenant = c_tenant_id cap, rv_capability_uri = c_uri cap,
            rv_content_hash = c_content_hash cap, rv_scope = scope, rv_gate_state = ''passed'',
            rv_evidence = bounded_evidence (gates_json gs), rv_reviewer = p_subject p, rv_reviewed_at = utc_now rt,
            rv_attestation = att\<rparr>;
          con2 = with_db (\<lambda>d. d\<lparr>capability_reviews := (if existing then capability_reviews d else capability_reviews d @ [row]),
            capabilities := update_where (\<lambda>c. c_uri c = c_uri cap \<and> c_content_hash c = c_content_hash cap)
              approve_columns (capabilities d)\<rparr>) con1
      in (existing, snd (audit_event rt ''capability.review.approved'' (p_subject p) (Some (c_uri cap)) (Some ''review'')
            (Some ''allow'') None [(''contentHash'', JStr (c_content_hash cap)), (''reviewScope'', JStr scope),
              (''idempotent'', JBool existing), (''approvedRiskException'', JBool approved_exception)]
            (c_tenant_id cap) ''user'' con2)))"

definition identifier_of :: "payload \<Rightarrow> string" where
  "identifier_of payload = py_strip (py_str (json_or (json_or (pget payload ''capabilityUri'') (pget payload ''uri'')) (JStr [])))"

definition dry_run_of :: "payload \<Rightarrow> bool" where
  "dry_run_of payload = (case map_of payload ''dryRun'' of None \<Rightarrow> True | Some v \<Rightarrow> json_truthy v)"

definition review_found ::
  "runtime \<Rightarrow> 'k review_env \<Rightarrow> principal \<Rightarrow> payload \<Rightarrow> bool \<Rightarrow> capability \<Rightarrow> conn \<Rightarrow> (conn, review_result) outcome" where
  "review_found rt env p payload do_commit cap con =
     and_then (lift_result (scope_for (db con) cap (pget payload ''targetNamespaceId'') (pget payload ''reviewScope'')) con)
       (\<lambda>(scope, namespace_id) con1.
        let dry_run = dry_run_of payload; exc = json_truthy (pget payload ''approvedRiskException'');
            (gs, att) = evaluate_gates rt env (db con1) cap scope namespace_id (p_subject p) exc;
            passed = all_passed gs;
            result = \<lparr>rr_uri = c_uri cap, rr_content_hash = c_content_hash cap, rr_scope = scope, rr_dry_run = dry_run,
              rr_passed = passed, rr_gates = gs, rr_approved = False, rr_idempotent = False\<rparr>
        in if dry_run \<or> \<not> passed then (Inr result, con1)
           else
             let (existing, con2) = record_review rt p cap scope gs (the att) exc con1 in
             (Inr (result\<lparr>rr_approved := True, rr_idempotent := existing\<rparr>), commit_if do_commit con2))"

definition review_capability ::
  "runtime \<Rightarrow> 'k review_env \<Rightarrow> principal \<Rightarrow> payload \<Rightarrow> bool \<Rightarrow> conn \<Rightarrow> (conn, review_result) outcome" where
  "review_capability rt env p payload do_commit con =
     and_then (authorize rt p con) (\<lambda>_ con1.
       if identifier_of payload = [] then (Inl (ValueError ''capabilityUri is required.''), con1)
       else case get_capability (db con1) (identifier_of payload) of
           None \<Rightarrow> (Inl (ValueError ''Capability not found in the current tenant.''), con1)
         | Some cap \<Rightarrow>
             if c_tenant_id cap \<noteq> own_tenant p
             then (Inl (ValueError ''Capability not found in the current tenant.''), con1)
             else review_found rt env p payload do_commit cap con1)"

section \<open>Batches\<close>

record batch_item =
  bi_uri :: string
  bi_result :: "review_result option"
  bi_error :: "string option"

definition item_passed :: "batch_item \<Rightarrow> bool" where
  "item_passed i = (case bi_result i of None \<Rightarrow> False | Some r \<Rightarrow> rr_passed r)"

definition item_approved :: "batch_item \<Rightarrow> bool" where
  "item_approved i = (case bi_result i of None \<Rightarrow> False | Some r \<Rightarrow> rr_approved r)"

record batch_result =
  br_dry_run :: bool
  br_include_approved :: bool
  br_limit :: int
  br_items :: "batch_item list"
  br_processed :: nat
  br_passed :: nat
  br_approved :: nat
  br_failed :: nat
  br_next_after_uri :: "string option"

definition reviewable :: "string \<Rightarrow> bool \<Rightarrow> string \<Rightarrow> capability \<Rightarrow> bool" where
  "reviewable tenant include_approved after_uri c = (c_tenant_id c = tenant \<and> c_source_kind c \<noteq> ''system_capability''
     \<and> after_uri < c_uri c \<and> (if include_approved
        then c_approval_state c \<in> {''approved'', ''draft'', ''pending''}
          \<and> (c_approval_state c \<noteq> ''approved'' \<or> c_signature_status c \<noteq> ''verified''
             \<or> c_provenance_status c \<noteq> ''verified'' \<or> c_risk_review_status c \<noteq> ''approved'')
        else c_approval_state c \<in> {''draft'', ''pending''}))"

definition batch_rows :: "database \<Rightarrow> string \<Rightarrow> bool \<Rightarrow> string \<Rightarrow> nat \<Rightarrow> string list" where
  "batch_rows d tenant include_approved after_uri n =
     take n (map c_uri (order_by c_uri (filter (reviewable tenant include_approved after_uri) (capabilities d))))"

text \<open>Each item is reviewed under a savepoint, to which an exception rolls back.\<close>

definition review_item ::
  "runtime \<Rightarrow> 'k review_env \<Rightarrow> principal \<Rightarrow> payload \<Rightarrow> bool \<Rightarrow> string \<Rightarrow> conn \<Rightarrow> batch_item \<times> conn" where
  "review_item rt env p payload dry_run uri con =
     (case review_capability rt env p (dict_set ''dryRun'' (JBool dry_run) (dict_set ''capabilityUri'' (JStr uri) payload)) False con of
        (Inr r, con1) \<Rightarrow> (\<lparr>bi_uri = rr_uri r, bi_result = Some r, bi_error = None\<rparr>, con1)
      | (Inl e, con1) \<Rightarrow>
          (\<lparr>bi_uri = uri, bi_result = None, bi_error = Some (error_name e @ '': '' @ take 300 (error_text e))\<rparr>,
           if dry_run then con1 else con1\<lparr>db := db con\<rparr>))"

fun review_items ::
  "runtime \<Rightarrow> 'k review_env \<Rightarrow> principal \<Rightarrow> payload \<Rightarrow> bool \<Rightarrow> string list \<Rightarrow> conn \<Rightarrow> batch_item list \<times> conn" where
  "review_items rt env p payload dry_run [] con = ([], con)"
| "review_items rt env p payload dry_run (uri # uris) con =
     (let (item, con1) = review_item rt env p payload dry_run uri con;
          (items, con2) = review_items rt env p payload dry_run uris con1
      in (item # items, con2))"

definition batch_summary :: "bool \<Rightarrow> bool \<Rightarrow> int \<Rightarrow> string list \<Rightarrow> batch_item list \<Rightarrow> batch_result" where
  "batch_summary dry_run include_approved limit rows items =
     \<lparr>br_dry_run = dry_run, br_include_approved = include_approved, br_limit = limit, br_items = items,
       br_processed = length items, br_passed = length (filter item_passed items),
       br_approved = length (filter item_approved items), br_failed = length (filter (\<lambda>i. \<not> item_passed i) items),
       br_next_after_uri = (if nat limit < length rows then Some (rows ! (nat limit - 1)) else None)\<rparr>"

definition review_batch ::
  "runtime \<Rightarrow> 'k review_env \<Rightarrow> principal \<Rightarrow> payload \<Rightarrow> bool \<Rightarrow> conn \<Rightarrow> (conn, batch_result) outcome" where
  "review_batch rt env p payload do_commit con =
     and_then (authorize rt p con) (\<lambda>_ con1.
       case (case map_of payload ''limit'' of None \<Rightarrow> Some 100 | Some v \<Rightarrow> py_int v) of
         None \<Rightarrow> (Inl (ValueError ''limit must be an integer between 1 and 500.''), con1)
       | Some limit \<Rightarrow>
           if limit < 1 \<or> MAX_BATCH < limit then (Inl (ValueError ''limit must be between 1 and 500.''), con1)
           else
             let dry_run = dry_run_of payload; include_approved = json_truthy (pget payload ''includeApproved'');
                 rows = batch_rows (db con1) (own_tenant p) include_approved (str_or payload ''afterUri'' []) (nat limit + 1);
                 (items, con2) = review_items rt env p payload dry_run (take (nat limit) rows) con1
             in (Inr (batch_summary dry_run include_approved limit rows items),
                 commit_if (\<not> dry_run \<and> do_commit) con2))"

section \<open>The whole catalog\<close>

definition page_payload :: "string \<Rightarrow> payload" where
  "page_payload after_uri = [(''dryRun'', JBool False), (''includeApproved'', JBool True),
     (''afterUri'', JStr after_uri), (''limit'', JInt MAX_BATCH)]"

record totals =
  tt_processed :: nat
  tt_passed :: nat
  tt_approved :: nat
  tt_failed :: nat
  tt_failures :: "batch_item list"

definition add_page :: "batch_result \<Rightarrow> totals \<Rightarrow> totals" where
  "add_page page t = \<lparr>tt_processed = tt_processed t + br_processed page, tt_passed = tt_passed t + br_passed page,
     tt_approved = tt_approved t + br_approved page, tt_failed = tt_failed t + br_failed page,
     tt_failures = tt_failures t @ filter (\<lambda>i. \<not> item_passed i) (br_items page)\<rparr>"

subsection \<open>Reviewing changes no address\<close>

abbreviation uris :: "conn \<Rightarrow> string list" where
  "uris con \<equiv> map c_uri (capabilities (db con))"

lemma authorize_db [simp]: "db (snd (authorize_rights rt p rights con)) = db con"
  by (induction rights arbitrary: con) (simp_all add: Let_def case_prod_unfold)

lemma authorize_frame [simp]: "db (snd (authorize rt p con)) = db con" "durable (snd (authorize rt p con)) = durable con"
proof -
  show "db (snd (authorize rt p con)) = db con" by (simp only: authorize_def authorize_db)
  have "durable (snd (authorize_rights rt p rights con)) = durable con" for rights
    by (induction rights arbitrary: con) (simp_all add: Let_def case_prod_unfold)
  then show "durable (snd (authorize rt p con)) = durable con" by (simp only: authorize_def)
qed

lemma record_review_uris: "uris (snd (record_review rt p cap scope gs att exc con)) = uris con"
  by (simp add: record_review_def Let_def case_prod_unfold map_update_where_frame approve_columns_def)

lemma review_found_uris: "uris (snd (review_found rt env p payload cm cap con)) = uris con"
  by (cases "scope_for (db con) cap (pget payload ''targetNamespaceId'') (pget payload ''reviewScope'')")
    (simp_all add: review_found_def lift_result_def Let_def case_prod_unfold record_review_uris)

text \<open>A review is refused without a change of any table, or it finds its capability.\<close>

lemma review_capability_cases:
  obtains (refused) e con1 where "review_capability rt env p payload cm con = (Inl e, con1)" "db con1 = db con" "durable con1 = durable con"
  | (found) cap con1 where "review_capability rt env p payload cm con = review_found rt env p payload cm cap con1"
    "authorize rt p con = (Inr (), con1)" "db con1 = db con" "durable con1 = durable con" "get_capability (db con) (identifier_of payload) = Some cap"
    "c_tenant_id cap = own_tenant p"
proof -
  obtain a con1 where a: "authorize rt p con = (a, con1)" by fastforce
  have con1: "db con1 = db con" "durable con1 = durable con" using authorize_frame [of rt p con] by (simp_all add: a)
  consider e where "a = Inl e" | "a = Inr ()" by (cases a) auto
  then show ?thesis
  proof cases
    case 1
    with a con1 show ?thesis by (intro refused [of e con1]) (simp_all add: review_capability_def)
  next
    case 2
    have r: "review_capability rt env p payload cm con = (if identifier_of payload = [] then (Inl (ValueError ''capabilityUri is required.''), con1)
        else case get_capability (db con) (identifier_of payload) of
          None \<Rightarrow> (Inl (ValueError ''Capability not found in the current tenant.''), con1)
        | Some cap \<Rightarrow> if c_tenant_id cap \<noteq> own_tenant p
            then (Inl (ValueError ''Capability not found in the current tenant.''), con1)
            else review_found rt env p payload cm cap con1)"
      using a 2 con1 by (simp add: review_capability_def)
    show ?thesis
    proof (cases "identifier_of payload = [] \<or> get_capability (db con) (identifier_of payload) = None
        \<or> c_tenant_id (the (get_capability (db con) (identifier_of payload))) \<noteq> own_tenant p")
      case True
      then obtain e where "review_capability rt env p payload cm con = (Inl e, con1)"
        unfolding r by (cases "identifier_of payload = []"; cases "get_capability (db con) (identifier_of payload)") auto
      with con1 show ?thesis by (rule_tac refused)
    next
      case False
      then obtain cap where "get_capability (db con) (identifier_of payload) = Some cap" by auto
      with False a 2 con1 r show ?thesis by (intro found [of cap con1]) simp_all
    qed
  qed
qed

lemma review_capability_uris: "uris (snd (review_capability rt env p payload cm con)) = uris con"
  by (rule review_capability_cases [of rt env p payload cm con]) (simp_all add: review_found_uris)

lemma review_item_uris: "uris (snd (review_item rt env p payload dry uri con)) = uris con"
  using review_capability_uris [of rt env p _ False con]
  by (simp add: review_item_def split: prod.split sum.split) (metis snd_conv)

lemma review_items_uris: "uris (snd (review_items rt env p payload dry us con)) = uris con"
  by (induction us arbitrary: con) (simp_all add: Let_def case_prod_unfold review_item_uris)

subsection \<open>The loop over the pages\<close>

text \<open>A page that has a successor ends at an address above the cursor that is in the catalog, so the
  number of addresses above the cursor falls with every page.\<close>

definition addresses_above :: "string \<Rightarrow> conn \<Rightarrow> nat" where
  "addresses_above after_uri con = card {u \<in> set (uris con). after_uri < u}"

lemma review_batch_pageE:
  assumes "review_batch rt env p (page_payload after_uri) False con = (Inr page, con')"
  obtains con1 items where "db con1 = db con" "durable con1 = durable con"
    "review_items rt env p (page_payload after_uri) False (take 500 (batch_rows (db con) (own_tenant p) True after_uri 501)) con1
       = (items, con')"
    "page = batch_summary False True 500 (batch_rows (db con) (own_tenant p) True after_uri 501) items"
proof -
  obtain a con1 where a: "authorize rt p con = (a, con1)" by fastforce
  with assms have "a = Inr ()" by (cases a) (auto simp: review_batch_def)
  have con1: "db con1 = db con" "durable con1 = durable con" using authorize_frame [of rt p con] by (simp_all add: a)
  have payload: "map_of (page_payload after_uri) ''limit'' = Some (JInt 500)" "dry_run_of (page_payload after_uri) = False"
    "json_truthy (pget (page_payload after_uri) ''includeApproved'')" "str_or (page_payload after_uri) ''afterUri'' [] = after_uri"
    by (auto simp: page_payload_def dry_run_of_def json_truthy_def pget_def MAX_BATCH_def str_or_def json_or_def py_str_def)
  obtain items con2 where "review_items rt env p (page_payload after_uri) False
      (take 500 (batch_rows (db con) (own_tenant p) True after_uri 501)) con1 = (items, con2)" by fastforce
  with assms con1 show thesis
    by (intro that [of con1 items]) (auto simp: review_batch_def a \<open>a = Inr ()\<close> payload py_int_def MAX_BATCH_def commit_if_def Let_def)
qed

lemma review_batch_page:
  assumes "review_batch rt env p (page_payload after_uri) False con = (Inr page, con')"
  shows "uris con' = uris con"
    "br_next_after_uri page = Some cursor \<Longrightarrow> cursor \<in> set (uris con) \<and> after_uri < cursor"
proof -
  let ?rows = "batch_rows (db con) (own_tenant p) True after_uri 501"
  obtain con1 items where c: "db con1 = db con" "durable con1 = durable con"
    "review_items rt env p (page_payload after_uri) False (take 500 ?rows) con1 = (items, con')"
    "page = batch_summary False True 500 ?rows items" by (rule review_batch_pageE [OF assms])
  from c(1,3) review_items_uris [of rt env p "page_payload after_uri" False "take 500 ?rows" con1]
  show "uris con' = uris con" by simp
  have rows: "set ?rows \<subseteq> {u \<in> set (uris con). after_uri < u}"
    unfolding batch_rows_def by (auto simp: reviewable_def dest!: in_set_takeD)
  assume "br_next_after_uri page = Some cursor"
  then have "500 < length ?rows" "cursor = ?rows ! 499" by (auto simp: c(4) batch_summary_def split: if_splits)
  then have "cursor \<in> set ?rows" by simp
  then show "cursor \<in> set (uris con) \<and> after_uri < cursor" using rows by blast
qed

lemma addresses_above_decreases:
  assumes "review_batch rt env p (page_payload after_uri) False con = (Inr page, con')"
    and "br_next_after_uri page = Some cursor"
  shows "addresses_above cursor con' < addresses_above after_uri con"
proof -
  note c = review_batch_page [OF assms(1)]
  have "{u \<in> set (uris con'). cursor < u} \<subset> {u \<in> set (uris con). after_uri < u}"
    using c(2) [OF assms(2)] unfolding c(1) by (auto dest: less_trans)
  then show ?thesis unfolding addresses_above_def by (intro psubset_card_mono) auto
qed

function approve_pages ::
  "runtime \<Rightarrow> 'k review_env \<Rightarrow> principal \<Rightarrow> string \<Rightarrow> totals \<Rightarrow> conn \<Rightarrow> (conn, totals) outcome" where
  "approve_pages rt env p after_uri t con =
     (case review_batch rt env p (page_payload after_uri) False con of
        (Inl e, con1) \<Rightarrow> (Inl e, con1)
      | (Inr page, con1) \<Rightarrow>
          (case br_next_after_uri page of
             None \<Rightarrow> (Inr (add_page page t), con1)
           | Some cursor \<Rightarrow>
               if cursor = [] then (Inr (add_page page t), con1)
               else approve_pages rt env p cursor (add_page page t) con1))"
  by pat_completeness auto
termination
  by (relation "measure (\<lambda>(_, _, _, after_uri, _, con). addresses_above after_uri con)")
    (auto intro: addresses_above_decreases [OF sym])

declare approve_pages.simps [simp del]

record catalog_result =
  ct_totals :: totals
  ct_remaining :: nat
  ct_approved :: bool
  ct_failures :: "batch_item list"
  ct_truncated :: bool

definition compliant :: "capability \<Rightarrow> bool" where
  "compliant c = (c_approval_state c = ''approved'' \<and> c_lifecycle c = ''published'' \<and> c_signature_status c = ''verified''
     \<and> c_provenance_status c = ''verified'' \<and> c_risk_review_status c = ''approved'')"

definition remaining_noncompliant :: "database \<Rightarrow> string \<Rightarrow> nat" where
  "remaining_noncompliant d tenant =
     rowcount (\<lambda>c. c_tenant_id c = tenant \<and> c_source_kind c \<noteq> ''system_capability'' \<and> \<not> compliant c) (capabilities d)"

definition no_totals :: totals where
  "no_totals = \<lparr>tt_processed = 0, tt_passed = 0, tt_approved = 0, tt_failed = 0, tt_failures = []\<rparr>"

definition approve_catalog ::
  "runtime \<Rightarrow> 'k review_env \<Rightarrow> principal \<Rightarrow> bool \<Rightarrow> conn \<Rightarrow> (conn, catalog_result) outcome" where
  "approve_catalog rt env p do_commit con =
     and_then (authorize rt p con) (\<lambda>_ con1.
       and_then (approve_pages rt env p [] no_totals con1) (\<lambda>t con2.
         let remaining = remaining_noncompliant (db con2) (own_tenant p);
             approved = (tt_failed t = 0 \<and> remaining = 0);
             con3 = (if do_commit then if approved then commit con2 else rollback con2 else con2)
         in (Inr \<lparr>ct_totals = t, ct_remaining = remaining_noncompliant (db con3) (own_tenant p), ct_approved = approved,
               ct_failures = take 100 (tt_failures t), ct_truncated = (100 < length (tt_failures t))\<rparr>, con3)))"

section \<open>Gates of a promotion request\<close>

record gate_run =
  gu_request :: string
  gu_uri :: string
  gu_content_hash :: string
  gu_scope :: string
  gu_passed :: bool
  gu_gates :: gates

definition same_run :: "string \<Rightarrow> string \<Rightarrow> string \<Rightarrow> gate_run_row \<Rightarrow> bool" where
  "same_run request_id name content_hash r =
     (gr_request r = request_id \<and> gr_gate_name r = name \<and> gr_content_hash r = content_hash)"

text \<open>INSERT ... ON CONFLICT(request_id, gate_name, content_hash) DO UPDATE, one row per gate.\<close>

fun record_gate_runs ::
  "runtime \<Rightarrow> string \<Rightarrow> string \<Rightarrow> string \<Rightarrow> payload option \<Rightarrow> gates \<Rightarrow> conn \<Rightarrow> conn" where
  "record_gate_runs rt request_id content_hash runner att [] con = con"
| "record_gate_runs rt request_id content_hash runner att ((name, g) # gs) con =
     (let (rid, con1) = new_id rt ''pgr'' con;
          run_at = (if att = None then [] else utc_now rt);
          row = \<lparr>gr_id = rid, gr_request = request_id, gr_gate_name = name, gr_content_hash = content_hash,
            gr_state = g_state g, gr_evidence = bounded_evidence (JObj (g_evidence g)), gr_runner = runner,
            gr_run_at = run_at, gr_attestation = (case att of None \<Rightarrow> [] | Some a \<Rightarrow> a)\<rparr>;
          same = same_run request_id name content_hash
      in record_gate_runs rt request_id content_hash runner att gs (with_db (\<lambda>d. d\<lparr>promotion_gate_runs :=
           (if list_ex same (promotion_gate_runs d)
            then update_where same (\<lambda>r. row\<lparr>gr_id := gr_id r\<rparr>) (promotion_gate_runs d)
            else promotion_gate_runs d @ [row])\<rparr>) con1))"

definition verify_columns :: "capability \<Rightarrow> capability" where
  "verify_columns c = c\<lparr>c_signature_status := ''verified'', c_provenance_status := ''verified'', c_risk_review_status := ''approved''\<rparr>"

definition states_of :: "gates \<Rightarrow> (string \<times> string) list" where
  "states_of gs = map (\<lambda>(n, g). (n, g_state g)) gs"

definition record_promotion_gates ::
  "runtime \<Rightarrow> principal \<Rightarrow> string \<Rightarrow> capability \<Rightarrow> string \<Rightarrow> bool \<Rightarrow> gates \<Rightarrow> payload option \<Rightarrow> conn \<Rightarrow> (conn, gate_run) outcome" where
  "record_promotion_gates rt p request_id cap scope exc gs att con =
     (let passed = all_passed gs;
          con1 = record_gate_runs rt request_id (c_content_hash cap) (p_subject p) att gs con;
          con2 = with_db (\<lambda>d. d\<lparr>
            promotion_requests := update_where (\<lambda>r. pr_id r = request_id) (pr_gates_update (\<lambda>_. GatesObject (states_of gs)))
              (promotion_requests d),
            capabilities := (if passed then update_where
                (\<lambda>c. c_uri c = c_uri cap \<and> c_content_hash c = c_content_hash cap) verify_columns (capabilities d)
              else capabilities d)\<rparr>) con1;
          con3 = snd (audit_event rt ''promotion.gates.completed'' (p_subject p) (Some request_id) (Some ''promotion.run'')
            (Some (if passed then ''allow'' else ''deny'')) None
            [(''capabilityUri'', JStr (c_uri cap)), (''contentHash'', JStr (c_content_hash cap)),
             (''gates'', JObj (map (\<lambda>(n, st). (n, JStr st)) (states_of gs))), (''approvedRiskException'', JBool exc)]
            (c_tenant_id cap) ''user'' con2)
      in (Inr \<lparr>gu_request = request_id, gu_uri = c_uri cap, gu_content_hash = c_content_hash cap, gu_scope = scope,
            gu_passed = passed, gu_gates = gs\<rparr>, commit con3))"

definition run_promotion_gates ::
  "runtime \<Rightarrow> 'k review_env \<Rightarrow> principal \<Rightarrow> payload \<Rightarrow> conn \<Rightarrow> (conn, gate_run) outcome" where
  "run_promotion_gates rt env p payload con =
     and_then (authorize rt p con) (\<lambda>_ con1.
       let request_id = py_strip (py_str (json_or (json_or (pget payload ''requestId'') (pget payload ''id'')) (JStr []))) in
       if request_id = [] then (Inl (ValueError ''requestId is required.''), con1)
       else case find (\<lambda>r. pr_id r = request_id \<and> pr_tenant r = own_tenant p) (promotion_requests (db con1)) of
           None \<Rightarrow> (Inl (ValueError ''Promotion request not found.''), con1)
         | Some row \<Rightarrow>
             if pr_state row \<noteq> ''pending'' then (Inl (ValueError ''Only pending promotion requests can run gates.''), con1)
             else (case get_capability (db con1) (pr_capability_uri row) of
               None \<Rightarrow> (Inl (ValueError ''Promotion source capability not found.''), con1)
             | Some cap \<Rightarrow>
                 and_then (lift_result (scope_for (db con1) cap
                     (if pr_target_namespace row = [] then JNull else JStr (pr_target_namespace row)) JNull) con1)
                   (\<lambda>(scope, namespace_id) con1.
                     let exc = json_truthy (pget payload ''approvedRiskException'');
                         (gs, att) = evaluate_gates rt env (db con1) cap scope namespace_id (p_subject p) exc
                     in record_promotion_gates rt p request_id cap scope exc gs att con1)))"

section \<open>Status and verification\<close>

definition review_json :: "'k review_env \<Rightarrow> string option \<Rightarrow> string option \<Rightarrow> review_row \<Rightarrow> py_error + json" where
  "review_json env trusted current r =
     (case parse_json env (codes (rv_evidence r)) of
        Inl _ \<Rightarrow> Inl (ValueError ''evidence is not JSON'')
      | Inr ev \<Rightarrow> Inr (JObj [(''contentHash'', JStr (rv_content_hash r)), (''reviewScope'', JStr (rv_scope r)),
          (''state'', JStr (rv_gate_state r)), (''reviewer'', JStr (rv_reviewer r)), (''reviewedAt'', JStr (rv_reviewed_at r)),
          (''evidence'', ev), (''attestationVerified'', JBool (truthy trusted \<and> verify_attestation (key_signer env) (rv_attestation r) trusted)),
          (''stale'', JBool (current \<noteq> Some (rv_content_hash r)))]))"

definition run_json :: "'k review_env \<Rightarrow> string option \<Rightarrow> gate_run_row \<Rightarrow> py_error + json" where
  "run_json env trusted r =
     (case parse_json env (codes (gr_evidence r)) of
        Inl _ \<Rightarrow> Inl (ValueError ''evidence is not JSON'')
      | Inr ev \<Rightarrow> Inr (JObj [(''gate'', JStr (gr_gate_name r)), (''contentHash'', JStr (gr_content_hash r)),
          (''state'', JStr (gr_state r)), (''runner'', JStr (gr_runner r)), (''runAt'', JStr (gr_run_at r)), (''evidence'', ev),
          (''attestationVerified'', JBool (truthy trusted \<and> verify_attestation (key_signer env) (gr_attestation r) trusted))]))"

fun collect :: "('a \<Rightarrow> py_error + 'b) \<Rightarrow> 'a list \<Rightarrow> py_error + 'b list" where
  "collect f [] = Inr []"
| "collect f (x # xs) = (case f x of Inl e \<Rightarrow> Inl e | Inr y \<Rightarrow> (case collect f xs of Inl e \<Rightarrow> Inl e | Inr ys \<Rightarrow> Inr (y # ys)))"

definition count_states :: "database \<Rightarrow> string \<Rightarrow> json" where
  "count_states d tenant =
     (let states = map c_approval_state (filter (\<lambda>c. c_tenant_id c = tenant) (capabilities d)) in
      JObj (map (\<lambda>st. (st, JInt (int (count_list states st)))) (sorted_list_of_set (set states))))"

definition status_fields :: "'k review_env \<Rightarrow> string option \<Rightarrow> database \<Rightarrow> string \<Rightarrow> string \<Rightarrow> string \<Rightarrow> py_error + payload" where
  "status_fields env trusted d tenant uri request_id =
     (let current = map_option c_content_hash (find (\<lambda>c. c_tenant_id c = tenant \<and> c_uri c = uri) (capabilities d));
          reviews = take 20 (order_by_desc rv_reviewed_at (filter (\<lambda>r. rv_tenant r = tenant \<and> rv_capability_uri r = uri)
            (capability_reviews d)));
          runs = take 100 (order_by_desc gr_run_at (order_by gr_gate_name (filter (\<lambda>r. gr_request r = request_id)
            (promotion_gate_runs d))))
      in case (if uri = [] then Inr [] else collect (review_json env trusted current) reviews,
               if request_id = [] then Inr [] else collect (run_json env trusted) runs) of
           (Inl e, _) \<Rightarrow> Inl e
         | (Inr _, Inl e) \<Rightarrow> Inl e
         | (Inr rs, Inr gs) \<Rightarrow> Inr (
             (if uri = [] then [] else [(''capabilityUri'', JStr uri), (''reviews'', JList rs)])
             @ (if request_id = [] then [] else [(''requestId'', JStr request_id), (''promotionGates'', JList gs)])
             @ (if uri = [] \<and> request_id = [] then [(''counts'', count_states d tenant)] else [])))"

definition gate_status :: "runtime \<Rightarrow> 'k review_env \<Rightarrow> principal \<Rightarrow> payload \<Rightarrow> conn \<Rightarrow> (conn, payload) outcome" where
  "gate_status rt env p payload con =
     and_then (authorize rt p con) (\<lambda>_ con1.
       let trusted = (case trusted_signing_key_id rt (key_dir env) (key_signer env) of Inl _ \<Rightarrow> None | Inr k \<Rightarrow> Some k)
       in (status_fields env trusted (db con1) (own_tenant p) (identifier_of payload)
             (py_strip (str_or payload ''requestId'' [])), con1))"

record verification_result =
  vr_processed :: nat
  vr_warnings :: nat
  vr_failures :: "(string \<times> string list) list"

definition warning_count :: "gate \<Rightarrow> nat" where
  "warning_count g = (case map_of (g_evidence g) ''warnings'' of Some (JList ws) \<Rightarrow> length ws | _ \<Rightarrow> 0)"

fun verify_uris ::
  "runtime \<Rightarrow> 'k review_env \<Rightarrow> principal \<Rightarrow> string list \<Rightarrow> verification_result \<Rightarrow> conn \<Rightarrow> (conn, verification_result) outcome" where
  "verify_uris rt env p [] v con = (Inr v, con)"
| "verify_uris rt env p (uri # rest) v con =
     and_then (review_capability rt env p [(''capabilityUri'', JStr uri), (''dryRun'', JBool True)] False con) (\<lambda>r con1.
       verify_uris rt env p rest (v\<lparr>vr_processed := Suc (vr_processed v),
         vr_warnings := vr_warnings v + sum_list (map (\<lambda>(_, g). warning_count g) (rr_gates r)),
         vr_failures := vr_failures v @ (if rr_passed r then [] else
           [(rr_uri r, sorted_list_of_set (set (map fst (filter (\<lambda>(_, g). g_state g \<noteq> ''passed'') (rr_gates r)))))])\<rparr>) con1)"

definition verify_catalog ::
  "runtime \<Rightarrow> 'k review_env \<Rightarrow> principal \<Rightarrow> payload \<Rightarrow> conn \<Rightarrow> (conn, verification_result) outcome" where
  "verify_catalog rt env p options con =
     and_then (authorize rt p con) (\<lambda>_ con1.
       case (case map_of options ''maxCapabilities'' of None \<Rightarrow> Some 10000 | Some v \<Rightarrow> py_int v) of
         None \<Rightarrow> (Inl (ValueError ''maxCapabilities must be an integer between 1 and 10000.''), con1)
       | Some maximum \<Rightarrow>
           if maximum < 1 \<or> 10000 < maximum then (Inl (ValueError ''maxCapabilities must be between 1 and 10000.''), con1)
           else
             let rows = take (nat maximum + 1) (map c_uri (order_by c_uri (filter (\<lambda>c. c_tenant_id c = own_tenant p
                   \<and> c_source_kind c \<noteq> ''system_capability'') (capabilities (db con1))))) in
             if nat maximum < length rows
             then (Inl (ValueError (''Catalog contains more than maxCapabilities='' @ str_of_int maximum
               @ ''; increase the explicit bound.'')), con1)
             else verify_uris rt env p rows \<lparr>vr_processed = 0, vr_warnings = 0, vr_failures = []\<rparr> con1)"

datatype gate_reply =
    Reviewed review_result
  | BatchReviewed batch_result
  | GatesRun gate_run
  | GateStatus payload
  | CatalogVerified verification_result

definition map_reply :: "('a \<Rightarrow> 'b) \<Rightarrow> (conn, 'a) outcome \<Rightarrow> (conn, 'b) outcome" where
  "map_reply f r = and_then r (\<lambda>x con. (Inr (f x), con))"

definition dispatch_gate_action ::
  "runtime \<Rightarrow> 'k review_env \<Rightarrow> principal \<Rightarrow> payload \<Rightarrow> conn \<Rightarrow> (conn, gate_reply) outcome" where
  "dispatch_gate_action rt env p payload con =
     (let action = py_lower (py_strip (str_or payload ''action'' ''status'')) in
      if action = ''review'' then map_reply Reviewed (review_capability rt env p payload True con)
      else if action = ''review-batch'' then map_reply BatchReviewed (review_batch rt env p payload True con)
      else if action = ''promotion.run'' then map_reply GatesRun (run_promotion_gates rt env p payload con)
      else if action = ''status'' then map_reply GateStatus (gate_status rt env p payload con)
      else if action = ''verify-catalog'' then map_reply CatalogVerified (verify_catalog rt env p payload con)
      else (Inl (ValueError ''system.gates action must be review, review-batch, promotion.run, status, or verify-catalog.''), con))"

section \<open>What passing means\<close>

lemma mk_gate_state [simp]: "g_state (mk_gate st code ws ds) = st"
  by (simp add: mk_gate_def)

lemma source_bytes_passed:
  "source_bytes env cap = (content, g) \<Longrightarrow> g_state g = ''passed'' \<Longrightarrow>
     \<exists>bytes. content = Some bytes \<and> file_at env (c_source_path cap) = Contents bytes
       \<and> length bytes \<le> MAX_SOURCE_BYTES \<and> ''sha256:'' @ hexdigest_bytes bytes = c_content_hash cap"
  by (auto simp: source_bytes_def Let_def split: source_file.splits if_splits)

lemma retrieval_passed:
  "g_state (retrieval_gate d cap) = ''passed'' \<longleftrightarrow>
     list_ex (\<lambda>r. cs_uri r = c_uri cap) (capability_sources d) \<and> list_ex (\<lambda>f. ft_uri f = c_uri cap) (capability_fts d)"
  by (auto simp: retrieval_gate_def Let_def list_ex_iff)

lemma risk_passed:
  "g_state (risk_gate cap scope exc) = ''passed'' \<longleftrightarrow>
     \<not> (scope = ''all_users'' \<and> (c_mutating cap \<or> c_risk_tier cap \<in> {''high'', ''critical''}))
     \<and> \<not> (scope = ''org'' \<and> c_risk_tier cap = ''critical'' \<and> \<not> exc)"
  by (auto simp: risk_gate_def Let_def)

text \<open>The body of a capability and its catalog text, scanned for blocking phrases.\<close>

definition blocking_phrases :: "unicode \<Rightarrow> capability \<Rightarrow> nat list \<Rightarrow> string list" where
  "blocking_phrases u cap bytes =
     filter (\<lambda>p. p \<notin> set ALLOWED_PHRASES \<and> \<not> (is_security_domain_plugin (c_plugin cap) \<and> p \<in> set SECURITY_DOMAIN_VOCABULARY))
       (scan_prompt_injection u (codes (join_with [CHR 0x0A] [c_name cap, c_title cap, c_description cap])))
     @ filter (\<lambda>p. p \<notin> set ALLOWED_PHRASES \<and> \<not> is_security_domain_plugin (c_plugin cap))
         (scan_prompt_injection u (utf8_decode bytes))"

lemma scan_lower: "p \<in> set (scan_prompt_injection u t) \<Longrightarrow> py_lower p = p"
  by (simp add: scan_reads_compact lower_phrase)

lemma blocking_hits:
  "fst (filter_scan_hits (scan_prompt_injection u t) name kind plugin surface) = [] \<longleftrightarrow>
     filter (\<lambda>p. p \<notin> set ALLOWED_PHRASES \<and> \<not> (is_security_domain_plugin plugin
       \<and> (p \<in> set SECURITY_DOMAIN_VOCABULARY \<or> surface = SURFACE_BODY))) (scan_prompt_injection u t) = []"
  by (auto simp: filter_scan_hits_def Let_def filter_empty_conv classify_blocks_iff scan_lower)

lemma injection_passed:
  "g_state (prompt_injection_gate env cap bytes) = ''passed'' \<longleftrightarrow> blocking_phrases (unicode_tables env) cap bytes = []"
proof -
  let ?scan = "scan_prompt_injection (unicode_tables env)"
  let ?hits = "\<lambda>t surface. fst (filter_scan_hits (?scan t) (c_name cap) (Some (c_type cap)) (c_plugin cap) surface)"
  have "g_state (prompt_injection_gate env cap bytes) = ''passed'' \<longleftrightarrow>
      ?hits (codes (join_with [CHR 0x0A] [c_name cap, c_title cap, c_description cap])) SURFACE_METADATA = []
      \<and> ?hits (utf8_decode bytes) SURFACE_BODY = []"
    unfolding prompt_injection_gate_def Let_def case_prod_unfold
    by (simp only: mk_gate_state if_distrib [of g_state] split: if_split) auto
  then show ?thesis
    unfolding blocking_hits by (simp add: blocking_phrases_def SURFACE_METADATA_def SURFACE_BODY_def)
qed

lemma evaluate_gates_states:
  fixes rt env d cap scope tgt who exc
  defines "gs \<equiv> fst (evaluate_gates rt env d cap scope tgt who exc)"
  shows "gate_state gs ''sourceIntegrity'' = Some (g_state (snd (source_bytes env cap)))"
    "gate_state gs ''retrievalEvals'' = Some (g_state (retrieval_gate d cap))"
    "gate_state gs ''riskTierPolicy'' = Some (g_state (risk_gate cap scope exc))"
    "gate_state gs ''tests'' = Some (case fst (source_bytes env cap) of None \<Rightarrow> ''failed'' | Some b \<Rightarrow> g_state (metadata_gate env cap b))"
    "gate_state gs ''promptInjectionScan'' =
       Some (case fst (source_bytes env cap) of None \<Rightarrow> ''failed'' | Some b \<Rightarrow> g_state (prompt_injection_gate env cap b))"
    "gate_state gs ''signature'' = Some (case sign_attestation rt (key_dir env) (key_signer env)
       (attestation_envelope env cap scope tgt who (utc_now rt)) of Inl _ \<Rightarrow> ''failed'' | Inr _ \<Rightarrow> ''passed'')"
    "gate_state gs ''provenance'' = Some (g_state (provenance_gate cap who (utc_now rt)))"
  by (auto simp: gs_def evaluate_gates_def content_gates_def gate_state_def Let_def case_prod_unfold
      split: option.split sum.split)

text \<open>What an approval rests on.\<close>

definition review_evidence :: "'k review_env \<Rightarrow> database \<Rightarrow> capability \<Rightarrow> string \<Rightarrow> bool \<Rightarrow> bool" where
  "review_evidence env d cap scope exc =
     ((case file_at env (c_source_path cap) of
        Contents bytes \<Rightarrow> length bytes \<le> MAX_SOURCE_BYTES \<and> ''sha256:'' @ hexdigest_bytes bytes = c_content_hash cap
          \<and> blocking_phrases (unicode_tables env) cap bytes = [] \<and> g_state (metadata_gate env cap bytes) = ''passed''
      | _ \<Rightarrow> False)
     \<and> list_ex (\<lambda>r. cs_uri r = c_uri cap) (capability_sources d) \<and> list_ex (\<lambda>f. ft_uri f = c_uri cap) (capability_fts d)
     \<and> \<not> (scope = ''all_users'' \<and> (c_mutating cap \<or> c_risk_tier cap \<in> {''high'', ''critical''}))
     \<and> \<not> (scope = ''org'' \<and> c_risk_tier cap = ''critical'' \<and> \<not> exc))"

lemma all_passed_evidence:
  assumes "all_passed (fst (evaluate_gates rt env d cap scope tgt who exc))"
  shows "review_evidence env d cap scope exc"
proof -
  let ?gs = "fst (evaluate_gates rt env d cap scope tgt who exc)"
  have pass: "gate_state ?gs name = Some ''passed''"
    if "name \<in> {''sourceIntegrity'', ''tests'', ''retrievalEvals'', ''promptInjectionScan'', ''riskTierPolicy''}" for name
    using assms that by (auto simp: all_passed_def REQUIRED_GATES_def)
  obtain content g where sb: "source_bytes env cap = (content, g)" by fastforce
  have "g_state g = ''passed''" using pass [of "''sourceIntegrity''"] by (simp add: evaluate_gates_states sb)
  then obtain bytes where b: "content = Some bytes" "file_at env (c_source_path cap) = Contents bytes"
    "length bytes \<le> MAX_SOURCE_BYTES" "''sha256:'' @ hexdigest_bytes bytes = c_content_hash cap"
    using source_bytes_passed [OF sb] by blast
  have "g_state (metadata_gate env cap bytes) = ''passed''" "g_state (prompt_injection_gate env cap bytes) = ''passed''"
    "g_state (retrieval_gate d cap) = ''passed''" "g_state (risk_gate cap scope exc) = ''passed''"
    using pass [of "''tests''"] pass [of "''promptInjectionScan''"] pass [of "''retrievalEvals''"] pass [of "''riskTierPolicy''"]
    by (simp_all add: evaluate_gates_states sb b(1))
  then show ?thesis
    using b by (simp add: review_evidence_def injection_passed retrieval_passed risk_passed)
qed

lemma authorize_allowed:
  assumes "authorize rt p con = (Inr (), con1)" "cache_coherent (db con) (org_cache con)"
  shows "access_allowed rt (db con) p ''manage'' None (Some (''tenant:'' @ own_tenant p))"
    "access_allowed rt (db con) p ''approve'' None (Some (''tenant:'' @ own_tenant p))"
proof -
  let ?ev = "\<lambda>right. evaluate_access rt p right None (Some (''tenant:'' @ own_tenant p)) False"
  let ?con1 = "snd (?ev ''manage'' con)"
  have both: "fst (fst (?ev ''manage'' con))" "fst (fst (?ev ''approve'' ?con1))"
    using assms(1) unfolding authorize_def authorize_rights.simps Let_def case_prod_unfold
    by (simp_all split: if_splits)
  from both(1) show "access_allowed rt (db con) p ''manage'' None (Some (''tenant:'' @ own_tenant p))"
    by (simp only: evaluate_access_allowed(1) [OF assms(2)])
  have "cache_coherent (db ?con1) (org_cache ?con1)" by (rule evaluate_access_coherent [OF assms(2)])
  from both(2) evaluate_access_allowed(1) [OF this]
  show "access_allowed rt (db con) p ''approve'' None (Some (''tenant:'' @ own_tenant p))"
    by (simp only: evaluate_access_unaudited)
qed

lemma record_review_effect:
  fixes rt p cap scope gs att exc con
  defines "con' \<equiv> snd (record_review rt p cap scope gs att exc con)"
  shows "capabilities (db con') = update_where (\<lambda>c. c_uri c = c_uri cap \<and> c_content_hash c = c_content_hash cap)
      approve_columns (capabilities (db con))"
    "list_ex (same_review cap scope) (capability_reviews (db con'))" "durable con' = durable con"
  by (auto simp: con'_def record_review_def same_review_def Let_def case_prod_unfold list_ex_iff)

lemma review_found_effect:
  assumes "review_found rt env p payload cm cap con = (Inr r, con')"
  shows "rr_uri r = c_uri cap" "if rr_approved r
      then review_evidence env (db con) cap (rr_scope r) (json_truthy (pget payload ''approvedRiskException''))
        \<and> capabilities (db con') = update_where (\<lambda>c. c_uri c = c_uri cap \<and> c_content_hash c = c_content_hash cap)
            approve_columns (capabilities (db con))
        \<and> list_ex (same_review cap (rr_scope r)) (capability_reviews (db con'))
      else db con' = db con"
proof -
  obtain scope nid where sc: "scope_for (db con) cap (pget payload ''targetNamespaceId'') (pget payload ''reviewScope'') = Inr (scope, nid)"
    using assms by (cases "scope_for (db con) cap (pget payload ''targetNamespaceId'') (pget payload ''reviewScope'')")
      (auto simp: review_found_def lift_result_def)
  let ?exc = "json_truthy (pget payload ''approvedRiskException'')"
  let ?gs = "fst (evaluate_gates rt env (db con) cap scope nid (p_subject p) ?exc)"
  note d = assms [unfolded review_found_def sc lift_result_Inr prod.case Let_def case_prod_unfold]
  show "rr_uri r = c_uri cap" using d by (auto split: if_splits)
  show "if rr_approved r
      then review_evidence env (db con) cap (rr_scope r) ?exc
        \<and> capabilities (db con') = update_where (\<lambda>c. c_uri c = c_uri cap \<and> c_content_hash c = c_content_hash cap)
            approve_columns (capabilities (db con))
        \<and> list_ex (same_review cap (rr_scope r)) (capability_reviews (db con'))
      else db con' = db con"
  proof (cases "dry_run_of payload \<or> \<not> all_passed ?gs")
    case True
    with d show ?thesis by auto
  next
    case False
    with d have "all_passed ?gs" "rr_approved r" "rr_scope r = scope"
      "db con' = db (snd (record_review rt p cap scope ?gs (the (snd (evaluate_gates rt env (db con) cap scope nid (p_subject p) ?exc))) ?exc con))"
      by auto
    then show ?thesis using all_passed_evidence record_review_effect by simp
  qed
qed

text \<open>The converse of \<^verbatim>\<open>authorize_allowed\<close>, and an administrator to whom it applies.\<close>

lemma authorize_ok:
  assumes "cache_coherent (db con) (org_cache con)"
    and "access_allowed rt (db con) p ''manage'' None (Some (''tenant:'' @ own_tenant p))"
    and "access_allowed rt (db con) p ''approve'' None (Some (''tenant:'' @ own_tenant p))"
  shows "\<exists>con1. authorize rt p con = (Inr (), con1)"
proof -
  let ?ev = "\<lambda>right. evaluate_access rt p right None (Some (''tenant:'' @ own_tenant p)) False"
  let ?con1 = "snd (?ev ''manage'' con)"
  have m: "fst (fst (?ev ''manage'' con))" by (simp only: evaluate_access_allowed(1) [OF assms(1)] assms(2))
  have "cache_coherent (db ?con1) (org_cache ?con1)" by (rule evaluate_access_coherent [OF assms(1)])
  from evaluate_access_allowed(1) [OF this] assms(3)
  have "fst (fst (?ev ''approve'' ?con1))" by (simp only: evaluate_access_unaudited)
  with m show ?thesis
    unfolding authorize_def authorize_rights.simps Let_def case_prod_unfold by (simp only: if_True not_True_eq_False if_False) blast
qed

definition sample_reviewer :: principal where
  "sample_reviewer = sample_principal\<lparr>p_roles := [''platform_admin''], p_step_up_authenticated := True\<rparr>"

lemma authorize_coherent:
  assumes "cache_coherent (db con) (org_cache con)"
  shows "cache_coherent (db (snd (authorize rt p con))) (org_cache (snd (authorize rt p con)))"
proof -
  have "cache_coherent (db (snd (authorize_rights rt p rights con))) (org_cache (snd (authorize_rights rt p rights con)))" for rights
    using assms
  proof (induction rights arbitrary: con)
    case (Cons right rights)
    let ?con1 = "snd (evaluate_access rt p right None (Some (''tenant:'' @ own_tenant p)) False con)"
    have c: "cache_coherent (db ?con1) (org_cache ?con1)" by (rule evaluate_access_coherent [OF Cons.prems])
    from c Cons.IH [OF c] show ?case by (simp add: Let_def case_prod_unfold)
  qed simp
  then show ?thesis by (simp only: authorize_def)
qed

lemma sample_reviewer_authorized:
  assumes "identities (db con) = []" "relationship_tuples (db con) = []" "cache_coherent (db con) (org_cache con)"
  shows "\<exists>con1. authorize sample_runtime sample_reviewer con = (Inr (), con1)"
proof -
  have free: "\<not> guard_denies sample_runtime (db con) sample_reviewer right None res" for right res
    using assms by (intro unguardedI)
      (simp_all add: sample_reviewer_def sample_principal_def capability_blocked_def production_environment_def
        sample_runtime_def py_strip_def py_lstrip_def py_rstrip_def py_lower_def)
  show ?thesis
    by (rule authorize_ok [OF assms(3)]) (auto simp: sample_reviewer_def RIGHTS_def
        intro!: global_admin_allowed free [unfolded sample_reviewer_def])
qed

section \<open>Properties\<close>

text \<open>C7. A review approves only what its evidence supports: when review_capability answers approved, the
  caller may manage and approve in the tenant, the file of the capability has the recorded hash and at
  most 4 MiB, neither its text nor its catalog entry has a blocking phrase, its metadata is valid, it is
  indexed, and the risk policy of the scope holds; the row with that content becomes approved,
  published and verified, and a review row for it exists. Every other answer leaves the tables as
  they were.\<close>

theorem review_approves_only_with_evidence:
  assumes "review_capability rt env p payload cm con = (Inr r, con')"
    and "cache_coherent (db con) (org_cache con)"
  shows "if rr_approved r then (\<exists>cap. get_capability (db con) (identifier_of payload) = Some cap \<and> rr_uri r = c_uri cap
        \<and> access_allowed rt (db con) p ''manage'' None (Some (''tenant:'' @ own_tenant p))
        \<and> access_allowed rt (db con) p ''approve'' None (Some (''tenant:'' @ own_tenant p))
        \<and> review_evidence env (db con) cap (rr_scope r) (json_truthy (pget payload ''approvedRiskException''))
        \<and> capabilities (db con') = update_where (\<lambda>c. c_uri c = c_uri cap \<and> c_content_hash c = c_content_hash cap)
            approve_columns (capabilities (db con))
        \<and> list_ex (same_review cap (rr_scope r)) (capability_reviews (db con')))
    else db con' = db con"
proof (rule review_capability_cases [of rt env p payload cm con])
  fix cap con1
  assume f: "review_capability rt env p payload cm con = review_found rt env p payload cm cap con1"
    "authorize rt p con = (Inr (), con1)" "db con1 = db con"
    "get_capability (db con) (identifier_of payload) = Some cap"
  have "review_found rt env p payload cm cap con1 = (Inr r, con')" using assms(1) f(1) by simp
  from review_found_effect [OF this, unfolded f(3)] authorize_allowed [OF f(2) assms(2)] f(4) show ?thesis by simp
qed (use assms(1) in simp)

definition open_world :: "unit review_env" where
  "open_world = \<lparr>file_at = (\<lambda>_. Contents []), resolve_path = (\<lambda>s. s), parse_json = (\<lambda>_. Inl (1, 1)),
     unicode_tables = plain_unicode, key_signer = sample_signer, key_dir = ''/s''\<rparr>"

definition empty_skill :: capability where
  "empty_skill = sample_capability\<lparr>c_content_hash := ''sha256:'' @ hexdigest_bytes [], c_approval_state := ''draft''\<rparr>"

abbreviation skill_database :: database where
  "skill_database \<equiv> empty_database\<lparr>capabilities := [empty_skill], capability_fts := [\<lparr>ft_row_id = c_row_id sample_capability, ft_uri = c_uri sample_capability,
       ft_name = ''s'', ft_title = ''S'', ft_description = ''a skill'', ft_keywords = [], ft_plugin = ''p'', ft_category = [],
       ft_content = ''s''\<rparr>],
     capability_sources := [\<lparr>cs_source_path = ''/s'', cs_uri = c_uri sample_capability, cs_source_kind = ''skill'',
       cs_source_system = ''asg-os.plugins'', cs_content_hash = ''sha256:0''\<rparr>]\<rparr>"

lemma sample_signs: "\<exists>a. sign_attestation sample_runtime ''/s'' sample_signer e = Inr a"
proof -
  have ok: "signer_ok sample_signer" by (simp add: signer_ok_def sample_signer_def list_all_iff)
  have "load_or_create_signing_key sample_runtime ''/s'' sample_signer = Inr ()"
    by (simp add: load_or_create_signing_key_def signing_key_path_def sample_runtime_def sample_signer_def
        production_environment_def py_strip_def py_lstrip_def py_rstrip_def py_lower_def)
  then show ?thesis by (simp add: sign_attestation_def verify_own_attestation [OF ok] Let_def)
qed

lemma empty_skill_scan: "blocking_phrases plain_unicode empty_skill [] = []"
proof -
  let ?t = "''s'' @ [CHR 0x0A] @ ''S'' @ [CHR 0x0A] @ ''a skill''"
  have "list_all plain_code (codes ?t)" by (simp add: codes_def plain_code_def)
  note n = compact_normalized [OF plain_unicode_ok this]
  have n': "compact (normalized plain_unicode []) = seen []" by (rule compact_normalized [OF plain_unicode_ok]) simp
  have seen: "seen (codes ?t) = codes ''ssaskill''" "seen [] = codes []"
    by (simp_all add: seen_def codes_def ZERO_WIDTH_def unicode_space_def ascii_lower_def fold_homoglyph_def HOMOGLYPHS_def)
  have "filter (\<lambda>p. substring_in (codes (despaced p)) (codes ''ssaskill'')) INJECTION_PHRASES = []"
    "filter (\<lambda>p. substring_in (codes (despaced p)) (codes [])) INJECTION_PHRASES = []"
    unfolding substring_in_codes by code_simp+
  then have "scan_prompt_injection plain_unicode (codes ?t) = []" "scan_prompt_injection plain_unicode [] = []"
    unfolding scan_reads_compact n n' seen .
  then show ?thesis by (simp add: blocking_phrases_def empty_skill_def sample_capability_def)
qed

lemma empty_skill_passes: "all_passed (fst (evaluate_gates sample_runtime open_world skill_database empty_skill ''private'' tgt who exc))"
proof -
  have src: "source_bytes open_world empty_skill = (Some [], mk_gate ''passed'' ''source_hash_verified'' []
      [(''contentHash'', JStr (c_content_hash empty_skill)), (''sizeBytes'', JInt 0)])"
    by (simp add: source_bytes_def open_world_def empty_skill_def MAX_SOURCE_BYTES_def Let_def)
  have meta: "g_state (metadata_gate open_world empty_skill []) = ''passed''"
    by (simp add: metadata_gate_def path_suffix_def empty_skill_def sample_capability_def metadata_verdict_def
        missing_fields_def blank_def py_strip_def py_lstrip_def py_rstrip_def py_isspace_def Let_def)
  have scan: "g_state (prompt_injection_gate open_world empty_skill []) = ''passed''"
    by (simp add: injection_passed open_world_def empty_skill_scan)
  have retr: "g_state (retrieval_gate skill_database empty_skill) = ''passed''"
    by (simp add: retrieval_passed empty_skill_def)
  have risk: "g_state (risk_gate empty_skill ''private'' exc) = ''passed''" by (simp add: risk_passed)
  have prov: "g_state (provenance_gate empty_skill who at) = ''passed''" for at
    by (simp add: provenance_gate_def compute_provenance_status_def empty_skill_def sample_capability_def pget_def
        json_truthy_def Let_def)
  obtain a where "sign_attestation sample_runtime (key_dir open_world) (key_signer open_world)
      (attestation_envelope open_world empty_skill ''private'' tgt who (utc_now sample_runtime)) = Inr a"
    using sample_signs by (auto simp: open_world_def)
  then show ?thesis
    by (simp add: all_passed_def REQUIRED_GATES_def evaluate_gates_states src meta scan retr risk prov)
qed

theorem review_approves_only_with_evidence_witness:
  "\<exists>r con'. review_capability sample_runtime open_world sample_reviewer
        [(''capabilityUri'', JStr (c_uri sample_capability)), (''dryRun'', JBool False)] True (sample_conn skill_database) = (Inr r, con')
      \<and> rr_approved r \<and> map c_approval_state (capabilities (db con')) = [''approved'']"
proof -
  let ?pl = "[(''capabilityUri'', JStr (c_uri sample_capability)), (''dryRun'', JBool False)]"
  let ?con = "sample_conn skill_database"
  have coh: "cache_coherent (db ?con) (org_cache ?con)" by (simp add: sample_conn_def)
  obtain con1 where a: "authorize sample_runtime sample_reviewer ?con = (Inr (), con1)"
    using sample_reviewer_authorized [OF _ _ coh] by (auto simp: sample_conn_def empty_database_def)
  then have con1: "db con1 = skill_database" using authorize_frame(1) [of sample_runtime sample_reviewer ?con] by (simp add: sample_conn_def)
  have id: "identifier_of ?pl = c_uri sample_capability"
    by (simp add: identifier_of_def pget_def json_or_def json_truthy_def py_str_def sample_capability_def
        py_strip_def py_lstrip_def py_rstrip_def py_isspace_def)
  have get: "get_capability skill_database (c_uri sample_capability) = Some empty_skill"
    by (simp add: get_capability_def capguard_is_held_def capability_from_row_def empty_skill_def sample_capability_def
        empty_database_def DISCOVERY_MODES_def VISIBILITIES_def CAPABILITY_TYPES_def RISK_TIERS_def Let_def)
  have scope: "scope_for skill_database empty_skill (pget ?pl ''targetNamespaceId'') (pget ?pl ''reviewScope'')
      = Inr (''private'', JStr ''ns_all'')"
    by (simp add: scope_for_def pget_def json_truthy_def json_or_def json_opt_def bind_text_def scope_of_namespace_def
        empty_skill_def sample_capability_def empty_database_def Let_def)
  have "c_uri sample_capability \<noteq> []" "c_tenant_id empty_skill = own_tenant sample_reviewer" "\<not> dry_run_of ?pl"
    by (simp_all add: sample_capability_def empty_skill_def own_tenant_def sample_reviewer_def sample_principal_def
        dry_run_of_def json_truthy_def)
  then obtain r con' where r: "review_capability sample_runtime open_world sample_reviewer ?pl True ?con = (Inr r, con')" "rr_approved r"
    using empty_skill_passes
    by (simp add: review_capability_def a id con1 get review_found_def scope Let_def case_prod_unfold)
  from review_approves_only_with_evidence [OF r(1) coh] r(2) id
  obtain cap where "get_capability (db ?con) (c_uri sample_capability) = Some cap"
    "capabilities (db con') = update_where (\<lambda>c. c_uri c = c_uri cap \<and> c_content_hash c = c_content_hash cap)
       approve_columns (capabilities (db ?con))" by auto
  then have "map c_approval_state (capabilities (db con')) = [''approved'']"
    using get by (simp add: sample_conn_def update_where_Cons approve_columns_def)
  with r show ?thesis by (intro exI conjI)
qed

subsection \<open>The catalog review is atomic\<close>

lemma review_capability_durable:
  "durable (snd (review_capability rt env p payload False con)) = durable con"
proof (rule review_capability_cases [of rt env p payload False con])
  fix cap con1
  assume f: "review_capability rt env p payload False con = review_found rt env p payload False cap con1" "durable con1 = durable con"
  then show ?thesis
    by (cases "scope_for (db con1) cap (pget payload ''targetNamespaceId'') (pget payload ''reviewScope'')")
      (simp_all add: review_found_def lift_result_def commit_if_def Let_def case_prod_unfold record_review_effect)
qed simp

lemma review_item_durable: "durable (snd (review_item rt env p payload dry uri con)) = durable con"
proof -
  obtain res con1 where r: "review_capability rt env p (dict_set ''dryRun'' (JBool dry)
      (dict_set ''capabilityUri'' (JStr uri) payload)) False con = (res, con1)" by fastforce
  then have "durable con1 = durable con" using review_capability_durable by (metis snd_conv)
  with r show ?thesis by (cases res) (simp_all add: review_item_def)
qed

lemma review_items_durable: "durable (snd (review_items rt env p payload dry us con)) = durable con"
  by (induction us arbitrary: con) (simp_all add: Let_def case_prod_unfold review_item_durable)

lemma review_batch_frame:
  "durable (snd (review_batch rt env p payload False con)) = durable con"
  "uris (snd (review_batch rt env p payload False con)) = uris con"
proof -
  obtain a con1 where a: "authorize rt p con = (a, con1)" by fastforce
  then have c: "durable con1 = durable con" "db con1 = db con" using authorize_frame [of rt p con] by simp_all
  show "durable (snd (review_batch rt env p payload False con)) = durable con"
    by (cases a) (auto simp: review_batch_def a c commit_if_def Let_def case_prod_unfold review_items_durable split: option.split)
  show "uris (snd (review_batch rt env p payload False con)) = uris con"
    using review_items_uris [of rt env p payload _ _ con1]
    by (cases a) (auto simp: review_batch_def a c commit_if_def Let_def case_prod_unfold split: option.split)
qed

lemma approve_pages_frame:
  "durable (snd (approve_pages rt env p after_uri t con)) = durable con
   \<and> uris (snd (approve_pages rt env p after_uri t con)) = uris con"
proof (induction rt env p after_uri t con rule: approve_pages.induct)
  case (1 rt env p after_uri t con)
  obtain b con1 where b: "review_batch rt env p (page_payload after_uri) False con = (b, con1)" by fastforce
  have d: "durable con1 = durable con" "uris con1 = uris con"
    using review_batch_frame [of rt env p "page_payload after_uri" con] by (simp_all add: b)
  show ?case
  proof (cases b)
    case (Inl e)
    with d b show ?thesis by (subst (1 2) approve_pages.simps) simp
  next
    case (Inr page)
    show ?thesis
    proof (cases "br_next_after_uri page")
      case None
      with b Inr d show ?thesis by (subst (1 2) approve_pages.simps) simp
    next
      case (Some cursor)
      show ?thesis
      proof (cases "cursor = []")
        case True
        with b Inr d Some show ?thesis by (subst (1 2) approve_pages.simps) simp
      next
        case False
        from 1 [OF b [symmetric] Inr Some False] d
        show ?thesis using b Inr Some False by (subst (1 2) approve_pages.simps) simp
      qed
    qed
  qed
qed

text \<open>C13. Approving the catalog is all or nothing: approve_catalog with a commit either makes the result
  durable, with every gate passed and no capability of the tenant left non-compliant, or, when it
  answers not approved or raises, leaves the durable database as it was; an answer also rolls the
  connection back. It never changes the addresses of the catalog.\<close>

theorem approve_catalog_atomic:
  fixes rt :: runtime and env :: "'k review_env" and p :: principal and con :: conn
  defines "con' \<equiv> snd (approve_catalog rt env p True con)"
  shows "case fst (approve_catalog rt env p True con) of
      Inl e \<Rightarrow> durable con' = durable con
    | Inr r \<Rightarrow> if ct_approved r
        then durable con' = db con' \<and> uris con' = uris con \<and> tt_failed (ct_totals r) = 0
          \<and> remaining_noncompliant (durable con') (own_tenant p) = 0
        else db con' = durable con \<and> durable con' = durable con"
proof -
  obtain a con1 where a: "authorize rt p con = (a, con1)" by fastforce
  then have c1: "durable con1 = durable con" "db con1 = db con" using authorize_frame [of rt p con] by simp_all
  obtain t con2 where t: "approve_pages rt env p [] no_totals con1 = (t, con2)" by fastforce
  have c2: "durable con2 = durable con" "uris con2 = uris con"
    using approve_pages_frame [of rt env p "[]" no_totals con1] c1 by (simp_all add: t)
  show ?thesis
    by (cases a; cases t) (auto simp: con'_def approve_catalog_def a t c1 c2 Let_def rollback_def)
qed

subsection \<open>The pages cover the catalog once\<close>

lemma filter_above_nth:
  fixes L :: "'a::linorder list"
  assumes "sorted L" "distinct L" "n < length L"
  shows "filter (\<lambda>u. L ! n < u) L = drop (Suc n) L"
proof -
  have "\<forall>u \<in> set (take (Suc n) L). \<not> L ! n < u"
    using assms by (auto simp: in_set_conv_nth not_less intro!: sorted_nth_mono)
  moreover have "\<forall>u \<in> set (drop (Suc n) L). L ! n < u"
  proof
    fix u assume "u \<in> set (drop (Suc n) L)"
    then obtain k where k: "k < length L - Suc n" "u = L ! (Suc n + k)" by (auto simp: in_set_conv_nth)
    then have "L ! n \<le> u" "L ! n \<noteq> u" using assms by (auto intro!: sorted_nth_mono simp: nth_eq_iff_index_eq)
    then show "L ! n < u" by simp
  qed
  ultimately have "filter (\<lambda>u. L ! n < u) (take (Suc n) L @ drop (Suc n) L) = drop (Suc n) L"
    by (simp only: filter_append) (simp add: filter_empty_conv filter_id_conv)
  then show ?thesis by simp
qed

definition plain_address :: "string \<Rightarrow> bool" where
  "plain_address u = (u \<noteq> [] \<and> py_strip u = u)"

lemma get_capability_address:
  assumes "uri \<in> set (uris con)" "get_capability (db con) uri = Some cap"
  shows "c_uri cap = uri"
proof -
  obtain r where r: "find (\<lambda>c. c_uri c = uri) (capabilities (db con)) = Some r"
    using assms(1) find_is_Some_iff [of "\<lambda>c. c_uri c = uri" "capabilities (db con)"] by auto
  then have "c_uri r = uri" by (auto dest: find_SomeD)
  with assms(2) r show ?thesis by (auto simp: get_capability_def Let_def split: if_splits)
qed

lemma review_item_local:
  assumes "uri \<in> set (uris con)" "plain_address uri"
  shows "filter (\<lambda>c. c_uri c \<noteq> uri) (capabilities (db (snd (review_item rt env p payload False uri con))))
    = filter (\<lambda>c. c_uri c \<noteq> uri) (capabilities (db con))"
proof -
  let ?pl = "dict_set ''dryRun'' (JBool False) (dict_set ''capabilityUri'' (JStr uri) payload)"
  have id: "identifier_of ?pl = uri"
    using assms(2) by (simp add: identifier_of_def pget_def map_of_dict_set json_or_def json_truthy_def py_str_def plain_address_def)
  obtain res con1 where r: "review_capability rt env p ?pl False con = (res, con1)" by fastforce
  show ?thesis
  proof (cases res)
    case (Inl e)
    with r show ?thesis by (simp add: review_item_def)
  next
    case (Inr out)
    show ?thesis
    proof (rule review_capability_cases [of rt env p ?pl False con])
      fix cap con0
      assume f: "review_capability rt env p ?pl False con = review_found rt env p ?pl False cap con0" "db con0 = db con"
        "get_capability (db con) (identifier_of ?pl) = Some cap"
      have "c_uri cap = uri" using get_capability_address [OF assms(1)] f(3) id by simp
      moreover have "filter (\<lambda>c. c_uri c \<noteq> u) (update_where (\<lambda>c. c_uri c = u \<and> q c) approve_columns t)
          = filter (\<lambda>c. c_uri c \<noteq> u) t" for u q t
        by (induction t) (simp_all add: update_where_Cons approve_columns_def)
      ultimately have "filter (\<lambda>c. c_uri c \<noteq> uri) (capabilities (db con1)) = filter (\<lambda>c. c_uri c \<noteq> uri) (capabilities (db con))"
        using review_found_effect(2) [of rt env p ?pl False cap con0 out con1] f r Inr by (simp split: if_splits)
      with r Inr show ?thesis by (simp add: review_item_def)
    qed (use r Inr in simp)
  qed
qed

lemma review_items_local:
  assumes "set us \<subseteq> set (uris con)" "list_all plain_address us"
  shows "filter (\<lambda>c. c_uri c \<notin> set us) (capabilities (db (snd (review_items rt env p payload False us con))))
    = filter (\<lambda>c. c_uri c \<notin> set us) (capabilities (db con))"
  using assms
proof (induction us arbitrary: con)
  case (Cons u us)
  let ?c1 = "snd (review_item rt env p payload False u con)"
  have u: "u \<in> set (uris con)" "plain_address u" "set us \<subseteq> set (uris ?c1)" "list_all plain_address us"
    using Cons.prems by (simp_all only: review_item_uris) auto
  have split: "filter (\<lambda>c. c_uri c \<notin> set (u # us)) t = filter (\<lambda>c. c_uri c \<noteq> u) (filter (\<lambda>c. c_uri c \<notin> set us) t)"
    "filter (\<lambda>c. c_uri c \<notin> set (u # us)) t = filter (\<lambda>c. c_uri c \<notin> set us) (filter (\<lambda>c. c_uri c \<noteq> u) t)" for t
    by (auto intro: filter_cong)
  have "filter (\<lambda>c. c_uri c \<notin> set (u # us)) (capabilities (db (snd (review_items rt env p payload False us ?c1))))
      = filter (\<lambda>c. c_uri c \<notin> set (u # us)) (capabilities (db ?c1))"
    unfolding split(1) Cons.IH [OF u(3,4)] ..
  also have "\<dots> = filter (\<lambda>c. c_uri c \<notin> set (u # us)) (capabilities (db con))"
    unfolding split(2) review_item_local [OF u(1,2)] ..
  finally show ?case by (simp add: Let_def case_prod_unfold)
qed simp

declare length_order_by [simp]

text \<open>One pass over a list of addresses: each in turn is reviewed once, on the database and the durable
  state that the review before it left; between two reviews (the authorization of a further page) neither
  changes.\<close>

inductive review_pass ::
  "runtime \<Rightarrow> 'k review_env \<Rightarrow> principal \<Rightarrow> string list \<Rightarrow> batch_item list \<Rightarrow> conn \<Rightarrow> conn \<Rightarrow> bool"
  for rt env p where
  pass_done: "\<lbrakk>db con' = db con; durable con' = durable con\<rbrakk> \<Longrightarrow> review_pass rt env p [] [] con con'"
| pass_item: "\<lbrakk>db con1 = db con; durable con1 = durable con;
    review_item rt env p (page_payload after_uri) False u con1 = (i, con2); review_pass rt env p us items con2 con'\<rbrakk>
    \<Longrightarrow> review_pass rt env p (u # us) (i # items) con con'"

inductive_cases review_pass_NilE: "review_pass rt env p [] items con con'"

lemma review_pass_from:
  assumes "review_pass rt env p us items con con'" "db con0 = db con" "durable con0 = durable con"
  shows "review_pass rt env p us items con0 con'"
  using assms(1)
proof cases
  case pass_done
  with assms(2,3) show ?thesis by (simp add: review_pass.pass_done)
next
  case (pass_item con1 after_uri u i con2 us items)
  with assms(2,3) show ?thesis
    by (auto intro: review_pass.pass_item [of con1 con0])
qed

lemma review_pass_append:
  assumes "review_pass rt env p us items con con1" "review_pass rt env p us' items' con1 con'"
  shows "review_pass rt env p (us @ us') (items @ items') con con'"
  using assms
proof (induction)
  case (pass_done con1 con)
  then show ?case by (auto intro: review_pass_from)
next
  case (pass_item con2 con u i con3 us items con1)
  then show ?case by (auto intro: review_pass.intros)
qed

lemma review_items_pass:
  "review_items rt env p (page_payload after_uri) False us con = (items, con') \<Longrightarrow> review_pass rt env p us items con con'"
  by (induction us arbitrary: con items)
    (auto simp: Let_def case_prod_unfold intro: pass_done pass_item [OF refl refl surjective_pairing])

definition due_addresses :: "principal \<Rightarrow> string \<Rightarrow> conn \<Rightarrow> string list" where
  "due_addresses p after_uri con =
     map c_uri (order_by c_uri (filter (reviewable (own_tenant p) True after_uri) (capabilities (db con))))"

lemma page_addresses:
  assumes b: "review_batch rt env p (page_payload after_uri) False con = (Inr page, con')"
    and addr: "distinct (uris con)" "list_all plain_address (uris con)"
  shows "\<exists>us. review_pass rt env p us (br_items page) con con'
    \<and> (case br_next_after_uri page of
        None \<Rightarrow> us = due_addresses p after_uri con
      | Some cursor \<Rightarrow> us @ due_addresses p cursor con' = due_addresses p after_uri con)"
proof -
  let ?F = "filter (reviewable (own_tenant p) True after_uri) (capabilities (db con))"
  let ?L = "map c_uri (order_by c_uri ?F)"
  let ?rows = "batch_rows (db con) (own_tenant p) True after_uri 501"
  obtain con1 items where c: "db con1 = db con" "durable con1 = durable con"
    "review_items rt env p (page_payload after_uri) False (take 500 ?rows) con1 = (items, con')"
    "page = batch_summary False True 500 ?rows items" by (rule review_batch_pageE [OF b])
  have rows: "?rows = take 501 ?L" by (simp add: batch_rows_def)
  have len: "length ?L = length ?F" by (simp add: order_by_def)
  have sub: "set ?L \<subseteq> set (uris con)" by auto
  have sorted: "sorted ?L" by (simp add: order_by_def)
  have dist: "distinct ?L"
  proof -
    have "mset ?L = mset (map c_uri ?F)" by (simp add: order_by_def)
    moreover have "distinct (map c_uri ?F)" using addr(1) by (auto simp: distinct_map intro: inj_on_subset)
    ultimately show ?thesis by (metis mset_eq_imp_distinct_iff)
  qed
  have pass: "review_pass rt env p (take 500 ?rows) (br_items page) con con'"
    using review_pass_from [OF review_items_pass [OF c(3)], of con] c(1,2,4) by (simp add: batch_summary_def)
  show ?thesis
  proof (cases "500 < length ?F")
    case False
    then have "br_next_after_uri page = None" "take 500 ?rows = due_addresses p after_uri con"
      by (simp_all add: c(4) batch_summary_def rows len due_addresses_def)
    with pass show ?thesis by auto
  next
    case True
    let ?cur = "?L ! 499"
    have next_uri: "br_next_after_uri page = Some ?cur"
      using True by (simp add: c(4) batch_summary_def rows len)
    have above: "after_uri < ?cur" using review_batch_page(2) [OF b next_uri] by simp
    have us: "take 500 ?rows = take 500 ?L" by (simp add: rows)
    have below: "u \<le> ?cur" if u: "u \<in> set (take 500 ?L)" for u
    proof -
      obtain i where "i < length (take 500 ?L)" "u = take 500 ?L ! i" using u unfolding in_set_conv_nth by blast
      then have "i \<le> 499" "u = ?L ! i" using True by simp_all
      then show ?thesis using sorted_nth_mono [OF sorted, of i 499] True len by simp
    qed
    have local: "filter (\<lambda>x. c_uri x \<notin> set (take 500 ?L)) (capabilities (db con'))
        = filter (\<lambda>x. c_uri x \<notin> set (take 500 ?L)) (capabilities (db con))"
    proof -
      have "set (take 500 ?L) \<subseteq> set (uris con)" using sub set_take_subset [of 500 ?L] by (rule_tac order_trans)
      with addr(2) have "list_all plain_address (take 500 ?L)" unfolding list_all_iff by blast
      with \<open>set (take 500 ?L) \<subseteq> set (uris con)\<close> c(1)
        review_items_local [of "take 500 ?L" con1 rt env p "page_payload after_uri"] c(3)
      show ?thesis by (simp add: us)
    qed
    have rev: "reviewable (own_tenant p) True ?cur x \<longleftrightarrow>
        c_uri x \<notin> set (take 500 ?L) \<and> ?cur < c_uri x \<and> reviewable (own_tenant p) True after_uri x" for x
      using above below by (auto simp: reviewable_def dest: less_trans not_less_iff_gr_or_eq [THEN iffD1] leD)
    have nested: "filter (reviewable (own_tenant p) True ?cur) t
        = filter (\<lambda>x. ?cur < c_uri x \<and> reviewable (own_tenant p) True after_uri x) (filter (\<lambda>x. c_uri x \<notin> set (take 500 ?L)) t)" for t
      by (auto simp: rev conj_ac intro: filter_cong)
    have "filter (reviewable (own_tenant p) True ?cur) (capabilities (db con'))
        = filter (reviewable (own_tenant p) True ?cur) (capabilities (db con))" unfolding nested local ..
    also have "\<dots> = filter (\<lambda>x. ?cur < c_uri x) ?F"
    proof -
      have "reviewable (own_tenant p) True ?cur = (\<lambda>x. reviewable (own_tenant p) True after_uri x \<and> ?cur < c_uri x)"
        using less_trans [OF above] unfolding reviewable_def by blast
      then show ?thesis by (simp only: filter_filter)
    qed
    finally have "due_addresses p ?cur con' = filter (\<lambda>u. ?cur < u) ?L"
      by (simp add: due_addresses_def order_by_def filter_map comp_def flip: filter_sort)
    also have "\<dots> = drop 500 ?L" using filter_above_nth [OF sorted dist, of 499] True len by simp
    finally have "take 500 ?rows @ due_addresses p ?cur con' = due_addresses p after_uri con"
      unfolding us by (simp add: due_addresses_def)
    with pass next_uri show ?thesis by auto
  qed
qed

definition totals_of :: "batch_item list \<Rightarrow> totals" where
  "totals_of items = \<lparr>tt_processed = length items, tt_passed = length (filter item_passed items),
     tt_approved = length (filter item_approved items), tt_failed = length (filter (\<lambda>i. \<not> item_passed i) items),
     tt_failures = filter (\<lambda>i. \<not> item_passed i) items\<rparr>"

lemma add_page_totals:
  assumes "review_batch rt env p (page_payload after_uri) False con = (Inr page, con')"
  shows "add_page page (totals_of items) = totals_of (items @ br_items page)"
  by (rule review_batch_pageE [OF assms]) (simp add: add_page_def totals_of_def batch_summary_def)

lemma approve_pages_pass:
  assumes "approve_pages rt env p after_uri (totals_of done) con = (Inr t, con')"
    and "distinct (uris con)" "list_all plain_address (uris con)"
  shows "\<exists>items. review_pass rt env p (due_addresses p after_uri con) items con con' \<and> t = totals_of (done @ items)"
  using assms
proof (induction rt env p after_uri "totals_of done" con arbitrary: "done" rule: approve_pages.induct)
  case (1 rt env p after_uri con "done")
  note run = 1(2) [unfolded approve_pages.simps [of rt env p after_uri]]
  obtain page con1 where b: "review_batch rt env p (page_payload after_uri) False con = (Inr page, con1)"
    using run by (auto split: prod.splits sum.splits)
  obtain us where us: "review_pass rt env p us (br_items page) con con1"
    "case br_next_after_uri page of None \<Rightarrow> us = due_addresses p after_uri con
      | Some cursor \<Rightarrow> us @ due_addresses p cursor con1 = due_addresses p after_uri con"
    using page_addresses [OF b 1(3,4)] by blast
  note add = add_page_totals [OF b, of "done"]
  show ?case
  proof (cases "br_next_after_uri page")
    case None
    with run b us add show ?thesis by auto
  next
    case (Some cursor)
    then have cur: "cursor \<noteq> []" using review_batch_page(2) [OF b Some] by auto
    have "uris con1 = uris con" by (rule review_batch_page(1) [OF b])
    with 1(1) [OF b [symmetric] refl Some cur add] run b Some cur 1(3,4) add obtain items where
      rest: "review_pass rt env p (due_addresses p cursor con1) items con1 con'" and t: "t = totals_of ((done @ br_items page) @ items)"
      by auto
    have "us @ due_addresses p cursor con1 = due_addresses p after_uri con" using us(2) Some by simp
    with review_pass_append [OF us(1) rest] t show ?thesis by (intro exI [of _ "br_items page @ items"]) simp
  qed
qed

lemma map_sort_key_sort: "map k (sort_key k xs) = sort (map k xs)"
  by (rule properties_for_sort [symmetric]) simp_all

lemma due_addresses_sorted:
  assumes "list_all (\<lambda>c. c_uri c \<noteq> [] \<and> py_strip (c_uri c) = c_uri c) (capabilities (db con))"
  shows "due_addresses p [] con
    = sort (map c_uri (filter (\<lambda>c. c_tenant_id c = own_tenant p \<and> c_source_kind c \<noteq> ''system_capability''
            \<and> c_approval_state c \<in> {''approved'', ''draft'', ''pending''}
            \<and> \<not> (c_approval_state c = ''approved'' \<and> c_signature_status c = ''verified''
                  \<and> c_provenance_status c = ''verified'' \<and> c_risk_review_status c = ''approved'')) (capabilities (db con))))"
proof -
  have "[] < c_uri c" if "c \<in> set (capabilities (db con))" for c
    using assms that by (cases "c_uri c") (auto simp: list_all_iff)
  then show ?thesis
    unfolding due_addresses_def order_by_def map_sort_key_sort reviewable_def
    by (intro arg_cong [where f = sort] arg_cong [where f = "map c_uri"] filter_cong) auto
qed

text \<open>C14. The paging of approve_catalog is one pass over the catalog. In a catalog with distinct,
  non-empty, trimmed addresses the loop over the pages ends, and what it did is to review, in the order of
  the addresses and one after the other, exactly the capabilities that were due when it began, those of
  the tenant that are no system capabilities, in a reviewable state and not yet fully verified: none is
  skipped by a page boundary, none reviewed twice and no other one reviewed. The totals are those of these
  reviews, and the database left is the one after the last of them, or with commit and no approval the
  durable one.\<close>

theorem approve_catalog_reviews_once:
  assumes "approve_catalog rt env p cm con = (Inr r, con')"
    and "distinct (map c_uri (capabilities (db con)))"
    and "list_all (\<lambda>c. c_uri c \<noteq> [] \<and> py_strip (c_uri c) = c_uri c) (capabilities (db con))"
  shows "\<exists>items con1. review_pass rt env p
        (sort (map c_uri (filter (\<lambda>c. c_tenant_id c = own_tenant p \<and> c_source_kind c \<noteq> ''system_capability''
            \<and> c_approval_state c \<in> {''approved'', ''draft'', ''pending''}
            \<and> \<not> (c_approval_state c = ''approved'' \<and> c_signature_status c = ''verified''
                  \<and> c_provenance_status c = ''verified'' \<and> c_risk_review_status c = ''approved'')) (capabilities (db con)))))
        items con con1
    \<and> ct_totals r = \<lparr>tt_processed = length items, tt_passed = length (filter item_passed items),
        tt_approved = length (filter item_approved items), tt_failed = length (filter (\<lambda>i. \<not> item_passed i) items),
        tt_failures = filter (\<lambda>i. \<not> item_passed i) items\<rparr>
    \<and> db con' = (if cm \<and> \<not> ct_approved r then durable con1 else db con1)"
proof -
  obtain a con1 where a: "authorize rt p con = (a, con1)" by fastforce
  then have c1: "db con1 = db con" "durable con1 = durable con" using authorize_frame [of rt p con] by simp_all
  obtain t con2 where t: "approve_pages rt env p [] no_totals con1 = (t, con2)" by fastforce
  have "a = Inr ()" using assms(1) by (cases a) (auto simp: approve_catalog_def a)
  moreover obtain t' where t': "t = Inr t'" "ct_totals r = t'" "db con' = (if cm \<and> \<not> ct_approved r then durable con2 else db con2)"
    using assms(1) by (cases t) (auto simp: approve_catalog_def a \<open>a = Inr ()\<close> t Let_def rollback_def split: if_splits)
  moreover have "no_totals = totals_of []" by (simp add: no_totals_def totals_of_def)
  ultimately obtain items where pass: "review_pass rt env p (due_addresses p [] con1) items con1 con2" and "t' = totals_of items"
    using approve_pages_pass [of rt env p "[]" "[]" con1 t' con2] t assms(2,3) c1(1)
    by (auto simp: list_all_iff plain_address_def)
  moreover have "due_addresses p [] con1 = due_addresses p [] con" by (simp add: due_addresses_def c1(1))
  moreover note review_pass_from [OF pass c1(1,2) [symmetric]]
  ultimately have "review_pass rt env p (due_addresses p [] con) items con con2 \<and> ct_totals r = totals_of items
      \<and> db con' = (if cm \<and> \<not> ct_approved r then durable con2 else db con2)"
    using t'(2,3) by simp
  then show ?thesis unfolding due_addresses_sorted [OF assms(3)] totals_of_def by blast
qed

definition due_capability :: capability where
  "due_capability = sample_capability\<lparr>c_approval_state := ''draft''\<rparr>"

definition closed_world :: "unit review_env" where
  "closed_world = \<lparr>file_at = (\<lambda>_. NoFile), resolve_path = (\<lambda>s. s), parse_json = (\<lambda>_. Inl (1, 1)),
     unicode_tables = plain_unicode, key_signer = sample_signer, key_dir = ''/s''\<rparr>"

theorem approve_catalog_reviews_once_witness:
  "\<exists>r i con1. fst (approve_catalog sample_runtime closed_world sample_reviewer True
       (sample_conn (empty_database\<lparr>capabilities := [due_capability]\<rparr>))) = Inr r
     \<and> review_pass sample_runtime closed_world sample_reviewer [c_uri due_capability] [i]
         (sample_conn (empty_database\<lparr>capabilities := [due_capability]\<rparr>)) con1 \<and> tt_processed (ct_totals r) = 1"
proof -
  let ?con = "sample_conn (empty_database\<lparr>capabilities := [due_capability]\<rparr>)"
  have db: "identities (db ?con) = []" "relationship_tuples (db ?con) = []" "capabilities (db ?con) = [due_capability]"
    "cache_coherent (db ?con) (org_cache ?con)" by (simp_all add: sample_conn_def empty_database_def)
  obtain con1 where a: "authorize sample_runtime sample_reviewer ?con = (Inr (), con1)"
    using sample_reviewer_authorized [OF db(1,2,4)] by blast
  then have con1: "db con1 = db ?con" "cache_coherent (db con1) (org_cache con1)"
    using authorize_frame(1) [of sample_runtime sample_reviewer ?con] authorize_coherent [OF db(4), of sample_runtime sample_reviewer]
    by simp_all
  obtain con2 where a2: "authorize sample_runtime sample_reviewer con1 = (Inr (), con2)"
    using sample_reviewer_authorized [of con1] con1 db by auto
  obtain page con3 where page: "review_batch sample_runtime closed_world sample_reviewer (page_payload []) False con1 = (Inr page, con3)"
    by (simp add: review_batch_def a2 page_payload_def py_int_def MAX_BATCH_def Let_def case_prod_unfold)
  have "br_next_after_uri page = None"
    by (rule review_batch_pageE [OF page]) (simp add: batch_summary_def batch_rows_def con1(1) db(3) min_def)
  then obtain r con4 where r: "approve_catalog sample_runtime closed_world sample_reviewer True ?con = (Inr r, con4)"
    by (simp add: approve_catalog_def a approve_pages.simps [of _ _ _ "[]"] page Let_def)
  have "distinct (map c_uri (capabilities (db ?con)))" unfolding db(3) by simp
  moreover have "list_all (\<lambda>c. c_uri c \<noteq> [] \<and> py_strip (c_uri c) = c_uri c) (capabilities (db ?con))"
    unfolding db(3) by (simp add: due_capability_def sample_capability_def py_strip_def py_lstrip_def py_rstrip_def py_isspace_def)
  ultimately obtain items con1 where i: "review_pass sample_runtime closed_world sample_reviewer [c_uri due_capability] items ?con con1"
    "tt_processed (ct_totals r) = length items"
    using approve_catalog_reviews_once [OF r] unfolding db(3)
    by (auto simp: due_capability_def sample_capability_def sample_reviewer_def sample_principal_def own_tenant_def)
  then obtain i where "items = [i]" by (auto elim: review_pass.cases)
  with i r show ?thesis by auto
qed

end
