(* ===== verification/Promotions.thy ===== *)
theory Promotions
  imports Review_Gates Stores_Shares
begin

text \<open>
  Promotion of a capability into an organization or everyone namespace: \<^verbatim>\<open>promotions.py\<close>, with
  \<^verbatim>\<open>manifest.slugify\<close> and \<^verbatim>\<open>index.refresh_catalog_generation\<close>.

  \<^verbatim>\<open>approve_request\<close> runs in three parts, as in the source: the gate view (the stored gates, then the
  gate runner), the checks, which refuse or yield a plan, and the writes. The gates column may hold a
  list, which Python then refuses to index by name; that is the exception \<^verbatim>\<open>TypeErr\<close> of the model. The
  dash in three refusal messages is written with two hyphens.
\<close>

section \<open>Names\<close>

definition word_char :: "char \<Rightarrow> bool" where
  "word_char c = (py_isalnum c \<or> c = CHR ''_'')"

definition slug_safe :: "char \<Rightarrow> bool" where
  "slug_safe c = (word_char c \<or> c = CHR ''.'' \<or> c = dash)"

function dash_unsafe :: "string \<Rightarrow> string" where
  "dash_unsafe [] = []"
| "dash_unsafe (c # s) =
     (if slug_safe c then c # dash_unsafe s else dash # dash_unsafe (dropWhile (\<lambda>x. \<not> slug_safe x) s))"
  by pat_completeness auto
termination by (relation "measure length") (auto simp: less_Suc_eq_le length_dropWhile_le)

fun single_dashes :: "string \<Rightarrow> string" where
  "single_dashes (a # b # s) = (if a = dash \<and> b = dash then single_dashes (b # s) else a # single_dashes (b # s))"
| "single_dashes s = s"

definition slugify :: "string \<Rightarrow> string" where
  "slugify value =
     (let v = strip_chars ''-._'' (single_dashes (dash_unsafe (py_lower (py_strip value))))
      in if v = [] then ''unnamed'' else v)"

section \<open>The catalog generation\<close>

definition generation_line :: "capability \<Rightarrow> string" where
  "generation_line c = join_with [CHR 0x09] [c_uri c, c_content_hash c, c_approval_state c, c_share_state c] @ [CHR 0x0A]"

definition refresh_catalog_generation :: "conn \<Rightarrow> conn" where
  "refresh_catalog_generation con = with_db (\<lambda>d. d\<lparr>catalog_generation :=
     Some (''sha256:'' @ sha256_hex (concat (map generation_line (order_by c_uri (capabilities d)))))\<rparr>) con"

section \<open>Submission\<close>

definition gates_value :: "gates_column \<Rightarrow> json" where
  "gates_value g = (case g of
     GatesObject kvs \<Rightarrow> JObj (map (\<lambda>(n, s). (n, JStr s)) kvs)
   | GatesList items \<Rightarrow> JList (map (\<lambda>(n, s). JObj ((case n of None \<Rightarrow> [] | Some v \<Rightarrow> [(''name'', JStr v)])
       @ (case s of None \<Rightarrow> [] | Some v \<Rightarrow> [(''state'', JStr v)]))) items)
   | _ \<Rightarrow> JObj [])"

definition promotion_record :: "promotion_row \<Rightarrow> json" where
  "promotion_record r = JObj [(''id'', JStr (pr_id r)), (''tenantId'', JStr (pr_tenant r)),
     (''capabilityUri'', JStr (pr_capability_uri r)), (''sourceStoreId'', json_opt (pr_source_store r)),
     (''targetNamespaceId'', JStr (pr_target_namespace r)), (''requestedBy'', JStr (pr_requested_by r)),
     (''state'', JStr (pr_state r)), (''title'', JStr (pr_title r)), (''rationale'', JStr (pr_rationale r)),
     (''version'', JStr (pr_version r)), (''gates'', gates_value (pr_gates r)), (''createdAt'', JStr (pr_created_at r)),
     (''decidedAt'', json_opt (pr_decided_at r))]"

text \<open>The checks on the target namespace, its store and its organization.\<close>

definition check_target :: "database \<Rightarrow> string \<Rightarrow> string \<Rightarrow> py_error + namespace_row" where
  "check_target d target tenant =
     (case find (\<lambda>n. ns_id n = target \<and> ns_tenant n = tenant) (namespaces d) of
        None \<Rightarrow> Inl (ValueError ''Promotion target namespace was not found in this tenant.'')
      | Some n \<Rightarrow> (case find (\<lambda>s. st_id s = ns_store n \<and> st_tenant s = ns_tenant n) (stores d) of
          None \<Rightarrow> Inl (ValueError ''Promotion target namespace was not found in this tenant.'')
        | Some s \<Rightarrow>
            if st_kind s \<notin> {''org'', ''all_users''} then
              Inl (ValueError ''Promotion targets must be an organization or everyone namespace.'')
            else if ns_lifecycle n \<noteq> ''active'' \<or> st_disabled_at s \<noteq> None then
              Inl (ValueError ''Promotion target namespace is not active.'')
            else if st_kind s = ''org'' \<and>
                (case find (\<lambda>og. org_store og = Some (ns_store n) \<and> org_tenant og = tenant) (organizations d) of
                   None \<Rightarrow> True | Some og \<Rightarrow> org_status og \<noteq> ''active'') then
              Inl (ValueError ''Promotion target organization is not active.'')
            else Inr n))"

definition write_submission ::
  "runtime \<Rightarrow> principal \<Rightarrow> payload \<Rightarrow> capability \<Rightarrow> string \<Rightarrow> string \<Rightarrow> conn \<Rightarrow> (conn, json) outcome" where
  "write_submission rt p payload cap uri target con =
     (let (request_id, con1) = new_id rt ''prq'' con;
          (step_id, con2) = new_id rt ''apv'' con1;
          row = \<lparr>pr_id = request_id, pr_tenant = tenant_of rt p, pr_capability_uri = uri, pr_source_store = c_store_id cap,
            pr_target_namespace = target, pr_requested_by = p_subject p, pr_state = ''pending'',
            pr_title = str_or payload ''title'' [], pr_rationale = str_or payload ''rationale'' [],
            pr_version = str_or payload ''version'' [], pr_gates = GatesObject default_promotion_gates,
            pr_created_at = sql_now rt, pr_decided_at = None\<rparr>;
          step = \<lparr>ap_id = step_id, ap_request = request_id, ap_step_name = ''namespace_admin_review'',
            ap_assigned_type = ''role'', ap_assigned_id = ''namespace_admin'', ap_state = ''pending'',
            ap_decision_by = None, ap_decision_note = None, ap_decided_at = None\<rparr>;
          con3 = with_db (\<lambda>d. d\<lparr>promotion_requests := promotion_requests d @ [row],
            approval_steps := approval_steps d @ [step],
            capabilities := update_where (\<lambda>c. c_uri c = uri)
              (\<lambda>c. c\<lparr>c_submitted_by := Some (p_subject p), c_approval_state := ''pending''\<rparr>) (capabilities d)\<rparr>) con2;
          con4 = snd (audit_event rt ''promotion.submitted'' (p_subject p) (Some uri) (Some ''submit'') (Some ''allow'') None
            payload (tenant_of rt p) ''user'' (refresh_catalog_generation con3))
      in (Inr (promotion_record row), commit con4))"

definition submit_promotion :: "runtime \<Rightarrow> principal \<Rightarrow> payload \<Rightarrow> conn \<Rightarrow> (conn, json) outcome" where
  "submit_promotion rt p payload con =
     (let uri = share_uri payload; target = str_or payload ''targetNamespaceId'' [] in
      if uri = [] \<or> target = [] then (Inl (ValueError ''capabilityUri and targetNamespaceId are required.''), con)
      else case find_capability (db con) uri (tenant_of rt p) of
          None \<Rightarrow> (Inl (ValueError ''Capability was not found in this tenant.''), con)
        | Some cap \<Rightarrow> require_access (evaluate_access rt p ''submit'' (Some cap) (Some uri) True) (\<lambda>con1.
            and_then (lift_result (check_target (db con1) target (tenant_of rt p)) con1)
              (\<lambda>_. write_submission rt p payload cap uri target)) con)"

definition list_requests :: "principal \<Rightarrow> string option \<Rightarrow> conn \<Rightarrow> json list" where
  "list_requests p state con = map promotion_record (order_by_desc pr_created_at
     (filter (\<lambda>r. pr_tenant r = p_tenant_id p \<and> (truthy state \<longrightarrow> state = Some (pr_state r))) (promotion_requests (db con))))"

section \<open>The gates of a request under approval\<close>

text \<open>The local variables \<^verbatim>\<open>gates\<close>, \<^verbatim>\<open>gate_states\<close>, \<^verbatim>\<open>pending_gates\<close> and \<^verbatim>\<open>gate_runner_failed\<close>; \<^verbatim>\<open>gates\<close> is
  None when the column holds a list.\<close>

record gate_view =
  gv_gates :: "(string \<times> string) list option"
  gv_states :: "(string \<times> string) list"
  gv_pending :: "string list"
  gv_failed :: "string list"

definition stored_gates :: "gates_column \<Rightarrow> gate_view" where
  "stored_gates g = (case g of
     GatesEmpty \<Rightarrow> \<lparr>gv_gates = Some [], gv_states = [], gv_pending = [], gv_failed = []\<rparr>
   | GatesMalformed \<Rightarrow> \<lparr>gv_gates = Some [], gv_states = [], gv_pending = [''__malformed_gates_json__''], gv_failed = []\<rparr>
   | GatesObject kvs \<Rightarrow> \<lparr>gv_gates = Some kvs, gv_states = kvs,
       gv_pending = map fst (filter (\<lambda>(_, s). s \<noteq> ''passed'') kvs), gv_failed = []\<rparr>
   | GatesList items \<Rightarrow> \<lparr>gv_gates = None,
       gv_states = foldl (\<lambda>m (n, s). if truthy n then dict_set (the n) (case s of None \<Rightarrow> [] | Some v \<Rightarrow> v) m else m) [] items,
       gv_pending = map (\<lambda>(n, _). case n of None \<Rightarrow> [] | Some v \<Rightarrow> v) (filter (\<lambda>(_, s). s \<noteq> Some ''passed'') items),
       gv_failed = []\<rparr>)"

definition LIST_INDEX :: py_error where
  "LIST_INDEX = TypeErr ''list indices must be integers or slices, not str''"

definition set_gates :: "string \<Rightarrow> gates_column \<Rightarrow> conn \<Rightarrow> conn" where
  "set_gates request_id g con = with_db (\<lambda>d. d\<lparr>promotion_requests :=
     update_where (\<lambda>r. pr_id r = request_id) (pr_gates_update (\<lambda>_. g)) (promotion_requests d)\<rparr>) con"

definition merge_runner :: "gates \<Rightarrow> (string \<times> string) list \<Rightarrow> (string \<times> string) list" where
  "merge_runner runner kvs = foldl (\<lambda>m (name, _). case gate_state runner name of None \<Rightarrow> m | Some s \<Rightarrow> dict_set name s m)
     kvs default_promotion_gates"

definition runner_view :: "(string \<times> string) list \<Rightarrow> gate_view" where
  "runner_view kvs = \<lparr>gv_gates = Some kvs, gv_states = kvs,
     gv_pending = map fst (filter (\<lambda>(_, s). s \<notin> {''passed'', ''skipped'', ''failed''}) kvs),
     gv_failed = map fst (filter (\<lambda>(n, s). n \<notin> {''riskTierPolicy'', ''promptInjectionScan''}
       \<and> s \<notin> {''passed'', ''skipped''}) kvs)\<rparr>"

text \<open>The gate runner replaces the stored states; a refusal of the runner keeps them.\<close>

definition run_gate_runner ::
  "runtime \<Rightarrow> 'k review_env \<Rightarrow> principal \<Rightarrow> payload \<Rightarrow> promotion_row \<Rightarrow> conn \<Rightarrow> (conn, gate_view) outcome" where
  "run_gate_runner rt env p payload row con =
     (let stored = stored_gates (pr_gates row) in
      case review_capability rt env p [(''capabilityUri'', JStr (pr_capability_uri row)),
          (''targetNamespaceId'', JStr (pr_target_namespace row)), (''dryRun'', JBool True),
          (''approvedRiskException'', JBool (json_truthy (pget payload ''approvedRiskException'')))] True con of
        (Inr r, con1) \<Rightarrow> (case gv_gates stored of
            None \<Rightarrow> (Inl LIST_INDEX, con1)
          | Some kvs \<Rightarrow>
              let merged = merge_runner (rr_gates r) kvs in
              (Inr (runner_view merged), set_gates (pr_id row) (GatesObject merged) con1))
      | (Inl (ValueError m), con1) \<Rightarrow> (Inr stored, con1)
      | (Inl (PermissionError m), con1) \<Rightarrow> (Inr stored, con1)
      | (Inl e, con1) \<Rightarrow> (Inl e, con1))"

section \<open>The checks\<close>

record approval_plan =
  pl_gates :: "(string \<times> string) list"
  pl_marker :: "string option"
  pl_uri :: string
  pl_store :: "string option"

definition overridden :: "payload \<Rightarrow> bool" where
  "overridden payload = json_truthy (pget payload ''overridePendingGates'')"

definition unmet_gates :: "(string \<times> string) list \<Rightarrow> string list" where
  "unmet_gates states = sorted_list_of_set (set (filter (\<lambda>n. map_of states n \<noteq> Some ''passed'') (map fst default_promotion_gates)))"

definition row_at :: "database \<Rightarrow> string \<Rightarrow> capability option" where
  "row_at d uri = find (\<lambda>c. c_uri c = uri) (capabilities d)"

definition secured :: "capability option \<Rightarrow> bool" where
  "secured c = (case c of None \<Rightarrow> False | Some c \<Rightarrow> c_signature_status c = ''verified''
     \<and> c_provenance_status c = ''verified'' \<and> c_risk_review_status c = ''approved'')"

text \<open>The pending gates, and in production the authoritative ones and the attestations of the row.\<close>

definition check_pending :: "runtime \<Rightarrow> database \<Rightarrow> payload \<Rightarrow> promotion_row \<Rightarrow> gate_view \<Rightarrow> py_error option" where
  "check_pending rt d payload row v =
     (if gv_pending v \<noteq> [] \<and> \<not> overridden payload then
        Some (PermissionError (''Promotion gates still pending: '' @ join_with '', '' (gv_pending v)
          @ ''. Re-approve with overridePendingGates=true to force.''))
      else if \<not> production_environment rt then None
      else if gv_pending v \<noteq> [] then
        Some (PermissionError ''Production promotion is fail-closed: pending security/provenance gates cannot be overridden.'')
      else if unmet_gates (gv_states v) \<noteq> [] then
        Some (PermissionError (''Production promotion requires authoritative passed gates: ''
          @ join_with '', '' (unmet_gates (gv_states v))))
      else if \<not> secured (row_at d (pr_capability_uri row)) then
        Some (PermissionError ''Production promotion requires a verified content signature, verified provenance, and approved risk review.'')
      else None)"

definition risk_tier_gate :: "database \<Rightarrow> promotion_row \<Rightarrow> (bool \<times> string) option" where
  "risk_tier_gate d row =
     (case find (\<lambda>n. ns_id n = pr_target_namespace row) (namespaces d) of
        None \<Rightarrow> None
      | Some ns \<Rightarrow> (case (row_at d (pr_capability_uri row), find (\<lambda>s. st_id s = ns_store ns) (stores d)) of
          (Some c, Some s) \<Rightarrow> Some (evaluate_risk_tier_policy
            (if c_risk_tier c = [] then ''unknown'' else c_risk_tier c) (if st_kind s = [] then ''unknown'' else st_kind s))
        | _ \<Rightarrow> None))"

definition FORCE_HINT :: string where
  "FORCE_HINT = ''. Request state remains pending -- use overridePendingGates=true to force.''"

definition promoted_address :: "namespace_row \<Rightarrow> capability \<Rightarrow> string" where
  "promoted_address ns c = rstrip_chars ''/'' (ns_uri_prefix ns) @ ''/'' @ c_type c @ ''/''
     @ slugify (or_else (c_plugin c) ''global'') @ ''.'' @ slugify (c_name c) @ ''@'' @ c_version c"

definition plan_address :: "runtime \<Rightarrow> database \<Rightarrow> promotion_row \<Rightarrow> py_error + (string \<times> string option)" where
  "plan_address rt d row =
     (let ns = find (\<lambda>n. ns_id n = pr_target_namespace row) (namespaces d); cap = row_at d (pr_capability_uri row);
          store = (case ns of Some n \<Rightarrow> Some (ns_store n) | None \<Rightarrow> (case cap of Some c \<Rightarrow> c_store_id c | None \<Rightarrow> None)) in
      case (ns, cap) of
        (Some n, Some c) \<Rightarrow>
          if promoted_address n c \<noteq> pr_capability_uri row \<and> row_at d (promoted_address n c) \<noteq> None
          then Inl (ValueError (''Promotion target URI already exists: '' @ promoted_address n c))
          else Inr (promoted_address n c, store)
      | _ \<Rightarrow>
          if production_environment rt then Inl (ValueError ''Promotion source capability or target namespace is missing.'')
          else Inr (pr_capability_uri row, store))"

definition check_risk :: "payload \<Rightarrow> (bool \<times> string) option \<Rightarrow> py_error option" where
  "check_risk payload risk = (case risk of
     Some (ok, why) \<Rightarrow> if \<not> ok \<and> \<not> overridden payload
       then Some (PermissionError (''riskTierPolicy gate failed: '' @ why @ FORCE_HINT)) else None
   | None \<Rightarrow> None)"

definition check_scan ::
  "runtime \<Rightarrow> unicode \<Rightarrow> database \<Rightarrow> payload \<Rightarrow> promotion_row \<Rightarrow> gate_view \<Rightarrow> (string \<times> string) list \<Rightarrow> py_error + approval_plan" where
  "check_scan rt u d payload row v kvs =
     (let (injection, why) = evaluate_prompt_injection_scan u d (pr_capability_uri row) (pr_target_namespace row) in
      if injection = ''failed'' \<and> \<not> overridden payload then
        Inl (PermissionError (''promptInjectionScan gate failed: '' @ why @ FORCE_HINT))
      else if gv_failed v \<noteq> [] \<and> \<not> overridden payload then
        Inl (PermissionError (''Promotion gate(s) failed: '' @ join_with '', '' (gv_failed v) @ FORCE_HINT))
      else case plan_address rt d row of
          Inl e \<Rightarrow> Inl e
        | Inr (uri, store) \<Rightarrow> Inr \<lparr>pl_gates = dict_set ''promptInjectionScan'' injection kvs,
            pl_marker = (if gv_pending v = [] then None
              else Some (''[OVERRIDE: approved with pending gates: '' @ join_with '', '' (gv_pending v) @ '']'')),
            pl_uri = uri, pl_store = store\<rparr>)"

definition check_promotion ::
  "runtime \<Rightarrow> unicode \<Rightarrow> database \<Rightarrow> payload \<Rightarrow> promotion_row \<Rightarrow> gate_view \<Rightarrow> py_error + approval_plan" where
  "check_promotion rt u d payload row v =
     (case check_pending rt d payload row v of
        Some e \<Rightarrow> Inl e
      | None \<Rightarrow> (case (risk_tier_gate d row, gv_gates v) of
          (_, None) \<Rightarrow> Inl LIST_INDEX
        | (risk, Some kvs) \<Rightarrow> (case check_risk payload risk of
            Some e \<Rightarrow> Inl e
          | None \<Rightarrow> check_scan rt u d payload row v (case risk of None \<Rightarrow> kvs
              | Some (ok, _) \<Rightarrow> dict_set ''riskTierPolicy'' (if ok then ''passed'' else ''failed'') kvs))))"

section \<open>The writes\<close>

definition decision_states :: "(string \<times> string) list" where
  "decision_states = [(''approve'', ''approved''), (''reject'', ''rejected''), (''recall'', ''recalled''),
     (''demote'', ''demoted''), (''yank'', ''yanked'')]"

definition note_of :: "payload \<Rightarrow> string" where
  "note_of payload = py_str (json_or (pget payload ''note'') (JStr []))"

definition with_marker :: "string option \<Rightarrow> payload \<Rightarrow> payload" where
  "with_marker marker payload = (case marker of
     None \<Rightarrow> payload
   | Some m \<Rightarrow> dict_set ''note'' (JStr (if json_truthy (pget payload ''note'') then note_of payload @ '' '' @ m else m)) payload)"

definition decide_rows :: "runtime \<Rightarrow> principal \<Rightarrow> string \<Rightarrow> string \<Rightarrow> string \<Rightarrow> conn \<Rightarrow> conn" where
  "decide_rows rt p request_id new_state note con = with_db (\<lambda>d. d\<lparr>
     promotion_requests := update_where (\<lambda>r. pr_id r = request_id)
       (\<lambda>r. r\<lparr>pr_state := new_state, pr_decided_at := Some (sql_now rt)\<rparr>) (promotion_requests d),
     approval_steps := update_where (\<lambda>s. ap_request s = request_id \<and> ap_state s = ''pending'')
       (\<lambda>s. s\<lparr>ap_state := new_state, ap_decision_by := Some (p_subject p), ap_decision_note := Some note,
          ap_decided_at := Some (sql_now rt)\<rparr>) (approval_steps d)\<rparr>) con"

definition promote_columns :: "string option \<Rightarrow> string \<Rightarrow> capability \<Rightarrow> capability" where
  "promote_columns store target c = c\<lparr>c_approval_state := ''approved'',
     c_lifecycle := (if c_lifecycle c \<in> {''draft'', ''published''} then ''published'' else c_lifecycle c),
     c_store_id := store, c_namespace_id := Some target,
     c_promoted_from_uri := (case c_promoted_from_uri c of None \<Rightarrow> Some (c_uri c) | Some u \<Rightarrow> Some u),
     c_signature_status := (if c_signature_status c = ''unchecked'' then ''pending'' else c_signature_status c),
     c_provenance_status := (if c_provenance_status c = ''unchecked'' then ''pending'' else c_provenance_status c),
     c_risk_review_status := (if c_risk_review_status c = ''pending'' then ''approved'' else c_risk_review_status c)\<rparr>"

text \<open>The new address, in the order of the statements. The index row of a capability is found by its
  row number. The tuples have a unique
  key, which a tuple that already names the new address can violate.\<close>

definition tuple_key :: "relationship_row \<Rightarrow> string \<times> string \<times> string \<times> string" where
  "tuple_key t = (rt_tenant t, rt_object t, rt_relation t, rt_user t)"

definition move_tuples :: "string \<Rightarrow> string \<Rightarrow> string \<Rightarrow> relationship_row list \<Rightarrow> relationship_row list" where
  "move_tuples tenant old new ts =
     update_where (\<lambda>t. rt_tenant t = tenant \<and> rt_object t = old) (rt_object_update (\<lambda>_. new)) ts"

definition remint :: "string \<Rightarrow> string \<Rightarrow> string \<Rightarrow> string \<Rightarrow> conn \<Rightarrow> (conn, unit) outcome" where
  "remint tenant request_id old new con =
     (let con1 = with_db (\<lambda>d. d\<lparr>
            capabilities := update_where (\<lambda>c. c_uri c = old) (c_uri_update (\<lambda>_. new)) (capabilities d),
            capability_sources := update_where (\<lambda>r. cs_uri r = old) (cs_uri_update (\<lambda>_. new)) (capability_sources d),
            capability_fts := (case find (\<lambda>c. c_uri c = new) (update_where (\<lambda>c. c_uri c = old) (c_uri_update (\<lambda>_. new)) (capabilities d)) of None \<Rightarrow> capability_fts d
              | Some c \<Rightarrow> update_where (\<lambda>f. ft_row_id f = c_row_id c) (ft_uri_update (\<lambda>_. new)) (capability_fts d)),
            promotion_requests := update_where (\<lambda>r. pr_id r = request_id) (pr_capability_uri_update (\<lambda>_. new)) (promotion_requests d)\<rparr>) con
      in if \<not> distinct (map tuple_key (move_tuples tenant old new (relationship_tuples (db con1))))
         then (Inl (IntegrityError ''UNIQUE constraint failed: relationship_tuples''), con1)
         else (Inr (), with_db (\<lambda>d. d\<lparr>relationship_tuples := move_tuples tenant old new (relationship_tuples d),
           shares := update_where (\<lambda>s. sh_capability_uri s = old) (sh_capability_uri_update (\<lambda>_. new)) (shares d)\<rparr>) con1))"

definition finish_decision ::
  "runtime \<Rightarrow> principal \<Rightarrow> payload \<Rightarrow> string \<Rightarrow> string \<Rightarrow> string \<Rightarrow> string \<Rightarrow> string \<Rightarrow> conn \<Rightarrow> (conn, json) outcome" where
  "finish_decision rt p payload tenant request_id decision new_state target con =
     (let con1 = snd (audit_event rt (''promotion.'' @ new_state) (p_subject p) (Some target) (Some decision) (Some ''allow'')
            None payload tenant ''user'' (refresh_catalog_generation con)) in
      (Inr (case find (\<lambda>r. pr_id r = request_id) (promotion_requests (db con1)) of None \<Rightarrow> JNull | Some r \<Rightarrow> promotion_record r),
       commit con1))"

definition apply_approval ::
  "runtime \<Rightarrow> principal \<Rightarrow> payload \<Rightarrow> promotion_row \<Rightarrow> approval_plan \<Rightarrow> conn \<Rightarrow> (conn, json) outcome" where
  "apply_approval rt p payload0 row plan con =
     (let tenant = tenant_of rt p; request_id = pr_id row; old = pr_capability_uri row;
          payload = with_marker (pl_marker plan) payload0;
          con1 = decide_rows rt p request_id ''approved'' (note_of payload) (set_gates request_id (GatesObject (pl_gates plan)) con);
          con2 = (case pl_marker plan of None \<Rightarrow> con1 | Some m \<Rightarrow>
            snd (audit_event rt ''promotion.gate_override'' (p_subject p) (Some old) (Some ''override'') (Some ''allow'') None
              [(''requestId'', JStr request_id), (''note'', JStr m)] tenant ''user'' con1));
          con3 = with_db (\<lambda>d. d\<lparr>capabilities := update_where (\<lambda>c. c_uri c = old)
            (promote_columns (pl_store plan) (pr_target_namespace row)) (capabilities d)\<rparr>) con2
      in and_then (if pl_uri plan \<noteq> old then remint tenant request_id old (pl_uri plan) con3 else (Inr (), con3))
           (\<lambda>_. finish_decision rt p payload tenant request_id ''approve'' ''approved'' (pl_uri plan)))"

definition approve_promotion ::
  "runtime \<Rightarrow> 'k review_env \<Rightarrow> principal \<Rightarrow> payload \<Rightarrow> promotion_row \<Rightarrow> conn \<Rightarrow> (conn, json) outcome" where
  "approve_promotion rt env p payload row con =
     and_then (run_gate_runner rt env p payload row con) (\<lambda>v con1.
       and_then (lift_result (check_promotion rt (unicode_tables env) (db con1) payload row v) con1)
         (\<lambda>plan. apply_approval rt p payload row plan))"

definition withdraw_promotion ::
  "runtime \<Rightarrow> principal \<Rightarrow> payload \<Rightarrow> promotion_row \<Rightarrow> string \<Rightarrow> string \<Rightarrow> conn \<Rightarrow> (conn, json) outcome" where
  "withdraw_promotion rt p payload row decision new_state con =
     (let con1 = decide_rows rt p (pr_id row) new_state (note_of payload) con;
          con2 = with_db (\<lambda>d. d\<lparr>capabilities := update_where (\<lambda>c. c_uri c = pr_capability_uri row)
            (c_approval_state_update (\<lambda>_. new_state)) (capabilities d)\<rparr>) con1
      in finish_decision rt p payload (tenant_of rt p) (pr_id row) decision new_state (pr_capability_uri row) con2)"

definition request_of :: "payload \<Rightarrow> string" where
  "request_of payload = py_str (json_or (pget payload ''requestId'') (json_or (pget payload ''id'') (JStr [])))"

definition approve_request ::
  "runtime \<Rightarrow> 'k review_env \<Rightarrow> principal \<Rightarrow> payload \<Rightarrow> conn \<Rightarrow> (conn, json) outcome" where
  "approve_request rt env p payload con =
     (let request_id = request_of payload; decision = str_or payload ''decision'' ''approve'' in
      case map_of decision_states decision of
        None \<Rightarrow> (Inl (ValueError ''Unsupported approval decision.''), con)
      | Some new_state \<Rightarrow>
          require_access (evaluate_access rt p ''approve'' None (Some (''promotion:'' @ request_id)) True) (\<lambda>con1.
            case find (\<lambda>r. pr_id r = request_id \<and> pr_tenant r = tenant_of rt p) (promotion_requests (db con1)) of
              None \<Rightarrow> (Inl (ValueError ''Promotion request not found.''), con1)
            | Some row \<Rightarrow>
                if decision = ''approve'' then approve_promotion rt env p payload row con1
                else withdraw_promotion rt p payload row decision new_state con1) con)"

section \<open>What a refusal leaves behind\<close>

text \<open>Two databases that differ at most in the gates column of the requests and in the record of
  decisions.\<close>

definition ungated :: "database \<Rightarrow> database" where
  "ungated d = d\<lparr>promotion_requests := map (pr_gates_update (\<lambda>_. GatesEmpty)) (promotion_requests d), policy_decisions := []\<rparr>"

lemma ungated_unaudited: "unaudited d = unaudited d' \<Longrightarrow> ungated d = ungated d'"
  by (cases d; cases d') (simp add: unaudited_def ungated_def)

lemma ungated_set_gates [simp]: "ungated (db (set_gates i g con)) = ungated (db con)" "durable (set_gates i g con) = durable con"
proof -
  have "map (pr_gates_update (\<lambda>_. GatesEmpty)) (update_where (\<lambda>r. pr_id r = i) (pr_gates_update (\<lambda>_. g)) t)
      = map (pr_gates_update (\<lambda>_. GatesEmpty)) t" for t :: "promotion_row list"
    by (induction t) (simp_all add: update_where_Cons)
  then show "ungated (db (set_gates i g con)) = ungated (db con)" by (simp add: ungated_def set_gates_def)
qed (simp add: set_gates_def)

lemma ungated_tables:
  assumes "ungated d = ungated d'"
  shows "capabilities d = capabilities d'" "namespaces d = namespaces d'" "stores d = stores d'"
    "relationship_tuples d = relationship_tuples d'" "shares d = shares d'" "approval_steps d = approval_steps d'"
    "capability_sources d = capability_sources d'" "map pr_state (promotion_requests d) = map pr_state (promotion_requests d')"
    "map pr_id (promotion_requests d) = map pr_id (promotion_requests d')"
    "map pr_capability_uri (promotion_requests d) = map pr_capability_uri (promotion_requests d')"
proof -
  have m: "map (pr_gates_update (\<lambda>_. GatesEmpty)) (promotion_requests d) = map (pr_gates_update (\<lambda>_. GatesEmpty)) (promotion_requests d')"
    using assms by (cases d; cases d') (simp add: ungated_def)
  from arg_cong [OF m, of "map pr_state"] arg_cong [OF m, of "map pr_id"] arg_cong [OF m, of "map pr_capability_uri"]
  show "map pr_state (promotion_requests d) = map pr_state (promotion_requests d')"
    "map pr_id (promotion_requests d) = map pr_id (promotion_requests d')"
    "map pr_capability_uri (promotion_requests d) = map pr_capability_uri (promotion_requests d')" by (simp_all add: comp_def)
  show "capabilities d = capabilities d'" "namespaces d = namespaces d'" "stores d = stores d'"
    "relationship_tuples d = relationship_tuples d'" "shares d = shares d'" "approval_steps d = approval_steps d'"
    "capability_sources d = capability_sources d'"
    using assms by (cases d; cases d'; simp add: ungated_def)+
qed

lemma dry_review_frame:
  assumes "dry_run_of payload"
  shows "db (snd (review_capability rt env p payload cm con)) = db con"
    "durable (snd (review_capability rt env p payload cm con)) = durable con"
proof -
  have f: "db (snd (review_found rt env p payload cm cap con1)) = db con1 \<and> durable (snd (review_found rt env p payload cm cap con1)) = durable con1" for cap con1
    using assms by (cases "scope_for (db con1) cap (pget payload ''targetNamespaceId'') (pget payload ''reviewScope'')")
      (simp_all add: review_found_def lift_result_def Let_def case_prod_unfold)
  show "db (snd (review_capability rt env p payload cm con)) = db con"
    "durable (snd (review_capability rt env p payload cm con)) = durable con"
    by (rule review_capability_cases [of rt env p payload cm con]; simp add: f)+
qed

abbreviation runner_request :: "payload \<Rightarrow> promotion_row \<Rightarrow> payload" where
  "runner_request payload row \<equiv> [(''capabilityUri'', JStr (pr_capability_uri row)),
     (''targetNamespaceId'', JStr (pr_target_namespace row)), (''dryRun'', JBool True),
     (''approvedRiskException'', JBool (json_truthy (pget payload ''approvedRiskException'')))]"

lemma runner_frame:
  "ungated (db (snd (run_gate_runner rt env p payload row con))) = ungated (db con)"
  "durable (snd (run_gate_runner rt env p payload row con)) = durable con"
proof -
  obtain x con1 where r: "review_capability rt env p (runner_request payload row) True con = (x, con1)" by fastforce
  have "dry_run_of (runner_request payload row)" by (simp add: dry_run_of_def json_truthy_def)
  from dry_review_frame [OF this, of rt env p True con] r have c: "db con1 = db con" "durable con1 = durable con" by simp_all
  show "ungated (db (snd (run_gate_runner rt env p payload row con))) = ungated (db con)"
    "durable (snd (run_gate_runner rt env p payload row con)) = durable con"
    by (simp_all add: run_gate_runner_def r c Let_def split: sum.split py_error.split option.split)
qed

text \<open>The writes commit at the end, and only a clash of tuples stops them.\<close>

lemma apply_approval_raises:
  assumes "apply_approval rt p payload row plan con = (Inl e, con')"
  shows "(\<exists>m. e = IntegrityError m) \<and> durable con' = durable con"
  using assms unfolding apply_approval_def
  by (auto simp: Let_def remint_def finish_decision_def decide_rows_def split: option.splits if_splits)

lemma approve_promotion_raises:
  assumes "approve_promotion rt env p payload row con = (Inl e, con')"
  shows "durable con' = durable con \<and> ((\<exists>m. e = IntegrityError m) \<or> ungated (db con') = ungated (db con))"
proof -
  obtain v con1 where v: "run_gate_runner rt env p payload row con = (v, con1)" by fastforce
  then have c1: "ungated (db con1) = ungated (db con)" "durable con1 = durable con"
    using runner_frame [of rt env p payload row con] by simp_all
  show ?thesis
  proof (cases v)
    case (Inl err)
    with assms v c1 show ?thesis by (simp add: approve_promotion_def)
  next
    case (Inr view)
    then show ?thesis
      using assms v c1 apply_approval_raises [of rt p payload row _ con1 e con']
      by (cases "check_promotion rt (unicode_tables env) (db con1) payload row view")
        (auto simp: approve_promotion_def lift_result_def)
  qed
qed

lemma withdraw_returns: "\<exists>out. fst (withdraw_promotion rt p payload row decision st con) = Inr out"
  by (simp add: withdraw_promotion_def finish_decision_def Let_def)

section \<open>What an approval went through\<close>

lemma approve_request_InrE:
  assumes "approve_request rt env p payload con = (Inr out, con')" and "str_or payload ''decision'' ''approve'' = ''approve''"
  obtains row v plan con1 con2 where
    "fst (fst (evaluate_access rt p ''approve'' None (Some (''promotion:'' @ request_of payload)) True con))"
    "con1 = snd (evaluate_access rt p ''approve'' None (Some (''promotion:'' @ request_of payload)) True con)"
    "find (\<lambda>r. pr_id r = request_of payload \<and> pr_tenant r = tenant_of rt p) (promotion_requests (db con)) = Some row"
    "run_gate_runner rt env p payload row con1 = (Inr v, con2)"
    "check_promotion rt (unicode_tables env) (db con2) payload row v = Inr plan"
    "apply_approval rt p payload row plan con2 = (Inr out, con')"
    "ungated (db con2) = ungated (db con)"
proof -
  let ?ev = "evaluate_access rt p ''approve'' None (Some (''promotion:'' @ request_of payload)) True"
  let ?con1 = "snd (?ev con)"
  let ?find = "find (\<lambda>r. pr_id r = request_of payload \<and> pr_tenant r = tenant_of rt p)"
  have d: "map_of decision_states ''approve'' = Some ''approved''" by (simp add: decision_states_def)
  have allowed: "fst (fst (?ev con))"
    using assms by (simp add: approve_request_def d require_access_def case_prod_unfold Let_def split: if_splits)
  have reqs: "promotion_requests (db ?con1) = promotion_requests (db con)" by (rule unaudited_tables(10) [OF gate.gate_frame])
  note run = assms(1) [unfolded approve_request_def Let_def assms(2) d option.case gate.require_allowed [OF allowed] reqs]
  then obtain row where row: "?find (promotion_requests (db con)) = Some row" by (auto split: option.splits)
  with run have a: "approve_promotion rt env p payload row ?con1 = (Inr out, con')" by simp
  then obtain v con2 where v: "run_gate_runner rt env p payload row ?con1 = (Inr v, con2)"
    by (cases "run_gate_runner rt env p payload row ?con1"; cases "fst (run_gate_runner rt env p payload row ?con1)")
      (auto simp: approve_promotion_def)
  with a obtain plan where "check_promotion rt (unicode_tables env) (db con2) payload row v = Inr plan"
    "apply_approval rt p payload row plan con2 = (Inr out, con')"
    by (cases "check_promotion rt (unicode_tables env) (db con2) payload row v") (auto simp: approve_promotion_def lift_result_def)
  moreover have "ungated (db con2) = ungated (db con)"
    using runner_frame(1) [of rt env p payload row ?con1] ungated_unaudited [OF gate.gate_frame] v by (metis snd_conv)
  ultimately show thesis using that allowed row v by blast
qed

lemma check_promotion_pending:
  "check_promotion rt u d payload row v = Inr plan \<Longrightarrow> check_pending rt d payload row v = None"
  by (auto simp: check_promotion_def split: option.splits)

lemma unmet_none: "unmet_gates states = [] \<longleftrightarrow> list_all (\<lambda>n. map_of states n = Some ''passed'') (map fst default_promotion_gates)"
  by (auto simp: unmet_gates_def list_all_iff)

text \<open>The runner evaluates every gate, so that the merged states are its own.\<close>

lemma review_gates_complete:
  assumes "review_capability rt env p payload cm con = (Inr r, con')" "n \<in> set (map fst default_promotion_gates)"
  shows "gate_state (rr_gates r) n \<noteq> None"
proof (rule review_capability_cases [of rt env p payload cm con])
  fix cap con1
  assume f: "review_capability rt env p payload cm con = review_found rt env p payload cm cap con1"
  obtain sc where sc: "scope_for (db con1) cap (pget payload ''targetNamespaceId'') (pget payload ''reviewScope'') = Inr sc"
    using assms(1) f by (cases "scope_for (db con1) cap (pget payload ''targetNamespaceId'') (pget payload ''reviewScope'')")
      (auto simp: review_found_def lift_result_def)
  have "rr_gates r = fst (evaluate_gates rt env (db con1) cap (fst sc) (snd sc) (p_subject p)
      (json_truthy (pget payload ''approvedRiskException'')))"
    using assms(1) unfolding f review_found_def sc lift_result_Inr case_prod_unfold Let_def by (auto split: if_splits)
  then show ?thesis using assms(2) by (auto simp: default_promotion_gates_def evaluate_gates_states)
qed (use assms(1) in simp)

lemma map_of_merge_runner:
  "map_of (merge_runner runner kvs) n = (if n \<in> set (map fst default_promotion_gates) \<and> gate_state runner n \<noteq> None
     then gate_state runner n else map_of kvs n)"
proof -
  have "map_of (foldl (\<lambda>m (name, _). case gate_state runner name of None \<Rightarrow> m | Some s \<Rightarrow> dict_set name s m) m gs) n
      = (if n \<in> set (map fst gs) \<and> gate_state runner n \<noteq> None then gate_state runner n else map_of m n)"
    for gs :: "(string \<times> string) list" and m
    by (induction gs arbitrary: m) (auto simp: map_of_dict_set split: option.split)
  then show ?thesis by (simp add: merge_runner_def)
qed

text \<open>The two gates evaluated on the spot pass, or the caller overrides them.\<close>

lemma check_promotion_adhoc:
  assumes "check_promotion rt u d payload row v = Inr plan"
  shows "json_truthy (pget payload ''overridePendingGates'')
    \<or> ((\<forall>why. risk_tier_gate d row \<noteq> Some (False, why))
        \<and> fst (evaluate_prompt_injection_scan u d (pr_capability_uri row) (pr_target_namespace row)) \<noteq> ''failed'')"
proof -
  from assms obtain kvs where scan: "check_scan rt u d payload row v kvs = Inr plan"
    and risk: "check_risk payload (risk_tier_gate d row) = None"
    by (auto simp: check_promotion_def split: option.splits)
  from scan have "overridden payload
      \<or> fst (evaluate_prompt_injection_scan u d (pr_capability_uri row) (pr_target_namespace row)) \<noteq> ''failed''"
    by (auto simp: check_scan_def case_prod_unfold Let_def split: if_splits)
  with risk show ?thesis
    by (auto simp: overridden_def check_risk_def split: option.splits if_splits)
qed

lemma risk_tier_gate_cong:
  "\<lbrakk>capabilities d = capabilities d'; namespaces d = namespaces d'; stores d = stores d'\<rbrakk>
   \<Longrightarrow> risk_tier_gate d row = risk_tier_gate d' row"
  unfolding risk_tier_gate_def row_at_def by (simp only:)

lemma evaluate_scan_cong:
  "\<lbrakk>capabilities d = capabilities d'; namespaces d = namespaces d'; stores d = stores d'\<rbrakk>
   \<Longrightarrow> evaluate_prompt_injection_scan u d uri ns = evaluate_prompt_injection_scan u d' uri ns"
  unfolding evaluate_prompt_injection_scan_def by (simp only:)

section \<open>Properties\<close>

text \<open>C5. In production an approval needs every gate: approve_request succeeds with the decision
  approve only when none of the seven gates is short of passed, as the gate runner has just found on
  the current content or, where the runner refuses to run, as the request has them stored, and the row
  of the capability has a verified signature, a verified provenance and an approved risk review. No
  override lifts this. The two gates that approve_request then evaluates itself on the current tables,
  riskTierPolicy and promptInjectionScan, must not fail either, unless the caller sets
  overridePendingGates, which lifts these two also in production.\<close>

theorem production_promotion_needs_every_gate:
  assumes "approve_request rt env p payload con = (Inr out, con')"
    and "str_or payload ''decision'' ''approve'' = ''approve''" and "production_environment rt"
  shows "\<exists>row c. find (\<lambda>r. pr_id r = request_of payload \<and> pr_tenant r = tenant_of rt p) (promotion_requests (db con)) = Some row
    \<and> row_at (db con) (pr_capability_uri row) = Some c \<and> c_signature_status c = ''verified''
    \<and> c_provenance_status c = ''verified'' \<and> c_risk_review_status c = ''approved''
    \<and> (case fst (review_capability rt env p (runner_request payload row) True
          (snd (evaluate_access rt p ''approve'' None (Some (''promotion:'' @ request_of payload)) True con))) of
        Inr r \<Rightarrow> list_all (\<lambda>n. gate_state (rr_gates r) n = Some ''passed'') (map fst default_promotion_gates)
      | Inl e \<Rightarrow> list_all (\<lambda>n. map_of (gv_states (stored_gates (pr_gates row))) n = Some ''passed'') (map fst default_promotion_gates))
    \<and> (json_truthy (pget payload ''overridePendingGates'')
        \<or> ((\<forall>why. risk_tier_gate (db con) row \<noteq> Some (False, why))
            \<and> fst (evaluate_prompt_injection_scan (unicode_tables env) (db con) (pr_capability_uri row) (pr_target_namespace row))
                \<noteq> ''failed''))"
proof -
  from assms(1,2) obtain row v plan con1 con2 where
    c1: "con1 = snd (evaluate_access rt p ''approve'' None (Some (''promotion:'' @ request_of payload)) True con)"
    and row: "find (\<lambda>r. pr_id r = request_of payload \<and> pr_tenant r = tenant_of rt p) (promotion_requests (db con)) = Some row"
    and v: "run_gate_runner rt env p payload row con1 = (Inr v, con2)"
    and plan: "check_promotion rt (unicode_tables env) (db con2) payload row v = Inr plan"
    and same: "ungated (db con2) = ungated (db con)" by (rule approve_request_InrE)
  have "check_pending rt (db con2) payload row v = None" by (rule check_promotion_pending [OF plan])
  then have ok: "unmet_gates (gv_states v) = []" "secured (row_at (db con2) (pr_capability_uri row))"
    using assms(3) by (auto simp: check_pending_def split: if_splits)
  have "secured (row_at (db con) (pr_capability_uri row))"
    using ok(2) ungated_tables(1) [OF same] by (simp add: row_at_def)
  then obtain c where sec: "row_at (db con) (pr_capability_uri row) = Some c" "c_signature_status c = ''verified''"
    "c_provenance_status c = ''verified''" "c_risk_review_status c = ''approved''"
    by (auto simp: secured_def split: option.splits)
  have adhoc: "json_truthy (pget payload ''overridePendingGates'')
      \<or> ((\<forall>why. risk_tier_gate (db con) row \<noteq> Some (False, why))
          \<and> fst (evaluate_prompt_injection_scan (unicode_tables env) (db con) (pr_capability_uri row) (pr_target_namespace row))
              \<noteq> ''failed'')"
    using check_promotion_adhoc [OF plan] risk_tier_gate_cong [OF ungated_tables(1-3) [OF same], of row]
      evaluate_scan_cong [OF ungated_tables(1-3) [OF same]] by simp
  have "case fst (review_capability rt env p (runner_request payload row) True con1) of
      Inr r \<Rightarrow> list_all (\<lambda>n. gate_state (rr_gates r) n = Some ''passed'') (map fst default_promotion_gates)
    | Inl e \<Rightarrow> list_all (\<lambda>n. map_of (gv_states (stored_gates (pr_gates row))) n = Some ''passed'') (map fst default_promotion_gates)"
  proof (cases "review_capability rt env p (runner_request payload row) True con1")
    case (Pair x con3)
    show ?thesis
    proof (cases x)
      case (Inl e)
      with v Pair have "v = stored_gates (pr_gates row)"
        by (auto simp: run_gate_runner_def Let_def split: py_error.splits)
      with ok(1) Pair Inl show ?thesis by (simp add: unmet_none)
    next
      case (Inr r)
      obtain kvs where "gv_states v = merge_runner (rr_gates r) kvs"
        using v Pair Inr by (auto simp: run_gate_runner_def runner_view_def Let_def split: option.splits)
      moreover have "gate_state (rr_gates r) n \<noteq> None" if "n \<in> set (map fst default_promotion_gates)" for n
        using review_gates_complete [OF Pair [unfolded Inr] that] .
      ultimately show ?thesis using ok(1) Pair Inr by (auto simp: unmet_none list_all_iff map_of_merge_runner)
    qed
  qed
  with row sec adhoc c1 show ?thesis by blast
qed

text \<open>C12. A refused decision promotes nothing: whenever approve_request raises, nothing becomes
  durable, and except for a clash of tuple keys found while the new address is written, the connection
  itself differs from before at most in the recorded policy decisions and in the gate states of the
  request.\<close>

theorem refused_decision_promotes_nothing:
  assumes "approve_request rt env p payload con = (Inl e, con')"
  shows "durable con' = durable con \<and> ((\<exists>m. e = IntegrityError m) \<or> ungated (db con') = ungated (db con))"
proof -
  let ?ev = "evaluate_access rt p ''approve'' None (Some (''promotion:'' @ request_of payload)) True"
  let ?con1 = "snd (?ev con)"
  have c1: "ungated (db ?con1) = ungated (db con)" "durable ?con1 = durable con"
    by (rule ungated_unaudited, rule gate.gate_frame) simp
  show ?thesis
  proof (cases "map_of decision_states (str_or payload ''decision'' ''approve'')")
    case None
    with assms show ?thesis by (simp add: approve_request_def Let_def)
  next
    case (Some st)
    show ?thesis
    proof (cases "fst (fst (?ev con))")
      case False
      with assms Some have "con' = ?con1"
        by (simp add: approve_request_def require_access_def case_prod_unfold Let_def)
      with c1 show ?thesis by simp
    next
      case True
      note run = assms [unfolded approve_request_def Let_def Some option.case gate.require_allowed [OF True]]
      show ?thesis
      proof (cases "find (\<lambda>r. pr_id r = request_of payload \<and> pr_tenant r = tenant_of rt p) (promotion_requests (db ?con1))")
        case None
        with run c1 show ?thesis by auto
      next
        case (Some row)
        note run = run [unfolded Some option.case]
        show ?thesis
        proof (cases "str_or payload ''decision'' ''approve'' = ''approve''")
          case True
          then have "approve_promotion rt env p payload row ?con1 = (Inl e, con')" using run by simp
          from approve_promotion_raises [OF this] c1 show ?thesis by simp
        next
          case False
          then show ?thesis
            using run withdraw_returns [of rt p payload row "str_or payload ''decision'' ''approve''" st ?con1] by auto
        qed
      qed
    qed
  qed
qed

text \<open>An approval that succeeds, write by write.\<close>

lemma update_where_same: "(\<And>r. r \<in> set t \<Longrightarrow> p r \<Longrightarrow> f r = r) \<Longrightarrow> update_where p f t = t"
  by (induction t) (auto simp: update_where_def)

lemma update_where_twice:
  "(\<And>r. p (f r) = p r) \<Longrightarrow> update_where p g (update_where p f t) = update_where p (\<lambda>r. g (f r)) t"
  by (induction t) (auto simp: update_where_def)

lemma move_tuples_same: "move_tuples t u u ts = ts"
  by (auto simp: move_tuples_def intro: update_where_same)

lemma shares_same: "update_where (\<lambda>s. sh_capability_uri s = u) (sh_capability_uri_update (\<lambda>_. u)) t = t"
  by (rule update_where_same) simp

lemma promoted_in_place:
  "update_where (\<lambda>c. c_uri c = u) (\<lambda>c. (promote_columns s n c)\<lparr>c_uri := u\<rparr>) t = update_where (\<lambda>c. c_uri c = u) (promote_columns s n) t"
  by (induction t) (auto simp: update_where_Cons promote_columns_def)

lemma apply_approval_effect:
  assumes "apply_approval rt p payload row plan con = (Inr out, con')"
  shows "capabilities (db con') = update_where (\<lambda>c. c_uri c = pr_capability_uri row)
      (\<lambda>c. (promote_columns (pl_store plan) (pr_target_namespace row) c)\<lparr>c_uri := pl_uri plan\<rparr>) (capabilities (db con))
    \<and> relationship_tuples (db con') = move_tuples (tenant_of rt p) (pr_capability_uri row) (pl_uri plan) (relationship_tuples (db con))
    \<and> shares (db con') = update_where (\<lambda>s. sh_capability_uri s = pr_capability_uri row)
      (sh_capability_uri_update (\<lambda>_. pl_uri plan)) (shares (db con))
    \<and> durable con' = db con'"
proof (cases "pl_uri plan = pr_capability_uri row")
  case True
  then show ?thesis using assms unfolding apply_approval_def True
    by (auto simp: Let_def finish_decision_def decide_rows_def set_gates_def refresh_catalog_generation_def
      move_tuples_same shares_same promoted_in_place split: option.split)
next
  case False
  then show ?thesis using assms unfolding apply_approval_def
    by (auto simp: Let_def remint_def finish_decision_def decide_rows_def set_gates_def refresh_catalog_generation_def
      update_where_twice promote_columns_def split: if_splits option.split)
qed

lemma check_promotion_address:
  assumes "check_promotion rt u d payload row v = Inr plan"
    and "find (\<lambda>n. ns_id n = pr_target_namespace row) (namespaces d) = Some n" and "row_at d (pr_capability_uri row) = Some c"
  shows "pl_uri plan = promoted_address n c \<and> pl_store plan = Some (ns_store n)
    \<and> (promoted_address n c = pr_capability_uri row \<or> row_at d (promoted_address n c) = None)"
proof -
  from assms(1) obtain kvs where "check_scan rt u d payload row v kvs = Inr plan"
    by (auto simp: check_promotion_def split: option.splits prod.splits)
  then show ?thesis
    by (auto simp: check_scan_def plan_address_def assms(2,3) Let_def split: prod.splits if_splits)
qed

text \<open>The columns an approval writes, one by one.\<close>

lemma promoted_columns_written:
  "map (\<lambda>r. if c_uri r = u then (promote_columns s ns r)\<lparr>c_uri := new\<rparr> else r) t
   = map (\<lambda>r. if c_uri r = u then r\<lparr>c_uri := new, c_approval_state := ''approved'',
        c_lifecycle := (if c_lifecycle r = ''draft'' then ''published'' else c_lifecycle r),
        c_store_id := s, c_namespace_id := Some ns,
        c_promoted_from_uri := Some (case c_promoted_from_uri r of None \<Rightarrow> u | Some v \<Rightarrow> v),
        c_signature_status := (if c_signature_status r = ''unchecked'' then ''pending'' else c_signature_status r),
        c_provenance_status := (if c_provenance_status r = ''unchecked'' then ''pending'' else c_provenance_status r),
        c_risk_review_status := (if c_risk_review_status r = ''pending'' then ''approved'' else c_risk_review_status r)\<rparr>
      else r) t"
  by (rule map_cong) (auto simp: promote_columns_def split: option.split)

text \<open>C11. An approval moves the capability whole: once a request for a known capability and namespace
  is approved, the row of the capability is at the plugin-qualified address of the target namespace
  (prefix/type/plugin.name@version), in that namespace and its store, with approval state approved; a
  draft or published lifecycle becomes published and any other one (retired, recalled, yanked) stays; the
  address it came from is remembered unless one is recorded, and unchecked signature or provenance becomes
  pending, a pending risk review approved. The new address was free before, the tuples of the tenant and the
  shares that named the old address name the new one, no other row changes, and all of it is committed.\<close>

theorem approved_capability_moves:
  assumes "approve_request rt env p payload con = (Inr out, con')" and "str_or payload ''decision'' ''approve'' = ''approve''"
    and "find (\<lambda>r. pr_id r = request_of payload \<and> pr_tenant r = tenant_of rt p) (promotion_requests (db con)) = Some row"
    and "find (\<lambda>n. ns_id n = pr_target_namespace row) (namespaces (db con)) = Some n"
    and "row_at (db con) (pr_capability_uri row) = Some c"
    and new: "new = rstrip_chars ''/'' (ns_uri_prefix n) @ ''/'' @ c_type c @ ''/''
               @ slugify (or_else (c_plugin c) ''global'') @ ''.'' @ slugify (c_name c) @ ''@'' @ c_version c"
  shows "(new = pr_capability_uri row \<or> row_at (db con) new = None)
    \<and> capabilities (db con') = map (\<lambda>r. if c_uri r = pr_capability_uri row
        then r\<lparr>c_uri := new, c_approval_state := ''approved'',
          c_lifecycle := (if c_lifecycle r = ''draft'' then ''published'' else c_lifecycle r),
          c_store_id := Some (ns_store n), c_namespace_id := Some (pr_target_namespace row),
          c_promoted_from_uri := Some (case c_promoted_from_uri r of None \<Rightarrow> pr_capability_uri row | Some u \<Rightarrow> u),
          c_signature_status := (if c_signature_status r = ''unchecked'' then ''pending'' else c_signature_status r),
          c_provenance_status := (if c_provenance_status r = ''unchecked'' then ''pending'' else c_provenance_status r),
          c_risk_review_status := (if c_risk_review_status r = ''pending'' then ''approved'' else c_risk_review_status r)\<rparr>
        else r) (capabilities (db con))
    \<and> relationship_tuples (db con') = map (\<lambda>t. if rt_tenant t = tenant_of rt p \<and> rt_object t = pr_capability_uri row
        then t\<lparr>rt_object := new\<rparr> else t) (relationship_tuples (db con))
    \<and> shares (db con') = map (\<lambda>s. if sh_capability_uri s = pr_capability_uri row
        then s\<lparr>sh_capability_uri := new\<rparr> else s) (shares (db con))
    \<and> durable con' = db con'"
proof -
  from assms(1,2) obtain row' v plan con1 con2 where
    row': "find (\<lambda>r. pr_id r = request_of payload \<and> pr_tenant r = tenant_of rt p) (promotion_requests (db con)) = Some row'"
    and plan: "check_promotion rt (unicode_tables env) (db con2) payload row' v = Inr plan"
    and eff: "apply_approval rt p payload row' plan con2 = (Inr out, con')"
    and same: "ungated (db con2) = ungated (db con)" by (rule approve_request_InrE)
  have [simp]: "row' = row" using row' assms(3) by simp
  note tabs = ungated_tables [OF same]
  have "pl_uri plan = promoted_address n c \<and> pl_store plan = Some (ns_store n)
      \<and> (promoted_address n c = pr_capability_uri row \<or> row_at (db con2) (promoted_address n c) = None)"
    using check_promotion_address [OF plan] assms(4,5) tabs(1,2) by (simp add: row_at_def)
  moreover have "new = promoted_address n c" using new by (simp add: promoted_address_def)
  ultimately show ?thesis
    using apply_approval_effect [OF eff] tabs(1,4,5) promoted_columns_written [of "pr_capability_uri row"]
    by (simp add: row_at_def move_tuples_def update_where_def)
qed

section \<open>Witnesses\<close>

text \<open>An empty skill that the guard holds in quarantine, so that the gate runner does not find it and
  the states of the request decide.\<close>

definition production_runtime :: runtime where
  "production_runtime = sample_runtime\<lparr>environ := [''CAPMESH_ENVIRONMENT'' \<mapsto> ''production'']\<rparr>"

definition held_skill :: capability where
  "held_skill = sample_capability\<lparr>c_uri := ''cap://private/asg/ann/skill/p.s@1.0.0'', c_signature_status := ''verified'',
     c_provenance_status := ''verified'', c_risk_review_status := ''approved''\<rparr>"

definition team_namespace :: namespace_row where
  "team_namespace = \<lparr>ns_id = ''ns_team'', ns_tenant = ''asg'', ns_store = ''store_org'', ns_name = ''team'',
     ns_uri_prefix = ''cap://org/asg/team/'', ns_visibility = ''internal'', ns_owner = ''asg'', ns_description = [],
     ns_lifecycle = ''active''\<rparr>"

definition team_request :: "string \<Rightarrow> promotion_row" where
  "team_request state = \<lparr>pr_id = ''prq_1'', pr_tenant = ''asg'', pr_capability_uri = c_uri held_skill, pr_source_store = None,
     pr_target_namespace = ''ns_team'', pr_requested_by = ''ann@example.com'', pr_state = ''pending'', pr_title = [],
     pr_rationale = [], pr_version = [], pr_gates = GatesObject (map (\<lambda>(n, _). (n, state)) default_promotion_gates),
     pr_created_at = [], pr_decided_at = None\<rparr>"

definition team_conn :: "string \<Rightarrow> conn" where
  "team_conn state = sample_conn (empty_database\<lparr>capabilities := [held_skill], namespaces := [team_namespace],
     stores := [sample_store ''store_org'' ''asg'' ''org''], promotion_requests := [team_request state],
     capguard_quarantine := [\<lparr>qt_id = ''qtn_1'', qt_tenant = ''asg'', qt_capability_uri = c_uri held_skill,
       qt_capability_type = ''skill'', qt_name = ''s'', qt_version = ''1.0.0'', qt_source_path = ''/s'',
       qt_content_hash = c_content_hash held_skill, qt_reason = ''pending_scan'', qt_status = ''quarantined'',
       qt_submitted_by = None, qt_metadata = JObj [], qt_created_at = [], qt_updated_at = [], qt_released_at = None,
       qt_rejected_at = None\<rparr>]\<rparr>)"

abbreviation team_payload :: payload where
  "team_payload \<equiv> [(''requestId'', JStr ''prq_1'')]"

lemmas team_defs = team_conn_def team_request_def team_namespace_def held_skill_def sample_store_def sample_conn_def
  empty_database_def sample_capability_def

lemma team_tables:
  "identities (db (team_conn state)) = []" "relationship_tuples (db (team_conn state)) = []"
  "capabilities (db (team_conn state)) = [held_skill]" "namespaces (db (team_conn state)) = [team_namespace]"
  "stores (db (team_conn state)) = [sample_store ''store_org'' ''asg'' ''org'']"
  "promotion_requests (db (team_conn state)) = [team_request state]" "shares (db (team_conn state)) = []"
  "capguard_is_held (db (team_conn state)) held_skill" "cache_coherent (db (team_conn state)) (org_cache (team_conn state))"
  by (simp_all add: team_conn_def sample_conn_def empty_database_def capguard_is_held_def held_skill_def sample_capability_def)

lemma team_reviewer_allowed:
  assumes "right \<in> set RIGHTS"
  shows "access_allowed production_runtime (db (team_conn state)) sample_reviewer right None res"
proof -
  have "\<not> guard_denies production_runtime (db (team_conn state)) sample_reviewer right None res"
    using team_tables(1,2) [of state]
    by (simp add: guard_denies_def is_disabled_def capability_blocked_def integrity_violated_def deny_match_def
        tuple_match_def order_by_desc_def order_by_def sample_reviewer_def sample_principal_def)
  then show ?thesis using assms by (auto simp: sample_reviewer_def intro!: global_admin_allowed)
qed

lemma authorize_refuses: "fst (authorize rt p con) = Inl e \<Longrightarrow> \<exists>m. e = PermissionError m"
proof -
  have "fst (authorize_rights rt p rights con) = Inl e \<Longrightarrow> \<exists>m. e = PermissionError m" for rights
    by (induction rights arbitrary: con) (auto simp: Let_def case_prod_unfold split: if_splits)
  then show "fst (authorize rt p con) = Inl e \<Longrightarrow> \<exists>m. e = PermissionError m" by (simp only: authorize_def)
qed

text \<open>A capability the runner cannot find is judged by the states the request has.\<close>

lemma runner_not_found:
  assumes "get_capability (db con) (identifier_of (runner_request payload row)) = None"
  shows "fst (run_gate_runner rt env p payload row con) = Inr (stored_gates (pr_gates row))"
proof -
  obtain a con1 where a: "authorize rt p con = (a, con1)" by fastforce
  have con1: "db con1 = db con" using authorize_frame [of rt p con] by (simp add: a)
  have "\<exists>m con2. review_capability rt env p (runner_request payload row) True con \<in> {(Inl (ValueError m), con2), (Inl (PermissionError m), con2)}"
    using authorize_refuses [of rt p con] a assms con1
    by (cases a) (auto simp: review_capability_def simp del: insert_iff intro: exI)
  then show ?thesis by (auto simp: run_gate_runner_def Let_def)
qed

lemma team_not_found:
  assumes "ungated d = ungated (db (team_conn state))"
  shows "get_capability d (identifier_of (runner_request team_payload (team_request state))) = None"
proof -
  have q: "capguard_quarantine d = capguard_quarantine (db (team_conn state))"
    using assms by (cases d) (simp add: ungated_def team_conn_def sample_conn_def empty_database_def)
  have "identifier_of (runner_request team_payload (team_request state)) = c_uri held_skill"
    by (simp add: identifier_of_def pget_def json_or_def json_truthy_def py_str_def team_request_def held_skill_def
        py_strip_def py_lstrip_def py_rstrip_def py_isspace_def)
  moreover have "capability_from_row held_skill = held_skill"
    by (simp add: capability_from_row_def held_skill_def sample_capability_def DISCOVERY_MODES_def VISIBILITIES_def
        CAPABILITY_TYPES_def RISK_TIERS_def Let_def)
  ultimately show ?thesis
    using ungated_tables(1) [OF assms] team_tables(3,8) [of state] q by (simp add: get_capability_def capguard_is_held_def)
qed

lemma team_scan_clean:
  assumes "ungated d = ungated (db (team_conn state))"
  shows "fst (evaluate_prompt_injection_scan plain_unicode d (c_uri held_skill) ''ns_team'') = ''passed''"
proof -
  let ?t = "''s'' @ [CHR 0x0A] @ ''S'' @ [CHR 0x0A] @ ''a skill'' @ [CHR 0x0A] @ ''{}''"
  have "list_all plain_code (codes ?t)" by (simp add: codes_def plain_code_def)
  note n = compact_normalized [OF plain_unicode_ok this]
  have seen: "seen (codes ?t) = codes ''ssaskill{}''"
    by (simp add: seen_def codes_def ZERO_WIDTH_def unicode_space_def ascii_lower_def fold_homoglyph_def HOMOGLYPHS_def)
  have "filter (\<lambda>p. substring_in (codes (despaced p)) (codes ''ssaskill{}'')) INJECTION_PHRASES = []"
    unfolding substring_in_codes by code_simp
  then have "scan_prompt_injection plain_unicode (codes ?t) = []" unfolding scan_reads_compact n seen .
  then show ?thesis
    using ungated_tables(1-3) [OF assms] team_tables(3-5) [of state]
    by (simp add: evaluate_prompt_injection_scan_def team_namespace_def sample_store_def held_skill_def sample_capability_def
        should_block_def filter_scan_hits_def Let_def case_prod_unfold)
qed

lemma team_request_runs:
  fixes state :: string
  defines "con1 \<equiv> snd (evaluate_access production_runtime sample_reviewer ''approve'' None (Some ''promotion:prq_1'') True (team_conn state))"
  obtains con2 where "ungated (db con2) = ungated (db (team_conn state))"
    "approve_request production_runtime open_world sample_reviewer team_payload (team_conn state)
      = and_then (lift_result (check_promotion production_runtime plain_unicode (db con2) team_payload (team_request state)
          (stored_gates (pr_gates (team_request state)))) con2)
        (\<lambda>plan. apply_approval production_runtime sample_reviewer team_payload (team_request state) plan)"
proof -
  let ?ev = "evaluate_access production_runtime sample_reviewer ''approve'' None (Some ''promotion:prq_1'') True"
  have allowed: "fst (fst (?ev (team_conn state)))"
    using team_reviewer_allowed [of "''approve''" state] by (simp add: evaluate_access_allowed(1) [OF team_tables(9)] RIGHTS_def)
  have c1: "ungated (db con1) = ungated (db (team_conn state))"
    unfolding con1_def by (rule ungated_unaudited, rule gate.gate_frame)
  obtain v con2 where r: "run_gate_runner production_runtime open_world sample_reviewer team_payload (team_request state) con1 = (v, con2)" by fastforce
  have v: "v = Inr (stored_gates (pr_gates (team_request state)))"
    using runner_not_found [OF team_not_found [OF c1], of production_runtime open_world sample_reviewer] r by simp
  have c2: "ungated (db con2) = ungated (db (team_conn state))"
    using runner_frame(1) [of production_runtime open_world sample_reviewer team_payload "team_request state" con1] r c1 by simp
  have id: "request_of team_payload = ''prq_1''" "str_or team_payload ''decision'' ''approve'' = ''approve''"
    "map_of decision_states ''approve'' = Some ''approved''"
    by (simp_all add: request_of_def str_or_def json_or_def json_truthy_def py_str_def pget_def decision_states_def)
  have req: "promotion_requests (db con1) = [team_request state]"
    using unaudited_tables(10) [OF gate.gate_frame] team_tables(6) unfolding con1_def by metis
  have "approve_request production_runtime open_world sample_reviewer team_payload (team_conn state)
      = approve_promotion production_runtime open_world sample_reviewer team_payload (team_request state) con1"
    unfolding approve_request_def Let_def id option.case append.simps gate.require_allowed [OF allowed] con1_def [symmetric] req
    by (simp add: team_request_def sample_reviewer_def sample_principal_def tenant_of_def)
  moreover have "unicode_tables open_world = plain_unicode" by (simp add: open_world_def)
  ultimately show thesis using that [OF c2] by (simp add: approve_promotion_def r v)
qed

lemma production_runtime_is: "production_environment production_runtime"
  by (simp add: production_environment_def production_runtime_def py_strip_def py_lstrip_def py_rstrip_def py_lower_def py_isspace_def lower_char_def)

lemma slug_letters: "slugify ''p'' = ''p''" "slugify ''s'' = ''s''"
  by (simp_all add: slugify_def strip_chars_def lstrip_chars_def rstrip_chars_def py_strip_def py_lstrip_def py_rstrip_def
      py_isspace_def py_lower_def lower_char_def slug_safe_def word_char_def py_isalnum_def
      ascii_alpha_def Let_def)

lemma team_address: "promoted_address team_namespace held_skill = ''cap://org/asg/team/skill/p.s@1.0.0''"
  by (simp add: promoted_address_def team_namespace_def held_skill_def sample_capability_def or_else_def slug_letters rstrip_chars_def)

lemma apply_approval_returns:
  "relationship_tuples (db con) = [] \<Longrightarrow> \<exists>out con'. apply_approval rt p payload row plan con = (Inr out, con')"
  by (cases "pl_marker plan") (simp_all add: apply_approval_def Let_def remint_def finish_decision_def decide_rows_def set_gates_def move_tuples_def)

lemma team_request_granted: "\<exists>out con'. approve_request production_runtime open_world sample_reviewer team_payload (team_conn ''passed'') = (Inr out, con')"
proof -
  obtain con2 where c2: "ungated (db con2) = ungated (db (team_conn ''passed''))"
    "approve_request production_runtime open_world sample_reviewer team_payload (team_conn ''passed'')
      = and_then (lift_result (check_promotion production_runtime plain_unicode (db con2) team_payload (team_request ''passed'')
          (stored_gates (pr_gates (team_request ''passed'')))) con2)
        (\<lambda>plan. apply_approval production_runtime sample_reviewer team_payload (team_request ''passed'') plan)"
    by (rule team_request_runs)
  note tabs = ungated_tables(1-4) [OF c2(1), unfolded team_tables]
  have row: "row_at (db con2) (pr_capability_uri (team_request ''passed'')) = Some held_skill"
    by (simp add: row_at_def tabs team_request_def)
  have gates: "stored_gates (pr_gates (team_request ''passed'')) = \<lparr>gv_gates = Some (map (\<lambda>(n, _). (n, ''passed'')) default_promotion_gates),
      gv_states = map (\<lambda>(n, _). (n, ''passed'')) default_promotion_gates, gv_pending = [], gv_failed = []\<rparr>"
    by (simp add: stored_gates_def team_request_def default_promotion_gates_def)
  have pend: "check_pending production_runtime (db con2) team_payload (team_request ''passed'') (stored_gates (pr_gates (team_request ''passed''))) = None"
    unfolding gates by (simp add: check_pending_def row unmet_none secured_def held_skill_def default_promotion_gates_def)
  have "risk_tier_gate (db con2) (team_request ''passed'') = Some (True, ''org/private vaults are allowlisted for all risk tiers'')"
    unfolding risk_tier_gate_def row tabs
    by (simp add: team_request_def team_namespace_def sample_store_def evaluate_risk_tier_policy_def)
  moreover have "fst (evaluate_prompt_injection_scan plain_unicode (db con2) (pr_capability_uri (team_request ''passed''))
      (pr_target_namespace (team_request ''passed''))) = ''passed''"
    using team_scan_clean [OF c2(1)] by (simp add: team_request_def)
  moreover have "\<exists>a. plan_address production_runtime (db con2) (team_request ''passed'') = Inr a"
  proof -
    have ns: "find (\<lambda>n. ns_id n = pr_target_namespace (team_request ''passed'')) [team_namespace] = Some team_namespace"
      by (simp add: team_request_def team_namespace_def)
    have "row_at (db con2) (promoted_address team_namespace held_skill) = None"
      unfolding team_address row_at_def tabs by (simp add: held_skill_def)
    then show ?thesis unfolding plan_address_def row tabs ns by simp
  qed
  ultimately obtain plan where "check_promotion production_runtime plain_unicode (db con2) team_payload (team_request ''passed'')
      (stored_gates (pr_gates (team_request ''passed''))) = Inr plan"
    unfolding check_promotion_def pend by (auto simp: gates check_risk_def check_scan_def case_prod_unfold Let_def)
  then show ?thesis using c2(2) apply_approval_returns [OF tabs(4)] by simp
qed

lemma team_decision: "request_of team_payload = ''prq_1''" "str_or team_payload ''decision'' ''approve'' = ''approve''"
  by (simp_all add: request_of_def str_or_def json_or_def json_truthy_def py_str_def pget_def)

lemma team_row: "find (\<lambda>r. pr_id r = request_of team_payload \<and> pr_tenant r = tenant_of rt sample_reviewer)
    (promotion_requests (db (team_conn state))) = Some (team_request state)"
  unfolding team_tables team_decision by (simp add: team_request_def sample_reviewer_def sample_principal_def tenant_of_def)

theorem production_promotion_needs_every_gate_witness:
  "\<exists>c. row_at (db (team_conn ''passed'')) (c_uri held_skill) = Some c \<and> c_signature_status c = ''verified''
     \<and> c_provenance_status c = ''verified'' \<and> c_risk_review_status c = ''approved''
     \<and> (\<forall>why. risk_tier_gate (db (team_conn ''passed'')) (team_request ''passed'') \<noteq> Some (False, why))"
proof -
  obtain out con' where "approve_request production_runtime open_world sample_reviewer team_payload (team_conn ''passed'') = (Inr out, con')"
    using team_request_granted by blast
  moreover have "\<not> json_truthy (pget team_payload ''overridePendingGates'')" by (simp add: pget_def json_truthy_def)
  moreover have "pr_capability_uri (team_request ''passed'') = c_uri held_skill" by (simp add: team_request_def)
  ultimately show ?thesis
    using production_promotion_needs_every_gate [of production_runtime open_world sample_reviewer team_payload
        "team_conn ''passed''" out con', OF _ team_decision(2) production_runtime_is] team_row [of production_runtime]
    by auto
qed

theorem refused_decision_promotes_nothing_witness:
  "\<exists>e con'. approve_request production_runtime open_world sample_reviewer team_payload (team_conn ''pending'') = (Inl e, con')
     \<and> durable con' = db (team_conn ''pending'')"
proof -
  obtain con2 where c2: "approve_request production_runtime open_world sample_reviewer team_payload (team_conn ''pending'')
      = and_then (lift_result (check_promotion production_runtime plain_unicode (db con2) team_payload (team_request ''pending'')
          (stored_gates (pr_gates (team_request ''pending'')))) con2)
        (\<lambda>plan. apply_approval production_runtime sample_reviewer team_payload (team_request ''pending'') plan)"
    by (rule team_request_runs)
  have "gv_pending (stored_gates (pr_gates (team_request ''pending''))) \<noteq> []"
    by (simp add: stored_gates_def team_request_def default_promotion_gates_def)
  moreover have "\<not> overridden team_payload" by (simp add: overridden_def pget_def json_truthy_def)
  ultimately obtain e where "check_promotion production_runtime plain_unicode (db con2) team_payload (team_request ''pending'')
      (stored_gates (pr_gates (team_request ''pending''))) = Inl e" by (simp add: check_promotion_def check_pending_def)
  then have "approve_request production_runtime open_world sample_reviewer team_payload (team_conn ''pending'') = (Inl e, con2)"
    using c2 by simp
  with refused_decision_promotes_nothing [OF this] show ?thesis by (simp add: team_conn_def sample_conn_def)
qed

theorem approved_capability_moves_witness:
  "\<exists>out con'. approve_request production_runtime open_world sample_reviewer team_payload (team_conn ''passed'') = (Inr out, con')
     \<and> map c_uri (capabilities (durable con')) = [''cap://org/asg/team/skill/p.s@1.0.0'']"
proof -
  obtain out con' where r: "approve_request production_runtime open_world sample_reviewer team_payload (team_conn ''passed'') = (Inr out, con')"
    using team_request_granted by blast
  have n: "find (\<lambda>n. ns_id n = pr_target_namespace (team_request ''passed'')) (namespaces (db (team_conn ''passed''))) = Some team_namespace"
    unfolding team_tables by (simp add: team_request_def team_namespace_def)
  have c: "row_at (db (team_conn ''passed'')) (pr_capability_uri (team_request ''passed'')) = Some held_skill"
    unfolding row_at_def team_tables by (simp add: team_request_def)
  from approved_capability_moves [OF r team_decision(2) team_row n c refl]
  have "map c_uri (capabilities (durable con')) = [promoted_address team_namespace held_skill]"
    unfolding team_tables by (simp add: promoted_address_def team_request_def)
  then have "map c_uri (capabilities (durable con')) = [''cap://org/asg/team/skill/p.s@1.0.0'']"
    by (simp add: team_address)
  with r show ?thesis by (intro exI conjI)
qed

end
