(* ===== verification/Cap_Guard.thy ===== *)
theory Cap_Guard
  imports Access_Control Py_Payload
begin

text \<open>
  The runtime guard (\<^verbatim>\<open>cap_guard.py\<close>): its vocabularies, the results of single controls, the policy and
  the verdict, each with the checks of its constructor, and the decision itself, which is pure. A scan
  result is a dictionary as the scanner or a caller hands it over, so that its parts may have the wrong
  type; the exceptions this causes are errors of the model.
\<close>

section \<open>Vocabularies\<close>

definition ISOLATION_MODES :: "string list" where
  "ISOLATION_MODES = [''none'', ''cire'', ''camber'']"

definition CHECK_STATES :: "string list" where
  "CHECK_STATES = [''pending'', ''passed'', ''failed'']"

definition GUARD_ACTIONS :: "string list" where
  "GUARD_ACTIONS = [''allow'', ''deny'', ''quarantine'']"

definition GUARD_RISK_TIERS :: "string list" where
  "GUARD_RISK_TIERS = [''low'', ''medium'', ''high'', ''critical'']"

definition SEVERITIES :: "string list" where
  "SEVERITIES = [''low'', ''medium'', ''high'', ''critical'']"

definition DEFAULT_CHECKS :: "string list" where
  "DEFAULT_CHECKS = [''malwareScan'', ''signature'', ''provenance'', ''promptInjectionScan'', ''riskTierPolicy'']"

definition QUARANTINE_RECORD_STATUSES :: "string list" where
  "QUARANTINE_RECORD_STATUSES = [''held'', ''released'', ''rejected'']"

definition strings :: "string list \<Rightarrow> json" where
  "strings xs = JList (map JStr xs)"

section \<open>Findings\<close>

text \<open>\<^verbatim>\<open>sum(1 for f in findings if f.get("severity") == s)\<close>\<close>

definition count_severity :: "string \<Rightarrow> json \<Rightarrow> py_error + int" where
  "count_severity sev findings = bind_sum (iterate findings) (\<lambda>fs.
     if list_all is_dict fs then Inr (int (length (filter (\<lambda>f. get_of ''severity'' f = JStr sev) fs)))
     else Inl (AttributeErr ''object has no attribute get''))"

section \<open>Results of controls\<close>

record check_result =
  ck_name :: string
  ck_state :: string
  ck_severity :: string
  ck_message :: string
  ck_fail_closed :: bool
  ck_evidence :: payload

definition check_post_init :: "check_result \<Rightarrow> py_error + check_result" where
  "check_post_init c =
     (if ck_state c \<notin> set CHECK_STATES then Inl (ValueError (''Unsupported CapGuard check state: '' @ repr_str (ck_state c)))
      else if ck_severity c \<notin> set SEVERITIES then Inl (ValueError (''Unsupported CapGuard severity: '' @ repr_str (ck_severity c)))
      else if ck_name c \<notin> set DEFAULT_CHECKS then Inl (ValueError (''Unknown CapGuard check: '' @ repr_str (ck_name c)))
      else if ck_fail_closed c \<and> ck_state c \<noteq> ''failed'' then
        Inl (ValueError (''CapGuard check '' @ repr_str (ck_name c) @ '' marked fail_closed but state is '' @ repr_str (ck_state c)))
      else Inr c)"

definition check_to_dict :: "check_result \<Rightarrow> json" where
  "check_to_dict c = JObj [(''name'', JStr (ck_name c)), (''state'', JStr (ck_state c)), (''severity'', JStr (ck_severity c)),
     (''message'', JStr (ck_message c)), (''failClosed'', JBool (ck_fail_closed c)), (''evidence'', JObj (ck_evidence c))]"

definition guard_check :: "string \<Rightarrow> string \<Rightarrow> string \<Rightarrow> string \<Rightarrow> bool \<Rightarrow> payload \<Rightarrow> py_error + check_result" where
  "guard_check name state sev message closed evidence = check_post_init
     \<lparr>ck_name = name, ck_state = state, ck_severity = sev, ck_message = message, ck_fail_closed = closed, ck_evidence = evidence\<rparr>"

section \<open>Verdicts\<close>

record verdict =
  vd_action :: string
  vd_isolation_mode :: string
  vd_capability_uri :: string
  vd_risk_tier :: string
  vd_reason :: string
  vd_checks :: "check_result list"
  vd_fail_closed :: bool

definition verdict_post_init :: "verdict \<Rightarrow> py_error + verdict" where
  "verdict_post_init v =
     (if vd_action v \<notin> set GUARD_ACTIONS then Inl (ValueError (''Unsupported CapGuard action: '' @ repr_str (vd_action v)))
      else if vd_isolation_mode v \<notin> set ISOLATION_MODES then
        Inl (ValueError (''Unsupported isolation mode: '' @ repr_str (vd_isolation_mode v)))
      else if vd_action v = ''allow'' \<and> vd_risk_tier v \<in> {''high'', ''critical''} \<and> vd_isolation_mode v = ''none'' then
        Inl (ValueError (''CapGuard invariant violated: '' @ vd_risk_tier v @ ''-tier capability ''
          @ repr_str (vd_capability_uri v) @ '' allowed with no isolation''))
      else Inr v)"

definition verdict_check :: "verdict \<Rightarrow> string \<Rightarrow> check_result option" where
  "verdict_check v name = find (\<lambda>c. ck_name c = name) (vd_checks v)"

definition verdict_to_dict :: "verdict \<Rightarrow> payload" where
  "verdict_to_dict v = [(''action'', JStr (vd_action v)), (''isolationMode'', JStr (vd_isolation_mode v)),
     (''capabilityUri'', JStr (vd_capability_uri v)), (''riskTier'', JStr (vd_risk_tier v)), (''reason'', JStr (vd_reason v)),
     (''failClosed'', JBool (vd_fail_closed v)), (''checks'', JList (map check_to_dict (vd_checks v)))]"

section \<open>The policy\<close>

record guard_policy =
  po_enabled_checks :: "string list"
  po_blocking_checks :: "string list"
  po_fail_closed :: bool
  po_camber_tiers :: "string list"
  po_cire_tiers :: "string list"
  po_allow_cire_downgrade :: bool
  po_deny_on_high_findings :: bool
  po_quarantine_on_medium_findings :: bool
  po_max_scan_age_seconds :: "int option"

definition policy_post_init :: "guard_policy \<Rightarrow> py_error + guard_policy" where
  "policy_post_init pol =
     (case find (\<lambda>c. c \<notin> set DEFAULT_CHECKS) (po_enabled_checks pol) of
        Some c \<Rightarrow> Inl (ValueError (''Unknown CapGuard check: '' @ repr_str c))
      | None \<Rightarrow>
          let unknown = set (po_blocking_checks pol) - set (po_enabled_checks pol);
              overlap = set (po_camber_tiers pol) \<inter> set (po_cire_tiers pol) in
          if unknown \<noteq> {} then
            Inl (ValueError (''Blocking checks not enabled: '' @ py_repr (strings (sorted_list_of_set unknown))))
          else (case (find (\<lambda>t. t \<notin> set GUARD_RISK_TIERS) (po_camber_tiers pol), find (\<lambda>t. t \<notin> set GUARD_RISK_TIERS) (po_cire_tiers pol)) of
            (Some t, _) \<Rightarrow> Inl (ValueError (''Unknown risk tier in camber_tiers: '' @ repr_str t))
          | (None, Some t) \<Rightarrow> Inl (ValueError (''Unknown risk tier in cire_tiers: '' @ repr_str t))
          | (None, None) \<Rightarrow>
              if overlap \<noteq> {} then
                Inl (ValueError (''Risk tiers cannot require both Camber and CIRE: '' @ py_repr (strings (sorted_list_of_set overlap))))
              else (case po_max_scan_age_seconds pol of
                  Some n \<Rightarrow> if n \<le> 0 then Inl (ValueError ''max_scan_age_seconds must be positive or None'') else Inr pol
                | None \<Rightarrow> Inr pol)))"

definition default_policy :: guard_policy where
  "default_policy = \<lparr>po_enabled_checks = DEFAULT_CHECKS, po_blocking_checks = DEFAULT_CHECKS, po_fail_closed = True,
     po_camber_tiers = [''high'', ''critical''], po_cire_tiers = [''medium''], po_allow_cire_downgrade = False,
     po_deny_on_high_findings = True, po_quarantine_on_medium_findings = True, po_max_scan_age_seconds = None\<rparr>"

definition POLICY_KEYS :: "string list" where
  "POLICY_KEYS = [''enabled_checks'', ''blocking_checks'', ''fail_closed'', ''camber_tiers'', ''cire_tiers'',
     ''allow_cire_downgrade'', ''deny_on_high_findings'', ''quarantine_on_medium_findings'', ''max_scan_age_seconds'']"

definition tuple_or :: "payload \<Rightarrow> string \<Rightarrow> string list \<Rightarrow> py_error + string list" where
  "tuple_or raw key dflt = (case pget raw key of JNull \<Rightarrow> Inr dflt
     | v \<Rightarrow> (case iterate v of Inl e \<Rightarrow> Inl e | Inr [] \<Rightarrow> Inr dflt | Inr xs \<Rightarrow> Inr (map py_str xs)))"

definition flag_or :: "payload \<Rightarrow> string \<Rightarrow> bool \<Rightarrow> bool" where
  "flag_or raw key dflt = (case map_of raw key of None \<Rightarrow> dflt | Some v \<Rightarrow> json_truthy v)"

definition policy_from_dict :: "payload \<Rightarrow> py_error + guard_policy" where
  "policy_from_dict raw =
     (let unknown = set (map fst raw) - set POLICY_KEYS; def = default_policy in
      if raw = [] then policy_post_init def
      else if unknown \<noteq> {} then
        Inl (ValueError (''Unknown CapGuard policy keys: '' @ py_repr (strings (sorted_list_of_set unknown))))
      else bind_sum (tuple_or raw ''enabled_checks'' (po_enabled_checks def)) (\<lambda>enabled.
           bind_sum (tuple_or raw ''blocking_checks'' (po_blocking_checks def)) (\<lambda>blocking.
           bind_sum (tuple_or raw ''camber_tiers'' (po_camber_tiers def)) (\<lambda>camber.
           bind_sum (tuple_or raw ''cire_tiers'' (po_cire_tiers def)) (\<lambda>cire.
           bind_sum (case pget raw ''max_scan_age_seconds'' of JNull \<Rightarrow> Inr None
               | v \<Rightarrow> bind_sum (to_int v) (\<lambda>n. Inr (Some n))) (\<lambda>age.
             policy_post_init \<lparr>po_enabled_checks = enabled, po_blocking_checks = blocking,
               po_fail_closed = flag_or raw ''fail_closed'' True, po_camber_tiers = camber, po_cire_tiers = cire,
               po_allow_cire_downgrade = flag_or raw ''allow_cire_downgrade'' False,
               po_deny_on_high_findings = flag_or raw ''deny_on_high_findings'' True,
               po_quarantine_on_medium_findings = flag_or raw ''quarantine_on_medium_findings'' True,
               po_max_scan_age_seconds = age\<rparr>))))))"

definition policy_to_dict :: "guard_policy \<Rightarrow> payload" where
  "policy_to_dict pol = [(''enabledChecks'', strings (po_enabled_checks pol)), (''blockingChecks'', strings (po_blocking_checks pol)),
     (''failClosed'', JBool (po_fail_closed pol)), (''camberTiers'', strings (po_camber_tiers pol)),
     (''cireTiers'', strings (po_cire_tiers pol)), (''allowCireDowngrade'', JBool (po_allow_cire_downgrade pol)),
     (''denyOnHighFindings'', JBool (po_deny_on_high_findings pol)),
     (''quarantineOnMediumFindings'', JBool (po_quarantine_on_medium_findings pol)),
     (''maxScanAgeSeconds'', case po_max_scan_age_seconds pol of None \<Rightarrow> JNull | Some n \<Rightarrow> JInt n)]"

section \<open>Held capabilities\<close>

record hold_record =
  hr_id :: string
  hr_capability_uri :: string
  hr_tenant_id :: string
  hr_quarantined_at :: string
  hr_reason :: string
  hr_isolation_mode :: string
  hr_status :: string
  hr_checks :: "check_result list"
  hr_released_at :: "string option"

definition hold_post_init :: "hold_record \<Rightarrow> py_error + hold_record" where
  "hold_post_init r =
     (if hr_id r = [] then Inl (ValueError ''QuarantineRecord requires a non-empty id'')
      else if hr_capability_uri r = [] then Inl (ValueError ''QuarantineRecord requires a capability_uri'')
      else if hr_status r \<notin> set QUARANTINE_RECORD_STATUSES then
        Inl (ValueError (''Unsupported quarantine status: '' @ repr_str (hr_status r)))
      else if hr_isolation_mode r \<notin> set ISOLATION_MODES then
        Inl (ValueError (''Unsupported isolation mode: '' @ repr_str (hr_isolation_mode r)))
      else if hr_status r \<in> {''released'', ''rejected''} \<and> \<not> truthy (hr_released_at r) then
        Inl (ValueError (''QuarantineRecord status '' @ repr_str (hr_status r) @ '' requires released_at''))
      else if hr_status r = ''held'' \<and> hr_released_at r \<noteq> None then
        Inl (ValueError ''Held QuarantineRecord must not set released_at'')
      else Inr r)"

definition hold_to_dict :: "hold_record \<Rightarrow> payload" where
  "hold_to_dict r = [(''id'', JStr (hr_id r)), (''capabilityUri'', JStr (hr_capability_uri r)),
     (''tenantId'', JStr (hr_tenant_id r)), (''quarantinedAt'', JStr (hr_quarantined_at r)), (''reason'', JStr (hr_reason r)),
     (''isolationMode'', JStr (hr_isolation_mode r)), (''status'', JStr (hr_status r)),
     (''checks'', JList (map check_to_dict (hr_checks r))), (''releasedAt'', json_opt (hr_released_at r))]"

section \<open>The controls\<close>

definition decide_isolation_mode :: "guard_policy \<Rightarrow> string \<Rightarrow> string" where
  "decide_isolation_mode pol risk_tier =
     (if risk_tier \<in> set (po_camber_tiers pol) then ''camber''
      else if risk_tier \<in> set (po_cire_tiers pol) then ''cire''
      else if risk_tier \<notin> set GUARD_RISK_TIERS then ''camber''
      else ''none'')"

definition finding_counts :: "payload \<Rightarrow> py_error + (int \<times> int \<times> int)" where
  "finding_counts scan =
     (let findings = json_or (pget scan ''findings'') (JList []) in
     bind_sum (if pget scan ''criticalCount'' = JNull then count_severity ''critical'' findings else to_int (pget scan ''criticalCount'')) (\<lambda>crit.
     bind_sum (if pget scan ''highCount'' = JNull then count_severity ''high'' findings else to_int (pget scan ''highCount'')) (\<lambda>high.
     bind_sum (count_severity ''medium'' findings) (\<lambda>medium. Inr (crit, high, medium)))))"

definition scan_check :: "guard_policy \<Rightarrow> payload option \<Rightarrow> py_error + check_result" where
  "scan_check pol scan_result =
     (case scan_result of
        None \<Rightarrow> guard_check ''malwareScan'' ''pending'' ''low'' ''malware scan has not been run'' False [(''ran'', JBool False)]
      | Some scan \<Rightarrow>
          let error = pget scan ''error'' in
          if json_truthy error then
            guard_check ''malwareScan'' ''failed'' ''critical'' (''scan inconclusive: '' @ py_str error) True
              [(''ran'', JBool True), (''error'', JStr (py_str error))]
          else bind_sum (finding_counts scan) (\<lambda>(crit, high, medium).
            let passed = json_truthy (pget scan ''passed'');
                evidence = [(''ran'', JBool True), (''passed'', JBool passed), (''criticalCount'', JInt crit),
                  (''highCount'', JInt high), (''mediumCount'', JInt medium)] in
            if \<not> passed \<and> (crit \<noteq> 0 \<or> high \<noteq> 0) then
              guard_check ''malwareScan'' ''failed'' (if crit \<noteq> 0 then ''critical'' else ''high'')
                (''scan blocked: '' @ str_of_int crit @ '' critical, '' @ str_of_int high @ '' high findings'') False evidence
            else if \<not> passed then
              guard_check ''malwareScan'' ''failed'' ''critical'' ''scan failed without enumerated findings'' True evidence
            else if medium \<noteq> 0 \<and> po_quarantine_on_medium_findings pol then
              guard_check ''malwareScan'' ''failed'' ''medium''
                (''scan passed but '' @ str_of_int medium @ '' medium findings require review'') False evidence
            else guard_check ''malwareScan'' ''passed'' ''low'' ''scan passed'' False evidence))"

definition status_check :: "string \<Rightarrow> string \<Rightarrow> py_error + check_result" where
  "status_check name status =
     (let norm = py_lower (py_strip status) in
      if norm = ''verified'' then guard_check name ''passed'' ''low'' (name @ '' verified'') False []
      else if list_ex (\<lambda>tok. substring_in tok norm) [''fail'', ''invalid'', ''reject''] then
        guard_check name ''failed'' ''high'' (name @ '' failed: '' @ repr_str status) False [(''status'', JStr status)]
      else guard_check name ''pending'' ''low'' (name @ '' not verified (status='' @ repr_str status @ '')'') False [(''status'', JStr status)])"

definition injection_check :: "bool option \<Rightarrow> py_error + check_result" where
  "injection_check injection_result =
     (case injection_result of
        None \<Rightarrow> guard_check ''promptInjectionScan'' ''pending'' ''low'' ''prompt-injection scan has not been run'' False []
      | Some True \<Rightarrow> guard_check ''promptInjectionScan'' ''passed'' ''low'' ''prompt-injection scan passed'' False []
      | Some False \<Rightarrow> guard_check ''promptInjectionScan'' ''failed'' ''critical'' ''prompt-injection scan blocked the capability''
          False [(''blocked'', JBool True)])"

definition risk_tier_check :: "string \<Rightarrow> py_error + check_result" where
  "risk_tier_check risk_tier =
     (if risk_tier \<in> set GUARD_RISK_TIERS then
        guard_check ''riskTierPolicy'' ''passed'' ''low''
          (''risk tier '' @ repr_str risk_tier @ '' recognized; isolation enforced separately'') False [(''riskTier'', JStr risk_tier)]
      else guard_check ''riskTierPolicy'' ''failed'' ''high''
          (''unknown risk tier '' @ repr_str risk_tier @ ''; cannot index unclassified capability'') False [(''riskTier'', JStr risk_tier)])"

section \<open>The decision\<close>

definition control :: "guard_policy \<Rightarrow> capability \<Rightarrow> payload option \<Rightarrow> bool option \<Rightarrow> string \<Rightarrow> py_error + check_result" where
  "control pol cap scan_result injection_result name =
     (if name = ''malwareScan'' then scan_check pol scan_result
      else if name = ''signature'' then status_check ''signature'' (c_signature_status cap)
      else if name = ''provenance'' then status_check ''provenance'' (c_provenance_status cap)
      else if name = ''promptInjectionScan'' then injection_check injection_result
      else risk_tier_check (c_risk_tier cap))"

fun all_controls :: "(string \<Rightarrow> py_error + check_result) \<Rightarrow> string list \<Rightarrow> py_error + check_result list" where
  "all_controls f [] = Inr []"
| "all_controls f (n # ns) = bind_sum (f n) (\<lambda>c. bind_sum (all_controls f ns) (\<lambda>cs. Inr (c # cs)))"

definition severity_rank :: "string \<Rightarrow> nat" where
  "severity_rank s = length (takeWhile (\<lambda>x. x \<noteq> s) SEVERITIES)"

definition worst_of :: "check_result list \<Rightarrow> check_result" where
  "worst_of cs = max_by (\<lambda>c. severity_rank (ck_severity c)) (hd cs) (tl cs)"

definition names_of :: "check_result list \<Rightarrow> string" where
  "names_of cs = join_with '', '' (sorted_list_of_set (set (map ck_name cs)))"

definition decide :: "guard_policy \<Rightarrow> capability \<Rightarrow> check_result list \<Rightarrow> py_error + verdict" where
  "decide pol cap results =
     (let isolation = decide_isolation_mode pol (c_risk_tier cap);
          blocking = filter (\<lambda>c. ck_name c \<in> set (po_blocking_checks pol)) results;
          failed = filter (\<lambda>c. ck_state c = ''failed'') blocking;
          pending = filter (\<lambda>c. ck_state c = ''pending'') blocking;
          triggered = list_ex ck_fail_closed failed;
          hard = filter (\<lambda>c. ck_severity c \<in> {''high'', ''critical''} \<or> ck_fail_closed c) failed;
          conclude = (\<lambda>action reason closed. verdict_post_init \<lparr>vd_action = action, vd_isolation_mode = isolation,
            vd_capability_uri = c_uri cap, vd_risk_tier = c_risk_tier cap, vd_reason = reason, vd_checks = results,
            vd_fail_closed = closed\<rparr>);
          denied = (\<lambda>cs. ''CapGuard denied '' @ c_uri cap @ '': control '' @ repr_str (ck_name (worst_of cs)) @ '' failed (''
            @ ck_severity (worst_of cs) @ '')'');
          held = (\<lambda>what cs. ''CapGuard quarantined '' @ c_uri cap @ '': '' @ what @ '' controls ['' @ names_of cs @ '']'')
      in if hard \<noteq> [] then conclude ''deny'' (denied hard) triggered
         else if failed \<noteq> [] then
           if po_deny_on_high_findings pol \<and> list_ex (\<lambda>c. ck_severity c = ''high'') failed
           then conclude ''deny'' (denied failed) triggered
           else conclude ''quarantine'' (held ''failed'' failed) triggered
         else if pending \<noteq> [] then conclude ''quarantine'' (held ''pending'' pending) False
         else conclude ''allow'' (''CapGuard allowed '' @ c_uri cap
           @ (if isolation \<noteq> ''none'' then '' under '' @ isolation @ '' isolation'' else '' (no isolation)'')) False)"

definition evaluate_cap_guard_policy ::
  "capability \<Rightarrow> payload option \<Rightarrow> guard_policy \<Rightarrow> bool option \<Rightarrow> py_error + verdict" where
  "evaluate_cap_guard_policy cap scan_result pol injection_result =
     bind_sum (all_controls (control pol cap scan_result injection_result)
         (filter (\<lambda>c. c \<in> set (po_enabled_checks pol)) DEFAULT_CHECKS)) (decide pol cap)"

definition quarantine_required :: "verdict \<Rightarrow> bool" where
  "quarantine_required v = (vd_action v = ''quarantine'')"

definition fail_closed_scan :: "verdict \<Rightarrow> bool" where
  "fail_closed_scan v = vd_fail_closed v"

section \<open>What the controls say\<close>

text \<open>When a control is cleared, and when its failure is one that denies, in terms of the input.\<close>

definition scan_clean :: "guard_policy \<Rightarrow> payload \<Rightarrow> bool" where
  "scan_clean pol scan = (\<not> json_truthy (pget scan ''error'') \<and> json_truthy (pget scan ''passed'')
     \<and> (po_quarantine_on_medium_findings pol \<longrightarrow> count_severity ''medium'' (json_or (pget scan ''findings'') (JList [])) = Inr 0))"

definition cleared :: "guard_policy \<Rightarrow> capability \<Rightarrow> payload option \<Rightarrow> bool option \<Rightarrow> string \<Rightarrow> bool" where
  "cleared pol cap scan injection name =
     (if name = ''malwareScan'' then (case scan of None \<Rightarrow> False | Some s \<Rightarrow> scan_clean pol s)
      else if name = ''signature'' then py_lower (py_strip (c_signature_status cap)) = ''verified''
      else if name = ''provenance'' then py_lower (py_strip (c_provenance_status cap)) = ''verified''
      else if name = ''promptInjectionScan'' then injection = Some True
      else c_risk_tier cap \<in> set GUARD_RISK_TIERS)"

definition status_rejected :: "string \<Rightarrow> bool" where
  "status_rejected status = list_ex (\<lambda>tok. substring_in tok (py_lower (py_strip status))) [''fail'', ''invalid'', ''reject'']"

definition convicted :: "capability \<Rightarrow> payload option \<Rightarrow> bool option \<Rightarrow> string \<Rightarrow> bool" where
  "convicted cap scan injection name =
     (if name = ''malwareScan'' then (case scan of None \<Rightarrow> False
        | Some s \<Rightarrow> json_truthy (pget s ''error'') \<or> \<not> json_truthy (pget s ''passed''))
      else if name = ''signature'' then status_rejected (c_signature_status cap)
      else if name = ''provenance'' then status_rejected (c_provenance_status cap)
      else if name = ''promptInjectionScan'' then injection = Some False
      else c_risk_tier cap \<notin> set GUARD_RISK_TIERS)"

lemmas vocabularies = CHECK_STATES_def SEVERITIES_def DEFAULT_CHECKS_def

lemma guard_check_Inr:
  "guard_check n st sev m fc ev = Inr c \<Longrightarrow> ck_name c = n \<and> ck_state c = st \<and> ck_severity c = sev \<and> ck_fail_closed c = fc"
  by (auto simp: guard_check_def check_post_init_def split: if_splits)

abbreviation hard_failure :: "check_result \<Rightarrow> bool" where
  "hard_failure c \<equiv> ck_state c = ''failed'' \<and> (ck_severity c \<in> {''high'', ''critical''} \<or> ck_fail_closed c)"

lemma verified_not_rejected: "py_lower (py_strip status) = ''verified'' \<Longrightarrow> \<not> status_rejected status"
proof -
  have "\<not> list_ex (\<lambda>tok. substring_in tok ''verified'') [''fail'', ''invalid'', ''reject'']" by code_simp
  then show "py_lower (py_strip status) = ''verified'' \<Longrightarrow> \<not> status_rejected status" by (simp add: status_rejected_def)
qed

lemma status_control:
  assumes "status_check n status = Inr c"
  shows "ck_name c = n \<and> (ck_state c = ''passed'' \<longleftrightarrow> py_lower (py_strip status) = ''verified'')
    \<and> (hard_failure c \<longleftrightarrow> status_rejected status)"
  using assms verified_not_rejected [of status]
  by (auto simp: status_check_def status_rejected_def Let_def dest!: guard_check_Inr split: if_splits)

lemma scan_control:
  assumes "scan_check pol scan = Inr c"
  shows "ck_name c = ''malwareScan'' \<and> (ck_state c = ''passed'' \<longleftrightarrow> (case scan of None \<Rightarrow> False | Some s \<Rightarrow> scan_clean pol s))
    \<and> (hard_failure c \<longleftrightarrow> (case scan of None \<Rightarrow> False | Some s \<Rightarrow> json_truthy (pget s ''error'') \<or> \<not> json_truthy (pget s ''passed'')))"
proof (cases scan)
  case None
  with assms show ?thesis by (auto simp: scan_check_def dest!: guard_check_Inr)
next
  case (Some s)
  show ?thesis
  proof (cases "json_truthy (pget s ''error'')")
    case True
    with assms Some show ?thesis by (auto simp: scan_check_def scan_clean_def Let_def dest!: guard_check_Inr)
  next
    case False
    with assms Some obtain crit high medium where m: "finding_counts s = Inr (crit, high, medium)"
      by (auto simp: scan_check_def bind_sum_Inr Let_def)
    then have med: "count_severity ''medium'' (json_or (pget s ''findings'') (JList [])) = Inr medium"
      by (auto simp: finding_counts_def bind_sum_Inr Let_def)
    have run: "scan_check pol (Some s) = (let passed = json_truthy (pget s ''passed'');
          evidence = [(''ran'', JBool True), (''passed'', JBool passed), (''criticalCount'', JInt crit),
            (''highCount'', JInt high), (''mediumCount'', JInt medium)] in
        if \<not> passed \<and> (crit \<noteq> 0 \<or> high \<noteq> 0) then guard_check ''malwareScan'' ''failed'' (if crit \<noteq> 0 then ''critical'' else ''high'')
            (''scan blocked: '' @ str_of_int crit @ '' critical, '' @ str_of_int high @ '' high findings'') False evidence
        else if \<not> passed then guard_check ''malwareScan'' ''failed'' ''critical'' ''scan failed without enumerated findings'' True evidence
        else if medium \<noteq> 0 \<and> po_quarantine_on_medium_findings pol then guard_check ''malwareScan'' ''failed'' ''medium''
            (''scan passed but '' @ str_of_int medium @ '' medium findings require review'') False evidence
        else guard_check ''malwareScan'' ''passed'' ''low'' ''scan passed'' False evidence)"
      using False by (simp only: scan_check_def option.case m bind_sum_def sum.case prod.case Let_def if_False)
    consider (blocked) "\<not> json_truthy (pget s ''passed'')" "crit \<noteq> 0 \<or> high \<noteq> 0"
      | (silent) "\<not> json_truthy (pget s ''passed'')" "crit = 0" "high = 0"
      | (review) "json_truthy (pget s ''passed'')" "medium \<noteq> 0" "po_quarantine_on_medium_findings pol"
      | (clean) "json_truthy (pget s ''passed'')" "medium = 0 \<or> \<not> po_quarantine_on_medium_findings pol" by blast
    then show ?thesis
    proof cases
      case blocked
      then obtain m ev where "guard_check ''malwareScan'' ''failed'' (if crit \<noteq> 0 then ''critical'' else ''high'') m False ev = Inr c"
        using assms unfolding Some run Let_def by simp
      from guard_check_Inr [OF this] blocked show ?thesis by (simp add: Some scan_clean_def)
    next
      case silent
      then obtain m ev where "guard_check ''malwareScan'' ''failed'' ''critical'' m True ev = Inr c"
        using assms unfolding Some run Let_def by simp
      from guard_check_Inr [OF this] silent show ?thesis by (simp add: Some scan_clean_def)
    next
      case review
      then obtain m ev where "guard_check ''malwareScan'' ''failed'' ''medium'' m False ev = Inr c"
        using assms unfolding Some run Let_def by simp
      from guard_check_Inr [OF this] review False show ?thesis by (simp add: Some scan_clean_def med)
    next
      case clean
      then obtain m ev where "guard_check ''malwareScan'' ''passed'' ''low'' m False ev = Inr c"
        using assms unfolding Some run Let_def by auto
      from guard_check_Inr [OF this] clean False show ?thesis by (auto simp: Some scan_clean_def med)
    qed
  qed
qed

lemma control_says:
  assumes "control pol cap scan injection n = Inr c" and "n \<in> set DEFAULT_CHECKS"
  shows "ck_name c = n \<and> (ck_state c = ''passed'' \<longleftrightarrow> cleared pol cap scan injection n) \<and> (hard_failure c \<longleftrightarrow> convicted cap scan injection n)"
proof -
  show ?thesis
    using assms(2) unfolding DEFAULT_CHECKS_def list.set
  proof (elim insertE emptyE)
    assume "n = ''malwareScan''"
    with assms(1) scan_control [of pol scan c] show ?thesis by (simp add: control_def cleared_def convicted_def)
  next
    assume "n = ''signature''"
    with assms(1) status_control [of n "c_signature_status cap" c] show ?thesis by (simp add: control_def cleared_def convicted_def)
  next
    assume "n = ''provenance''"
    with assms(1) status_control [of n "c_provenance_status cap" c] show ?thesis by (simp add: control_def cleared_def convicted_def)
  next
    assume "n = ''promptInjectionScan''"
    with assms(1) show ?thesis
      by (auto simp: control_def cleared_def convicted_def injection_check_def dest!: guard_check_Inr split: option.splits bool.splits)
  next
    assume "n = ''riskTierPolicy''"
    with assms(1) show ?thesis
      by (auto simp: control_def cleared_def convicted_def risk_tier_check_def dest!: guard_check_Inr split: if_splits)
  qed
qed

lemma list_all2_right: "list_all2 P xs ys \<Longrightarrow> y \<in> set ys \<Longrightarrow> \<exists>x \<in> set xs. P x y"
  by (induction rule: list_all2_induct) auto

lemma list_all2_left: "list_all2 P xs ys \<Longrightarrow> x \<in> set xs \<Longrightarrow> \<exists>y \<in> set ys. P x y"
  by (induction rule: list_all2_induct) auto

lemma all_controls_pairs: "all_controls f ns = Inr cs \<Longrightarrow> list_all2 (\<lambda>n c. f n = Inr c) ns cs"
  by (induction ns arbitrary: cs) (auto simp: bind_sum_Inr)

lemma guard_check_states: "guard_check n st sev m fc ev = Inr c \<Longrightarrow> ck_state c \<in> {''pending'', ''passed'', ''failed''}"
  by (auto simp: guard_check_def check_post_init_def CHECK_STATES_def split: if_splits)

lemma control_states: "control pol cap scan injection n = Inr c \<Longrightarrow> ck_state c \<in> {''pending'', ''passed'', ''failed''}"
  by (auto simp: control_def scan_check_def status_check_def injection_check_def risk_tier_check_def bind_sum_Inr Let_def
      dest!: guard_check_states split: if_splits option.splits bool.splits prod.splits)

lemma verdict_Inr:
  "verdict_post_init v = Inr v' \<Longrightarrow> v' = v \<and> (vd_action v = ''allow'' \<longrightarrow> vd_risk_tier v \<in> {''high'', ''critical''} \<longrightarrow> vd_isolation_mode v \<noteq> ''none'')"
  by (auto simp: verdict_post_init_def split: if_splits)

lemma decide_action:
  assumes "decide pol cap results = Inr v" and "\<And>c. c \<in> set results \<Longrightarrow> ck_state c \<in> {''pending'', ''passed'', ''failed''}"
  defines "blocking \<equiv> filter (\<lambda>c. ck_name c \<in> set (po_blocking_checks pol)) results"
  shows "vd_action v = (if list_ex hard_failure blocking then ''deny''
      else if list_all (\<lambda>c. ck_state c = ''passed'') blocking then ''allow'' else ''quarantine'')
    \<and> vd_isolation_mode v = decide_isolation_mode pol (c_risk_tier cap) \<and> vd_checks v = results
    \<and> (vd_action v = ''allow'' \<longrightarrow> c_risk_tier cap \<in> {''high'', ''critical''} \<longrightarrow> vd_isolation_mode v \<noteq> ''none'')"
proof -
  have b: "ck_state c \<in> {''pending'', ''passed'', ''failed''}" if "c \<in> set blocking" for c
    using assms(2) that by (simp add: blocking_def)
  have hard: "filter (\<lambda>c. ck_severity c \<in> {''high'', ''critical''} \<or> ck_fail_closed c) (filter (\<lambda>c. ck_state c = ''failed'') blocking)
      = filter hard_failure blocking" by (auto intro: filter_cong)
  note run = assms(1) [unfolded decide_def Let_def blocking_def [symmetric] hard]
  consider (deny) "list_ex hard_failure blocking" | (failed) "\<not> list_ex hard_failure blocking" "list_ex (\<lambda>c. ck_state c = ''failed'') blocking"
    | (pending) "\<not> list_ex (\<lambda>c. ck_state c = ''failed'') blocking" "list_ex (\<lambda>c. ck_state c = ''pending'') blocking"
    | (passed) "\<not> list_ex (\<lambda>c. ck_state c = ''failed'') blocking" "\<not> list_ex (\<lambda>c. ck_state c = ''pending'') blocking" by blast
  then show ?thesis
  proof cases
    case deny
    then have "filter hard_failure blocking \<noteq> []" by (simp add: list_ex_iff filter_empty_conv)
    with run have "\<exists>why t. verdict_post_init \<lparr>vd_action = ''deny'', vd_isolation_mode = decide_isolation_mode pol (c_risk_tier cap),
        vd_capability_uri = c_uri cap, vd_risk_tier = c_risk_tier cap, vd_reason = why, vd_checks = results, vd_fail_closed = t\<rparr> = Inr v" by auto
    with deny show ?thesis by (auto dest!: verdict_Inr)
  next
    case failed
    then have f: "filter hard_failure blocking = []" "filter (\<lambda>c. ck_state c = ''failed'') blocking \<noteq> []"
      "\<not> list_ex (\<lambda>c. ck_severity c = ''high'') (filter (\<lambda>c. ck_state c = ''failed'') blocking)"
      by (auto simp: list_ex_iff filter_empty_conv)
    have n: "\<not> list_all (\<lambda>c. ck_state c = ''passed'') blocking" using failed(2) by (force simp: list_ex_iff list_all_iff)
    from f run have "\<exists>why t. verdict_post_init \<lparr>vd_action = ''quarantine'', vd_isolation_mode = decide_isolation_mode pol (c_risk_tier cap),
        vd_capability_uri = c_uri cap, vd_risk_tier = c_risk_tier cap, vd_reason = why, vd_checks = results, vd_fail_closed = t\<rparr> = Inr v" by auto
    with failed n show ?thesis by (auto dest!: verdict_Inr)
  next
    case pending
    then have f: "filter hard_failure blocking = []" "filter (\<lambda>c. ck_state c = ''failed'') blocking = []"
      "filter (\<lambda>c. ck_state c = ''pending'') blocking \<noteq> []"
      "\<not> list_ex hard_failure blocking" by (auto simp: list_ex_iff filter_empty_conv)
    have n: "\<not> list_all (\<lambda>c. ck_state c = ''passed'') blocking" using pending(2) by (force simp: list_ex_iff list_all_iff)
    from f run have "\<exists>why t. verdict_post_init \<lparr>vd_action = ''quarantine'', vd_isolation_mode = decide_isolation_mode pol (c_risk_tier cap),
        vd_capability_uri = c_uri cap, vd_risk_tier = c_risk_tier cap, vd_reason = why, vd_checks = results, vd_fail_closed = t\<rparr> = Inr v" by auto
    with f(4) n show ?thesis by (auto dest!: verdict_Inr)
  next
    case passed
    then have f: "filter hard_failure blocking = []" "filter (\<lambda>c. ck_state c = ''failed'') blocking = []"
      "filter (\<lambda>c. ck_state c = ''pending'') blocking = []"
      "\<not> list_ex hard_failure blocking" "list_all (\<lambda>c. ck_state c = ''passed'') blocking"
      using b by (auto simp: list_ex_iff list_all_iff filter_empty_conv)
    with run have "\<exists>why t. verdict_post_init \<lparr>vd_action = ''allow'', vd_isolation_mode = decide_isolation_mode pol (c_risk_tier cap),
        vd_capability_uri = c_uri cap, vd_risk_tier = c_risk_tier cap, vd_reason = why, vd_checks = results, vd_fail_closed = t\<rparr> = Inr v" by auto
    with f(4,5) show ?thesis by (auto dest!: verdict_Inr)
  qed
qed

section \<open>Properties\<close>

lemma results_of:
  assumes "evaluate_cap_guard_policy cap scan pol injection = Inr v"
  obtains results where "decide pol cap results = Inr v"
    "list_all2 (\<lambda>n c. control pol cap scan injection n = Inr c) (filter (\<lambda>c. c \<in> set (po_enabled_checks pol)) DEFAULT_CHECKS) results"
  using assms all_controls_pairs unfolding evaluate_cap_guard_policy_def bind_sum_Inr by blast

lemma blocking_results:
  assumes r: "list_all2 (\<lambda>n c. control pol cap scan injection n = Inr c) (filter (\<lambda>c. c \<in> set (po_enabled_checks pol)) DEFAULT_CHECKS) results"
    and valid: "policy_post_init pol = Inr pol"
    and q: "\<And>n c. control pol cap scan injection n = Inr c \<Longrightarrow> n \<in> set DEFAULT_CHECKS \<Longrightarrow> Q c \<longleftrightarrow> P n"
  shows "list_ex Q (filter (\<lambda>c. ck_name c \<in> set (po_blocking_checks pol)) results) \<longleftrightarrow> list_ex P (po_blocking_checks pol)"
proof -
  have sub: "set (po_blocking_checks pol) \<subseteq> set (po_enabled_checks pol)" "set (po_enabled_checks pol) \<subseteq> set DEFAULT_CHECKS"
    using valid by (auto simp: policy_post_init_def Let_def find_None_iff split: option.splits if_splits)
  show ?thesis
  proof
    assume "list_ex Q (filter (\<lambda>c. ck_name c \<in> set (po_blocking_checks pol)) results)"
    then obtain c where c: "c \<in> set results" "ck_name c \<in> set (po_blocking_checks pol)" "Q c" by (auto simp: list_ex_iff)
    from list_all2_right [OF r c(1)] obtain n where n: "n \<in> set DEFAULT_CHECKS" "control pol cap scan injection n = Inr c" by auto
    with control_says [OF n(2,1)] q [OF n(2,1)] c show "list_ex P (po_blocking_checks pol)" by (auto simp: list_ex_iff)
  next
    assume "list_ex P (po_blocking_checks pol)"
    then obtain n where n: "n \<in> set (po_blocking_checks pol)" "P n" by (auto simp: list_ex_iff)
    with sub have d: "n \<in> set DEFAULT_CHECKS" "n \<in> set (filter (\<lambda>c. c \<in> set (po_enabled_checks pol)) DEFAULT_CHECKS)" by auto
    from list_all2_left [OF r d(2)] obtain c where c: "c \<in> set results" "control pol cap scan injection n = Inr c" by auto
    with control_says [OF c(2) d(1)] q [OF c(2) d(1)] n
    show "list_ex Q (filter (\<lambda>c. ck_name c \<in> set (po_blocking_checks pol)) results)" by (auto simp: list_ex_iff)
  qed
qed

text \<open>C27. The guard allows exactly what every blocking control clears: for a policy that passes its own
  checks, the verdict of evaluate_cap_guard_policy is deny when a blocking control convicts the
  capability (a scan that failed or ended in an error, a rejected signature or provenance, a blocked
  injection scan, an unknown risk tier), allow when every blocking control is cleared, and quarantine
  otherwise; an allowed capability of a high or critical tier is isolated. This holds for every value of
  the switches fail_closed and deny_on_high_findings: the docstring of the policy says that setting them to
  False turns a denial into a quarantine, but the decision does not follow them.\<close>

theorem guard_allows_what_is_cleared:
  assumes "evaluate_cap_guard_policy cap scan pol injection = Inr v" and "policy_post_init pol = Inr pol"
  shows "vd_action v = (if list_ex (convicted cap scan injection) (po_blocking_checks pol) then ''deny''
      else if list_all (cleared pol cap scan injection) (po_blocking_checks pol) then ''allow'' else ''quarantine'')
    \<and> (vd_action v = ''allow'' \<and> c_risk_tier cap \<in> {''high'', ''critical''} \<longrightarrow> vd_isolation_mode v \<noteq> ''none'')"
proof -
  obtain results where r: "decide pol cap results = Inr v"
    "list_all2 (\<lambda>n c. control pol cap scan injection n = Inr c) (filter (\<lambda>c. c \<in> set (po_enabled_checks pol)) DEFAULT_CHECKS) results"
    by (rule results_of [OF assms(1)])
  have st: "ck_state c \<in> {''pending'', ''passed'', ''failed''}" if "c \<in> set results" for c
    using list_all2_right [OF r(2) that] control_states [of pol cap scan injection _ c] by blast
  have hard: "list_ex hard_failure (filter (\<lambda>c. ck_name c \<in> set (po_blocking_checks pol)) results)
      \<longleftrightarrow> list_ex (convicted cap scan injection) (po_blocking_checks pol)"
    by (rule blocking_results [OF r(2) assms(2)]) (use control_says in blast)
  have "list_ex (\<lambda>c. ck_state c \<noteq> ''passed'') (filter (\<lambda>c. ck_name c \<in> set (po_blocking_checks pol)) results)
      \<longleftrightarrow> list_ex (\<lambda>n. \<not> cleared pol cap scan injection n) (po_blocking_checks pol)"
    by (rule blocking_results [OF r(2) assms(2)]) (use control_says in blast)
  then have pass: "list_all (\<lambda>c. ck_state c = ''passed'') (filter (\<lambda>c. ck_name c \<in> set (po_blocking_checks pol)) results)
      \<longleftrightarrow> list_all (cleared pol cap scan injection) (po_blocking_checks pol)"
    by (auto simp: list_ex_iff list_all_iff)
  show ?thesis using decide_action [OF r(1) st] unfolding hard pass by blast
qed

definition attested_capability :: capability where
  "attested_capability = sample_capability\<lparr>c_signature_status := ''verified'', c_provenance_status := ''verified'', c_risk_tier := ''high''\<rparr>"

lemma verified_text: "py_lower (py_strip ''verified'') = ''verified''"
  by (simp add: py_lower_def lower_char_def py_strip_def py_lstrip_def py_rstrip_def py_isspace_def)

lemma default_policy_valid: "policy_post_init default_policy = Inr default_policy"
  by (simp add: policy_post_init_def default_policy_def DEFAULT_CHECKS_def GUARD_RISK_TIERS_def Let_def)

theorem guard_allows_what_is_cleared_witness:
  "\<exists>v. evaluate_cap_guard_policy attested_capability (Some [(''passed'', JBool True)]) default_policy (Some True) = Inr v
     \<and> vd_action v = ''allow''"
proof -
  let ?scan = "[(''passed'', JBool True)]"
  have scan: "\<exists>c. scan_check default_policy (Some ?scan) = Inr c"
    by (simp add: scan_check_def finding_counts_def count_severity_def iterate_def json_or_def json_truthy_def pget_def bind_sum_def
        guard_check_def check_post_init_def vocabularies Let_def)
  have status: "\<exists>c. status_check n ''verified'' = Inr c" if "n \<in> {''signature'', ''provenance''}" for n
    using that by (auto simp: status_check_def verified_text guard_check_def check_post_init_def vocabularies)
  have rest: "\<exists>c. injection_check (Some True) = Inr c" "\<exists>c. risk_tier_check ''high'' = Inr c"
    by (simp_all add: injection_check_def risk_tier_check_def guard_check_def check_post_init_def vocabularies GUARD_RISK_TIERS_def)
  have "\<exists>cs. all_controls (control default_policy attested_capability (Some ?scan) (Some True)) DEFAULT_CHECKS = Inr cs"
    using scan status [of "''signature''"] status [of "''provenance''"] rest by (auto simp: DEFAULT_CHECKS_def control_def attested_capability_def bind_sum_def)
  then obtain cs where cs: "all_controls (control default_policy attested_capability (Some ?scan) (Some True)) DEFAULT_CHECKS = Inr cs" ..
  have iso: "decide_isolation_mode default_policy (c_risk_tier attested_capability) = ''camber''"
    by (simp add: decide_isolation_mode_def default_policy_def attested_capability_def)
  have "\<exists>v. decide default_policy attested_capability cs = Inr v"
    unfolding decide_def Let_def iso by (simp add: verdict_post_init_def GUARD_ACTIONS_def ISOLATION_MODES_def)
  moreover have "filter (\<lambda>c. c \<in> set (po_enabled_checks default_policy)) DEFAULT_CHECKS = DEFAULT_CHECKS"
    by (simp add: default_policy_def)
  ultimately obtain v where v: "evaluate_cap_guard_policy attested_capability (Some ?scan) default_policy (Some True) = Inr v"
    using cs by (auto simp: evaluate_cap_guard_policy_def bind_sum_def)
  have "list_all (cleared default_policy attested_capability (Some ?scan) (Some True)) (po_blocking_checks default_policy)"
    "\<not> list_ex (convicted attested_capability (Some ?scan) (Some True)) (po_blocking_checks default_policy)"
    by (simp_all add: default_policy_def DEFAULT_CHECKS_def cleared_def convicted_def scan_clean_def attested_capability_def
        verified_text verified_not_rejected GUARD_RISK_TIERS_def count_severity_def iterate_def json_or_def json_truthy_def pget_def bind_sum_def)
  with guard_allows_what_is_cleared [OF v default_policy_valid] v show ?thesis by auto
qed

text \<open>Four settings of the policy that do not change the decision. Three are never read; the fourth,
  deny_on_high_findings, is read only where every failed control of high severity has already led to a
  denial.\<close>

lemma high_failure_is_hard:
  "filter (\<lambda>c. ck_severity c \<in> {''high'', ''critical''} \<or> ck_fail_closed c) cs = [] \<Longrightarrow> \<not> list_ex (\<lambda>c. ck_severity c = ''high'') cs"
  by (auto simp: filter_empty_conv list_ex_iff)

lemma decide_ignores_deny_on_high: "decide (pol\<lparr>po_deny_on_high_findings := e\<rparr>) cap results = decide pol cap results"
proof -
  have iso: "decide_isolation_mode (pol\<lparr>po_deny_on_high_findings := e\<rparr>) t = decide_isolation_mode pol t" for t
    by (cases pol) (simp only: decide_isolation_mode_def guard_policy.simps)
  have blk: "po_blocking_checks (pol\<lparr>po_deny_on_high_findings := e\<rparr>) = po_blocking_checks pol" by simp
  let ?failed = "filter (\<lambda>c. ck_state c = ''failed'') (filter (\<lambda>c. ck_name c \<in> set (po_blocking_checks pol)) results)"
  show ?thesis
  proof (cases "filter (\<lambda>c. ck_severity c \<in> {''high'', ''critical''} \<or> ck_fail_closed c) ?failed = []")
    case True
    then have "list_ex (\<lambda>c. ck_severity c = ''high'') ?failed = False" using high_failure_is_hard by blast
    then show ?thesis unfolding decide_def Let_def iso blk by (simp only: simp_thms if_False)
  next
    case False
    then show ?thesis unfolding decide_def Let_def iso blk by (simp only: simp_thms if_True)
  qed
qed

theorem policy_switches_are_dead:
  "evaluate_cap_guard_policy cap scan (pol\<lparr>po_fail_closed := b, po_allow_cire_downgrade := d, po_max_scan_age_seconds := age,
       po_deny_on_high_findings := e\<rparr>) injection
   = evaluate_cap_guard_policy cap scan pol injection"
proof -
  let ?pol = "pol\<lparr>po_fail_closed := b, po_allow_cire_downgrade := d, po_max_scan_age_seconds := age\<rparr>"
  have "decide ?pol cap = decide pol cap" by (rule ext, cases pol) (simp only: decide_def decide_isolation_mode_def guard_policy.simps)
  moreover have "control (?pol\<lparr>po_deny_on_high_findings := e\<rparr>) cap scan injection = control pol cap scan injection"
    by (rule ext, cases pol) (simp only: control_def scan_check_def guard_policy.simps)
  moreover have "decide (?pol\<lparr>po_deny_on_high_findings := e\<rparr>) cap = decide ?pol cap"
    by (rule ext) (rule decide_ignores_deny_on_high)
  ultimately show ?thesis by (simp add: evaluate_cap_guard_policy_def)
qed

end
