(* ===== verification/Py_Regex.thy ===== *)
theory Py_Regex
  imports Injection_Scan
begin

text \<open>
  The part of Python's \<^verbatim>\<open>re\<close> that the scanners use: classes, sequences, alternatives, greedy repetition
  and word boundaries, searched with backtracking. \<^verbatim>\<open>ends\<close> lists the ends of the matches of an expression
  from a position, in the order in which the engine tries them; the relation \<^verbatim>\<open>matches\<close> is the language
  of the expression without any order. What is a word character or a decimal digit outside ASCII is a
  parameter.
\<close>

record char_classes =
  word_code :: "nat \<Rightarrow> bool"
  decimal_code :: "nat \<Rightarrow> bool"

datatype rx = Eps | Class "nat \<Rightarrow> bool" | Seq rx rx | Alt rx rx | Star rx | Boundary

section \<open>The engine\<close>

definition word_at :: "char_classes \<Rightarrow> codepoints \<Rightarrow> nat \<Rightarrow> bool" where
  "word_at cls t p = (p < length t \<and> word_code cls (t ! p))"

definition boundary :: "char_classes \<Rightarrow> codepoints \<Rightarrow> nat \<Rightarrow> bool" where
  "boundary cls t p = ((0 < p \<and> word_at cls t (p - 1)) \<noteq> word_at cls t p)"

function (sequential) ends :: "char_classes \<Rightarrow> codepoints \<Rightarrow> rx \<Rightarrow> nat \<Rightarrow> nat list" where
  "ends cls t Eps p = [p]"
| "ends cls t (Class f) p = (if p < length t \<and> f (t ! p) then [Suc p] else [])"
| "ends cls t (Seq r s) p = concat (map (ends cls t s) (ends cls t r p))"
| "ends cls t (Alt r s) p = ends cls t r p @ ends cls t s p"
| "ends cls t (Star r) p =
     concat (map (\<lambda>e. if p < e \<and> e \<le> length t then ends cls t (Star r) e else []) (ends cls t r p)) @ [p]"
| "ends cls t Boundary p = (if boundary cls t p then [p] else [])"
  by pat_completeness auto
termination
  by (relation "measures [\<lambda>(cls, t, r, p). size r, \<lambda>(cls, t, r, p). length t - p]") auto

definition search :: "char_classes \<Rightarrow> rx \<Rightarrow> codepoints \<Rightarrow> (nat \<times> nat) option" where
  "search cls r t = (case find (\<lambda>p. ends cls t r p \<noteq> []) [0..<Suc (length t)] of
     None \<Rightarrow> None | Some p \<Rightarrow> Some (p, hd (ends cls t r p)))"

definition matched_text :: "codepoints \<Rightarrow> nat \<times> nat \<Rightarrow> codepoints" where
  "matched_text t m = drop (fst m) (take (snd m) t)"

section \<open>Expressions\<close>

text \<open>A letter under \<^verbatim>\<open>IGNORECASE\<close>: the simple case mapping, and the characters outside ASCII that the
  engine identifies with a letter.\<close>

definition same_letter :: "char \<Rightarrow> nat \<Rightarrow> bool" where
  "same_letter c n = (code_point (lower_char c) = ascii_lower n \<or> (lower_char c = CHR ''i'' \<and> n \<in> {0x130, 0x131})
     \<or> (lower_char c = CHR ''s'' \<and> n = 0x17F) \<or> (lower_char c = CHR ''k'' \<and> n = 0x212A))"

fun lit :: "string \<Rightarrow> rx" where
  "lit [] = Eps"
| "lit [c] = Class (same_letter c)"
| "lit (c # s) = Seq (Class (same_letter c)) (lit s)"

fun sequence :: "rx list \<Rightarrow> rx" where
  "sequence [] = Eps"
| "sequence [r] = r"
| "sequence (r # rs) = Seq r (sequence rs)"

fun one_of :: "rx list \<Rightarrow> rx" where
  "one_of [r] = r"
| "one_of (r # rs) = Alt r (one_of rs)"
| "one_of [] = Class (\<lambda>_. False)"

definition any_char :: rx where
  "any_char = Class (\<lambda>n. n \<noteq> 10)"

definition space :: rx where
  "space = Class unicode_space"

definition optional :: "rx \<Rightarrow> rx" where
  "optional r = Alt r Eps"

definition plus :: "rx \<Rightarrow> rx" where
  "plus r = Seq r (Star r)"

section \<open>The engine and the language\<close>

inductive matches :: "char_classes \<Rightarrow> codepoints \<Rightarrow> rx \<Rightarrow> nat \<Rightarrow> nat \<Rightarrow> bool" for cls t where
  Eps: "matches cls t Eps p p"
| Class: "p < length t \<Longrightarrow> f (t ! p) \<Longrightarrow> matches cls t (Class f) p (Suc p)"
| Seq: "matches cls t r p q \<Longrightarrow> matches cls t s q e \<Longrightarrow> matches cls t (Seq r s) p e"
| AltL: "matches cls t r p e \<Longrightarrow> matches cls t (Alt r s) p e"
| AltR: "matches cls t s p e \<Longrightarrow> matches cls t (Alt r s) p e"
| Stop: "matches cls t (Star r) p p"
| Step: "matches cls t r p q \<Longrightarrow> matches cls t (Star r) q e \<Longrightarrow> matches cls t (Star r) p e"
| Boundary: "boundary cls t p \<Longrightarrow> matches cls t Boundary p p"

lemma matches_bounds: "matches cls t r p e \<Longrightarrow> p \<le> e \<and> (e \<le> length t \<or> e = p)"
  by (induction rule: matches.induct) auto

declare ends.simps(5) [simp del]

lemma ends_Star:
  "e \<in> set (ends cls t (Star r) p) \<longleftrightarrow>
     e = p \<or> (\<exists>q \<in> set (ends cls t r p). p < q \<and> q \<le> length t \<and> e \<in> set (ends cls t (Star r) q))"
  by (subst ends.simps(5)) auto

lemma ends_sound: "e \<in> set (ends cls t r p) \<Longrightarrow> matches cls t r p e"
proof (induction cls t r p arbitrary: e rule: ends.induct)
  case (1 cls t p)
  then show ?case by (simp add: matches.Eps)
next
  case (2 cls t f p)
  then show ?case by (simp add: matches.Class split: if_splits)
next
  case (3 cls t r s p)
  then obtain q where "q \<in> set (ends cls t r p)" "e \<in> set (ends cls t s q)" by auto
  with 3(1,2) show ?case by (blast intro: matches.Seq)
next
  case (4 cls t r s p)
  from 4(3) consider "e \<in> set (ends cls t r p)" | "e \<in> set (ends cls t s p)" by auto
  then show ?case using 4(1,2) by cases (simp_all add: matches.AltL matches.AltR)
next
  case (5 cls t r p)
  show ?case
  proof (cases "e = p")
    case True
    then show ?thesis by (simp add: matches.Stop)
  next
    case False
    with 5(3) obtain q where "q \<in> set (ends cls t r p)" "p < q \<and> q \<le> length t" "e \<in> set (ends cls t (Star r) q)"
      unfolding ends_Star [of e cls t r p] by blast
    with 5(1,2) show ?thesis by (blast intro: matches.Step)
  qed
next
  case (6 cls t p)
  then show ?case by (simp add: matches.Boundary split: if_splits)
qed

lemma ends_complete: "matches cls t r p e \<Longrightarrow> e \<in> set (ends cls t r p)"
proof (induction rule: matches.induct)
  case (Stop r p)
  then show ?case by (simp add: ends_Star [of p cls t r p])
next
  case (Step r p q e)
  show ?case
  proof (cases "q = p")
    case True
    with Step.IH(2) show ?thesis by simp
  next
    case False
    with matches_bounds [OF Step.hyps(1)] have "p < q \<and> q \<le> length t" by auto
    with Step.IH show ?thesis unfolding ends_Star [of e cls t r p] by blast
  qed
next
  case (Seq r p q s e)
  then show ?case by (simp only: ends.simps set_concat set_map) blast
qed simp_all

text \<open>A search finds a match exactly when the language has one, and then at the leftmost position.\<close>

theorem search_decides:
  "case search cls r t of
     None \<Rightarrow> \<not> (\<exists>p \<le> length t. \<exists>e. matches cls t r p e)
   | Some (p, e) \<Rightarrow> p \<le> length t \<and> matches cls t r p e \<and> \<not> (\<exists>q < p. \<exists>e. matches cls t r q e)"
proof -
  have e: "ends cls t r p \<noteq> [] \<longleftrightarrow> (\<exists>e. matches cls t r p e)" for p
    using ends_sound ends_complete by (metis list.set_intros(1) list.exhaust empty_iff list.set(1))
  show ?thesis
  proof (cases "find (\<lambda>p. ends cls t r p \<noteq> []) [0..<Suc (length t)]")
    case None
    then have "\<not> (\<exists>p \<le> length t. ends cls t r p \<noteq> [])" by (auto simp: find_None_iff simp del: upt_Suc)
    then show ?thesis unfolding e using None by (simp add: search_def del: upt_Suc)
  next
    case (Some p)
    then obtain i where i: "i < Suc (length t)" "p = i" "ends cls t r i \<noteq> []" "\<forall>j < i. ends cls t r j = []"
      unfolding find_Some_iff by (auto simp del: upt_Suc)
    then have "matches cls t r p (hd (ends cls t r p))" by (auto intro: ends_sound)
    moreover have "\<not> (\<exists>q < p. \<exists>e. matches cls t r q e)" using i(2,4) e by blast
    ultimately show ?thesis using Some i by (simp add: search_def del: upt_Suc)
  qed
qed

end
