(* ===== verification/Malware_Scan.thy ===== *)
theory Malware_Scan
  imports Py_Regex Review_Gates
begin

text \<open>
  The malware scan (\<^verbatim>\<open>malware_scan.py\<close>): the five signatures as expressions of the regular-expression
  engine, the scan of a file, and the table of results. What a path holds is a parameter
  (\<^verbatim>\<open>source_file\<close>), and so are the classes of characters outside ASCII.

  A result is the dictionary of the code. The matched text may hold characters beyond the ones of a
  string of the model; such a text is given as the list of its code points.
\<close>

section \<open>Signatures\<close>

definition MAX_SCAN_SIZE_BYTES :: nat where
  "MAX_SCAN_SIZE_BYTES = 4 * 1024 * 1024"

definition one_to_three_digits :: "char_classes \<Rightarrow> rx" where
  "one_to_three_digits cls = (let d = Class (decimal_code cls) in Seq d (optional (Seq d (optional d))))"

definition dotted_quad :: "char_classes \<Rightarrow> rx" where
  "dotted_quad cls = (let d = one_to_three_digits cls; dot = lit ''.'' in sequence [d, dot, d, dot, d, dot, d])"

record signature =
  sg_pattern :: rx
  sg_severity :: string
  sg_name :: string
  sg_description :: string

definition MALWARE_SIGNATURES :: "char_classes \<Rightarrow> signature list" where
  "MALWARE_SIGNATURES cls =
     [\<lparr>sg_pattern = sequence [Boundary, one_of [lit ''eval'', lit ''exec''], Star space, lit ''('', Star space,
         one_of [lit ''base64'', lit ''codecs'', lit ''marshal'', lit ''pickle''], lit ''.''],
       sg_severity = ''critical'', sg_name = ''obfuscated_execution'', sg_description = ''Obfuscated code execution''\<rparr>,
      \<lparr>sg_pattern = one_of
         [sequence [lit ''os.system'', Star space, lit ''('', Star any_char, lit ''${''],
          sequence [lit ''subprocess.'', one_of [lit ''call'', lit ''Popen''], Star any_char, lit ''shell'', Star space,
            lit ''='', Star space, lit ''True'']],
       sg_severity = ''high'', sg_name = ''shell_injection'', sg_description = ''Potential shell injection''\<rparr>,
      \<lparr>sg_pattern = sequence [Boundary, lit ''socket.'', one_of [lit ''connect'', lit ''send'', lit ''recv''], Boundary,
         Star any_char, Boundary, dotted_quad cls, Boundary],
       sg_severity = ''high'', sg_name = ''hardcoded_network_endpoint'', sg_description = ''Hardcoded IP in network call''\<rparr>,
      \<lparr>sg_pattern = one_of
         [sequence [Boundary, lit ''chmod'', plus space, lit ''777'', Boundary],
          sequence [Boundary, lit ''os.chmod'', Star any_char, Boundary, lit ''0o777'', Boundary]],
       sg_severity = ''high'', sg_name = ''world_writable_permission'',
       sg_description = ''Setting world-writable permissions''\<rparr>,
      \<lparr>sg_pattern = sequence [Boundary, lit ''sudo'', plus space,
         one_of [lit ''bash'', lit ''sh'', lit ''zsh'', lit ''python'', lit ''perl''], space],
       sg_severity = ''high'', sg_name = ''sudo_shell_escalation'', sg_description = ''Sudo shell escalation''\<rparr>]"

section \<open>The scan of a file\<close>

definition text_json :: "codepoints \<Rightarrow> json" where
  "text_json t = (if list_all (\<lambda>c. c < 256) t then JStr (map char_of t) else JList (map (JInt \<circ> int) t))"

definition signature_finding :: "char_classes \<Rightarrow> codepoints \<Rightarrow> signature \<Rightarrow> json option" where
  "signature_finding cls t sg = map_option (\<lambda>m. JObj [(''name'', JStr (sg_name sg)), (''severity'', JStr (sg_severity sg)),
     (''description'', JStr (sg_description sg)), (''matchedText'', text_json (take 200 (matched_text t m)))])
     (search cls (sg_pattern sg) t)"

definition scan_findings :: "char_classes \<Rightarrow> codepoints \<Rightarrow> json list" where
  "scan_findings cls t = List.map_filter (signature_finding cls t) (MALWARE_SIGNATURES cls)"

definition of_severity :: "string \<Rightarrow> json list \<Rightarrow> nat" where
  "of_severity sev fs = length (filter (\<lambda>f. get_of ''severity'' f = JStr sev) fs)"

definition scan_refused :: "string \<Rightarrow> payload" where
  "scan_refused message = [(''passed'', JBool False), (''error'', JStr message), (''findings'', JList [])]"

definition scan_file :: "char_classes \<Rightarrow> source_file \<Rightarrow> py_error + payload" where
  "scan_file cls file =
     (case file of
        NoFile \<Rightarrow> Inr (scan_refused ''File not found'')
      | NotRegular \<Rightarrow> Inr (scan_refused ''File not found'')
      | Unopenable \<Rightarrow> Inl (PermissionError ''Permission denied'')
      | Contents content \<Rightarrow>
          if MAX_SCAN_SIZE_BYTES < length content then Inr (scan_refused ''File too large'')
          else
            let findings = scan_findings cls (utf8_decode content);
                critical = of_severity ''critical'' findings; high = of_severity ''high'' findings in
            Inr [(''passed'', JBool (critical = 0 \<and> high = 0)), (''fileHash'', JStr (''sha256:'' @ hexdigest_bytes content)),
              (''fileSize'', JInt (int (length content))), (''findings'', JList findings),
              (''criticalCount'', JInt (int critical)), (''highCount'', JInt (int high))])"

section \<open>Results\<close>

definition scan_capability ::
  "runtime \<Rightarrow> char_classes \<Rightarrow> (string \<Rightarrow> source_file) \<Rightarrow> string \<Rightarrow> string \<Rightarrow> bool \<Rightarrow> conn \<Rightarrow> (conn, payload) outcome" where
  "scan_capability rt cls files capability_uri tenant_id commits con0 =
     (let con = ensure_table con0 in
      case find (\<lambda>c. c_uri c = capability_uri \<and> c_tenant_id c = tenant_id) (capabilities (db con)) of
        None \<Rightarrow> (Inr [(''passed'', JBool False), (''error'', JStr ''Capability not found'')], con)
      | Some cap \<Rightarrow> (case scan_file cls (files (c_source_path cap)) of
          Inl e \<Rightarrow> (Inl e, con)
        | Inr result \<Rightarrow>
            let (scan_id, con) = new_id rt ''scn'' con;
                row = \<lparr>sc_id = scan_id, sc_tenant = tenant_id, sc_capability_uri = capability_uri,
                  sc_source_path = c_source_path cap,
                  sc_file_hash = py_str (case map_of result ''fileHash'' of None \<Rightarrow> JStr ''sha256:unknown'' | Some v \<Rightarrow> v),
                  sc_passed = json_truthy (pget result ''passed''), sc_findings = pget result ''findings'',
                  sc_scanned_at = utc_now rt\<rparr>;
                con = with_db (\<lambda>d. d\<lparr>malware_scan_results := malware_scan_results d @ [row]\<rparr>) con
            in (Inr (result @ [(''capabilityUri'', JStr capability_uri), (''scanId'', JStr scan_id)]), commit_if commits con)))"

definition scan_result_record :: "scan_row \<Rightarrow> payload" where
  "scan_result_record r = [(''scanId'', JStr (sc_id r)), (''capabilityUri'', JStr (sc_capability_uri r)),
     (''sourcePath'', if sc_source_path r = [] then JNull else JStr (sc_source_path r)), (''fileHash'', JStr (sc_file_hash r)),
     (''passed'', JBool (sc_passed r)), (''findings'', sc_findings r), (''scannedAt'', JStr (sc_scanned_at r))]"

definition get_scan_results :: "string option \<Rightarrow> string \<Rightarrow> int \<Rightarrow> conn \<Rightarrow> payload list \<times> conn" where
  "get_scan_results capability_uri tenant_id limit con0 =
     (let con = ensure_table con0;
          rows = filter (\<lambda>r. sc_tenant r = tenant_id \<and> (truthy capability_uri \<longrightarrow> Some (sc_capability_uri r) = capability_uri))
            (malware_scan_results (db con))
      in (map scan_result_record (take (nat (min (max limit 1) 200)) (order_by_desc sc_scanned_at rows)), con))"

section \<open>What a scan decides\<close>

lemma search_iff: "(search cls r t \<noteq> None) \<longleftrightarrow> (\<exists>p \<le> length t. \<exists>e. matches cls t r p e)"
  using search_decides [where cls = cls and r = r and t = t] by (auto split: option.splits prod.splits)

lemma signature_severity:
  "sg \<in> set (MALWARE_SIGNATURES cls) \<Longrightarrow> sg_severity sg \<in> {''critical'', ''high''}"
  by (auto simp: MALWARE_SIGNATURES_def)

lemma signature_finding_severity:
  "signature_finding cls t sg = Some f \<Longrightarrow> get_of ''severity'' f = JStr (sg_severity sg)"
  by (auto simp: signature_finding_def get_of_def pget_def)

text \<open>Every finding blocks: a scan without blocking findings has none.\<close>

lemma findings_all_block: "of_severity ''critical'' (scan_findings cls t) = 0 \<and> of_severity ''high'' (scan_findings cls t) = 0
    \<longleftrightarrow> scan_findings cls t = []"
proof -
  have "get_of ''severity'' f \<in> {JStr ''critical'', JStr ''high''}" if f: "f \<in> set (scan_findings cls t)" for f
  proof -
    from f obtain sg where "sg \<in> set (MALWARE_SIGNATURES cls)" "signature_finding cls t sg = Some f"
      by (auto simp: scan_findings_def List.map_filter_def)
    then show ?thesis using signature_severity [of sg cls] signature_finding_severity [of cls t sg f] by auto
  qed
  then show ?thesis unfolding of_severity_def length_0_conv filter_empty_conv
    by (metis empty_iff insert_iff list.set(1) list.set_intros(1) neq_Nil_conv)
qed

lemma no_findings: "scan_findings cls t = [] \<longleftrightarrow> (\<forall>sg \<in> set (MALWARE_SIGNATURES cls). search cls (sg_pattern sg) t = None)"
proof -
  have "List.map_filter f xs = [] \<longleftrightarrow> (\<forall>x \<in> set xs. f x = None)" for f :: "signature \<Rightarrow> json option" and xs
    by (induction xs) (auto simp: List.map_filter_simps split: option.split)
  then show ?thesis by (simp add: scan_findings_def signature_finding_def)
qed

lemma scan_passes_decided:
  "(\<exists>result. scan_file cls src = Inr result \<and> json_truthy (pget result ''passed'')) \<longleftrightarrow>
     (\<exists>content. src = Contents content \<and> length content \<le> MAX_SCAN_SIZE_BYTES
        \<and> \<not> (\<exists>sg \<in> set (MALWARE_SIGNATURES cls). \<exists>p \<le> length (utf8_decode content). \<exists>e.
              matches cls (utf8_decode content) (sg_pattern sg) p e))"
proof (cases src)
  case (Contents content)
  let ?t = "utf8_decode content"
  have "scan_findings cls ?t = [] \<longleftrightarrow>
      \<not> (\<exists>sg \<in> set (MALWARE_SIGNATURES cls). \<exists>p \<le> length ?t. \<exists>e. matches cls ?t (sg_pattern sg) p e)"
    unfolding no_findings using search_iff [of cls _ ?t] by metis
  then show ?thesis
    by (auto simp: scan_file_def Contents Let_def scan_refused_def pget_def json_truthy_def findings_all_block)
qed (auto simp: scan_file_def scan_refused_def pget_def json_truthy_def)

text \<open>C26. A scan passes exactly on a file of at most 4 MiB in whose decoded text no part matches any of
  the five signatures; a missing, an unreadable or an oversized file does not pass.\<close>

theorem scan_passes_iff:
  "(\<exists>result. scan_file cls src = Inr result \<and> json_truthy (pget result ''passed'')) \<longleftrightarrow>
     (\<exists>content. src = Contents content \<and> length content \<le> MAX_SCAN_SIZE_BYTES
        \<and> \<not> (\<exists>sg \<in> set (MALWARE_SIGNATURES cls). \<exists>p \<le> length (utf8_decode content). \<exists>e.
              matches cls (utf8_decode content) (sg_pattern sg) p e))"
  by (rule scan_passes_decided)

lemma scan_file_hash:
  "scan_file cls (Contents content) = Inr result \<Longrightarrow> length content \<le> MAX_SCAN_SIZE_BYTES \<Longrightarrow>
     pget result ''fileHash'' = JStr (''sha256:'' @ hexdigest_bytes content)"
  by (auto simp: scan_file_def Let_def pget_def)

end
