(* ===== verification/Quarantine_Store.thy ===== *)
theory Quarantine_Store
  imports Malware_Scan Cap_Guard Registry_Log
begin

text \<open>
  The quarantine store and its signed attestations (\<^verbatim>\<open>capguard.py\<close>) and the operations the server
  offers on them (\<^verbatim>\<open>capguard_api.py\<close>).

  Every operation first runs \<^verbatim>\<open>ensure_quarantine_tables\<close>, a script that commits an open transaction,
  so that an operation called with \<^verbatim>\<open>commit=False\<close> keeps uncommitted only what it writes after its last
  call of another operation. The argument \<^verbatim>\<open>persist\<close> has its default True: a generated signing key
  stays for the rest of the call (\<^verbatim>\<open>key_kept\<close>). The audit row is written inside a handler that ignores
  its failure; in the model it never fails.
\<close>

section \<open>Vocabularies and records\<close>

definition QUARANTINE_STATUSES :: "string list" where
  "QUARANTINE_STATUSES = [''quarantined'', ''released'', ''rejected'', ''superseded'']"

definition QUARANTINE_REASONS :: "string list" where
  "QUARANTINE_REASONS = [''pending_scan'', ''scan_failed'', ''manual_hold'', ''resubmitted'']"

definition ATTESTATION_TYPES :: "string list" where
  "ATTESTATION_TYPES = [''scan'', ''release'', ''reject'']"

definition SCAN_VERDICTS :: "string list" where
  "SCAN_VERDICTS = [''clean'', ''blocked'', ''error'']"

definition BLOCKING_SEVERITIES :: "string list" where
  "BLOCKING_SEVERITIES = [''critical'', ''high'']"

definition quarantine_record :: "quarantine_row \<Rightarrow> payload" where
  "quarantine_record r =
     [(''id'', JStr (qt_id r)), (''tenantId'', JStr (qt_tenant r)), (''capabilityUri'', JStr (qt_capability_uri r)),
      (''capabilityType'', JStr (qt_capability_type r)), (''name'', JStr (qt_name r)), (''version'', JStr (qt_version r)),
      (''sourcePath'', JStr (qt_source_path r)), (''contentHash'', JStr (qt_content_hash r)), (''reason'', JStr (qt_reason r)),
      (''status'', JStr (qt_status r)), (''submittedBy'', json_opt (qt_submitted_by r)), (''metadata'', qt_metadata r),
      (''createdAt'', JStr (qt_created_at r)), (''updatedAt'', JStr (qt_updated_at r)),
      (''releasedAt'', json_opt (qt_released_at r)), (''rejectedAt'', json_opt (qt_rejected_at r))]"

definition attestation_record :: "guard_attestation_row \<Rightarrow> payload" where
  "attestation_record r =
     [(''id'', JStr (ga_id r)), (''tenantId'', JStr (ga_tenant r)), (''quarantineId'', JStr (ga_quarantine r)),
      (''attestationType'', JStr (ga_type r)), (''subjectUri'', JStr (ga_subject_uri r)), (''contentHash'', JStr (ga_content_hash r)),
      (''verdict'', json_opt (ga_verdict r)), (''scannerId'', json_opt (ga_scanner_id r)),
      (''scannerVersion'', json_opt (ga_scanner_version r)), (''findingsSummary'', ga_findings r),
      (''algorithm'', JStr (ga_algorithm r)), (''keyId'', JStr (ga_key_id r)), (''publicKey'', JStr (ga_public_key r)),
      (''signature'', JStr (ga_signature r)), (''envelope'', ga_envelope r), (''verifies'', JBool (ga_verifies r)),
      (''actor'', json_opt (ga_actor r)), (''reason'', json_opt (ga_reason r)), (''createdAt'', JStr (ga_created_at r))]"

definition guard_tenant :: "runtime \<Rightarrow> string \<Rightarrow> string" where
  "guard_tenant rt tenant_id = (if tenant_id = [] then DEFAULT_TENANT rt else tenant_id)"

text \<open>\<^verbatim>\<open>_audit\<close>\<close>

definition guard_audit ::
  "runtime \<Rightarrow> string \<Rightarrow> string \<Rightarrow> string \<Rightarrow> string \<Rightarrow> payload \<Rightarrow> string \<Rightarrow> conn \<Rightarrow> conn" where
  "guard_audit rt event_type actor target action payload tenant con =
     snd (audit_event rt event_type actor (Some target) (Some action) (Some ''allow'') None payload tenant ''user'' con)"

section \<open>The store\<close>

record quarantine_request =
  qq_tenant_id :: string
  qq_capability_uri :: string
  qq_capability_type :: string
  qq_name :: string
  qq_version :: string
  qq_source_path :: string
  qq_content_hash :: string
  qq_reason :: string
  qq_submitted_by :: "string option"
  qq_metadata :: payload

definition active_for :: "string \<Rightarrow> string \<Rightarrow> string \<Rightarrow> quarantine_row \<Rightarrow> bool" where
  "active_for tenant uri hash q =
     (qt_tenant q = tenant \<and> qt_capability_uri q = uri \<and> qt_content_hash q = hash \<and> qt_status q = ''quarantined'')"

definition quarantine_row_of :: "runtime \<Rightarrow> quarantine_request \<Rightarrow> string \<Rightarrow> quarantine_row" where
  "quarantine_row_of rt req quarantine_id = \<lparr>qt_id = quarantine_id, qt_tenant = guard_tenant rt (qq_tenant_id req),
     qt_capability_uri = qq_capability_uri req, qt_capability_type = qq_capability_type req, qt_name = qq_name req,
     qt_version = qq_version req, qt_source_path = qq_source_path req, qt_content_hash = qq_content_hash req,
     qt_reason = qq_reason req, qt_status = ''quarantined'', qt_submitted_by = qq_submitted_by req,
     qt_metadata = JObj (qq_metadata req), qt_created_at = sql_now rt, qt_updated_at = sql_now rt, qt_released_at = None,
     qt_rejected_at = None\<rparr>"

definition quarantine_capability :: "runtime \<Rightarrow> quarantine_request \<Rightarrow> bool \<Rightarrow> conn \<Rightarrow> (conn, payload) outcome" where
  "quarantine_capability rt req commits con0 =
     (let con = ensure_table con0; tenant = guard_tenant rt (qq_tenant_id req) in
      if qq_capability_uri req = [] \<or> qq_content_hash req = [] then
        (Inl (QuarantineError ''capabilityUri and contentHash are required.''), con)
      else if qq_reason req \<notin> set QUARANTINE_REASONS then
        (Inl (QuarantineError (''Unsupported quarantine reason: '' @ repr_str (qq_reason req))), con)
      else (case find (active_for tenant (qq_capability_uri req) (qq_content_hash req)) (capguard_quarantine (db con)) of
          Some existing \<Rightarrow> (Inr (quarantine_record existing), con)
        | None \<Rightarrow>
            let (quarantine_id, con) = new_id rt ''qtn'' con;
                row = quarantine_row_of rt req quarantine_id;
                con = with_db (\<lambda>d. d\<lparr>capguard_quarantine := capguard_quarantine d @ [row]\<rparr>) con;
                con = guard_audit rt ''capguard.quarantined'' (or_else (qq_submitted_by req) ''system'') quarantine_id ''quarantine''
                  [(''capabilityUri'', JStr (qq_capability_uri req)), (''contentHash'', JStr (qq_content_hash req)),
                   (''reason'', JStr (qq_reason req))] tenant con
            in (Inr (quarantine_record row), commit_if commits con)))"

definition get_quarantine :: "runtime \<Rightarrow> string \<Rightarrow> string \<Rightarrow> conn \<Rightarrow> quarantine_row option \<times> conn" where
  "get_quarantine rt quarantine_id tenant_id con0 =
     (let con = ensure_table con0 in
      (find (\<lambda>q. qt_id q = quarantine_id \<and> qt_tenant q = guard_tenant rt tenant_id) (capguard_quarantine (db con)), con))"

definition list_quarantine ::
  "runtime \<Rightarrow> string \<Rightarrow> string option \<Rightarrow> int \<Rightarrow> conn \<Rightarrow> (conn, quarantine_row list) outcome" where
  "list_quarantine rt tenant_id status limit con0 =
     (let con = ensure_table con0 in
      if \<exists>s. status = Some s \<and> s \<notin> set QUARANTINE_STATUSES then
        (Inl (QuarantineError (''Unsupported quarantine status: '' @ repr_str (the status))), con)
      else
        let rows = filter (\<lambda>q. qt_tenant q = guard_tenant rt tenant_id \<and> (truthy status \<longrightarrow> Some (qt_status q) = status))
              (capguard_quarantine (db con))
        in (Inr (take (nat (min (max limit 1) 500)) (order_by_desc qt_created_at rows)), con))"

section \<open>Attestations\<close>

definition blocking_finding :: "json \<Rightarrow> bool" where
  "blocking_finding f = (case f of
     JObj kvs \<Rightarrow> py_lower (py_str (case map_of kvs ''severity'' of None \<Rightarrow> JStr [] | Some v \<Rightarrow> v)) \<in> set BLOCKING_SEVERITIES
   | _ \<Rightarrow> False)"

definition verdict_for_scan :: "payload \<Rightarrow> py_error + string" where
  "verdict_for_scan scan_result =
     (if json_truthy (pget scan_result ''error'') then Inr ''error''
      else bind_sum (iterate (json_or (pget scan_result ''findings'') (JList []))) (\<lambda>findings.
        if list_ex blocking_finding findings then Inr ''blocked''
        else if json_truthy (pget scan_result ''criticalCount'') \<or> json_truthy (pget scan_result ''highCount'') then Inr ''blocked''
        else if pget scan_result ''passed'' = JBool False then Inr ''blocked''
        else Inr ''clean''))"

definition int_field :: "payload \<Rightarrow> string \<Rightarrow> py_error + int" where
  "int_field p k = (case map_of p k of None \<Rightarrow> Inr 0 | Some v \<Rightarrow> to_int v)"

definition findings_summary :: "payload \<Rightarrow> py_error + payload" where
  "findings_summary scan_result =
     bind_sum (int_field scan_result ''criticalCount'') (\<lambda>critical.
     bind_sum (int_field scan_result ''highCount'') (\<lambda>high.
       Inr [(''passed'', JBool (json_truthy (pget scan_result ''passed''))), (''criticalCount'', JInt critical),
         (''highCount'', JInt high),
         (''findingCount'', JInt (case json_or (pget scan_result ''findings'') (JList []) of JList fs \<Rightarrow> int (length fs) | _ \<Rightarrow> 0)),
         (''error'', pget scan_result ''error'')]))"

text \<open>What the envelope and the row of an attestation hold.\<close>

record attestation_data =
  at_type :: string
  at_quarantine :: string
  at_uri :: string
  at_hash :: string
  at_tenant :: string
  at_verdict :: "string option"
  at_scanner_id :: "string option"
  at_scanner_version :: "string option"
  at_findings :: payload
  at_actor :: "string option"
  at_reason :: "string option"

definition attestation_of :: "string \<Rightarrow> string \<Rightarrow> quarantine_row \<Rightarrow> attestation_data" where
  "attestation_of kind tenant row = \<lparr>at_type = kind, at_quarantine = qt_id row, at_uri = qt_capability_uri row,
     at_hash = qt_content_hash row, at_tenant = tenant, at_verdict = None, at_scanner_id = None, at_scanner_version = None,
     at_findings = [], at_actor = None, at_reason = None\<rparr>"

definition build_envelope :: "runtime \<Rightarrow> attestation_data \<Rightarrow> json" where
  "build_envelope rt a = JObj
     ([(''schema'', JStr ''capguard.attestation.v1''), (''type'', JStr (at_type a)), (''quarantineId'', JStr (at_quarantine a)),
       (''capabilityUri'', JStr (at_uri a)), (''contentHash'', JStr (at_hash a)), (''tenantId'', JStr (at_tenant a)),
       (''issuedAt'', JStr (utc_now rt))] @
      (if at_type a = ''scan''
       then [(''scannerId'', JStr (or_else (at_scanner_id a) ''capmesh-malware_scan'')),
         (''scannerVersion'', JStr (or_else (at_scanner_version a) ''unknown'')), (''verdict'', json_opt (at_verdict a)),
         (''findingsSummary'', JObj (at_findings a))]
       else [(''actor'', json_opt (at_actor a)), (''reason'', json_opt (at_reason a))]))"

definition attestation_row ::
  "runtime \<Rightarrow> 'k signer \<Rightarrow> attestation_data \<Rightarrow> payload \<Rightarrow> json \<Rightarrow> string \<Rightarrow> guard_attestation_row option" where
  "attestation_row rt s a att envelope attestation_id =
     (case (text_field att ''keyId'', text_field att ''publicKey'', text_field att ''signature'') of
        (Some kid, Some public, Some sig) \<Rightarrow> Some \<lparr>ga_id = attestation_id, ga_tenant = at_tenant a,
          ga_quarantine = at_quarantine a, ga_type = at_type a, ga_subject_uri = at_uri a, ga_content_hash = at_hash a,
          ga_verdict = at_verdict a, ga_scanner_id = at_scanner_id a, ga_scanner_version = at_scanner_version a,
          ga_findings = JObj (at_findings a),
          ga_algorithm = (case text_field att ''algorithm'' of None \<Rightarrow> ''Ed25519'' | Some v \<Rightarrow> v), ga_key_id = kid,
          ga_public_key = public, ga_signature = sig,
          ga_envelope = (case map_of att ''envelope'' of None \<Rightarrow> envelope | Some v \<Rightarrow> v),
          ga_verifies = verify_attestation s att None, ga_actor = at_actor a, ga_reason = at_reason a,
          ga_created_at = sql_now rt\<rparr>
      | _ \<Rightarrow> None)"

text \<open>\<^verbatim>\<open>_store_attestation\<close>: the columns of the key and of the signature are NOT NULL.\<close>

definition store_attestation ::
  "runtime \<Rightarrow> 'k signer \<Rightarrow> attestation_data \<Rightarrow> payload \<Rightarrow> json \<Rightarrow> bool \<Rightarrow> conn \<Rightarrow> (conn, guard_attestation_row) outcome" where
  "store_attestation rt s a att envelope commits con0 =
     (let (attestation_id, con) = new_id rt ''att'' con0 in
      case attestation_row rt s a att envelope attestation_id of
        None \<Rightarrow> (Inl (IntegrityError ''NOT NULL constraint failed''), con)
      | Some row \<Rightarrow>
          (Inr row, commit_if commits (with_db (\<lambda>d. d\<lparr>capguard_attestations := capguard_attestations d @ [row]\<rparr>) con)))"

text \<open>Signing and storing, as the three operations that attest do it.\<close>

definition attest ::
  "runtime \<Rightarrow> 'k review_env \<Rightarrow> attestation_data \<Rightarrow> bool \<Rightarrow> conn \<Rightarrow> (conn, guard_attestation_row) outcome" where
  "attest rt env a commits con =
     (let envelope = build_envelope rt a in
      case sign_attestation rt (key_dir env) (key_signer env) envelope of
        Inl e \<Rightarrow> (Inl e, con)
      | Inr att \<Rightarrow> store_attestation rt (key_signer env) a att envelope commits con)"

definition update_quarantine :: "string \<Rightarrow> (quarantine_row \<Rightarrow> quarantine_row) \<Rightarrow> conn \<Rightarrow> conn" where
  "update_quarantine quarantine_id f con = with_db (\<lambda>d. d\<lparr>capguard_quarantine :=
     update_where (\<lambda>q. qt_id q = quarantine_id) f (capguard_quarantine d)\<rparr>) con"

text \<open>The guard of every operation on one item: it exists in the tenant and is still held.\<close>

definition held_item :: "runtime \<Rightarrow> string \<Rightarrow> string \<Rightarrow> string \<Rightarrow> conn \<Rightarrow> (conn, quarantine_row) outcome" where
  "held_item rt verb quarantine_id tenant con0 =
     (let (record, con) = get_quarantine rt quarantine_id tenant (ensure_table con0) in
      case record of
        None \<Rightarrow> (Inl (QuarantineError (''Quarantine item not found: '' @ quarantine_id)), con)
      | Some row \<Rightarrow>
          if qt_status row \<noteq> ''quarantined'' then
            (Inl (QuarantineError (''Cannot '' @ verb @ '' a quarantine item in status '' @ repr_str (qt_status row) @ ''.'')), con)
          else (Inr row, con))"

definition scan_attestation_of :: "string \<Rightarrow> quarantine_row \<Rightarrow> string \<Rightarrow> payload \<Rightarrow> string \<Rightarrow> string option \<Rightarrow> attestation_data" where
  "scan_attestation_of tenant row verd summary scanner_id scanner_version =
     (attestation_of ''scan'' tenant row)\<lparr>at_verdict := Some verd, at_scanner_id := Some scanner_id,
        at_scanner_version := scanner_version, at_findings := summary\<rparr>"

definition issue_scan_attestation ::
  "runtime \<Rightarrow> 'k review_env \<Rightarrow> string \<Rightarrow> string \<Rightarrow> payload \<Rightarrow> string \<Rightarrow> string option \<Rightarrow> bool \<Rightarrow> conn
     \<Rightarrow> (conn, guard_attestation_row) outcome" where
  "issue_scan_attestation rt env quarantine_id tenant_id scan_result scanner_id scanner_version commits con0 =
     (let tenant = guard_tenant rt tenant_id in
      and_then (held_item rt ''scan'' quarantine_id tenant con0) (\<lambda>row con.
      and_then (lift_result (verdict_for_scan scan_result) con) (\<lambda>verd con.
      and_then (lift_result (findings_summary scan_result) con) (\<lambda>summary con.
      and_then (attest rt env (scan_attestation_of tenant row verd summary scanner_id scanner_version) commits con) (\<lambda>stored con.
        let con = (if verd = ''blocked'' then commit_if commits
              (update_quarantine quarantine_id (\<lambda>q. q\<lparr>qt_reason := ''scan_failed'', qt_updated_at := sql_now rt\<rparr>) con) else con);
            con = guard_audit rt ''capguard.scan.attested'' scanner_id quarantine_id ''scan''
              [(''verdict'', JStr verd), (''scannerVersion'', json_opt scanner_version)] tenant con
        in (Inr stored, con))))))"

definition stored_attestation :: "guard_attestation_row \<Rightarrow> payload" where
  "stored_attestation row = [(''algorithm'', JStr (ga_algorithm row)), (''keyId'', JStr (ga_key_id row)),
     (''publicKey'', JStr (ga_public_key row)), (''signature'', JStr (ga_signature row)), (''envelope'', ga_envelope row)]"

definition verify_attestation_record ::
  "'k signer \<Rightarrow> string \<Rightarrow> string option \<Rightarrow> conn \<Rightarrow> bool \<times> conn" where
  "verify_attestation_record s attestation_id trusted_key_id con0 =
     (let con = ensure_table con0 in
      (case find (\<lambda>r. ga_id r = attestation_id) (capguard_attestations (db con)) of
         None \<Rightarrow> False
       | Some row \<Rightarrow> verify_attestation s (stored_attestation row) trusted_key_id, con))"

text \<open>The latest valid scan of the current content, and whether it is clean. The re-verification of a
  row changes nothing after the first commit.\<close>

definition scan_clean_attestation ::
  "runtime \<Rightarrow> 'k signer \<Rightarrow> string \<Rightarrow> string \<Rightarrow> string option \<Rightarrow> conn \<Rightarrow> guard_attestation_row option \<times> conn" where
  "scan_clean_attestation rt s quarantine_id tenant_id trusted_key_id con0 =
     (let tenant = guard_tenant rt tenant_id;
          (record, con) = get_quarantine rt quarantine_id tenant (ensure_table con0) in
      case record of
        None \<Rightarrow> (None, con)
      | Some q \<Rightarrow>
          let rows = rev (filter (\<lambda>r. ga_tenant r = tenant \<and> ga_quarantine r = quarantine_id \<and> ga_type r = ''scan'')
                (capguard_attestations (db con)));
              valid = (\<lambda>r. ga_content_hash r = qt_content_hash q \<and> fst (verify_attestation_record s (ga_id r) trusted_key_id con))
          in (case find valid rows of
                None \<Rightarrow> None
              | Some r \<Rightarrow> if ga_verdict r = Some ''clean'' then Some r else None, con))"

definition attestation_chain_valid ::
  "runtime \<Rightarrow> 'k signer \<Rightarrow> string \<Rightarrow> string \<Rightarrow> string option \<Rightarrow> conn \<Rightarrow> bool \<times> conn" where
  "attestation_chain_valid rt s quarantine_id tenant_id trusted_key_id con =
     (let (clean, con) = scan_clean_attestation rt s quarantine_id tenant_id trusted_key_id con in (clean \<noteq> None, con))"

definition evaluate_release_policy ::
  "capability \<Rightarrow> payload option \<Rightarrow> bool option \<Rightarrow> guard_policy option \<Rightarrow> py_error + verdict" where
  "evaluate_release_policy cap scan_result injection_result pol =
     evaluate_cap_guard_policy cap scan_result (case pol of None \<Rightarrow> default_policy | Some x \<Rightarrow> x) injection_result"

section \<open>Release and rejection\<close>

definition set_capability_state :: "string \<Rightarrow> quarantine_row \<Rightarrow> string \<Rightarrow> string \<Rightarrow> conn \<Rightarrow> conn" where
  "set_capability_state tenant row lifecycle approval con = with_db (\<lambda>d. d\<lparr>capabilities :=
     update_where (\<lambda>c. c_tenant_id c = tenant \<and> c_uri c = qt_capability_uri row \<and> c_content_hash c = qt_content_hash row)
       (\<lambda>c. c\<lparr>c_lifecycle := lifecycle, c_approval_state := approval\<rparr>) (capabilities d)\<rparr>) con"

text \<open>The anchor: the key of the caller, or the configured one, or none when there is no usable key.\<close>

definition resolved_trust :: "runtime \<Rightarrow> 'k review_env \<Rightarrow> string option \<Rightarrow> string option" where
  "resolved_trust rt env trusted_key_id =
     (case trusted_key_id of
        Some k \<Rightarrow> Some k
      | None \<Rightarrow> (case trusted_signing_key_id rt (key_dir env) (key_signer env) of Inl _ \<Rightarrow> None | Inr k \<Rightarrow> Some k))"

text \<open>The policy is consulted when the caller has a capability.\<close>

definition policy_gate ::
  "capability option \<Rightarrow> payload option \<Rightarrow> bool option \<Rightarrow> guard_policy option \<Rightarrow> py_error + payload" where
  "policy_gate capability scan_result injection_result pol =
     (case capability of
        None \<Rightarrow> Inr []
      | Some cap \<Rightarrow> bind_sum (evaluate_release_policy cap scan_result injection_result pol) (\<lambda>v.
          if vd_action v \<noteq> ''allow'' then
            Inl (QuarantineReleaseBlocked (''Release refused: runtime policy verdict '' @ repr_str (vd_action v) @ '' for ''
              @ repr_str (c_uri cap) @ '': '' @ vd_reason v))
          else Inr [(''policyVerdict'', JObj (verdict_to_dict v))]))"

record release_request =
  rq_tenant_id :: string
  rq_actor :: string
  rq_reason :: string
  rq_trusted_key_id :: "string option"
  rq_capability :: "capability option"
  rq_scan_result :: "payload option"
  rq_injection_result :: "bool option"
  rq_policy :: "guard_policy option"

text \<open>The writes of a release: the attestation, the item, the catalog rows of the content, the audit row.\<close>

definition conclude_release ::
  "runtime \<Rightarrow> 'k review_env \<Rightarrow> string \<Rightarrow> release_request \<Rightarrow> quarantine_row \<Rightarrow> string \<Rightarrow> payload \<Rightarrow> bool \<Rightarrow> conn
     \<Rightarrow> (conn, quarantine_row option) outcome" where
  "conclude_release rt env tenant req row scan_id policy_verdict commits con =
     and_then (attest rt env ((attestation_of ''release'' tenant row)\<lparr>at_actor := Some (rq_actor req),
         at_reason := Some (rq_reason req)\<rparr>) False con) (\<lambda>_ con.
       let con = update_quarantine (qt_id row) (\<lambda>q. q\<lparr>qt_status := ''released'', qt_released_at := Some (sql_now rt),
             qt_updated_at := sql_now rt\<rparr>) con;
           con = set_capability_state tenant row ''active'' ''published'' con;
           con = guard_audit rt ''capguard.released'' (rq_actor req) (qt_id row) ''release''
             ([(''capabilityUri'', JStr (qt_capability_uri row)), (''reason'', JStr (rq_reason req)),
               (''scanAttestation'', JStr scan_id)] @ policy_verdict) tenant con;
           con = commit_if commits con
       in (Inr (find (\<lambda>q. qt_id q = qt_id row) (capguard_quarantine (db con))), con))"

definition release_from_quarantine ::
  "runtime \<Rightarrow> 'k review_env \<Rightarrow> string \<Rightarrow> release_request \<Rightarrow> bool \<Rightarrow> conn \<Rightarrow> (conn, quarantine_row option) outcome" where
  "release_from_quarantine rt env quarantine_id req commits con0 =
     (let tenant = guard_tenant rt (rq_tenant_id req); trust = resolved_trust rt env (rq_trusted_key_id req) in
      and_then (held_item rt ''release'' quarantine_id tenant con0) (\<lambda>row con.
        case scan_clean_attestation rt (key_signer env) quarantine_id tenant trust con of
          (None, con) \<Rightarrow> (Inl (QuarantineReleaseBlocked (''Release refused: no valid clean scan attestation for the current ''
            @ ''content_hash (quarantine='' @ quarantine_id @ '', tenant='' @ tenant @ '').'')), con)
        | (Some scan, con) \<Rightarrow>
            and_then (lift_result (policy_gate (rq_capability req) (rq_scan_result req) (rq_injection_result req) (rq_policy req)) con)
              (\<lambda>policy_verdict con. conclude_release rt env tenant req row (ga_id scan) policy_verdict commits con)))"

definition reject_from_quarantine ::
  "runtime \<Rightarrow> 'k review_env \<Rightarrow> string \<Rightarrow> string \<Rightarrow> string \<Rightarrow> string \<Rightarrow> bool \<Rightarrow> conn \<Rightarrow> (conn, quarantine_row option) outcome" where
  "reject_from_quarantine rt env quarantine_id tenant_id actor note commits con0 =
     (let tenant = guard_tenant rt tenant_id in
      and_then (held_item rt ''reject'' quarantine_id tenant con0) (\<lambda>row con.
        if py_strip note = [] then (Inl (QuarantineError ''A non-empty reject reason is required.''), con)
        else
          and_then (attest rt env ((attestation_of ''reject'' tenant row)\<lparr>at_actor := Some actor, at_reason := Some note\<rparr>)
            False con) (\<lambda>_ con.
          let con = update_quarantine quarantine_id (\<lambda>q. q\<lparr>qt_status := ''rejected'', qt_rejected_at := Some (sql_now rt),
                qt_updated_at := sql_now rt\<rparr>) con;
              con = set_capability_state tenant row ''disabled'' ''rejected'' con;
              con = guard_audit rt ''capguard.rejected'' actor quarantine_id ''reject''
                [(''capabilityUri'', JStr (qt_capability_uri row)), (''reason'', JStr note)] tenant con;
              con = commit_if commits con
          in (Inr (find (\<lambda>q. qt_id q = quarantine_id) (capguard_quarantine (db con))), con))))"

definition list_attestations ::
  "runtime \<Rightarrow> string \<Rightarrow> string \<Rightarrow> string option \<Rightarrow> conn \<Rightarrow> (conn, payload list) outcome" where
  "list_attestations rt quarantine_id tenant_id kind con0 =
     (let con = ensure_table con0 in
      if \<exists>s. kind = Some s \<and> s \<notin> set ATTESTATION_TYPES then
        (Inl (QuarantineError (''Unsupported attestation type: '' @ repr_str (the kind))), con)
      else (Inr (map attestation_record (filter (\<lambda>r. ga_tenant r = guard_tenant rt tenant_id \<and> ga_quarantine r = quarantine_id
          \<and> (truthy kind \<longrightarrow> Some (ga_type r) = kind)) (capguard_attestations (db con)))), con))"

section \<open>The release of the server\<close>

definition scan_quarantined_content :: "char_classes \<Rightarrow> (string \<Rightarrow> source_file) \<Rightarrow> quarantine_row \<Rightarrow> py_error + payload" where
  "scan_quarantined_content cls files row =
     (if qt_source_path row = [] then Inr (scan_refused ''quarantine item has no sourcePath'')
      else scan_file cls (files (qt_source_path row)))"

definition injection_verdict :: "unicode \<Rightarrow> quarantine_row \<Rightarrow> capability option \<Rightarrow> bool option \<times> string list" where
  "injection_verdict u row capability =
     (let parts = (case capability of None \<Rightarrow> [qt_name row] | Some c \<Rightarrow> [c_name c, c_title c, c_description c]);
          surface = join_with [CHR 0x0A] (filter (\<lambda>p. p \<noteq> []) parts) in
      if py_strip surface = [] then (None, [])
      else
        let phrases = scan_prompt_injection u (codes surface) in
        if phrases = [] then (Some True, [])
        else
          let blocked = (case capability of
                None \<Rightarrow> should_block phrases (qt_name row) (Some (qt_capability_type row)) None SURFACE_METADATA
              | Some c \<Rightarrow> should_block phrases (c_name c) (Some (c_type c)) (c_plugin c) SURFACE_METADATA)
          in (Some (\<not> blocked), phrases))"

definition injection_finding :: "nat \<Rightarrow> json" where
  "injection_finding hits = JObj [(''name'', JStr ''prompt_injection_blocked''), (''severity'', JStr ''critical''),
     (''description'', JStr (''metadata injection blocked: '' @ str_of_nat hits @ '' hit(s)''))]"

text \<open>A blocked injection is recorded as one more finding. A scan result of the store has a list of findings
  and counts that are integers.\<close>

definition composed_scan :: "payload \<Rightarrow> bool option \<times> string list \<Rightarrow> py_error + payload" where
  "composed_scan scan_result injection =
     (if fst injection = Some False then
        bind_sum (iterate (json_or (pget scan_result ''findings'') (JList []))) (\<lambda>findings.
        bind_sum (int_field scan_result ''criticalCount'') (\<lambda>critical.
          Inr (dict_set ''criticalCount'' (JInt (critical + 1))
            (dict_set ''findings'' (JList (findings @ [injection_finding (length (snd injection))]))
              (dict_set ''passed'' (JBool False) scan_result)))))
      else Inr scan_result)"

text \<open>A key generated by the first signature of a call is in the file for the rest of it.\<close>

definition key_kept :: "'k review_env \<Rightarrow> 'k review_env" where
  "key_kept env = (case key_file (key_signer env) of
     Inr None \<Rightarrow> env\<lparr>key_signer := (key_signer env)\<lparr>key_file := Inr (Some (generated (key_signer env)))\<rparr>\<rparr>
   | _ \<Rightarrow> env)"

definition release_capability_from_quarantine ::
  "runtime \<Rightarrow> 'k review_env \<Rightarrow> char_classes \<Rightarrow> string \<Rightarrow> release_request \<Rightarrow> bool \<Rightarrow> conn
     \<Rightarrow> (conn, quarantine_row option) outcome" where
  "release_capability_from_quarantine rt env cls quarantine_id req commits con0 =
     (let tenant = guard_tenant rt (rq_tenant_id req) in
      and_then (held_item rt ''release'' quarantine_id tenant con0) (\<lambda>row con.
        let cap = (case rq_capability req of None \<Rightarrow> get_capability (db con) (qt_capability_uri row) | Some c \<Rightarrow> Some c);
            injection = injection_verdict (unicode_tables env) row cap in
        and_then (lift_result (scan_quarantined_content cls (file_at env) row) con) (\<lambda>scanned con.
        and_then (lift_result (composed_scan scanned injection) con) (\<lambda>scan_result con.
        and_then (issue_scan_attestation rt env quarantine_id tenant scan_result ''capmesh-capguard-release'' (Some ''1'') False con)
          (\<lambda>_ con. release_from_quarantine rt (key_kept env) quarantine_id
             (req\<lparr>rq_tenant_id := tenant, rq_trusted_key_id := None, rq_capability := cap, rq_scan_result := Some scan_result,
                rq_injection_result := fst injection\<rparr>) commits con)))))"

section \<open>The interface of the server\<close>

definition require_right :: "runtime \<Rightarrow> principal \<Rightarrow> string \<Rightarrow> conn \<Rightarrow> (conn, unit) outcome" where
  "require_right rt p right con =
     (let ((allowed, why), con) = evaluate_access rt p right None (Some (''tenant:'' @ tenant_of rt p)) True con in
      if allowed then (Inr (), con) else (Inl (PermissionError (or_else why [])), con))"

definition count_status :: "string \<Rightarrow> quarantine_row list \<Rightarrow> nat" where
  "count_status status rows = length (filter (\<lambda>q. qt_status q = status) rows)"

definition capguard_status :: "runtime \<Rightarrow> principal \<Rightarrow> conn \<Rightarrow> (conn, payload) outcome" where
  "capguard_status rt p con =
     and_then (require_right rt p ''audit'' con) (\<lambda>_ con.
     and_then (list_quarantine rt (tenant_of rt p) None 500 con) (\<lambda>rows con.
       let count = (\<lambda>s. JInt (int (count_status s rows))) in
       (Inr [(''tenantId'', JStr (tenant_of rt p)), (''total'', JInt (int (length rows))),
          (''byStatus'', JObj (map (\<lambda>s. (s, count s)) (rev (remdups (rev (map qt_status rows)))))),
          (''quarantined'', count ''quarantined''), (''released'', count ''released''), (''rejected'', count ''rejected'')], con)))"

definition capguard_list_quarantine :: "runtime \<Rightarrow> principal \<Rightarrow> string option \<Rightarrow> conn \<Rightarrow> (conn, payload) outcome" where
  "capguard_list_quarantine rt p status con =
     and_then (require_right rt p ''audit'' con) (\<lambda>_ con.
     and_then (list_quarantine rt (tenant_of rt p) status 200 con) (\<lambda>rows con.
       (Inr [(''tenantId'', JStr (tenant_of rt p)), (''items'', JList (map (JObj \<circ> quarantine_record) rows))], con)))"

definition capguard_list_attestations ::
  "runtime \<Rightarrow> principal \<Rightarrow> string \<Rightarrow> string option \<Rightarrow> conn \<Rightarrow> (conn, payload) outcome" where
  "capguard_list_attestations rt p quarantine_id kind con =
     and_then (require_right rt p ''audit'' con) (\<lambda>_ con.
     and_then (list_attestations rt quarantine_id (tenant_of rt p) kind con) (\<lambda>rows con.
       (Inr [(''tenantId'', JStr (tenant_of rt p)), (''quarantineId'', JStr quarantine_id), (''items'', JList (map JObj rows))], con)))"

definition actor_of :: "principal \<Rightarrow> string \<Rightarrow> string" where
  "actor_of p dflt = or_else (or_opt (Some (p_subject p)) (p_email p)) dflt"

definition capguard_release ::
  "runtime \<Rightarrow> 'k review_env \<Rightarrow> char_classes \<Rightarrow> principal \<Rightarrow> payload \<Rightarrow> conn \<Rightarrow> (conn, quarantine_row option) outcome" where
  "capguard_release rt env cls p payload con =
     and_then (require_right rt p ''manage'' con) (\<lambda>_ con.
       let quarantine_id = py_strip (str_or payload ''quarantineId'' []);
           given = py_strip (str_or payload ''reason'' ''scan_clean'');
           note = (if given = [] then ''scan_clean'' else given) in
       if quarantine_id = [] then (Inl (ValueError ''quarantineId is required.''), con)
       else release_capability_from_quarantine rt env cls quarantine_id
         \<lparr>rq_tenant_id = tenant_of rt p, rq_actor = actor_of p ''capguard-release'', rq_reason = note,
            rq_trusted_key_id = None, rq_capability = None, rq_scan_result = None, rq_injection_result = None, rq_policy = None\<rparr>
         True con)"

definition capguard_reject ::
  "runtime \<Rightarrow> 'k review_env \<Rightarrow> principal \<Rightarrow> payload \<Rightarrow> conn \<Rightarrow> (conn, quarantine_row option) outcome" where
  "capguard_reject rt env p payload con =
     and_then (require_right rt p ''manage'' con) (\<lambda>_ con.
       let quarantine_id = py_strip (str_or payload ''quarantineId'' []); note = py_strip (str_or payload ''reason'' []) in
       if quarantine_id = [] then (Inl (ValueError ''quarantineId is required.''), con)
       else if note = [] then (Inl (ValueError ''A non-empty reject reason is required.''), con)
       else reject_from_quarantine rt env quarantine_id (tenant_of rt p) (actor_of p ''capguard-reject'') note True con)"


section \<open>Lemmas on the steps\<close>

lemma ensure_table_idem [simp]: "ensure_table (ensure_table con) = ensure_table con"
  by (simp add: ensure_table_def commit_def)

abbreviation item :: "string \<Rightarrow> string \<Rightarrow> database \<Rightarrow> quarantine_row option" where
  "item quarantine_id tenant d \<equiv> find (\<lambda>q. qt_id q = quarantine_id \<and> qt_tenant q = tenant) (capguard_quarantine d)"

lemma guard_tenant_idem [simp]:
  "DEFAULT_TENANT rt \<noteq> [] \<Longrightarrow> guard_tenant rt (guard_tenant rt t) = guard_tenant rt t"
  "t \<noteq> [] \<Longrightarrow> guard_tenant rt t = t"
  by (auto simp: guard_tenant_def)

lemma guard_tenant_twice [simp]: "guard_tenant rt (guard_tenant rt t) = guard_tenant rt t"
  by (auto simp: guard_tenant_def)

lemma held_item_Inr:
  "held_item rt verb qid tenant con = (Inr row, con') \<longleftrightarrow>
     con' = ensure_table con \<and> item qid (guard_tenant rt tenant) (db con) = Some row \<and> qt_status row = ''quarantined''"
  by (auto simp: held_item_def get_quarantine_def Let_def split: option.splits if_splits)

lemma held_item_state [simp]: "snd (held_item rt verb qid tenant con) = ensure_table con"
  by (auto simp: held_item_def get_quarantine_def Let_def split: option.splits)

lemma guard_audit_tables [simp]:
  "capguard_quarantine (db (guard_audit rt e a t ac p ten con)) = capguard_quarantine (db con)"
  "capguard_attestations (db (guard_audit rt e a t ac p ten con)) = capguard_attestations (db con)"
  "capabilities (db (guard_audit rt e a t ac p ten con)) = capabilities (db con)"
  by (simp_all add: guard_audit_def)

lemma update_quarantine_tables [simp]:
  "capguard_quarantine (db (update_quarantine qid f con)) = update_where (\<lambda>q. qt_id q = qid) f (capguard_quarantine (db con))"
  "capguard_attestations (db (update_quarantine qid f con)) = capguard_attestations (db con)"
  "capabilities (db (update_quarantine qid f con)) = capabilities (db con)"
  by (simp_all add: update_quarantine_def)

lemma set_capability_state_tables [simp]:
  "capguard_quarantine (db (set_capability_state ten row l a con)) = capguard_quarantine (db con)"
  "capguard_attestations (db (set_capability_state ten row l a con)) = capguard_attestations (db con)"
  by (simp_all add: set_capability_state_def)

text \<open>Attesting appends at most one row of attestations and nothing else.\<close>

lemma attest_tables [simp]:
  "capguard_quarantine (db (snd (attest rt env a b con))) = capguard_quarantine (db con)"
  "capabilities (db (snd (attest rt env a b con))) = capabilities (db con)"
  by (auto simp: attest_def store_attestation_def Let_def case_prod_unfold split: sum.splits option.splits)

lemma attestation_row_own:
  "attestation_row rt s a (attestation s k e) e i = Some \<lparr>ga_id = i, ga_tenant = at_tenant a,
     ga_quarantine = at_quarantine a, ga_type = at_type a, ga_subject_uri = at_uri a, ga_content_hash = at_hash a,
     ga_verdict = at_verdict a, ga_scanner_id = at_scanner_id a, ga_scanner_version = at_scanner_version a,
     ga_findings = JObj (at_findings a), ga_algorithm = ''Ed25519'', ga_key_id = key_id (ed_public s k),
     ga_public_key = b64encode (ed_public s k), ga_signature = b64encode (ed_sign s k (canonical_json e)), ga_envelope = e,
     ga_verifies = verify_attestation s (attestation s k e) None, ga_actor = at_actor a, ga_reason = at_reason a,
     ga_created_at = sql_now rt\<rparr>"
proof -
  have "text_field (attestation s k e) ''keyId'' = Some (key_id (ed_public s k))"
    "text_field (attestation s k e) ''publicKey'' = Some (b64encode (ed_public s k))"
    "text_field (attestation s k e) ''signature'' = Some (b64encode (ed_sign s k (canonical_json e)))"
    "text_field (attestation s k e) ''algorithm'' = Some ''Ed25519''" "map_of (attestation s k e) ''envelope'' = Some e"
    by (simp_all add: text_field_def attestation_def)
  then show ?thesis by (simp add: attestation_row_def)
qed

lemma verify_stored:
  assumes "attestation_row rt s a (attestation s k e) e i = Some row"
  shows "verify_attestation s (stored_attestation row) t = verify_attestation s (attestation s k e) t"
proof -
  have "stored_attestation row = [(''algorithm'', JStr ''Ed25519''), (''keyId'', JStr (key_id (ed_public s k))),
      (''publicKey'', JStr (b64encode (ed_public s k))), (''signature'', JStr (b64encode (ed_sign s k (canonical_json e)))),
      (''envelope'', e)]" (is "_ = ?p")
    using assms unfolding attestation_row_own by (auto simp: stored_attestation_def)
  then have "map_of (stored_attestation row) = map_of (attestation s k e)"
    by (auto simp: attestation_def fun_eq_iff)
  then show ?thesis unfolding verify_attestation_def text_field_def pget_def by (simp only:)
qed

lemma attest_Inr:
  assumes "signer_ok (key_signer env)" "attest rt env a b con = (Inr row, con')"
  shows "\<exists>k. load_or_create_signing_key rt (key_dir env) (key_signer env) = Inr k
    \<and> capguard_attestations (db con') = capguard_attestations (db con) @ [row]
    \<and> ga_id row = ''att_'' @ uuid4_hex rt (drawn con) \<and> ga_tenant row = at_tenant a \<and> ga_quarantine row = at_quarantine a
    \<and> ga_type row = at_type a \<and> ga_content_hash row = at_hash a \<and> ga_verdict row = at_verdict a
    \<and> (\<forall>trust. verify_attestation (key_signer env) (stored_attestation row) trust
         \<longleftrightarrow> trust = None \<or> trust = Some (key_id (ed_public (key_signer env) k)))"
proof -
  let ?s = "key_signer env" and ?e = "build_envelope rt a" and ?i = "''att_'' @ uuid4_hex rt (drawn con)"
  obtain att where att: "sign_attestation rt (key_dir env) ?s ?e = Inr att"
    and store: "store_attestation rt ?s a att ?e b con = (Inr row, con')"
    using assms(2) by (auto simp: attest_def Let_def split: sum.splits)
  from att obtain k where k: "load_or_create_signing_key rt (key_dir env) ?s = Inr k" "att = attestation ?s k ?e"
    by (auto simp: sign_attestation_def Let_def split: sum.splits if_splits)
  from store have row: "attestation_row rt ?s a (attestation ?s k ?e) ?e ?i = Some row"
    and att': "capguard_attestations (db con') = capguard_attestations (db con) @ [row]"
    unfolding k(2) by (auto simp: store_attestation_def new_id_def split: option.splits)
  have fields: "ga_id row = ?i" "ga_tenant row = at_tenant a" "ga_quarantine row = at_quarantine a" "ga_type row = at_type a"
    "ga_content_hash row = at_hash a" "ga_verdict row = at_verdict a"
    using row unfolding attestation_row_own by auto
  show ?thesis
    by (intro exI [of _ k] conjI allI k(1) att' fields)
      (simp only: verify_stored [OF row] verify_own_attestation [OF assms(1)])
qed


section \<open>The evidence\<close>

text \<open>What the store calls valid: a scan of this item over its content, with a signature under the anchor.\<close>

definition valid_scan :: "'k signer \<Rightarrow> database \<Rightarrow> quarantine_row \<Rightarrow> string \<Rightarrow> string option \<Rightarrow> guard_attestation_row \<Rightarrow> bool" where
  "valid_scan s d q tenant trust r \<longleftrightarrow> ga_tenant r = tenant \<and> ga_quarantine r = qt_id q \<and> ga_type r = ''scan''
     \<and> ga_content_hash r = qt_content_hash q
     \<and> (case find (\<lambda>x. ga_id x = ga_id r) (capguard_attestations d) of None \<Rightarrow> False
        | Some x \<Rightarrow> verify_attestation s (stored_attestation x) trust)"

text \<open>A clean scan that no later valid scan supersedes.\<close>

definition standing_clean :: "'k signer \<Rightarrow> database \<Rightarrow> quarantine_row \<Rightarrow> string \<Rightarrow> string option \<Rightarrow> guard_attestation_row \<Rightarrow> bool" where
  "standing_clean s d q tenant trust r \<longleftrightarrow> (\<exists>before after. capguard_attestations d = before @ r # after
     \<and> valid_scan s d q tenant trust r \<and> ga_verdict r = Some ''clean'' \<and> (\<forall>x \<in> set after. \<not> valid_scan s d q tenant trust x))"

lemma find_filter: "find p (filter q xs) = find (\<lambda>x. q x \<and> p x) xs"
  by (induction xs) auto

lemma find_rev_Some:
  "find p (rev xs) = Some x \<longleftrightarrow> (\<exists>before after. xs = before @ x # after \<and> p x \<and> (\<forall>y \<in> set after. \<not> p y))"
proof (induction xs rule: rev_induct)
  case (snoc y ys)
  show ?case
  proof (cases "p y")
    case True
    have "(\<exists>b a. ys @ [y] = b @ x # a \<and> p x \<and> (\<forall>z \<in> set a. \<not> p z)) \<longleftrightarrow> x = y"
    proof
      assume "\<exists>b a. ys @ [y] = b @ x # a \<and> p x \<and> (\<forall>z \<in> set a. \<not> p z)"
      then obtain b a where a: "ys @ [y] = b @ x # a" "\<forall>z \<in> set a. \<not> p z" by blast
      with True show "x = y" by (cases a rule: rev_cases) auto
    next
      assume "x = y"
      with True have "ys @ [y] = ys @ x # [] \<and> p x \<and> (\<forall>z \<in> set []. \<not> p z)" by simp
      then show "\<exists>b a. ys @ [y] = b @ x # a \<and> p x \<and> (\<forall>z \<in> set a. \<not> p z)" by blast
    qed
    with True show ?thesis by auto
  next
    case False
    have "(\<exists>b a. ys @ [y] = b @ x # a \<and> p x \<and> (\<forall>z \<in> set a. \<not> p z)) \<longleftrightarrow>
      (\<exists>b a. ys = b @ x # a \<and> p x \<and> (\<forall>z \<in> set a. \<not> p z))" (is "?l \<longleftrightarrow> ?r")
    proof
      assume ?l
      then obtain b a where a: "ys @ [y] = b @ x # a" "p x" "\<forall>z \<in> set a. \<not> p z" by blast
      then obtain a' where "a = a' @ [y]" using False by (cases a rule: rev_cases) auto
      with a show ?r by auto
    next
      assume ?r
      then obtain b a where "ys = b @ x # a" "p x" "\<forall>z \<in> set a. \<not> p z" by blast
      with False have "ys @ [y] = b @ x # (a @ [y])" "p x" "\<forall>z \<in> set (a @ [y]). \<not> p z" by auto
      then show ?l by blast
    qed
    with snoc False show ?thesis by simp
  qed
qed simp

lemma scan_clean_iff:
  assumes "item qid (guard_tenant rt tenant) (db con) = Some q"
  shows "scan_clean_attestation rt s qid tenant trust con = (Some r, con') \<longleftrightarrow>
     con' = ensure_table con \<and> standing_clean s (db con) q (guard_tenant rt tenant) trust r"
proof -
  have qid: "qt_id q = qid" using find_SomeD [OF assms] by simp
  let ?valid = "\<lambda>x. ga_content_hash x = qt_content_hash q \<and> fst (verify_attestation_record s (ga_id x) trust (ensure_table con))"
  have v: "(\<lambda>x. (ga_tenant x = guard_tenant rt tenant \<and> ga_quarantine x = qid \<and> ga_type x = ''scan'') \<and> ?valid x)
      = valid_scan s (db con) q (guard_tenant rt tenant) trust"
    unfolding valid_scan_def qid verify_attestation_record_def Let_def fst_conv ensure_table_simps by (intro ext) blast
  have run: "scan_clean_attestation rt s qid tenant trust con =
      (case find (valid_scan s (db con) q (guard_tenant rt tenant) trust) (rev (capguard_attestations (db con))) of
         None \<Rightarrow> None | Some r \<Rightarrow> if ga_verdict r = Some ''clean'' then Some r else None, ensure_table con)"
    unfolding scan_clean_attestation_def get_quarantine_def Let_def prod.case ensure_table_simps ensure_table_idem
      guard_tenant_twice assms option.case rev_filter find_filter v ..
  have "scan_clean_attestation rt s qid tenant trust con = (Some r, con') \<longleftrightarrow> con' = ensure_table con \<and> ga_verdict r = Some ''clean''
      \<and> find (valid_scan s (db con) q (guard_tenant rt tenant) trust) (rev (capguard_attestations (db con))) = Some r"
    unfolding run by (auto split: option.splits if_splits)
  then show ?thesis unfolding find_rev_Some standing_clean_def by blast
qed

lemma policy_gate_Inr:
  assumes "policy_gate cap scan injected pol = Inr v" "cap = Some c"
  shows "\<exists>x. evaluate_release_policy c scan injected pol = Inr x \<and> vd_action x = ''allow''"
  using assms by (auto simp: policy_gate_def bind_sum_def split: sum.splits if_splits)

definition released :: "runtime \<Rightarrow> quarantine_row \<Rightarrow> quarantine_row" where
  "released rt q = q\<lparr>qt_status := ''released'', qt_released_at := Some (sql_now rt), qt_updated_at := sql_now rt\<rparr>"

definition rejected :: "runtime \<Rightarrow> quarantine_row \<Rightarrow> quarantine_row" where
  "rejected rt q = q\<lparr>qt_status := ''rejected'', qt_rejected_at := Some (sql_now rt), qt_updated_at := sql_now rt\<rparr>"

definition published_content :: "string \<Rightarrow> quarantine_row \<Rightarrow> capability list \<Rightarrow> capability list" where
  "published_content tenant row caps = update_where (\<lambda>c. c_tenant_id c = tenant \<and> c_uri c = qt_capability_uri row
     \<and> c_content_hash c = qt_content_hash row) (\<lambda>c. c\<lparr>c_lifecycle := ''active'', c_approval_state := ''published''\<rparr>) caps"

lemma conclude_release_effect:
  assumes "conclude_release rt env tenant req row i v b con = (res, con')"
  shows "case res of
      Inl _ \<Rightarrow> capguard_quarantine (db con') = capguard_quarantine (db con) \<and> capabilities (db con') = capabilities (db con)
    | Inr _ \<Rightarrow> capguard_quarantine (db con') = update_where (\<lambda>q. qt_id q = qt_id row) (released rt) (capguard_quarantine (db con))
        \<and> capabilities (db con') = published_content tenant row (capabilities (db con))"
proof -
  let ?a = "(attestation_of ''release'' tenant row)\<lparr>at_actor := Some (rq_actor req), at_reason := Some (rq_reason req)\<rparr>"
  obtain at con1 where at: "attest rt env ?a False con = (at, con1)" by (cases "attest rt env ?a False con")
  have t: "capguard_quarantine (db con1) = capguard_quarantine (db con)" "capabilities (db con1) = capabilities (db con)"
    using attest_tables [of rt env ?a False con] by (simp_all add: at)
  show ?thesis
  proof (cases at)
    case (Inl e)
    with assms t show ?thesis by (auto simp: conclude_release_def at and_then_def)
  next
    case (Inr x)
    with assms t show ?thesis
      by (auto simp: conclude_release_def at and_then_def Let_def set_capability_state_def published_content_def released_def [abs_def])
  qed
qed

lemma release_cases:
  assumes "release_from_quarantine rt env qid req b con = (res, con')"
  defines "tenant \<equiv> guard_tenant rt (rq_tenant_id req)" and "trust \<equiv> resolved_trust rt env (rq_trusted_key_id req)"
  obtains (refused) e where "res = Inl e" "capguard_quarantine (db con') = capguard_quarantine (db con)"
      "capabilities (db con') = capabilities (db con)"
  | (granted) r row scan v where "res = Inr r" "item qid tenant (db con) = Some row" "qt_status row = ''quarantined''"
      "standing_clean (key_signer env) (db con) row tenant trust scan"
      "policy_gate (rq_capability req) (rq_scan_result req) (rq_injection_result req) (rq_policy req) = Inr v"
      "capguard_quarantine (db con') = update_where (\<lambda>q. qt_id q = qid) (released rt) (capguard_quarantine (db con))"
      "capabilities (db con') = published_content tenant row (capabilities (db con))"
proof -
  let ?gate = "policy_gate (rq_capability req) (rq_scan_result req) (rq_injection_result req) (rq_policy req)"
  obtain h con1 where h: "held_item rt ''release'' qid tenant con = (h, con1)" by (cases "held_item rt ''release'' qid tenant con")
  have con1: "con1 = ensure_table con" using held_item_state [of rt "''release''" qid tenant con] by (simp add: h)
  show thesis
  proof (cases h)
    case (Inl e)
    with assms(1) have "res = Inl e" "con' = con1"
      unfolding release_from_quarantine_def Let_def tenant_def [symmetric] h by (simp_all add: and_then_def)
    then show thesis by (intro refused) (simp_all add: con1)
  next
    case (Inr row)
    have it: "item qid tenant (db con) = Some row" "qt_status row = ''quarantined''"
      using h [unfolded Inr held_item_Inr] by (simp_all add: tenant_def)
    have "qt_id row = qid" using find_SomeD [OF it(1)] by simp
    obtain c con2 where c: "scan_clean_attestation rt (key_signer env) qid tenant trust con1 = (c, con2)"
      by (cases "scan_clean_attestation rt (key_signer env) qid tenant trust con1")
    have con2: "con2 = ensure_table con" using c it(1)
      by (simp add: scan_clean_attestation_def get_quarantine_def Let_def con1 tenant_def)
    have run: "(case (c, con2) of (None, con) \<Rightarrow> (Inl (QuarantineReleaseBlocked (''Release refused: no valid clean scan attestation for the current ''
            @ ''content_hash (quarantine='' @ qid @ '', tenant='' @ tenant @ '').'')), con)
        | (Some scan, con) \<Rightarrow> and_then (lift_result ?gate con)
            (\<lambda>pv con. conclude_release rt env tenant req row (ga_id scan) pv b con)) = (res, con')"
      using assms(1) unfolding release_from_quarantine_def Let_def tenant_def [symmetric] trust_def [symmetric] h Inr and_then_def
        prod.case sum.case c .
    show thesis
    proof (cases c)
      case None
      with run show thesis by (intro refused) (auto simp: con2)
    next
      case (Some scan)
      have st: "standing_clean (key_signer env) (db con) row tenant trust scan"
        using c scan_clean_iff [of qid rt tenant con1 row "key_signer env" trust scan con2] it(1)
        by (simp add: Some con1 tenant_def)
      show thesis
      proof (cases ?gate)
        case (Inl e)
        with run Some show thesis by (intro refused) (auto simp: con2 and_then_def lift_result_def)
      next
        case (Inr v)
        then have "conclude_release rt env tenant req row (ga_id scan) v b con2 = (res, con')"
          using run by (simp add: Some and_then_def lift_result_def)
        from conclude_release_effect [OF this] it st Inr show thesis
          by (cases res) (auto simp: con2 \<open>qt_id row = qid\<close> intro: refused granted)
      qed
    qed
  qed
qed

text \<open>C24. A release needs standing evidence: release_from_quarantine succeeds only on an item of the tenant
  that is still held, with a clean scan attestation of its content that verifies under the anchor and
  that no later valid scan supersedes, and with the verdict allow of the runtime policy when the caller
  hands over a capability; then the item is released and the catalog rows of that content are
  published. A refused release leaves every item and every capability as it was.\<close>

theorem release_needs_standing_evidence:
  "case release_from_quarantine rt env qid req b con of
     (Inl _, con') \<Rightarrow> capguard_quarantine (db con') = capguard_quarantine (db con) \<and> capabilities (db con') = capabilities (db con)
   | (Inr _, con') \<Rightarrow>
       let tenant = guard_tenant rt (rq_tenant_id req) in
       \<exists>row scan. item qid tenant (db con) = Some row \<and> qt_status row = ''quarantined''
         \<and> standing_clean (key_signer env) (db con) row tenant (resolved_trust rt env (rq_trusted_key_id req)) scan
         \<and> (case rq_capability req of None \<Rightarrow> True
            | Some c \<Rightarrow> \<exists>v. evaluate_release_policy c (rq_scan_result req) (rq_injection_result req) (rq_policy req) = Inr v
                \<and> vd_action v = ''allow'')
         \<and> capguard_quarantine (db con') = update_where (\<lambda>q. qt_id q = qid) (released rt) (capguard_quarantine (db con))
         \<and> capabilities (db con') = published_content tenant row (capabilities (db con))"
proof -
  obtain res con' where run: "release_from_quarantine rt env qid req b con = (res, con')"
    by (cases "release_from_quarantine rt env qid req b con")
  from run show ?thesis
  proof (cases rule: release_cases)
    case (refused e)
    then show ?thesis by (simp add: run)
  next
    case (granted r row scan v)
    then show ?thesis unfolding run Let_def granted(1) prod.case sum.case
      by (intro exI [of _ row] exI [of _ scan]) (auto split: option.split dest: policy_gate_Inr)
  qed
qed

section \<open>The fresh scan of the server\<close>

lemma issue_scan_Inr:
  assumes "issue_scan_attestation rt env qid tenant_id scan sid ver b con = (Inr stored, con')"
  defines "tenant \<equiv> guard_tenant rt tenant_id"
  shows "\<exists>row verd summary con1. item qid tenant (db con) = Some row \<and> qt_status row = ''quarantined''
    \<and> verdict_for_scan scan = Inr verd
    \<and> attest rt env (scan_attestation_of tenant row verd summary sid ver) b (ensure_table con) = (Inr stored, con1)
    \<and> capguard_attestations (db con') = capguard_attestations (db con1) \<and> capabilities (db con') = capabilities (db con)
    \<and> capguard_quarantine (db con') = (if verd = ''blocked'' then update_where (\<lambda>q. qt_id q = qid)
        (\<lambda>q. q\<lparr>qt_reason := ''scan_failed'', qt_updated_at := sql_now rt\<rparr>) (capguard_quarantine (db con))
      else capguard_quarantine (db con))"
proof -
  from assms(1) obtain row verd summary con1 where *: "item qid tenant (db con) = Some row" "qt_status row = ''quarantined''"
    "verdict_for_scan scan = Inr verd"
    and at: "attest rt env (scan_attestation_of tenant row verd summary sid ver) b (ensure_table con) = (Inr stored, con1)"
    and con': "con' = guard_audit rt ''capguard.scan.attested'' sid qid ''scan'' [(''verdict'', JStr verd), (''scannerVersion'', json_opt ver)]
      tenant (if verd = ''blocked'' then commit_if b (update_quarantine qid
        (\<lambda>q. q\<lparr>qt_reason := ''scan_failed'', qt_updated_at := sql_now rt\<rparr>) con1) else con1)"
    unfolding issue_scan_attestation_def Let_def tenant_def [symmetric] and_then_eq_Inr lift_result_eq_Inr held_item_Inr
    by (auto simp: tenant_def)
  moreover have "capguard_quarantine (db con1) = capguard_quarantine (db con)" "capabilities (db con1) = capabilities (db con)"
    using attest_tables [of rt env "scan_attestation_of tenant row verd summary sid ver" b "ensure_table con"] by (simp_all add: at)
  ultimately show ?thesis by (auto simp: con')
qed

lemma trust_of_kept_key:
  assumes "load_or_create_signing_key rt (key_dir env) (key_signer env) = Inr k"
  shows "resolved_trust rt (key_kept env) None = Some (key_id (ed_public (key_signer env) k))"
  using assms by (auto simp: resolved_trust_def key_kept_def trusted_signing_key_id_def load_or_create_signing_key_def
      split: sum.splits option.splits if_splits)

lemma key_kept_verifies [simp]:
  "verify_attestation (key_signer (key_kept env)) a t = verify_attestation (key_signer env) a t"
  by (simp add: key_kept_def verify_attestation_def split: sum.split option.split)

text \<open>Right after a scan attestation with a fresh identifier, it alone decides: the release finds evidence only
  when the new verdict is clean.\<close>

lemma fresh_scan_valid:
  assumes "signer_ok (key_signer env)" and fresh: "\<forall>r \<in> set (capguard_attestations (db con)). ga_id r \<noteq> ''att_'' @ uuid4_hex rt (drawn con)"
    and at: "attest rt env (scan_attestation_of tenant row verd summary sid ver) b con = (Inr stored, con1)"
    and d: "capguard_attestations d = capguard_attestations (db con1)"
    and q: "qt_id q = qt_id row" "qt_content_hash q = qt_content_hash row"
  shows "valid_scan (key_signer (key_kept env)) d q tenant (resolved_trust rt (key_kept env) None) stored"
    and "capguard_attestations d = capguard_attestations (db con) @ [stored]" and "ga_verdict stored = Some verd"
proof -
  from attest_Inr [OF assms(1) at] obtain k where k: "load_or_create_signing_key rt (key_dir env) (key_signer env) = Inr k"
    and t: "capguard_attestations d = capguard_attestations (db con) @ [stored]"
    and i: "ga_id stored = ''att_'' @ uuid4_hex rt (drawn con)"
    and f: "ga_tenant stored = tenant" "ga_quarantine stored = qt_id row" "ga_type stored = ''scan''"
      "ga_content_hash stored = qt_content_hash row" "ga_verdict stored = Some verd"
    and v: "\<forall>trust. verify_attestation (key_signer env) (stored_attestation stored) trust
         \<longleftrightarrow> trust = None \<or> trust = Some (key_id (ed_public (key_signer env) k))"
    unfolding d scan_attestation_of_def attestation_of_def by auto
  have "find (\<lambda>x. ga_id x = ga_id stored) (capguard_attestations d) = Some stored"
    using fresh i by (auto simp: t find_append find_None_iff split: option.splits dest!: find_SomeD)
  then show "valid_scan (key_signer (key_kept env)) d q tenant (resolved_trust rt (key_kept env) None) stored"
    using v by (simp add: valid_scan_def f q trust_of_kept_key [OF k])
  show "capguard_attestations d = capguard_attestations (db con) @ [stored]" "ga_verdict stored = Some verd" by (fact t, fact f(5))
qed

lemma fresh_scan_decides:
  assumes "valid_scan s d q tenant trust stored" "capguard_attestations d = t @ [stored]" "ga_verdict stored = Some verd"
    and "standing_clean s d q tenant trust scan"
  shows "verd = ''clean''"
proof -
  from assms(4) obtain before after where "capguard_attestations d = before @ scan # after" "ga_verdict scan = Some ''clean''"
    "\<forall>x \<in> set after. \<not> valid_scan s d q tenant trust x"
    unfolding standing_clean_def by blast
  with assms(1,2) have "scan = stored" by (cases after rule: rev_cases) auto
  with \<open>ga_verdict scan = _\<close> assms(3) show ?thesis by simp
qed

lemma fresh_clean_stands:
  "valid_scan s d q tenant trust stored \<Longrightarrow> capguard_attestations d = t @ [stored] \<Longrightarrow> ga_verdict stored = Some ''clean''
     \<Longrightarrow> standing_clean s d q tenant trust stored"
  unfolding standing_clean_def by (intro exI [of _ t] exI [of _ "[]"]) simp

text \<open>A clean verdict on the composed result means that the file passed and that no injection was blocked.\<close>

lemma clean_verdict:
  assumes "composed_scan scanned injection = Inr scan" "verdict_for_scan scan = Inr ''clean''"
  shows "fst injection \<noteq> Some False \<and> scan = scanned \<and> pget scanned ''passed'' \<noteq> JBool False"
proof (cases "fst injection = Some False")
  case True
  then have "pget scan ''passed'' = JBool False"
    using assms(1) by (auto simp: composed_scan_def bind_sum_def pget_def map_of_dict_set split: sum.splits)
  with assms(2) show ?thesis by (auto simp: verdict_for_scan_def bind_sum_def split: sum.splits if_splits)
next
  case False
  with assms show ?thesis by (auto simp: composed_scan_def verdict_for_scan_def bind_sum_def split: sum.splits if_splits)
qed

lemma scan_passed_flag: "scan_file cls src = Inr res \<Longrightarrow> pget res ''passed'' \<noteq> JBool False \<Longrightarrow> json_truthy (pget res ''passed'')"
  by (auto simp: scan_file_def Let_def scan_refused_def pget_def json_truthy_def split: source_file.splits if_splits)

lemma server_release_Inr:
  assumes "release_capability_from_quarantine rt env cls qid req b con = (Inr r, con')"
  defines "tenant \<equiv> guard_tenant rt (rq_tenant_id req)"
  obtains row scanned injection scan stored con1 cap where
    "item qid tenant (db con) = Some row" "qt_status row = ''quarantined''"
    "cap = (case rq_capability req of None \<Rightarrow> get_capability (db con) (qt_capability_uri row) | Some c \<Rightarrow> Some c)"
    "injection = injection_verdict (unicode_tables env) row cap"
    "scan_quarantined_content cls (file_at env) row = Inr scanned" "composed_scan scanned injection = Inr scan"
    "issue_scan_attestation rt env qid tenant scan ''capmesh-capguard-release'' (Some ''1'') False (ensure_table con) = (Inr stored, con1)"
    "release_from_quarantine rt (key_kept env) qid (req\<lparr>rq_tenant_id := tenant, rq_trusted_key_id := None, rq_capability := cap,
       rq_scan_result := Some scan, rq_injection_result := fst injection\<rparr>) b con1 = (Inr r, con')"
proof -
  have ten: "guard_tenant rt tenant = tenant" by (simp add: tenant_def)
  show thesis
    using assms(1) unfolding release_capability_from_quarantine_def Let_def tenant_def [symmetric] and_then_eq_Inr lift_result_eq_Inr
      held_item_Inr ten
    by (elim exE conjE, simp only: ensure_table_simps) (rule that [OF _ _ refl refl])
qed

text \<open>With a usable key every attestation is stored.\<close>

lemma attest_ok:
  assumes "signer_ok (key_signer env)" "load_or_create_signing_key rt (key_dir env) (key_signer env) = Inr k"
  shows "\<exists>row con'. attest rt env a b con = (Inr row, con')"
proof -
  have "sign_attestation rt (key_dir env) (key_signer env) (build_envelope rt a) = Inr (attestation (key_signer env) k (build_envelope rt a))"
    using assms by (simp add: sign_attestation_def verify_own_attestation Let_def)
  then show ?thesis by (simp add: attest_def Let_def store_attestation_def attestation_row_own case_prod_unfold)
qed

lemma key_kept_lawful:
  assumes "signer_ok (key_signer env)" "load_or_create_signing_key rt (key_dir env) (key_signer env) = Inr k"
  shows "signer_ok (key_signer (key_kept env))"
    "load_or_create_signing_key rt (key_dir (key_kept env)) (key_signer (key_kept env)) = Inr k"
  using assms by (auto simp: key_kept_def signer_ok_def load_or_create_signing_key_def split: sum.splits option.splits if_splits)

lemma issue_scan_ok:
  assumes "signer_ok (key_signer env)" "load_or_create_signing_key rt (key_dir env) (key_signer env) = Inr k"
    and "item qid (guard_tenant rt tenant) (db con) = Some row" "qt_status row = ''quarantined''"
    and "verdict_for_scan scan = Inr verd" "findings_summary scan = Inr summary"
  shows "\<exists>stored con'. issue_scan_attestation rt env qid tenant scan sid ver b con = (Inr stored, con')"
proof -
  have h: "held_item rt ''scan'' qid (guard_tenant rt tenant) con = (Inr row, ensure_table con)"
    using assms(3,4) by (simp add: held_item_Inr)
  obtain stored con1 where "attest rt env (scan_attestation_of (guard_tenant rt tenant) row verd summary sid ver) b (ensure_table con)
      = (Inr stored, con1)"
    using attest_ok [OF assms(1,2)] by blast
  then show ?thesis by (simp add: issue_scan_attestation_def h and_then_def lift_result_def assms(5,6) Let_def)
qed

lemma release_ok:
  assumes "signer_ok (key_signer env)" "load_or_create_signing_key rt (key_dir env) (key_signer env) = Inr k"
    and it: "item qid (guard_tenant rt (rq_tenant_id req)) (db con) = Some row" "qt_status row = ''quarantined''"
    and st: "standing_clean (key_signer env) (db con) row (guard_tenant rt (rq_tenant_id req))
      (resolved_trust rt env (rq_trusted_key_id req)) scan"
    and gate: "policy_gate (rq_capability req) (rq_scan_result req) (rq_injection_result req) (rq_policy req) = Inr v"
  shows "\<exists>r con'. release_from_quarantine rt env qid req b con = (Inr r, con')"
proof -
  have h: "held_item rt ''release'' qid (guard_tenant rt (rq_tenant_id req)) con = (Inr row, ensure_table con)"
    using it by (simp add: held_item_Inr)
  have "scan_clean_attestation rt (key_signer env) qid (guard_tenant rt (rq_tenant_id req)) (resolved_trust rt env (rq_trusted_key_id req))
      (ensure_table con) = (Some scan, ensure_table con)"
    using scan_clean_iff [of qid rt "guard_tenant rt (rq_tenant_id req)" "ensure_table con" row "key_signer env"
      "resolved_trust rt env (rq_trusted_key_id req)" scan "ensure_table con"] it st by simp
  moreover obtain x con1 where "attest rt env ((attestation_of ''release'' (guard_tenant rt (rq_tenant_id req)) row)
      \<lparr>at_actor := Some (rq_actor req), at_reason := Some (rq_reason req)\<rparr>) False (ensure_table con) = (Inr x, con1)"
    using attest_ok [OF assms(1,2)] by blast
  ultimately show ?thesis
    by (simp add: release_from_quarantine_def Let_def h and_then_def lift_result_def gate conclude_release_def)
qed

text \<open>A file that passes is a clean scan, and the release goes through.\<close>

lemma passed_scan_is_clean:
  assumes "scan_file cls src = Inr scanned" "json_truthy (pget scanned ''passed'')"
  shows "verdict_for_scan scanned = Inr ''clean'' \<and> (\<exists>summary. findings_summary scanned = Inr summary)"
proof -
  from assms obtain content where c: "src = Contents content" "\<not> MAX_SCAN_SIZE_BYTES < length content"
    by (auto simp: scan_file_def scan_refused_def pget_def json_truthy_def split: source_file.splits if_splits)
  with assms have none: "scan_findings cls (utf8_decode content) = []"
    by (auto simp: scan_file_def Let_def pget_def json_truthy_def findings_all_block)
  with assms(1) c have "scanned = [(''passed'', JBool True), (''fileHash'', JStr (''sha256:'' @ hexdigest_bytes content)),
      (''fileSize'', JInt (int (length content))), (''findings'', JList []), (''criticalCount'', JInt 0), (''highCount'', JInt 0)]"
    by (simp add: scan_file_def Let_def of_severity_def)
  then show ?thesis
    by (simp add: verdict_for_scan_def findings_summary_def int_field_def pget_def json_truthy_def json_or_def iterate_def
        bind_sum_def to_int_def py_int_def)
qed

lemma server_release_succeeds:
  assumes ok: "signer_ok (key_signer env)" "load_or_create_signing_key rt (key_dir env) (key_signer env) = Inr k"
    and fresh: "\<forall>r \<in> set (capguard_attestations (db con)). ga_id r \<noteq> ''att_'' @ uuid4_hex rt (drawn con)"
    and it: "item qid (guard_tenant rt (rq_tenant_id req)) (db con) = Some row" "qt_status row = ''quarantined''"
    and cap: "rq_capability req = None" "get_capability (db con) (qt_capability_uri row) = None"
    and scan: "qt_source_path row \<noteq> []" "scan_file cls (file_at env (qt_source_path row)) = Inr scanned"
      "json_truthy (pget scanned ''passed'')"
    and inj: "fst (injection_verdict (unicode_tables env) row None) \<noteq> Some False"
  shows "\<exists>r con'. release_capability_from_quarantine rt env cls qid req b con = (Inr r, con')"
proof -
  let ?ten = "guard_tenant rt (rq_tenant_id req)"
  from passed_scan_is_clean [OF scan(2,3)] obtain summary where clean: "verdict_for_scan scanned = Inr ''clean''"
    "findings_summary scanned = Inr summary" by blast
  obtain stored con1 where issue: "issue_scan_attestation rt env qid ?ten scanned ''capmesh-capguard-release'' (Some ''1'') False
      (ensure_table con) = (Inr stored, con1)"
    using issue_scan_ok [OF ok _ it(2) clean, of qid ?ten "ensure_table con" "''capmesh-capguard-release''" "Some ''1''" False] it(1)
    by auto
  from issue_scan_Inr [OF issue] obtain row1 verd s con2 where i: "row1 = row" "verd = ''clean''"
    "attest rt env (scan_attestation_of ?ten row1 verd s ''capmesh-capguard-release'' (Some ''1'')) False (ensure_table con) = (Inr stored, con2)"
    "capguard_attestations (db con1) = capguard_attestations (db con2)"
    "capguard_quarantine (db con1) = capguard_quarantine (db con)"
    using it clean by (auto split: if_splits)
  have st: "standing_clean (key_signer (key_kept env)) (db con1) row ?ten (resolved_trust rt (key_kept env) None) stored"
    using fresh_clean_stands [OF fresh_scan_valid [OF ok(1) _ i(3) [unfolded i(1,2)] i(4)]] fresh by simp
  let ?req = "req\<lparr>rq_tenant_id := ?ten, rq_trusted_key_id := None, rq_capability := None, rq_scan_result := Some scanned,
    rq_injection_result := fst (injection_verdict (unicode_tables env) row None)\<rparr>"
  obtain r con' where "release_from_quarantine rt (key_kept env) qid ?req b con1 = (Inr r, con')"
    using release_ok [OF key_kept_lawful [OF ok], of qid ?req con1 row stored "[]" b] it st i(5)
    by (auto simp: policy_gate_def)
  moreover have "held_item rt ''release'' qid ?ten con = (Inr row, ensure_table con)" using it by (simp add: held_item_Inr)
  moreover have "scan_quarantined_content cls (file_at env) row = Inr scanned" using scan by (simp add: scan_quarantined_content_def)
  moreover have "composed_scan scanned (injection_verdict (unicode_tables env) row None) = Inr scanned"
    using inj by (simp add: composed_scan_def)
  ultimately show ?thesis
    using issue cap unfolding release_capability_from_quarantine_def
    by (simp add: Let_def and_then_def lift_result_def)
qed

lemma should_block_nil: "\<not> should_block [] name kind plugin surface"
  by (simp add: should_block_def)

text \<open>When no injection was blocked: the metadata is blank, or the indicators found in it are not ones
  that block. The metadata is the name, title and description of the capability, or the name of the item
  when there is no capability.\<close>

lemma injection_not_blocked:
  assumes "fst (injection_verdict u row cap) \<noteq> Some False"
  shows "case cap of
      None \<Rightarrow> py_strip (qt_name row) = []
        \<or> \<not> should_block (scan_prompt_injection u (codes (qt_name row))) (qt_name row) (Some (qt_capability_type row)) None SURFACE_METADATA
    | Some c \<Rightarrow> let surface = join_with [CHR 0x0A] (filter (\<lambda>p. p \<noteq> []) [c_name c, c_title c, c_description c]) in
        py_strip surface = []
        \<or> \<not> should_block (scan_prompt_injection u (codes surface)) (c_name c) (Some (c_type c)) (c_plugin c) SURFACE_METADATA"
proof (cases cap)
  case None
  show ?thesis
  proof (cases "qt_name row = []")
    case True
    then show ?thesis using None by (simp add: py_strip_def py_lstrip_def py_rstrip_def)
  next
    case False
    then show ?thesis using assms None
      by (auto simp: injection_verdict_def Let_def should_block_nil split: if_splits)
  qed
next
  case (Some c)
  let ?s = "join_with [CHR 0x0A] (filter (\<lambda>p. p \<noteq> []) [c_name c, c_title c, c_description c])"
  show ?thesis using assms should_block_nil
    unfolding injection_verdict_def Let_def Some option.case
    by (cases "py_strip ?s = []"; cases "scan_prompt_injection u (codes ?s) = []") (simp_all only: if_True if_False fst_conv option.inject simp_thms)
qed

text \<open>C9. The release of the server needs a clean file now: with a lawful signature scheme and a fresh
  identifier for the new attestation, release_capability_from_quarantine succeeds only when the file of
  the held item exists, has at most 4 MiB and matches none of the malware signatures at the moment of
  the release, and the injection scan blocks nothing in the metadata it reads: the name, title and
  description of the capability the caller hands over or that get_capability finds for the address of
  the item, else the name of the item alone (the case of held content, for which get_capability answers
  None). The item is then released.\<close>

theorem server_release_needs_clean_file:
  assumes ok: "signer_ok (key_signer env)"
    and fresh: "\<forall>r \<in> set (capguard_attestations (db con)). ga_id r \<noteq> ''att_'' @ uuid4_hex rt (drawn con)"
    and run: "release_capability_from_quarantine rt env cls qid req b con = (Inr r, con')"
  shows "\<exists>row content. item qid (guard_tenant rt (rq_tenant_id req)) (db con) = Some row \<and> qt_status row = ''quarantined''
    \<and> file_at env (qt_source_path row) = Contents content \<and> length content \<le> MAX_SCAN_SIZE_BYTES
    \<and> \<not> (\<exists>sg \<in> set (MALWARE_SIGNATURES cls). \<exists>p \<le> length (utf8_decode content). \<exists>e.
          matches cls (utf8_decode content) (sg_pattern sg) p e)
    \<and> (case (case rq_capability req of None \<Rightarrow> get_capability (db con) (qt_capability_uri row) | Some c \<Rightarrow> Some c) of
         None \<Rightarrow> py_strip (qt_name row) = []
           \<or> \<not> should_block (scan_prompt_injection (unicode_tables env) (codes (qt_name row)))
               (qt_name row) (Some (qt_capability_type row)) None SURFACE_METADATA
       | Some c \<Rightarrow> let surface = join_with [CHR 0x0A] (filter (\<lambda>p. p \<noteq> []) [c_name c, c_title c, c_description c]) in
           py_strip surface = []
           \<or> \<not> should_block (scan_prompt_injection (unicode_tables env) (codes surface))
               (c_name c) (Some (c_type c)) (c_plugin c) SURFACE_METADATA)
    \<and> capguard_quarantine (db con') = update_where (\<lambda>q. qt_id q = qid) (released rt) (capguard_quarantine (db con))"
  using run
proof (cases rule: server_release_Inr)
  case (1 row scanned injection scan stored con1 cap)
  let ?ten = "guard_tenant rt (rq_tenant_id req)"
  from issue_scan_Inr [OF 1(7)] obtain row1 verd summary con2 where i: "item qid ?ten (db con) = Some row1"
    "verdict_for_scan scan = Inr verd"
    "attest rt env (scan_attestation_of ?ten row1 verd summary ''capmesh-capguard-release'' (Some ''1'')) False (ensure_table con) = (Inr stored, con2)"
    "capguard_attestations (db con1) = capguard_attestations (db con2)"
    and q: "capguard_quarantine (db con1) = (if verd = ''blocked'' then update_where (\<lambda>q. qt_id q = qid)
        (\<lambda>q. q\<lparr>qt_reason := ''scan_failed'', qt_updated_at := sql_now rt\<rparr>) (capguard_quarantine (db con))
      else capguard_quarantine (db con))"
    by (auto simp: guard_tenant_twice)
  have "row1 = row" using i(1) 1(1) by simp
  from 1(8) obtain row2 sc where rel: "item qid ?ten (db con1) = Some row2"
    "standing_clean (key_signer (key_kept env)) (db con1) row2 ?ten (resolved_trust rt (key_kept env) None) sc"
    "capguard_quarantine (db con') = update_where (\<lambda>q. qt_id q = qid) (released rt) (capguard_quarantine (db con1))"
    by (cases rule: release_cases) auto
  have row2: "qt_id row2 = qt_id row" "qt_content_hash row2 = qt_content_hash row"
    using rel(1) find_update_where [of "\<lambda>q. qt_id q = qid \<and> qt_tenant q = ?ten"
      "\<lambda>q. q\<lparr>qt_reason := ''scan_failed'', qt_updated_at := sql_now rt\<rparr>" "\<lambda>q. qt_id q = qid" "capguard_quarantine (db con)"]
      1(1) unfolding q by (auto split: if_splits)
  have "verd = ''clean''"
    using fresh_scan_decides [OF fresh_scan_valid [OF ok _ i(3,4)] rel(2)] fresh row2 by (simp add: \<open>row1 = row\<close>)
  with 1(6) i(2) have c: "fst injection \<noteq> Some False" "pget scanned ''passed'' \<noteq> JBool False"
    using clean_verdict [of scanned injection scan] by auto
  with 1(5) have "scan_file cls (file_at env (qt_source_path row)) = Inr scanned"
    by (auto simp: scan_quarantined_content_def scan_refused_def pget_def split: if_splits)
  with scan_passed_flag c(2) have "\<exists>result. scan_file cls (file_at env (qt_source_path row)) = Inr result \<and> json_truthy (pget result ''passed'')"
    by blast
  then obtain content where "file_at env (qt_source_path row) = Contents content" "length content \<le> MAX_SCAN_SIZE_BYTES"
    "\<not> (\<exists>sg \<in> set (MALWARE_SIGNATURES cls). \<exists>p \<le> length (utf8_decode content). \<exists>e.
          matches cls (utf8_decode content) (sg_pattern sg) p e)"
    unfolding scan_passes_decided by blast
  moreover note injection_not_blocked [OF c(1) [unfolded 1(4)], unfolded 1(3)]
  moreover have "capguard_quarantine (db con') = update_where (\<lambda>q. qt_id q = qid) (released rt) (capguard_quarantine (db con))"
    using rel(3) q \<open>verd = ''clean''\<close> by simp
  ultimately show ?thesis using 1(1,2) by blast
qed

lemma policy_unused:
  assumes "rq_capability q = None"
  shows "release_from_quarantine rt env qid (q\<lparr>rq_policy := pol\<rparr>) b con = release_from_quarantine rt env qid q b con"
proof -
  have "conclude_release rt env t (q\<lparr>rq_policy := pol\<rparr>) = conclude_release rt env t q" for t
    by (intro ext) (simp add: conclude_release_def)
  moreover have "policy_gate None s i (rq_policy q) = policy_gate None s i pol" for s i by (simp add: policy_gate_def)
  ultimately show ?thesis using assms by (simp add: release_from_quarantine_def cong: option.case_cong)
qed

text \<open>The runtime policy is not consulted for held content: when the catalog has the content of the held
  item under its URI, get_capability answers None for it, so that a release without an explicit
  capability has the same outcome whatever the policy.\<close>

theorem release_of_held_content_skips_policy:
  assumes "item qid (guard_tenant rt (rq_tenant_id req)) (db con) = Some row" "rq_capability req = None"
    and "find (\<lambda>c. c_uri c = qt_capability_uri row) (capabilities (db con)) = Some c"
    and "c_tenant_id c = qt_tenant row" "c_content_hash c = qt_content_hash row" "c_tenant_id c \<noteq> []"
  shows "release_capability_from_quarantine rt env cls qid (req\<lparr>rq_policy := pol\<rparr>) b con
    = release_capability_from_quarantine rt env cls qid req b con"
proof (cases "qt_status row = ''quarantined''")
  case True
  have "row \<in> set (capguard_quarantine (db con))" using find_SomeD [OF assms(1)] by simp
  then have "capguard_is_held (db con) (capability_from_row c)"
    using True assms(3-6) find_SomeD [OF assms(3)] by (force simp: capguard_is_held_def list_ex_iff capability_from_row_def)
  then have none: "get_capability (db con) (qt_capability_uri row) = None"
    using assms(3) by (simp add: get_capability_def Let_def)
  have held: "held_item rt ''release'' qid (guard_tenant rt (rq_tenant_id req)) con = (Inr row, ensure_table con)"
    using True assms(1) by (simp add: held_item_Inr)
  have "req\<lparr>rq_policy := pol, rq_tenant_id := t, rq_trusted_key_id := None, rq_capability := None, rq_scan_result := s,
        rq_injection_result := i\<rparr> = (req\<lparr>rq_tenant_id := t, rq_trusted_key_id := None, rq_capability := None,
        rq_scan_result := s, rq_injection_result := i\<rparr>)\<lparr>rq_policy := pol\<rparr>" for t s i by (cases req) simp
  then have skip: "release_from_quarantine rt env' qid (req\<lparr>rq_policy := pol, rq_tenant_id := t, rq_trusted_key_id := None,
        rq_capability := None, rq_scan_result := s, rq_injection_result := i\<rparr>) b con1
      = release_from_quarantine rt env' qid (req\<lparr>rq_tenant_id := t, rq_trusted_key_id := None,
        rq_capability := None, rq_scan_result := s, rq_injection_result := i\<rparr>) b con1" for env' t s i con1
    by (simp only:) (rule policy_unused, simp)
  have r: "rq_tenant_id (req\<lparr>rq_policy := pol\<rparr>) = rq_tenant_id req" "rq_capability (req\<lparr>rq_policy := pol\<rparr>) = None"
    "rq_capability req = None" using assms(2) by simp_all
  show ?thesis
    unfolding release_capability_from_quarantine_def Let_def r held and_then_def prod.case sum.case ensure_table_simps
      option.case none skip ..
next
  case False
  then show ?thesis using assms(1)
    by (simp add: release_capability_from_quarantine_def Let_def held_item_def get_quarantine_def and_then_def)
qed

section \<open>The life of an item\<close>

text \<open>The abstract machine: an item is added as held when no item of the same content is held, and a held
  item changes its bookkeeping or goes to one of the two final statuses.\<close>

definition active_key :: "quarantine_row \<Rightarrow> string \<times> string \<times> string" where
  "active_key q = (qt_tenant q, qt_capability_uri q, qt_content_hash q)"

definition allowed_change :: "(quarantine_row \<Rightarrow> quarantine_row) \<Rightarrow> bool" where
  "allowed_change f \<longleftrightarrow> (\<forall>q. qt_id (f q) = qt_id q \<and> active_key (f q) = active_key q
     \<and> qt_status (f q) \<in> {qt_status q, ''released'', ''rejected''})"

inductive item_step :: "quarantine_row list \<Rightarrow> quarantine_row list \<Rightarrow> bool" where
  Hold: "qt_id q \<notin> qt_id ` set t \<Longrightarrow> qt_status q = ''quarantined'' \<Longrightarrow>
     \<forall>r \<in> set t. qt_status r = ''quarantined'' \<longrightarrow> active_key r \<noteq> active_key q \<Longrightarrow> item_step t (t @ [q])"
| Change: "q \<in> set t \<Longrightarrow> qt_status q = ''quarantined'' \<Longrightarrow> allowed_change f \<Longrightarrow>
     item_step t (update_where (\<lambda>r. qt_id r = qt_id q) f t)"

text \<open>The operations of the store; identifiers of new items are fresh.\<close>

inductive guard_step :: "'k review_env \<Rightarrow> conn \<Rightarrow> conn \<Rightarrow> bool" where
  Hold: "\<forall>q \<in> set (capguard_quarantine (db con)). qt_id q \<noteq> ''qtn_'' @ uuid4_hex rt (drawn con) \<Longrightarrow>
     guard_step env con (snd (quarantine_capability rt hold b con))"
| Scan: "guard_step env con (snd (issue_scan_attestation rt env qid tenant scan sid ver b con))"
| Release: "guard_step env con (snd (release_from_quarantine rt env qid req b con))"
| Reject: "guard_step env con (snd (reject_from_quarantine rt env qid tenant actor note b con))"
| Server: "guard_step env con (snd (release_capability_from_quarantine rt env cls qid req b con))"

abbreviation items :: "conn \<Rightarrow> quarantine_row list" where
  "items con \<equiv> capguard_quarantine (db con)"

lemma change_held:
  assumes "item qid ten (db con) = Some row" "qt_status row = ''quarantined''" "allowed_change f"
  shows "item_step (items con) (update_where (\<lambda>q. qt_id q = qid) f (items con))"
  using item_step.Change [of row "items con" f] find_SomeD [OF assms(1)] assms(2,3) by auto

lemma allowed_changes:
  "allowed_change (released rt)" "allowed_change (rejected rt)"
  "allowed_change (\<lambda>q. q\<lparr>qt_reason := r, qt_updated_at := u\<rparr>)"
  by (simp_all add: allowed_change_def released_def rejected_def active_key_def)

lemma hold_refines:
  assumes fresh: "\<forall>q \<in> set (items con). qt_id q \<noteq> ''qtn_'' @ uuid4_hex rt (drawn con)"
  shows "item_step\<^sup>*\<^sup>* (items con) (items (snd (quarantine_capability rt hold b con)))"
proof (cases "qq_capability_uri hold = [] \<or> qq_content_hash hold = [] \<or> qq_reason hold \<notin> set QUARANTINE_REASONS
    \<or> find (active_for (guard_tenant rt (qq_tenant_id hold)) (qq_capability_uri hold) (qq_content_hash hold)) (items con) \<noteq> None")
  case True
  then have "items (snd (quarantine_capability rt hold b con)) = items con"
    by (auto simp: quarantine_capability_def Let_def split: option.split)
  then show ?thesis by simp
next
  case False
  let ?row = "quarantine_row_of rt hold (''qtn_'' @ uuid4_hex rt (drawn con))"
  have "items (snd (quarantine_capability rt hold b con)) = items con @ [?row]"
    using False by (simp add: quarantine_capability_def Let_def new_id_def)
  moreover have "item_step (items con) (items con @ [?row])"
  proof (rule item_step.Hold)
    show "qt_id ?row \<notin> qt_id ` set (items con)" using fresh by (auto simp: quarantine_row_of_def)
    show "qt_status ?row = ''quarantined''" by (simp add: quarantine_row_of_def)
    show "\<forall>r \<in> set (items con). qt_status r = ''quarantined'' \<longrightarrow> active_key r \<noteq> active_key ?row"
      using False by (auto simp: find_None_iff active_for_def active_key_def quarantine_row_of_def)
  qed
  ultimately show ?thesis by simp
qed

lemma scan_refines: "item_step\<^sup>*\<^sup>* (items con) (items (snd (issue_scan_attestation rt env qid tenant scan sid ver b con)))"
proof (cases "issue_scan_attestation rt env qid tenant scan sid ver b con")
  case (Pair res con')
  show ?thesis
  proof (cases res)
    case (Inl e)
    have "items con' = items con"
      using Pair unfolding Inl issue_scan_attestation_def Let_def and_then_def lift_result_def
      by (auto split: sum.splits prod.splits)
        (metis attest_tables(1) ensure_table_simps(1) held_item_state snd_conv)+
    then show ?thesis by (simp add: Pair)
  next
    case (Inr stored)
    from issue_scan_Inr [OF Pair [unfolded Inr]] show ?thesis
      using change_held [OF _ _ allowed_changes(3)] by (fastforce simp: Pair)
  qed
qed

lemma release_refines: "item_step\<^sup>*\<^sup>* (items con) (items (snd (release_from_quarantine rt env qid req b con)))"
proof (cases "release_from_quarantine rt env qid req b con")
  case (Pair res con')
  from Pair show ?thesis
  proof (cases rule: release_cases)
    case (granted r row scan v)
    then show ?thesis using change_held [OF granted(2,3) allowed_changes(1)] by (simp add: Pair r_into_rtranclp)
  qed (simp add: Pair)
qed

lemma reject_effect:
  assumes "reject_from_quarantine rt env qid tenant_id actor note b con = (res, con')"
  shows "items con' = items con \<or> (\<exists>row. item qid (guard_tenant rt tenant_id) (db con) = Some row
    \<and> qt_status row = ''quarantined'' \<and> items con' = update_where (\<lambda>q. qt_id q = qid) (rejected rt) (items con))"
proof -
  let ?ten = "guard_tenant rt tenant_id"
  obtain h con1 where h: "held_item rt ''reject'' qid ?ten con = (h, con1)" by (cases "held_item rt ''reject'' qid ?ten con")
  have con1: "con1 = ensure_table con" using held_item_state [of rt "''reject''" qid ?ten con] by (simp add: h)
  show ?thesis
  proof (cases h)
    case (Inl e)
    with assms show ?thesis by (simp add: reject_from_quarantine_def h and_then_def con1) auto
  next
    case (Inr row)
    have it: "item qid ?ten (db con) = Some row" "qt_status row = ''quarantined''"
      using h [unfolded Inr held_item_Inr] by simp_all
    let ?a = "(attestation_of ''reject'' ?ten row)\<lparr>at_actor := Some actor, at_reason := Some note\<rparr>"
    obtain at con2 where at: "attest rt env ?a False con1 = (at, con2)" by (cases "attest rt env ?a False con1")
    have "items con2 = items con" using attest_tables(1) [of rt env ?a False con1] unfolding at by (simp add: con1)
    with assms it show ?thesis
      unfolding reject_from_quarantine_def Let_def h Inr and_then_def prod.case sum.case at
      by (cases at) (auto simp: con1 rejected_def [abs_def] split: if_splits)
  qed
qed

lemma reject_refines: "item_step\<^sup>*\<^sup>* (items con) (items (snd (reject_from_quarantine rt env qid tenant actor note b con)))"
proof (cases "reject_from_quarantine rt env qid tenant actor note b con")
  case (Pair res con')
  from reject_effect [OF Pair] show ?thesis
    using change_held [OF _ _ allowed_changes(2)] by (fastforce simp: Pair)
qed

lemma server_refines:
  "item_step\<^sup>*\<^sup>* (items con) (items (snd (release_capability_from_quarantine rt env cls qid req b con)))"
proof -
  have step: "item_step\<^sup>*\<^sup>* (items con) (items (snd (and_then (issue_scan_attestation rt env qid tenant scan sid ver c con)
      (\<lambda>_ con. release_from_quarantine rt env2 qid req2 b con))))" for tenant scan sid ver c con env2 req2
  proof (cases "issue_scan_attestation rt env qid tenant scan sid ver c con")
    case (Pair res con1)
    have "item_step\<^sup>*\<^sup>* (items con) (items con1)" using scan_refines [of con rt env qid tenant scan sid ver c] by (simp add: Pair)
    moreover have "item_step\<^sup>*\<^sup>* (items con1) (items (snd (release_from_quarantine rt env2 qid req2 b con1)))"
      by (rule release_refines)
    ultimately show ?thesis by (cases res) (auto simp: and_then_def Pair)
  qed
  obtain h where h: "held_item rt ''release'' qid (guard_tenant rt (rq_tenant_id req)) con = (h, ensure_table con)"
    using held_item_state [of rt "''release''" qid "guard_tenant rt (rq_tenant_id req)" con] by (metis prod.collapse)
  have lifted: "item_step\<^sup>*\<^sup>* (items con) (items (snd (and_then (lift_result x (ensure_table con)) f)))"
    if "\<And>y. item_step\<^sup>*\<^sup>* (items (ensure_table con)) (items (snd (f y (ensure_table con))))" for x and f :: "payload \<Rightarrow> conn \<Rightarrow> (conn, quarantine_row option) outcome"
    using that by (cases x) (auto simp: and_then_def lift_result_def)
  have lifted2: "item_step\<^sup>*\<^sup>* (items (ensure_table con)) (items (snd (and_then (lift_result x (ensure_table con)) f)))"
    if "\<And>y. item_step\<^sup>*\<^sup>* (items (ensure_table con)) (items (snd (f y (ensure_table con))))" for x and f :: "payload \<Rightarrow> conn \<Rightarrow> (conn, quarantine_row option) outcome"
    using lifted [of f x] that by simp
  show ?thesis
  proof (cases h)
    case (Inl e)
    then show ?thesis by (simp add: release_capability_from_quarantine_def h and_then_def)
  next
    case (Inr row)
    show ?thesis unfolding release_capability_from_quarantine_def Let_def and_then_def [of "held_item _ _ _ _ _"] h Inr
        prod.case sum.case
      by (intro lifted lifted2 step)
  qed
qed

lemma step_refines: "guard_step env con con' \<Longrightarrow> item_step\<^sup>*\<^sup>* (items con) (items con')"
  by (cases rule: guard_step.cases) (auto intro: hold_refines scan_refines release_refines reject_refines server_refines)

text \<open>C25. The store implements the life of an item: the table of items after any sequence of its operations,
  successful or not, is reached from the one before by holding new content and by changes of held items to
  their reason or to one of the final statuses; nothing else ever happens to an item.\<close>

theorem store_implements_item_life:
  "(\<lambda>con con'. \<exists>env :: 'k review_env. guard_step env con con')\<^sup>*\<^sup>* con con' \<Longrightarrow> item_step\<^sup>*\<^sup>* (items con) (items con')"
proof (induction rule: rtranclp_induct)
  case (step con1 con2)
  from step(2) obtain env :: "'k review_env" where "guard_step env con1 con2" by blast
  then have "item_step\<^sup>*\<^sup>* (items con1) (items con2)" by (rule step_refines)
  with step(3) show ?case by (rule rtranclp_trans)
qed simp

section \<open>Final statuses\<close>

definition items_ok :: "quarantine_row list \<Rightarrow> bool" where
  "items_ok t \<longleftrightarrow> distinct (map qt_id t) \<and> (\<forall>q \<in> set t. qt_status q \<in> set QUARANTINE_STATUSES)
     \<and> distinct (map active_key (filter (\<lambda>q. qt_status q = ''quarantined'') t))"

lemma distinct_keys_update:
  assumes "\<And>q. k (f q) = k q" "\<And>q. P (f q) \<Longrightarrow> P q" "distinct (map k (filter P t))"
  shows "distinct (map k (filter P (update_where p f t)))"
  using assms(3)
proof (induction t)
  case (Cons q t)
  have "k ` {x \<in> set (update_where p f t). P x} \<subseteq> k ` {x \<in> set t. P x}"
    using assms(1,2) by (auto simp: update_where_def split: if_splits)
  with Cons assms(1,2) show ?case by (auto simp: update_where_Cons split: if_splits)
qed (simp add: update_where_def)

lemma item_step_ok:
  assumes "item_step t t'" "items_ok t"
  shows "items_ok t' \<and> (\<forall>q \<in> set t. qt_status q \<noteq> ''quarantined'' \<longrightarrow> q \<in> set t')"
  using assms(1)
proof cases
  case (Hold q)
  then show ?thesis using assms(2) by (auto simp: items_ok_def QUARANTINE_STATUSES_def)
next
  case (Change q f)
  have f: "qt_id (f r) = qt_id r" "active_key (f r) = active_key r" "qt_status (f r) \<in> {qt_status r, ''released'', ''rejected''}" for r
    using Change(4) by (simp_all add: allowed_change_def)
  have "qt_status (f r) = ''quarantined'' \<Longrightarrow> qt_status r = ''quarantined''" for r using f(3) [of r] by auto
  then have "distinct (map active_key (filter (\<lambda>q. qt_status q = ''quarantined'') t'))"
    using assms(2) f(2) unfolding Change(1) items_ok_def by (intro distinct_keys_update) auto
  moreover have "\<forall>r \<in> set t'. qt_status r \<in> set QUARANTINE_STATUSES"
  proof -
    have "qt_status (f r) \<in> set QUARANTINE_STATUSES" if "qt_status r \<in> set QUARANTINE_STATUSES" for r
      using f(3) [of r] that by (auto simp: QUARANTINE_STATUSES_def)
    then show ?thesis using assms(2) unfolding Change(1) items_ok_def ball_update_where by simp
  qed
  moreover have "r \<in> set t'" if "r \<in> set t" "qt_status r \<noteq> ''quarantined''" for r
  proof -
    have "qt_id r \<noteq> qt_id q" using that Change(2,3) assms(2) unfolding items_ok_def
      by (metis distinct_key_unique)
    with that show ?thesis by (force simp: Change(1) update_where_def)
  qed
  ultimately show ?thesis using assms(2) f(1) unfolding Change(1) items_ok_def
    by (simp add: map_update_where_frame)
qed

lemma items_run_ok:
  assumes "item_step\<^sup>*\<^sup>* t t'" "items_ok t"
  shows "items_ok t' \<and> (\<forall>q \<in> set t. qt_status q \<noteq> ''quarantined'' \<longrightarrow> q \<in> set t')"
  using assms
proof (induction rule: rtranclp_induct)
  case (step u v)
  then have "items_ok u" "\<forall>q \<in> set t. qt_status q \<noteq> ''quarantined'' \<longrightarrow> q \<in> set u" by auto
  with item_step_ok [OF step(2)] show ?case by blast
qed simp


text \<open>A final status is final: after any sequence of operations on a lawful store there is at most one
  held item for each content of a capability, every status is one of the vocabulary, identifiers are
  unique, and every item that was released or rejected is still there, unchanged.\<close>

theorem final_items_stay:
  assumes "(\<lambda>con con'. \<exists>env :: 'k review_env. guard_step env con con')\<^sup>*\<^sup>* con con'" "items_ok (items con)"
  shows "items_ok (items con') \<and> (\<forall>q \<in> set (items con). qt_status q \<noteq> ''quarantined'' \<longrightarrow> q \<in> set (items con'))"
proof -
  have "item_step\<^sup>*\<^sup>* (items con) (items con')" using assms(1)
  proof (induction rule: rtranclp_induct)
    case (step con1 con2)
    then show ?case using step_refines by (metis rtranclp_trans)
  qed simp
  with assms(2) show ?thesis by (intro items_run_ok)
qed

section \<open>Sample data\<close>

definition held_row :: quarantine_row where
  "held_row = \<lparr>qt_id = ''qtn_a'', qt_tenant = ''asg'', qt_capability_uri = ''u'', qt_capability_type = ''skill'', qt_name = [],
     qt_version = ''1.0.0'', qt_source_path = ''/s'', qt_content_hash = ''sha256:0'', qt_reason = ''pending_scan'',
     qt_status = ''quarantined'', qt_submitted_by = None, qt_metadata = JObj [], qt_created_at = ''t'', qt_updated_at = ''t'',
     qt_released_at = None, qt_rejected_at = None\<rparr>"

definition held_conn :: "capability list \<Rightarrow> conn" where
  "held_conn caps = sample_conn (empty_database\<lparr>capguard_quarantine := [held_row], capabilities := caps\<rparr>)"

definition empty_file_env :: "unit review_env" where
  "empty_file_env = \<lparr>file_at = (\<lambda>_. Contents []), resolve_path = id, parse_json = (\<lambda>_. Inr JNull),
     unicode_tables = \<lparr>nfkc = id, lower = id\<rparr>, key_signer = sample_signer, key_dir = ''/k''\<rparr>"

definition ascii_classes :: char_classes where
  "ascii_classes = \<lparr>word_code = (\<lambda>c. 48 \<le> c \<and> c \<le> 122), decimal_code = (\<lambda>c. 48 \<le> c \<and> c \<le> 57)\<rparr>"

definition plain_release :: release_request where
  "plain_release = \<lparr>rq_tenant_id = ''asg'', rq_actor = ''ann'', rq_reason = ''scan_clean'', rq_trusted_key_id = None,
     rq_capability = None, rq_scan_result = None, rq_injection_result = None, rq_policy = None\<rparr>"

lemma sample_signer_ok: "signer_ok sample_signer"
  by (simp add: signer_ok_def sample_signer_def list_all_iff)

lemma held_item_sample:
  "item ''qtn_a'' (guard_tenant sample_runtime (rq_tenant_id plain_release)) (db (held_conn caps)) = Some held_row"
  by (simp add: held_conn_def sample_conn_def plain_release_def guard_tenant_def held_row_def)

lemma empty_file_passes:
  "\<exists>scanned. scan_file ascii_classes (Contents []) = Inr scanned \<and> json_truthy (pget scanned ''passed'')"
proof -
  have "ends cls [] (Star r) 0 = [0]" if "ends cls [] r 0 = []" for cls r
    by (subst ends.simps(5)) (simp add: that)
  then have "search ascii_classes (sg_pattern sg) [] = None" if "sg \<in> set (MALWARE_SIGNATURES ascii_classes)" for sg
    using that by (auto simp: MALWARE_SIGNATURES_def search_def any_char_def space_def plus_def boundary_def word_at_def)
  then have "scan_findings ascii_classes (utf8_decode []) = []" by (simp add: no_findings)
  then show ?thesis by (simp add: scan_file_def MAX_SCAN_SIZE_BYTES_def Let_def of_severity_def pget_def json_truthy_def)
qed

lemma sample_release:
  "\<exists>r con'. release_capability_from_quarantine sample_runtime empty_file_env ascii_classes ''qtn_a'' plain_release True (held_conn [])
     = (Inr r, con')"
proof -
  obtain scanned where "scan_file ascii_classes (Contents []) = Inr scanned" "json_truthy (pget scanned ''passed'')"
    using empty_file_passes by blast
  moreover have "load_or_create_signing_key sample_runtime (key_dir empty_file_env) (key_signer empty_file_env) = Inr ()"
    by (simp add: load_or_create_signing_key_def signing_key_path_def sample_runtime_def sample_signer_def empty_file_env_def
        production_environment_def py_strip_def py_lstrip_def py_rstrip_def py_lower_def)
  ultimately show ?thesis
    using sample_signer_ok held_item_sample [of "[]"]
    by (intro server_release_succeeds [where row = held_row])
      (auto simp: empty_file_env_def held_row_def held_conn_def sample_conn_def empty_database_def plain_release_def
        get_capability_def injection_verdict_def py_strip_def py_lstrip_def py_rstrip_def)
qed

theorem server_release_needs_clean_file_witness:
  "\<exists>r con'. release_capability_from_quarantine sample_runtime empty_file_env ascii_classes ''qtn_a'' plain_release True (held_conn [])
       = (Inr r, con')
     \<and> capguard_quarantine (db con') = [released sample_runtime held_row]"
proof -
  obtain r con' where run: "release_capability_from_quarantine sample_runtime empty_file_env ascii_classes ''qtn_a'' plain_release True
      (held_conn []) = (Inr r, con')"
    using sample_release by blast
  have ok: "signer_ok (key_signer empty_file_env)" by (simp add: empty_file_env_def sample_signer_ok)
  have none: "capguard_attestations (db (held_conn [])) = []" by (simp add: held_conn_def sample_conn_def empty_database_def)
  have "capguard_quarantine (db con') = update_where (\<lambda>q. qt_id q = ''qtn_a'') (released sample_runtime) (items (held_conn []))"
    using server_release_needs_clean_file [OF ok _ run] none by auto
  then show ?thesis using run by (auto simp: held_conn_def sample_conn_def update_where_def held_row_def)
qed

theorem release_of_held_content_skips_policy_witness:
  "release_capability_from_quarantine sample_runtime empty_file_env ascii_classes ''qtn_a''
       (plain_release\<lparr>rq_policy := Some (default_policy\<lparr>po_enabled_checks := []\<rparr>)\<rparr>) True (held_conn [sample_capability\<lparr>c_uri := ''u''\<rparr>])
     = release_capability_from_quarantine sample_runtime empty_file_env ascii_classes ''qtn_a'' plain_release True
         (held_conn [sample_capability\<lparr>c_uri := ''u''\<rparr>])"
  by (rule release_of_held_content_skips_policy [OF held_item_sample, where c = "sample_capability\<lparr>c_uri := ''u''\<rparr>"])
    (simp_all add: plain_release_def held_conn_def sample_conn_def held_row_def sample_capability_def)

theorem store_implements_item_life_witness:
  "item_step\<^sup>*\<^sup>* (items (held_conn [])) (items (snd (reject_from_quarantine sample_runtime empty_file_env ''qtn_a'' ''asg'' ''ann'' ''bad'' True (held_conn []))))"
  by (rule store_implements_item_life [where 'k = unit]) (blast intro: r_into_rtranclp guard_step.Reject)

theorem final_items_stay_witness:
  "items_ok (items (snd (reject_from_quarantine sample_runtime empty_file_env ''qtn_a'' ''asg'' ''ann'' ''bad'' True (held_conn []))))"
proof -
  have "items_ok (items (held_conn []))" by (simp add: items_ok_def held_conn_def sample_conn_def held_row_def QUARANTINE_STATUSES_def)
  moreover have "(\<lambda>con con'. \<exists>env :: unit review_env. guard_step env con con')\<^sup>*\<^sup>* (held_conn [])
      (snd (reject_from_quarantine sample_runtime empty_file_env ''qtn_a'' ''asg'' ''ann'' ''bad'' True (held_conn [])))"
    by (blast intro: r_into_rtranclp guard_step.Reject)
  ultimately show ?thesis using final_items_stay by blast
qed

end
