(* ===== verification/Auth_Sessions.thy ===== *)
theory Auth_Sessions
  imports Complex_Main Provisioning Signing Registry_Log
begin

text \<open>
  Sign-in: the sessions and the OAuth flows of \<^verbatim>\<open>tokens.py\<close>, the checks of claims of
  \<^verbatim>\<open>token_validation.py\<close> and \<^verbatim>\<open>oauth_pkce.py\<close>, the binding of directory groups
  (\<^verbatim>\<open>entra_groups.py\<close>), the reading of a principal from a dictionary (\<^verbatim>\<open>models.Principal.from_dict\<close>) and the
  checks of \<^verbatim>\<open>auth.py\<close>.

  The decoding of the payload of a JWT and its verification by the package PyJWT are parameters
  (\<^verbatim>\<open>jwt_ops\<close>), and so is the reading and printing of floating-point numbers. A field of a principal
  that is not a text is kept as its text. The order of the groups of a principal after resolution, in
  the code that of a set, is the order of first occurrence.
\<close>

section \<open>Principals from dictionaries\<close>

definition DEFAULT_LOCAL_SUBJECT :: "runtime \<Rightarrow> string" where
  "DEFAULT_LOCAL_SUBJECT rt = env_or rt ''CAPMESH_DEFAULT_LOCAL_SUBJECT'' ''admin@example.com''"

definition DEFAULT_BASIC_SCOPES :: "string list" where
  "DEFAULT_BASIC_SCOPES = [''cap:search'', ''cap:load'', ''cap:delegate'', ''cap:report'', ''cap:call'']"

definition default_principal :: "runtime \<Rightarrow> principal" where
  "default_principal rt = \<lparr>p_subject = DEFAULT_LOCAL_SUBJECT rt, p_tenant_id = ''asg'', p_identity_id = None, p_email = None,
     p_display_name = None, p_app_id = None, p_groups = [''asg:local''], p_roles = [''member''],
     p_scopes = DEFAULT_BASIC_SCOPES, p_authenticated = True, p_disabled = False, p_step_up_authenticated = False\<rparr>"

definition opt_text :: "json \<Rightarrow> string option" where
  "opt_text v = (case v of JNull \<Rightarrow> None | _ \<Rightarrow> Some (py_str v))"

definition either_key :: "payload \<Rightarrow> string \<Rightarrow> string \<Rightarrow> json" where
  "either_key raw a b = json_or (pget raw a) (pget raw b)"

text \<open>\<^verbatim>\<open>tuple(str(x) for x in value)\<close>, or the default when the value is None.\<close>

definition texts_or :: "json \<Rightarrow> string list \<Rightarrow> py_error + string list" where
  "texts_or v dflt = (if v = JNull then Inr dflt else bind_sum (iterate v) (\<lambda>xs. Inr (map py_str xs)))"

definition principal_from_dict :: "runtime \<Rightarrow> payload \<Rightarrow> py_error + principal" where
  "principal_from_dict rt raw =
     (if raw = [] then Inr (default_principal rt)
      else
        let subject = py_str (json_or (either_key raw ''subject'' ''sub'') (JStr (DEFAULT_LOCAL_SUBJECT rt)));
            app_id = json_or (either_key raw ''app_id'' ''appId'') (pget raw ''azp'');
            is_default_local = (subject = DEFAULT_LOCAL_SUBJECT rt \<and> \<not> json_truthy app_id);
            def = default_principal rt in
        bind_sum (texts_or (pget raw ''roles'') (if is_default_local then p_roles def
            else if json_truthy app_id then [''app_service''] else [''member''])) (\<lambda>roles.
        bind_sum (texts_or (pget raw ''scopes'') (if is_default_local then p_scopes def else DEFAULT_BASIC_SCOPES)) (\<lambda>scopes.
        bind_sum (texts_or (pget raw ''groups'') (if is_default_local then p_groups def else [])) (\<lambda>groups.
          Inr \<lparr>p_subject = subject,
            p_tenant_id = py_str (json_or (either_key raw ''tenant_id'' ''tenantId'') (json_or (pget raw ''tenant'') (JStr ''asg''))),
            p_identity_id = opt_text (either_key raw ''identity_id'' ''identityId''), p_email = opt_text (pget raw ''email''),
            p_display_name = opt_text (json_or (either_key raw ''display_name'' ''displayName'') (pget raw ''name'')),
            p_app_id = opt_text app_id, p_groups = groups, p_roles = roles, p_scopes = scopes,
            p_authenticated = (case map_of raw ''authenticated'' of None \<Rightarrow> True | Some v \<Rightarrow> json_truthy v),
            p_disabled = json_truthy (pget raw ''disabled''), p_step_up_authenticated = False\<rparr>))))"

section \<open>Checks without a database\<close>

definition can_load_local :: "capability \<Rightarrow> principal \<Rightarrow> bool \<times> string option" where
  "can_load_local cap p =
     (if c_visibility cap = ''public'' then (True, None)
      else if \<not> p_authenticated p then (False, Some ''Authentication required.'')
      else if c_visibility cap = ''internal'' then (True, None)
      else if c_allow_users cap \<noteq> [] \<and> p_subject p \<in> set (c_allow_users cap) then (True, None)
      else if c_allow_groups cap \<noteq> [] \<and> set (p_groups p) \<inter> set (c_allow_groups cap) \<noteq> {} then (True, None)
      else if c_required_scopes cap \<noteq> [] \<and> set (c_required_scopes cap) \<subseteq> set (p_scopes p) then (True, None)
      else if c_visibility cap = ''secret''
      then (False, Some ''Capability is secret and hidden without explicit entitlement.'')
      else (False, Some ''Capability requires a protected entitlement.''))"

definition can_discover_local :: "capability \<Rightarrow> principal \<Rightarrow> bool \<times> bool" where
  "can_discover_local cap p =
     (let allowed = fst (can_load_local cap p) in
      if c_discovery_mode cap = ''hidden'' \<and> \<not> allowed then (False, False)
      else if allowed then (True, False)
      else if c_discovery_mode cap = ''locked'' then (True, True)
      else (False, False))"

definition SCOPE_EQUIVALENTS :: "(string \<times> string list) list" where
  "SCOPE_EQUIVALENTS = [(''cap:search'', [''cap.discover'', ''cap.discover:*'']), (''cap:load'', [''cap.load'', ''cap.load:*'']),
     (''cap:delegate'', [''cap.delegate'', ''cap.delegate:*'']), (''cap:report'', [''cap.audit'', ''cap.audit:*'']),
     (''cap:call'', [''cap.call'', ''cap.call:*''])]"

definition require_scope :: "principal \<Rightarrow> string \<Rightarrow> bool \<times> string option" where
  "require_scope p scope =
     (let scopes = set (p_scopes p);
          equivalents = (case map_of SCOPE_EQUIVALENTS scope of None \<Rightarrow> [] | Some xs \<Rightarrow> xs) in
      if scope \<in> scopes \<or> ''cap:*'' \<in> scopes \<or> scopes \<inter> set equivalents \<noteq> {} then (True, None)
      else (False, Some (''Missing required scope: '' @ scope)))"

section \<open>Groups of the directory\<close>

record entra_binding =
  en_entra_tenant_id :: string
  en_entra_group_id :: string
  en_entra_group_name :: "string option"
  en_mesh_group_name :: string
  en_mesh_role :: string
  en_bound_by :: string
  en_tenant_id :: string

definition binding_key :: "entra_binding_row \<Rightarrow> string \<times> string \<times> string" where
  "binding_key r = (eb_tenant r, eb_entra_tenant r, eb_entra_group r)"

definition bind_entra_group :: "runtime \<Rightarrow> entra_binding \<Rightarrow> bool \<Rightarrow> conn \<Rightarrow> payload \<times> conn" where
  "bind_entra_group rt b commits con0 =
     (let (binding_id, con) = new_id rt ''egb'' (ensure_table con0);
          key = (en_tenant_id b, en_entra_tenant_id b, en_entra_group_id b);
          row = \<lparr>eb_id = binding_id, eb_tenant = en_tenant_id b, eb_entra_tenant = en_entra_tenant_id b,
            eb_entra_group = en_entra_group_id b, eb_entra_group_name = en_entra_group_name b,
            eb_mesh_group = en_mesh_group_name b, eb_mesh_role = en_mesh_role b, eb_bound_by = en_bound_by b,
            eb_bound_at = utc_now rt\<rparr>;
          upd = (\<lambda>r. r\<lparr>eb_entra_group_name := en_entra_group_name b, eb_mesh_group := en_mesh_group_name b,
            eb_mesh_role := en_mesh_role b\<rparr>);
          con = with_db (\<lambda>d. d\<lparr>entra_group_bindings :=
            (if find (\<lambda>r. binding_key r = key) (entra_group_bindings d) \<noteq> None
             then update_where (\<lambda>r. binding_key r = key) upd (entra_group_bindings d)
             else entra_group_bindings d @ [row])\<rparr>) con
      in ([(''entraTenantId'', JStr (en_entra_tenant_id b)), (''entraGroupId'', JStr (en_entra_group_id b)),
           (''entraGroupName'', json_opt (en_entra_group_name b)), (''meshGroupName'', JStr (en_mesh_group_name b)),
           (''meshRole'', JStr (en_mesh_role b)), (''boundBy'', JStr (en_bound_by b))], commit_if commits con))"

definition entra_binding_record :: "entra_binding_row \<Rightarrow> payload" where
  "entra_binding_record r = [(''entraTenantId'', JStr (eb_entra_tenant r)), (''entraGroupId'', JStr (eb_entra_group r)),
     (''entraGroupName'', if truthy (eb_entra_group_name r) then json_opt (eb_entra_group_name r) else JNull),
     (''meshGroupName'', JStr (eb_mesh_group r)), (''meshRole'', JStr (eb_mesh_role r)), (''boundBy'', JStr (eb_bound_by r)),
     (''boundAt'', JStr (eb_bound_at r))]"

definition list_entra_bindings :: "string \<Rightarrow> conn \<Rightarrow> payload list \<times> conn" where
  "list_entra_bindings tenant_id con0 =
     (let con = ensure_table con0 in
      (map entra_binding_record (order_by_desc eb_bound_at (filter (\<lambda>r. eb_tenant r = tenant_id) (entra_group_bindings (db con)))), con))"

definition resolve_entra_groups_to_mesh_groups :: "string list \<Rightarrow> string \<Rightarrow> conn \<Rightarrow> string list \<times> conn" where
  "resolve_entra_groups_to_mesh_groups groups tenant_id con0 =
     (let con = ensure_table con0 in
      (map eb_mesh_group (filter (\<lambda>r. eb_tenant r = tenant_id \<and> eb_entra_group r \<in> set groups) (entra_group_bindings (db con))), con))"

definition remove_entra_binding :: "string \<Rightarrow> string \<Rightarrow> string \<Rightarrow> bool \<Rightarrow> conn \<Rightarrow> payload \<times> conn" where
  "remove_entra_binding entra_tenant_id entra_group_id tenant_id commits con0 =
     (let con = ensure_table con0;
          hit = (\<lambda>r. eb_entra_tenant r = entra_tenant_id \<and> eb_entra_group r = entra_group_id \<and> eb_tenant r = tenant_id);
          removed = (0 < rowcount hit (entra_group_bindings (db con)));
          con = with_db (\<lambda>d. d\<lparr>entra_group_bindings := delete_where hit (entra_group_bindings d)\<rparr>) con
      in ([(''removed'', JBool removed), (''entraGroupId'', JStr entra_group_id)], commit_if commits con))"

section \<open>Sessions\<close>

definition hash_secret :: "string \<Rightarrow> string" where
  "hash_secret value = sha256_hex value"

definition new_secret :: "runtime \<Rightarrow> nat \<Rightarrow> conn \<Rightarrow> string \<times> conn" where
  "new_secret rt n con = (token_urlsafe rt n (drawn con), con\<lparr>drawn := Suc (drawn con)\<rparr>)"

text \<open>A setting in seconds; a text that is no number stops the import of the module.\<close>

definition env_seconds :: "runtime \<Rightarrow> string \<Rightarrow> int \<Rightarrow> int" where
  "env_seconds rt k dflt = (case environ rt k of None \<Rightarrow> dflt | Some v \<Rightarrow> (case int_text v of None \<Rightarrow> dflt | Some n \<Rightarrow> n))"

definition SESSION_TTL :: "runtime \<Rightarrow> int" where
  "SESSION_TTL rt = env_seconds rt ''CAPMESH_SESSION_TTL_SECONDS'' (10 * 365 * 24 * 3600)"

definition TOKEN_DELIVERY_TTL :: "runtime \<Rightarrow> int" where
  "TOKEN_DELIVERY_TTL rt = env_seconds rt ''CAPMESH_TOKEN_DELIVERY_TTL_SECONDS'' 600"

definition validate_graph_client_state :: "string \<Rightarrow> database \<Rightarrow> bool" where
  "validate_graph_client_state supplied d =
     (supplied \<noteq> [] \<and> list_ex (\<lambda>r. gs_client_state_hash r = hash_secret supplied \<and> gs_status r \<in> {''planned'', ''active''})
        (graph_subscriptions d))"

definition sanitize_auth_metadata :: "payload \<Rightarrow> payload" where
  "sanitize_auth_metadata m = filter (\<lambda>(k, _). \<not> substring_in ''token'' (py_lower k) \<and> \<not> substring_in ''secret'' (py_lower k)) m"

text \<open>\<^verbatim>\<open>{**principal.to_dict(), "identityId": i, "authenticated": True}\<close>\<close>

definition session_principal :: "principal \<Rightarrow> string \<Rightarrow> payload" where
  "session_principal p identity = (case principal_to_dict p of
     JObj kvs \<Rightarrow> dict_set ''authenticated'' (JBool True) (dict_set ''identityId'' (JStr identity) kvs) | _ \<Rightarrow> [])"

record minted =
  mt_session_id :: string
  mt_tenant_id :: string
  mt_token :: string
  mt_expires_at :: string
  mt_principal :: payload

definition insert_session :: "session_row \<Rightarrow> conn \<Rightarrow> (conn, unit) outcome" where
  "insert_session row con =
     (if list_ex (\<lambda>s. se_token_hash s = se_token_hash row) (capmesh_sessions (db con))
      then (Inl (IntegrityError ''UNIQUE constraint failed: capmesh_sessions.token_hash''), con)
      else if \<not> list_ex (\<lambda>t. tn_id t = se_tenant row) (tenants (db con))
      then (Inl (IntegrityError ''FOREIGN KEY constraint failed''), con)
      else (Inr (), with_db (\<lambda>d. d\<lparr>capmesh_sessions := capmesh_sessions d @ [row]\<rparr>) con))"

definition mint_capmesh_token :: "runtime \<Rightarrow> principal \<Rightarrow> int option \<Rightarrow> payload \<Rightarrow> conn \<Rightarrow> (conn, minted) outcome" where
  "mint_capmesh_token rt p ttl_seconds metadata con0 =
     and_then (ensure_identity_for_principal rt p con0) (\<lambda>identity con.
     let ttl = (case ttl_seconds of None \<Rightarrow> SESSION_TTL rt | Some n \<Rightarrow> n);
         (secret, con) = new_secret rt 32 con; token = ''cm_'' @ secret; expires_at = expires_in rt ttl;
         (session_id, con) = new_id rt ''cms'' con;
         row = \<lparr>se_id = session_id, se_tenant = tenant_of rt p, se_token_hash = hash_secret token, se_identity = Some identity,
           se_subject = p_subject p, se_principal = session_principal p identity, se_scopes = p_scopes p,
           se_issued_at = sql_now rt, se_expires_at = expires_at, se_revoked_at = None, se_metadata = metadata\<rparr>
     in and_then (insert_session row con) (\<lambda>_ con.
       let con = snd (audit_event rt ''auth.capmesh_session.issued'' (p_subject p) (Some session_id) (Some ''issue'') (Some ''allow'') None
             [(''expiresAt'', JStr expires_at), (''metadata'', JObj (sanitize_auth_metadata metadata))] (tenant_of rt p) ''user'' con)
       in (Inr \<lparr>mt_session_id = session_id, mt_tenant_id = tenant_of rt p, mt_token = token, mt_expires_at = expires_at,
             mt_principal = session_principal p identity\<rparr>, commit con)))"

definition live_session :: "runtime \<Rightarrow> string \<Rightarrow> session_row \<Rightarrow> bool" where
  "live_session rt token s = (se_token_hash s = hash_secret token \<and> se_revoked_at s = None \<and> utc_now rt < se_expires_at s)"

definition session_dict :: "session_row \<Rightarrow> payload" where
  "session_dict s = dict_set ''authenticated'' (JBool True) (dict_set ''scopes'' (JList (map JStr (se_scopes s)))
     (dict_set ''tenantId'' (JStr (se_tenant s))
       (dict_set ''identityId'' (if truthy (se_identity s) then json_opt (se_identity s) else pget (se_principal s) ''identityId'')
         (se_principal s))))"

definition with_mesh_groups :: "runtime \<Rightarrow> principal \<Rightarrow> conn \<Rightarrow> principal \<times> conn" where
  "with_mesh_groups rt p con =
     (if p_groups p = [] then (p, con)
      else
        let (mesh, con) = resolve_entra_groups_to_mesh_groups (p_groups p) (tenant_of rt p) con in
        if mesh = [] then (p, con) else (p\<lparr>p_groups := rev (remdups (rev (p_groups p @ mesh)))\<rparr>, con))"

definition principal_from_bearer :: "runtime \<Rightarrow> string option \<Rightarrow> conn \<Rightarrow> (conn, principal option) outcome" where
  "principal_from_bearer rt token con =
     (if \<not> truthy token then (Inr None, con)
      else case find (live_session rt (the token)) (capmesh_sessions (db con)) of
        None \<Rightarrow> (Inr None, con)
      | Some s \<Rightarrow> (case principal_from_dict rt (session_dict s) of
          Inl e \<Rightarrow> (Inl e, con)
        | Inr p \<Rightarrow> let (p, con) = with_mesh_groups rt p con in (Inr (Some p), con)))"

definition revoke_where :: "runtime \<Rightarrow> (session_row \<Rightarrow> bool) \<Rightarrow> conn \<Rightarrow> conn" where
  "revoke_where rt hit con = with_db (\<lambda>d. d\<lparr>capmesh_sessions :=
     update_where hit (\<lambda>s. s\<lparr>se_revoked_at := Some (sql_now rt)\<rparr>) (capmesh_sessions d)\<rparr>) con"

definition revoke_capmesh_session ::
  "runtime \<Rightarrow> principal \<Rightarrow> string option \<Rightarrow> string option \<Rightarrow> conn \<Rightarrow> payload \<times> conn" where
  "revoke_capmesh_session rt p session_id token con =
     (let tenant_id = tenant_of rt p;
          (target, hit) =
            (if truthy session_id then (the session_id, \<lambda>s. Some (se_id s) = session_id \<and> se_tenant s = tenant_id)
             else if truthy token then (''token'', \<lambda>s. se_token_hash s = hash_secret (the token) \<and> se_tenant s = tenant_id)
             else (p_subject p, \<lambda>s. se_subject s = p_subject p \<and> se_tenant s = tenant_id \<and> se_revoked_at s = None));
          con = revoke_where rt hit con;
          con = snd (audit_event rt ''auth.capmesh_session.revoked'' (p_subject p) (Some target) (Some ''revoke'') (Some ''allow'') None []
            tenant_id ''user'' con)
      in ([(''revoked'', JBool True), (''target'', JStr target)], commit con))"

definition auth_status :: "runtime \<Rightarrow> principal \<Rightarrow> database \<Rightarrow> payload" where
  "auth_status rt p d =
     (let tenant = tenant_of rt p;
          rows = take 5 (order_by_desc se_issued_at
            (filter (\<lambda>s. se_tenant s = tenant \<and> se_subject s = p_subject p) (capmesh_sessions d)));
          active = filter (\<lambda>s. se_revoked_at s = None \<and> utc_now rt < se_expires_at s) rows
      in [(''tenantId'', JStr tenant), (''subject'', JStr (p_subject p)), (''authenticated'', JBool (p_authenticated p)),
        (''activeSessionCount'', JInt (int (length active))),
        (''recentSessions'', JList (map (\<lambda>s. JObj [(''id'', JStr (se_id s)), (''subject'', JStr (se_subject s)),
           (''scopes'', JList (map JStr (se_scopes s))), (''issuedAt'', JStr (se_issued_at s)), (''expiresAt'', JStr (se_expires_at s)),
           (''revoked'', JBool (se_revoked_at s \<noteq> None))]) rows)),
        (''loginCommand'', JStr (''capmesh auth login --m365 --tenant '' @ tenant)), (''doctorCommand'', JStr ''capmesh auth doctor --json'')])"

section \<open>Proof key for code exchange\<close>

definition CODE_CHALLENGE_METHOD :: string where
  "CODE_CHALLENGE_METHOD = ''S256''"

definition urlsafe_char :: "char \<Rightarrow> char" where
  "urlsafe_char c = (if c = CHR ''+'' then CHR ''-'' else if c = CHR ''/'' then CHR ''_'' else c)"

definition compute_code_challenge :: "string \<Rightarrow> py_error + string" where
  "compute_code_challenge verifier =
     (if list_ex (\<lambda>c. 127 < code_point c) verifier then Inl (ValueError ''ordinal not in range(128)'')
      else Inr (rstrip_chars ''='' (map urlsafe_char (b64encode (sha256_bytes (map of_char verifier))))))"

definition validate_pkce :: "string \<Rightarrow> string \<Rightarrow> string \<Rightarrow> py_error + bool" where
  "validate_pkce verifier challenge challenge_method =
     (if challenge_method \<noteq> ''S256'' then Inr (verifier = challenge)
      else bind_sum (compute_code_challenge verifier) (\<lambda>computed. Inr (computed = challenge)))"

section \<open>OAuth flows\<close>

definition insert_oauth :: "oauth_row \<Rightarrow> conn \<Rightarrow> (conn, unit) outcome" where
  "insert_oauth row con =
     (if list_ex (\<lambda>s. oa_state s = oa_state row) (oauth_sessions (db con))
      then (Inl (IntegrityError ''UNIQUE constraint failed: oauth_sessions.state''), con)
      else if \<not> list_ex (\<lambda>t. tn_id t = oa_tenant row) (tenants (db con))
      then (Inl (IntegrityError ''FOREIGN KEY constraint failed''), con)
      else (Inr (), with_db (\<lambda>d. d\<lparr>oauth_sessions := oauth_sessions d @ [row]\<rparr>) con))"

definition create_oauth_session ::
  "runtime \<Rightarrow> string \<Rightarrow> string \<Rightarrow> string \<Rightarrow> string \<Rightarrow> payload \<Rightarrow> conn \<Rightarrow> (conn, payload) outcome" where
  "create_oauth_session rt tenant_id flow redirect_uri scope metadata con0 =
     (let (verifier, con) = new_secret rt 64 con0 in
      and_then (lift_result (compute_code_challenge verifier) con) (\<lambda>challenge con.
      let (state, con) = new_secret rt 32 con; (nonce, con) = new_secret rt 24 con; (session_id, con) = new_id rt ''oauth'' con;
          row = \<lparr>oa_id = session_id, oa_tenant = tenant_id, oa_flow = flow, oa_state = state, oa_code_challenge = Some challenge,
            oa_code_verifier_hash = Some (hash_secret verifier), oa_redirect_uri = redirect_uri, oa_scope = scope, oa_nonce = Some nonce,
            oa_status = ''pending'', oa_metadata = dict_set ''codeVerifier'' (JStr verifier) metadata, oa_expires_at = expires_in rt 600,
            oa_completed_at = None\<rparr>
      in and_then (insert_oauth row con) (\<lambda>_ con.
        (Inr [(''id'', JStr session_id), (''tenantId'', JStr tenant_id), (''flow'', JStr flow), (''state'', JStr state), (''nonce'', JStr nonce),
           (''codeVerifier'', JStr verifier), (''codeChallenge'', JStr challenge), (''redirectUri'', JStr redirect_uri), (''scope'', JStr scope),
           (''expiresIn'', JInt 600)], commit con))))"

definition update_oauth :: "string \<Rightarrow> (oauth_row \<Rightarrow> oauth_row) \<Rightarrow> conn \<Rightarrow> conn" where
  "update_oauth i f con = with_db (\<lambda>d. d\<lparr>oauth_sessions := update_where (\<lambda>r. oa_id r = i) f (oauth_sessions d)\<rparr>) con"

definition oauth_by_state :: "string \<Rightarrow> conn \<Rightarrow> oauth_row option" where
  "oauth_by_state state con = find (\<lambda>r. oa_state r = state) (oauth_sessions (db con))"

definition validate_oauth_callback ::
  "runtime \<Rightarrow> string \<Rightarrow> string option \<Rightarrow> string option \<Rightarrow> conn \<Rightarrow> (conn, payload) outcome" where
  "validate_oauth_callback rt state code error con =
     (case oauth_by_state state con of
        None \<Rightarrow> (Inl (ValueError ''OAuth state was not found.''), con)
      | Some row \<Rightarrow>
          if oa_status row \<noteq> ''pending'' then (Inl (ValueError ''OAuth session is not pending.''), con)
          else if oa_expires_at row \<le> utc_now rt then
            (Inl (ValueError ''OAuth session expired.''), commit (update_oauth (oa_id row) (\<lambda>r. r\<lparr>oa_status := ''expired''\<rparr>) con))
          else
            let status = (if truthy error then ''failed'' else ''callback_received'');
                metadata = dict_set ''codeReceived'' (JBool (truthy code)) (dict_set ''callbackError'' (json_opt error) (oa_metadata row));
                con = update_oauth (oa_id row) (\<lambda>r. r\<lparr>oa_status := status, oa_completed_at := Some (sql_now rt), oa_metadata := metadata\<rparr>) con
            in (Inr [(''id'', JStr (oa_id row)), (''tenantId'', JStr (oa_tenant row)), (''state'', JStr state), (''status'', JStr status),
                 (''codeReceived'', JBool (truthy code)), (''tokenExchange'', JStr ''not_performed_by_callback'')], commit con))"

definition sanitize_claims :: "payload \<Rightarrow> payload" where
  "sanitize_claims claims = filter (\<lambda>(k, _). k \<in> {''aud'', ''iss'', ''tid'', ''oid'', ''name'', ''preferred_username'', ''upn'', ''email'',
     ''roles'', ''groups''}) claims"

text \<open>What both completions do once the principal is known: provision it, mint a session, store the tokens
  for delivery and write the audit row.\<close>

definition complete_session ::
  "runtime \<Rightarrow> string \<Rightarrow> string \<Rightarrow> oauth_row \<Rightarrow> principal \<Rightarrow> (minted \<Rightarrow> payload) \<Rightarrow> conn \<Rightarrow> (conn, minted) outcome" where
  "complete_session rt source event row p extra con0 =
     and_then (ensure_identity_for_principal rt p con0) (\<lambda>_ con.
     and_then (mint_capmesh_token rt p None [(''source'', JStr source), (''oauthSessionId'', JStr (oa_id row))] con) (\<lambda>token con.
       let metadata = dict_merge (filter (\<lambda>(k, _). k \<noteq> ''codeVerifier'') (oa_metadata row)) (extra token);
           con = update_oauth (oa_id row) (\<lambda>r. r\<lparr>oa_status := ''completed'', oa_completed_at := Some (sql_now rt), oa_metadata := metadata\<rparr>) con;
           con = snd (audit_event rt event (p_subject p) (Some (oa_id row)) (Some ''login'') (Some ''allow'') None
             [(''capmeshSessionId'', JStr (mt_session_id token))] (oa_tenant row) ''user'' con)
       in (Inr token, commit con)))"

definition session_tokens :: "runtime \<Rightarrow> minted \<Rightarrow> payload" where
  "session_tokens rt token = [(''capmeshSessionId'', JStr (mt_session_id token)), (''capmeshBearerToken'', JStr (mt_token token)),
     (''capmeshTokenExpiresAt'', JStr (mt_expires_at token))]"

definition completion :: "oauth_row \<Rightarrow> principal \<Rightarrow> minted \<Rightarrow> bool \<Rightarrow> payload" where
  "completion row p token with_bearer = [(''id'', JStr (oa_id row)), (''tenantId'', JStr (oa_tenant row)), (''status'', JStr ''completed''),
     (''principal'', principal_to_dict p),
     (''capmeshSession'', JObj ([(''sessionId'', JStr (mt_session_id token)), (''tokenType'', JStr ''Bearer''),
        (''expiresAt'', JStr (mt_expires_at token))] @ (if with_bearer then [(''bearerToken'', JStr (mt_token token))] else [])))]"

definition oauth_session_status ::
  "runtime \<Rightarrow> string \<Rightarrow> bool \<Rightarrow> conn \<Rightarrow> (conn, payload) outcome" where
  "oauth_session_status rt session_id consume_tokens con =
     (case find (\<lambda>r. oa_id r = session_id \<or> oa_state r = session_id) (oauth_sessions (db con)) of
        None \<Rightarrow> (Inl (ValueError ''OAuth session not found.''), con)
      | Some row \<Rightarrow>
          let m = oa_metadata row;
              base = [(''id'', JStr (oa_id row)), (''tenantId'', JStr (oa_tenant row)), (''flow'', JStr (oa_flow row)),
                (''status'', JStr (oa_status row)), (''expiresAt'', JStr (oa_expires_at row)), (''completedAt'', json_opt (oa_completed_at row)),
                (''principal'', case map_of m ''claims'' of None \<Rightarrow> JObj [] | Some v \<Rightarrow> v),
                (''capmeshSession'', if json_truthy (pget m ''capmeshSessionId'')
                   then JObj [(''sessionId'', pget m ''capmeshSessionId''), (''expiresAt'', pget m ''capmeshTokenExpiresAt'')] else JNull)];
              deadline = pget m ''tokenDeliveryExpiresAt'';
              expired = (json_truthy deadline \<and> py_str deadline \<le> utc_now rt);
              delivered = JBool (json_truthy (pget m ''m365RefreshToken''));
              tokens = (if expired
                then [(''bearerToken'', JNull), (''m365RefreshToken'', JNull), (''tokenDeliveryExpired'', JBool True)]
                else [(''bearerToken'', pget m ''capmeshBearerToken''), (''m365RefreshToken'', pget m ''m365RefreshToken''),
                  (''refreshTokenDelivered'', delivered)]);
              purged = dict_set ''m365RefreshToken'' JNull (dict_set ''capmeshBearerToken'' JNull m);
              purged = (if expired then purged else dict_set ''refreshTokenDelivered'' delivered purged)
          in if consume_tokens \<and> oa_status row = ''completed''
             then (Inr (base @ tokens), commit (update_oauth (oa_id row) (\<lambda>r. r\<lparr>oa_metadata := purged\<rparr>) con))
             else (Inr base, con))"

section \<open>Google\<close>

definition google_allowed_emails :: "runtime \<Rightarrow> string list" where
  "google_allowed_emails rt = ''michel.d.paradis@gmail.com'' # filter (\<lambda>e. e \<noteq> [])
     (map (\<lambda>item. py_lower (py_strip item)) (split_on (CHR '','') (env_or rt ''CAPMESH_GOOGLE_ALLOWED_EMAILS'' [])))"

definition email_is_allowed :: "runtime \<Rightarrow> string \<Rightarrow> string option \<Rightarrow> bool" where
  "email_is_allowed rt email hosted_domain =
     (let normal = py_lower (py_strip email) in
      if normal = [] then False
      else if normal \<in> set (google_allowed_emails rt) then True
      else endswith normal (''@'' @ CORPORATE_EMAIL_DOMAIN rt)
        \<and> py_lower (py_strip (or_else hosted_domain [])) = CORPORATE_EMAIL_DOMAIN rt)"

definition signed_in :: "string \<Rightarrow> string \<Rightarrow> string \<Rightarrow> json \<Rightarrow> string option \<Rightarrow> string list \<Rightarrow> string list \<Rightarrow> string list \<Rightarrow> principal" where
  "signed_in subject tenant_id identity name email groups roles scopes = \<lparr>p_subject = subject, p_tenant_id = tenant_id,
     p_identity_id = Some identity, p_email = email, p_display_name = opt_text name, p_app_id = None, p_groups = groups,
     p_roles = roles, p_scopes = scopes, p_authenticated = True, p_disabled = False, p_step_up_authenticated = False\<rparr>"

definition MEMBER_SCOPES :: "string list" where
  "MEMBER_SCOPES = [''cap:search'', ''cap:load'', ''cap:call'', ''cap:delegate'', ''cap:report'']"

definition principal_from_google_claims :: "runtime \<Rightarrow> payload \<Rightarrow> string \<Rightarrow> py_error + principal" where
  "principal_from_google_claims rt claims tenant_id =
     (let email = py_lower (py_strip (str_or claims ''email'' [])) in
      if email = [] \<or> CHR ''@'' \<notin> set email then Inl (ValueError ''Google claims did not contain a usable verified email.'')
      else Inr (signed_in email tenant_id (corporate_identity_id rt tenant_id email (str_or claims ''sub'' email))
        (pget claims ''name'') (Some email) [] [''member''] MEMBER_SCOPES))"

definition complete_google_session :: "runtime \<Rightarrow> string \<Rightarrow> payload \<Rightarrow> conn \<Rightarrow> (conn, payload) outcome" where
  "complete_google_session rt state claims con =
     (case oauth_by_state state con of
        None \<Rightarrow> (Inl (ValueError ''OAuth state was not found.''), con)
      | Some row \<Rightarrow>
          and_then (lift_result (principal_from_google_claims rt claims (oa_tenant row)) con) (\<lambda>p con.
          and_then (complete_session rt ''google'' ''auth.google.completed'' row p
            (\<lambda>token. [(''google'', JBool True), (''claims'', JObj (sanitize_claims claims))] @ session_tokens rt token
               @ [(''tokenDeliveryExpiresAt'', JStr (expires_in rt (TOKEN_DELIVERY_TTL rt)))]) con) (\<lambda>token con.
            (Inr (completion row p token True), con))))"

section \<open>Microsoft\<close>

text \<open>The payload part of a token decoded (None for the exceptions that the code turns into a ValueError), and
  the verification under the keys of the issuer: the message of the exception, or the claims.\<close>

record jwt_ops =
  jwt_payload :: "string \<Rightarrow> json option"
  jwt_verify :: "string \<Rightarrow> string \<Rightarrow> string option \<Rightarrow> string + json"
  float_text :: "string \<Rightarrow> rat option"
  float_repr :: "rat \<Rightarrow> string"

definition decode_unverified_jwt :: "jwt_ops \<Rightarrow> string \<Rightarrow> py_error + payload" where
  "decode_unverified_jwt ops token =
     (case split_on (CHR ''.'') token of
        _ # part # _ \<Rightarrow> (case jwt_payload ops part of
            None \<Rightarrow> Inl (ValueError ''Could not decode id_token claims.'')
          | Some (JObj kvs) \<Rightarrow> Inr kvs
          | Some _ \<Rightarrow> Inl (TypeErr ''id_token payload must decode to an object.''))
      | _ \<Rightarrow> Inl (ValueError ''Expected a JWT id_token in the token response.''))"

definition trusted_ms_issuers :: "string \<Rightarrow> string list" where
  "trusted_ms_issuers tid = [''https://login.microsoftonline.com/'' @ tid @ ''/v2.0'', ''https://sts.windows.net/'' @ tid @ ''/'']"

definition hex_text :: "nat \<Rightarrow> string \<Rightarrow> bool" where
  "hex_text n s = (length s = n \<and> list_all (\<lambda>c. ascii_digit c \<or> lower_char c \<in> set ''abcdef'') s)"

definition guid :: "string \<Rightarrow> bool" where
  "guid s = (case split_on (CHR ''-'') s of [a, b, c, d, e] \<Rightarrow> hex_text 8 a \<and> hex_text 4 b \<and> hex_text 4 c \<and> hex_text 4 d \<and> hex_text 12 e
     | _ \<Rightarrow> False)"

definition oauth_verify_signature_enabled :: "runtime \<Rightarrow> bool" where
  "oauth_verify_signature_enabled rt = (env_or rt ''CAPMESH_OAUTH_VERIFY_SIGNATURE'' ''1'' \<notin> {''0'', ''false'', ''False'', []})"

definition verify_id_token :: "runtime \<Rightarrow> jwt_ops \<Rightarrow> string \<Rightarrow> string option \<Rightarrow> py_error + payload" where
  "verify_id_token rt ops token client_id =
     (if \<not> oauth_verify_signature_enabled rt then
        if production_environment rt then Inl (RuntimeErr ''CAPMESH_OAUTH_VERIFY_SIGNATURE cannot be disabled in production.'')
        else decode_unverified_jwt ops token
      else bind_sum (decode_unverified_jwt ops token) (\<lambda>unverified.
        let tid = str_or unverified ''tid'' []; expected_tid = env_or rt ''CAPMESH_ENTRA_TENANT_ID'' [];
            issuer = str_or unverified ''iss'' [] in
        if \<not> guid tid then Inl (ValueError ''id_token tenant id is missing or malformed.'')
        else if production_environment rt \<and> expected_tid = [] then
          Inl (RuntimeErr ''CAPMESH_ENTRA_TENANT_ID is required in production.'')
        else if expected_tid \<noteq> [] \<and> py_lower tid \<noteq> py_lower expected_tid then
          Inl (ValueError ''id_token tenant does not match the configured Entra tenant.'')
        else if issuer \<notin> set (trusted_ms_issuers tid) then
          Inl (ValueError (''id_token issuer '' @ [CHR 0x27] @ issuer @ [CHR 0x27] @ '' is not a trusted Microsoft issuer.''))
        else (case jwt_verify ops token issuer (if truthy client_id then client_id else None) of
            Inl e \<Rightarrow> Inl (ValueError (''id_token signature verification failed: '' @ e))
          | Inr (JObj claims) \<Rightarrow> Inr claims
          | Inr _ \<Rightarrow> Inl (TypeErr ''id_token payload must decode to an object.''))))"

definition DEFAULT_CLOCK_SKEW_SECONDS :: int where
  "DEFAULT_CLOCK_SKEW_SECONDS = 30"

text \<open>\<^verbatim>\<open>float(value)\<close>; None for a \<^verbatim>\<open>ValueError\<close> or \<^verbatim>\<open>TypeError\<close>.\<close>

definition py_float :: "jwt_ops \<Rightarrow> json \<Rightarrow> rat option" where
  "py_float ops v = (case v of JInt i \<Rightarrow> Some (of_int i) | JBool b \<Rightarrow> Some (if b then 1 else 0) | JStr s \<Rightarrow> float_text ops s | _ \<Rightarrow> None)"

definition claim_list :: "json \<Rightarrow> py_error + json list" where
  "claim_list aud = (case aud of JStr s \<Rightarrow> Inr [JStr s] | v \<Rightarrow> iterate v)"

definition validate_token_claims ::
  "jwt_ops \<Rightarrow> payload \<Rightarrow> string list option \<Rightarrow> string option \<Rightarrow> int \<Rightarrow> rat \<Rightarrow> py_error + (bool \<times> string)" where
  "validate_token_claims ops claims expected_audience expected_issuer skew now =
     (let exp = pget claims ''exp''; nbf = pget claims ''nbf'';
          iss = py_str (case map_of claims ''iss'' of None \<Rightarrow> JStr [] | Some v \<Rightarrow> v); aud = pget claims ''aud'';
          fail = (\<lambda>m. Inr (False, m));
          audience = (case expected_audience of
              None \<Rightarrow> Inr (True, [])
            | Some expected \<Rightarrow>
                if aud = JNull then fail ''Token missing aud claim''
                else bind_sum (claim_list aud) (\<lambda>auds.
                  if list_ex (\<lambda>a. a \<in> JStr ` set expected) auds then Inr (True, [])
                  else fail (''Token audience mismatch: expected '' @ py_repr (JList (map JStr expected)) @ '', got '' @
                    py_str (case aud of JStr s \<Rightarrow> JList [aud] | _ \<Rightarrow> aud))));
          issuer = (case expected_issuer of
              Some e \<Rightarrow> if iss \<noteq> e then fail (''Token issuer mismatch: expected '' @ e @ '', got '' @ iss) else audience
            | None \<Rightarrow> audience);
          not_before = (if nbf = JNull then issuer else case py_float ops nbf of
              None \<Rightarrow> fail ''Invalid nbf claim''
            | Some t \<Rightarrow> if now < t - of_int skew then fail (''Token not yet valid (nbf='' @ float_repr ops t @ '')'') else issuer)
      in if exp = JNull then not_before else case py_float ops exp of
           None \<Rightarrow> fail ''Invalid exp claim''
         | Some t \<Rightarrow> if t + of_int skew < now then fail (''Token expired at '' @ float_repr ops t) else not_before)"

definition validate_resource_indicator :: "payload \<Rightarrow> string \<Rightarrow> string list \<Rightarrow> py_error + (bool \<times> string)" where
  "validate_resource_indicator claims resource_url allowed_resources =
     (let aud = pget claims ''aud''; resources = resource_url # allowed_resources in
      if aud = JNull then Inr (False, ''Token missing aud (resource indicator)'')
      else bind_sum (claim_list aud) (\<lambda>auds.
        if list_ex (\<lambda>a. a \<in> JStr ` set resources) auds then Inr (True, [])
        else Inr (False, ''Resource indicator does not match: expected one of '' @ py_repr (JList (map JStr resources)) @ '', got '' @
          py_str (case aud of JStr s \<Rightarrow> JList [aud] | _ \<Rightarrow> aud))))"

definition validator_validate ::
  "jwt_ops \<Rightarrow> string option \<Rightarrow> string list \<Rightarrow> payload \<Rightarrow> string option \<Rightarrow> rat \<Rightarrow> py_error + (bool \<times> string)" where
  "validator_validate ops issuer audiences claims resource_url now =
     bind_sum (validate_token_claims ops claims (if audiences = [] then None else Some audiences) issuer DEFAULT_CLOCK_SKEW_SECONDS now)
       (\<lambda>(valid, message).
        if \<not> valid then Inr (False, message)
        else if truthy resource_url then validate_resource_indicator claims (the resource_url) []
        else Inr (True, []))"

definition principal_from_entra_claims :: "runtime \<Rightarrow> payload \<Rightarrow> string \<Rightarrow> py_error + principal" where
  "principal_from_entra_claims rt claims tenant_id =
     (let email = py_strip (py_str (foldr json_or (map (pget claims) [''preferred_username'', ''upn'', ''email'', ''unique_name'', ''oid'']) (JStr [])));
          listed = (\<lambda>k. case pget claims k of JList xs \<Rightarrow> map py_str xs | _ \<Rightarrow> []);
          known = filter (\<lambda>role. map_of ROLE_RIGHTS role \<noteq> None) (listed ''roles'');
          roles = (if known = [] then [''member''] else known);
          scopes = (if list_ex (\<lambda>role. role \<in> {''platform_admin'', ''org_admin''}) roles then [''cap:*''] else MEMBER_SCOPES)
      in if email = [] then Inl (ValueError ''Token claims did not contain a usable subject.'')
         else Inr (signed_in (py_lower email) tenant_id (corporate_identity_id rt tenant_id email (str_or claims ''oid'' (py_lower email)))
           (pget claims ''name'') (if CHR ''@'' \<in> set email then Some (py_lower email) else None) (listed ''groups'') roles scopes))"

text \<open>The PKCE check of the completion. \<^verbatim>\<open>"code_challenge" in row\<close> asks whether some column of the row has this value,
  and \<^verbatim>\<open>validate_pkce\<close> returns a Boolean, whose unpacking into two variables raises a \<^verbatim>\<open>TypeError\<close>; the handler
  passes a \<^verbatim>\<open>ValueError\<close> on and swallows the rest.\<close>

definition oauth_columns :: "oauth_row \<Rightarrow> string list" where
  "oauth_columns r = [oa_id r, oa_tenant r, oa_flow r, oa_state r, oa_redirect_uri r, oa_scope r, oa_status r, oa_expires_at r,
     json_dumps (JObj (oa_metadata r))] @
     List.map_filter id [oa_code_challenge r, oa_code_verifier_hash r, oa_nonce r, oa_completed_at r]"

definition pkce_check :: "oauth_row \<Rightarrow> py_error + unit" where
  "pkce_check row =
     (let challenge = (if ''code_challenge'' \<in> set (oauth_columns row) then py_str (json_opt (oa_code_challenge row)) else []);
          verifier = str_or (oa_metadata row) ''codeVerifier'' [] in
      if challenge \<noteq> [] \<and> verifier \<noteq> [] then
        (case validate_pkce verifier challenge CODE_CHALLENGE_METHOD of
           Inl (ValueError m) \<Rightarrow> Inl (ValueError m)
         | _ \<Rightarrow> Inr ())
      else Inr ())"

text \<open>The checks of the claims against the flow.\<close>

definition check_claims :: "runtime \<Rightarrow> jwt_ops \<Rightarrow> oauth_row \<Rightarrow> payload \<Rightarrow> string option \<Rightarrow> py_error + unit" where
  "check_claims rt ops row claims client_id =
     (let tid = str_or claims ''tid'' []; issuer = (case map_of claims ''iss'' of None \<Rightarrow> JStr [] | Some v \<Rightarrow> v);
          quoted = (\<lambda>t. [CHR 0x27] @ t @ [CHR 0x27]); now = int (now_seconds rt) in
      if tid = [] then Inl (ValueError ''ID token did not contain a tenant id.'')
      else if is_dict issuer \<or> (\<exists>xs. issuer = JList xs) then Inl (TypeErr ''unhashable type'')
      else if issuer \<notin> JStr ` set (trusted_ms_issuers tid) then
        Inl (ValueError (''ID token issuer '' @ quoted (py_str issuer) @ '' did not match the resolved tenant issuer ''
          @ quoted (''https://login.microsoftonline.com/'' @ tid @ ''/v2.0'') @ ''.''))
      else if truthy client_id \<and> pget claims ''aud'' \<noteq> json_opt client_id then
        Inl (ValueError ''ID token audience did not match the configured client id.'')
      else if truthy (oa_nonce row) \<and> json_truthy (pget claims ''nonce'') \<and> pget claims ''nonce'' \<noteq> json_opt (oa_nonce row) then
        Inl (ValueError ''ID token nonce did not match the OAuth session.'')
      else bind_sum (pkce_check row) (\<lambda>_.
        bind_sum (to_int (json_or (pget claims ''exp'') (JInt 0))) (\<lambda>exp.
          if exp \<noteq> 0 \<and> exp \<le> now then Inl (ValueError ''ID token is expired.'')
          else bind_sum (validator_validate ops (Some (py_str issuer)) (if truthy client_id then [the client_id] else []) claims None (of_int now))
            (\<lambda>(valid, message). if valid then Inr () else Inl (ValueError (''ID token claim validation failed: '' @ message))))))"

definition complete_oauth_session ::
  "runtime \<Rightarrow> jwt_ops \<Rightarrow> string \<Rightarrow> payload \<Rightarrow> string option \<Rightarrow> conn \<Rightarrow> (conn, payload) outcome" where
  "complete_oauth_session rt ops state token_response client_id con =
     (case oauth_by_state state con of
        None \<Rightarrow> (Inl (ValueError ''OAuth state was not found.''), con)
      | Some row \<Rightarrow>
          and_then (lift_result (verify_id_token rt ops (str_or token_response ''id_token'' []) client_id) con) (\<lambda>claims con.
          and_then (lift_result (check_claims rt ops row claims client_id) con) (\<lambda>_ con.
          and_then (lift_result (principal_from_entra_claims rt claims (oa_tenant row)) con) (\<lambda>p con.
          and_then (complete_session rt ''m365'' ''auth.m365.completed'' row p
            (\<lambda>token. [(''m365'', JBool True), (''claims'', JObj (sanitize_claims claims))] @ session_tokens rt token
               @ [(''refreshTokenDelivered'', JBool False), (''tokenDeliveryExpiresAt'', JStr (expires_in rt (TOKEN_DELIVERY_TTL rt)))]
               @ (if json_truthy (pget token_response ''refresh_token'') then [(''m365RefreshToken'', pget token_response ''refresh_token'')] else []))
            con) (\<lambda>token con. (Inr (completion row p token False), con))))))"

section \<open>Frames\<close>

text \<open>Provisioning touches neither the sessions nor the flows.\<close>

interpretation sign_in_frame: provisioning_invariant rt "\<lambda>d. capmesh_sessions d = ss \<and> oauth_sessions d = os" for rt ss os
  by unfold_locales
    (auto simp: provisioning_stmt_def insert_tenant_or_ignore_def update_tenant_def insert_identity_or_ignore_def
      insert_store_or_ignore_def insert_namespace_or_ignore_def insert_org_or_ignore_def upsert_identity_def split: if_splits option.splits)

lemma ensure_identity_frame:
  assumes "ensure_identity_for_principal rt p con = (r, con')"
  shows "capmesh_sessions (db con') = capmesh_sessions (db con)" "oauth_sessions (db con') = oauth_sessions (db con)"
  using sign_in_frame.ensure_identity_keeps [of con "capmesh_sessions (db con)" "oauth_sessions (db con)" rt p] assms by simp_all

definition new_session :: "runtime \<Rightarrow> principal \<Rightarrow> int option \<Rightarrow> payload \<Rightarrow> string \<Rightarrow> minted \<Rightarrow> session_row" where
  "new_session rt p ttl_seconds metadata identity t = \<lparr>se_id = mt_session_id t, se_tenant = tenant_of rt p,
     se_token_hash = hash_secret (mt_token t), se_identity = Some identity, se_subject = p_subject p,
     se_principal = session_principal p identity, se_scopes = p_scopes p, se_issued_at = sql_now rt,
     se_expires_at = expires_in rt (case ttl_seconds of None \<Rightarrow> SESSION_TTL rt | Some n \<Rightarrow> n), se_revoked_at = None,
     se_metadata = metadata\<rparr>"

lemma insert_session_Inl: "insert_session row con = (Inl e, con') \<Longrightarrow> con' = con"
  by (auto simp: insert_session_def split: if_splits)

lemma insert_session_Inr:
  "insert_session row con = (Inr x, con') \<Longrightarrow> se_token_hash row \<notin> se_token_hash ` set (capmesh_sessions (db con))
     \<and> capmesh_sessions (db con') = capmesh_sessions (db con) @ [row] \<and> oauth_sessions (db con') = oauth_sessions (db con)"
  by (auto simp: insert_session_def list_ex_iff split: if_splits)

text \<open>Minting adds one session under an unused hash, or nothing.\<close>

lemma mint_sessions:
  assumes "mint_capmesh_token rt p ttl m con = (res, con')"
  shows "oauth_sessions (db con') = oauth_sessions (db con)"
    and "case res of Inl _ \<Rightarrow> capmesh_sessions (db con') = capmesh_sessions (db con)
      | Inr t \<Rightarrow> hash_secret (mt_token t) \<notin> se_token_hash ` set (capmesh_sessions (db con))
          \<and> (\<exists>identity. capmesh_sessions (db con') = capmesh_sessions (db con) @ [new_session rt p ttl m identity t])"
proof -
  have "oauth_sessions (db con') = oauth_sessions (db con) \<and> (case res of Inl _ \<Rightarrow> capmesh_sessions (db con') = capmesh_sessions (db con)
      | Inr t \<Rightarrow> hash_secret (mt_token t) \<notin> se_token_hash ` set (capmesh_sessions (db con))
          \<and> (\<exists>identity. capmesh_sessions (db con') = capmesh_sessions (db con) @ [new_session rt p ttl m identity t]))"
    using assms unfolding mint_capmesh_token_def
  proof (cases rule: and_then_outcome)
    case (error e)
    with ensure_identity_frame [OF error(1)] show ?thesis by simp
  next
    case (ok identity con1)
    note f = ensure_identity_frame [OF ok(1)]
    from ok(2) show ?thesis unfolding new_secret_def new_id_def Let_def prod.case
    proof (cases rule: and_then_outcome)
      case (error e)
      with insert_session_Inl [OF error(1)] f show ?thesis by simp
    next
      case (ok x con2)
      from insert_session_Inr [OF ok(1)] ok(2) f show ?thesis by (auto simp: new_session_def)
    qed
  qed
  then show "oauth_sessions (db con') = oauth_sessions (db con)"
    "case res of Inl _ \<Rightarrow> capmesh_sessions (db con') = capmesh_sessions (db con)
      | Inr t \<Rightarrow> hash_secret (mt_token t) \<notin> se_token_hash ` set (capmesh_sessions (db con))
          \<and> (\<exists>identity. capmesh_sessions (db con') = capmesh_sessions (db con) @ [new_session rt p ttl m identity t])" by blast+
qed

lemma with_mesh_groups_fields:
  "with_mesh_groups rt p con = (q, con') \<Longrightarrow> q = p\<lparr>p_groups := p_groups q\<rparr> \<and> set (p_groups p) \<subseteq> set (p_groups q)"
  by (auto simp: with_mesh_groups_def Let_def split: if_splits prod.splits)

section \<open>Properties\<close>

lemma texts_of_strings [simp]: "texts_or (JList (map JStr xs)) d = Inr xs"
proof -
  have "map py_str (map JStr xs) = xs" by (induction xs) (auto simp: py_str_def)
  then show ?thesis by (simp add: texts_or_def bind_sum_def iterate_def)
qed

lemma session_dict_scopes: "pget (session_dict s) ''scopes'' = JList (map JStr (se_scopes s))"
  "map_of (session_dict s) ''authenticated'' = Some (JBool True)" "session_dict s \<noteq> []"
proof -
  show "pget (session_dict s) ''scopes'' = JList (map JStr (se_scopes s))" and a: "map_of (session_dict s) ''authenticated'' = Some (JBool True)"
    by (simp_all add: session_dict_def pget_def map_of_dict_set)
  from a show "session_dict s \<noteq> []" by auto
qed

lemma scopes_of_session:
  assumes "principal_from_bearer rt (Some token) con = (Inr (Some p), con')"
  shows "\<exists>s. find (live_session rt token) (capmesh_sessions (db con)) = Some s \<and> p_scopes p = se_scopes s \<and> p_authenticated p"
proof -
  from assms obtain s q where s: "find (live_session rt token) (capmesh_sessions (db con)) = Some s"
    and q: "principal_from_dict rt (session_dict s) = Inr q" and p: "with_mesh_groups rt q con = (p, con')"
    by (auto simp: principal_from_bearer_def split: if_splits option.splits sum.splits prod.splits)
  have "p_scopes q = se_scopes s \<and> p_authenticated q"
    using q session_dict_scopes [of s]
    by (auto simp: principal_from_dict_def Let_def bind_sum_Inr json_truthy_def split: if_splits)
  then have "p_scopes p = se_scopes s \<and> p_authenticated p" using with_mesh_groups_fields [OF p]
    by (metis (no_types, lifting) principal.select_convs(9,10) principal.surjective principal.update_convs(7))
  with s show ?thesis by blast
qed

text \<open>A bearer token carries what its session grants and no more: whatever the stored principal says,
  principal_from_bearer answers with a principal only for a session with the hash of the token that is
  neither revoked nor expired, and the scopes of that principal are the scopes of the session.\<close>

theorem session_scopes_are_authoritative:
  assumes "principal_from_bearer rt (Some token) con = (Inr (Some p), con')"
  shows "\<exists>s \<in> set (capmesh_sessions (db con)). se_token_hash s = hash_secret token \<and> se_revoked_at s = None
    \<and> utc_now rt < se_expires_at s \<and> p_scopes p = se_scopes s \<and> p_authenticated p"
proof -
  from scopes_of_session [OF assms] obtain s where s: "find (live_session rt token) (capmesh_sessions (db con)) = Some s"
    "p_scopes p = se_scopes s" "p_authenticated p" by blast
  with find_SomeD [OF s(1)] show ?thesis by (auto simp: live_session_def)
qed

lemma json_text_or: "s \<noteq> [] \<Longrightarrow> json_or (JStr s) v = JStr s" "json_or JNull v = v"
  by (simp_all add: json_or_def json_truthy_def)

text \<open>What a session says about its principal survives the way through the dictionary.\<close>

lemma session_principal_roundtrip:
  assumes "se_principal s = session_principal p identity" "se_identity s = Some identity" "identity \<noteq> []"
    "se_tenant s \<noteq> []" "p_subject p \<noteq> []"
  shows "\<exists>q. principal_from_dict rt (session_dict s) = Inr q \<and> p_subject q = p_subject p \<and> p_tenant_id q = se_tenant s
    \<and> p_identity_id q = Some identity \<and> p_roles q = p_roles p \<and> p_groups q = p_groups p \<and> p_disabled q = p_disabled p"
proof -
  let ?d = "session_dict s"
  have get: "pget ?d ''subject'' = JStr (p_subject p)" "pget ?d ''sub'' = JNull" "pget ?d ''tenant_id'' = JNull"
    "pget ?d ''tenantId'' = JStr (se_tenant s)" "pget ?d ''identity_id'' = JNull" "pget ?d ''identityId'' = JStr identity"
    "pget ?d ''roles'' = JList (map JStr (p_roles p))" "pget ?d ''groups'' = JList (map JStr (p_groups p))"
    "pget ?d ''disabled'' = JBool (p_disabled p)"
    using assms(1-3) by (simp_all add: session_dict_def session_principal_def principal_to_dict_def pget_def map_of_dict_set truthy_def json_opt_def)
  show ?thesis
    using assms(3-5) session_dict_scopes(3) [of s]
    by (simp add: principal_from_dict_def Let_def get session_dict_scopes(1) either_key_def json_text_or bind_sum_def py_str_def
        opt_text_def json_truthy_def)
qed

lemma mint_identity_nonempty:
  assumes "mint_capmesh_token rt p ttl m con = (Inr t, con')"
  shows "\<exists>identity. capmesh_sessions (db con') = capmesh_sessions (db con) @ [new_session rt p ttl m identity t]
    \<and> identity = provisioned_identity rt p"
proof -
  have i: "ensure_identity_for_principal rt p con = (Inr i, c) \<Longrightarrow> i = provisioned_identity rt p" for i c
    by (auto simp: ensure_identity_for_principal_def write_identity_def provision_stores_def Let_def
        split: option.splits if_splits prod.splits sum.splits)
  from assms obtain identity con1 where e: "ensure_identity_for_principal rt p con = (Inr identity, con1)"
    unfolding mint_capmesh_token_def and_then_def by (auto split: prod.splits sum.splits)
  with mint_sessions(2) [OF assms] assms i [OF e] show ?thesis
    by (auto simp: mint_capmesh_token_def and_then_def new_secret_def new_id_def Let_def insert_session_def new_session_def
        ensure_identity_frame(1) [OF e] split: if_splits prod.splits sum.splits)
qed

text \<open>C28. A token is good until it expires: mint_capmesh_token returns a bearer token for which
  principal_from_bearer, asked at any later time, answers with the subject, tenant, roles and scopes of
  the principal exactly while the time to live has not passed, and with None from then on.\<close>

theorem token_lives_until_expiry:
  assumes mint: "mint_capmesh_token rt p (Some ttl) m con = (Inr t, con1)"
    and p: "p_subject p \<noteq> []" "tenant_of rt p \<noteq> []"
    and years: "cv_year (civil_of_seconds (now_seconds rt')) \<le> 9999"
      "cv_year (civil_of_seconds (nat (int (now_seconds rt) + ttl))) \<le> 9999"
  shows "if int (now_seconds rt') < int (now_seconds rt) + ttl
    then \<exists>q con2. principal_from_bearer rt' (Some (mt_token t)) con1 = (Inr (Some q), con2) \<and> p_subject q = p_subject p
      \<and> p_tenant_id q = tenant_of rt p \<and> p_roles q = p_roles p \<and> p_scopes q = p_scopes p \<and> p_authenticated q
    else principal_from_bearer rt' (Some (mt_token t)) con1 = (Inr None, con1)"
proof -
  let ?i = "provisioned_identity rt p"
  let ?s = "new_session rt p (Some ttl) m ?i t"
  have t: "capmesh_sessions (db con1) = capmesh_sessions (db con) @ [?s]" using mint_identity_nonempty [OF mint] by blast
  have "hash_secret (mt_token t) \<notin> se_token_hash ` set (capmesh_sessions (db con))" using mint_sessions(2) [OF mint] by simp
  then have "find (live_session rt' (mt_token t)) (capmesh_sessions (db con)) = None"
    by (force simp: find_None_iff live_session_def)
  then have row: "find (live_session rt' (mt_token t)) (capmesh_sessions (db con1)) = (if utc_now rt' < se_expires_at ?s then Some ?s else None)"
    by (simp add: t find_append live_session_def new_session_def)
  have "utc_now rt' < se_expires_at ?s \<longleftrightarrow> now_seconds rt' < nat (int (now_seconds rt) + ttl)"
    using utc_text_le_iff [OF years(2,1)] by (simp add: new_session_def utc_now_def expires_in_def linorder_not_le [symmetric])
  then have live: "utc_now rt' < se_expires_at ?s \<longleftrightarrow> int (now_seconds rt') < int (now_seconds rt) + ttl" by linarith
  have tok: "truthy (Some (mt_token t))"
    using mint by (auto simp: mint_capmesh_token_def and_then_def new_secret_def new_id_def Let_def truthy_def split: prod.splits sum.splits)
  show ?thesis
  proof (cases "utc_now rt' < se_expires_at ?s")
    case True
    have "?i \<noteq> []" by (simp add: provisioned_identity_def or_else_def stable_id_def split: option.split)
    with p obtain q where q: "principal_from_dict rt' (session_dict ?s) = Inr q" "p_subject q = p_subject p" "p_tenant_id q = tenant_of rt p"
      "p_roles q = p_roles p"
      using session_principal_roundtrip [of ?s p ?i rt'] by (auto simp: new_session_def)
    obtain q2 con2 where q2: "with_mesh_groups rt' q con1 = (q2, con2)" by (cases "with_mesh_groups rt' q con1")
    have run: "principal_from_bearer rt' (Some (mt_token t)) con1 = (Inr (Some q2), con2)"
      using True tok q(1) q2 row by (simp add: principal_from_bearer_def)
    from q with_mesh_groups_fields [OF q2] have "p_subject q2 = p_subject p" "p_tenant_id q2 = tenant_of rt p" "p_roles q2 = p_roles p"
      by (metis (no_types, lifting) principal.select_convs(1,2,8) principal.surjective principal.update_convs(7))+
    moreover have "p_scopes q2 = p_scopes p" "p_authenticated q2"
      using run row True scopes_of_session [of rt' "mt_token t" con1 q2 con2] by (auto simp: new_session_def)
    ultimately show ?thesis using run True live by auto
  next
    case False
    then show ?thesis using tok live row by (simp add: principal_from_bearer_def)
  qed
qed

section \<open>Revocation\<close>

text \<open>The operations of sign-in, and what they may do to the table of sessions: add one under an unused hash, or
  revoke some.\<close>

inductive auth_step :: "conn \<Rightarrow> conn \<Rightarrow> bool" where
  Mint: "auth_step con (snd (mint_capmesh_token rt p ttl m con))"
| Revoke: "auth_step con (snd (revoke_capmesh_session rt p sid token con))"
| Bearer: "auth_step con (snd (principal_from_bearer rt bearer con))"
| Start: "auth_step con (snd (create_oauth_session rt tenant flow uri scope m con))"
| Callback: "auth_step con (snd (validate_oauth_callback rt state code err con))"
| Google: "auth_step con (snd (complete_google_session rt state claims con))"
| Microsoft: "auth_step con (snd (complete_oauth_session rt ops state response client con))"
| Status: "auth_step con (snd (oauth_session_status rt sid consume con))"

inductive session_change :: "session_row list \<Rightarrow> session_row list \<Rightarrow> bool" where
  same: "session_change t t"
| add: "se_token_hash s \<notin> se_token_hash ` set t \<Longrightarrow> session_change t (t @ [s])"
| revoke: "session_change t (update_where hit (\<lambda>s. s\<lparr>se_revoked_at := Some now\<rparr>) t)"

abbreviation sessions :: "conn \<Rightarrow> session_row list" where
  "sessions con \<equiv> capmesh_sessions (db con)"

lemma update_oauth_sessions [simp]:
  "capmesh_sessions (db (update_oauth i f con)) = sessions con"
  "oauth_sessions (db (update_oauth i f con)) = update_where (\<lambda>r. oa_id r = i) f (oauth_sessions (db con))"
  by (simp_all add: update_oauth_def)

lemma mint_change: "session_change (sessions con) (sessions (snd (mint_capmesh_token rt p ttl m con)))"
proof (cases "mint_capmesh_token rt p ttl m con")
  case (Pair res con')
  show ?thesis
  proof (cases res)
    case (Inl e)
    with mint_sessions(2) [OF Pair] show ?thesis by (simp add: Pair same)
  next
    case (Inr t)
    with mint_sessions(2) [OF Pair] obtain i where "sessions con' = sessions con @ [new_session rt p ttl m i t]"
      "hash_secret (mt_token t) \<notin> se_token_hash ` set (sessions con)" by auto
    then show ?thesis by (auto simp: Pair new_session_def intro: add)
  qed
qed

lemma complete_change: "session_change (sessions con) (sessions (snd (complete_session rt src event row p extra con)))"
proof -
  obtain res con' where run: "complete_session rt src event row p extra con = (res, con')"
    by (cases "complete_session rt src event row p extra con")
  from run [unfolded complete_session_def] show ?thesis
  proof (cases rule: and_then_outcome)
    case (error e)
    then show ?thesis using run ensure_identity_frame(1) [OF error(1)] by (simp add: same)
  next
    case (ok i con1)
    let ?m = "[(''source'', JStr src), (''oauthSessionId'', JStr (oa_id row))]"
    have mint: "session_change (sessions con) (sessions (snd (mint_capmesh_token rt p None ?m con1)))"
      using mint_change [of con1 rt p None ?m] by (simp add: ensure_identity_frame(1) [OF ok(1)])
    from ok(2) show ?thesis
    proof (cases rule: and_then_outcome)
      case (error e)
      then show ?thesis using run mint by simp
    next
      case (ok t con2)
      then show ?thesis using run mint by (auto simp: Let_def)
    qed
  qed
qed

lemma complete_then_change:
  "session_change (sessions con) (sessions (snd (and_then (complete_session rt src ev row p x con) (\<lambda>t c. (Inr (f t), c)))))"
  using complete_change [of con rt src ev row p x]
  by (cases "complete_session rt src ev row p x con"; cases "fst (complete_session rt src ev row p x con)") (auto simp: and_then_def)

lemma step_change: "auth_step con con' \<Longrightarrow> session_change (sessions con) (sessions con')"
proof (induction rule: auth_step.induct)
  case (Mint con rt p ttl m)
  show ?case by (rule mint_change)
next
  case (Revoke con rt p sid token)
  show ?case by (auto simp: revoke_capmesh_session_def Let_def case_prod_unfold revoke_where_def intro: revoke)
next
  case (Bearer con rt bearer)
  have "db (snd (with_mesh_groups rt q c)) = db c" for q c
    by (simp add: with_mesh_groups_def resolve_entra_groups_to_mesh_groups_def Let_def)
  then have "sessions (snd (principal_from_bearer rt bearer con)) = sessions con"
    by (auto simp: principal_from_bearer_def case_prod_unfold Let_def split: option.splits sum.splits)
  then show ?case by (simp add: same)
next
  case (Start con rt tenant flow uri scope m)
  have "sessions (snd (create_oauth_session rt tenant flow uri scope m con)) = sessions con"
    by (auto simp: create_oauth_session_def new_secret_def new_id_def Let_def and_then_def lift_result_def insert_oauth_def
        split: sum.splits)
  then show ?case by (simp add: same)
next
  case (Callback con rt state code err)
  have "sessions (snd (validate_oauth_callback rt state code err con)) = sessions con"
    by (auto simp: validate_oauth_callback_def Let_def split: option.splits)
  then show ?case by (simp add: same)
next
  case (Google con rt state claims)
  show ?case
    by (auto simp: complete_google_session_def and_then_lift same
        split: option.splits sum.splits intro: complete_then_change)
next
  case (Microsoft con rt ops state response client)
  show ?case
    by (auto simp: complete_oauth_session_def and_then_lift same
        split: option.splits sum.splits intro: complete_then_change)
next
  case (Status con rt sid consume)
  have "sessions (snd (oauth_session_status rt sid consume con)) = sessions con"
    by (auto simp: oauth_session_status_def Let_def split: option.splits)
  then show ?case by (simp add: same)
qed

definition dead_token :: "string \<Rightarrow> session_row list \<Rightarrow> bool" where
  "dead_token token t \<longleftrightarrow> hash_secret token \<in> set (map se_token_hash t)
     \<and> (\<forall>s \<in> set t. se_token_hash s = hash_secret token \<longrightarrow> se_revoked_at s \<noteq> None)"

lemma hashes_after_revocation: "map se_token_hash (update_where hit (\<lambda>s. s\<lparr>se_revoked_at := x\<rparr>) t) = map se_token_hash t"
  by (simp add: map_update_where_frame)

lemma dead_token_stays: "session_change t t' \<Longrightarrow> dead_token token t \<Longrightarrow> dead_token token t'"
proof (induction rule: session_change.induct)
  case (add s t)
  then have "se_token_hash s \<noteq> hash_secret token" unfolding dead_token_def by auto
  with add show ?case by (auto simp: dead_token_def)
next
  case (revoke t hit now)
  then show ?case unfolding dead_token_def hashes_after_revocation ball_update_where by simp
qed

lemma dead_token_refused: "dead_token token (sessions con) \<Longrightarrow> principal_from_bearer rt (Some token) con = (Inr None, con)"
  by (auto simp: principal_from_bearer_def dead_token_def live_session_def split: option.splits dest!: find_SomeD)

text \<open>The sessions that a revocation marks.\<close>

lemma revocation_sessions:
  "sessions (snd (revoke_capmesh_session rt p session_id token con)) = update_where
     (\<lambda>s. se_tenant s = tenant_of rt p \<and> (if truthy session_id then session_id = Some (se_id s)
        else if truthy token then se_token_hash s = hash_secret (the token)
        else se_subject s = p_subject p \<and> se_revoked_at s = None))
     (\<lambda>s. s\<lparr>se_revoked_at := Some (sql_now rt)\<rparr>) (sessions con)"
  by (auto simp: revoke_capmesh_session_def revoke_where_def Let_def update_where_def)

text \<open>C29. A revoked token stays revoked. revoke_capmesh_session revokes the sessions of the tenant of the
  caller with the given session identifier, else with the given token, else (neither given) all sessions of
  the subject of the caller. When a token has a session and all its sessions are among those, then
  principal_from_bearer answers None for it after every further sequence of mints, sign-ins, revocations and
  queries, at every time.\<close>

theorem revoked_token_is_dead:
  assumes "\<exists>s \<in> set (sessions con). se_token_hash s = hash_secret token"
    and "\<forall>s \<in> set (sessions con). se_token_hash s = hash_secret token \<longrightarrow> se_tenant s = tenant_of rt p
      \<and> (if truthy session_id then session_id = Some (se_id s)
         else if truthy presented then presented = Some token
         else se_subject s = p_subject p)"
    and "auth_step\<^sup>*\<^sup>* (snd (revoke_capmesh_session rt p session_id presented con)) con'"
  shows "principal_from_bearer rt' (Some token) con' = (Inr None, con')"
proof -
  have known: "hash_secret token \<in> set (map se_token_hash (sessions con))" using assms(1) by force
  have "dead_token token (sessions (snd (revoke_capmesh_session rt p session_id presented con)))"
    unfolding revocation_sessions dead_token_def hashes_after_revocation ball_update_where
    using known assms(2) by (auto split: if_splits)
  with assms(3) have "dead_token token (sessions con')"
    by (induction rule: rtranclp_induct) (auto intro: dead_token_stays [OF step_change])
  then show ?thesis by (rule dead_token_refused)
qed

section \<open>Delivery of tokens\<close>

text \<open>Tokens are delivered once: oauth_session_status returns tokens only when they are consumed, for a
  completed flow within its delivery window, and after a call that consumed them no later call with the same
  identifier returns a token.\<close>

theorem tokens_delivered_once:
  assumes "oauth_session_status rt sid consume con = (Inr first, con1)" "oauth_session_status rt' sid consume' con1 = (Inr again, con2)"
  shows "(consume \<longrightarrow> pget again ''bearerToken'' = JNull \<and> pget again ''m365RefreshToken'' = JNull)
    \<and> (pget first ''bearerToken'' \<noteq> JNull \<longrightarrow> consume \<and> (\<exists>row \<in> set (oauth_sessions (db con)). oa_status row = ''completed''
      \<and> (oa_id row = sid \<or> oa_state row = sid) \<and> (json_truthy (pget (oa_metadata row) ''tokenDeliveryExpiresAt'')
          \<longrightarrow> utc_now rt < py_str (pget (oa_metadata row) ''tokenDeliveryExpiresAt''))))"
proof -
  let ?hit = "\<lambda>r. oa_id r = sid \<or> oa_state r = sid"
  from assms(1) obtain row where row: "find ?hit (oauth_sessions (db con)) = Some row"
    by (auto simp: oauth_session_status_def split: option.splits)
  show ?thesis
  proof (cases "consume \<and> oa_status row = ''completed''")
    case False
    with assms(1) row have base: "con1 = con" "pget first ''bearerToken'' = JNull"
      by (auto simp: oauth_session_status_def Let_def pget_def)
    with assms(2) row False have "consume \<longrightarrow> pget again ''bearerToken'' = JNull \<and> pget again ''m365RefreshToken'' = JNull"
      by (auto simp: oauth_session_status_def Let_def pget_def)
    with base(2) show ?thesis by simp
  next
    case True
    then obtain m where con1: "oauth_sessions (db con1) = update_where (\<lambda>r. oa_id r = oa_id row) (\<lambda>r. r\<lparr>oa_metadata := m\<rparr>) (oauth_sessions (db con))"
      and m: "pget m ''capmeshBearerToken'' = JNull" "pget m ''m365RefreshToken'' = JNull"
      using assms(1) row by (auto simp: oauth_session_status_def Let_def pget_def map_of_dict_set split: if_splits)
    have "find ?hit (oauth_sessions (db con1)) = Some (row\<lparr>oa_metadata := m\<rparr>)"
      unfolding con1 by (subst find_update_where) (simp_all add: row)
    with assms(2) have "pget again ''bearerToken'' = JNull \<and> pget again ''m365RefreshToken'' = JNull"
      using m by (auto simp: oauth_session_status_def Let_def pget_def split: if_splits)
    moreover have "pget first ''bearerToken'' \<noteq> JNull \<Longrightarrow> json_truthy (pget (oa_metadata row) ''tokenDeliveryExpiresAt'')
        \<Longrightarrow> utc_now rt < py_str (pget (oa_metadata row) ''tokenDeliveryExpiresAt'')"
      using assms(1) row True by (auto simp: oauth_session_status_def Let_def pget_def split: if_splits)
    ultimately show ?thesis using True find_SomeD [OF row] by blast
  qed
qed

text \<open>The state of a flow is good for one callback: once validate_oauth_callback has accepted a state, or
  found it expired, every later callback with this state is refused.\<close>

theorem callback_state_is_used_once:
  assumes "validate_oauth_callback rt state code err con = (res, con1)" "oauth_by_state state con \<noteq> None"
  shows "\<exists>m. validate_oauth_callback rt' state code' err' con1 = (Inl (ValueError m), con1)"
proof -
  from assms(2) obtain row where row: "oauth_by_state state con = Some row" by auto
  have step: "oauth_by_state state (commit (update_oauth (oa_id row) f con)) = Some (f row)" if "\<And>r. oa_state (f r) = oa_state r" for f
    unfolding oauth_by_state_def using row that by (simp add: find_update_where oauth_by_state_def)
  consider (used) "oa_status row \<noteq> ''pending''" | (expired) "oa_status row = ''pending''" "oa_expires_at row \<le> utc_now rt"
    | (fresh) "oa_status row = ''pending''" "\<not> oa_expires_at row \<le> utc_now rt" by blast
  then show ?thesis
  proof cases
    case used
    then have "con1 = con" using assms(1) row by (auto simp: validate_oauth_callback_def)
    with used row show ?thesis by (simp add: validate_oauth_callback_def)
  next
    case expired
    then have "con1 = commit (update_oauth (oa_id row) (\<lambda>r. r\<lparr>oa_status := ''expired''\<rparr>) con)"
      using assms(1) row by (auto simp: validate_oauth_callback_def)
    with step [of "\<lambda>r. r\<lparr>oa_status := ''expired''\<rparr>"] show ?thesis by (simp add: validate_oauth_callback_def)
  next
    case fresh
    then obtain st m where "con1 = commit (update_oauth (oa_id row) (\<lambda>r. r\<lparr>oa_status := st, oa_completed_at := Some (sql_now rt), oa_metadata := m\<rparr>) con)"
      and "st \<noteq> ''pending''"
      using assms(1) row by (auto simp: validate_oauth_callback_def Let_def)
    with step [of "\<lambda>r. r\<lparr>oa_status := st, oa_completed_at := Some (sql_now rt), oa_metadata := m\<rparr>"] show ?thesis
      by (simp add: validate_oauth_callback_def)
  qed
qed

section \<open>Accepted sign-ins\<close>

lemma guard_Inr: "(if b then Inl e else x) = Inr y \<longleftrightarrow> \<not> b \<and> x = Inr y"
  by simp

lemma check_claims_Inr:
  assumes "check_claims rt ops row claims client_id = Inr ()"
  shows "pget claims ''iss'' \<in> JStr ` set (trusted_ms_issuers (str_or claims ''tid'' []))
    \<and> (truthy client_id \<longrightarrow> pget claims ''aud'' = json_opt client_id)
    \<and> (\<exists>e. to_int (json_or (pget claims ''exp'') (JInt 0)) = Inr e \<and> (e = 0 \<or> int (now_seconds rt) < e))"
proof -
  let ?iss = "case map_of claims ''iss'' of None \<Rightarrow> JStr [] | Some v \<Rightarrow> v" and ?tid = "str_or claims ''tid'' []"
  have "JStr [] \<notin> JStr ` set (trusted_ms_issuers ?tid)" by (auto simp: trusted_ms_issuers_def)
  then have iss: "?iss \<in> JStr ` set (trusted_ms_issuers ?tid) \<Longrightarrow> pget claims ''iss'' \<in> JStr ` set (trusted_ms_issuers ?tid)"
    by (cases "map_of claims ''iss''") (simp_all add: pget_def)
  note c = assms [unfolded check_claims_def Let_def guard_Inr bind_sum_Inr]
  then have 1: "?iss \<in> JStr ` set (trusted_ms_issuers ?tid)" "\<not> (truthy client_id \<and> pget claims ''aud'' \<noteq> json_opt client_id)"
    by (elim conjE, simp only: not_not)+
  obtain e where e: "to_int (json_or (pget claims ''exp'') (JInt 0)) = Inr e" "\<not> (e \<noteq> 0 \<and> e \<le> int (now_seconds rt))"
    using c by (elim conjE exE)
  then have "e = 0 \<or> int (now_seconds rt) < e" by linarith
  with e(1) 1(2) iss [OF 1(1)] show ?thesis by blast
qed

text \<open>C10. A sign-in through Microsoft needs verified claims: complete_oauth_session succeeds only when the claims
  name a tenant and carry one of the two issuers of this tenant, the audience is the client when one is
  configured, and the token is not expired; in production the claims are those whose signature was
  verified, for the configured directory tenant.\<close>

theorem microsoft_sign_in_needs_verified_claims:
  assumes "complete_oauth_session rt ops state response client_id con = (Inr r, con')"
  shows "\<exists>claims. verify_id_token rt ops (str_or response ''id_token'' []) client_id = Inr claims
    \<and> pget claims ''iss'' \<in> JStr ` set (trusted_ms_issuers (str_or claims ''tid'' []))
    \<and> (truthy client_id \<longrightarrow> pget claims ''aud'' = json_opt client_id)
    \<and> (\<exists>e. to_int (json_or (pget claims ''exp'') (JInt 0)) = Inr e \<and> (e = 0 \<or> int (now_seconds rt) < e))
    \<and> (production_environment rt \<longrightarrow> (\<exists>unverified issuer. decode_unverified_jwt ops (str_or response ''id_token'' []) = Inr unverified
         \<and> jwt_verify ops (str_or response ''id_token'' []) issuer (if truthy client_id then client_id else None) = Inr (JObj claims)
         \<and> issuer \<in> set (trusted_ms_issuers (str_or unverified ''tid'' []))
         \<and> py_lower (str_or unverified ''tid'' []) = py_lower (env_or rt ''CAPMESH_ENTRA_TENANT_ID'' [])))"
proof -
  from assms obtain row claims where row: "oauth_by_state state con = Some row"
    and v: "verify_id_token rt ops (str_or response ''id_token'' []) client_id = Inr claims"
    and c: "check_claims rt ops row claims client_id = Inr ()"
    by (auto simp: complete_oauth_session_def and_then_eq_Inr lift_result_eq_Inr split: option.splits)
  have "pget claims ''iss'' \<in> JStr ` set (trusted_ms_issuers (str_or claims ''tid'' []))
    \<and> (truthy client_id \<longrightarrow> pget claims ''aud'' = json_opt client_id)
    \<and> (\<exists>e. to_int (json_or (pget claims ''exp'') (JInt 0)) = Inr e \<and> (e = 0 \<or> int (now_seconds rt) < e))"
    using check_claims_Inr [OF c] .
  moreover have "\<exists>unverified issuer. decode_unverified_jwt ops (str_or response ''id_token'' []) = Inr unverified
       \<and> jwt_verify ops (str_or response ''id_token'' []) issuer (if truthy client_id then client_id else None) = Inr (JObj claims)
       \<and> issuer \<in> set (trusted_ms_issuers (str_or unverified ''tid'' []))
       \<and> py_lower (str_or unverified ''tid'' []) = py_lower (env_or rt ''CAPMESH_ENTRA_TENANT_ID'' [])" if "production_environment rt"
    using v that unfolding verify_id_token_def Let_def
    by (auto simp: bind_sum_Inr split: if_splits sum.splits json.splits)
  ultimately show ?thesis using v by blast
qed

text \<open>The PKCE check of the completion refuses nothing: with an ASCII verifier, as every generated one is, it
  passes for every stored challenge.\<close>

theorem pkce_check_never_refuses:
  assumes "\<not> list_ex (\<lambda>c. 127 < code_point c) (str_or (oa_metadata row) ''codeVerifier'' [])"
  shows "pkce_check row = Inr ()"
  using assms by (simp add: pkce_check_def Let_def validate_pkce_def compute_code_challenge_def bind_sum_def CODE_CHALLENGE_METHOD_def)

section \<open>Sample data\<close>

text \<open>An installation in which a principal is already provisioned.\<close>

definition provisioned_conn :: "runtime \<Rightarrow> principal \<Rightarrow> oauth_row list \<Rightarrow> conn" where
  "provisioned_conn rt p flows =
     (let own = (\<lambda>i kind. \<lparr>st_id = i, st_tenant = tenant_of rt p, st_kind = kind, st_name = kind, st_uri_prefix = i,
          st_owner_identity = Some (provisioned_identity rt p), st_owner_app = None, st_disabled_at = None\<rparr>)
      in sample_conn (empty_database\<lparr>tenants := [\<lparr>tn_id = tenant_of rt p, tn_slug = ''asg'', tn_display_name = ''ASG'', tn_status = ''active''\<rparr>],
        identities := [identity_to_write rt p], stores := [own ''s1'' ''user_private'', own ''s2'' ''user_shared''],
        oauth_sessions := flows\<rparr>))"

lemma provisioned_conn_identity:
  "ensure_identity_for_principal rt p (provisioned_conn rt p flows) = (Inr (provisioned_identity rt p), provisioned_conn rt p flows)"
  by (simp add: ensure_identity_for_principal_def provisioned_conn_def sample_conn_def Let_def identity_to_write_def
      identity_unchanged_def stores_provisioned_def rowcount_def)

lemma provisioned_conn_mint:
  "\<exists>t con1. mint_capmesh_token rt p ttl m (provisioned_conn rt p flows) = (Inr t, con1) \<and> mt_token t = ''cm_'' @ token_urlsafe rt 32 0"
  by (simp add: mint_capmesh_token_def provisioned_conn_identity new_secret_def new_id_def insert_session_def Let_def)
    (simp add: provisioned_conn_def sample_conn_def empty_database_def Let_def)

lemma sample_years: "cv_year (civil_of_seconds (now_seconds sample_runtime)) \<le> 9999"
  "cv_year (civil_of_seconds (nat (int (now_seconds sample_runtime) + 60))) \<le> 9999"
proof -
  have "now_seconds sample_runtime = 1785542400" by (simp add: now_seconds_def sample_runtime_def)
  moreover have "cv_year (civil_of_seconds 1785542400) \<le> 9999" "cv_year (civil_of_seconds 1785542460) \<le> 9999"
    by (simp_all add: civil_of_seconds_def year_split.simps days_in_year_def leap_year_def Let_def case_prod_unfold)
  ultimately show "cv_year (civil_of_seconds (now_seconds sample_runtime)) \<le> 9999"
    "cv_year (civil_of_seconds (nat (int (now_seconds sample_runtime) + 60))) \<le> 9999" by simp_all
qed

lemma sample_principal_named: "p_subject sample_principal \<noteq> []" "tenant_of sample_runtime sample_principal \<noteq> []"
  by (simp_all add: sample_principal_def tenant_of_def)

theorem token_lives_until_expiry_witness:
  "\<exists>t con1 q con2. mint_capmesh_token sample_runtime sample_principal (Some 60) [] (provisioned_conn sample_runtime sample_principal [])
       = (Inr t, con1)
     \<and> principal_from_bearer sample_runtime (Some (mt_token t)) con1 = (Inr (Some q), con2) \<and> p_subject q = ''ann@example.com''"
proof -
  obtain t con1 where mint: "mint_capmesh_token sample_runtime sample_principal (Some 60) []
      (provisioned_conn sample_runtime sample_principal []) = (Inr t, con1)"
    using provisioned_conn_mint by blast
  from token_lives_until_expiry [OF mint sample_principal_named sample_years] obtain q con2 where
    "principal_from_bearer sample_runtime (Some (mt_token t)) con1 = (Inr (Some q), con2)" "p_subject q = p_subject sample_principal"
    by auto
  with mint show ?thesis by (auto simp: sample_principal_def)
qed

definition live_row :: session_row where
  "live_row = \<lparr>se_id = ''cms_1'', se_tenant = ''asg'', se_token_hash = hash_secret ''cm_t'', se_identity = None, se_subject = ''ann'',
     se_principal = [(''scopes'', JList [JStr ''cap:*''])], se_scopes = [''cap:search''], se_issued_at = ''t'', se_expires_at = expires_in sample_runtime 60,
     se_revoked_at = None, se_metadata = []\<rparr>"

definition live_conn :: conn where
  "live_conn = sample_conn (empty_database\<lparr>capmesh_sessions := [live_row]\<rparr>)"

lemma live_now: "utc_now sample_runtime < expires_in sample_runtime 60"
  unfolding utc_now_def expires_in_def using sample_years(2) by (intro utc_text_mono) simp_all

lemma live_row_principal: "\<exists>q. principal_from_dict sample_runtime (session_dict live_row) = Inr q"
proof -
  have get: "pget (session_dict live_row) ''roles'' = JNull" "pget (session_dict live_row) ''groups'' = JNull"
    by (simp_all add: session_dict_def live_row_def pget_def)
  show ?thesis
    unfolding principal_from_dict_def Let_def get session_dict_scopes texts_of_strings by (simp add: texts_or_def bind_sum_def session_dict_scopes(3))
qed

lemma live_bearer: "\<exists>q con'. principal_from_bearer sample_runtime (Some ''cm_t'') live_conn = (Inr (Some q), con')"
proof -
  have "find (live_session sample_runtime ''cm_t'') (sessions live_conn) = Some live_row"
    by (simp add: live_conn_def sample_conn_def live_session_def live_row_def live_now)
  with live_row_principal show ?thesis by (auto simp: principal_from_bearer_def truthy_def case_prod_unfold Let_def)
qed

theorem session_scopes_are_authoritative_witness:
  "\<exists>q con'. principal_from_bearer sample_runtime (Some ''cm_t'') live_conn = (Inr (Some q), con') \<and> p_scopes q = [''cap:search'']"
proof -
  obtain q con' where run: "principal_from_bearer sample_runtime (Some ''cm_t'') live_conn = (Inr (Some q), con')"
    using live_bearer by blast
  from session_scopes_are_authoritative [OF this] have "p_scopes q = se_scopes live_row"
    by (simp add: live_conn_def sample_conn_def)
  with run show ?thesis by (auto simp: live_row_def)
qed

theorem revoked_token_is_dead_witness:
  "(let con = snd (revoke_capmesh_session sample_runtime sample_principal (Some ''cms_1'') None live_conn)
    in principal_from_bearer sample_runtime (Some ''cm_t'') con = (Inr None, con))
   \<and> (let con = snd (revoke_capmesh_session sample_runtime sample_principal None (Some ''cm_t'') live_conn)
    in principal_from_bearer sample_runtime (Some ''cm_t'') con = (Inr None, con))
   \<and> (let con = snd (revoke_capmesh_session sample_runtime (sample_principal\<lparr>p_subject := ''ann''\<rparr>) None None live_conn)
    in principal_from_bearer sample_runtime (Some ''cm_t'') con = (Inr None, con))"
proof -
  have rows: "sessions live_conn = [live_row]" by (simp add: live_conn_def sample_conn_def)
  have t: "tenant_of sample_runtime sample_principal = ''asg''" "tenant_of sample_runtime (sample_principal\<lparr>p_subject := ''ann''\<rparr>) = ''asg''"
    by (simp_all add: sample_principal_def tenant_of_def)
  have row: "se_token_hash live_row = hash_secret ''cm_t''" "se_tenant live_row = ''asg''" "se_id live_row = ''cms_1''" "se_subject live_row = ''ann''"
    by (simp_all add: live_row_def)
  show ?thesis unfolding Let_def
    by (intro conjI revoked_token_is_dead [OF _ _ rtranclp.rtrancl_refl])
      (simp_all add: rows t row truthy_def)
qed

definition sample_flow :: "payload \<Rightarrow> string \<Rightarrow> oauth_row" where
  "sample_flow metadata status = \<lparr>oa_id = ''oauth_1'', oa_tenant = ''asg'', oa_flow = ''m365'', oa_state = ''st'', oa_code_challenge = None,
     oa_code_verifier_hash = None, oa_redirect_uri = ''r'', oa_scope = ''openid'', oa_nonce = None, oa_status = status, oa_metadata = metadata,
     oa_expires_at = expires_in sample_runtime 60, oa_completed_at = None\<rparr>"

definition flow_conn :: "oauth_row \<Rightarrow> conn" where
  "flow_conn row = sample_conn (empty_database\<lparr>oauth_sessions := [row]\<rparr>)"

lemma status_answers:
  "list_ex (\<lambda>r. oa_id r = sid \<or> oa_state r = sid) (oauth_sessions (db con)) \<Longrightarrow> \<exists>a con'. oauth_session_status rt sid consume con = (Inr a, con')"
  by (auto simp: oauth_session_status_def Let_def find_None_iff list_ex_iff split: option.split)

lemma status_keeps_states:
  "oauth_session_status rt sid consume con = (res, con1) \<Longrightarrow> map oa_state (oauth_sessions (db con1)) = map oa_state (oauth_sessions (db con))"
  by (auto simp: oauth_session_status_def Let_def map_update_where_frame split: option.splits if_splits)

theorem tokens_delivered_once_witness:
  "\<exists>delivered again con1 con2.
     oauth_session_status sample_runtime ''st'' True (flow_conn (sample_flow [(''capmeshBearerToken'', JStr ''cm_t'')] ''completed'')) = (Inr delivered, con1)
     \<and> pget delivered ''bearerToken'' = JStr ''cm_t''
     \<and> oauth_session_status sample_runtime ''st'' True con1 = (Inr again, con2) \<and> pget again ''bearerToken'' = JNull"
proof -
  let ?con = "flow_conn (sample_flow [(''capmeshBearerToken'', JStr ''cm_t'')] ''completed'')"
  obtain delivered con1 where d: "oauth_session_status sample_runtime ''st'' True ?con = (Inr delivered, con1)"
    "pget delivered ''bearerToken'' = JStr ''cm_t''"
    by (simp add: oauth_session_status_def flow_conn_def sample_conn_def sample_flow_def Let_def pget_def json_truthy_def)
  moreover obtain again con2 where a: "oauth_session_status sample_runtime ''st'' True con1 = (Inr again, con2)"
  proof -
    have "map oa_state (oauth_sessions (db con1)) = [''st'']"
      using status_keeps_states [OF d(1)] by (simp add: flow_conn_def sample_conn_def sample_flow_def)
    then show thesis using that status_answers [of "''st''" con1 sample_runtime True] by auto
  qed
  moreover have "pget again ''bearerToken'' = JNull" using tokens_delivered_once [OF d(1) a] by simp
  ultimately show ?thesis by blast
qed

theorem callback_state_is_used_once_witness:
  "\<exists>m. validate_oauth_callback sample_runtime ''st'' (Some ''c'') None
        (snd (validate_oauth_callback sample_runtime ''st'' (Some ''c'') None (flow_conn (sample_flow [] ''pending''))))
      = (Inl (ValueError m), snd (validate_oauth_callback sample_runtime ''st'' (Some ''c'') None (flow_conn (sample_flow [] ''pending''))))"
proof -
  have "oauth_by_state ''st'' (flow_conn (sample_flow [] ''pending'')) \<noteq> None"
    by (simp add: oauth_by_state_def flow_conn_def sample_conn_def sample_flow_def)
  from callback_state_is_used_once [OF prod.collapse [symmetric] this] show ?thesis by blast
qed

definition entra_runtime :: runtime where
  "entra_runtime = sample_runtime\<lparr>environ := [''CAPMESH_OAUTH_VERIFY_SIGNATURE'' \<mapsto> ''0'']\<rparr>"

definition entra_claims :: payload where
  "entra_claims = [(''tid'', JStr ''t''), (''iss'', JStr ''https://login.microsoftonline.com/t/v2.0''), (''email'', JStr ''ann'')]"

definition entra_ops :: jwt_ops where
  "entra_ops = \<lparr>jwt_payload = (\<lambda>_. Some (JObj entra_claims)), jwt_verify = (\<lambda>_ _ _. Inl []), float_text = (\<lambda>_. None), float_repr = (\<lambda>_. [])\<rparr>"

definition entra_person :: principal where
  "entra_person = signed_in ''ann'' ''asg'' (corporate_identity_id entra_runtime ''asg'' ''ann'' ''ann'') JNull None [] [''member''] MEMBER_SCOPES"

lemma entra_verified: "verify_id_token entra_runtime entra_ops (str_or [(''id_token'', JStr ''a.b.c'')] ''id_token'' []) None = Inr entra_claims"
  by (simp add: verify_id_token_def oauth_verify_signature_enabled_def env_or_def entra_runtime_def production_environment_def
      sample_runtime_def py_strip_def py_lstrip_def py_rstrip_def py_lower_def decode_unverified_jwt_def entra_ops_def)

lemma entra_accepted: "check_claims entra_runtime entra_ops (sample_flow [] ''pending'') entra_claims None = Inr ()"
proof -
  have get: "str_or entra_claims ''tid'' [] = ''t''" "map_of entra_claims ''iss'' = Some (JStr ''https://login.microsoftonline.com/t/v2.0'')"
    "pget entra_claims ''nonce'' = JNull" "pget entra_claims ''exp'' = JNull" "pget entra_claims ''nbf'' = JNull"
    by (simp_all add: entra_claims_def pget_def)
  have "validator_validate entra_ops (Some ''https://login.microsoftonline.com/t/v2.0'') [] entra_claims None x = Inr (True, [])" for x
    by (simp add: validator_validate_def validate_token_claims_def get py_str_def bind_sum_def Let_def truthy_def)
  moreover have "pkce_check (sample_flow [] ''pending'') = Inr ()" by (rule pkce_check_never_refuses) (simp add: sample_flow_def)
  ultimately show ?thesis
    unfolding check_claims_def Let_def get
    by (simp add: truthy_def json_truthy_def is_dict_def trusted_ms_issuers_def bind_sum_def json_or_def to_int_def py_int_def py_str_def)
qed

lemma entra_person_signed_in: "principal_from_entra_claims entra_runtime entra_claims ''asg'' = Inr entra_person"
proof -
  have "py_strip ''ann'' = ''ann''" "py_lower ''ann'' = ''ann''"
    by (simp_all add: py_strip_def py_lstrip_def py_rstrip_def py_isspace_def py_lower_def lower_char_def)
  then show ?thesis
    by (simp add: principal_from_entra_claims_def entra_claims_def pget_def json_or_def json_truthy_def py_str_def Let_def entra_person_def opt_text_def)
qed

lemma entra_completes:
  "\<exists>r con'. complete_oauth_session entra_runtime entra_ops ''st'' [(''id_token'', JStr ''a.b.c'')] None
     (provisioned_conn entra_runtime entra_person [sample_flow [] ''pending'']) = (Inr r, con')"
proof -
  let ?con = "provisioned_conn entra_runtime entra_person [sample_flow [] ''pending'']"
  have row: "oauth_by_state ''st'' ?con = Some (sample_flow [] ''pending'')"
    by (simp add: oauth_by_state_def provisioned_conn_def sample_conn_def Let_def sample_flow_def)
  have ten: "oa_tenant (sample_flow [] ''pending'') = ''asg''" by (simp add: sample_flow_def)
  have step: "\<exists>r con'. and_then (complete_session entra_runtime src ev row entra_person x ?con) (\<lambda>t c. (Inr (g t), c)) = (Inr r, con')"
    for src ev row x and g :: "minted \<Rightarrow> payload"
  proof -
    let ?m = "[(''source'', JStr src), (''oauthSessionId'', JStr (oa_id row))]"
    obtain t con1 where "mint_capmesh_token entra_runtime entra_person None ?m ?con = (Inr t, con1)"
      using provisioned_conn_mint by blast
    then show ?thesis by (simp add: complete_session_def provisioned_conn_identity Let_def)
  qed
  show ?thesis
    unfolding complete_oauth_session_def row option.case entra_verified and_then_lift sum.case entra_accepted ten entra_person_signed_in
    by (rule step)
qed

theorem microsoft_sign_in_needs_verified_claims_witness:
  "\<exists>r con'. complete_oauth_session entra_runtime entra_ops ''st'' [(''id_token'', JStr ''a.b.c'')] None
       (provisioned_conn entra_runtime entra_person [sample_flow [] ''pending'']) = (Inr r, con')
     \<and> verify_id_token entra_runtime entra_ops (str_or [(''id_token'', JStr ''a.b.c'')] ''id_token'' []) None = Inr entra_claims
     \<and> pget entra_claims ''iss'' \<in> JStr ` set (trusted_ms_issuers (str_or entra_claims ''tid'' []))"
proof -
  obtain r con' where run: "complete_oauth_session entra_runtime entra_ops ''st'' [(''id_token'', JStr ''a.b.c'')] None
      (provisioned_conn entra_runtime entra_person [sample_flow [] ''pending'']) = (Inr r, con')"
    using entra_completes by blast
  from microsoft_sign_in_needs_verified_claims [OF run] have "pget entra_claims ''iss'' \<in> JStr ` set (trusted_ms_issuers (str_or entra_claims ''tid'' []))"
    unfolding entra_verified by blast
  with run entra_verified show ?thesis by blast
qed

end
