(* ===== verification/Vault_Placement.thy ===== *)
theory Vault_Placement
  imports Catalog_Names Injection_Scan Registry_Log
begin

text \<open>
  Placement by the vault manifest (\<^verbatim>\<open>vault_placement.py\<close> and \<^verbatim>\<open>governance.load_vault_placement_index\<close>):
  a discovered capability that the manifest names is filed into the shared namespace of the
  organization or into the namespace of all users, under a key that ignores the plugin prefix.

  The manifest file is the argument of the loader: None when it is absent or unreadable. The
  constructor checks of \<^verbatim>\<open>dataclasses.replace\<close> cannot fail here, since the written vocabulary values are
  legal and the others come from a capability that was constructed before.
\<close>

section \<open>Keys\<close>

text \<open>The text after the first occurrence of a marker, as \<^verbatim>\<open>uri[uri.find(marker) + len(marker):]\<close>.\<close>

fun after_marker :: "string \<Rightarrow> string \<Rightarrow> string option" where
  "after_marker m [] = (if m = [] then Some [] else None)"
| "after_marker m (c # s) = (if startswith (c # s) m then Some (drop (length m) (c # s)) else after_marker m s)"

definition manifest_uri_tail :: "string \<Rightarrow> string" where
  "manifest_uri_tail uri =
     (case after_marker ''/shared/'' uri of Some t \<Rightarrow> t
      | None \<Rightarrow> (case after_marker ''/everyone/'' uri of Some t \<Rightarrow> t
        | None \<Rightarrow> (let parts = split_on (CHR ''/'') uri in
            if 2 \<le> length parts then join_with ''/'' (drop (length parts - 2) parts) else uri)))"

text \<open>\<^verbatim>\<open>re.sub(r"^[^.@/]+\.", "", rest, count=1)\<close>\<close>

definition drop_plugin_segment :: "string \<Rightarrow> string" where
  "drop_plugin_segment rest =
     (let word = takeWhile (\<lambda>c. c \<notin> {CHR ''.'', CHR ''@'', CHR ''/''}) rest in
      case drop (length word) rest of [] \<Rightarrow> rest
      | c # after \<Rightarrow> if word \<noteq> [] \<and> c = CHR ''.'' then after else rest)"

definition vault_match_key :: "string \<Rightarrow> string" where
  "vault_match_key tail =
     (if CHR ''/'' \<notin> set tail then tail
      else let typ = takeWhile (\<lambda>c. c \<noteq> CHR ''/'') tail
        in typ @ ''/'' @ drop_plugin_segment (drop (Suc (length typ)) tail))"

section \<open>The manifest\<close>

type_synonym placement_index = "(string \<times> string) list"

fun index_placements :: "json list \<Rightarrow> placement_index \<Rightarrow> py_error + placement_index" where
  "index_placements [] index = Inr index"
| "index_placements (entry # entries) index =
     (if \<not> is_dict entry then Inl (AttributeErr ''object has no attribute get'')
      else let uri = py_str (json_or (get_of ''uri'' entry) (JStr []));
               vault = py_str (json_or (get_of ''vault'' entry) (JStr [])) in
        index_placements entries
          (if uri = [] \<or> vault \<notin> {''org'', ''all''} then index
           else dict_set (vault_match_key (manifest_uri_tail uri)) vault index))"

definition load_vault_placement_index :: "json option \<Rightarrow> py_error + placement_index" where
  "load_vault_placement_index data =
     (case data of None \<Rightarrow> Inr []
      | Some (JObj kvs) \<Rightarrow>
          bind_sum (iterate (case map_of kvs ''placements'' of None \<Rightarrow> JList [] | Some v \<Rightarrow> v))
            (\<lambda>entries. index_placements entries [])
      | Some _ \<Rightarrow> Inl (AttributeErr ''object has no attribute get''))"

section \<open>Placement\<close>

definition vault_placement_collision :: "capability \<Rightarrow> string \<Rightarrow> string \<Rightarrow> string \<Rightarrow> database \<Rightarrow> capability option" where
  "vault_placement_collision cap match_key target_ns tenant_id d =
     find (\<lambda>r. c_tenant_id r = tenant_id \<and> c_namespace_id r = Some target_ns
        \<and> c_content_hash r \<noteq> c_content_hash cap
        \<and> vault_match_key (manifest_uri_tail (c_uri r)) = match_key) (capabilities d)"

definition is_draft :: "capability \<Rightarrow> bool" where
  "is_draft cap = (c_approval_state cap = ''draft'' \<or> c_lifecycle cap = ''draft'')"

text \<open>The vault the manifest names for a capability, after the guards on system capabilities and on
  drafts for all users.\<close>

definition wanted_vault :: "runtime \<Rightarrow> capability \<Rightarrow> placement_index \<Rightarrow> string option" where
  "wanted_vault rt cap index =
     (if index = [] then None
      else if c_source_kind cap = ''system_capability'' \<or> startswith (c_uri cap) ''cap://system/'' then None
      else case map_of index (vault_match_key (capability_canonical_tail rt cap)) of None \<Rightarrow> None
        | Some vault \<Rightarrow>
            if vault \<notin> {''org'', ''all''} then None
            else if is_draft cap \<and> vault = ''all''
              \<and> \<not> fst (evaluate_risk_tier_policy (if c_risk_tier cap = [] then ''unknown'' else c_risk_tier cap) vault)
            then None else Some vault)"

text \<open>Store, namespace and URI prefix of a vault, and the statements that make its namespace exist.\<close>

definition vault_target :: "runtime \<Rightarrow> string \<Rightarrow> string \<Rightarrow> string \<times> string \<times> string" where
  "vault_target rt vault tenant_id =
     (if vault = ''org'' then (org_store_id rt tenant_id, org_shared_namespace_id rt tenant_id, org_shared_namespace_prefix rt tenant_id)
      else (all_users_store_id tenant_id, all_users_namespace_id tenant_id, all_users_namespace_prefix tenant_id))"

definition ensure_vault :: "runtime \<Rightarrow> string \<Rightarrow> string \<Rightarrow> conn \<Rightarrow> (conn, string) outcome" where
  "ensure_vault rt vault tenant_id con =
     (if vault = ''org'' then ensure_org_shared_namespace rt tenant_id con
      else ensure_all_users_namespace rt tenant_id con)"

definition placed_capability :: "runtime \<Rightarrow> string \<Rightarrow> capability \<Rightarrow> capability" where
  "placed_capability rt vault cap =
     (let tenant_id = cap_tenant_of rt cap;
          (store, ns, prefix) = vault_target rt vault tenant_id;
          private_uri = user_namespace_capability_uri rt cap;
          placed = cap\<lparr>c_uri := prefix @ ''/'' @ capability_canonical_tail rt cap, c_tenant_id := tenant_id,
            c_store_id := Some store, c_namespace_id := Some ns, c_visibility := ''internal'',
            c_discovery_mode := ''public'', c_owner := ''asg-platform'',
            c_created_by := Some (or_else (c_created_by cap) (DEFAULT_USER_SUBJECT rt)),
            c_promoted_from_uri := Some (or_else (c_promoted_from_uri cap) private_uri),
            c_metadata := dict_set ''vaultPlacement'' (JStr vault) (setdefault ''originalOwner'' (JStr (c_owner cap))
              (setdefault ''originalUri'' (JStr private_uri) (c_metadata cap)))\<rparr>
      in if is_draft cap then placed
         else placed\<lparr>c_approval_state := ''approved'', c_share_state := ''shared'', c_lifecycle := ''published''\<rparr>)"

definition apply_vault_placement ::
  "runtime \<Rightarrow> capability \<Rightarrow> placement_index \<Rightarrow> conn \<Rightarrow> (conn, capability option) outcome" where
  "apply_vault_placement rt cap index con =
     (case wanted_vault rt cap index of None \<Rightarrow> (Inr None, con)
      | Some vault \<Rightarrow>
          and_then (ensure_vault rt vault (cap_tenant_of rt cap) con) (\<lambda>_ con1.
            let tenant_id = cap_tenant_of rt cap;
                (store, ns, prefix) = vault_target rt vault tenant_id;
                match_key = vault_match_key (capability_canonical_tail rt cap) in
            case vault_placement_collision cap match_key ns tenant_id (db con1) of
              Some other \<Rightarrow> (Inr None, snd (audit_event rt ''vault_placement.collision'' ''capmesh-system'' (Some (c_uri cap))
                (Some ''place'') (Some ''deny'')
                (Some ''vault placement refused: canonical_key already held by a distinct capability'')
                [(''incomingUri'', JStr (c_uri cap)), (''incomingContentHash'', JStr (c_content_hash cap)),
                 (''existingUri'', JStr (c_uri other)), (''existingContentHash'', JStr (c_content_hash other)),
                 (''canonicalKey'', JStr match_key), (''targetNamespace'', JStr ns), (''vault'', JStr vault)]
                tenant_id ''service'' con1))
            | None \<Rightarrow> (Inr (Some (placed_capability rt vault cap)), con1)))"

section \<open>The key of a placed capability\<close>

lemma after_marker_skip:
  "CHR ''/'' \<notin> set x \<Longrightarrow> after_marker (CHR ''/'' # m) (x @ s) = after_marker (CHR ''/'' # m) s"
  by (induction x) (auto simp: startswith_def)

lemma after_marker_hit: "after_marker (CHR ''/'' # w @ [CHR ''/'']) (CHR ''/'' # w @ CHR ''/'' # t) = Some t"
  by (simp add: startswith_def)

lemma until_slash: "CHR ''/'' \<notin> set v \<Longrightarrow> takeWhile (\<lambda>c. c \<noteq> CHR ''/'') (v @ CHR ''/'' # t) = v"
  by (induction v) auto

lemma after_marker_miss:
  assumes "CHR ''/'' \<notin> set v" "CHR ''/'' \<notin> set w" "v \<noteq> w"
  shows "after_marker (CHR ''/'' # w @ [CHR ''/'']) (CHR ''/'' # v @ CHR ''/'' # t)
    = after_marker (CHR ''/'' # w @ [CHR ''/'']) (CHR ''/'' # t)"
proof -
  have "\<not> startswith (CHR ''/'' # v @ CHR ''/'' # t) (CHR ''/'' # w @ [CHR ''/''])"
  proof
    assume "startswith (CHR ''/'' # v @ CHR ''/'' # t) (CHR ''/'' # w @ [CHR ''/''])"
    then obtain u where "v @ CHR ''/'' # t = w @ CHR ''/'' # u" by (auto simp: startswith_iff)
    then have "takeWhile (\<lambda>c. c \<noteq> CHR ''/'') (v @ CHR ''/'' # t) = takeWhile (\<lambda>c. c \<noteq> CHR ''/'') (w @ CHR ''/'' # u)" by simp
    with until_slash [OF assms(1)] until_slash [OF assms(2)] have "v = w" by simp
    with assms(3) show False by simp
  qed
  then show ?thesis using after_marker_skip [OF assms(1)] by (simp add: startswith_def)
qed

lemma after_marker_end: "CHR ''/'' \<notin> set v \<Longrightarrow> after_marker (CHR ''/'' # w @ [CHR ''/'']) (CHR ''/'' # v) = None"
proof -
  assume v: "CHR ''/'' \<notin> set v"
  then have "\<not> startswith (CHR ''/'' # v) (CHR ''/'' # w @ [CHR ''/''])" by (auto simp: startswith_iff)
  moreover have "after_marker (CHR ''/'' # w @ [CHR ''/'']) v = None"
    using after_marker_skip [OF v, of "w @ [CHR ''/'']" "[]"] by simp
  ultimately show ?thesis by simp
qed

lemma slug_no_slash: "CHR ''/'' \<notin> set (slug s)"
proof
  assume "CHR ''/'' \<in> set (slug s)"
  then have "slug_char (CHR ''/'') = CHR ''/''" by (rule slug_chars)
  then show False by (simp add: slug_char_def py_isalnum_def ascii_alpha_def ascii_digit_def dash_def)
qed

lemma lower_char_not_slash: "lower_char c = CHR ''/'' \<Longrightarrow> c = CHR ''/''"
proof -
  assume "lower_char c = CHR ''/''"
  then have "code_point (lower_char c) = (47::nat)" by simp
  moreover have "code_point c < (256::nat)" by simp
  ultimately have "code_point c = (47::nat)" by (auto simp: lower_char_def Let_def split: if_splits)
  then have "code_point c = (code_point (CHR ''/'') :: nat)" by simp
  then show "c = CHR ''/''" by (simp only: of_char_eq_iff)
qed

lemma normalize_version_no_slash: "CHR ''/'' \<notin> set (normalize_version s)"
proof -
  have strip: "set (strip_chars cs t) \<subseteq> set t" for cs t
    unfolding strip_chars_def lstrip_chars_def rstrip_chars_def by (metis set_dropWhileD set_rev subsetI)
  have "CHR ''/'' \<notin> set (map (\<lambda>c. if py_isalnum c \<or> c \<in> {CHR ''.'', CHR ''-''} then lower_char c else dash) s)"
    using lower_char_not_slash by (fastforce simp: py_isalnum_def ascii_alpha_def ascii_digit_def dash_def split: if_splits)
  then have "CHR ''/'' \<notin> set (strip_chars ''.-'' (map (\<lambda>c. if py_isalnum c \<or> c \<in> {CHR ''.'', CHR ''-''} then lower_char c else dash) s))"
    using strip by blast
  then show ?thesis by (simp add: normalize_version_def Let_def)
qed

text \<open>The tail of a capability is its type, a slash, and a text without a slash.\<close>

definition tail_name :: "capability \<Rightarrow> string" where
  "tail_name c = slug (or_else (c_plugin c) ''global'') @ ''.'' @ slug (c_name c)
     @ ''@'' @ normalize_version (if c_version c = [] then ''0.1.0'' else c_version c)"

lemma tail_name_no_slash: "CHR ''/'' \<notin> set (tail_name c)"
  by (simp add: tail_name_def slug_no_slash normalize_version_no_slash)

lemma canonical_tail: "capability_canonical_tail rt c = c_type c @ CHR ''/'' # tail_name c"
  by (simp add: capability_canonical_tail_def user_namespace_capability_uri_def default_prefix_slash removeprefix_def
      startswith_def capability_tail_def tail_name_def)

text \<open>Addresses in which the markers can be found again: the tenant and the organization are single
  segments other than the names of the two vault namespaces.\<close>

definition addressable :: "runtime \<Rightarrow> capability \<Rightarrow> bool" where
  "addressable rt c =
     (c_type c \<in> set CAPABILITY_TYPES \<and> CHR ''/'' \<notin> set (cap_tenant_of rt c)
      \<and> cap_tenant_of rt c \<notin> {''shared'', ''everyone''}
      \<and> CHR ''/'' \<notin> set (DEFAULT_ORG_SLUG rt) \<and> DEFAULT_ORG_SLUG rt \<noteq> ''shared'')"

lemma org_uri_tail:
  assumes "CHR ''/'' \<notin> set t" "t \<noteq> ''shared''" "CHR ''/'' \<notin> set o'" "o' \<noteq> ''shared''"
  shows "after_marker ''/shared/'' (''cap://org/'' @ t @ ''/'' @ o' @ ''/shared'' @ ''/'' @ rest) = Some rest"
proof -
  let ?m = "CHR ''/'' # ''shared'' @ [CHR ''/'']"
  have "after_marker ?m (''cap:'' @ CHR ''/'' # [] @ CHR ''/'' # ''org'' @ CHR ''/'' # t @ CHR ''/'' # o' @ CHR ''/'' # ''shared'' @ CHR ''/'' # rest)
      = after_marker ?m (CHR ''/'' # [] @ CHR ''/'' # ''org'' @ CHR ''/'' # t @ CHR ''/'' # o' @ CHR ''/'' # ''shared'' @ CHR ''/'' # rest)"
    by (rule after_marker_skip) simp
  also have "\<dots> = after_marker ?m (CHR ''/'' # ''org'' @ CHR ''/'' # t @ CHR ''/'' # o' @ CHR ''/'' # ''shared'' @ CHR ''/'' # rest)"
    by (rule after_marker_miss) simp_all
  also have "\<dots> = after_marker ?m (CHR ''/'' # t @ CHR ''/'' # o' @ CHR ''/'' # ''shared'' @ CHR ''/'' # rest)"
    by (rule after_marker_miss) simp_all
  also have "\<dots> = after_marker ?m (CHR ''/'' # o' @ CHR ''/'' # ''shared'' @ CHR ''/'' # rest)"
    using assms by (intro after_marker_miss) simp_all
  also have "\<dots> = after_marker ?m (CHR ''/'' # ''shared'' @ CHR ''/'' # rest)"
    using assms by (intro after_marker_miss) simp_all
  also have "\<dots> = Some rest" by (rule after_marker_hit)
  finally show ?thesis by simp
qed

lemma all_uri_tail:
  assumes "CHR ''/'' \<notin> set t" "t \<notin> {''shared'', ''everyone''}" "CHR ''/'' \<notin> set typ" "typ \<noteq> ''shared''" "CHR ''/'' \<notin> set name"
  shows "after_marker ''/shared/'' (''cap://all/'' @ t @ ''/everyone'' @ ''/'' @ typ @ CHR ''/'' # name) = None"
    and "after_marker ''/everyone/'' (''cap://all/'' @ t @ ''/everyone'' @ ''/'' @ rest) = Some rest"
proof -
  have walk: "after_marker (CHR ''/'' # w @ [CHR ''/'']) (''cap:'' @ CHR ''/'' # [] @ CHR ''/'' # ''all'' @ CHR ''/'' # t @ CHR ''/'' # s)
      = after_marker (CHR ''/'' # w @ [CHR ''/'']) (CHR ''/'' # s)" if "w \<in> {''shared'', ''everyone''}" for w s
  proof -
    let ?m = "CHR ''/'' # w @ [CHR ''/'']"
    have w: "CHR ''/'' \<notin> set w" "w \<noteq> []" "w \<noteq> ''all''" "w \<noteq> t" using that assms(2) by auto
    have "after_marker ?m (''cap:'' @ CHR ''/'' # [] @ CHR ''/'' # ''all'' @ CHR ''/'' # t @ CHR ''/'' # s)
        = after_marker ?m (CHR ''/'' # [] @ CHR ''/'' # ''all'' @ CHR ''/'' # t @ CHR ''/'' # s)"
      by (rule after_marker_skip) simp
    also have "\<dots> = after_marker ?m (CHR ''/'' # ''all'' @ CHR ''/'' # t @ CHR ''/'' # s)"
      using w by (intro after_marker_miss) auto
    also have "\<dots> = after_marker ?m (CHR ''/'' # t @ CHR ''/'' # s)"
      using w by (intro after_marker_miss) auto
    also have "\<dots> = after_marker ?m (CHR ''/'' # s)"
      using w assms(1) by (intro after_marker_miss) auto
    finally show ?thesis .
  qed
  have "after_marker (CHR ''/'' # ''shared'' @ [CHR ''/'']) (CHR ''/'' # ''everyone'' @ CHR ''/'' # typ @ CHR ''/'' # name)
      = after_marker (CHR ''/'' # ''shared'' @ [CHR ''/'']) (CHR ''/'' # typ @ CHR ''/'' # name)"
    by (rule after_marker_miss) simp_all
  also have "\<dots> = after_marker (CHR ''/'' # ''shared'' @ [CHR ''/'']) (CHR ''/'' # name)"
    using assms by (intro after_marker_miss) simp_all
  also have "\<dots> = None" by (rule after_marker_end [OF assms(5)])
  finally show "after_marker ''/shared/'' (''cap://all/'' @ t @ ''/everyone'' @ ''/'' @ typ @ CHR ''/'' # name) = None"
    using walk [of "''shared''" "''everyone'' @ CHR ''/'' # typ @ CHR ''/'' # name"] by simp
  show "after_marker ''/everyone/'' (''cap://all/'' @ t @ ''/everyone'' @ ''/'' @ rest) = Some rest"
    using walk [of "''everyone''" "''everyone'' @ CHR ''/'' # rest"] after_marker_hit [of "''everyone''" rest] by simp
qed

lemma placed_tail:
  assumes "addressable rt c" "vault \<in> {''org'', ''all''}"
  shows "manifest_uri_tail (c_uri (placed_capability rt vault c)) = capability_canonical_tail rt c"
proof -
  have ty: "CHR ''/'' \<notin> set (c_type c)" "c_type c \<noteq> ''shared''"
    using assms(1) by (auto simp: addressable_def CAPABILITY_TYPES_def)
  have uri: "c_uri (placed_capability rt vault c)
      = snd (snd (vault_target rt vault (cap_tenant_of rt c))) @ ''/'' @ capability_canonical_tail rt c"
    by (simp add: placed_capability_def Let_def case_prod_unfold)
  show ?thesis
  proof (cases "vault = ''org''")
    case True
    then show ?thesis
      using org_uri_tail [of "cap_tenant_of rt c" "DEFAULT_ORG_SLUG rt" "capability_canonical_tail rt c"] assms(1)
      unfolding uri manifest_uri_tail_def by (simp add: vault_target_def org_shared_namespace_prefix_def org_store_prefix_def addressable_def)
  next
    case False
    then show ?thesis
      using all_uri_tail(1) [of "cap_tenant_of rt c" "c_type c" "tail_name c"] tail_name_no_slash [of c] assms(1) ty
        all_uri_tail(2) [of "cap_tenant_of rt c" "c_type c" "tail_name c" "capability_canonical_tail rt c"]
      unfolding uri manifest_uri_tail_def by (simp add: vault_target_def all_users_namespace_prefix_def addressable_def canonical_tail)
  qed
qed

section \<open>What placement does\<close>

text \<open>In one namespace a key belongs to one content.\<close>

definition one_content_per_key :: "string \<Rightarrow> string option \<Rightarrow> capability list \<Rightarrow> bool" where
  "one_content_per_key tenant_id ns rows =
     (\<forall>r \<in> set rows. \<forall>r' \<in> set rows.
        c_tenant_id r = tenant_id \<and> c_namespace_id r = ns \<and> c_tenant_id r' = tenant_id \<and> c_namespace_id r' = ns
        \<and> vault_match_key (manifest_uri_tail (c_uri r)) = vault_match_key (manifest_uri_tail (c_uri r'))
        \<longrightarrow> c_content_hash r = c_content_hash r')"

lemma one_content_Cons:
  assumes "one_content_per_key (c_tenant_id p) (c_namespace_id p) rows"
    and "\<And>r. r \<in> set rows \<Longrightarrow> c_tenant_id r = c_tenant_id p \<Longrightarrow> c_namespace_id r = c_namespace_id p
      \<Longrightarrow> vault_match_key (manifest_uri_tail (c_uri r)) = vault_match_key (manifest_uri_tail (c_uri p))
      \<Longrightarrow> c_content_hash r = c_content_hash p"
  shows "one_content_per_key (c_tenant_id p) (c_namespace_id p) (p # rows)"
  unfolding one_content_per_key_def
proof (intro ballI impI)
  fix r r'
  assume r: "r \<in> set (p # rows)" "r' \<in> set (p # rows)"
    and same: "c_tenant_id r = c_tenant_id p \<and> c_namespace_id r = c_namespace_id p \<and> c_tenant_id r' = c_tenant_id p
      \<and> c_namespace_id r' = c_namespace_id p
      \<and> vault_match_key (manifest_uri_tail (c_uri r)) = vault_match_key (manifest_uri_tail (c_uri r'))"
  show "c_content_hash r = c_content_hash r'"
  proof (cases "r \<in> set rows \<and> r' \<in> set rows")
    case True
    with assms(1) same show ?thesis unfolding one_content_per_key_def by blast
  next
    case False
    with r have "r = p \<or> r' = p" by auto
    with same r assms(2) [of r] assms(2) [of r'] show ?thesis by (elim disjE) (metis set_ConsD)+
  qed
qed

lemma ensure_org_shared_namespace_governed:
  "governed_tables (db (snd (ensure_org_shared_namespace rt t con))) = governed_tables (db con)"
proof -
  obtain r con1 where e: "ensure_default_tenant rt t con = (r, con1)" by fastforce
  have "governed_tables (db con1) = governed_tables (db con)"
    using ungoverned.ensure_default_tenant_keeps [of con "governed_tables (db con)" rt t] e by simp
  then show ?thesis
    using ungoverned.single_run_keeps [OF provisioning_stmtI(5), of con1 "governed_tables (db con)"]
    by (cases r) (simp_all add: ensure_org_shared_namespace_def e)
qed

lemma ensure_all_users_namespace_governed:
  "governed_tables (db (snd (ensure_all_users_namespace rt t con))) = governed_tables (db con)"
  using ungoverned.ensure_default_tenant_keeps [of con "governed_tables (db con)" rt t]
  by (auto simp: ensure_all_users_namespace_def split: prod.split sum.split)

lemma ensure_vault_capabilities: "ensure_vault rt vault t con = (r, con') \<Longrightarrow> capabilities (db con') = capabilities (db con)"
  using ensure_org_shared_namespace_governed [of rt t con] ensure_all_users_namespace_governed [of rt t con]
  by (auto simp: ensure_vault_def governed_tables_def split: if_splits)

lemma placed_fields:
  "c_tenant_id (placed_capability rt vault c) = cap_tenant_of rt c"
  "c_namespace_id (placed_capability rt vault c) = Some (fst (snd (vault_target rt vault (cap_tenant_of rt c))))"
  "c_content_hash (placed_capability rt vault c) = c_content_hash c"
  by (simp_all add: placed_capability_def Let_def case_prod_unfold)

lemma apply_vault_placement_Some:
  assumes "apply_vault_placement rt cap index con = (Inr (Some placed), con')"
  obtains vault where "wanted_vault rt cap index = Some vault" "placed = placed_capability rt vault cap"
    "capabilities (db con') = capabilities (db con)"
    "vault_placement_collision cap (vault_match_key (capability_canonical_tail rt cap))
       (fst (snd (vault_target rt vault (cap_tenant_of rt cap)))) (cap_tenant_of rt cap) (db con') = None"
proof -
  obtain vault where v: "wanted_vault rt cap index = Some vault"
    using assms by (cases "wanted_vault rt cap index") (simp_all add: apply_vault_placement_def)
  obtain n con1 where e: "ensure_vault rt vault (cap_tenant_of rt cap) con = (Inr n, con1)"
    using assms v by (auto simp: apply_vault_placement_def and_then_eq_Inr)
  from assms v e ensure_vault_capabilities [OF e] show thesis
    by (intro that [of vault]) (auto simp: apply_vault_placement_def Let_def case_prod_unfold split: option.splits)
qed

lemma wanted_vault_Some:
  assumes "wanted_vault rt cap index = Some vault"
  shows "map_of index (vault_match_key (capability_canonical_tail rt cap)) = Some vault" "vault \<in> {''org'', ''all''}"
    "\<not> (c_source_kind cap = ''system_capability'' \<or> startswith (c_uri cap) ''cap://system/'')"
    "is_draft cap \<Longrightarrow> vault = ''all'' \<Longrightarrow> c_risk_tier cap \<in> {''low'', ''none'', ''medium''}"
  using assms by (auto simp: wanted_vault_def evaluate_risk_tier_policy_def split: if_splits option.splits)

text \<open>Where a placed capability goes, vault by vault.\<close>

lemma placed_target:
  "(c_uri (placed_capability rt vault cap), c_store_id (placed_capability rt vault cap), c_namespace_id (placed_capability rt vault cap)) =
     (let t = cap_tenant_of rt cap; slug = DEFAULT_ORG_SLUG rt; tail = capability_canonical_tail rt cap;
          org = stable_id ''store'' [t, ''org'', slug]; all = stable_id ''store'' [t, ''all_users'', ''all''] in
      if vault = ''org''
      then (''cap://org/'' @ t @ ''/'' @ slug @ ''/shared/'' @ tail, Some org, Some (stable_id ''ns'' [t, org, ''shared'']))
      else (''cap://all/'' @ t @ ''/everyone/'' @ tail, Some all, Some (stable_id ''ns'' [t, all, ''everyone''])))"
  by (simp add: placed_capability_def vault_target_def Let_def case_prod_unfold org_store_id_def org_shared_namespace_id_def
      org_shared_namespace_prefix_def org_store_prefix_def all_users_store_id_def all_users_namespace_id_def all_users_namespace_prefix_def)

text \<open>C30. Vault placement files a capability exactly where the manifest names it: when
  apply_vault_placement returns a placed capability, the manifest lists its key for a vault, and the new
  address, store and namespace are those of that vault, the shared namespace of the organization for org and
  the namespace of all users for all. The capability is no system capability and keeps its content; a draft
  keeps its lifecycle and approval state and enters the namespace of all users only with a low or medium
  tier, anything else is approved and published. The rows of the catalog are untouched, and the key read back
  from the new address is the key of the manifest. When the stored rows of the target namespace have one
  content per key, they still have with the placed row added. This speaks of stored rows: two capabilities
  placed in one batch, before either is stored, do not see each other.\<close>

theorem placement_keeps_slots:
  assumes run: "apply_vault_placement rt cap index con = (Inr (Some placed), con')"
    and addr: "addressable rt cap"
    and slots: "one_content_per_key (c_tenant_id placed) (c_namespace_id placed) (capabilities (db con))"
  shows "(\<exists>vault \<in> {''org'', ''all''}.
      map_of index (vault_match_key (manifest_uri_tail (c_uri placed))) = Some vault
      \<and> (c_uri placed, c_store_id placed, c_namespace_id placed) =
          (let t = cap_tenant_of rt cap; slug = DEFAULT_ORG_SLUG rt; tail = capability_canonical_tail rt cap;
               org = stable_id ''store'' [t, ''org'', slug]; all = stable_id ''store'' [t, ''all_users'', ''all''] in
           if vault = ''org''
           then (''cap://org/'' @ t @ ''/'' @ slug @ ''/shared/'' @ tail, Some org, Some (stable_id ''ns'' [t, org, ''shared'']))
           else (''cap://all/'' @ t @ ''/everyone/'' @ tail, Some all, Some (stable_id ''ns'' [t, all, ''everyone''])))
      \<and> c_source_kind cap \<noteq> ''system_capability'' \<and> \<not> startswith (c_uri cap) ''cap://system/''
      \<and> c_content_hash placed = c_content_hash cap
      \<and> (if c_approval_state cap = ''draft'' \<or> c_lifecycle cap = ''draft''
         then c_lifecycle placed = c_lifecycle cap \<and> c_approval_state placed = c_approval_state cap
           \<and> (vault = ''all'' \<longrightarrow> c_risk_tier cap \<in> {''low'', ''none'', ''medium''})
         else c_lifecycle placed = ''published'' \<and> c_approval_state placed = ''approved''))
    \<and> capabilities (db con') = capabilities (db con)
    \<and> one_content_per_key (c_tenant_id placed) (c_namespace_id placed) (placed # capabilities (db con'))"
proof -
  from run obtain vault where v: "wanted_vault rt cap index = Some vault" "placed = placed_capability rt vault cap"
    "capabilities (db con') = capabilities (db con)"
    "vault_placement_collision cap (vault_match_key (capability_canonical_tail rt cap))
       (fst (snd (vault_target rt vault (cap_tenant_of rt cap)))) (cap_tenant_of rt cap) (db con') = None"
    by (rule apply_vault_placement_Some)
  note w = wanted_vault_Some [OF v(1)]
  have tail: "manifest_uri_tail (c_uri placed) = capability_canonical_tail rt cap"
    unfolding v(2) by (rule placed_tail [OF addr w(2)])
  have state: "if c_approval_state cap = ''draft'' \<or> c_lifecycle cap = ''draft''
      then c_lifecycle placed = c_lifecycle cap \<and> c_approval_state placed = c_approval_state cap
      else c_lifecycle placed = ''published'' \<and> c_approval_state placed = ''approved''"
    by (auto simp: v(2) placed_capability_def is_draft_def Let_def case_prod_unfold)
  have drafts: "vault = ''all'' \<longrightarrow> c_risk_tier cap \<in> {''low'', ''none'', ''medium''}"
    if "c_approval_state cap = ''draft'' \<or> c_lifecycle cap = ''draft''"
    using that w(4) by (auto simp: is_draft_def)
  have free: "c_content_hash r = c_content_hash placed"
    if "r \<in> set (capabilities (db con'))" "c_tenant_id r = c_tenant_id placed" "c_namespace_id r = c_namespace_id placed"
      "vault_match_key (manifest_uri_tail (c_uri r)) = vault_match_key (manifest_uri_tail (c_uri placed))" for r
  proof -
    have "c_tenant_id r = cap_tenant_of rt cap" "c_namespace_id r = Some (fst (snd (vault_target rt vault (cap_tenant_of rt cap))))"
      "vault_match_key (manifest_uri_tail (c_uri r)) = vault_match_key (capability_canonical_tail rt cap)"
      using that tail by (simp_all add: v(2) placed_fields)
    with v(4) that(1) show ?thesis unfolding vault_placement_collision_def find_None_iff v(2) placed_fields by blast
  qed
  have "one_content_per_key (c_tenant_id placed) (c_namespace_id placed) (placed # capabilities (db con'))"
    by (rule one_content_Cons [OF slots [folded v(3)] free])
  moreover have "\<exists>vault \<in> {''org'', ''all''}.
      map_of index (vault_match_key (manifest_uri_tail (c_uri placed))) = Some vault
      \<and> (c_uri placed, c_store_id placed, c_namespace_id placed) =
          (let t = cap_tenant_of rt cap; slug = DEFAULT_ORG_SLUG rt; tail = capability_canonical_tail rt cap;
               org = stable_id ''store'' [t, ''org'', slug]; all = stable_id ''store'' [t, ''all_users'', ''all''] in
           if vault = ''org''
           then (''cap://org/'' @ t @ ''/'' @ slug @ ''/shared/'' @ tail, Some org, Some (stable_id ''ns'' [t, org, ''shared'']))
           else (''cap://all/'' @ t @ ''/everyone/'' @ tail, Some all, Some (stable_id ''ns'' [t, all, ''everyone''])))
      \<and> c_source_kind cap \<noteq> ''system_capability'' \<and> \<not> startswith (c_uri cap) ''cap://system/''
      \<and> c_content_hash placed = c_content_hash cap
      \<and> (if c_approval_state cap = ''draft'' \<or> c_lifecycle cap = ''draft''
         then c_lifecycle placed = c_lifecycle cap \<and> c_approval_state placed = c_approval_state cap
           \<and> (vault = ''all'' \<longrightarrow> c_risk_tier cap \<in> {''low'', ''none'', ''medium''})
         else c_lifecycle placed = ''published'' \<and> c_approval_state placed = ''approved'')"
  proof (intro bexI [of _ vault] conjI)
    show "map_of index (vault_match_key (manifest_uri_tail (c_uri placed))) = Some vault" unfolding tail by (rule w(1))
    show "if c_approval_state cap = ''draft'' \<or> c_lifecycle cap = ''draft''
        then c_lifecycle placed = c_lifecycle cap \<and> c_approval_state placed = c_approval_state cap
          \<and> (vault = ''all'' \<longrightarrow> c_risk_tier cap \<in> {''low'', ''none'', ''medium''})
        else c_lifecycle placed = ''published'' \<and> c_approval_state placed = ''approved''"
      using state drafts by (simp split: if_splits)
  qed (use w placed_fields(3) [of rt vault cap] placed_target [of rt vault cap] v(2) in \<open>simp_all del: insert_iff\<close>)
  ultimately show ?thesis using v(3) by blast
qed

section \<open>Sample data\<close>

text \<open>The catalog has the capability from an earlier placement with the same content.\<close>

definition placing_conn :: conn where
  "placing_conn = sample_conn (empty_database\<lparr>tenants := sample_tenants,
     capabilities := [placed_capability sample_runtime ''all'' sample_capability]\<rparr>)"

definition sample_index :: placement_index where
  "sample_index = [(vault_match_key (capability_canonical_tail sample_runtime sample_capability), ''all'')]"

theorem placement_keeps_slots_witness:
  "\<exists>placed con' old. apply_vault_placement sample_runtime sample_capability sample_index placing_conn = (Inr (Some placed), con')
     \<and> capabilities (db con') = [old]
     \<and> one_content_per_key (c_tenant_id placed) (c_namespace_id placed) [placed, old]"
proof -
  let ?rt = sample_runtime
  let ?old = "placed_capability ?rt ''all'' sample_capability"
  have tenant: "cap_tenant_of ?rt sample_capability = ''asg''" by (simp add: cap_tenant_of_def sample_capability_def)
  have want: "wanted_vault ?rt sample_capability sample_index = Some ''all''"
    by (simp add: wanted_vault_def sample_index_def sample_capability_def is_draft_def startswith_def)
  have ensure: "ensure_vault ?rt ''all'' ''asg'' placing_conn = (Inr (all_users_namespace_id ''asg''), placing_conn)"
    using sample_bootstrapped [of "[]"]
    by (simp add: bootstrapped_def ensure_vault_def ensure_all_users_namespace_def ensure_default_tenant_def placing_conn_def sample_conn_def
        empty_database_def)
  have caps: "capabilities (db placing_conn) = [?old]" by (simp add: placing_conn_def sample_conn_def empty_database_def)
  have run: "apply_vault_placement ?rt sample_capability sample_index placing_conn = (Inr (Some ?old), placing_conn)"
    by (simp add: apply_vault_placement_def want tenant ensure vault_placement_collision_def caps placed_fields(3) Let_def case_prod_unfold)
  have slug: "DEFAULT_ORG_SLUG ?rt = ''the-company''" by (simp add: DEFAULT_ORG_SLUG_def env_or_def sample_runtime_def)
  have "c_type sample_capability \<in> set CAPABILITY_TYPES" by (simp add: sample_capability_def CAPABILITY_TYPES_def)
  then have "addressable ?rt sample_capability" by (simp add: addressable_def tenant slug)
  moreover have "one_content_per_key (c_tenant_id ?old) (c_namespace_id ?old) (capabilities (db placing_conn))"
    unfolding caps by (simp add: one_content_per_key_def)
  ultimately have "one_content_per_key (c_tenant_id ?old) (c_namespace_id ?old) [?old, ?old]"
    using placement_keeps_slots [OF run] caps by simp
  then show ?thesis using run caps by blast
qed

end
