(* ===== verification/Install_Admission.thy ===== *)
theory Install_Admission
  imports Provisioning Py_Payload
begin

text \<open>
  Admission of packages: the guards of the ingest (\<^verbatim>\<open>install_policy.py\<close>, with the authority tiers of
  \<^verbatim>\<open>manifest.py\<close>) and the batch admission of \<^verbatim>\<open>install_guards.py\<close>.

  A resolved path is the list of its segments below the root. What the file system decides is the
  argument \<^verbatim>\<open>file_system\<close>: where a path text leads once the home directory and every link is resolved
  (\<^verbatim>\<open>Path(p).expanduser().resolve()\<close>) and whether a regular file is there. Purely textual operations on
  paths are modelled; the two leading slashes that POSIX keeps apart are read as one. A refusal of
  \<^verbatim>\<open>install_guards.py\<close> carries the values its message is formatted from.
\<close>

section \<open>Paths\<close>

record file_system =
  resolve_path :: "string \<Rightarrow> string list"
  is_file :: "string list \<Rightarrow> bool"

text \<open>A \<^verbatim>\<open>PurePosixPath\<close>: whether it is absolute, and its segments.\<close>

type_synonym pure_path = "bool \<times> string list"

definition parse_path :: "string \<Rightarrow> pure_path" where
  "parse_path s = (startswith s ''/'', filter (\<lambda>p. p \<noteq> [] \<and> p \<noteq> ''.'') (split_on (CHR ''/'') s))"

definition path_text :: "pure_path \<Rightarrow> string" where
  "path_text p = (case p of (True, segs) \<Rightarrow> ''/'' @ join_with ''/'' segs
     | (False, segs) \<Rightarrow> if segs = [] then ''.'' else join_with ''/'' segs)"

definition path_join :: "pure_path \<Rightarrow> pure_path \<Rightarrow> pure_path" where
  "path_join p q = (if fst q then q else (fst p, snd p @ snd q))"

definition absolute_text :: "string list \<Rightarrow> string" where
  "absolute_text segs = path_text (True, segs)"

text \<open>\<^verbatim>\<open>os.path.expandvars\<close>: one pass over \<^verbatim>\<open>$name\<close> and \<^verbatim>\<open>${name}\<close>; an unknown name stays.\<close>

definition env_name_char :: "char \<Rightarrow> bool" where
  "env_name_char c = (ascii_alpha c \<or> ascii_digit c \<or> c = CHR ''_'')"

function expandvars :: "(string \<rightharpoonup> string) \<Rightarrow> string \<Rightarrow> string" where
  "expandvars env [] = []"
| "expandvars env (c # s) =
     (if c \<noteq> CHR ''$'' then c # expandvars env s
      else if startswith s ''{'' \<and> CHR ''}'' \<in> set s then
        (let name = takeWhile (\<lambda>c. c \<noteq> CHR ''}'') (tl s) in
         (case env name of Some v \<Rightarrow> v | None \<Rightarrow> ''${'' @ name @ ''}'') @ expandvars env (drop (length name + 2) s))
      else
        (let name = takeWhile env_name_char s in
         if name = [] then c # expandvars env s
         else (case env name of Some v \<Rightarrow> v | None \<Rightarrow> c # name) @ expandvars env (drop (length name) s)))"
  by pat_completeness auto
termination by (relation "measure (\<lambda>(env, s). length s)") auto

declare expandvars.simps(2) [simp del]

definition normalized_path :: "runtime \<Rightarrow> file_system \<Rightarrow> string \<Rightarrow> string list" where
  "normalized_path rt fs p = resolve_path fs (expandvars (environ rt) p)"

section \<open>Authority of a source\<close>

text \<open>\<^verbatim>\<open>manifest.source_system_for\<close> and \<^verbatim>\<open>source_authority_rank\<close>.\<close>

definition source_system_for :: "string \<Rightarrow> string" where
  "source_system_for s =
     (if substring_in ''/GitHub/asg-os/plugins/'' s \<or> substring_in ''/capability-roots/asg-os-plugins/'' s then ''asg-os.plugins''
      else if substring_in ''/.agents/skill-registry/'' s then ''agents.skill-registry''
      else if substring_in ''/.codex/plugins/cache/'' s then ''codex.plugin-cache''
      else if substring_in ''/.codex/skills/'' s then ''codex.skills''
      else if substring_in ''/.claude/plugins/cache/'' s then ''claude.plugin-cache''
      else ''local'')"

definition source_authority_rank :: "file_system \<Rightarrow> string \<Rightarrow> string \<Rightarrow> nat" where
  "source_authority_rank fs source_system source_path =
     (let path = absolute_text (resolve_path fs source_path) in
      if source_system = ''asg-os.plugins'' then
        (if substring_in ''/.codex/'' path \<or> substring_in ''/.cursor/'' path then 250 else 500)
      else if source_system = ''codex.skills'' \<and> substring_in ''/.codex/skills/.system/'' path then 450
      else if source_system = ''agents.skill-registry'' then 400
      else if source_system = ''codex.skills'' then 300
      else if source_system = ''codex.plugin-cache'' then
        (if substring_in ''/.codex/plugins/cache/openai-curated-remote/'' path then 260
         else if substring_in ''/.codex/plugins/cache/openai-bundled/'' path then 250
         else if substring_in ''/.codex/plugins/cache/openai-curated/'' path then 220
         else 200)
      else if source_system = ''claude.plugin-cache'' then 100
      else 0)"

section \<open>install_policy.py\<close>

text \<open>The pinned actor of an automatic approval.\<close>

definition configured_superadmin_auto_approval :: "runtime \<Rightarrow> string option \<Rightarrow> py_error + string option" where
  "configured_superadmin_auto_approval rt actor =
     (let raw = py_lower (py_strip (env_or rt ''CAPMESH_SUPERADMIN_INSTALL_AUTO_APPROVE'' [])) in
      if raw \<in> {[], ''0'', ''false'', ''no'', ''off''} then Inr None
      else if raw \<notin> {''1'', ''true'', ''yes'', ''on''} then
        Inl (ValueError ''CAPMESH_SUPERADMIN_INSTALL_AUTO_APPROVE must be a boolean value.'')
      else
        let configured = py_lower (py_strip (env_or rt ''CAPMESH_SUPERADMIN_ACTOR'' []));
            listed = parse_superadmin_actors rt;
            allowed = (if listed \<noteq> [] then listed else if configured \<noteq> [] then [configured] else []) in
        if configured \<notin> set allowed then
          Inl (ValueError (''CAPMESH_SUPERADMIN_ACTOR must be one of the configured superadmins: '' @ join_with '', '' allowed))
        else case actor of None \<Rightarrow> Inr (Some configured)
          | Some a \<Rightarrow> let requested = py_lower (py_strip a) in Inr (if requested \<in> set allowed then Some requested else None))"

text \<open>\<^verbatim>\<open>InstallPolicyError\<close> and its subclass \<^verbatim>\<open>SupersededCapability\<close>, with their messages.\<close>

datatype admission_error = InstallPolicyError string | SupersededCapability string

definition release_invariant :: "runtime \<Rightarrow> file_system \<Rightarrow> string \<Rightarrow> pure_path" where
  "release_invariant rt fs p =
     (let parts = normalized_path rt fs p;
          after = takeWhile (\<lambda>s. s \<noteq> ''capability-roots'') (rev parts) in
      if ''capability-roots'' \<in> set parts then (False, ''capability-roots'' # rev after) else (True, parts))"

text \<open>\<^verbatim>\<open>Path.name\<close> and the name of the parent.\<close>

definition path_name :: "string list \<Rightarrow> string" where
  "path_name parts = (if parts = [] then [] else last parts)"

definition is_authority_managed_anchor :: "runtime \<Rightarrow> file_system \<Rightarrow> string \<Rightarrow> bool" where
  "is_authority_managed_anchor rt fs p =
     (let parts = normalized_path rt fs p in
      path_name parts = ''sha256'' \<and> path_name (butlast parts) = ''content''
      \<or> path_name parts = ''capmesh'' \<and> ''releases'' \<in> set parts)"

definition containing_root :: "runtime \<Rightarrow> file_system \<Rightarrow> string \<Rightarrow> string list \<Rightarrow> string list option" where
  "containing_root rt fs package_path roots =
     find (startswith (normalized_path rt fs package_path)) (map (normalized_path rt fs) roots)"

definition assert_body_resolvable :: "runtime \<Rightarrow> file_system \<Rightarrow> string \<Rightarrow> string \<Rightarrow> string list \<Rightarrow> admission_error + string list" where
  "assert_body_resolvable rt fs package_path entrypoint roots =
     (let shown = absolute_text (normalized_path rt fs package_path) in
      if roots = [] then Inl (InstallPolicyError (''no capability roots are configured; refusing to admit '' @ shown
        @ '' because no root could ever serve it''))
      else if ''..'' \<in> set (snd (parse_path entrypoint)) then
        Inl (InstallPolicyError (''capability entrypoint '' @ repr_str entrypoint @ '' traverses upward out of its package (''
          @ shown @ ''); refusing to admit it''))
      else
        let body = normalized_path rt fs (path_text (path_join (parse_path package_path) (parse_path entrypoint))) in
        case containing_root rt fs (absolute_text body) roots of
          None \<Rightarrow> Inl (InstallPolicyError (''capability body '' @ absolute_text body
            @ '' is outside every configured capability root; configured roots are: ''
            @ join_with '', '' (map (\<lambda>r. absolute_text (normalized_path rt fs r)) roots)
            @ ''. Only content under a materialized root can be served by the authority, so admitting this row would register an unservable capability.''))
        | Some root \<Rightarrow>
            if \<not> is_file fs body then
              Inl (InstallPolicyError (''capability body is missing: '' @ absolute_text body @ '' does not exist under capability root ''
                @ absolute_text root @ '' (package path '' @ shown @ '', entrypoint '' @ repr_str entrypoint
                @ ''); refusing to register a capability the authority cannot serve''))
            else Inr root)"

definition authority_rank :: "runtime \<Rightarrow> file_system \<Rightarrow> string \<Rightarrow> nat" where
  "authority_rank rt fs p =
     (let resolved = absolute_text (normalized_path rt fs p) in source_authority_rank fs (source_system_for resolved) resolved)"

text \<open>A row of the catalog as the guard reads it: plugin, name, package path and URI.\<close>

type_synonym registered = "string option \<times> string \<times> string option \<times> string option"

definition same_registration :: "string option \<Rightarrow> string \<Rightarrow> registered \<Rightarrow> bool" where
  "same_registration plugin name row = ((or_else (fst row) [], fst (snd row)) = (or_else plugin [], name))"

definition check_registered ::
  "runtime \<Rightarrow> file_system \<Rightarrow> string option \<Rightarrow> string \<Rightarrow> string option \<Rightarrow> string option \<Rightarrow> registered \<Rightarrow> admission_error + unit" where
  "check_registered rt fs plugin name package_path uri row =
     (if \<not> same_registration plugin name row then Inr ()
      else case fst (snd (snd row)) of None \<Rightarrow> Inr ()
      | Some existing \<Rightarrow>
          if is_authority_managed_anchor rt fs existing then Inr ()
          else let existing_root = release_invariant rt fs existing;
                   existing_uri = or_else (snd (snd (snd row))) ''<unknown uri>'';
                   duplicate = (\<lambda>incoming. InstallPolicyError (''duplicate capability registration refused: plugin=''
                     @ or_else plugin ''<none>'' @ '' name='' @ name @ '' is already registered as '' @ existing_uri
                     @ '' from package root '' @ path_text existing_root @ '', and the incoming copy ''
                     @ or_else uri ''<unknown uri>'' @ '' comes from '' @ incoming
                     @ ''. Two roots for one capability produce split versions and unservable rows; choose which root is canonical and remove the other.'')) in
          case package_path of
            None \<Rightarrow> Inl (duplicate ''<unknown path>'')
          | Some incoming \<Rightarrow>
              if existing_root = release_invariant rt fs incoming then Inr ()
              else if authority_rank rt fs existing < authority_rank rt fs incoming then Inr ()
              else if authority_rank rt fs incoming < authority_rank rt fs existing then
                Inl (SupersededCapability (''capability '' @ or_else plugin ''<none>'' @ ''/'' @ name @ '' from ''
                  @ absolute_text (normalized_path rt fs incoming)
                  @ '' is superseded by the higher-authority copy already registered as '' @ existing_uri @ '' from ''
                  @ path_text existing_root @ ''; skipping the lower-authority copy''))
              else Inl (duplicate (path_text (release_invariant rt fs incoming))))"

fun assert_not_duplicate ::
  "runtime \<Rightarrow> file_system \<Rightarrow> string option \<Rightarrow> string \<Rightarrow> registered list \<Rightarrow> string option \<Rightarrow> string option \<Rightarrow> admission_error + unit" where
  "assert_not_duplicate rt fs plugin name [] package_path uri = Inr ()"
| "assert_not_duplicate rt fs plugin name (row # rows) package_path uri =
     bind_sum (check_registered rt fs plugin name package_path uri row)
       (\<lambda>_. assert_not_duplicate rt fs plugin name rows package_path uri)"

section \<open>install_guards.py\<close>

record candidate =
  cd_plugin :: string
  cd_name :: string
  cd_version :: string
  cd_root :: string
  cd_package_path :: string
  cd_entrypoint :: string

definition candidate_key :: "candidate \<Rightarrow> string \<times> string" where
  "candidate_key c = (cd_plugin c, cd_name c)"

definition candidate_uri :: "candidate \<Rightarrow> string" where
  "candidate_uri c = ''cap://org/asg/'' @ cd_plugin c @ ''/'' @ cd_name c @ ''@'' @ cd_version c"

datatype guard_error =
    EntrypointEscapesRoot candidate "string list" "string list"
  | UnservableEntrypoint candidate "string list" "string list"
  | DuplicateCapability candidate candidate
  | UnknownRoot candidate

definition below :: "file_system \<Rightarrow> string list \<Rightarrow> string \<Rightarrow> string list" where
  "below fs base p = resolve_path fs (path_text (path_join (True, base) (parse_path p)))"

definition package_of :: "file_system \<Rightarrow> candidate \<Rightarrow> string list" where
  "package_of fs c = below fs (resolve_path fs (cd_root c)) (cd_package_path c)"

definition target_of :: "file_system \<Rightarrow> candidate \<Rightarrow> string list" where
  "target_of fs c = below fs (package_of fs c) (cd_entrypoint c)"

definition resolve_entrypoint :: "file_system \<Rightarrow> candidate \<Rightarrow> guard_error + string list" where
  "resolve_entrypoint fs c =
     (let root = resolve_path fs (cd_root c); package = package_of fs c; target = target_of fs c in
      if \<not> startswith target package then Inl (EntrypointEscapesRoot c target package)
      else if \<not> startswith target root then Inl (EntrypointEscapesRoot c target root)
      else Inr target)"

definition check_servable :: "file_system \<Rightarrow> candidate \<Rightarrow> guard_error + string list" where
  "check_servable fs c = bind_sum (resolve_entrypoint fs c) (\<lambda>target.
     if \<not> is_file fs target then Inl (UnservableEntrypoint c (resolve_path fs (cd_root c)) target) else Inr target)"

type_synonym registry = "(string \<times> string) \<rightharpoonup> candidate"

definition check_duplicate :: "file_system \<Rightarrow> candidate \<Rightarrow> registry \<Rightarrow> string list \<Rightarrow> guard_error + string" where
  "check_duplicate fs c known supersedes =
     (case known (candidate_key c) of None \<Rightarrow> Inr ''insert''
      | Some existing \<Rightarrow>
          if resolve_path fs (cd_root existing) = resolve_path fs (cd_root c) then Inr ''revision''
          else if candidate_uri existing \<in> set supersedes then Inr ''supersede''
          else Inl (DuplicateCapability c existing))"

definition admit_one ::
  "file_system \<Rightarrow> string list option \<Rightarrow> string list \<Rightarrow> candidate \<Rightarrow> registry \<Rightarrow> guard_error + string" where
  "admit_one fs roots supersedes c known =
     (if (case roots of None \<Rightarrow> False | Some rs \<Rightarrow> resolve_path fs (cd_root c) \<notin> set (map (resolve_path fs) rs))
      then Inl (UnknownRoot c)
      else bind_sum (check_servable fs c) (\<lambda>_. check_duplicate fs c known supersedes))"

fun admit_from ::
  "file_system \<Rightarrow> string list option \<Rightarrow> string list \<Rightarrow> candidate list \<Rightarrow> registry \<Rightarrow> guard_error + (candidate \<times> string) list" where
  "admit_from fs roots supersedes [] known = Inr []"
| "admit_from fs roots supersedes (c # cs) known =
     bind_sum (admit_one fs roots supersedes c known) (\<lambda>action.
       bind_sum (admit_from fs roots supersedes cs (known(candidate_key c \<mapsto> c))) (\<lambda>ds. Inr ((c, action) # ds)))"

definition admit ::
  "file_system \<Rightarrow> candidate list \<Rightarrow> registry option \<Rightarrow> string list option \<Rightarrow> string list \<Rightarrow> guard_error + (candidate \<times> string) list" where
  "admit fs candidates registry roots supersedes =
     admit_from fs roots supersedes candidates (case registry of None \<Rightarrow> Map.empty | Some m \<Rightarrow> m)"

section \<open>What the guards admit\<close>

lemma body_resolvable_iff:
  "assert_body_resolvable rt fs package_path entrypoint roots = Inr root \<longleftrightarrow>
     ''..'' \<notin> set (snd (parse_path entrypoint))
     \<and> (let body = normalized_path rt fs (path_text (path_join (parse_path package_path) (parse_path entrypoint))) in
        containing_root rt fs (absolute_text body) roots = Some root \<and> is_file fs body)"
  by (auto simp: assert_body_resolvable_def containing_root_def Let_def split: option.splits)

lemma containing_root_Some:
  "containing_root rt fs p roots = Some root \<Longrightarrow>
     startswith (normalized_path rt fs p) root \<and> root \<in> normalized_path rt fs ` set roots"
  by (auto simp: containing_root_def dest: find_SomeD)

text \<open>A row that stands against a registration from a path: the same capability from another source
  root that the incoming one does not outrank.\<close>

definition rival :: "runtime \<Rightarrow> file_system \<Rightarrow> string option \<Rightarrow> string \<Rightarrow> string \<Rightarrow> registered \<Rightarrow> bool" where
  "rival rt fs plugin name path row =
     (same_registration plugin name row
      \<and> (case fst (snd (snd row)) of None \<Rightarrow> False
         | Some existing \<Rightarrow> \<not> is_authority_managed_anchor rt fs existing
             \<and> release_invariant rt fs existing \<noteq> release_invariant rt fs path
             \<and> authority_rank rt fs path \<le> authority_rank rt fs existing))"

lemma check_registered_iff: "check_registered rt fs plugin name (Some path) uri row = Inr () \<longleftrightarrow> \<not> rival rt fs plugin name path row"
  by (auto simp: check_registered_def rival_def Let_def split: option.splits)

lemma not_duplicate_iff:
  "assert_not_duplicate rt fs plugin name rows (Some path) uri = Inr () \<longleftrightarrow> (\<forall>row \<in> set rows. \<not> rival rt fs plugin name path row)"
proof (induction rows)
  case (Cons row rows)
  then show ?case by (simp add: bind_sum_Inr check_registered_iff)
qed simp

text \<open>A candidate whose body can be served from an allowed root.\<close>

definition servable :: "file_system \<Rightarrow> string list option \<Rightarrow> candidate \<Rightarrow> bool" where
  "servable fs roots c =
     ((case roots of None \<Rightarrow> True | Some rs \<Rightarrow> resolve_path fs (cd_root c) \<in> resolve_path fs ` set rs)
      \<and> startswith (target_of fs c) (package_of fs c) \<and> startswith (target_of fs c) (resolve_path fs (cd_root c))
      \<and> is_file fs (target_of fs c))"

lemma check_servable_iff:
  "(\<exists>t. check_servable fs c = Inr t) \<longleftrightarrow> startswith (target_of fs c) (package_of fs c)
     \<and> startswith (target_of fs c) (resolve_path fs (cd_root c)) \<and> is_file fs (target_of fs c)"
  by (auto simp: check_servable_def resolve_entrypoint_def bind_sum_def Let_def)

lemma admit_one_iff:
  "(\<exists>a. admit_one fs roots [] c known = Inr a) \<longleftrightarrow> servable fs roots c
     \<and> (case known (candidate_key c) of None \<Rightarrow> True | Some e \<Rightarrow> resolve_path fs (cd_root e) = resolve_path fs (cd_root c))"
  using check_servable_iff [of fs c]
  by (auto simp: admit_one_def servable_def bind_sum_Inr check_duplicate_def split: option.splits if_splits)

lemma consistent_step:
  fixes k :: "'c \<Rightarrow> 'k" and R :: "'c \<Rightarrow> 'r"
  defines "agrees \<equiv> \<lambda>m x. case m (k x) of None \<Rightarrow> True | Some e \<Rightarrow> R e = R x"
  shows "agrees m c \<and> (\<forall>x \<in> X. \<forall>y \<in> X. k x = k y \<longrightarrow> R x = R y) \<and> (\<forall>x \<in> X. agrees (m(k c \<mapsto> c)) x)
    \<longleftrightarrow> (\<forall>x \<in> insert c X. \<forall>y \<in> insert c X. k x = k y \<longrightarrow> R x = R y) \<and> (\<forall>x \<in> insert c X. agrees m x)" (is "?l \<longleftrightarrow> ?r")
proof -
  have upd: "agrees (m(k c \<mapsto> c)) x \<longleftrightarrow> (if k x = k c then R c = R x else agrees m x)" for x by (simp add: agrees_def)
  have same: "k x = k c \<Longrightarrow> R c = R x \<Longrightarrow> agrees m c \<longleftrightarrow> agrees m x" for x
    by (simp add: agrees_def split: option.split)
  show ?thesis
  proof
    assume l: ?l
    have later: "agrees (m(k c \<mapsto> c)) x" if "x \<in> X" for x using l that by blast
    have c: "R c = R x" if "x \<in> X" "k x = k c" for x using upd [of x] later [OF that(1)] that(2) by simp
    have first: "agrees m c" using l by blast
    have "agrees m x" if "x \<in> insert c X" for x
    proof (cases "x = c")
      case False
      with that have x: "x \<in> X" by blast
      show ?thesis
      proof (cases "k x = k c")
        case True
        then show ?thesis using same [OF True c [OF x True]] first by blast
      qed (use upd [of x] later [OF x] in simp)
    qed (use first in simp)
    moreover have "R x = R y" if "x \<in> insert c X" "y \<in> insert c X" "k x = k y" for x y
      using that l c by (metis insertE)
    ultimately show ?r by blast
  next
    assume r: ?r
    have "agrees (m(k c \<mapsto> c)) x" if "x \<in> X" for x
    proof -
      have "agrees m x" "k x = k c \<Longrightarrow> R c = R x" using r that by (blast, metis insertCI)
      then show ?thesis using upd [of x] by simp
    qed
    with r show ?l by blast
  qed
qed

lemma admit_from_iff:
  "(\<exists>ds. admit_from fs roots [] cs known = Inr ds) \<longleftrightarrow> (\<forall>c \<in> set cs. servable fs roots c)
     \<and> (\<forall>c \<in> set cs. \<forall>c' \<in> set cs. candidate_key c = candidate_key c' \<longrightarrow> resolve_path fs (cd_root c) = resolve_path fs (cd_root c'))
     \<and> (\<forall>c \<in> set cs. case known (candidate_key c) of None \<Rightarrow> True | Some e \<Rightarrow> resolve_path fs (cd_root e) = resolve_path fs (cd_root c))"
proof (induction cs arbitrary: known)
  case (Cons c cs)
  have "(\<exists>ds. admit_from fs roots [] (c # cs) known = Inr ds) \<longleftrightarrow>
      (\<exists>a. admit_one fs roots [] c known = Inr a) \<and> (\<exists>ds. admit_from fs roots [] cs (known(candidate_key c \<mapsto> c)) = Inr ds)"
    by (auto simp: bind_sum_Inr)
  then show ?case
    unfolding admit_one_iff Cons.IH list.set
    using consistent_step [where m = known and k = candidate_key and R = "\<lambda>c. resolve_path fs (cd_root c)" and c = c and X = "set cs"]
    by blast
qed simp

lemma admitted_candidates: "admit_from fs roots repl cs known = Inr ds \<Longrightarrow> map fst ds = cs"
  by (induction cs arbitrary: known ds) (auto simp: bind_sum_Inr)

text \<open>A batch without superseding is admitted exactly when nothing is wrong with any of it: every
  candidate comes from an allowed root, its resolved entrypoint is a file inside its package and inside
  its root, and no capability of the batch or of the registry comes from two different roots.\<close>

theorem batch_without_superseding:
  "(case admit fs cs registry roots [] of Inl _ \<Rightarrow> False | Inr ds \<Rightarrow> map fst ds = cs) \<longleftrightarrow>
     (\<forall>c \<in> set cs. servable fs roots c)
     \<and> (\<forall>c \<in> set cs. \<forall>c' \<in> set cs. candidate_key c = candidate_key c' \<longrightarrow> resolve_path fs (cd_root c) = resolve_path fs (cd_root c'))
     \<and> (\<forall>c \<in> set cs. \<forall>m e. registry = Some m \<longrightarrow> m (candidate_key c) = Some e \<longrightarrow> resolve_path fs (cd_root e) = resolve_path fs (cd_root c))"
proof -
  let ?known = "case registry of None \<Rightarrow> Map.empty | Some m \<Rightarrow> m"
  have "(case admit fs cs registry roots [] of Inl _ \<Rightarrow> False | Inr ds \<Rightarrow> map fst ds = cs)
      \<longleftrightarrow> (\<exists>ds. admit_from fs roots [] cs ?known = Inr ds)"
    using admitted_candidates [of fs roots "[]" cs ?known] by (auto simp: admit_def split: sum.split)
  moreover have "(\<forall>c \<in> set cs. case ?known (candidate_key c) of None \<Rightarrow> True | Some e \<Rightarrow> resolve_path fs (cd_root e) = resolve_path fs (cd_root c))
      \<longleftrightarrow> (\<forall>c \<in> set cs. \<forall>m e. registry = Some m \<longrightarrow> m (candidate_key c) = Some e \<longrightarrow> resolve_path fs (cd_root e) = resolve_path fs (cd_root c))"
    by (auto split: option.splits)
  ultimately show ?thesis unfolding admit_from_iff by simp
qed

section \<open>The order of admission\<close>

text \<open>Specification of one decision. What holds the key of the i-th candidate when its turn comes is the
  last earlier candidate of the batch with that key, else the entry of the registry. A candidate is refused
  with the first of the errors that applies, else inserted, or a revision or a superseding of the
  holder.\<close>

definition key_holder :: "registry \<Rightarrow> candidate list \<Rightarrow> nat \<Rightarrow> candidate option" where
  "key_holder known cs i =
     (case find (\<lambda>e. candidate_key e = candidate_key (cs ! i)) (rev (take i cs)) of
        Some e \<Rightarrow> Some e | None \<Rightarrow> known (candidate_key (cs ! i)))"

definition refusal :: "file_system \<Rightarrow> string list option \<Rightarrow> string list \<Rightarrow> candidate option \<Rightarrow> candidate \<Rightarrow> guard_error option" where
  "refusal fs roots supersedes held c =
     (let root = resolve_path fs (cd_root c);
          package = below fs root (cd_package_path c);
          target = below fs package (cd_entrypoint c) in
      if \<exists>rs. roots = Some rs \<and> root \<notin> resolve_path fs ` set rs then Some (UnknownRoot c)
      else if \<not> startswith target package then Some (EntrypointEscapesRoot c target package)
      else if \<not> startswith target root then Some (EntrypointEscapesRoot c target root)
      else if \<not> is_file fs target then Some (UnservableEntrypoint c root target)
      else case held of None \<Rightarrow> None
        | Some e \<Rightarrow> if resolve_path fs (cd_root e) \<noteq> root \<and> candidate_uri e \<notin> set supersedes
                    then Some (DuplicateCapability c e) else None)"

definition admission_action :: "file_system \<Rightarrow> candidate option \<Rightarrow> candidate \<Rightarrow> string" where
  "admission_action fs held c =
     (case held of None \<Rightarrow> ''insert''
      | Some e \<Rightarrow> if resolve_path fs (cd_root e) = resolve_path fs (cd_root c) then ''revision'' else ''supersede'')"

lemma admit_one_decides:
  "admit_one fs roots supersedes c known =
     (case refusal fs roots supersedes (known (candidate_key c)) c of
        Some e \<Rightarrow> Inl e | None \<Rightarrow> Inr (admission_action fs (known (candidate_key c)) c))"
  by (auto simp: admit_one_def refusal_def admission_action_def check_servable_def resolve_entrypoint_def check_duplicate_def
      target_of_def package_of_def bind_sum_def Let_def split: option.splits)

lemma key_holder_Cons:
  "key_holder known (c # cs) 0 = known (candidate_key c)"
  "key_holder known (c # cs) (Suc i) = key_holder (known(candidate_key c \<mapsto> c)) cs i"
  by (auto simp: key_holder_def find_append split: option.split)

lemma admit_from_decides:
  "case admit_from fs roots supersedes cs known of
     Inr ds \<Rightarrow> map fst ds = cs
       \<and> (\<forall>i < length cs. refusal fs roots supersedes (key_holder known cs i) (cs ! i) = None
            \<and> snd (ds ! i) = admission_action fs (key_holder known cs i) (cs ! i))
   | Inl e \<Rightarrow> \<exists>i < length cs. refusal fs roots supersedes (key_holder known cs i) (cs ! i) = Some e
       \<and> (\<forall>j < i. refusal fs roots supersedes (key_holder known cs j) (cs ! j) = None)"
proof (induction cs arbitrary: known)
  case (Cons c cs)
  let ?known = "known(candidate_key c \<mapsto> c)"
  show ?case
  proof (cases "refusal fs roots supersedes (known (candidate_key c)) c")
    case (Some e)
    then have "admit_from fs roots supersedes (c # cs) known = Inl e" by (simp add: admit_one_decides bind_sum_def)
    moreover have "refusal fs roots supersedes (key_holder known (c # cs) 0) ((c # cs) ! 0) = Some e"
      using Some by (simp add: key_holder_Cons)
    ultimately show ?thesis by (auto intro: exI [of _ 0])
  next
    case None
    show ?thesis
    proof (cases "admit_from fs roots supersedes cs ?known")
      case (Inl e)
      then obtain i where i: "i < length cs" "refusal fs roots supersedes (key_holder ?known cs i) (cs ! i) = Some e"
        "\<forall>j < i. refusal fs roots supersedes (key_holder ?known cs j) (cs ! j) = None"
        using Cons.IH [of ?known, unfolded Inl sum.case] by blast
      moreover have "\<forall>j < Suc i. refusal fs roots supersedes (key_holder known (c # cs) j) ((c # cs) ! j) = None"
        using i(3) None by (simp add: All_less_Suc2 key_holder_Cons)
      moreover have "admit_from fs roots supersedes (c # cs) known = Inl e"
        unfolding admit_from.simps admit_one_decides None option.case bind_sum_def sum.case Inl ..
      ultimately show ?thesis
        by (auto simp: key_holder_Cons simp del: fun_upd_apply admit_from.simps intro!: exI [of _ "Suc i"])
    next
      case (Inr ds)
      note ih = Cons.IH [of ?known, unfolded Inr sum.case]
      have "admit_from fs roots supersedes (c # cs) known = Inr ((c, admission_action fs (known (candidate_key c)) c) # ds)"
        unfolding admit_from.simps admit_one_decides None option.case bind_sum_def sum.case Inr ..
      then show ?thesis using ih None by (simp add: All_less_Suc2 key_holder_Cons del: fun_upd_apply admit_from.simps)
    qed
  qed
qed simp

text \<open>C31. admit decides a batch candidate by candidate. It returns one decision per candidate, in order,
  exactly when none is refused; otherwise it raises the error of the first candidate that is. A candidate is
  refused when its root is not an allowed one, when its resolved entrypoint leaves its package or its root
  or is no file, or when its key is held from another root by a candidate that is not named as superseded,
  the holder being the last earlier candidate of the batch with that key or else the registry entry; the
  error is the first of these. An admitted candidate is an insert when nobody holds its key, a revision when
  the holder has the same root, and supersedes the holder otherwise.\<close>

theorem batch_admission_exact:
  "case admit fs cs registry roots supersedes of
     Inr ds \<Rightarrow> map fst ds = cs
       \<and> (\<forall>i < length cs.
            refusal fs roots supersedes (key_holder (case registry of None \<Rightarrow> Map.empty | Some m \<Rightarrow> m) cs i) (cs ! i) = None
            \<and> snd (ds ! i) = admission_action fs (key_holder (case registry of None \<Rightarrow> Map.empty | Some m \<Rightarrow> m) cs i) (cs ! i))
   | Inl e \<Rightarrow> \<exists>i < length cs.
       refusal fs roots supersedes (key_holder (case registry of None \<Rightarrow> Map.empty | Some m \<Rightarrow> m) cs i) (cs ! i) = Some e
       \<and> (\<forall>j < i. refusal fs roots supersedes (key_holder (case registry of None \<Rightarrow> Map.empty | Some m \<Rightarrow> m) cs j) (cs ! j) = None)"
  unfolding admit_def by (rule admit_from_decides)

section \<open>Sample data\<close>

text \<open>A file system without links, on which every path is a file.\<close>

definition plain_files :: file_system where
  "plain_files = \<lparr>resolve_path = (\<lambda>p. snd (parse_path p)), is_file = (\<lambda>_. True)\<rparr>"

definition sample_candidate :: candidate where
  "sample_candidate = \<lparr>cd_plugin = ''p'', cd_name = ''s'', cd_version = ''1'', cd_root = ''/r'', cd_package_path = ''p'',
     cd_entrypoint = ''s.md''\<rparr>"

definition rival_candidate :: candidate where
  "rival_candidate = sample_candidate\<lparr>cd_root := ''/q''\<rparr>"

lemma sample_servable: "refusal plain_files None supersedes None sample_candidate = None"
  "refusal plain_files None supersedes None rival_candidate = None"
  by (simp_all add: refusal_def below_def plain_files_def sample_candidate_def rival_candidate_def parse_path_def
        path_join_def path_text_def startswith_def Let_def)

text \<open>A second copy from another root ends the batch, and is admitted when it supersedes the first.\<close>

theorem batch_admission_exact_witness:
  "(\<exists>e. admit plain_files [sample_candidate, rival_candidate] None None [] = Inl e)
   \<and> (\<exists>a b. admit plain_files [sample_candidate, rival_candidate] None None [candidate_uri sample_candidate]
        = Inr [(sample_candidate, a), (rival_candidate, b)] \<and> b = ''supersede'')"
proof -
  let ?cs = "[sample_candidate, rival_candidate]"
  have key: "candidate_key rival_candidate = candidate_key sample_candidate"
    by (simp add: candidate_key_def rival_candidate_def)
  have held: "key_holder Map.empty ?cs 0 = None" "key_holder Map.empty ?cs 1 = Some sample_candidate"
    by (simp_all add: key_holder_def key)
  have roots: "resolve_path plain_files (cd_root sample_candidate) \<noteq> resolve_path plain_files (cd_root rival_candidate)"
    by (simp add: plain_files_def sample_candidate_def rival_candidate_def parse_path_def)
  have r: "refusal plain_files None supersedes (Some sample_candidate) rival_candidate
      = (if candidate_uri sample_candidate \<in> set supersedes then None else Some (DuplicateCapability rival_candidate sample_candidate))"
    for supersedes
    using sample_servable(2) [of supersedes] roots by (auto simp: refusal_def Let_def split: if_splits)
  have "\<exists>e. admit plain_files ?cs None None [] = Inl e"
  proof (cases "admit plain_files ?cs None None []")
    case (Inr ds)
    with batch_admission_exact [where fs = plain_files and cs = ?cs and registry = None and roots = None and supersedes = "[]"] held(2) r [of "[]"] show ?thesis by (auto dest!: spec [of _ 1])
  qed blast
  moreover have "\<exists>ds. admit plain_files ?cs None None [candidate_uri sample_candidate] = Inr ds
      \<and> map fst ds = ?cs \<and> snd (ds ! 1) = ''supersede''"
  proof (cases "admit plain_files ?cs None None [candidate_uri sample_candidate]")
    case (Inl e)
    with batch_admission_exact [where fs = plain_files and cs = ?cs and registry = None and roots = None and supersedes = "[candidate_uri sample_candidate]"]
    obtain i where "i < Suc (Suc 0)" "refusal plain_files None [candidate_uri sample_candidate] (key_holder Map.empty ?cs i) (?cs ! i) = Some e"
      by auto
    with held r [of "[candidate_uri sample_candidate]"] sample_servable(1) have False by (auto simp: less_Suc_eq)
    then show ?thesis ..
  next
    case (Inr ds)
    with batch_admission_exact [where fs = plain_files and cs = ?cs and registry = None and roots = None and supersedes = "[candidate_uri sample_candidate]"] held(2) roots
    show ?thesis by (auto simp: admission_action_def dest!: spec [of _ 1])
  qed
  ultimately show ?thesis by (auto simp: Cons_eq_map_conv)
qed

end
