(* ===== verification/Source_Merge.thy ===== *)
theory Source_Merge
  imports Install_Admission "HOL-Library.Product_Lexorder" "HOL-Library.Multiset"
begin

text \<open>
  Mirrors of one capability: the merge by canonical key at discovery (\<^verbatim>\<open>manifest.merge_duplicate_capabilities\<close>),
  the merge by final address (\<^verbatim>\<open>index._merge_by_effective_uri\<close>) and the provenance rows of a capability
  (\<^verbatim>\<open>index._capability_source_rows\<close>). The order on tuples is Python's, lexicographic. The lines printed to
  stderr are left out.
\<close>

section \<open>Ranking the sources\<close>

definition normalize_path :: "file_system \<Rightarrow> string \<Rightarrow> string" where
  "normalize_path fs p = absolute_text (resolve_path fs p)"

definition strict_collisions :: "runtime \<Rightarrow> bool" where
  "strict_collisions rt = (py_lower (py_strip (env_or rt ''CAPMESH_STRICT_COLLISIONS'' [])) \<in> {''1'', ''true'', ''yes''})"

definition authority :: "file_system \<Rightarrow> capability \<Rightarrow> nat" where
  "authority fs c = source_authority_rank fs (c_source_system c) (c_source_path c)"

definition canonical_order :: "file_system \<Rightarrow> capability \<Rightarrow> int \<times> string \<times> string" where
  "canonical_order fs c = (- int (authority fs c), c_source_system c, normalize_path fs (c_source_path c))"

definition effective_order :: "file_system \<Rightarrow> capability \<Rightarrow> int \<times> string \<times> string \<times> string" where
  "effective_order fs c = (- int (authority fs c), c_canonical_key c, c_source_system c, normalize_path fs (c_source_path c))"

text \<open>The sources that share the highest tier, and their paths when they disagree on the content.\<close>

definition top_peers :: "file_system \<Rightarrow> capability list \<Rightarrow> capability list" where
  "top_peers fs ranked = filter (\<lambda>c. authority fs c = authority fs (hd ranked)) ranked"

definition ambiguous_sources :: "file_system \<Rightarrow> capability list \<Rightarrow> string list" where
  "ambiguous_sources fs ranked =
     (if 1 < card (set (map c_content_hash (top_peers fs ranked)))
      then sort (map (\<lambda>c. normalize_path fs (c_source_path c)) (top_peers fs ranked)) else [])"

section \<open>Provenance\<close>

type_synonym provenance = "string \<times> string \<times> string \<times> string"

definition own_provenance :: "file_system \<Rightarrow> capability \<Rightarrow> provenance" where
  "own_provenance fs c = (normalize_path fs (c_source_path c), c_source_kind c, c_source_system c, c_content_hash c)"

definition item_text :: "json \<Rightarrow> string \<Rightarrow> string \<Rightarrow> string" where
  "item_text item k d = py_str (json_or (get_of k item) (JStr d))"

definition prior_provenance :: "file_system \<Rightarrow> capability \<Rightarrow> provenance list" where
  "prior_provenance fs c =
     (case pget (c_metadata c) ''sourceProvenance'' of
        JList items \<Rightarrow> map (\<lambda>item. (normalize_path fs (py_str (get_of ''sourcePath'' item)), item_text item ''sourceKind'' (c_source_kind c),
            item_text item ''sourceSystem'' (c_source_system c), item_text item ''contentHash'' (c_content_hash c)))
          (filter (\<lambda>item. is_dict item \<and> json_truthy (get_of ''sourcePath'' item)) items)
      | _ \<Rightarrow> [])"

definition effective_provenance :: "file_system \<Rightarrow> capability \<Rightarrow> py_error + provenance list" where
  "effective_provenance fs c =
     bind_sum (iterate (json_or (pget (c_metadata c) ''sourcePaths'') (JList [JStr (c_source_path c)]))) (\<lambda>paths.
       Inr (prior_provenance fs c @
         map (\<lambda>p. (normalize_path fs (py_str p), c_source_kind c, c_source_system c, c_content_hash c))
           (filter (\<lambda>p. json_truthy p \<and> normalize_path fs (py_str p) \<notin> set (map fst (prior_provenance fs c))) paths)))"

definition provenance_json :: "provenance \<Rightarrow> json" where
  "provenance_json p = (case p of (path, kind, system, hash) \<Rightarrow>
     JObj [(''sourcePath'', JStr path), (''sourceKind'', JStr kind), (''sourceSystem'', JStr system), (''contentHash'', JStr hash)])"

definition source_authority_json :: "file_system \<Rightarrow> capability \<Rightarrow> payload" where
  "source_authority_json fs winner = [(''selectedSourcePath'', JStr (normalize_path fs (c_source_path winner))),
     (''selectedSourceSystem'', JStr (c_source_system winner)), (''rank'', JInt (int (authority fs winner)))]"

definition merged_metadata :: "file_system \<Rightarrow> string \<Rightarrow> capability \<Rightarrow> provenance list \<Rightarrow> string list \<Rightarrow> payload" where
  "merged_metadata fs marker winner provs ambiguous =
     (let sources = sorted_list_of_set (set provs);
          md = dict_set ''sourceProvenance'' (JList (map provenance_json sources))
            (dict_set ''sourcePaths'' (JList (map JStr (sorted_list_of_set (set (map fst provs))))) (c_metadata winner));
          conflicts = filter (\<lambda>p. snd (snd (snd p)) \<noteq> c_content_hash winner) sources;
          md = (if conflicts = [] then md
            else dict_set ''sourceAuthority'' (JObj (source_authority_json fs winner))
              (dict_set ''sourceConflicts'' (JList (map provenance_json conflicts)) (dict_set ''staleMirrorDetected'' (JBool True) md)))
      in if ambiguous = [] then md
         else dict_set ''sourceAuthority'' (JObj (source_authority_json fs winner @ [(''resolvedBy'', JStr ''deterministic-tiebreak'')]))
           (dict_set ''ambiguousSources'' (JList (map JStr ambiguous)) (dict_set marker (JBool True) md)))"

section \<open>The two merges\<close>

text \<open>The groups of a dictionary of lists, in insertion order of the keys.\<close>

definition keys_in_order :: "('a \<Rightarrow> string) \<Rightarrow> 'a list \<Rightarrow> string list" where
  "keys_in_order k xs = rev (remdups (rev (map k xs)))"

definition group_of :: "('a \<Rightarrow> string) \<Rightarrow> 'a list \<Rightarrow> string \<Rightarrow> 'a list" where
  "group_of k xs key = filter (\<lambda>x. k x = key) xs"

fun collect_results :: "(py_error + 'a) list \<Rightarrow> py_error + 'a list" where
  "collect_results [] = Inr []"
| "collect_results (r # rs) = bind_sum r (\<lambda>x. bind_sum (collect_results rs) (\<lambda>xs. Inr (x # xs)))"

definition merge_canonical_group :: "runtime \<Rightarrow> file_system \<Rightarrow> capability list \<Rightarrow> py_error + capability" where
  "merge_canonical_group rt fs caps =
     (let ranked = sort_key (canonical_order fs) caps; preferred = hd ranked; ambiguous = ambiguous_sources fs ranked in
      if ambiguous \<noteq> [] \<and> strict_collisions rt then
        Inl (ValueError (''capmesh: ambiguous canonical-key collision for '' @ c_canonical_key preferred
          @ '': equal-authority sources contain different content: '' @ py_repr (JList (map JStr ambiguous))
          @ ''; selected '' @ normalize_path fs (c_source_path preferred)
          @ '' deterministically. Recorded as ambiguousAuthorityCollision in capability metadata.''))
      else Inr (preferred\<lparr>c_metadata := merged_metadata fs ''ambiguousAuthorityCollision'' preferred
        (map (own_provenance fs) caps) ambiguous\<rparr>))"

definition merge_duplicate_capabilities :: "runtime \<Rightarrow> file_system \<Rightarrow> capability list \<Rightarrow> py_error + capability list" where
  "merge_duplicate_capabilities rt fs caps =
     bind_sum (collect_results (map (\<lambda>key. merge_canonical_group rt fs (group_of c_canonical_key caps key))
       (keys_in_order c_canonical_key caps))) (\<lambda>merged. Inr (sort_key c_uri merged))"

definition merge_effective_group :: "runtime \<Rightarrow> file_system \<Rightarrow> capability list \<Rightarrow> py_error + capability" where
  "merge_effective_group rt fs caps =
     (if length caps = 1 then Inr (hd caps)
      else let ranked = sort_key (effective_order fs) caps; winner = hd ranked; ambiguous = ambiguous_sources fs ranked in
      if ambiguous \<noteq> [] \<and> strict_collisions rt then
        Inl (ValueError (''effective URI collision for '' @ c_uri winner @ '': equal-authority sources contain ''
          @ str_of_nat (card (set (map c_content_hash (top_peers fs ranked)))) @ '' content hashes: ''
          @ py_repr (JList (map JStr ambiguous)) @ ''; selected '' @ normalize_path fs (c_source_path winner)
          @ '' deterministically. Recorded as ambiguousEffectiveUriCollision in capability metadata.''))
      else bind_sum (collect_results (map (effective_provenance fs) caps)) (\<lambda>provs.
        Inr (winner\<lparr>c_metadata := merged_metadata fs ''ambiguousEffectiveUriCollision'' winner (concat provs) ambiguous\<rparr>)))"

definition merge_by_effective_uri :: "runtime \<Rightarrow> file_system \<Rightarrow> capability list \<Rightarrow> py_error + capability list" where
  "merge_by_effective_uri rt fs caps =
     collect_results (map (\<lambda>uri. merge_effective_group rt fs (group_of c_uri caps uri)) (sorted_list_of_set (set (map c_uri caps))))"

section \<open>Source rows\<close>

definition source_row_of :: "capability \<Rightarrow> provenance \<Rightarrow> source_row" where
  "source_row_of c p = (case p of (path, kind, system, hash) \<Rightarrow>
     \<lparr>cs_source_path = path, cs_uri = c_uri c, cs_source_kind = kind, cs_source_system = system, cs_content_hash = hash\<rparr>)"

fun add_prior_sources :: "provenance list \<Rightarrow> (string \<times> provenance) list \<Rightarrow> py_error + (string \<times> provenance) list" where
  "add_prior_sources [] sources = Inr sources"
| "add_prior_sources (p # ps) sources =
     (if map_of sources (fst p) \<notin> {None, Some p} then
        Inl (ValueError (''conflicting provenance records for source path '' @ fst p))
      else add_prior_sources ps (dict_set (fst p) p sources))"

definition setdefault_source :: "provenance \<Rightarrow> (string \<times> provenance) list \<Rightarrow> (string \<times> provenance) list" where
  "setdefault_source p sources = (case map_of sources (fst p) of None \<Rightarrow> dict_set (fst p) p sources | Some _ \<Rightarrow> sources)"

definition raw_source_paths :: "capability \<Rightarrow> py_error + json list" where
  "raw_source_paths c =
     (case json_or (pget (c_metadata c) ''sourcePaths'') (JList [JStr (c_source_path c)]) of
        JStr s \<Rightarrow> Inr [JStr s] | v \<Rightarrow> iterate v)"

definition capability_source_rows :: "file_system \<Rightarrow> capability \<Rightarrow> py_error + source_row list" where
  "capability_source_rows fs c =
     bind_sum (add_prior_sources (prior_provenance fs c) []) (\<lambda>prior.
     bind_sum (raw_source_paths c) (\<lambda>paths.
       let sources = fold (\<lambda>p. setdefault_source (normalize_path fs (py_str p), c_source_kind c, c_source_system c, c_content_hash c)) paths prior;
           sources = setdefault_source (own_provenance fs c) sources
       in Inr (map (\<lambda>path. source_row_of c (the (map_of sources path))) (sorted_list_of_set (set (map fst sources))))))"

section \<open>The merge picks by authority, not by discovery order\<close>

lemma collect_results_Inr: "collect_results rs = Inr xs \<longleftrightarrow> rs = map Inr xs"
  by (induction rs arbitrary: xs) (auto simp: bind_sum_Inr)

lemma collect_results_Inl: "collect_results rs = Inl e \<Longrightarrow> Inl e \<in> set rs"
  by (induction rs) (auto simp: bind_sum_def split: sum.splits)

lemma collect_results_Inr_ex: "(\<exists>xs. collect_results rs = Inr xs) \<longleftrightarrow> (\<forall>r \<in> set rs. \<exists>x. r = Inr x)"
  by (induction rs) (auto simp: bind_sum_Inr)

lemma effective_provenance_Inl: "effective_provenance fs c = Inl e \<Longrightarrow> e = TypeErr ''object is not iterable''"
  by (auto simp: effective_provenance_def bind_sum_def iterate_def split: sum.splits json.splits)

lemma all_provenance_perm:
  assumes "mset caps = mset caps'"
  shows "(\<exists>p p'. collect_results (map (effective_provenance fs) caps) = Inr p \<and> set (concat p) = set (concat p')
      \<and> collect_results (map (effective_provenance fs) caps') = Inr p')
    \<or> (collect_results (map (effective_provenance fs) caps) = Inl (TypeErr ''object is not iterable'')
      \<and> collect_results (map (effective_provenance fs) caps') = Inl (TypeErr ''object is not iterable''))"
proof -
  have sets: "set caps = set caps'" using assms by (rule mset_eq_setD)
  have ok: "(\<exists>p. collect_results (map (effective_provenance fs) caps) = Inr p)
      \<longleftrightarrow> (\<exists>p. collect_results (map (effective_provenance fs) caps') = Inr p)"
    unfolding collect_results_Inr_ex by (simp add: sets)
  have err: "e = TypeErr ''object is not iterable''" if "collect_results (map (effective_provenance fs) cs) = Inl e" for cs e
    using collect_results_Inl [OF that] effective_provenance_Inl by auto
  have parts: "set p = (\<lambda>c. projr (effective_provenance fs c)) ` set cs"
    if "collect_results (map (effective_provenance fs) cs) = Inr p" for cs p
  proof -
    have "map (effective_provenance fs) cs = map Inr p" using that by (simp only: collect_results_Inr)
    from arg_cong [OF this, of "\<lambda>rs. set (map projr rs)"] show ?thesis by (simp add: image_image)
  qed
  show ?thesis
  proof (cases "collect_results (map (effective_provenance fs) caps)")
    case (Inl e)
    then obtain e' where "collect_results (map (effective_provenance fs) caps') = Inl e'"
      using ok by (cases "collect_results (map (effective_provenance fs) caps')") auto
    with Inl err show ?thesis by blast
  next
    case (Inr p)
    then obtain p' where p': "collect_results (map (effective_provenance fs) caps') = Inr p'" using ok by blast
    then have "set p = set p'" using parts [OF Inr] parts [OF p'] sets by simp
    with Inr p' show ?thesis by auto
  qed
qed

lemma merged_metadata_set: "set ps = set ps' \<Longrightarrow> merged_metadata fs marker w ps am = merged_metadata fs marker w ps' am"
  by (simp add: merged_metadata_def)

lemma merge_effective_group_perm:
  assumes perm: "mset caps = mset caps'" and inj: "inj_on (effective_order fs) (set caps)"
  shows "merge_effective_group rt fs caps = merge_effective_group rt fs caps'"
proof -
  have len: "length caps = length caps'" using perm by (rule mset_eq_length)
  have sorted: "sort_key (effective_order fs) caps = sort_key (effective_order fs) caps'"
    by (rule sort_key_inj_key_eq [OF _ inj]) (simp_all add: perm)
  show ?thesis
  proof (cases "length caps = 1")
    case True
    then obtain c where c: "caps = [c]" by (cases caps) auto
    with perm have "caps' = [c]" by (metis mset_zero_iff_right mset_single_iff mset_single_iff_right mset.simps(1) mset.simps(2))
    with c show ?thesis by simp
  next
    case False
    from all_provenance_perm [OF perm, of fs] show ?thesis
    proof (elim disjE exE conjE)
      fix p p'
      assume p: "collect_results (map (effective_provenance fs) caps) = Inr p" "set (concat p) = set (concat p')"
        "collect_results (map (effective_provenance fs) caps') = Inr p'"
      have "merged_metadata fs m w (concat p) am = merged_metadata fs m w (concat p') am" for m w am
        by (rule merged_metadata_set [OF p(2)])
      with False len p show ?thesis unfolding merge_effective_group_def sorted by (simp add: Let_def bind_sum_def)
    qed (use False len in \<open>simp add: merge_effective_group_def sorted Let_def bind_sum_def\<close>)
  qed
qed

lemma merge_effective_perm:
  assumes perm: "mset caps = mset caps'"
    and inj: "\<forall>c \<in> set caps. \<forall>c' \<in> set caps. c_uri c = c_uri c' \<longrightarrow> effective_order fs c = effective_order fs c' \<longrightarrow> c = c'"
  shows "merge_by_effective_uri rt fs caps = merge_by_effective_uri rt fs caps'"
proof -
  have "merge_effective_group rt fs (group_of c_uri caps u) = merge_effective_group rt fs (group_of c_uri caps' u)" for u
  proof (rule merge_effective_group_perm)
    show "mset (group_of c_uri caps u) = mset (group_of c_uri caps' u)" using perm by (simp add: group_of_def)
    show "inj_on (effective_order fs) (set (group_of c_uri caps u))"
      using inj by (auto simp: inj_on_def group_of_def)
  qed
  moreover have "set caps = set caps'" using perm by (rule mset_eq_setD)
  ultimately show ?thesis by (simp add: merge_by_effective_uri_def)
qed

lemma ranked_hd:
  assumes "caps \<noteq> []"
  shows "hd (sort_key (effective_order fs) caps) \<in> set caps"
    and "c \<in> set caps \<Longrightarrow> authority fs c \<le> authority fs (hd (sort_key (effective_order fs) caps))"
proof -
  let ?r = "sort_key (effective_order fs) caps"
  have r: "?r \<noteq> []" using assms by (metis length_0_conv length_sort)
  then show "hd ?r \<in> set caps" using list.set_sel(1) [OF r] by simp
  show "authority fs c \<le> authority fs (hd ?r)" if "c \<in> set caps"
  proof -
    have "sorted (map (effective_order fs) ?r)" by (rule sorted_sort_key)
    moreover have "effective_order fs c \<in> set (map (effective_order fs) ?r)" using that by simp
    ultimately have "effective_order fs (hd ?r) \<le> effective_order fs c"
      using r by (cases ?r) auto
    then show ?thesis by (auto simp: effective_order_def less_eq_prod_def)
  qed
qed

lemma merge_effective_group_Inr:
  assumes "merge_effective_group rt fs caps = Inr m" "caps \<noteq> []"
  shows "\<exists>c \<in> set caps. m = c\<lparr>c_metadata := c_metadata m\<rparr> \<and> (\<forall>c' \<in> set caps. authority fs c' \<le> authority fs c)
    \<and> (strict_collisions rt \<longrightarrow> (\<forall>c' \<in> set caps. authority fs c' = authority fs c \<longrightarrow> c_content_hash c' = c_content_hash c))"
proof (cases "length caps = 1")
  case True
  then obtain c where "caps = [c]" by (cases caps) auto
  with assms show ?thesis by (simp add: merge_effective_group_def)
next
  case False
  let ?r = "sort_key (effective_order fs) caps"
  let ?w = "hd ?r"
  have m: "m = ?w\<lparr>c_metadata := c_metadata m\<rparr>" and amb: "strict_collisions rt \<Longrightarrow> ambiguous_sources fs ?r = []"
    using assms(1) False by (auto simp: merge_effective_group_def Let_def bind_sum_Inr split: if_splits)
  note w = ranked_hd(1) [OF assms(2), of fs] ranked_hd(2) [OF assms(2)]
  have "c_content_hash c' = c_content_hash ?w"
    if "strict_collisions rt" "c' \<in> set caps" "authority fs c' = authority fs ?w" for c'
  proof -
    have peers: "?w \<in> set (top_peers fs ?r)" "c' \<in> set (top_peers fs ?r)" using w(1) that by (auto simp: top_peers_def)
    then have "sort (map (\<lambda>c. normalize_path fs (c_source_path c)) (top_peers fs ?r)) \<noteq> []"
      by (metis (no_types) length_0_conv length_map length_sort list.set(1) empty_iff)
    with amb [OF that(1)] have "\<not> 1 < card (set (map c_content_hash (top_peers fs ?r)))"
      by (auto simp: ambiguous_sources_def split: if_splits)
    moreover have "c_content_hash ?w \<in> set (map c_content_hash (top_peers fs ?r))"
      "c_content_hash c' \<in> set (map c_content_hash (top_peers fs ?r))" using peers by auto
    ultimately show ?thesis by (metis List.finite_set card_le_Suc0_iff_eq One_nat_def linorder_not_less)
  qed
  with m w show ?thesis by blast
qed

lemma extended_metadata:
  assumes "m = c\<lparr>c_metadata := md\<rparr>"
  shows "c_uri m = c_uri c" "c_content_hash m = c_content_hash c" "c_tenant_id m = c_tenant_id c"
    "c_source_kind m = c_source_kind c" "c_canonical_key m = c_canonical_key c"
  using assms by simp_all

lemma merge_by_effective_uri_Inr:
  assumes run: "merge_by_effective_uri rt fs caps = Inr merged"
  shows "map c_uri merged = sorted_list_of_set (c_uri ` set caps)
    \<and> (\<forall>m \<in> set merged. \<exists>c \<in> set caps. m = c\<lparr>c_metadata := c_metadata m\<rparr>
        \<and> (\<forall>c' \<in> set caps. c_uri c' = c_uri m \<longrightarrow> authority fs c' \<le> authority fs c)
        \<and> (strict_collisions rt \<longrightarrow> (\<forall>c' \<in> set caps. c_uri c' = c_uri m \<longrightarrow> authority fs c' = authority fs c
            \<longrightarrow> c_content_hash c' = c_content_hash c)))"
proof -
  let ?uris = "sorted_list_of_set (set (map c_uri caps))"
  have groups: "map (\<lambda>u. merge_effective_group rt fs (group_of c_uri caps u)) ?uris = map Inr merged"
    using run unfolding merge_by_effective_uri_def collect_results_Inr .
  then have len: "length merged = length ?uris" by (metis length_map)
  have nth: "merge_effective_group rt fs (group_of c_uri caps (?uris ! i)) = Inr (merged ! i)" "group_of c_uri caps (?uris ! i) \<noteq> []"
    if "i < length merged" for i
  proof -
    show "merge_effective_group rt fs (group_of c_uri caps (?uris ! i)) = Inr (merged ! i)"
      using that len arg_cong [OF groups, of "\<lambda>l. l ! i"] by simp
    have "?uris ! i \<in> set ?uris" using that len by (metis nth_mem)
    then show "group_of c_uri caps (?uris ! i) \<noteq> []" by (auto simp: group_of_def filter_empty_conv)
  qed
  have pick: "c_uri (merged ! i) = ?uris ! i \<and> (\<exists>c \<in> set caps. merged ! i = c\<lparr>c_metadata := c_metadata (merged ! i)\<rparr>
        \<and> (\<forall>c' \<in> set caps. c_uri c' = c_uri (merged ! i) \<longrightarrow> authority fs c' \<le> authority fs c)
        \<and> (strict_collisions rt \<longrightarrow> (\<forall>c' \<in> set caps. c_uri c' = c_uri (merged ! i) \<longrightarrow> authority fs c' = authority fs c
            \<longrightarrow> c_content_hash c' = c_content_hash c)))" if "i < length merged" for i
  proof -
    from merge_effective_group_Inr [OF nth [OF that]] obtain c where c: "c \<in> set (group_of c_uri caps (?uris ! i))"
      "merged ! i = c\<lparr>c_metadata := c_metadata (merged ! i)\<rparr>"
      "\<forall>c' \<in> set (group_of c_uri caps (?uris ! i)). authority fs c' \<le> authority fs c"
      "strict_collisions rt \<longrightarrow> (\<forall>c' \<in> set (group_of c_uri caps (?uris ! i)). authority fs c' = authority fs c \<longrightarrow> c_content_hash c' = c_content_hash c)"
      by blast
    from c(1) extended_metadata(1) [OF c(2)] have u: "c_uri (merged ! i) = ?uris ! i" "c \<in> set caps" by (auto simp: group_of_def)
    with c show ?thesis by (auto simp: group_of_def)
  qed
  have "map c_uri merged = ?uris" using pick len by (intro nth_equalityI) auto
  moreover have "\<forall>m \<in> set merged. \<exists>c \<in> set caps. m = c\<lparr>c_metadata := c_metadata m\<rparr>
        \<and> (\<forall>c' \<in> set caps. c_uri c' = c_uri m \<longrightarrow> authority fs c' \<le> authority fs c)
        \<and> (strict_collisions rt \<longrightarrow> (\<forall>c' \<in> set caps. c_uri c' = c_uri m \<longrightarrow> authority fs c' = authority fs c
            \<longrightarrow> c_content_hash c' = c_content_hash c))"
    using pick by (metis in_set_conv_nth)
  ultimately show ?thesis by simp
qed

text \<open>C32. Mirrors are merged by authority and not by discovery order: when _merge_by_effective_uri returns,
  there is one capability per address, in the order of the addresses; each is one of the discovered
  ones with only its metadata extended, no source of that address has a higher authority tier, and in
  strict mode every source of the same tier carries the same content. Any other discovery order of the
  same capabilities gives the same result, as long as two sources of one address differ in their rank,
  key, system or path.\<close>

theorem merge_follows_authority:
  assumes run: "merge_by_effective_uri rt fs caps = Inr merged"
  shows "map c_uri merged = sorted_list_of_set (c_uri ` set caps)
    \<and> (\<forall>m \<in> set merged. \<exists>c \<in> set caps. m = c\<lparr>c_metadata := c_metadata m\<rparr>
        \<and> (\<forall>c' \<in> set caps. c_uri c' = c_uri m \<longrightarrow> authority fs c' \<le> authority fs c)
        \<and> (strict_collisions rt \<longrightarrow> (\<forall>c' \<in> set caps. c_uri c' = c_uri m \<longrightarrow> authority fs c' = authority fs c
            \<longrightarrow> c_content_hash c' = c_content_hash c)))
    \<and> (\<forall>caps'. mset caps = mset caps' \<longrightarrow>
        (\<forall>c \<in> set caps. \<forall>c' \<in> set caps. c_uri c = c_uri c' \<longrightarrow> effective_order fs c = effective_order fs c' \<longrightarrow> c = c')
        \<longrightarrow> merge_by_effective_uri rt fs caps' = Inr merged)"
  using merge_by_effective_uri_Inr [OF run] merge_effective_perm [of caps _ fs rt] run by simp

theorem merge_follows_authority_witness:
  "\<exists>m. merge_by_effective_uri sample_runtime plain_files
       [sample_capability\<lparr>c_source_system := ''claude.plugin-cache'', c_source_path := ''/t'', c_content_hash := ''sha256:1''\<rparr>, sample_capability]
       = Inr [m] \<and> c_content_hash m = ''sha256:0''"
proof -
  let ?mirror = "sample_capability\<lparr>c_source_system := ''claude.plugin-cache'', c_source_path := ''/t'', c_content_hash := ''sha256:1''\<rparr>"
  let ?caps = "[?mirror, sample_capability]"
  have auth: "authority plain_files ?mirror = 100" "authority plain_files sample_capability = 500"
    by (simp_all add: authority_def source_authority_rank_def sample_capability_def plain_files_def parse_path_def
        absolute_text_def path_text_def startswith_def Let_def)
  have prov: "effective_provenance plain_files c = Inr [own_provenance plain_files c]" if "c \<in> set ?caps" for c
    using that by (auto simp: effective_provenance_def own_provenance_def prior_provenance_def sample_capability_def pget_def
        json_or_def json_truthy_def iterate_def bind_sum_def py_str_def)
  have "\<not> strict_collisions sample_runtime"
    by (simp add: strict_collisions_def env_or_def sample_runtime_def py_strip_def py_lstrip_def py_rstrip_def py_lower_def)
  then obtain m where run: "merge_by_effective_uri sample_runtime plain_files ?caps = Inr [m]"
    using prov by (auto simp: merge_by_effective_uri_def merge_effective_group_def group_of_def Let_def bind_sum_def)
  have "m \<in> set [m]" by simp
  from bspec [OF conjunct1 [OF conjunct2 [OF merge_follows_authority [OF run]]] this] obtain c
    where c: "c \<in> set ?caps" "m = c\<lparr>c_metadata := c_metadata m\<rparr>"
      "\<forall>c' \<in> set ?caps. c_uri c' = c_uri m \<longrightarrow> authority plain_files c' \<le> authority plain_files c" by blast
  have "c_uri m = c_uri sample_capability" using extended_metadata(1) [OF c(2)] c(1) by auto
  with c(3) have "authority plain_files sample_capability \<le> authority plain_files c" by simp
  with c(1) auth have "c = sample_capability" by auto
  with extended_metadata(2) [OF c(2)] have "c_content_hash m = c_content_hash sample_capability" by simp
  then show ?thesis using run by (auto simp: sample_capability_def)
qed

end
