(* ===== verification/Catalog_Ingest.thy ===== *)
theory Catalog_Ingest
  imports Vault_Placement Source_Merge Quarantine_Store Lifecycle_Transitions Promotions Dependency_Graph
begin

text \<open>
  The ingest of discovered capabilities (\<^verbatim>\<open>index.py\<close>): admission guards, quarantine before indexing, the
  upsert of a row with its governance state, the move of a row to a new address, and the transaction
  of \<^verbatim>\<open>ingest_index\<close>.

  The crawler is a parameter: its result, the list of discovered capabilities, is the argument of the
  ingest, as are the file system, the vault manifest, and whether the embedding of a capability can be
  written (\<^verbatim>\<open>embeds\<close>, which is told whether the indexed text is unchanged). The connection is the one
  \<^verbatim>\<open>init_db\<close> returned. \<^verbatim>\<open>coverage_report\<close> walks the roots once more and writes nothing: its outcome after the
  commit, a report or an exception, is an argument (\<^verbatim>\<open>coverage_of\<close>). The vector table is not in the model;
  whether its repair at the end of the run committed is an argument too (\<^verbatim>\<open>repairs\<close>). The version report
  and the provenance statement of the run, which write nothing and whose exceptions are dropped, are left
  out.
\<close>

section \<open>Upsert of a row\<close>

definition index_text :: "capability \<Rightarrow> string" where
  "index_text c = join_with [CHR 0x0A] (filter (\<lambda>x. x \<noteq> []) [c_name c, c_title c, c_description c, c_type c,
     or_else (c_plugin c) [], or_else (c_category c) [], join_with '' '' (c_keywords c)])"

text \<open>An explicit lifecycle change without a change of content has to follow the transition table.\<close>

definition clamp_lifecycle :: "database \<Rightarrow> capability \<Rightarrow> capability" where
  "clamp_lifecycle d cap =
     (case find (\<lambda>r. c_uri r = c_uri cap) (capabilities d) of None \<Rightarrow> cap
      | Some r \<Rightarrow>
          if c_lifecycle r \<noteq> c_lifecycle cap \<and> c_content_hash r = c_content_hash cap
            \<and> \<not> is_valid_transition (c_lifecycle r) (c_lifecycle cap) None
          then cap\<lparr>c_lifecycle := c_lifecycle r\<rparr> else cap)"

definition downgrade :: "bool \<Rightarrow> string \<Rightarrow> string \<Rightarrow> string \<Rightarrow> string \<Rightarrow> string" where
  "downgrade same strong weak old new = (if same then old else if old = strong then weak else new)"

text \<open>ON CONFLICT(uri) DO UPDATE: the governance columns follow the content.\<close>

definition merge_row :: "capability \<Rightarrow> capability \<Rightarrow> capability" where
  "merge_row row cap =
     (let same = (c_content_hash row = c_content_hash cap) in
      cap\<lparr>c_row_id := c_row_id row,
        c_lifecycle := (if same \<and> c_approval_state row = ''approved'' then c_lifecycle row else c_lifecycle cap),
        c_submitted_by := (case c_submitted_by row of None \<Rightarrow> c_submitted_by cap | Some s \<Rightarrow> Some s),
        c_promoted_from_uri := (case c_promoted_from_uri row of None \<Rightarrow> c_promoted_from_uri cap | Some u \<Rightarrow> Some u),
        c_approval_state := downgrade same ''approved'' ''pending'' (c_approval_state row) (c_approval_state cap),
        c_share_state := downgrade same ''shared'' ''not_shared'' (c_share_state row) (c_share_state cap),
        c_signature_status := downgrade same ''verified'' ''pending'' (c_signature_status row) (c_signature_status cap),
        c_provenance_status := downgrade same ''verified'' ''pending'' (c_provenance_status row) (c_provenance_status cap),
        c_risk_review_status := downgrade same ''approved'' ''pending'' (c_risk_review_status row) (c_risk_review_status cap)\<rparr>)"

text \<open>The WHERE clause that suppresses an update without effect: the columns written unconditionally, the
  lifecycle when it would be written, and the two columns that are only filled in.\<close>

definition address_columns where
  "address_columns c = (c_content_hash c, c_canonical_key c, c_tenant_id c, c_store_id c, c_namespace_id c, c_type c,
     c_name c, c_version c, c_title c, c_description c)"

definition source_columns where
  "source_columns c = (c_package_path c, c_entrypoint c, c_source_path c, c_source_kind c, c_source_system c,
     c_visibility c, c_discovery_mode c, c_owner c, c_plugin c, c_category c)"

definition policy_columns where
  "policy_columns c = (c_keywords c, c_required_scopes c, c_allow_groups c, c_allow_users c, c_risk_tier c, c_mutating c,
     c_created_by c, json_dumps_spaced (JObj (c_metadata c)), c_source_commit c, c_license c)"

definition row_differs :: "capability \<Rightarrow> capability \<Rightarrow> bool" where
  "row_differs row cap =
     (address_columns row \<noteq> address_columns cap \<or> source_columns row \<noteq> source_columns cap \<or> policy_columns row \<noteq> policy_columns cap
      \<or> \<not> (c_content_hash row = c_content_hash cap \<and> c_approval_state row = ''approved'') \<and> c_lifecycle row \<noteq> c_lifecycle cap
      \<or> c_submitted_by row = None \<and> c_submitted_by cap \<noteq> None
      \<or> c_promoted_from_uri row = None \<and> c_promoted_from_uri cap \<noteq> None)"

definition legal_columns :: "capability \<Rightarrow> bool" where
  "legal_columns c = (c_type c \<in> set CAPABILITY_TYPES \<and> c_visibility c \<in> set VISIBILITIES
     \<and> c_discovery_mode c \<in> set DISCOVERY_MODES \<and> c_risk_tier c \<in> set RISK_TIERS)"

definition next_row_id :: "capability list \<Rightarrow> nat" where
  "next_row_id rows = Suc (fold max (map c_row_id rows) 0)"

definition upsert_row :: "capability \<Rightarrow> database \<Rightarrow> py_error + database" where
  "upsert_row cap d =
     (if \<not> legal_columns cap then Inl (IntegrityError ''CHECK constraint failed: capabilities'')
      else case find (\<lambda>r. c_uri r = c_uri cap) (capabilities d) of
        None \<Rightarrow>
          if list_ex (\<lambda>r. c_canonical_key r = c_canonical_key cap) (capabilities d)
          then Inl (IntegrityError ''UNIQUE constraint failed: capabilities.canonical_key'')
          else Inr (d\<lparr>capabilities := capabilities d @ [cap\<lparr>c_row_id := next_row_id (capabilities d)\<rparr>]\<rparr>)
      | Some row \<Rightarrow>
          if \<not> row_differs row cap then Inr d
          else if list_ex (\<lambda>r. c_uri r \<noteq> c_uri cap \<and> c_canonical_key r = c_canonical_key cap) (capabilities d)
          then Inl (IntegrityError ''UNIQUE constraint failed: capabilities.canonical_key'')
          else Inr (d\<lparr>capabilities := update_where (\<lambda>r. c_uri r = c_uri cap) (\<lambda>r. merge_row r cap) (capabilities d)\<rparr>))"

definition fts_of :: "capability \<Rightarrow> nat \<Rightarrow> fts_row" where
  "fts_of c row_id = \<lparr>ft_row_id = row_id, ft_uri = c_uri c, ft_name = c_name c, ft_title = c_title c,
     ft_description = c_description c, ft_keywords = join_with '' '' (c_keywords c), ft_plugin = or_else (c_plugin c) [],
     ft_category = or_else (c_category c) [], ft_content = index_text c\<rparr>"

definition upsert_source :: "source_row \<Rightarrow> source_row list \<Rightarrow> source_row list" where
  "upsert_source s t =
     (if list_ex (\<lambda>r. cs_source_path r = cs_source_path s) t then update_where (\<lambda>r. cs_source_path r = cs_source_path s) (\<lambda>_. s) t
      else t @ [s])"

definition sync_sources :: "string \<Rightarrow> source_row list \<Rightarrow> source_row list \<Rightarrow> source_row list" where
  "sync_sources uri expected t =
     (if order_by cs_source_path (filter (\<lambda>r. cs_uri r = uri) t) = expected then t
      else delete_where (\<lambda>r. cs_uri r = uri \<and> cs_source_path r \<notin> set (map cs_source_path expected)) (fold upsert_source expected t))"

definition sync_fts :: "fts_row \<Rightarrow> fts_row list \<Rightarrow> fts_row list" where
  "sync_fts expected t =
     (if find (\<lambda>f. ft_row_id f = ft_row_id expected) t = Some expected then t
      else delete_where (\<lambda>f. ft_row_id f = ft_row_id expected) t @ [expected])"

definition upsert_capability :: "runtime \<Rightarrow> file_system \<Rightarrow> capability \<Rightarrow> conn \<Rightarrow> (conn, nat) outcome" where
  "upsert_capability rt fs cap0 con =
     (let cap = clamp_lifecycle (db con) (apply_default_user_namespace rt cap0) in
      case upsert_row cap (db con) of Inl e \<Rightarrow> (Inl e, con)
      | Inr d \<Rightarrow>
          let con1 = con\<lparr>db := d\<rparr> in
          case find (\<lambda>r. c_uri r = c_uri cap) (capabilities d) of
            None \<Rightarrow> (Inl (RuntimeErr (''Failed to upsert capability '' @ c_uri cap)), con1)
          | Some row \<Rightarrow>
              and_then (lift_result (capability_source_rows fs cap) con1) (\<lambda>expected con2.
                (Inr (c_row_id row), with_db (\<lambda>d. d\<lparr>
                   capability_sources := sync_sources (c_uri cap) expected (capability_sources d),
                   capability_fts := sync_fts (fts_of cap (c_row_id row)) (capability_fts d)\<rparr>) con2)))"

section \<open>Moving a row\<close>

definition migrate_canonical_uri :: "string \<Rightarrow> string \<Rightarrow> conn \<Rightarrow> (conn, unit) outcome" where
  "migrate_canonical_uri old new con =
     (if old = new \<or> \<not> list_ex (\<lambda>c. c_uri c = old) (capabilities (db con)) then (Inr (), con)
      else
        let con1 = with_db (\<lambda>d. d\<lparr>capability_sources := delete_where (\<lambda>r. cs_uri r = old) (capability_sources d)\<rparr>) con in
        if list_ex (\<lambda>c. c_uri c = new) (capabilities (db con1))
        then (Inl (IntegrityError ''UNIQUE constraint failed: capabilities.uri''), con1)
        else
          let con2 = with_db (\<lambda>d. d\<lparr>
                capabilities := update_where (\<lambda>c. c_uri c = old) (c_uri_update (\<lambda>_. new)) (capabilities d),
                shares := update_where (\<lambda>s. sh_capability_uri s = old) (sh_capability_uri_update (\<lambda>_. new)) (shares d),
                promotion_requests := update_where (\<lambda>r. pr_capability_uri r = old) (pr_capability_uri_update (\<lambda>_. new))
                  (promotion_requests d)\<rparr>) con1;
              tuples = update_where (\<lambda>t. rt_object t = old) (rt_object_update (\<lambda>_. new)) (relationship_tuples (db con2)) in
          if \<not> distinct (map tuple_key tuples) then (Inl (IntegrityError ''UNIQUE constraint failed: relationship_tuples''), con2)
          else (Inr (), with_db (\<lambda>d. d\<lparr>relationship_tuples := tuples,
            policy_decisions := update_where (\<lambda>p. pd_resource p = old) (pd_resource_update (\<lambda>_. new)) (policy_decisions d)\<rparr>) con2))"

section \<open>The discovered batch\<close>

record ingest_env =
  ie_files :: file_system
  ie_manifest :: "json option"
  ie_vector :: bool
  embeds :: "capability \<Rightarrow> bool \<Rightarrow> bool"
  ie_classes :: char_classes
  ie_sources :: "string \<Rightarrow> source_file"
  coverage_of :: "database \<Rightarrow> py_error + json"
  repairs :: bool

record ingest_tally =
  ig_added :: nat
  ig_updated :: nat
  ig_unchanged :: nat
  ig_removed :: nat
  ig_vectors :: nat
  ig_failures :: nat
  ig_consecutive :: nat
  ig_aborted :: bool

definition no_tally :: ingest_tally where
  "no_tally = \<lparr>ig_added = 0, ig_updated = 0, ig_unchanged = 0, ig_removed = 0, ig_vectors = 0, ig_failures = 0,
     ig_consecutive = 0, ig_aborted = False\<rparr>"

text \<open>The address a discovered capability will have.\<close>

definition place_one :: "runtime \<Rightarrow> placement_index \<Rightarrow> capability \<Rightarrow> conn \<Rightarrow> (conn, capability) outcome" where
  "place_one rt index cap con =
     and_then (apply_vault_placement rt cap index con) (\<lambda>placed con1.
       (Inr (case placed of Some p \<Rightarrow> p | None \<Rightarrow> apply_default_user_namespace rt cap), con1))"

fun place_all :: "runtime \<Rightarrow> placement_index \<Rightarrow> capability list \<Rightarrow> conn \<Rightarrow> (conn, capability list) outcome" where
  "place_all rt index [] con = (Inr [], con)"
| "place_all rt index (cap # caps) con =
     and_then (place_one rt index cap con) (\<lambda>p con1.
       and_then (place_all rt index caps con1) (\<lambda>ps con2. (Inr (p # ps), con2)))"

definition previous_row :: "database \<Rightarrow> capability \<Rightarrow> capability option" where
  "previous_row d cap =
     (case find (\<lambda>r. c_uri r = c_uri cap) (capabilities d) of Some r \<Rightarrow> Some r
      | None \<Rightarrow> find (\<lambda>r. c_canonical_key r = c_canonical_key cap) (capabilities d))"

text \<open>An approved promotion keeps its address and its placement.\<close>

definition promoted_row :: "capability \<Rightarrow> bool" where
  "promoted_row row = (truthy (c_promoted_from_uri row) \<and> c_approval_state row = ''approved'')"

definition keep_promotion :: "capability option \<Rightarrow> capability \<Rightarrow> capability" where
  "keep_promotion previous cap =
     (case previous of None \<Rightarrow> cap
      | Some row \<Rightarrow> if promoted_row row
          then cap\<lparr>c_uri := c_uri row, c_store_id := c_store_id row, c_namespace_id := c_namespace_id row,
            c_visibility := c_visibility row, c_discovery_mode := c_discovery_mode row, c_owner := c_owner row,
            c_submitted_by := c_submitted_by row, c_promoted_from_uri := c_promoted_from_uri row\<rparr>
          else cap)"

definition previous_text :: "database \<Rightarrow> capability option \<Rightarrow> string option" where
  "previous_text d previous =
     (case previous of None \<Rightarrow> None
      | Some row \<Rightarrow> map_option ft_content (find (\<lambda>f. ft_row_id f = c_row_id row) (capability_fts d)))"

definition count_change :: "capability option \<Rightarrow> capability \<Rightarrow> ingest_tally \<Rightarrow> ingest_tally" where
  "count_change previous cap tally =
     (case previous of None \<Rightarrow> tally\<lparr>ig_added := Suc (ig_added tally)\<rparr>
      | Some row \<Rightarrow> if c_content_hash row = c_content_hash cap then tally\<lparr>ig_unchanged := Suc (ig_unchanged tally)\<rparr>
          else tally\<lparr>ig_updated := Suc (ig_updated tally)\<rparr>)"

definition hold :: "database \<Rightarrow> capability \<Rightarrow> capability" where
  "hold d cap = (if capguard_is_held d cap then cap\<lparr>c_lifecycle := ''draft'', c_approval_state := ''pending''\<rparr> else cap)"

definition mark_vector_failure :: "nat \<Rightarrow> conn \<Rightarrow> conn" where
  "mark_vector_failure row_id con = with_db (\<lambda>d. d\<lparr>capabilities := update_where (\<lambda>c. c_row_id c = row_id)
     (\<lambda>c. if pget (c_metadata c) ''vectorStatus'' = JStr ''failed'' then c
          else c\<lparr>c_metadata := dict_set ''vectorStatus'' (JStr ''failed'') (c_metadata c)\<rparr>) (capabilities d)\<rparr>) con"

definition MAX_CONSECUTIVE_FAILURES :: nat where
  "MAX_CONSECUTIVE_FAILURES = 25"

definition write_vector :: "ingest_env \<Rightarrow> nat \<Rightarrow> capability \<Rightarrow> bool \<Rightarrow> ingest_tally \<Rightarrow> conn \<Rightarrow> ingest_tally \<times> conn" where
  "write_vector env row_id cap unchanged tally con =
     (if \<not> ie_vector env \<or> ig_aborted tally then (tally, con)
      else if embeds env cap unchanged then (tally\<lparr>ig_vectors := Suc (ig_vectors tally), ig_consecutive := 0\<rparr>, con)
      else (tally\<lparr>ig_failures := Suc (ig_failures tally), ig_consecutive := Suc (ig_consecutive tally),
              ig_aborted := MAX_CONSECUTIVE_FAILURES \<le> Suc (ig_consecutive tally)\<rparr>, mark_vector_failure row_id con))"

definition upsert_one :: "runtime \<Rightarrow> ingest_env \<Rightarrow> capability \<Rightarrow> ingest_tally \<Rightarrow> conn \<Rightarrow> (conn, ingest_tally) outcome" where
  "upsert_one rt env cap tally con =
     (let previous = previous_row (db con) cap;
          effective = keep_promotion previous cap;
          old_text = previous_text (db con) previous in
      and_then (case previous of None \<Rightarrow> (Inr (), con)
          | Some row \<Rightarrow> if c_uri row \<noteq> c_uri effective then migrate_canonical_uri (c_uri row) (c_uri effective) con else (Inr (), con))
        (\<lambda>_ con1.
          let written = hold (db con1) effective in
          and_then (upsert_capability rt (ie_files env) written con1) (\<lambda>row_id con2.
            let (tally2, con3) = write_vector env row_id written (old_text = Some (index_text written))
                  (count_change previous effective tally) con2
            in (Inr tally2, con3))))"

fun upsert_all :: "runtime \<Rightarrow> ingest_env \<Rightarrow> capability list \<Rightarrow> ingest_tally \<Rightarrow> conn \<Rightarrow> (conn, ingest_tally) outcome" where
  "upsert_all rt env [] tally con = (Inr tally, con)"
| "upsert_all rt env (cap # caps) tally con =
     and_then (upsert_one rt env cap tally con) (\<lambda>tally1 con1. upsert_all rt env caps tally1 con1)"

section \<open>Retired identities\<close>

definition crawled :: "capability \<Rightarrow> bool" where
  "crawled c = (c_source_kind c \<notin> {''system_capability'', ''capmesh_draft''})"

definition orphaned :: "database \<Rightarrow> capability list" where
  "orphaned d = order_by c_uri (filter (\<lambda>c. crawled c \<and> \<not> list_ex (\<lambda>s. cs_uri s = c_uri c) (capability_sources d)) (capabilities d))"

definition active_blockers :: "database \<Rightarrow> string \<Rightarrow> payload" where
  "active_blockers d uri =
     map (\<lambda>(name, n). (name, JInt (int n))) (filter (\<lambda>(name, n). n \<noteq> 0)
       [(''shares'', rowcount (\<lambda>s. sh_capability_uri s = uri) (shares d)),
        (''pendingPromotions'', rowcount (\<lambda>r. pr_capability_uri r = uri \<and> pr_state r = ''pending'') (promotion_requests d)),
        (''relationships'', rowcount (\<lambda>t. rt_object t = uri) (relationship_tuples d)),
        (''roleAssignments'', rowcount (\<lambda>a. ra_scope_type a = ''capability'' \<and> ra_scope_id a = uri \<and> ra_revoked_at a = None)
          (role_assignments d))])"

fun delete_orphans :: "capability list \<Rightarrow> conn \<Rightarrow> (conn, nat) outcome" where
  "delete_orphans [] con = (Inr 0, con)"
| "delete_orphans (row # rows) con =
     (let active = active_blockers (db con) (c_uri row) in
      if active \<noteq> [] then
        (Inl (RuntimeErr (''source reassignment stranded governed capability '' @ c_uri row @ '': '' @ py_repr (JObj active))), con)
      else and_then (delete_orphans rows (with_db (\<lambda>d. d\<lparr>
          capability_fts := delete_where (\<lambda>f. ft_row_id f = c_row_id row) (capability_fts d),
          capabilities := delete_where (\<lambda>c. c_row_id c = c_row_id row) (capabilities d)\<rparr>) con)) (\<lambda>n con1. (Inr (Suc n), con1)))"

definition delete_source_orphaned_capabilities :: "conn \<Rightarrow> (conn, nat) outcome" where
  "delete_source_orphaned_capabilities con = delete_orphans (orphaned (db con)) con"

definition upsert_discovered :: "runtime \<Rightarrow> ingest_env \<Rightarrow> capability list \<Rightarrow> conn \<Rightarrow> (conn, ingest_tally) outcome" where
  "upsert_discovered rt env caps con =
     and_then (lift_result (load_vault_placement_index (ie_manifest env)) con) (\<lambda>index con.
     and_then (place_all rt index caps con) (\<lambda>effective con.
     and_then (lift_result (merge_by_effective_uri rt (ie_files env) effective) con) (\<lambda>merged con.
     and_then (upsert_all rt env merged no_tally con) (\<lambda>tally con.
     and_then (delete_source_orphaned_capabilities con) (\<lambda>removed con.
       (Inr (tally\<lparr>ig_removed := removed\<rparr>), con))))))"

section \<open>Guards and quarantine\<close>

definition registered_of :: "capability \<Rightarrow> registered" where
  "registered_of c = (c_plugin c, c_name c, Some (c_package_path c), Some (c_uri c))"

text \<open>A superseded copy is dropped from the batch; every other refusal ends the ingest.\<close>

fun guard_batch ::
  "runtime \<Rightarrow> file_system \<Rightarrow> string list \<Rightarrow> registered list \<Rightarrow> capability list \<Rightarrow> py_error + capability list" where
  "guard_batch rt fs roots known [] = Inr []"
| "guard_batch rt fs roots known (cap # caps) =
     (case assert_body_resolvable rt fs (c_package_path cap) (c_entrypoint cap) roots of
        Inl (InstallPolicyError m) \<Rightarrow> Inl (ValueError m)
      | Inl (SupersededCapability m) \<Rightarrow> Inl (ValueError m)
      | Inr root \<Rightarrow>
          (case assert_not_duplicate rt fs (c_plugin cap) (c_name cap) known (Some (c_package_path cap)) (Some (c_uri cap)) of
             Inl (InstallPolicyError m) \<Rightarrow> Inl (ValueError m)
           | Inl (SupersededCapability m) \<Rightarrow> guard_batch rt fs roots known caps
           | Inr _ \<Rightarrow> bind_sum (guard_batch rt fs roots (known @ [registered_of cap]) caps) (\<lambda>admitted. Inr (cap # admitted))))"

definition enforce_install_guards ::
  "runtime \<Rightarrow> file_system \<Rightarrow> string list \<Rightarrow> database \<Rightarrow> capability list \<Rightarrow> py_error + capability list" where
  "enforce_install_guards rt fs roots d caps =
     guard_batch rt fs roots (map registered_of (filter (\<lambda>c. c_lifecycle c \<noteq> ''removed'') (capabilities d))) caps"

definition existing_capability_identity :: "database \<Rightarrow> string \<rightharpoonup> string" where
  "existing_capability_identity d = map_of (rev (map (\<lambda>c. (c_uri c, c_content_hash c)) (capabilities d)))"

definition quarantine_request_of :: "capability \<Rightarrow> capability \<Rightarrow> quarantine_request" where
  "quarantine_request_of cap effective =
     \<lparr>qq_tenant_id = (if c_tenant_id effective = [] then ''asg'' else c_tenant_id effective),
      qq_capability_uri = c_uri effective, qq_capability_type = c_type effective, qq_name = c_name effective,
      qq_version = c_version effective, qq_source_path = c_source_path effective,
      qq_content_hash = c_content_hash effective, qq_reason = ''pending_scan'',
      qq_submitted_by = Some (or_else (c_submitted_by effective) (or_else (c_created_by effective) ''ingest@capmesh'')),
      qq_metadata = [(''discoveredSourceSystem'', JStr (c_source_system cap)), (''discoveredSourceKind'', JStr (c_source_kind cap)),
        (''effectiveUri'', JStr (c_uri effective))]\<rparr>"

text \<open>The counts of new holds and of those whose reason is still the first one.\<close>

fun quarantine_each ::
  "runtime \<Rightarrow> placement_index \<Rightarrow> (string \<rightharpoonup> string) \<Rightarrow> capability list \<Rightarrow> nat \<times> nat \<Rightarrow> conn \<Rightarrow> (conn, nat \<times> nat) outcome" where
  "quarantine_each rt index existing [] counts con = (Inr counts, con)"
| "quarantine_each rt index existing (cap # caps) counts con =
     (if \<not> crawled cap then quarantine_each rt index existing caps counts con
      else and_then (place_one rt index cap con) (\<lambda>effective con1.
        if existing (c_uri effective) = Some (c_content_hash effective) then quarantine_each rt index existing caps counts con1
        else and_then (quarantine_capability rt (quarantine_request_of cap effective) True con1) (\<lambda>record con2.
          quarantine_each rt index existing caps
            (Suc (fst counts), if pget record ''reason'' = JStr ''pending_scan'' then Suc (snd counts) else snd counts) con2)))"

definition quarantine_new_capabilities :: "runtime \<Rightarrow> json option \<Rightarrow> capability list \<Rightarrow> conn \<Rightarrow> (conn, nat \<times> nat) outcome" where
  "quarantine_new_capabilities rt manifest caps con =
     and_then (lift_result (load_vault_placement_index manifest) con) (\<lambda>index con.
     and_then (quarantine_each rt index (existing_capability_identity (db con)) caps (0, 0) con) (\<lambda>counts con.
       (Inr counts, commit con)))"

section \<open>The ingest\<close>

definition record_catalog_generation :: "runtime \<Rightarrow> conn \<Rightarrow> conn" where
  "record_catalog_generation rt con = with_db (\<lambda>d. d\<lparr>last_ingest_at := Some (iso_now rt)\<rparr>) (refresh_catalog_generation con)"

text \<open>A raise closes the connection, which drops what was not committed.\<close>

definition closing :: "(conn, 'a) outcome \<Rightarrow> (conn, 'a) outcome" where
  "closing r = (case r of (Inl e, con) \<Rightarrow> (Inl e, rollback con) | (Inr x, con) \<Rightarrow> (Inr x, con))"

text \<open>The coverage report is made after the commit, in the same try block: when it raises, the rollback has
  nothing to undo.\<close>

definition write_catalog ::
  "runtime \<Rightarrow> ingest_env \<Rightarrow> (conn \<Rightarrow> (conn, unit) outcome) \<Rightarrow> capability list \<Rightarrow> conn \<Rightarrow> (conn, ingest_tally) outcome" where
  "write_catalog rt env post_ingest caps con =
     closing (and_then (upsert_discovered rt env caps con) (\<lambda>tally con1.
       and_then (post_ingest con1) (\<lambda>_ con2.
         let con3 = commit (record_catalog_generation rt con2) in
         and_then (lift_result (coverage_of env (db con3)) con3) (\<lambda>_ con4. (Inr tally, con4)))))"

text \<open>The malware scan of every ingested capability, whose exceptions are dropped; the dependency audit beside
  it only reads.\<close>

fun scan_each :: "runtime \<Rightarrow> ingest_env \<Rightarrow> capability list \<Rightarrow> conn \<Rightarrow> conn" where
  "scan_each rt env [] con = con"
| "scan_each rt env (cap # caps) con = scan_each rt env caps
     (if c_uri cap = [] then con
      else snd (scan_capability rt (ie_classes env) (ie_sources env) (c_uri cap) (c_tenant_id cap) False con))"

definition scan_ingested :: "runtime \<Rightarrow> ingest_env \<Rightarrow> capability list \<Rightarrow> conn \<Rightarrow> conn" where
  "scan_ingested rt env caps con =
     commit_if (list_ex (\<lambda>cap. c_uri cap \<noteq> []) caps) (scan_each rt env caps con)"

text \<open>The dependencies that the metadata of a capability declares, as address, dependency and tenant.\<close>

definition declared_dependencies :: "capability \<Rightarrow> (string \<times> string \<times> string) list" where
  "declared_dependencies cap =
     (case map_of (c_metadata cap) ''depends_on'' of
        Some (JList deps) \<Rightarrow> map (\<lambda>dep. (c_uri cap, dep, c_tenant_id cap)) (filter (\<lambda>dep. dep \<noteq> [])
          (map (\<lambda>v. case v of JStr s \<Rightarrow> py_strip s | _ \<Rightarrow> []) deps))
      | _ \<Rightarrow> [])"

fun track_dependencies :: "runtime \<Rightarrow> (string \<times> string \<times> string) list \<Rightarrow> conn \<Rightarrow> conn" where
  "track_dependencies rt [] con = con"
| "track_dependencies rt ((uri, dep, tenant) # ds) con =
     track_dependencies rt ds (snd (add_dependency rt uri dep ''*'' None tenant False con))"

text \<open>What an ingest does after the catalog is committed, up to the close of the connection, which drops
  what is not committed.\<close>

definition finish_ingest :: "runtime \<Rightarrow> ingest_env \<Rightarrow> capability list \<Rightarrow> conn \<Rightarrow> conn" where
  "finish_ingest rt env caps con =
     (let con1 = scan_ingested rt env caps con;
          con2 = track_dependencies rt (concat (map declared_dependencies caps)) (ensure_table con1)
      in rollback (commit_if (ie_vector env \<and> repairs env) con2))"

definition ingest_index ::
  "runtime \<Rightarrow> ingest_env \<Rightarrow> string list \<Rightarrow> (conn \<Rightarrow> (conn, unit) outcome) \<Rightarrow> capability list \<Rightarrow> conn
     \<Rightarrow> (conn, ingest_tally \<times> nat \<times> nat) outcome" where
  "ingest_index rt env roots post_ingest discovered con =
     and_then (lift_result (enforce_install_guards rt (ie_files env) roots (db con) discovered) con) (\<lambda>caps con.
     and_then (closing (quarantine_new_capabilities rt (ie_manifest env) caps con)) (\<lambda>counts con.
     and_then (write_catalog rt env post_ingest caps con) (\<lambda>tally con.
       (Inr (tally, counts), finish_ingest rt env caps con))))"

section \<open>After the commit\<close>

text \<open>Scans and dependencies leave catalog and quarantine alone, in both views of the connection.\<close>

definition stored_as :: "capability list \<Rightarrow> quarantine_row list \<Rightarrow> conn \<Rightarrow> bool" where
  "stored_as cs qs con = (capabilities (db con) = cs \<and> capguard_quarantine (db con) = qs
     \<and> capabilities (durable con) = cs \<and> capguard_quarantine (durable con) = qs)"

lemma stored_commit: "stored_as cs qs con \<Longrightarrow> stored_as cs qs (commit_if b con)" "stored_as cs qs con \<Longrightarrow> stored_as cs qs (ensure_table con)"
  by (simp_all add: stored_as_def commit_if_def ensure_table_def)

lemma scan_stored: "stored_as cs qs con \<Longrightarrow> stored_as cs qs (scan_ingested rt env caps con)"
proof -
  have one: "stored_as cs qs (snd (scan_capability rt cls files u t False con))" if "stored_as cs qs con" for cls files u t con
    using that by (auto simp: stored_as_def scan_capability_def new_id_def Let_def commit_if_def ensure_table_def split: option.split sum.split)
  have "stored_as cs qs (scan_each rt env caps con)" if "stored_as cs qs con" for con
    using that by (induction caps arbitrary: con) (simp_all add: one)
  then show "stored_as cs qs con \<Longrightarrow> stored_as cs qs (scan_ingested rt env caps con)"
    by (simp add: scan_ingested_def stored_commit)
qed

lemma add_dependency_stored: "stored_as cs qs con \<Longrightarrow> stored_as cs qs (snd (add_dependency rt u v c r t False con))"
  by (simp add: stored_as_def add_dependency_def new_id_def Let_def commit_if_def ensure_table_def)

lemma track_stored: "stored_as cs qs con \<Longrightarrow> stored_as cs qs (track_dependencies rt ds con)"
  by (induction rt ds con rule: track_dependencies.induct) (simp_all add: add_dependency_stored)

lemma finish_ingest_stored:
  assumes "durable con = db con"
  shows "capabilities (db (finish_ingest rt env caps con)) = capabilities (db con)"
    "capguard_quarantine (db (finish_ingest rt env caps con)) = capguard_quarantine (db con)"
    "durable (finish_ingest rt env caps con) = db (finish_ingest rt env caps con)"
proof -
  have "stored_as (capabilities (db con)) (capguard_quarantine (db con)) con" using assms by (simp add: stored_as_def)
  from stored_commit(1) [OF track_stored [OF stored_commit(2) [OF scan_stored [OF this]]]]
  show "capabilities (db (finish_ingest rt env caps con)) = capabilities (db con)"
    "capguard_quarantine (db (finish_ingest rt env caps con)) = capguard_quarantine (db con)"
    by (simp_all add: finish_ingest_def Let_def rollback_def stored_as_def)
  show "durable (finish_ingest rt env caps con) = db (finish_ingest rt env caps con)"
    by (simp add: finish_ingest_def Let_def rollback_def)
qed

section \<open>Placement is a function of the catalog\<close>

interpretation quarantine_kept: provisioning_invariant rt "\<lambda>d. capguard_quarantine d = q" for rt q
  by unfold_locales
    (auto simp: provisioning_stmt_def insert_tenant_or_ignore_def update_tenant_def
      insert_identity_or_ignore_def insert_store_or_ignore_def insert_namespace_or_ignore_def
      insert_org_or_ignore_def upsert_identity_def split: if_splits option.splits)

lemma ensure_vault_quarantine:
  assumes "ensure_vault rt vault t con = (r, con')"
  shows "capguard_quarantine (db con') = capguard_quarantine (db con)"
proof -
  obtain r1 con1 where e: "ensure_default_tenant rt t con = (r1, con1)" by fastforce
  have q1: "capguard_quarantine (db con1) = capguard_quarantine (db con)"
    using quarantine_kept.ensure_default_tenant_keeps [of con "capguard_quarantine (db con)" rt t] e by simp
  have "capguard_quarantine (db (snd (ensure_org_shared_namespace rt t con))) = capguard_quarantine (db con)"
    using quarantine_kept.single_run_keeps [OF provisioning_stmtI(5) q1]
    by (cases r1) (simp_all add: ensure_org_shared_namespace_def e q1)
  moreover have "capguard_quarantine (db (snd (ensure_all_users_namespace rt t con))) = capguard_quarantine (db con)"
    by (cases r1) (simp_all add: ensure_all_users_namespace_def e q1)
  ultimately show ?thesis using assms by (auto simp: ensure_vault_def split: if_splits)
qed

definition effective_capability :: "runtime \<Rightarrow> placement_index \<Rightarrow> database \<Rightarrow> capability \<Rightarrow> capability" where
  "effective_capability rt index d cap =
     (case wanted_vault rt cap index of None \<Rightarrow> apply_default_user_namespace rt cap
      | Some vault \<Rightarrow>
          (case vault_placement_collision cap (vault_match_key (capability_canonical_tail rt cap))
              (fst (snd (vault_target rt vault (cap_tenant_of rt cap)))) (cap_tenant_of rt cap) d of
             Some _ \<Rightarrow> apply_default_user_namespace rt cap | None \<Rightarrow> placed_capability rt vault cap))"

lemma effective_capability_cong:
  "capabilities d = capabilities d' \<Longrightarrow> effective_capability rt index d cap = effective_capability rt index d' cap"
  by (simp only: effective_capability_def vault_placement_collision_def)

text \<open>What ingest reads and writes besides the rows it upserts.\<close>

definition catalog_view :: "database \<Rightarrow> capability list \<times> quarantine_row list" where
  "catalog_view d = (capabilities d, capguard_quarantine d)"

lemma place_one_Inr:
  assumes "place_one rt index cap con = (Inr e, con')"
  shows "e = effective_capability rt index (db con) cap" "catalog_view (db con') = catalog_view (db con)"
proof -
  have "e = effective_capability rt index (db con) cap \<and> catalog_view (db con') = catalog_view (db con)"
  proof (cases "wanted_vault rt cap index")
    case None
    with assms show ?thesis by (simp add: place_one_def apply_vault_placement_def effective_capability_def)
  next
    case (Some vault)
    obtain n con1 where en: "ensure_vault rt vault (cap_tenant_of rt cap) con = (Inr n, con1)"
      using assms Some by (auto simp: place_one_def apply_vault_placement_def and_then_eq_Inr)
    note view = ensure_vault_capabilities [OF en] ensure_vault_quarantine [OF en]
    show ?thesis
    proof (cases "vault_placement_collision cap (vault_match_key (capability_canonical_tail rt cap))
        (fst (snd (vault_target rt vault (cap_tenant_of rt cap)))) (cap_tenant_of rt cap) (db con)")
      case None
      moreover have "vault_placement_collision cap (vault_match_key (capability_canonical_tail rt cap))
        (fst (snd (vault_target rt vault (cap_tenant_of rt cap)))) (cap_tenant_of rt cap) (db con1) = None"
        using None view by (simp add: vault_placement_collision_def)
      ultimately show ?thesis
        using assms Some en view
        by (simp add: place_one_def apply_vault_placement_def effective_capability_def catalog_view_def Let_def case_prod_unfold)
    next
      case (Some other)
      moreover have "vault_placement_collision cap (vault_match_key (capability_canonical_tail rt cap))
        (fst (snd (vault_target rt vault (cap_tenant_of rt cap)))) (cap_tenant_of rt cap) (db con1) = Some other"
        using Some view by (simp add: vault_placement_collision_def)
      ultimately show ?thesis
        using assms \<open>wanted_vault rt cap index = Some vault\<close> en view
        by (auto simp: place_one_def apply_vault_placement_def effective_capability_def catalog_view_def Let_def case_prod_unfold)
    qed
  qed
  then show "e = effective_capability rt index (db con) cap" "catalog_view (db con') = catalog_view (db con)" by simp_all
qed

lemma place_all_Inr:
  "place_all rt index caps con = (Inr es, con') \<Longrightarrow>
     es = map (effective_capability rt index (db con)) caps \<and> catalog_view (db con') = catalog_view (db con)"
proof (induction caps arbitrary: es con)
  case (Cons cap caps)
  from Cons.prems obtain e con1 es' where o: "place_one rt index cap con = (Inr e, con1)"
    "place_all rt index caps con1 = (Inr es', con')" "es = e # es'"
    by (auto simp: and_then_eq_Inr)
  note one = place_one_Inr [OF o(1)]
  from Cons.IH [OF o(2)] have "es' = map (effective_capability rt index (db con1)) caps" "catalog_view (db con') = catalog_view (db con1)"
    by simp_all
  moreover have "effective_capability rt index (db con1) = effective_capability rt index (db con)"
    using one(2) by (intro ext effective_capability_cong) (simp add: catalog_view_def)
  ultimately show ?case using one o(3) by simp
qed simp

section \<open>Quarantine before indexing\<close>

lemma quarantine_capability_Inr:
  assumes "quarantine_capability rt req b con = (Inr r, con')"
  shows "capabilities (db con') = capabilities (db con)" "set (capguard_quarantine (db con)) \<subseteq> set (capguard_quarantine (db con'))"
    "\<exists>q \<in> set (capguard_quarantine (db con')). active_for (guard_tenant rt (qq_tenant_id req)) (qq_capability_uri req) (qq_content_hash req) q"
proof -
  let ?find = "find (active_for (guard_tenant rt (qq_tenant_id req)) (qq_capability_uri req) (qq_content_hash req)) (capguard_quarantine (db con))"
  have "capabilities (db con') = capabilities (db con) \<and> set (capguard_quarantine (db con)) \<subseteq> set (capguard_quarantine (db con'))
    \<and> (\<exists>q \<in> set (capguard_quarantine (db con')). active_for (guard_tenant rt (qq_tenant_id req)) (qq_capability_uri req) (qq_content_hash req) q)"
  proof (cases ?find)
    case None
    with assms show ?thesis
      by (auto simp: quarantine_capability_def Let_def new_id_def active_for_def quarantine_row_of_def split: if_splits)
  next
    case (Some q)
    with assms have "con' = ensure_table con" by (auto simp: quarantine_capability_def Let_def split: if_splits)
    with Some show ?thesis using find_SomeD [OF Some] by auto
  qed
  then show "capabilities (db con') = capabilities (db con)" "set (capguard_quarantine (db con)) \<subseteq> set (capguard_quarantine (db con'))"
    "\<exists>q \<in> set (capguard_quarantine (db con')). active_for (guard_tenant rt (qq_tenant_id req)) (qq_capability_uri req) (qq_content_hash req) q"
    by blast+
qed

lemma held_mono:
  "set (capguard_quarantine d) \<subseteq> set (capguard_quarantine d') \<Longrightarrow> capguard_is_held d c \<Longrightarrow> capguard_is_held d' c"
  by (auto simp: capguard_is_held_def list_ex_iff)

lemma quarantined_is_held:
  assumes "quarantine_capability rt (quarantine_request_of cap e) b con = (Inr r, con')"
  shows "capguard_is_held (db con') e"
  using quarantine_capability_Inr(3) [OF assms]
  by (auto simp: quarantine_request_of_def active_for_def capguard_is_held_def list_ex_iff guard_tenant_def)

lemma quarantine_each_Inr:
  assumes "quarantine_each rt index existing caps counts con = (Inr n, con')"
  shows "capabilities (db con') = capabilities (db con) \<and> set (capguard_quarantine (db con)) \<subseteq> set (capguard_quarantine (db con'))
    \<and> (\<forall>cap \<in> set caps. crawled cap \<longrightarrow>
        (let e = effective_capability rt index (db con) cap in
         existing (c_uri e) = Some (c_content_hash e) \<or> capguard_is_held (db con') e))"
  using assms
proof (induction caps arbitrary: counts con)
  case (Cons cap caps)
  show ?case
  proof (cases "crawled cap")
    case False
    with Cons show ?thesis by simp
  next
    case True
    from Cons.prems True obtain e con1 where o: "place_one rt index cap con = (Inr e, con1)"
      and rest: "(if existing (c_uri e) = Some (c_content_hash e) then quarantine_each rt index existing caps counts con1
        else and_then (quarantine_capability rt (quarantine_request_of cap e) True con1) (\<lambda>record con2.
          quarantine_each rt index existing caps
            (Suc (fst counts), if pget record ''reason'' = JStr ''pending_scan'' then Suc (snd counts) else snd counts) con2)) = (Inr n, con')"
      by (auto simp: and_then_eq_Inr)
    note one = place_one_Inr [OF o]
    have eff: "capabilities (db c) = capabilities (db con) \<Longrightarrow> effective_capability rt index (db c) x = effective_capability rt index (db con) x" for c x
      by (rule effective_capability_cong)
    show ?thesis
    proof (cases "existing (c_uri e) = Some (c_content_hash e)")
      case True
      with rest Cons.IH [of counts con1] one eff [of con1] show ?thesis by (simp add: catalog_view_def Let_def)
    next
      case False
      with rest obtain r con2 counts2 where q: "quarantine_capability rt (quarantine_request_of cap e) True con1 = (Inr r, con2)"
        and more: "quarantine_each rt index existing caps counts2 con2 = (Inr n, con')"
        by (auto simp: and_then_eq_Inr)
      note c2 = quarantine_capability_Inr(1,2) [OF q]
      have view: "capabilities (db con2) = capabilities (db con)" "set (capguard_quarantine (db con)) \<subseteq> set (capguard_quarantine (db con2))"
        using c2 one(2) by (auto simp: catalog_view_def)
      from Cons.IH [OF more] view eff [of con2] held_mono [of "db con2" "db con'", OF _ quarantined_is_held [OF q]] one(1)
      show ?thesis by (auto simp: Let_def)
    qed
  qed
qed simp

section \<open>What an upsert replaces\<close>

definition ident :: "capability \<Rightarrow> string \<times> string \<times> string \<times> string \<times> string" where
  "ident c = (c_uri c, c_content_hash c, c_tenant_id c, c_source_kind c, c_canonical_key c)"

definition stem :: "capability \<Rightarrow> (string \<times> string \<times> string \<times> string \<times> string) \<times> bool" where
  "stem c = (ident c, promoted_row c)"

definition replaces :: "capability \<Rightarrow> database \<Rightarrow> database \<Rightarrow> bool" where
  "replaces cap d d' = (distinct (map c_uri (capabilities d')) \<and> capguard_quarantine d' = capguard_quarantine d
     \<and> (\<forall>r \<in> set (capabilities d'). ident r = ident cap \<or> (\<exists>r1 \<in> set (capabilities d). stem r = stem r1 \<and> c_uri r \<noteq> c_uri cap)))"

lemma stem_uri: "stem r = stem r1 \<Longrightarrow> c_uri r = c_uri r1"
  by (simp add: stem_def ident_def)

lemma unique_uri: "distinct (map c_uri t) \<Longrightarrow> r \<in> set t \<Longrightarrow> r' \<in> set t \<Longrightarrow> c_uri r = c_uri r' \<Longrightarrow> r = r'"
  by (metis distinct_map inj_onD)

lemma uris_update_where: "(\<And>r. p r \<Longrightarrow> c_uri (f r) = c_uri r) \<Longrightarrow> map c_uri (update_where p f t) = map c_uri t"
  by (simp add: update_where_def)

lemma merge_row_ident: "c_uri r = c_uri cap \<Longrightarrow> ident (merge_row r cap) = ident cap"
  by (simp add: merge_row_def Let_def ident_def)

lemma unchanged_ident: "\<not> row_differs r cap \<Longrightarrow> c_uri r = c_uri cap \<Longrightarrow> ident r = ident cap"
  by (simp add: row_differs_def address_columns_def source_columns_def ident_def)

lemma upsert_row_replaces:
  assumes "upsert_row cap d = Inr d'" "distinct (map c_uri (capabilities d))"
  shows "replaces cap d d'"
proof (cases "find (\<lambda>r. c_uri r = c_uri cap) (capabilities d)")
  case None
  then have "\<forall>r \<in> set (capabilities d). c_uri r \<noteq> c_uri cap" by (simp add: find_None_iff)
  with None assms show ?thesis by (fastforce simp: upsert_row_def replaces_def ident_def split: if_splits)
next
  case (Some row)
  then have row: "row \<in> set (capabilities d)" "c_uri row = c_uri cap" by (auto dest: find_SomeD)
  show ?thesis
  proof (cases "row_differs row cap")
    case False
    with assms Some have "d' = d" by (simp add: upsert_row_def split: if_splits)
    moreover have "ident r = ident cap" if "r \<in> set (capabilities d)" "c_uri r = c_uri cap" for r
      using unique_uri [OF assms(2) that(1) row(1)] that row unchanged_ident [OF False] by simp
    ultimately show ?thesis using assms(2) by (auto simp: replaces_def)
  next
    case True
    with assms Some have "d' = d\<lparr>capabilities := update_where (\<lambda>r. c_uri r = c_uri cap) (\<lambda>r. merge_row r cap) (capabilities d)\<rparr>"
      by (simp add: upsert_row_def split: if_splits)
    moreover have "map c_uri (update_where (\<lambda>r. c_uri r = c_uri cap) (\<lambda>r. merge_row r cap) (capabilities d)) = map c_uri (capabilities d)"
      by (rule uris_update_where) (simp add: merge_row_def Let_def)
    moreover have "ident r = ident cap \<or> r \<in> set (capabilities d) \<and> c_uri r \<noteq> c_uri cap"
      if "r \<in> set (update_where (\<lambda>r. c_uri r = c_uri cap) (\<lambda>r. merge_row r cap) (capabilities d))" for r
      using that by (auto simp: update_where_def merge_row_ident)
    ultimately show ?thesis using assms(2) by (auto simp: replaces_def)
  qed
qed

lemma upsert_capability_replaces:
  assumes "upsert_capability rt fs cap con = (Inr n, con')" "distinct (map c_uri (capabilities (db con)))"
  shows "replaces (apply_default_user_namespace rt cap) (db con) (db con')"
proof -
  let ?c = "clamp_lifecycle (db con) (apply_default_user_namespace rt cap)"
  obtain d where d: "upsert_row ?c (db con) = Inr d" "capabilities (db con') = capabilities d"
    "capguard_quarantine (db con') = capguard_quarantine d"
    using assms(1) by (auto simp: upsert_capability_def Let_def and_then_eq_Inr lift_result_eq_Inr split: sum.splits option.splits)
  have "ident ?c = ident (apply_default_user_namespace rt cap)"
    by (simp add: clamp_lifecycle_def ident_def split: option.split)
  moreover from this have "c_uri ?c = c_uri (apply_default_user_namespace rt cap)" by (simp add: ident_def)
  ultimately show ?thesis using upsert_row_replaces [OF d(1) assms(2)] d(2,3) by (simp add: replaces_def)
qed

lemma migrate_rows:
  assumes "migrate_canonical_uri old new con = (Inr x, con')" "distinct (map c_uri (capabilities (db con)))"
  shows "distinct (map c_uri (capabilities (db con')))" "capguard_quarantine (db con') = capguard_quarantine (db con)"
    "r \<in> set (capabilities (db con')) \<Longrightarrow> c_uri r = new \<or> r \<in> set (capabilities (db con))"
proof -
  consider (same) "con' = con"
    | (moved) "capabilities (db con') = update_where (\<lambda>c. c_uri c = old) (c_uri_update (\<lambda>_. new)) (capabilities (db con))"
        "capguard_quarantine (db con') = capguard_quarantine (db con)" "new \<notin> c_uri ` set (capabilities (db con))"
  proof (cases "old = new \<or> \<not> list_ex (\<lambda>c. c_uri c = old) (capabilities (db con))")
    case True
    with assms(1) show ?thesis by (intro same) (simp add: migrate_canonical_uri_def)
  next
    case False
    have new: "\<not> list_ex (\<lambda>c. c_uri c = new) (capabilities (db con))"
      using assms(1) False by (auto simp: migrate_canonical_uri_def Let_def with_db_def)
    with assms(1) False show ?thesis
      by (intro moved) (auto simp: migrate_canonical_uri_def Let_def with_db_def list_ex_iff split: if_splits)
  qed
  then have "distinct (map c_uri (capabilities (db con'))) \<and> capguard_quarantine (db con') = capguard_quarantine (db con)
    \<and> (\<forall>r \<in> set (capabilities (db con')). c_uri r = new \<or> r \<in> set (capabilities (db con)))"
  proof cases
    case moved
    have "map c_uri (capabilities (db con')) = map ((\<lambda>u. if u = old then new else u) \<circ> c_uri) (capabilities (db con))"
      using moved(1) by (simp add: update_where_def)
    moreover have "distinct (map ((\<lambda>u. if u = old then new else u) \<circ> c_uri) t)"
      if "distinct (map c_uri t)" "new \<notin> set (map c_uri t)" for t
      using that by (auto simp: distinct_map inj_on_def)
    moreover have "new \<notin> set (map c_uri (capabilities (db con)))" using moved(3) by simp
    moreover have "\<forall>r \<in> set (capabilities (db con')). c_uri r = new \<or> r \<in> set (capabilities (db con))"
      using moved(1) by (auto simp: update_where_def)
    ultimately show ?thesis using assms(2) moved(2) by simp
  qed (use assms(2) in simp)
  then show "distinct (map c_uri (capabilities (db con')))" "capguard_quarantine (db con') = capguard_quarantine (db con)"
    "r \<in> set (capabilities (db con')) \<Longrightarrow> c_uri r = new \<or> r \<in> set (capabilities (db con))" by auto
qed

lemma mark_vector_failure_stems:
  "map stem (capabilities (db (mark_vector_failure n con))) = map stem (capabilities (db con))"
  "capguard_quarantine (db (mark_vector_failure n con)) = capguard_quarantine (db con)"
  by (simp_all add: mark_vector_failure_def update_where_def with_db_def stem_def ident_def promoted_row_def)

lemma same_stems: "map stem t = map stem t' \<Longrightarrow> map c_uri t = map c_uri t'"
  by (drule arg_cong [where f = "map (\<lambda>x. fst (fst x))"]) (simp add: stem_def ident_def comp_def)

lemma replaces_stems:
  assumes "replaces cap d d'" "map stem (capabilities d'') = map stem (capabilities d')"
    "capguard_quarantine d'' = capguard_quarantine d'"
  shows "replaces cap d d''"
proof -
  have "\<exists>r' \<in> set (capabilities d'). stem r = stem r'" if "r \<in> set (capabilities d'')" for r
    using assms(2) that by (metis imageE image_eqI set_map)
  then show ?thesis
    using assms same_stems [OF assms(2)] by (fastforce simp: replaces_def stem_def ident_def)
qed

lemma write_vector_stems:
  "map stem (capabilities (db (snd (write_vector env n c b t con)))) = map stem (capabilities (db con))"
  "capguard_quarantine (db (snd (write_vector env n c b t con))) = capguard_quarantine (db con)"
  by (auto simp: write_vector_def mark_vector_failure_stems)

text \<open>An address that the default namespace leaves alone.\<close>

definition settled :: "capability \<Rightarrow> bool" where
  "settled c = (c_source_kind c = ''system_capability'' \<or> startswith (c_uri c) ''cap://system/'' \<or> namespaced_uri (c_uri c))"

lemma settled_default:
  assumes "settled c"
  shows "c_uri (apply_default_user_namespace rt c) = c_uri c"
    "c_content_hash (apply_default_user_namespace rt c) = c_content_hash c"
    "c_source_kind (apply_default_user_namespace rt c) = c_source_kind c"
    "c_canonical_key (apply_default_user_namespace rt c) = c_canonical_key c"
    "c_tenant_id (apply_default_user_namespace rt c) =
       (if c_source_kind c = ''system_capability'' \<or> startswith (c_uri c) ''cap://system/'' then c_tenant_id c else cap_tenant_of rt c)"
  using assms by (auto simp: settled_def apply_default_user_namespace_def Let_def)

lemma hold_fields [simp]:
  "settled (hold d c) = settled c" "ident (hold d c) = ident c" "c_uri (hold d c) = c_uri c" "c_content_hash (hold d c) = c_content_hash c"
  "c_source_kind (hold d c) = c_source_kind c" "c_canonical_key (hold d c) = c_canonical_key c" "cap_tenant_of rt (hold d c) = cap_tenant_of rt c"
  "c_tenant_id (hold d c) = c_tenant_id c"
  by (simp_all add: hold_def settled_def ident_def cap_tenant_of_def)

lemma hold_default:
  "settled c \<Longrightarrow> ident (apply_default_user_namespace rt (hold d c)) = ident (apply_default_user_namespace rt c)"
  by (simp add: ident_def settled_default)

lemma upsert_one_replaces:
  assumes "upsert_one rt env cap tally con = (Inr t, con')" "distinct (map c_uri (capabilities (db con)))"
    "settled (keep_promotion (previous_row (db con) cap) cap)"
  shows "replaces (apply_default_user_namespace rt (keep_promotion (previous_row (db con) cap) cap)) (db con) (db con')"
proof -
  let ?e = "keep_promotion (previous_row (db con) cap) cap"
  obtain con1 n con2 where m: "distinct (map c_uri (capabilities (db con1)))" "capguard_quarantine (db con1) = capguard_quarantine (db con)"
      "\<And>r. r \<in> set (capabilities (db con1)) \<Longrightarrow> c_uri r = c_uri ?e \<or> r \<in> set (capabilities (db con))"
    and u: "upsert_capability rt (ie_files env) (hold (db con1) ?e) con1 = (Inr n, con2)"
    and v: "map stem (capabilities (db con')) = map stem (capabilities (db con2))" "capguard_quarantine (db con') = capguard_quarantine (db con2)"
  proof -
    obtain con1 n con2 where mig: "(case previous_row (db con) cap of None \<Rightarrow> (Inr (), con)
          | Some row \<Rightarrow> if c_uri row \<noteq> c_uri ?e then migrate_canonical_uri (c_uri row) (c_uri ?e) con else (Inr (), con)) = (Inr (), con1)"
      and u: "upsert_capability rt (ie_files env) (hold (db con1) ?e) con1 = (Inr n, con2)"
      and v: "con' = snd (write_vector env n (hold (db con1) ?e)
        (previous_text (db con) (previous_row (db con) cap) = Some (index_text (hold (db con1) ?e)))
        (count_change (previous_row (db con) cap) ?e tally) con2)"
      using assms(1) by (auto simp: upsert_one_def Let_def and_then_eq_Inr case_prod_unfold)
    have "distinct (map c_uri (capabilities (db con1))) \<and> capguard_quarantine (db con1) = capguard_quarantine (db con)
      \<and> (\<forall>r \<in> set (capabilities (db con1)). c_uri r = c_uri ?e \<or> r \<in> set (capabilities (db con)))"
    proof (cases "previous_row (db con) cap")
      case None
      with mig assms(2) show ?thesis by simp
    next
      case (Some row)
      show ?thesis
      proof (cases "c_uri row = c_uri ?e")
        case True
        with mig Some assms(2) show ?thesis by simp
      next
        case False
        with mig Some have "migrate_canonical_uri (c_uri row) (c_uri ?e) con = (Inr (), con1)" by simp
        from migrate_rows [OF this assms(2)] show ?thesis by blast
      qed
    qed
    with u show thesis by (intro that [of con1 n con2]) (simp_all add: v write_vector_stems)
  qed
  let ?w = "apply_default_user_namespace rt (hold (db con1) ?e)"
  have id: "ident ?w = ident (apply_default_user_namespace rt ?e)" by (rule hold_default [OF assms(3)])
  then have uri: "c_uri ?w = c_uri ?e" "c_uri (apply_default_user_namespace rt ?e) = c_uri ?e"
    using settled_default(1) [OF assms(3)] by (simp_all add: ident_def)
  have "replaces ?w (db con1) (db con2)" by (rule upsert_capability_replaces [OF u m(1)])
  then have "replaces (apply_default_user_namespace rt ?e) (db con) (db con2)"
    using m(2,3) id uri unfolding replaces_def by (metis stem_uri)
  then show ?thesis by (rule replaces_stems [OF _ v])
qed

section \<open>The whole batch\<close>

text \<open>What a row of the catalog may be after an ingest of a catalog of rows, under the holds of a
  database: not discovered, known with its content, held, or at the address of a promotion.\<close>

definition promoted_addresses :: "capability list \<Rightarrow> string set" where
  "promoted_addresses rows = c_uri ` set (filter promoted_row rows)"

definition accounted :: "capability list \<Rightarrow> database \<Rightarrow> capability \<Rightarrow> bool" where
  "accounted rows d r = (crawled r \<longrightarrow> (c_uri r, c_content_hash r) \<in> set (map (\<lambda>c. (c_uri c, c_content_hash c)) rows)
     \<or> capguard_is_held d r \<or> c_uri r \<in> promoted_addresses rows)"

definition written_by :: "capability list \<Rightarrow> capability list \<Rightarrow> capability \<Rightarrow> bool" where
  "written_by rows ms r = (promoted_row r \<longrightarrow> c_uri r \<in> promoted_addresses rows
     \<or> (\<exists>m \<in> set ms. c_uri m = c_uri r \<and> c_canonical_key m = c_canonical_key r))"

definition batch_ok :: "capability list \<Rightarrow> capability list \<Rightarrow> database \<Rightarrow> bool" where
  "batch_ok rows ms d = (distinct (map c_uri (capabilities d)) \<and> (\<forall>r \<in> set (capabilities d). accounted rows d r \<and> written_by rows ms r))"

lemma accounted_cong:
  "ident r = ident r' \<Longrightarrow> capguard_quarantine d = capguard_quarantine d' \<Longrightarrow> accounted rows d r = accounted rows d' r'"
  by (simp add: accounted_def ident_def crawled_def capguard_is_held_def)

lemma written_by_stem: "stem r = stem r' \<Longrightarrow> written_by rows ms r' \<Longrightarrow> written_by rows (m # ms) r"
  by (auto simp: written_by_def stem_def ident_def)

lemma previous_row_Some:
  "previous_row d m = Some row \<Longrightarrow> row \<in> set (capabilities d) \<and> (c_uri row = c_uri m \<or> c_canonical_key row = c_canonical_key m)"
  by (auto simp: previous_row_def split: option.splits dest: find_SomeD)

lemma keep_promotion_cases:
  assumes "batch_ok rows ms d" "\<forall>m' \<in> set ms. c_uri m' \<noteq> c_uri m \<and> c_canonical_key m' \<noteq> c_canonical_key m"
  shows "keep_promotion (previous_row d m) m = m \<or> c_uri (keep_promotion (previous_row d m) m) \<in> promoted_addresses rows"
proof (cases "previous_row d m")
  case (Some row)
  show ?thesis
  proof (cases "promoted_row row")
    case True
    from previous_row_Some [OF Some] assms True have "c_uri row \<in> promoted_addresses rows"
      unfolding batch_ok_def written_by_def by metis
    with Some True show ?thesis by (simp add: keep_promotion_def)
  qed (simp add: Some keep_promotion_def)
qed (simp add: keep_promotion_def)

lemma keep_promotion_kind [simp]: "c_source_kind (keep_promotion p m) = c_source_kind m"
  by (simp add: keep_promotion_def split: option.split)

lemma upsert_one_ok:
  assumes "upsert_one rt env m tally con = (Inr t, con')" "batch_ok rows ms (db con)"
    "\<forall>m' \<in> set ms. c_uri m' \<noteq> c_uri m \<and> c_canonical_key m' \<noteq> c_canonical_key m"
    "apply_default_user_namespace rt m = m" "settled m" "accounted rows (db con) m"
    "\<forall>u \<in> promoted_addresses rows. startswith u ''cap://system/'' \<or> namespaced_uri u"
  shows "batch_ok rows (m # ms) (db con')" "capguard_quarantine (db con') = capguard_quarantine (db con)"
proof -
  let ?e = "keep_promotion (previous_row (db con) m) m"
  note e = keep_promotion_cases [OF assms(2,3)]
  then have st: "settled ?e" using assms(5,7) by (auto simp: settled_def)
  have rep: "replaces (apply_default_user_namespace rt ?e) (db con) (db con')"
    by (rule upsert_one_replaces [OF assms(1) _ st]) (use assms(2) in \<open>simp add: batch_ok_def\<close>)
  then show q: "capguard_quarantine (db con') = capguard_quarantine (db con)" by (simp add: replaces_def)
  have "accounted rows (db con') r \<and> written_by rows (m # ms) r" if r: "ident r = ident (apply_default_user_namespace rt ?e)" for r
  proof (cases "?e = m")
    case True
    with r assms(4) have "ident r = ident m" by simp
    then show ?thesis using assms(6) accounted_cong [OF _ q] by (auto simp: written_by_def ident_def)
  next
    case False
    then have "c_uri r \<in> promoted_addresses rows" using e r settled_default(1) [OF st] by (simp add: ident_def)
    then show ?thesis by (simp add: accounted_def written_by_def)
  qed
  moreover have "accounted rows (db con') r \<and> written_by rows (m # ms) r"
    if "r1 \<in> set (capabilities (db con))" "stem r = stem r1" for r r1
    using that assms(2) accounted_cong [OF _ q, of r r1 rows] written_by_stem [of r r1 rows ms m]
    by (auto simp: batch_ok_def stem_def)
  ultimately show "batch_ok rows (m # ms) (db con')"
    using rep by (auto simp: batch_ok_def replaces_def)
qed

lemma upsert_all_ok:
  assumes "upsert_all rt env caps tally con = (Inr t, con')" "batch_ok rows ms (db con)"
    "distinct (map c_uri (caps @ ms))" "distinct (map c_canonical_key (caps @ ms))"
    "\<forall>m \<in> set caps. apply_default_user_namespace rt m = m \<and> settled m \<and> accounted rows (db con) m"
    "\<forall>u \<in> promoted_addresses rows. startswith u ''cap://system/'' \<or> namespaced_uri u"
  shows "(\<forall>r \<in> set (capabilities (db con')). accounted rows (db con') r) \<and> capguard_quarantine (db con') = capguard_quarantine (db con)"
  using assms
proof (induction caps arbitrary: tally con ms)
  case Nil
  then show ?case by (simp add: batch_ok_def)
next
  case (Cons m caps)
  then obtain t1 con1 where o: "upsert_one rt env m tally con = (Inr t1, con1)" "upsert_all rt env caps t1 con1 = (Inr t, con')"
    by (auto simp: and_then_eq_Inr)
  have fresh: "\<forall>m' \<in> set ms. c_uri m' \<noteq> c_uri m \<and> c_canonical_key m' \<noteq> c_canonical_key m"
    using Cons.prems(3,4) by (auto simp: image_iff)
  note one = upsert_one_ok [OF o(1) Cons.prems(2) fresh]
  have one': "batch_ok rows (m # ms) (db con1)" "capguard_quarantine (db con1) = capguard_quarantine (db con)"
    using one Cons.prems(5,6) by auto
  have "accounted rows (db con1) m' = accounted rows (db con) m'" for m' by (rule accounted_cong [OF refl one'(2)])
  then show ?case using Cons.IH [OF o(2) one'(1)] Cons.prems(3-6) one'(2) by auto
qed

lemma default_fixed:
  "settled c \<Longrightarrow> c_tenant_id c \<noteq> [] \<or> c_source_kind c = ''system_capability'' \<or> startswith (c_uri c) ''cap://system/'' \<Longrightarrow>
     apply_default_user_namespace rt c = c"
  by (auto simp: settled_def apply_default_user_namespace_def cap_tenant_of_def Let_def)

lemma placed_namespaced: "vault \<in> {''org'', ''all''} \<Longrightarrow> namespaced_uri (c_uri (placed_capability rt vault c))"
  by (auto simp: placed_capability_def Let_def vault_target_def namespaced_uri_def org_shared_namespace_prefix_def
      org_store_prefix_def all_users_namespace_prefix_def startswith_def)

lemma default_settles:
  fixes c :: capability
  assumes "DEFAULT_TENANT rt \<noteq> []"
  defines "c' \<equiv> apply_default_user_namespace rt c"
  shows "settled c' \<and> (c_tenant_id c' \<noteq> [] \<or> c_source_kind c' = ''system_capability'' \<or> startswith (c_uri c') ''cap://system/'')
    \<and> c_content_hash c' = c_content_hash c \<and> c_source_kind c' = c_source_kind c \<and> c_canonical_key c' = c_canonical_key c"
  using rewritten_uri_namespaced [of rt c] target_prefix_namespaced [of "c_uri c" rt "cap_tenant_of rt c"] assms(1)
  by (auto simp: c'_def settled_def apply_default_user_namespace_def default_prefix_slash Let_def cap_tenant_of_def)

lemma effective_settles:
  fixes c :: capability and index :: placement_index and d :: database
  assumes "DEFAULT_TENANT rt \<noteq> []"
  defines "c' \<equiv> effective_capability rt index d c"
  shows "settled c' \<and> (c_tenant_id c' \<noteq> [] \<or> c_source_kind c' = ''system_capability'' \<or> startswith (c_uri c') ''cap://system/'')
    \<and> c_content_hash c' = c_content_hash c \<and> c_source_kind c' = c_source_kind c \<and> c_canonical_key c' = c_canonical_key c"
proof (cases "c' = apply_default_user_namespace rt c")
  case True
  then show ?thesis using default_settles [OF assms(1), of c] by metis
next
  case False
  then obtain vault where v: "wanted_vault rt c index = Some vault" "c' = placed_capability rt vault c"
    by (auto simp: c'_def effective_capability_def split: option.splits)
  then show ?thesis
    using placed_namespaced [OF wanted_vault_Some(2) [OF v(1)], of rt c] assms(1)
    by (simp add: settled_def placed_fields cap_tenant_of_def) (simp add: placed_capability_def Let_def case_prod_unfold)
qed

lemma delete_orphans_rows:
  "delete_orphans rows con = (Inr n, con') \<Longrightarrow>
     set (capabilities (db con')) \<subseteq> set (capabilities (db con)) \<and> capguard_quarantine (db con') = capguard_quarantine (db con)"
proof (induction rows arbitrary: n con)
  case (Cons row rows)
  then obtain k where "delete_orphans rows (with_db (\<lambda>d. d\<lparr>
          capability_fts := delete_where (\<lambda>f. ft_row_id f = c_row_id row) (capability_fts d),
          capabilities := delete_where (\<lambda>c. c_row_id c = c_row_id row) (capabilities d)\<rparr>) con) = (Inr k, con')"
    by (auto simp: Let_def and_then_eq_Inr split: if_splits)
  from Cons.IH [OF this] show ?case by (auto simp: delete_where_def with_db_def)
qed simp

lemma upsert_discovered_accounted:
  assumes run: "upsert_discovered rt env caps con = (Inr tally, con')"
    and rt: "DEFAULT_TENANT rt \<noteq> []"
    and keys: "distinct (map c_canonical_key caps)" "distinct (map c_uri (capabilities (db con)))"
    and promoted: "\<forall>u \<in> promoted_addresses (capabilities (db con)). startswith u ''cap://system/'' \<or> namespaced_uri u"
    and index: "load_vault_placement_index (ie_manifest env) = Inr index"
    and caps: "\<forall>c \<in> set caps. accounted (capabilities (db con)) (db con) (effective_capability rt index (db con) c)"
  shows "(\<forall>r \<in> set (capabilities (db con')). accounted (capabilities (db con)) (db con') r)
    \<and> capguard_quarantine (db con') = capguard_quarantine (db con)"
proof -
  let ?rows = "capabilities (db con)"
  from run index obtain es con1 merged con2 t2 n where p: "place_all rt index caps con = (Inr es, con1)"
    and mg: "merge_by_effective_uri rt (ie_files env) es = Inr merged"
    and up: "upsert_all rt env merged no_tally con1 = (Inr t2, con2)" and del: "delete_orphans (orphaned (db con2)) con2 = (Inr n, con')"
    by (auto simp: upsert_discovered_def and_then_eq_Inr lift_result_eq_Inr delete_source_orphaned_capabilities_def)
  have es: "es = map (effective_capability rt index (db con)) caps" and view: "capabilities (db con1) = ?rows"
    "capguard_quarantine (db con1) = capguard_quarantine (db con)"
    using place_all_Inr [OF p] by (simp_all add: catalog_view_def)
  note m = merge_by_effective_uri_Inr [OF mg]
  have from_es: "\<exists>e \<in> set es. m = e\<lparr>c_metadata := c_metadata m\<rparr>" if "m \<in> set merged" for m using m that by blast
  have uris: "distinct (map c_uri merged)" using m by simp
  have es_keys: "map c_canonical_key es = map c_canonical_key caps"
    using effective_settles [OF rt] by (simp add: es)
  have mkeys: "distinct (map c_canonical_key merged)"
  proof -
    have "m1 = m2" if "m1 \<in> set merged" "m2 \<in> set merged" "c_canonical_key m1 = c_canonical_key m2" for m1 m2
    proof -
      from from_es that obtain e1 e2 where e: "e1 \<in> set es" "m1 = e1\<lparr>c_metadata := c_metadata m1\<rparr>"
        "e2 \<in> set es" "m2 = e2\<lparr>c_metadata := c_metadata m2\<rparr>" by metis
      then have "c_canonical_key e1 = c_canonical_key e2" using that(3) extended_metadata(5) by metis
      then have "e1 = e2" using e es_keys keys(1) by (metis distinct_map inj_onD)
      then have "c_uri m1 = c_uri m2" using e extended_metadata(1) by metis
      then show ?thesis using uris that by (metis distinct_map inj_onD)
    qed
    then show ?thesis using uris by (simp add: distinct_map inj_on_def)
  qed
  have ok: "apply_default_user_namespace rt m = m \<and> settled m \<and> accounted ?rows (db con1) m" if "m \<in> set merged" for m
  proof -
    from from_es [OF that] es obtain c where c: "c \<in> set caps"
      "m = (effective_capability rt index (db con) c)\<lparr>c_metadata := c_metadata m\<rparr>" by auto
    note f = extended_metadata [OF c(2)] effective_settles [OF rt, of index "db con" c]
    have "settled m" using f by (auto simp: settled_def)
    moreover have "apply_default_user_namespace rt m = m" by (rule default_fixed) (use f in \<open>auto simp: settled_def\<close>)
    moreover have "accounted ?rows (db con1) m = accounted ?rows (db con) (effective_capability rt index (db con) c)"
      by (rule accounted_cong) (use f view in \<open>simp_all add: ident_def\<close>)
    ultimately show ?thesis using caps c(1) by simp
  qed
  have start: "batch_ok ?rows [] (db con1)"
    using keys(2) view by (auto simp: batch_ok_def accounted_def written_by_def promoted_addresses_def)
  have "(\<forall>r \<in> set (capabilities (db con2)). accounted ?rows (db con2) r) \<and> capguard_quarantine (db con2) = capguard_quarantine (db con1)"
    using upsert_all_ok [OF up start] uris mkeys ok promoted by simp
  moreover have "accounted ?rows (db con') r = accounted ?rows (db con2) r" for r
    by (rule accounted_cong) (use delete_orphans_rows [OF del] in simp_all)
  ultimately show ?thesis using delete_orphans_rows [OF del] view by auto
qed

lemma closing_eq_Inr: "closing r = (Inr x, con) \<longleftrightarrow> r = (Inr x, con)"
  by (cases r; cases "fst r") (auto simp: closing_def)

lemma closing_eq_Inl: "closing r = (Inl e, con) \<longleftrightarrow> (\<exists>con1. r = (Inl e, con1) \<and> con = rollback con1)"
  by (cases r; cases "fst r") (auto simp: closing_def)

lemma guard_batch_admitted:
  "guard_batch rt fs roots known caps = Inr admitted \<Longrightarrow>
     set admitted \<subseteq> set caps \<and> (distinct (map c_canonical_key caps) \<longrightarrow> distinct (map c_canonical_key admitted))"
proof (induction caps arbitrary: known admitted)
  case (Cons cap caps)
  then consider (skip) "guard_batch rt fs roots known caps = Inr admitted"
    | (take) k rest where "guard_batch rt fs roots k caps = Inr rest" "admitted = cap # rest"
    by (auto simp: bind_sum_Inr split: sum.splits admission_error.splits)
  then show ?case
  proof cases
    case skip
    from Cons.IH [OF this] show ?thesis by auto
  next
    case take
    from Cons.IH [OF take(1)] take(2) show ?thesis by auto
  qed
qed simp

lemma quarantined_are_accounted:
  assumes "quarantine_new_capabilities rt manifest caps con = (Inr n, con')" "DEFAULT_TENANT rt \<noteq> []"
    "load_vault_placement_index manifest = Inr index"
  shows "capabilities (db con') = capabilities (db con)
    \<and> (\<forall>c \<in> set caps. accounted (capabilities (db con)) (db con') (effective_capability rt index (db con') c))"
proof -
  obtain con1 where q: "quarantine_each rt index (existing_capability_identity (db con)) caps (0, 0) con = (Inr n, con1)" "con' = commit con1"
    using assms(1,3) by (auto simp: quarantine_new_capabilities_def and_then_eq_Inr lift_result_eq_Inr)
  note each = quarantine_each_Inr [OF q(1)]
  have known: "(u, h) \<in> set (map (\<lambda>c. (c_uri c, c_content_hash c)) (capabilities (db con)))"
    if "existing_capability_identity (db con) u = Some h" for u h
    using map_of_SomeD [OF that [unfolded existing_capability_identity_def]] by simp
  have same: "effective_capability rt index (db con') c = effective_capability rt index (db con) c" for c
    by (rule effective_capability_cong) (use each q(2) in simp)
  have "accounted (capabilities (db con)) (db con') (effective_capability rt index (db con) c)" if "c \<in> set caps" for c
  proof (cases "crawled c")
    case True
    with each that q(2) known show ?thesis by (auto simp: accounted_def Let_def)
  next
    case False
    then show ?thesis using effective_settles [OF assms(2), of index "db con" c] by (simp add: accounted_def crawled_def)
  qed
  with each q(2) same show ?thesis by simp
qed

text \<open>C6. Quarantine comes before indexing. After an ingest that returns, the transaction is committed, and
  every discovered row of the catalog is one of three: its address had this content in the catalog
  before, or its content is held in quarantine under this address, or its address is the one of an
  approved promotion, which ingest updates in place. No other content becomes a row. The discovered
  capabilities have distinct canonical keys (as the merge of the discovery gives them), the catalog
  has distinct addresses, promotions have qualified addresses, and the callback after the upsert
  does not change the identity of rows or the quarantine.\<close>

theorem ingest_quarantines_before_indexing:
  assumes run: "ingest_index rt env roots post_ingest discovered con = (Inr result, con')"
    and rt: "DEFAULT_TENANT rt \<noteq> []"
    and keys: "distinct (map c_canonical_key discovered)" "distinct (map c_uri (capabilities (db con)))"
    and promoted: "\<forall>u \<in> promoted_addresses (capabilities (db con)). startswith u ''cap://system/'' \<or> namespaced_uri u"
    and post: "\<And>c x c'. post_ingest c = (Inr x, c') \<Longrightarrow>
      map ident (capabilities (db c')) = map ident (capabilities (db c)) \<and> capguard_quarantine (db c') = capguard_quarantine (db c)"
  shows "durable con' = db con'
    \<and> (\<forall>r \<in> set (capabilities (db con')). crawled r \<longrightarrow>
        (\<exists>r0 \<in> set (capabilities (db con)). c_uri r0 = c_uri r \<and> c_content_hash r0 = c_content_hash r)
        \<or> capguard_is_held (db con') r
        \<or> (\<exists>r0 \<in> set (capabilities (db con)). promoted_row r0 \<and> c_uri r0 = c_uri r))"
proof -
  let ?rows = "capabilities (db con)"
  obtain caps con1 n con2 tally con3 where g: "enforce_install_guards rt (ie_files env) roots (db con) discovered = Inr caps"
    and q: "quarantine_new_capabilities rt (ie_manifest env) caps con = (Inr n, con1)"
    and u: "upsert_discovered rt env caps con1 = (Inr tally, con2)"
    and p: "post_ingest con2 = (Inr (), con3)"
    and c': "con' = finish_ingest rt env caps (commit (record_catalog_generation rt con3))"
    using run by (auto simp: ingest_index_def and_then_eq_Inr lift_result_eq_Inr write_catalog_def closing_eq_Inr Let_def)
  obtain index where index: "load_vault_placement_index (ie_manifest env) = Inr index"
    using q by (auto simp: quarantine_new_capabilities_def and_then_eq_Inr lift_result_eq_Inr)
  note acc = quarantined_are_accounted [OF q rt index]
  have "distinct (map c_canonical_key caps)" using guard_batch_admitted [OF g [unfolded enforce_install_guards_def]] keys(1) by simp
  from upsert_discovered_accounted [OF u rt this _ _ index] acc keys(2) promoted
  have up: "\<forall>r \<in> set (capabilities (db con2)). accounted ?rows (db con2) r" by simp
  have gen: "capabilities (db con') = capabilities (db con3)" "capguard_quarantine (db con') = capguard_quarantine (db con3)"
    by (simp_all add: c' finish_ingest_stored record_catalog_generation_def refresh_catalog_generation_def with_db_def)
  have "accounted ?rows (db con') r" if "r \<in> set (capabilities (db con'))" for r
  proof -
    have "ident r \<in> set (map ident (capabilities (db con2)))" using that gen post [OF p] by (metis image_eqI set_map)
    then obtain r2 where "r2 \<in> set (capabilities (db con2))" "ident r = ident r2" by auto
    then show ?thesis using up accounted_cong [of r r2 "db con'" "db con2"] gen post [OF p] by simp
  qed
  moreover have "durable con' = db con'" by (simp add: c' finish_ingest_stored)
  ultimately show ?thesis by (fastforce simp: accounted_def promoted_addresses_def)
qed

section \<open>A failed ingest\<close>

text \<open>The catalog in both views of a connection.\<close>

definition catalogs :: "conn \<Rightarrow> capability list \<times> capability list" where
  "catalogs con = (capabilities (db con), capabilities (durable con))"

lemma run_on_durable: "durable (snd (run_on ss x con)) = durable con"
  by (simp add: run_on_def split: prod.split option.split)

lemma ensure_default_tenant_durable: "durable (snd (ensure_default_tenant rt t con)) = durable con"
  by (simp add: ensure_default_tenant_run run_on_durable)

lemma ensure_vault_durable: "durable (snd (ensure_vault rt vault t con)) = durable con"
  using ensure_default_tenant_durable [of rt t con]
  by (auto simp: ensure_vault_def ensure_org_shared_namespace_def ensure_all_users_namespace_def run_on_durable split: prod.split sum.split)

lemma place_one_keeps:
  "durable (snd (place_one rt index cap con)) = durable con"
  "capabilities (db (snd (place_one rt index cap con))) = capabilities (db con)"
proof -
  have "durable (snd (apply_vault_placement rt cap index con)) = durable con
    \<and> capabilities (db (snd (apply_vault_placement rt cap index con))) = capabilities (db con)"
  proof (cases "wanted_vault rt cap index")
    case (Some vault)
    obtain r con1 where e: "ensure_vault rt vault (cap_tenant_of rt cap) con = (r, con1)" by fastforce
    then have "durable con1 = durable con" "capabilities (db con1) = capabilities (db con)"
      using ensure_vault_durable [of rt vault "cap_tenant_of rt cap" con] ensure_vault_capabilities [OF e] by simp_all
    then show ?thesis
      using Some e by (cases r) (simp_all add: apply_vault_placement_def and_then_def Let_def case_prod_unfold split: option.split)
  qed (simp add: apply_vault_placement_def)
  then show "durable (snd (place_one rt index cap con)) = durable con"
    "capabilities (db (snd (place_one rt index cap con))) = capabilities (db con)"
    by (cases "apply_vault_placement rt cap index con"; cases "fst (apply_vault_placement rt cap index con)";
        simp add: place_one_def and_then_def)+
qed

lemma place_all_durable: "durable (snd (place_all rt index caps con)) = durable con"
proof (induction caps arbitrary: con)
  case (Cons cap caps)
  obtain r con1 where o: "place_one rt index cap con = (r, con1)" by fastforce
  obtain r2 con2 where a: "place_all rt index caps con1 = (r2, con2)" by fastforce
  have "durable con1 = durable con" "durable con2 = durable con1"
    using place_one_keeps(1) [of rt index cap con] o Cons.IH [of con1] a by simp_all
  then show ?case by (cases r; cases r2) (simp_all add: and_then_def o a)
qed simp

lemma migrate_durable: "durable (snd (migrate_canonical_uri old new con)) = durable con"
  by (simp add: migrate_canonical_uri_def Let_def with_db_def)

lemma upsert_capability_durable: "durable (snd (upsert_capability rt fs cap con)) = durable con"
  by (auto simp: upsert_capability_def Let_def and_then_def lift_result_def with_db_def split: sum.split option.split prod.split)

lemma write_vector_durable: "durable (snd (write_vector env n c b t con)) = durable con"
  by (simp add: write_vector_def mark_vector_failure_def with_db_def)

lemma upsert_one_durable: "durable (snd (upsert_one rt env cap tally con)) = durable con"
proof -
  let ?p = "previous_row (db con) cap"
  let ?m = "case ?p of None \<Rightarrow> (Inr (), con)
          | Some row \<Rightarrow> if c_uri row \<noteq> c_uri (keep_promotion ?p cap) then migrate_canonical_uri (c_uri row) (c_uri (keep_promotion ?p cap)) con
              else (Inr (), con)"
  obtain r con1 where m: "?m = (r, con1)" by fastforce
  have d1: "durable con1 = durable con"
    using arg_cong [OF m, of "\<lambda>x. durable (snd x)"] by (simp add: migrate_durable split: option.splits if_splits)
  obtain r2 con2 where u: "upsert_capability rt (ie_files env) (hold (db con1) (keep_promotion ?p cap)) con1 = (r2, con2)" by fastforce
  have "durable con2 = durable con1" using upsert_capability_durable [of rt "ie_files env" "hold (db con1) (keep_promotion ?p cap)" con1] u by simp
  with d1 show ?thesis
    using m u by (cases r; cases r2) (auto simp: upsert_one_def Let_def and_then_def case_prod_unfold write_vector_durable)
qed

lemma upsert_all_durable: "durable (snd (upsert_all rt env caps tally con)) = durable con"
proof (induction caps arbitrary: tally con)
  case (Cons cap caps)
  obtain r con1 where o: "upsert_one rt env cap tally con = (r, con1)" by fastforce
  then have "durable con1 = durable con" using upsert_one_durable [of rt env cap tally con] by simp
  then show ?case using Cons.IH by (cases r) (simp_all add: and_then_def o)
qed simp

lemma delete_orphans_durable: "durable (snd (delete_orphans rows con)) = durable con"
proof (induction rows arbitrary: con)
  case (Cons row rows)
  let ?con = "with_db (\<lambda>d. d\<lparr>capability_fts := delete_where (\<lambda>f. ft_row_id f = c_row_id row) (capability_fts d),
          capabilities := delete_where (\<lambda>c. c_row_id c = c_row_id row) (capabilities d)\<rparr>) con"
  obtain r con1 where d: "delete_orphans rows ?con = (r, con1)" by fastforce
  have "durable con1 = durable con" using Cons.IH [of ?con] d by (simp add: with_db_def)
  then show ?case by (cases r) (simp_all add: Let_def and_then_def d)
qed simp

lemma and_then_durable:
  assumes "durable (snd r) = durable con" "\<And>x c. durable (snd (f x c)) = durable c"
  shows "durable (snd (and_then r f)) = durable con"
  using assms by (cases r; cases "fst r") (simp_all add: and_then_def)

lemma upsert_discovered_durable: "durable (snd (upsert_discovered rt env caps con)) = durable con"
  unfolding upsert_discovered_def delete_source_orphaned_capabilities_def
  by (intro and_then_durable)
    (simp_all add: lift_result_def place_all_durable upsert_all_durable delete_orphans_durable split: sum.split)

lemma quarantine_capability_catalogs:
  assumes "capabilities (durable con) = capabilities (db con)"
  shows "catalogs (snd (quarantine_capability rt req b con)) = catalogs con"
  using assms by (auto simp: quarantine_capability_def Let_def catalogs_def ensure_table_def with_db_def guard_audit_def commit_if_def
      new_id_def split: option.split)

lemma quarantine_each_catalogs:
  "capabilities (durable con) = capabilities (db con) \<Longrightarrow>
     catalogs (snd (quarantine_each rt index existing caps counts con)) = catalogs con"
proof (induction caps arbitrary: counts con)
  case (Cons cap caps)
  show ?case
  proof (cases "crawled cap")
    case True
    obtain r con1 where o: "place_one rt index cap con = (r, con1)" by fastforce
    have one: "catalogs con1 = catalogs con" "capabilities (durable con1) = capabilities (db con1)"
      using place_one_keeps [of rt index cap con] o Cons.prems by (simp_all add: catalogs_def)
    show ?thesis
    proof (cases r)
      case (Inl e)
      with True o one show ?thesis by (simp add: and_then_def)
    next
      case (Inr e)
      obtain r2 con2 where q: "quarantine_capability rt (quarantine_request_of cap e) True con1 = (r2, con2)" by fastforce
      then have two: "catalogs con2 = catalogs con1" "capabilities (durable con2) = capabilities (db con2)"
        using quarantine_capability_catalogs [OF one(2), of rt "quarantine_request_of cap e" True] one(2) by (simp_all add: catalogs_def)
      show ?thesis
        using True o q one two Inr Cons.IH [OF one(2)] Cons.IH [OF two(2)] by (cases r2) (simp_all add: and_then_def)
    qed
  qed (simp add: Cons.IH [OF Cons.prems])
qed simp

lemma quarantine_new_catalogs:
  assumes "capabilities (durable con) = capabilities (db con)" "quarantine_new_capabilities rt manifest caps con = (r, con')"
  shows "catalogs con' = catalogs con"
proof (cases "load_vault_placement_index manifest")
  case (Inl e)
  with assms show ?thesis by (auto simp: quarantine_new_capabilities_def lift_result_def and_then_def)
next
  case (Inr index)
  obtain r1 con1 where q: "quarantine_each rt index (existing_capability_identity (db con)) caps (0, 0) con = (r1, con1)" by fastforce
  then have "catalogs con1 = catalogs con" using quarantine_each_catalogs [OF assms(1), of rt index] by (metis snd_conv)
  with assms Inr q show ?thesis
    by (cases r1) (auto simp: quarantine_new_capabilities_def lift_result_def and_then_def catalogs_def)
qed

text \<open>The ways a write of the catalog fails: before the commit, or in the coverage report after it.\<close>

lemma write_catalog_failed:
  assumes w: "write_catalog rt env post_ingest caps con = (Inl e, con')"
    and post: "\<And>c. durable (snd (post_ingest c)) = durable c"
  shows "(capabilities (durable con') = capabilities (durable con)
      \<or> (\<exists>tally con2 con3. upsert_discovered rt env caps con = (Inr tally, con2) \<and> post_ingest con2 = (Inr (), con3)
          \<and> coverage_of env (db (record_catalog_generation rt con3)) = Inl e
          \<and> capabilities (durable con') = capabilities (db con3)))
    \<and> capabilities (db con') = capabilities (durable con')"
proof -
  obtain r1 con1 where u: "upsert_discovered rt env caps con = (r1, con1)" by fastforce
  then have d1: "durable con1 = durable con" using upsert_discovered_durable [of rt env caps con] by simp
  obtain r2 con2 where p: "post_ingest con1 = (r2, con2)" by fastforce
  then have d2: "durable con2 = durable con1" using post [of con1] by simp
  show ?thesis
  proof (cases r1)
    case (Inl x)
    with w u have "con' = rollback con1" by (simp add: write_catalog_def closing_def)
    with d1 show ?thesis by (simp add: rollback_def)
  next
    case up: (Inr tally)
    show ?thesis
    proof (cases r2)
      case (Inl x)
      with w u up p have "con' = rollback con2" by (simp add: write_catalog_def closing_def)
      with d1 d2 show ?thesis by (simp add: rollback_def)
    next
      case (Inr v)
      let ?con3 = "commit (record_catalog_generation rt con2)"
      have "write_catalog rt env post_ingest caps con
          = closing (and_then (lift_result (coverage_of env (db ?con3)) ?con3) (\<lambda>_ con4. (Inr tally, con4)))"
        using u up p Inr by (simp add: write_catalog_def Let_def)
      with w have c: "coverage_of env (db (record_catalog_generation rt con2)) = Inl e" "con' = rollback ?con3"
        by (auto simp: closing_def and_then_def lift_result_def split: sum.splits)
      have "capabilities (durable con') = capabilities (db con2)" "capabilities (db con') = capabilities (durable con')"
        by (simp_all add: c(2) rollback_def record_catalog_generation_def refresh_catalog_generation_def with_db_def)
      with u up p Inr c(1) show ?thesis by auto
    qed
  qed
qed

text \<open>C33. A failed ingest leaves no half-written catalog: when ingest_index raises, either the committed
  catalog is the one before, row by row, or the raise came after the commit, from the coverage report: then
  guards, quarantine, upsert and callback had all succeeded and the committed catalog is the complete new
  one. In both cases the open transaction holds no other catalog that a later commit could make durable. The
  callback must not commit.\<close>

theorem failed_ingest_keeps_catalog:
  assumes run: "ingest_index rt env roots post_ingest discovered con = (Inl e, con')"
    and clean: "durable con = db con"
    and post: "\<And>c. durable (snd (post_ingest c)) = durable c"
  shows "(capabilities (durable con') = capabilities (durable con)
      \<or> (\<exists>caps counts con1 tally con2 con3.
          enforce_install_guards rt (ie_files env) roots (db con) discovered = Inr caps
          \<and> quarantine_new_capabilities rt (ie_manifest env) caps con = (Inr counts, con1)
          \<and> upsert_discovered rt env caps con1 = (Inr tally, con2) \<and> post_ingest con2 = (Inr (), con3)
          \<and> coverage_of env (db (record_catalog_generation rt con3)) = Inl e
          \<and> capabilities (durable con') = capabilities (db con3)))
    \<and> capabilities (db con') = capabilities (durable con')"
proof -
  have cd: "capabilities (durable con) = capabilities (db con)" using clean by simp
  show ?thesis
  proof (cases "enforce_install_guards rt (ie_files env) roots (db con) discovered")
    case (Inl x)
    with run clean show ?thesis by (auto simp: ingest_index_def lift_result_def and_then_def)
  next
    case caps: (Inr caps)
    obtain r1 con1 where q: "quarantine_new_capabilities rt (ie_manifest env) caps con = (r1, con1)" by fastforce
    have k1: "capabilities (durable con1) = capabilities (durable con)"
      using quarantine_new_catalogs [OF cd q] by (simp add: catalogs_def)
    show ?thesis
    proof (cases r1)
      case (Inl x)
      with run caps q have "con' = rollback con1" by (auto simp: ingest_index_def lift_result_def and_then_def closing_def)
      with k1 show ?thesis by (simp add: rollback_def)
    next
      case r1: (Inr n)
      with run caps q have w: "write_catalog rt env post_ingest caps con1 = (Inl e, con')"
        by (auto simp: ingest_index_def lift_result_def and_then_def closing_def split: sum.splits prod.splits)
      from write_catalog_failed [OF w post] k1 caps q r1 show ?thesis by auto
    qed
  qed
qed

section \<open>A run\<close>

definition sample_found :: capability where
  "sample_found = sample_capability\<lparr>c_uri := ''cap://user/s'', c_package_path := ''/s''\<rparr>"

definition sample_ingest :: ingest_env where
  "sample_ingest = \<lparr>ie_files = plain_files, ie_manifest = None, ie_vector = False, embeds = (\<lambda>_ _. False),
     ie_classes = ascii_classes, ie_sources = (\<lambda>_. NoFile), coverage_of = (\<lambda>_. Inr JNull), repairs = False\<rparr>"

lemma sample_default: "apply_default_user_namespace rt sample_found = sample_found" "crawled sample_found"
  by (simp_all add: sample_found_def sample_capability_def apply_default_user_namespace_def namespaced_uri_def startswith_def cap_tenant_of_def crawled_def)

lemma sample_admitted: "enforce_install_guards sample_runtime plain_files [''/''] empty_database [sample_found] = Inr [sample_found]"
  by (simp add: enforce_install_guards_def empty_database_def sample_found_def sample_capability_def assert_body_resolvable_def Let_def
     containing_root_def normalized_path_def plain_files_def parse_path_def path_join_def absolute_text_def path_text_def startswith_def bind_sum_def sample_runtime_def expandvars.simps env_name_char_def)

lemma sample_placed: "place_one rt [] sample_found con = (Inr sample_found, con)"
  by (simp add: place_one_def apply_vault_placement_def wanted_vault_def and_then_def sample_default)

lemma audit_event_sources: "capability_sources (db (snd (audit_event rt et a t act dec r pl ten ty con))) = capability_sources (db con)"
  by (simp add: audit_event_def mirror_to_log_def insert_log_def Let_def case_prod_unfold)

lemma sample_quarantined:
  "\<exists>n con1. quarantine_new_capabilities sample_runtime None [sample_found] (sample_conn empty_database) = (Inr n, con1)
     \<and> capabilities (db con1) = [] \<and> capability_sources (db con1) = []"
proof -
  let ?req = "quarantine_request_of sample_found sample_found"
  have "\<exists>r con1. quarantine_capability sample_runtime ?req True (sample_conn empty_database) = (Inr r, con1) \<and> capability_sources (db con1) = []"
    by (simp add: ensure_table_def with_db_def guard_audit_def commit_if_def new_id_def sample_conn_def empty_database_def audit_event_sources quarantine_capability_def Let_def quarantine_request_of_def sample_found_def sample_capability_def QUARANTINE_REASONS_def
        case_prod_unfold split: option.split)
  then obtain r con1 where q: "quarantine_capability sample_runtime ?req True (sample_conn empty_database) = (Inr r, con1)" "capability_sources (db con1) = []" by blast
  have "existing_capability_identity (db (sample_conn empty_database)) u = None" for u
    by (simp add: existing_capability_identity_def sample_conn_def empty_database_def)
  then show ?thesis
    by (simp add: quarantine_new_capabilities_def load_vault_placement_index_def lift_result_def and_then_def sample_placed sample_default q)
      (use quarantine_capability_Inr(1) [OF q(1)] in \<open>simp add: sample_conn_def empty_database_def\<close>)
qed

lemma sample_sources: "capability_source_rows plain_files (sample_found\<lparr>c_lifecycle := l, c_approval_state := a\<rparr>) = Inr [source_row_of sample_found (own_provenance plain_files sample_found)]"
  by (simp add: capability_source_rows_def prior_provenance_def bind_sum_def raw_source_paths_def pget_def json_or_def json_truthy_def iterate_def Let_def
     setdefault_source_def own_provenance_def sample_found_def sample_capability_def py_str_def source_row_of_def)

lemma sample_written:
  assumes "capabilities d = []"
  shows "upsert_row (sample_found\<lparr>c_lifecycle := l, c_approval_state := a\<rparr>) d =
    Inr (d\<lparr>capabilities := [sample_found\<lparr>c_lifecycle := l, c_approval_state := a, c_row_id := 1\<rparr>]\<rparr>)"
  using assms by (simp add: upsert_row_def legal_columns_def next_row_id_def sample_found_def sample_capability_def
      CAPABILITY_TYPES_def VISIBILITIES_def DISCOVERY_MODES_def RISK_TIERS_def)

lemma sample_held: "\<exists>l a. hold d sample_found = sample_found\<lparr>c_lifecycle := l, c_approval_state := a\<rparr>"
proof (cases "capguard_is_held d sample_found")
  case True
  then show ?thesis by (auto simp: hold_def)
next
  case False
  then have "hold d sample_found = sample_found\<lparr>c_lifecycle := c_lifecycle sample_found, c_approval_state := c_approval_state sample_found\<rparr>"
    by (simp add: hold_def)
  then show ?thesis by blast
qed

lemma sample_held_default:
  "apply_default_user_namespace rt (sample_found\<lparr>c_lifecycle := l, c_approval_state := a\<rparr>) = sample_found\<lparr>c_lifecycle := l, c_approval_state := a\<rparr>"
  by (simp add: sample_found_def sample_capability_def apply_default_user_namespace_def namespaced_uri_def startswith_def cap_tenant_of_def)

lemma sample_upserted:
  assumes "capabilities (db con) = []" "capability_sources (db con) = []"
  shows "\<exists>t con1. upsert_discovered sample_runtime sample_ingest [sample_found] con = (Inr t, con1) \<and> capabilities (db con1) \<noteq> []"
proof -
  have pl: "place_all sample_runtime [] [sample_found] con = (Inr [sample_found], con)"
    by (simp add: and_then_def sample_placed)
  have mg: "merge_by_effective_uri sample_runtime plain_files [sample_found] = Inr [sample_found]"
    by (simp add: merge_by_effective_uri_def merge_effective_group_def group_of_def bind_sum_def)
  obtain l a where h: "hold (db con) sample_found = sample_found\<lparr>c_lifecycle := l, c_approval_state := a\<rparr>"
    using sample_held by blast
  let ?c = "sample_found\<lparr>c_lifecycle := l, c_approval_state := a\<rparr>"
  let ?s = "source_row_of sample_found (own_provenance plain_files sample_found)"
  obtain con1 where u: "upsert_capability sample_runtime plain_files ?c con = (Inr 1, con1)"
     "capabilities (db con1) = [sample_found\<lparr>c_lifecycle := l, c_approval_state := a, c_row_id := 1\<rparr>]"
     "capability_sources (db con1) = [?s]"
    using assms by (simp add: upsert_capability_def Let_def sample_held_default clamp_lifecycle_def sample_written sample_sources
      and_then_def lift_result_def with_db_def sync_sources_def upsert_source_def order_by_def delete_where_def)
  have "orphaned (db con1) = []"
    using u by (simp add: orphaned_def order_by_def source_row_of_def own_provenance_def)
  moreover have "previous_row (db con) sample_found = None" using assms by (simp add: previous_row_def)
  then have "upsert_all sample_runtime sample_ingest [sample_found] no_tally con = (Inr (count_change None sample_found no_tally), con1)"
    using u(1) h by (simp add: upsert_one_def Let_def and_then_def keep_promotion_def write_vector_def sample_ingest_def)
  ultimately show ?thesis
    using u(2) by (simp add: upsert_discovered_def load_vault_placement_index_def lift_result_def pl mg and_then_def
      delete_source_orphaned_capabilities_def sample_ingest_def del: place_all.simps upsert_all.simps)
qed

text \<open>The write of the catalog for the sample, up to the coverage report.\<close>

lemma sample_write:
  assumes "ie_files env = plain_files" "ie_manifest env = None"
    "\<And>con. upsert_discovered sample_runtime env [sample_found] con = upsert_discovered sample_runtime sample_ingest [sample_found] con"
  obtains n con2 t where "capabilities (db con2) \<noteq> []"
    "ingest_index sample_runtime env [''/''] (\<lambda>c. (Inr (), c)) [sample_found] (sample_conn empty_database)
       = (let con3 = commit (record_catalog_generation sample_runtime con2) in
          case coverage_of env (db con3) of
            Inl e \<Rightarrow> (Inl e, rollback con3)
          | Inr _ \<Rightarrow> (Inr (t, n), finish_ingest sample_runtime env [sample_found] con3))"
proof -
  obtain n con1 where q: "quarantine_new_capabilities sample_runtime None [sample_found] (sample_conn empty_database) = (Inr n, con1)"
    and c1: "capabilities (db con1) = []" "capability_sources (db con1) = []"
    using sample_quarantined by blast
  obtain t con2 where u: "upsert_discovered sample_runtime sample_ingest [sample_found] con1 = (Inr t, con2)" "capabilities (db con2) \<noteq> []"
    using sample_upserted [OF c1] by blast
  have start: "db (sample_conn empty_database) = empty_database" by (simp add: sample_conn_def)
  show thesis
  proof (rule that [OF u(2)])
    show "ingest_index sample_runtime env [''/''] (\<lambda>c. (Inr (), c)) [sample_found] (sample_conn empty_database)
       = (let con3 = commit (record_catalog_generation sample_runtime con2) in
          case coverage_of env (db con3) of
            Inl e \<Rightarrow> (Inl e, rollback con3)
          | Inr _ \<Rightarrow> (Inr (t, n), finish_ingest sample_runtime env [sample_found] con3))"
      using assms q u sample_admitted start
      by (simp add: ingest_index_def lift_result_def and_then_def closing_def write_catalog_def Let_def split: sum.split)
  qed
qed

theorem ingest_quarantines_before_indexing_witness:
  "\<exists>result con'. ingest_index sample_runtime sample_ingest [''/''] (\<lambda>c. (Inr (), c)) [sample_found] (sample_conn empty_database) = (Inr result, con')
     \<and> capabilities (db con') \<noteq> [] \<and> list_all (capguard_is_held (db con')) (filter crawled (capabilities (db con')))"
proof -
  have start: "capabilities (db (sample_conn empty_database)) = []" by (simp add: sample_conn_def empty_database_def)
  obtain n con2 t where c2: "capabilities (db con2) \<noteq> []"
    and run: "ingest_index sample_runtime sample_ingest [''/''] (\<lambda>c. (Inr (), c)) [sample_found] (sample_conn empty_database)
      = (Inr (t, n), finish_ingest sample_runtime sample_ingest [sample_found] (commit (record_catalog_generation sample_runtime con2)))"
    by (rule sample_write [of sample_ingest]) (simp_all add: sample_ingest_def Let_def)
  let ?con = "finish_ingest sample_runtime sample_ingest [sample_found] (commit (record_catalog_generation sample_runtime con2))"
  have "DEFAULT_TENANT sample_runtime \<noteq> []" by (simp add: DEFAULT_TENANT_def sample_runtime_def)
  from ingest_quarantines_before_indexing [OF run this] have "list_all (capguard_is_held (db ?con)) (filter crawled (capabilities (db ?con)))"
    by (auto simp: start promoted_addresses_def list_all_iff)
  moreover have "capabilities (db ?con) \<noteq> []"
    using c2 by (simp add: finish_ingest_stored record_catalog_generation_def refresh_catalog_generation_def with_db_def)
  ultimately show ?thesis using run by blast
qed

lemma upsert_all_coverage: "upsert_all rt (env\<lparr>coverage_of := f\<rparr>) caps = upsert_all rt env caps"
proof -
  have "write_vector (env\<lparr>coverage_of := f\<rparr>) = write_vector env" by (intro ext) (simp add: write_vector_def)
  then have "upsert_one rt (env\<lparr>coverage_of := f\<rparr>) cap tally con = upsert_one rt env cap tally con" for cap tally con
    by (simp add: upsert_one_def)
  then show ?thesis by (induction caps) (auto intro!: ext)
qed

text \<open>A raise of the coverage report is reported as a failed ingest although the new catalog is durable.\<close>

theorem late_failure_keeps_new_catalog:
  "\<exists>con'. ingest_index sample_runtime (sample_ingest\<lparr>coverage_of := (\<lambda>_. Inl (FileNotFoundErr ''gone''))\<rparr>) [''/''] (\<lambda>c. (Inr (), c)) [sample_found]
       (sample_conn empty_database) = (Inl (FileNotFoundErr ''gone''), con')
     \<and> capabilities (durable (sample_conn empty_database)) = [] \<and> capabilities (durable con') \<noteq> []"
proof -
  let ?env = "sample_ingest\<lparr>coverage_of := (\<lambda>_. Inl (FileNotFoundErr ''gone''))\<rparr>"
  have up: "upsert_discovered sample_runtime ?env caps con = upsert_discovered sample_runtime sample_ingest caps con" for caps con
    by (simp add: upsert_discovered_def upsert_all_coverage)
  obtain n con2 t where c2: "capabilities (db con2) \<noteq> []"
    and run: "ingest_index sample_runtime ?env [''/''] (\<lambda>c. (Inr (), c)) [sample_found] (sample_conn empty_database)
      = (Inl (FileNotFoundErr ''gone''), rollback (commit (record_catalog_generation sample_runtime con2)))"
  proof (rule sample_write [of ?env])
    show "ie_files ?env = plain_files" "ie_manifest ?env = None" by (simp_all add: sample_ingest_def)
    show "upsert_discovered sample_runtime ?env [sample_found] con = upsert_discovered sample_runtime sample_ingest [sample_found] con" for con
      by (rule up)
  qed (simp add: Let_def)
  with c2 show ?thesis
    by (simp add: rollback_def sample_conn_def empty_database_def record_catalog_generation_def refresh_catalog_generation_def with_db_def)
qed

theorem failed_ingest_keeps_catalog_witness:
  "capabilities (durable (snd (ingest_index sample_runtime sample_ingest [] (\<lambda>c. (Inr (), c)) [sample_found]
     (sample_conn (empty_database\<lparr>capabilities := [sample_capability]\<rparr>))))) = [sample_capability]"
proof -
  let ?con = "sample_conn (empty_database\<lparr>capabilities := [sample_capability]\<rparr>)"
  have refused: "\<exists>e. enforce_install_guards sample_runtime (ie_files sample_ingest) [] (db ?con) [sample_found] = Inl e"
    by (simp add: enforce_install_guards_def assert_body_resolvable_def Let_def sample_found_def)
  then obtain e where run: "ingest_index sample_runtime sample_ingest [] (\<lambda>c. (Inr (), c)) [sample_found] ?con = (Inl e, ?con)"
    by (auto simp: ingest_index_def lift_result_def and_then_def)
  have "durable ?con = db ?con" by (simp add: sample_conn_def)
  from failed_ingest_keeps_catalog [OF run this] refused have "capabilities (durable ?con) = [sample_capability]"
    by (auto simp: sample_conn_def)
  with run show ?thesis by simp
qed

text \<open>The last dependency of a run is not stored: add_dependency is called without a commit and each call
  commits only what the calls before it wrote, so that the close of the connection drops the last one,
  unless a repair of the vector table happens to commit.\<close>

lemma track_dependencies_append: "track_dependencies rt (ds @ es) con = track_dependencies rt es (track_dependencies rt ds con)"
  by (induction rt ds con rule: track_dependencies.induct) simp_all

theorem last_dependency_is_dropped:
  assumes "concat (map declared_dependencies caps) = ds @ [d]" and "\<not> repairs env"
  shows "capability_dependencies (durable (finish_ingest rt env caps con))
    = capability_dependencies (db (track_dependencies rt ds (ensure_table (scan_ingested rt env caps con))))"
  using assms by (cases d)
    (simp add: finish_ingest_def track_dependencies_append add_dependency_def new_id_def Let_def commit_if_def rollback_def ensure_table_def)

theorem last_dependency_is_dropped_witness:
  "capability_dependencies (durable (finish_ingest sample_runtime sample_ingest
      [sample_found\<lparr>c_metadata := [(''depends_on'', JList [JStr ''cap://user/t''])]\<rparr>] (sample_conn empty_database))) = []"
proof -
  let ?cap = "sample_found\<lparr>c_metadata := [(''depends_on'', JList [JStr ''cap://user/t''])]\<rparr>"
  have "concat (map declared_dependencies [?cap]) = [] @ [(c_uri ?cap, ''cap://user/t'', c_tenant_id ?cap)]"
    by (simp add: declared_dependencies_def py_strip_def py_lstrip_def py_rstrip_def py_isspace_def)
  moreover have "\<not> repairs sample_ingest" by (simp add: sample_ingest_def)
  ultimately show ?thesis
    using last_dependency_is_dropped [of "[?cap]" "[]" _ sample_ingest sample_runtime "sample_conn empty_database"]
    by (simp add: scan_ingested_def scan_capability_def sample_conn_def empty_database_def commit_if_def Let_def sample_found_def sample_capability_def)
qed

end
