(* ===== verification/Directory_Sync.thy ===== *)
theory Directory_Sync
  imports Provisioning Registry_Log Py_Payload "HOL-Library.Product_Lexorder"
begin

text \<open>
  The directory interface: SCIM users and groups (\<^verbatim>\<open>scim.py\<close>) and the mapping of directory groups
  (\<^verbatim>\<open>scim_sync.py\<close>).

  \<^verbatim>\<open>json_loads\<close> of a stored document is the argument \<^verbatim>\<open>loads\<close>; it is used only to show the addresses of a
  user without a mail address. The column \<^verbatim>\<open>entra_object_id\<close>, which always holds the external id, is left out.
\<close>

section \<open>Requests\<close>

definition SCIM_USER_SCHEMA :: string where
  "SCIM_USER_SCHEMA = ''urn:ietf:params:scim:schemas:core:2.0:User''"

definition SCIM_GROUP_SCHEMA :: string where
  "SCIM_GROUP_SCHEMA = ''urn:ietf:params:scim:schemas:core:2.0:Group''"

definition SCIM_LIST_SCHEMA :: string where
  "SCIM_LIST_SCHEMA = ''urn:ietf:params:scim:api:messages:2.0:ListResponse''"

definition SCIM_ERROR_SCHEMA :: string where
  "SCIM_ERROR_SCHEMA = ''urn:ietf:params:scim:api:messages:2.0:Error''"

text \<open>\<^verbatim>\<open>value.get(key)\<close>, an error on anything but a dictionary.\<close>

definition attr_get :: "string \<Rightarrow> json \<Rightarrow> py_error + json" where
  "attr_get k v = (case v of JObj kvs \<Rightarrow> Inr (pget kvs k) | _ \<Rightarrow> Inl (AttributeErr ''object has no attribute get''))"

text \<open>\<^verbatim>\<open>payload.get(outer, {}).get(inner)\<close>\<close>

definition nested_get :: "payload \<Rightarrow> string \<Rightarrow> string \<Rightarrow> py_error + json" where
  "nested_get p outer inner = (case map_of p outer of None \<Rightarrow> Inr JNull | Some v \<Rightarrow> attr_get inner v)"

fun first_primary :: "json list \<Rightarrow> py_error + string option" where
  "first_primary [] = Inr None"
| "first_primary (item # items) =
     bind_sum (attr_get ''primary'' item) (\<lambda>primary. bind_sum (attr_get ''value'' item) (\<lambda>v.
       if json_truthy primary \<and> json_truthy v then Inr (Some (py_str v)) else first_primary items))"

definition primary_email :: "payload \<Rightarrow> py_error + string option" where
  "primary_email payload =
     bind_sum (iterate (json_or (pget payload ''emails'') (JList []))) (\<lambda>emails.
     bind_sum (first_primary emails) (\<lambda>found.
       case found of Some v \<Rightarrow> Inr (Some v)
       | None \<Rightarrow> (case emails of [] \<Rightarrow> Inr None
           | item # _ \<Rightarrow> bind_sum (attr_get ''value'' item) (\<lambda>v. Inr (if json_truthy v then Some (py_str v) else None)))))"

fun cut_at :: "string \<Rightarrow> string \<Rightarrow> (string \<times> string) option" where
  "cut_at p [] = None"
| "cut_at p (c # s) = (if startswith (c # s) p then Some ([], drop (length p) (c # s))
     else map_option (\<lambda>(a, b). (c # a, b)) (cut_at p s))"

definition parse_eq_filter :: "string \<Rightarrow> (string \<times> string) option" where
  "parse_eq_filter q = map_option (\<lambda>(a, b). (py_strip a, strip_chars [CHR 0x22] (py_strip b))) (cut_at '' eq '' q)"

section \<open>Answers\<close>

definition list_response :: "payload list \<Rightarrow> int \<Rightarrow> nat \<Rightarrow> nat option \<Rightarrow> payload" where
  "list_response resources start_index shown matches =
     [(''schemas'', JList [JStr SCIM_LIST_SCHEMA]),
      (''totalResults'', JInt (int (case matches of None \<Rightarrow> length resources | Some n \<Rightarrow> n))),
      (''startIndex'', JInt start_index), (''itemsPerPage'', JInt (int shown)),
      (''Resources'', JList (map JObj resources))]"

definition scim_error :: "nat \<Rightarrow> string \<Rightarrow> string option \<Rightarrow> payload" where
  "scim_error status message scim_type =
     [(''schemas'', JList [JStr SCIM_ERROR_SCHEMA]), (''status'', JStr (str_of_nat status)), (''detail'', JStr message)]
     @ (case scim_type of Some t \<Rightarrow> if t = [] then [] else [(''scimType'', JStr t)] | None \<Rightarrow> [])"

definition meta_of :: "string \<Rightarrow> string \<Rightarrow> string \<Rightarrow> string \<Rightarrow> string \<Rightarrow> payload" where
  "meta_of kind created updated base_url path =
     [(''resourceType'', JStr kind), (''created'', JStr created), (''lastModified'', JStr updated),
      (''version'', JStr (''W/'' @ [CHR 0x22] @ updated @ [CHR 0x22]))]
     @ (if base_url = [] then [] else [(''location'', JStr (rstrip_chars ''/'' base_url @ path))])"

definition user_resource :: "(string \<Rightarrow> json) \<Rightarrow> string \<Rightarrow> identity_row \<Rightarrow> py_error + payload" where
  "user_resource loads base_url row =
     bind_sum (if truthy (id_email row) then Inr (JList [JObj [(''value'', json_opt (id_email row)), (''primary'', JBool True)]])
       else (case loads (id_raw_json row) of JObj kvs \<Rightarrow> Inr (case map_of kvs ''emails'' of None \<Rightarrow> JList [] | Some v \<Rightarrow> v)
         | _ \<Rightarrow> Inl (AttributeErr ''object has no attribute get''))) (\<lambda>emails.
       Inr [(''schemas'', JList [JStr SCIM_USER_SCHEMA]), (''id'', JStr (id_id row)), (''externalId'', json_opt (id_external_id row)),
         (''userName'', JStr (id_user_name row)), (''displayName'', json_opt (id_display_name row)),
         (''active'', JBool (id_active row)), (''emails'', emails),
         (''meta'', JObj (meta_of ''User'' (id_created_at row) (id_updated_at row) base_url (''/scim/v2/Users/'' @ id_id row)))])"

definition member_rows :: "string \<Rightarrow> database \<Rightarrow> identity_row list" where
  "member_rows group_id d = order_by id_user_name (concat (map (\<lambda>m. filter (\<lambda>i. id_id i = gm_identity m) (identities d))
     (filter (\<lambda>m. gm_group m = group_id) (group_members d))))"

definition group_resource :: "string \<Rightarrow> database \<Rightarrow> group_row \<Rightarrow> payload" where
  "group_resource base_url d row =
     [(''schemas'', JList [JStr SCIM_GROUP_SCHEMA]), (''id'', JStr (gp_id row)), (''externalId'', json_opt (gp_external_id row)),
      (''displayName'', JStr (gp_display_name row)),
      (''members'', JList (map (\<lambda>i. JObj [(''value'', JStr (id_id i)), (''display'', JStr (or_else (id_display_name i) (id_user_name i)))])
        (member_rows (gp_id row) d))),
      (''meta'', JObj (meta_of ''Group'' (gp_created_at row) (gp_updated_at row) base_url (''/scim/v2/Groups/'' @ gp_id row)))]"

section \<open>Listings\<close>

text \<open>The window of a page: \<^verbatim>\<open>LIMIT count OFFSET start_index - 1\<close>, with 1 to 100 rows.\<close>

definition page_size :: "int \<Rightarrow> nat" where
  "page_size limit = nat (min (max limit 1) 100)"

definition page_of :: "int \<Rightarrow> int \<Rightarrow> 'r list \<Rightarrow> 'r list" where
  "page_of start_index limit rows = take (page_size limit) (drop (nat (max (start_index - 1) 0)) rows)"

definition matching :: "(string \<times> ('r \<Rightarrow> string option)) list \<Rightarrow> string option \<Rightarrow> 'r \<Rightarrow> bool" where
  "matching cols filter_query r =
     (case filter_query of None \<Rightarrow> True
      | Some q \<Rightarrow> if q = [] then True
          else (case parse_eq_filter q of None \<Rightarrow> True
            | Some (field, v) \<Rightarrow> (case map_of cols field of None \<Rightarrow> True | Some col \<Rightarrow> col r = Some v)))"

definition listed_users :: "string \<Rightarrow> string option \<Rightarrow> database \<Rightarrow> identity_row list" where
  "listed_users tenant_id filter_query d =
     order_by id_user_name (filter (\<lambda>r. id_tenant r = tenant_id
       \<and> matching [(''userName'', Some \<circ> id_user_name), (''externalId'', id_external_id)] filter_query r) (identities d))"

definition listed_groups :: "string \<Rightarrow> string option \<Rightarrow> database \<Rightarrow> group_row list" where
  "listed_groups tenant_id filter_query d =
     order_by gp_display_name (filter (\<lambda>r. gp_tenant r = tenant_id
       \<and> matching [(''displayName'', Some \<circ> gp_display_name), (''externalId'', gp_external_id)] filter_query r) (group_rows d))"

fun each_result :: "('a \<Rightarrow> py_error + 'b) \<Rightarrow> 'a list \<Rightarrow> py_error + 'b list" where
  "each_result f [] = Inr []"
| "each_result f (x # xs) = bind_sum (f x) (\<lambda>y. bind_sum (each_result f xs) (\<lambda>ys. Inr (y # ys)))"

definition list_users ::
  "(string \<Rightarrow> json) \<Rightarrow> string \<Rightarrow> int \<Rightarrow> int \<Rightarrow> string option \<Rightarrow> string \<Rightarrow> database \<Rightarrow> py_error + payload" where
  "list_users loads tenant_id start_index limit filter_query base_url d =
     (let all = listed_users tenant_id filter_query d; rows = page_of start_index limit all in
      bind_sum (each_result (user_resource loads base_url) rows) (\<lambda>resources.
        Inr (list_response resources start_index (length rows) (Some (length all)))))"

definition list_groups :: "string \<Rightarrow> int \<Rightarrow> int \<Rightarrow> string option \<Rightarrow> string \<Rightarrow> database \<Rightarrow> payload" where
  "list_groups tenant_id start_index limit filter_query base_url d =
     (let all = listed_groups tenant_id filter_query d; rows = page_of start_index limit all in
      list_response (map (group_resource base_url d) rows) start_index (length rows) (Some (length all)))"

definition get_user :: "(string \<Rightarrow> json) \<Rightarrow> string \<Rightarrow> string \<Rightarrow> string \<Rightarrow> database \<Rightarrow> py_error + payload option" where
  "get_user loads user_id tenant_id base_url d =
     (case find (\<lambda>r. id_id r = user_id \<and> id_tenant r = tenant_id) (identities d) of None \<Rightarrow> Inr None
      | Some row \<Rightarrow> bind_sum (user_resource loads base_url row) (\<lambda>u. Inr (Some u)))"

definition get_group :: "string \<Rightarrow> string \<Rightarrow> string \<Rightarrow> database \<Rightarrow> payload option" where
  "get_group group_id tenant_id base_url d =
     map_option (group_resource base_url d) (find (\<lambda>r. gp_id r = group_id \<and> gp_tenant r = tenant_id) (group_rows d))"

section \<open>Users\<close>

definition upsert_directory_identity :: "identity_row \<Rightarrow> stmt" where
  "upsert_directory_identity row d =
     (case find (\<lambda>r. id_id r = id_id row) (identities d) of
        None \<Rightarrow>
          if list_ex (same_identity_key row) (identities d) then Inl UNIQUE_ERROR
          else if \<not> has_tenant d (id_tenant row) then Inl FK_ERROR
          else Inr (d\<lparr>identities := identities d @ [row]\<rparr>)
      | Some old \<Rightarrow>
          if list_ex (\<lambda>r. id_id r \<noteq> id_id row \<and> id_tenant r = id_tenant old
              \<and> (id_user_name r = id_user_name row \<or> id_external_id r = id_external_id row)) (identities d) then Inl UNIQUE_ERROR
          else Inr (d\<lparr>identities := update_where (\<lambda>r. id_id r = id_id row) (\<lambda>r. r\<lparr>id_external_id := id_external_id row,
              id_user_name := id_user_name row, id_display_name := id_display_name row, id_email := id_email row,
              id_active := id_active row, id_raw_json := id_raw_json row, id_updated_at := id_updated_at row\<rparr>) (identities d)\<rparr>))"

definition upsert_sync_state :: "scim_state_row \<Rightarrow> stmt" where
  "upsert_sync_state row d =
     (if list_ex (\<lambda>r. sy_tenant r = sy_tenant row \<and> sy_resource_type r = sy_resource_type row \<and> sy_external_id r = sy_external_id row)
         (scim_sync_state d)
      then Inr (d\<lparr>scim_sync_state := update_where (\<lambda>r. sy_tenant r = sy_tenant row \<and> sy_resource_type r = sy_resource_type row
            \<and> sy_external_id r = sy_external_id row)
          (\<lambda>r. r\<lparr>sy_internal_id := sy_internal_id row, sy_version := sy_version row, sy_raw_json := sy_raw_json row,
            sy_last_seen_at := sy_last_seen_at row\<rparr>) (scim_sync_state d)\<rparr>)
      else if list_ex (\<lambda>r. sy_id r = sy_id row) (scim_sync_state d) then Inl UNIQUE_ERROR
      else Inr (d\<lparr>scim_sync_state := scim_sync_state d @ [row]\<rparr>))"

definition sync_row :: "runtime \<Rightarrow> string \<Rightarrow> string \<Rightarrow> string \<Rightarrow> string \<Rightarrow> string option \<Rightarrow> payload \<Rightarrow> scim_state_row" where
  "sync_row rt tenant_id kind external internal version payload =
     \<lparr>sy_id = stable_id ''sync'' [tenant_id, kind, external], sy_tenant = tenant_id, sy_resource_type = kind,
      sy_external_id = external, sy_internal_id = internal, sy_version = version, sy_raw_json = json_dumps (JObj payload),
      sy_last_seen_at = sql_now rt\<rparr>"

text \<open>The identifier, the name and the external id of a request: \<^verbatim>\<open>(external, name, id)\<close>.\<close>

definition scim_keys :: "string \<Rightarrow> string \<Rightarrow> string \<Rightarrow> payload \<Rightarrow> string \<times> string \<times> string" where
  "scim_keys prefix name_key tenant_id payload =
     (let external = py_str (json_or (pget payload ''externalId'') (json_or (pget payload ''id'') (JStr [])));
          name = py_strip (str_or payload name_key []);
          key = py_str (json_or (pget payload ''id'')
            (JStr (stable_id prefix [tenant_id, if external = [] then name else external])))
      in (if external = [] then key else external, name, key))"

definition directory_audit :: "runtime \<Rightarrow> string \<Rightarrow> string \<Rightarrow> string \<Rightarrow> string \<Rightarrow> string \<Rightarrow> conn \<Rightarrow> conn" where
  "directory_audit rt event actor target action tenant_id con =
     snd (audit_event rt event actor (Some target) (Some action) (Some ''allow'') None [] tenant_id ''system'' con)"

definition scim_display_name :: "payload \<Rightarrow> py_error + string option" where
  "scim_display_name payload =
     bind_sum (if json_truthy (pget payload ''displayName'') then Inr (pget payload ''displayName'')
       else nested_get payload ''name'' ''formatted'') bind_text"

definition upsert_user ::
  "runtime \<Rightarrow> (string \<Rightarrow> json) \<Rightarrow> payload \<Rightarrow> string \<Rightarrow> string \<Rightarrow> conn \<Rightarrow> (conn, payload) outcome" where
  "upsert_user rt loads payload tenant_id actor con =
     (let (external, user_name, identity_id) = scim_keys ''idn'' ''userName'' tenant_id payload in
      if user_name = [] then (Inl (ValueError ''SCIM User userName is required.''), con)
      else if list_ex (\<lambda>r. id_id r = identity_id \<and> id_tenant r \<noteq> tenant_id) (identities (db con)) then
        (Inl (ValueError ''SCIM User id belongs to a different tenant.''), con)
      else
        and_then (lift_result (primary_email payload) con) (\<lambda>email con.
        and_then (lift_result (scim_display_name payload) con) (\<lambda>display con.
        and_then (run_on [upsert_directory_identity
            \<lparr>id_id = identity_id, id_tenant = tenant_id, id_external_id = Some external, id_user_name = user_name,
             id_display_name = display, id_email = email, id_type = ''human'',
             id_active = (case map_of payload ''active'' of None \<Rightarrow> True | Some v \<Rightarrow> json_truthy v),
             id_raw_json = json_dumps (JObj payload), id_created_at = sql_now rt, id_updated_at = sql_now rt\<rparr>] () con) (\<lambda>_ con.
        and_then (lift_result (bind_sum (nested_get payload ''meta'' ''version'') bind_text) con) (\<lambda>version con.
        and_then (run_on [upsert_sync_state (sync_row rt tenant_id ''User'' external identity_id version payload)] () con) (\<lambda>_ con.
          let con = commit (directory_audit rt ''scim.user.upsert'' actor identity_id ''upsert'' tenant_id con) in
          lift_result (case find (\<lambda>r. id_id r = identity_id) (identities (db con)) of
              None \<Rightarrow> Inl (TypeErr ''NoneType object is not subscriptable'')
            | Some row \<Rightarrow> user_resource loads [] row) con))))))"

definition delete_user :: "runtime \<Rightarrow> string \<Rightarrow> string \<Rightarrow> string \<Rightarrow> conn \<Rightarrow> bool \<times> conn" where
  "delete_user rt user_id tenant_id actor con =
     (if \<not> list_ex (\<lambda>r. id_id r = user_id \<and> id_tenant r = tenant_id) (identities (db con)) then (False, con)
      else (True, commit (directory_audit rt ''scim.user.deactivated'' actor user_id ''delete'' tenant_id
        (with_db (\<lambda>d. d\<lparr>identities := update_where (\<lambda>r. id_id r = user_id)
          (\<lambda>r. r\<lparr>id_active := False, id_updated_at := sql_now rt\<rparr>) (identities d)\<rparr>) con))))"

section \<open>Groups\<close>

definition upsert_group_row :: "group_row \<Rightarrow> stmt" where
  "upsert_group_row row d =
     (case find (\<lambda>r. gp_id r = gp_id row) (group_rows d) of
        None \<Rightarrow>
          if list_ex (\<lambda>r. gp_tenant r = gp_tenant row
              \<and> (gp_display_name r = gp_display_name row \<or> gp_external_id r = gp_external_id row)) (group_rows d) then Inl UNIQUE_ERROR
          else if \<not> has_tenant d (gp_tenant row) then Inl FK_ERROR
          else Inr (d\<lparr>group_rows := group_rows d @ [row]\<rparr>)
      | Some old \<Rightarrow>
          if list_ex (\<lambda>r. gp_id r \<noteq> gp_id row \<and> gp_tenant r = gp_tenant old
              \<and> (gp_display_name r = gp_display_name row \<or> gp_external_id r = gp_external_id row)) (group_rows d) then Inl UNIQUE_ERROR
          else Inr (d\<lparr>group_rows := update_where (\<lambda>r. gp_id r = gp_id row) (\<lambda>r. r\<lparr>gp_external_id := gp_external_id row,
              gp_display_name := gp_display_name row, gp_active := True, gp_raw_json := gp_raw_json row,
              gp_updated_at := gp_updated_at row\<rparr>) (group_rows d)\<rparr>))"

definition insert_member_or_ignore :: "string \<Rightarrow> string \<Rightarrow> group_member_row list \<Rightarrow> group_member_row list" where
  "insert_member_or_ignore group_id member t =
     (if list_ex (\<lambda>m. gm_group m = group_id \<and> gm_identity m = member) t then t
      else t @ [\<lparr>gm_group = group_id, gm_identity = member, gm_source = ''scim''\<rparr>])"

definition replace_members :: "string \<Rightarrow> string list \<Rightarrow> group_member_row list \<Rightarrow> group_member_row list" where
  "replace_members group_id members t =
     fold (insert_member_or_ignore group_id) members (delete_where (\<lambda>m. gm_group m = group_id \<and> gm_source m = ''scim'') t)"

definition scim_members :: "payload \<Rightarrow> py_error + string list" where
  "scim_members payload =
     bind_sum (iterate (json_or (pget payload ''members'') (JList []))) (\<lambda>items.
     bind_sum (each_result (attr_get ''value'') items) (\<lambda>vs.
       Inr (filter (\<lambda>m. m \<noteq> []) (map (\<lambda>v. py_str (json_or v (JStr []))) vs))))"

definition upsert_group ::
  "runtime \<Rightarrow> payload \<Rightarrow> string \<Rightarrow> string \<Rightarrow> conn \<Rightarrow> (conn, payload) outcome" where
  "upsert_group rt payload tenant_id actor con =
     (let (external, display_name, group_id) = scim_keys ''grp'' ''displayName'' tenant_id payload in
      if display_name = [] then (Inl (ValueError ''SCIM Group displayName is required.''), con)
      else if list_ex (\<lambda>r. gp_id r = group_id \<and> gp_tenant r \<noteq> tenant_id) (group_rows (db con)) then
        (Inl (ValueError ''SCIM Group id belongs to a different tenant.''), con)
      else
        and_then (lift_result (scim_members payload) con) (\<lambda>members con.
        if \<not> list_all (\<lambda>m. list_ex (\<lambda>r. id_id r = m \<and> id_tenant r = tenant_id) (identities (db con))) members then
          (Inl (ValueError ''SCIM Group member must exist in the same tenant.''), con)
        else
        and_then (run_on [upsert_group_row
            \<lparr>gp_id = group_id, gp_tenant = tenant_id, gp_external_id = Some external, gp_display_name = display_name,
             gp_active = True, gp_raw_json = json_dumps (JObj payload), gp_created_at = sql_now rt, gp_updated_at = sql_now rt\<rparr>] () con) (\<lambda>_ con.
        let con = with_db (\<lambda>d. d\<lparr>group_members := replace_members group_id members (group_members d)\<rparr>) con in
        and_then (lift_result (bind_sum (nested_get payload ''meta'' ''version'') bind_text) con) (\<lambda>version con.
        and_then (run_on [upsert_sync_state (sync_row rt tenant_id ''Group'' external group_id version payload)] () con) (\<lambda>_ con.
          let con = commit (directory_audit rt ''scim.group.upsert'' actor group_id ''upsert'' tenant_id con) in
          lift_result (case find (\<lambda>r. gp_id r = group_id) (group_rows (db con)) of
              None \<Rightarrow> Inl (TypeErr ''NoneType object is not subscriptable'')
            | Some row \<Rightarrow> Inr (group_resource [] (db con) row)) con)))))"

definition delete_group :: "runtime \<Rightarrow> string \<Rightarrow> string \<Rightarrow> string \<Rightarrow> conn \<Rightarrow> bool \<times> conn" where
  "delete_group rt group_id tenant_id actor con =
     (if \<not> list_ex (\<lambda>r. gp_id r = group_id \<and> gp_tenant r = tenant_id) (group_rows (db con)) then (False, con)
      else (True, commit (directory_audit rt ''scim.group.deactivated'' actor group_id ''delete'' tenant_id
        (with_db (\<lambda>d. d\<lparr>group_rows := update_where (\<lambda>r. gp_id r = group_id)
            (\<lambda>r. r\<lparr>gp_active := False, gp_updated_at := sql_now rt\<rparr>) (group_rows d),
          group_members := delete_where (\<lambda>m. gm_group m = group_id) (group_members d)\<rparr>) con))))"

section \<open>Group mappings\<close>

definition upsert_group_mapping ::
  "runtime \<Rightarrow> string \<Rightarrow> string option \<Rightarrow> string option \<Rightarrow> string \<Rightarrow> string \<Rightarrow> bool \<Rightarrow> conn \<Rightarrow> payload \<times> conn" where
  "upsert_group_mapping rt scim_group_id display namespace role tenant_id commits con0 =
     (let (mapping_id, con) = new_id rt ''scm'' (ensure_table con0);
          same = (\<lambda>r. mp_tenant r = tenant_id \<and> mp_scim_group r = scim_group_id);
          con = with_db (\<lambda>d. d\<lparr>scim_group_mappings :=
            (if list_ex same (scim_group_mappings d)
             then update_where same (\<lambda>r. r\<lparr>mp_display := display, mp_namespace := namespace, mp_role := role\<rparr>) (scim_group_mappings d)
             else scim_group_mappings d @ [\<lparr>mp_id = mapping_id, mp_tenant = tenant_id, mp_scim_group = scim_group_id,
               mp_display = display, mp_namespace = namespace, mp_role = role\<rparr>])\<rparr>) con
      in ([(''scimGroupId'', JStr scim_group_id), (''displayName'', json_opt display), (''meshNamespaceId'', json_opt namespace),
           (''meshRole'', JStr role)], commit_if commits con))"

definition nonempty_text :: "string option \<Rightarrow> json" where
  "nonempty_text t = (if truthy t then json_opt t else JNull)"

definition mapping_record :: "group_mapping_row \<Rightarrow> payload" where
  "mapping_record r = [(''scimGroupId'', JStr (mp_scim_group r)), (''displayName'', nonempty_text (mp_display r)),
     (''meshNamespaceId'', nonempty_text (mp_namespace r)), (''meshRole'', JStr (mp_role r))]"

text \<open>NULL sorts first.\<close>

definition list_group_mappings :: "string \<Rightarrow> conn \<Rightarrow> payload list \<times> conn" where
  "list_group_mappings tenant_id con0 =
     (let con = ensure_table con0 in
      (map mapping_record (order_by (\<lambda>r. (mp_display r \<noteq> None, case mp_display r of None \<Rightarrow> [] | Some t \<Rightarrow> t))
        (filter (\<lambda>r. mp_tenant r = tenant_id) (scim_group_mappings (db con)))), con))"

definition text_of_key :: "payload \<Rightarrow> string \<Rightarrow> string \<Rightarrow> string" where
  "text_of_key p k d = (case map_of p k of None \<Rightarrow> d | Some v \<Rightarrow> py_str v)"

definition member_count :: "payload \<Rightarrow> nat" where
  "member_count p = (case map_of p ''members'' of Some (JList xs) \<Rightarrow> length xs | _ \<Rightarrow> 0)"

definition process_scim_group :: "runtime \<Rightarrow> payload \<Rightarrow> string \<Rightarrow> bool \<Rightarrow> conn \<Rightarrow> (conn, payload) outcome" where
  "process_scim_group rt scim_group tenant_id commits con0 =
     (let con = ensure_table con0;
          group_id = text_of_key scim_group ''id'' [];
          display_name = text_of_key scim_group ''displayName'' [] in
      if group_id = [] then (Inl (ValueError ''SCIM group missing id''), con)
      else
        let (_, con) = upsert_group_mapping rt group_id (Some display_name) None ''member'' tenant_id False con;
            (sync_id, con) = new_id rt ''sync'' con;
            con = with_db (\<lambda>d. d\<lparr>scim_entitlement_sync := scim_entitlement_sync d @
              [\<lparr>es_id = sync_id, es_tenant = tenant_id, es_source = ''scim'', es_last_sync_at = utc_now rt,
                es_last_sync_count = member_count scim_group\<rparr>]\<rparr>) con
        in (Inr [(''groupId'', JStr group_id), (''displayName'', JStr display_name),
              (''memberCount'', JInt (int (member_count scim_group))), (''synced'', JBool True)], commit_if commits con))"

fun sync_each :: "runtime \<Rightarrow> string \<Rightarrow> payload list \<Rightarrow> conn \<Rightarrow> payload list \<times> conn" where
  "sync_each rt tenant_id [] con = ([], con)"
| "sync_each rt tenant_id (grp # grps) con =
     (let (r, con1) = process_scim_group rt grp tenant_id False con;
          result = (case r of Inr x \<Rightarrow> x
            | Inl e \<Rightarrow> [(''groupId'', JStr (text_of_key grp ''id'' ''?'')), (''error'', JStr (error_text e))]);
          (results, con2) = sync_each rt tenant_id grps con1
      in (result # results, con2))"

definition sync_entitlement_groups :: "runtime \<Rightarrow> payload list \<Rightarrow> string \<Rightarrow> bool \<Rightarrow> conn \<Rightarrow> payload \<times> conn" where
  "sync_entitlement_groups rt scim_groups tenant_id commits con0 =
     (let (results, con) = sync_each rt tenant_id scim_groups (ensure_table con0) in
      ([(''synced'', JInt (int (length results))),
        (''errors'', JInt (int (rowcount (\<lambda>r. map_of r ''error'' \<noteq> None) results))),
        (''results'', JList (map JObj results))], commit_if commits con))"

section \<open>Owners of the rows\<close>

definition owners :: "database \<Rightarrow> (string \<times> string) list" where
  "owners d = map (\<lambda>r. (id_id r, id_tenant r)) (identities d)"

definition group_owners :: "database \<Rightarrow> (string \<times> string) list" where
  "group_owners d = map (\<lambda>r. (gp_id r, gp_tenant r)) (group_rows d)"

definition foreign_rows :: "string \<Rightarrow> database \<Rightarrow> identity_row list \<times> group_row list" where
  "foreign_rows t d = (filter (\<lambda>r. id_tenant r \<noteq> t) (identities d), filter (\<lambda>r. gp_tenant r \<noteq> t) (group_rows d))"

lemma filter_update_stable:
  assumes "\<And>r. r \<in> set xs \<Longrightarrow> p r \<Longrightarrow> \<not> q r" "\<And>r. p r \<Longrightarrow> q (f r) = q r"
  shows "filter q (update_where p f xs) = filter q xs"
  using assms(1)
proof (induction xs)
  case (Cons x xs)
  then show ?case using assms(2) [of x] by (auto simp: update_where_def)
qed (simp add: update_where_def)

lemma map_update_where: "(\<And>r. p r \<Longrightarrow> k (f r) = k r) \<Longrightarrow> map k (update_where p f xs) = map k xs"
  by (simp add: update_where_def)

lemma directory_identity_written:
  assumes "upsert_directory_identity row d = Inr d'" "\<not> list_ex (\<lambda>r. id_id r = id_id row \<and> id_tenant r \<noteq> id_tenant row) (identities d)"
  shows "owners d' = owners d \<or> owners d' = owners d @ [(id_id row, id_tenant row)] \<and> id_id row \<notin> fst ` set (owners d)"
    "(id_id row, id_tenant row) \<in> set (owners d')"
    "foreign_rows (id_tenant row) d' = foreign_rows (id_tenant row) d" "group_rows d' = group_rows d" "group_members d' = group_members d"
proof -
  let ?f = "\<lambda>r. r\<lparr>id_external_id := id_external_id row, id_user_name := id_user_name row, id_display_name := id_display_name row,
    id_email := id_email row, id_active := id_active row, id_raw_json := id_raw_json row, id_updated_at := id_updated_at row\<rparr>"
  have "(owners d' = owners d \<or> owners d' = owners d @ [(id_id row, id_tenant row)] \<and> id_id row \<notin> fst ` set (owners d))
    \<and> (id_id row, id_tenant row) \<in> set (owners d') \<and> foreign_rows (id_tenant row) d' = foreign_rows (id_tenant row) d
    \<and> group_rows d' = group_rows d \<and> group_members d' = group_members d"
  proof (cases "find (\<lambda>r. id_id r = id_id row) (identities d)")
    case None
    then have "d' = d\<lparr>identities := identities d @ [row]\<rparr>" using assms(1) by (simp add: upsert_directory_identity_def split: if_splits)
    moreover have "\<forall>r \<in> set (identities d). id_id r \<noteq> id_id row" using None by (simp add: find_None_iff)
    ultimately show ?thesis by (auto simp: owners_def foreign_rows_def)
  next
    case (Some old)
    have d': "d' = d\<lparr>identities := update_where (\<lambda>r. id_id r = id_id row) ?f (identities d)\<rparr>"
      using assms(1) Some by (simp add: upsert_directory_identity_def split: if_splits)
    have "owners d' = owners d" unfolding d' owners_def by (simp add: map_update_where)
    moreover have "(id_id row, id_tenant row) \<in> set (owners d)"
      using find_SomeD [OF Some] assms(2) by (auto simp: owners_def list_ex_iff image_iff intro!: bexI [of _ old])
    moreover have "filter (\<lambda>r. id_tenant r \<noteq> id_tenant row) (identities d') = filter (\<lambda>r. id_tenant r \<noteq> id_tenant row) (identities d)"
      unfolding d' using assms(2) by (simp add: filter_update_stable list_ex_iff)
    ultimately show ?thesis by (simp add: d' foreign_rows_def)
  qed
  then show "owners d' = owners d \<or> owners d' = owners d @ [(id_id row, id_tenant row)] \<and> id_id row \<notin> fst ` set (owners d)"
    "(id_id row, id_tenant row) \<in> set (owners d')"
    "foreign_rows (id_tenant row) d' = foreign_rows (id_tenant row) d" "group_rows d' = group_rows d" "group_members d' = group_members d"
    by blast+
qed

lemma group_row_written:
  assumes "upsert_group_row row d = Inr d'" "\<not> list_ex (\<lambda>r. gp_id r = gp_id row \<and> gp_tenant r \<noteq> gp_tenant row) (group_rows d)"
  shows "group_owners d' = group_owners d \<or> group_owners d' = group_owners d @ [(gp_id row, gp_tenant row)] \<and> gp_id row \<notin> fst ` set (group_owners d)"
    "(gp_id row, gp_tenant row) \<in> set (group_owners d')"
    "foreign_rows (gp_tenant row) d' = foreign_rows (gp_tenant row) d" "identities d' = identities d" "group_members d' = group_members d"
proof -
  let ?f = "\<lambda>r. r\<lparr>gp_external_id := gp_external_id row, gp_display_name := gp_display_name row, gp_active := True,
    gp_raw_json := gp_raw_json row, gp_updated_at := gp_updated_at row\<rparr>"
  have "(group_owners d' = group_owners d \<or> group_owners d' = group_owners d @ [(gp_id row, gp_tenant row)] \<and> gp_id row \<notin> fst ` set (group_owners d))
    \<and> (gp_id row, gp_tenant row) \<in> set (group_owners d') \<and> foreign_rows (gp_tenant row) d' = foreign_rows (gp_tenant row) d
    \<and> identities d' = identities d \<and> group_members d' = group_members d"
  proof (cases "find (\<lambda>r. gp_id r = gp_id row) (group_rows d)")
    case None
    then have "d' = d\<lparr>group_rows := group_rows d @ [row]\<rparr>" using assms(1) by (simp add: upsert_group_row_def split: if_splits)
    moreover have "\<forall>r \<in> set (group_rows d). gp_id r \<noteq> gp_id row" using None by (simp add: find_None_iff)
    ultimately show ?thesis by (auto simp: group_owners_def foreign_rows_def)
  next
    case (Some old)
    have d': "d' = d\<lparr>group_rows := update_where (\<lambda>r. gp_id r = gp_id row) ?f (group_rows d)\<rparr>"
      using assms(1) Some by (simp add: upsert_group_row_def split: if_splits)
    have "group_owners d' = group_owners d" unfolding d' group_owners_def by (simp add: map_update_where)
    moreover have "(gp_id row, gp_tenant row) \<in> set (group_owners d)"
      using find_SomeD [OF Some] assms(2) by (auto simp: group_owners_def list_ex_iff image_iff intro!: bexI [of _ old])
    moreover have "filter (\<lambda>r. gp_tenant r \<noteq> gp_tenant row) (group_rows d') = filter (\<lambda>r. gp_tenant r \<noteq> gp_tenant row) (group_rows d)"
      unfolding d' using assms(2) by (simp add: filter_update_stable list_ex_iff)
    ultimately show ?thesis by (simp add: d' foreign_rows_def)
  qed
  then show "group_owners d' = group_owners d \<or> group_owners d' = group_owners d @ [(gp_id row, gp_tenant row)] \<and> gp_id row \<notin> fst ` set (group_owners d)"
    "(gp_id row, gp_tenant row) \<in> set (group_owners d')"
    "foreign_rows (gp_tenant row) d' = foreign_rows (gp_tenant row) d" "identities d' = identities d" "group_members d' = group_members d"
    by blast+
qed

definition directory_view where
  "directory_view d = (identities d, group_rows d, group_members d)"

lemma sync_state_view: "upsert_sync_state row d = Inr d' \<Longrightarrow> directory_view d' = directory_view d"
  by (auto simp: upsert_sync_state_def directory_view_def split: if_splits)

lemma directory_audit_view [simp]:
  "directory_view (db (directory_audit rt e a t act ten con)) = directory_view (db con)"
  by (simp add: directory_audit_def directory_view_def)

lemma run_single: "run_on [s] x con = (case s (db con) of Inl e \<Rightarrow> (Inl e, con) | Inr d \<Rightarrow> (Inr x, con\<lparr>db := d\<rparr>))"
  by (simp add: run_on_def split: sum.split)

section \<open>Members\<close>

definition members_of :: "string \<Rightarrow> group_member_row list \<Rightarrow> string set" where
  "members_of g t = set (map gm_identity (filter (\<lambda>m. gm_group m = g) t))"

lemma insert_member:
  "set (insert_member_or_ignore g m t) \<subseteq> insert \<lparr>gm_group = g, gm_identity = m, gm_source = ''scim''\<rparr> (set t)"
  "members_of g (insert_member_or_ignore g m t) = insert m (members_of g t)"
  "filter (\<lambda>r. gm_group r \<noteq> g) (insert_member_or_ignore g m t) = filter (\<lambda>r. gm_group r \<noteq> g) t"
proof -
  have "m \<in> members_of g t" if "list_ex (\<lambda>m'. gm_group m' = g \<and> gm_identity m' = m) t"
    using that by (auto simp: members_of_def list_ex_iff)
  then have present: "insert m (members_of g t) = members_of g t" if "list_ex (\<lambda>m'. gm_group m' = g \<and> gm_identity m' = m) t"
    using that by (simp add: insert_absorb)
  have new: "members_of g (t @ [\<lparr>gm_group = g, gm_identity = m, gm_source = ''scim''\<rparr>]) = insert m (members_of g t)"
    unfolding members_of_def by (simp del: set_filter)
  show "members_of g (insert_member_or_ignore g m t) = insert m (members_of g t)"
    using present new by (simp add: insert_member_or_ignore_def)
qed (auto simp: insert_member_or_ignore_def)

lemma insert_members:
  "set (fold (insert_member_or_ignore g) ms t) \<subseteq> set t \<union> (\<lambda>m. \<lparr>gm_group = g, gm_identity = m, gm_source = ''scim''\<rparr>) ` set ms
   \<and> members_of g (fold (insert_member_or_ignore g) ms t) = members_of g t \<union> set ms
   \<and> filter (\<lambda>r. gm_group r \<noteq> g) (fold (insert_member_or_ignore g) ms t) = filter (\<lambda>r. gm_group r \<noteq> g) t"
proof (induction ms arbitrary: t)
  case (Cons m ms)
  from Cons.IH [of "insert_member_or_ignore g m t"] insert_member [of g m t] show ?case by auto
qed simp

lemma replace_members_rows:
  "set (replace_members g ms t) \<subseteq> set t \<union> (\<lambda>m. \<lparr>gm_group = g, gm_identity = m, gm_source = ''scim''\<rparr>) ` set ms"
  "members_of g (replace_members g ms t) = members_of g (filter (\<lambda>m. gm_source m \<noteq> ''scim'') t) \<union> set ms"
  "filter (\<lambda>r. gm_group r \<noteq> g) (replace_members g ms t) = filter (\<lambda>r. gm_group r \<noteq> g) t"
proof -
  let ?t = "delete_where (\<lambda>m. gm_group m = g \<and> gm_source m = ''scim'') t"
  have "set ?t \<subseteq> set t" "members_of g ?t = members_of g (filter (\<lambda>m. gm_source m \<noteq> ''scim'') t)"
    by (auto simp: delete_where_def members_of_def)
  moreover have "filter (\<lambda>r. gm_group r \<noteq> g) ?t = filter (\<lambda>r. gm_group r \<noteq> g) t"
    by (induction t) (auto simp: delete_where_def)
  ultimately show "set (replace_members g ms t) \<subseteq> set t \<union> (\<lambda>m. \<lparr>gm_group = g, gm_identity = m, gm_source = ''scim''\<rparr>) ` set ms"
    "members_of g (replace_members g ms t) = members_of g (filter (\<lambda>m. gm_source m \<noteq> ''scim'') t) \<union> set ms"
    "filter (\<lambda>r. gm_group r \<noteq> g) (replace_members g ms t) = filter (\<lambda>r. gm_group r \<noteq> g) t"
    using insert_members [of g ms ?t] by (auto simp: replace_members_def)
qed

section \<open>Requests keep the tenants apart\<close>

definition directory_ok :: "database \<Rightarrow> bool" where
  "directory_ok d = (distinct (map fst (owners d)) \<and> distinct (map fst (group_owners d))
     \<and> (\<forall>m \<in> set (group_members d). \<exists>t. (gm_identity m, t) \<in> set (owners d) \<and> (gm_group m, t) \<in> set (group_owners d)))"

lemma directory_ok_view: "directory_view d = directory_view d' \<Longrightarrow> directory_ok d = directory_ok d'"
  by (simp add: directory_ok_def directory_view_def owners_def group_owners_def)

lemma foreign_rows_view: "directory_view d = directory_view d' \<Longrightarrow> foreign_rows t d = foreign_rows t d'"
  by (simp add: directory_view_def foreign_rows_def)

lemma one_owner: "directory_ok d \<Longrightarrow> (i, t) \<in> set (owners d) \<Longrightarrow> (i, t') \<in> set (owners d) \<Longrightarrow> t = t'"
  by (metis directory_ok_def eq_key_imp_eq_value)

lemma one_group_owner: "directory_ok d \<Longrightarrow> (i, t) \<in> set (group_owners d) \<Longrightarrow> (i, t') \<in> set (group_owners d) \<Longrightarrow> t = t'"
  by (metis directory_ok_def eq_key_imp_eq_value)

lemma upsert_user_db:
  assumes "upsert_user rt loads payload t actor con = (r, con')"
  shows "directory_view (db con') = directory_view (db con)
    \<or> (\<exists>row d'. upsert_directory_identity row (db con) = Inr d' \<and> id_tenant row = t \<and> directory_view (db con') = directory_view d'
        \<and> \<not> list_ex (\<lambda>r. id_id r = id_id row \<and> id_tenant r \<noteq> id_tenant row) (identities (db con)))"
proof -
  obtain external user_name identity_id where k: "scim_keys ''idn'' ''userName'' t payload = (external, user_name, identity_id)"
    by (cases "scim_keys ''idn'' ''userName'' t payload") auto
  show ?thesis
  proof (cases "user_name = [] \<or> list_ex (\<lambda>r. id_id r = identity_id \<and> id_tenant r \<noteq> t) (identities (db con))
      \<or> (\<exists>e. primary_email payload = Inl e) \<or> (\<exists>e. scim_display_name payload = Inl e)")
    case True
    with assms k have "con' = con"
      by (cases "primary_email payload"; cases "scim_display_name payload")
        (auto simp: upsert_user_def Let_def lift_result_def and_then_def split: if_splits)
    then show ?thesis by simp
  next
    case False
    then obtain email display where ed: "primary_email payload = Inr email" "scim_display_name payload = Inr display"
      by (metis sum.exhaust)
    let ?row = "\<lparr>id_id = identity_id, id_tenant = t, id_external_id = Some external, id_user_name = user_name,
             id_display_name = display, id_email = email, id_type = ''human'',
             id_active = (case map_of payload ''active'' of None \<Rightarrow> True | Some v \<Rightarrow> json_truthy v),
             id_raw_json = json_dumps (JObj payload), id_created_at = sql_now rt, id_updated_at = sql_now rt\<rparr>"
    show ?thesis
    proof (cases "upsert_directory_identity ?row (db con)")
      case (Inl e)
      with assms k False ed have "con' = con" by (simp add: upsert_user_def lift_result_def and_then_def run_single)
      then show ?thesis by simp
    next
      case (Inr d)
      have "directory_view (db con') = directory_view d"
      proof (cases "bind_sum (nested_get payload ''meta'' ''version'') bind_text")
        case (Inl e)
        with assms k False ed Inr have "db con' = d" by (auto simp: upsert_user_def lift_result_def and_then_def run_single)
        then show ?thesis by simp
      next
        case (Inr version)
        let ?s = "sync_row rt t ''User'' external identity_id version payload"
        show ?thesis
        proof (cases "upsert_sync_state ?s d")
          case (Inl e)
          with assms k False ed Inr \<open>upsert_directory_identity ?row (db con) = Inr d\<close> have "db con' = d"
            by (auto simp: upsert_user_def lift_result_def and_then_def run_single)
          then show ?thesis by simp
        next
          case (Inr d2)
          with assms k False ed \<open>bind_sum _ _ = Inr version\<close> \<open>upsert_directory_identity ?row (db con) = Inr d\<close>
          have "directory_view (db con') = directory_view d2"
            by (auto simp: upsert_user_def lift_result_def and_then_def run_single Let_def)
          with sync_state_view [OF Inr] show ?thesis by simp
        qed
      qed
      with False Inr show ?thesis by (intro disjI2 exI [of _ ?row]) auto
    qed
  qed
qed

text \<open>The writes of a group request: nothing, the row alone never, but the row with its members.\<close>

lemma upsert_group_db:
  assumes "upsert_group rt payload t actor con = (r, con')"
  shows "directory_view (db con') = directory_view (db con) \<and> (\<forall>x. r \<noteq> Inr x) \<and> durable con' = durable con
    \<or> (\<exists>row d' members. upsert_group_row row (db con) = Inr d' \<and> gp_tenant row = t
        \<and> gp_id row = snd (snd (scim_keys ''grp'' ''displayName'' t payload)) \<and> gp_active row
        \<and> scim_members payload = Inr members \<and> list_all (\<lambda>m. list_ex (\<lambda>i. id_id i = m \<and> id_tenant i = t) (identities (db con))) members
        \<and> directory_view (db con') = directory_view (d'\<lparr>group_members := replace_members (gp_id row) members (group_members d')\<rparr>)
        \<and> durable con' = (case r of Inr _ \<Rightarrow> db con' | Inl _ \<Rightarrow> durable con)
        \<and> \<not> list_ex (\<lambda>r. gp_id r = gp_id row \<and> gp_tenant r \<noteq> gp_tenant row) (group_rows (db con)))"
proof -
  obtain external name gid where k: "scim_keys ''grp'' ''displayName'' t payload = (external, name, gid)"
    by (cases "scim_keys ''grp'' ''displayName'' t payload") auto
  show ?thesis
  proof (cases "name = [] \<or> list_ex (\<lambda>r. gp_id r = gid \<and> gp_tenant r \<noteq> t) (group_rows (db con)) \<or> (\<exists>e. scim_members payload = Inl e)
      \<or> (\<exists>ms. scim_members payload = Inr ms \<and> \<not> list_all (\<lambda>m. list_ex (\<lambda>i. id_id i = m \<and> id_tenant i = t) (identities (db con))) ms)")
    case True
    with assms k have "con' = con \<and> (\<forall>x. r \<noteq> Inr x)"
      by (cases "scim_members payload") (auto simp: upsert_group_def Let_def lift_result_def and_then_def split: if_splits)
    then show ?thesis by simp
  next
    case False
    then obtain ms where m: "scim_members payload = Inr ms"
      "list_all (\<lambda>m. list_ex (\<lambda>i. id_id i = m \<and> id_tenant i = t) (identities (db con))) ms"
      by (cases "scim_members payload") auto
    let ?row = "\<lparr>gp_id = gid, gp_tenant = t, gp_external_id = Some external, gp_display_name = name,
             gp_active = True, gp_raw_json = json_dumps (JObj payload), gp_created_at = sql_now rt, gp_updated_at = sql_now rt\<rparr>"
    show ?thesis
    proof (cases "upsert_group_row ?row (db con)")
      case (Inl e)
      with assms k False m have "con' = con \<and> (\<forall>x. r \<noteq> Inr x)" by (auto simp: upsert_group_def lift_result_def and_then_def run_single)
      then show ?thesis by simp
    next
      case (Inr d)
      let ?d = "d\<lparr>group_members := replace_members gid ms (group_members d)\<rparr>"
      note row = \<open>upsert_group_row ?row (db con) = Inr d\<close>
      have "(gid, t) \<in> set (group_owners d)" using group_row_written(2) [OF row] False by simp
      then have shown: "\<exists>g. find (\<lambda>r. gp_id r = gid) (group_rows d) = Some g"
        by (auto simp: group_owners_def find_None_iff simp flip: not_None_eq)
      have "directory_view (db con') = directory_view ?d \<and> durable con' = (case r of Inr _ \<Rightarrow> db con' | Inl _ \<Rightarrow> durable con)"
      proof (cases "bind_sum (nested_get payload ''meta'' ''version'') bind_text")
        case (Inl e)
        with assms k False m row show ?thesis by (auto simp: upsert_group_def lift_result_def and_then_def run_single)
      next
        case (Inr version)
        let ?s = "sync_row rt t ''Group'' external gid version payload"
        show ?thesis
        proof (cases "upsert_sync_state ?s ?d")
          case (Inl e)
          with assms k False m Inr row show ?thesis by (auto simp: upsert_group_def lift_result_def and_then_def run_single)
        next
          case (Inr d2)
          have v: "directory_view d2 = directory_view ?d" by (rule sync_state_view [OF Inr])
          let ?con = "commit (directory_audit rt ''scim.group.upsert'' actor gid ''upsert'' t (con\<lparr>db := d2\<rparr>))"
          have "group_rows (db ?con) = group_rows d" using v by (simp add: directory_view_def directory_audit_def)
          with assms k False m \<open>bind_sum _ _ = Inr version\<close> row Inr shown obtain x where "con' = ?con" "r = Inr x"
            by (auto simp: upsert_group_def lift_result_def and_then_def run_single Let_def with_db_def)
          with v show ?thesis by simp
        qed
      qed
      with False m row k show ?thesis by (intro disjI2 exI [of _ ?row] exI [of _ d] exI [of _ ms]) auto
    qed
  qed
qed

lemma delete_user_db:
  assumes "delete_user rt i t actor con = (b, con')" "directory_ok (db con)"
  shows "owners (db con') = owners (db con)" "group_rows (db con') = group_rows (db con)" "group_members (db con') = group_members (db con)"
    "foreign_rows t (db con') = foreign_rows t (db con)"
proof -
  let ?f = "\<lambda>r. r\<lparr>id_active := False, id_updated_at := sql_now rt\<rparr>"
  have "owners (db con') = owners (db con) \<and> group_rows (db con') = group_rows (db con) \<and> group_members (db con') = group_members (db con)
    \<and> foreign_rows t (db con') = foreign_rows t (db con)"
  proof (cases "list_ex (\<lambda>r. id_id r = i \<and> id_tenant r = t) (identities (db con))")
    case True
    then have "(i, t) \<in> set (owners (db con))" by (auto simp: owners_def list_ex_iff)
    then have own: "id_tenant r = t" if "r \<in> set (identities (db con))" "id_id r = i" for r
      using one_owner [OF assms(2), of i "id_tenant r" t] that by (auto simp: owners_def)
    have "filter (\<lambda>r. id_tenant r \<noteq> t) (update_where (\<lambda>r. id_id r = i) ?f (identities (db con))) = filter (\<lambda>r. id_tenant r \<noteq> t) (identities (db con))"
      by (rule filter_update_stable) (use own in auto)
    with True assms(1) show ?thesis
      by (auto simp: delete_user_def directory_audit_def foreign_rows_def owners_def map_update_where)
  qed (use assms(1) in \<open>auto simp: delete_user_def\<close>)
  then show "owners (db con') = owners (db con)" "group_rows (db con') = group_rows (db con)" "group_members (db con') = group_members (db con)"
    "foreign_rows t (db con') = foreign_rows t (db con)" by blast+
qed

lemma delete_group_db:
  assumes "delete_group rt g t actor con = (b, con')" "directory_ok (db con)"
  shows "identities (db con') = identities (db con)" "group_owners (db con') = group_owners (db con)"
    "set (group_members (db con')) \<subseteq> set (group_members (db con))" "foreign_rows t (db con') = foreign_rows t (db con)"
proof -
  let ?f = "\<lambda>r. r\<lparr>gp_active := False, gp_updated_at := sql_now rt\<rparr>"
  have "identities (db con') = identities (db con) \<and> group_owners (db con') = group_owners (db con)
    \<and> set (group_members (db con')) \<subseteq> set (group_members (db con)) \<and> foreign_rows t (db con') = foreign_rows t (db con)"
  proof (cases "list_ex (\<lambda>r. gp_id r = g \<and> gp_tenant r = t) (group_rows (db con))")
    case True
    then have "(g, t) \<in> set (group_owners (db con))" by (auto simp: group_owners_def list_ex_iff)
    then have own: "gp_tenant r = t" if "r \<in> set (group_rows (db con))" "gp_id r = g" for r
      using one_group_owner [OF assms(2), of g "gp_tenant r" t] that by (auto simp: group_owners_def)
    have "filter (\<lambda>r. gp_tenant r \<noteq> t) (update_where (\<lambda>r. gp_id r = g) ?f (group_rows (db con))) = filter (\<lambda>r. gp_tenant r \<noteq> t) (group_rows (db con))"
      by (rule filter_update_stable) (use own in auto)
    with True assms(1) show ?thesis
      by (auto simp: delete_group_def directory_audit_def foreign_rows_def group_owners_def map_update_where delete_where_def)
  qed (use assms(1) in \<open>auto simp: delete_group_def\<close>)
  then show "identities (db con') = identities (db con)" "group_owners (db con') = group_owners (db con)"
    "set (group_members (db con')) \<subseteq> set (group_members (db con))" "foreign_rows t (db con') = foreign_rows t (db con)" by blast+
qed

text \<open>A request of a tenant, whatever its outcome.\<close>

inductive directory_step :: "runtime \<Rightarrow> (string \<Rightarrow> json) \<Rightarrow> string \<Rightarrow> conn \<Rightarrow> conn \<Rightarrow> bool" for rt loads where
  put_user: "upsert_user rt loads payload t actor con = (r, con') \<Longrightarrow> directory_step rt loads t con con'"
| put_group: "upsert_group rt payload t actor con = (r, con') \<Longrightarrow> directory_step rt loads t con con'"
| drop_user: "delete_user rt i t actor con = (b, con') \<Longrightarrow> directory_step rt loads t con con'"
| drop_group: "delete_group rt g t actor con = (b, con') \<Longrightarrow> directory_step rt loads t con con'"

lemma directory_ok_mono:
  assumes "directory_ok d" "distinct (map fst (owners d'))" "distinct (map fst (group_owners d'))"
    "set (owners d) \<subseteq> set (owners d')" "set (group_owners d) \<subseteq> set (group_owners d')"
    "\<forall>m \<in> set (group_members d') - set (group_members d). \<exists>t. (gm_identity m, t) \<in> set (owners d') \<and> (gm_group m, t) \<in> set (group_owners d')"
  shows "directory_ok d'"
  using assms unfolding directory_ok_def by blast

lemma directory_step_ok:
  assumes "directory_step rt loads t con con'" "directory_ok (db con)"
  shows "directory_ok (db con') \<and> foreign_rows t (db con') = foreign_rows t (db con)"
  using assms
proof cases
  case (put_user payload actor r)
  from upsert_user_db [OF this] show ?thesis
  proof (elim disjE exE conjE)
    fix row d'
    assume w: "upsert_directory_identity row (db con) = Inr d'" "id_tenant row = t" "directory_view (db con') = directory_view d'"
      "\<not> list_ex (\<lambda>r. id_id r = id_id row \<and> id_tenant r \<noteq> id_tenant row) (identities (db con))"
    note d = directory_identity_written [OF w(1,4)]
    have "directory_ok d'"
      by (rule directory_ok_mono [OF assms(2)])
        (use assms(2) d in \<open>auto simp: directory_ok_def group_owners_def\<close>)
    then show ?thesis using w(2,3) d(3) directory_ok_view foreign_rows_view by metis
  qed (use assms(2) directory_ok_view foreign_rows_view in metis)
next
  case (put_group payload actor r)
  from upsert_group_db [OF this] show ?thesis
  proof (elim disjE exE conjE)
    fix row d' ms
    assume w: "upsert_group_row row (db con) = Inr d'" "gp_tenant row = t"
      "directory_view (db con') = directory_view (d'\<lparr>group_members := replace_members (gp_id row) ms (group_members d')\<rparr>)"
      "\<not> list_ex (\<lambda>r. gp_id r = gp_id row \<and> gp_tenant r \<noteq> gp_tenant row) (group_rows (db con))"
      and ms: "list_all (\<lambda>m. list_ex (\<lambda>i. id_id i = m \<and> id_tenant i = t) (identities (db con))) ms"
    note d = group_row_written [OF w(1,4)]
    let ?d = "d'\<lparr>group_members := replace_members (gp_id row) ms (group_members d')\<rparr>"
    have view: "owners ?d = owners (db con)" "group_owners ?d = group_owners d'" "foreign_rows t ?d = foreign_rows t d'"
      using d(4) by (simp_all add: owners_def group_owners_def foreign_rows_def)
    have own: "(m, t) \<in> set (owners (db con))" if "m \<in> set ms" for m
      using ms that by (auto simp: list_all_iff list_ex_iff owners_def)
    have new: "\<exists>t. (gm_identity m, t) \<in> set (owners ?d) \<and> (gm_group m, t) \<in> set (group_owners ?d)"
      if "m \<in> set (group_members ?d) - set (group_members (db con))" for m
    proof -
      from that replace_members_rows(1) [of "gp_id row" ms "group_members d'"] d(5) obtain x
        where "x \<in> set ms" "m = \<lparr>gm_group = gp_id row, gm_identity = x, gm_source = ''scim''\<rparr>" by auto
      then show ?thesis using own d(2) view w(2) by auto
    qed
    have "directory_ok ?d"
      by (rule directory_ok_mono [OF assms(2)])
        (use assms(2) d(1) view new in \<open>auto simp: directory_ok_def\<close>)
    then show ?thesis using w(2,3) d(3) view(3) directory_ok_view foreign_rows_view by metis
  qed (use assms(2) directory_ok_view foreign_rows_view in metis)
next
  case (drop_user i actor b)
  note d = delete_user_db [OF this assms(2)]
  have "directory_ok (db con')"
    by (rule directory_ok_mono [OF assms(2)]) (use assms(2) d in \<open>auto simp: directory_ok_def group_owners_def\<close>)
  with d(4) show ?thesis by simp
next
  case (drop_group g actor b)
  note d = delete_group_db [OF this assms(2)]
  have "directory_ok (db con')"
    by (rule directory_ok_mono [OF assms(2)]) (use assms(2) d in \<open>auto simp: directory_ok_def owners_def\<close>)
  with d(4) show ?thesis by simp
qed

text \<open>C34. The directory interface keeps tenants apart. In every sequence of SCIM requests, successful or not,
  identifiers stay unique and every member of a group belongs to the tenant of the group; and a request
  of one tenant leaves every user and group of all other tenants exactly as they are.\<close>

theorem directory_keeps_tenants_apart:
  assumes "(\<lambda>c c'. \<exists>t. directory_step rt loads t c c')\<^sup>*\<^sup>* con con'" "directory_ok (db con)"
  shows "directory_ok (db con')
    \<and> (\<forall>t con''. directory_step rt loads t con' con'' \<longrightarrow> foreign_rows t (db con'') = foreign_rows t (db con'))"
proof -
  from assms have "directory_ok (db con')"
    by (induction rule: rtranclp_induct) (auto dest: directory_step_ok)
  then show ?thesis using directory_step_ok by blast
qed

text \<open>C35. A group request sets the membership: when upsert_group returns, the change is committed, the members
  of the group are the listed users and those another source had added, all listed users belong to the
  tenant, and all other groups keep their members. When it raises, nothing is committed.\<close>

theorem group_request_sets_members:
  assumes run: "upsert_group rt payload t actor con = (r, con')"
    and g: "g = snd (snd (scim_keys ''grp'' ''displayName'' t payload))"
  shows "case r of Inl _ \<Rightarrow> durable con' = durable con
    | Inr _ \<Rightarrow> (\<exists>ms. scim_members payload = Inr ms
        \<and> durable con' = db con' \<and> identities (db con') = identities (db con)
        \<and> members_of g (group_members (db con')) = members_of g (filter (\<lambda>m. gm_source m \<noteq> ''scim'') (group_members (db con))) \<union> set ms
        \<and> set ms \<subseteq> id_id ` {i \<in> set (identities (db con)). id_tenant i = t}
        \<and> filter (\<lambda>m. gm_group m \<noteq> g) (group_members (db con')) = filter (\<lambda>m. gm_group m \<noteq> g) (group_members (db con)))"
  using upsert_group_db [OF run]
proof (elim disjE exE conjE)
  fix row d' ms
  assume w: "upsert_group_row row (db con) = Inr d'" "gp_tenant row = t" "gp_id row = snd (snd (scim_keys ''grp'' ''displayName'' t payload))"
    "directory_view (db con') = directory_view (d'\<lparr>group_members := replace_members (gp_id row) ms (group_members d')\<rparr>)"
    "durable con' = (case r of Inr _ \<Rightarrow> db con' | Inl _ \<Rightarrow> durable con)"
    "\<not> list_ex (\<lambda>r. gp_id r = gp_id row \<and> gp_tenant r \<noteq> gp_tenant row) (group_rows (db con))"
    and ms: "scim_members payload = Inr ms" "list_all (\<lambda>m. list_ex (\<lambda>i. id_id i = m \<and> id_tenant i = t) (identities (db con))) ms"
  have same: "identities (db con') = identities (db con)" "group_members (db con') = replace_members g ms (group_members (db con))"
    using group_row_written(4,5) [OF w(1,6)] w(3,4) g by (simp_all add: directory_view_def)
  have "set ms \<subseteq> id_id ` {i \<in> set (identities (db con)). id_tenant i = t}"
    using ms(2) by (auto simp: list_all_iff list_ex_iff)
  with same ms(1) w(5) show ?thesis
    using replace_members_rows(2,3) [of g ms "group_members (db con)"] by (simp split: sum.split)
qed (simp split: sum.split)

section \<open>Pages and mappings\<close>

text \<open>A page has at most 100 rows, and pages of one size starting at 1, 1 + size and so on show every row once.\<close>

lemma pages_cover:
  assumes "1 \<le> limit" "limit \<le> 100" "length rows \<le> n * nat limit"
  shows "concat (map (\<lambda>k. page_of (1 + int k * limit) limit rows) [0..<n]) = rows"
proof -
  have "concat (map (\<lambda>k. page_of (1 + int k * limit) limit rows) [0..<n]) = take (n * nat limit) rows" for n
  proof (induction n)
    case (Suc n)
    have "nat (max (1 + int n * limit - 1) 0) = n * nat limit"
      using assms(1) by (simp add: nat_mult_distrib)
    moreover have "take (Suc n * nat limit) rows = take (n * nat limit) rows @ take (nat limit) (drop (n * nat limit) rows)"
      by (metis add.commute mult_Suc take_add)
    ultimately show ?case using Suc assms(1,2) by (simp add: page_of_def page_size_def)
  qed simp
  with assms(3) show ?thesis by simp
qed

text \<open>The sync of a group overwrites the namespace and the role that the group had been mapped to.\<close>

lemma mapping_written:
  assumes "r \<in> set (scim_group_mappings (db (snd (upsert_group_mapping rt g display namespace role t commits con))))"
    "mp_tenant r = t" "mp_scim_group r = g"
  shows "mp_namespace r = namespace \<and> mp_role r = role"
proof -
  let ?t = "scim_group_mappings (db con)" and ?same = "\<lambda>r. mp_tenant r = t \<and> mp_scim_group r = g"
  let ?new = "\<lparr>mp_id = fst (new_id rt ''scm'' (ensure_table con)), mp_tenant = t, mp_scim_group = g,
    mp_display = display, mp_namespace = namespace, mp_role = role\<rparr>"
  let ?f = "\<lambda>r. r\<lparr>mp_display := display, mp_namespace := namespace, mp_role := role\<rparr>"
  have "r \<in> set (if list_ex ?same ?t then update_where ?same ?f ?t else ?t @ [?new])"
    using assms(1) by (simp add: upsert_group_mapping_def Let_def case_prod_unfold cong: if_cong)
  then consider r0 where "r = ?f r0" | "r \<in> set ?t" "\<not> ?same r" | "r = ?new" | "r \<in> set ?t" "\<not> list_ex ?same ?t"
    by (auto simp: update_where_def split: if_splits)
  then show ?thesis using assms(2,3) by cases (auto simp: list_ex_iff)
qed

lemma sync_resets_mapping:
  assumes "process_scim_group rt scim_group t commits con = (Inr x, con')"
    "r \<in> set (scim_group_mappings (db con'))" "mp_tenant r = t" "mp_scim_group r = text_of_key scim_group ''id'' []"
  shows "mp_namespace r = None \<and> mp_role r = ''member''"
proof (rule mapping_written [where con = "ensure_table con" and commits = False and rt = rt])
  show "r \<in> set (scim_group_mappings (db (snd (upsert_group_mapping rt (text_of_key scim_group ''id'' [])
      (Some (text_of_key scim_group ''displayName'' [])) None ''member'' t False (ensure_table con)))))"
    using assms(1,2) by (auto simp: process_scim_group_def Let_def case_prod_unfold split: if_splits)
qed (use assms in simp_all)

section \<open>A run\<close>

definition member_identity :: identity_row where
  "member_identity = \<lparr>id_id = ''u'', id_tenant = ''asg'', id_external_id = Some ''u'', id_user_name = ''u'', id_display_name = None,
     id_email = None, id_type = ''human'', id_active = True, id_raw_json = ''{}'', id_created_at = [], id_updated_at = []\<rparr>"

definition directory_conn :: conn where
  "directory_conn = sample_conn (empty_database\<lparr>tenants := sample_tenants, identities := [member_identity]\<rparr>)"

definition sample_group :: payload where
  "sample_group = [(''id'', JStr ''g''), (''displayName'', JStr ''G''), (''members'', JList [JObj [(''value'', JStr ''u'')]])]"

theorem directory_keeps_tenants_apart_witness:
  "directory_ok (db (snd (upsert_user sample_runtime (\<lambda>_. JNull) [(''userName'', JStr ''a'')] ''asg'' ''scim'' directory_conn)))"
proof (rule directory_keeps_tenants_apart [THEN conjunct1])
  let ?con = "snd (upsert_user sample_runtime (\<lambda>_. JNull) [(''userName'', JStr ''a'')] ''asg'' ''scim'' directory_conn)"
  have "directory_step sample_runtime (\<lambda>_. JNull) ''asg'' directory_conn ?con"
    by (rule put_user [where r = "fst (upsert_user sample_runtime (\<lambda>_. JNull) [(''userName'', JStr ''a'')] ''asg'' ''scim'' directory_conn)"]) simp
  then show "(\<lambda>c c'. \<exists>t. directory_step sample_runtime (\<lambda>_. JNull) t c c')\<^sup>*\<^sup>* directory_conn ?con" by blast
  show "directory_ok (db directory_conn)"
    by (simp add: directory_conn_def sample_conn_def empty_database_def directory_ok_def owners_def group_owners_def)
qed

theorem group_request_sets_members_witness:
  "members_of ''g'' (group_members (durable (snd (upsert_group sample_runtime sample_group ''asg'' ''scim'' directory_conn)))) = {''u''}"
proof -
  obtain r con' where run: "upsert_group sample_runtime sample_group ''asg'' ''scim'' directory_conn = (r, con')" by fastforce
  have keys: "scim_keys ''grp'' ''displayName'' ''asg'' sample_group = (''g'', ''G'', ''g'')"
    by (simp add: scim_keys_def sample_group_def Let_def json_or_def json_truthy_def pget_def str_or_def py_str_def py_strip_def
        py_lstrip_def py_rstrip_def py_isspace_def)
  have ms: "scim_members sample_group = Inr [''u'']"
    by (simp add: scim_members_def sample_group_def pget_def json_or_def json_truthy_def iterate_def bind_sum_def attr_get_def py_str_def)
  have version: "bind_sum (nested_get sample_group ''meta'' ''version'') bind_text = Inr None"
    by (simp add: nested_get_def sample_group_def bind_sum_def bind_text_def)
  obtain x where ok: "r = Inr x"
    using run keys ms version
    by (auto simp: upsert_group_def Let_def lift_result_def and_then_def run_single directory_conn_def sample_conn_def empty_database_def
        sample_tenants_def upsert_group_row_def upsert_sync_state_def has_tenant_def member_identity_def directory_audit_def)
  have "group_members (db directory_conn) = []" by (simp add: directory_conn_def sample_conn_def empty_database_def)
  with ok ms show ?thesis
    using group_request_sets_members [OF run, of "''g''"] keys by (auto simp: run members_of_def)
qed

end
