(* ===== verification/Node_Role.thy ===== *)
theory Node_Role
  imports Capmesh_Schema Provisioning Py_Payload
begin

text \<open>
  The role of a node in the mesh (\<^verbatim>\<open>node_role.py\<close>) and the allowlist of executable bindings
  (\<^verbatim>\<open>signed_allowlist.py\<close>), which the router asks before it lets a call run.
\<close>

section \<open>node_role.py\<close>

definition VALID_NODE_ROLES :: "string list" where
  "VALID_NODE_ROLES = [''authoritative'', ''client'', ''non-voting-raft'', ''read-replica'']"

definition configured_node_role :: "runtime \<Rightarrow> py_error + string" where
  "configured_node_role rt =
     (let raw = py_lower (py_strip (env_or rt ''CAPMESH_NODE_ROLE'' [])) in
      if raw = [] then
        (if py_lower (py_strip (env_or rt ''CAPMESH_ENVIRONMENT'' [])) = ''production''
         then Inl (ValueError ''CAPMESH_NODE_ROLE is required in production.'') else Inr ''authoritative'')
      else if raw \<notin> set VALID_NODE_ROLES then
        Inl (ValueError (''CAPMESH_NODE_ROLE must be one of: '' @ join_with '', '' VALID_NODE_ROLES @ ''.''))
      else Inr raw)"

definition default_authority_url :: "runtime \<Rightarrow> string" where
  "default_authority_url rt = py_strip (env_or rt ''CAPMESH_AUTHORITY_URL'' ''http://127.0.0.1:8000'')"

definition configured_authority_url :: "runtime \<Rightarrow> py_error + string" where
  "configured_authority_url rt =
     (let v = default_authority_url rt in
      if v = [] then Inl (ValueError ''CAPMESH_AUTHORITY_URL must not be empty.'')
      else if \<not> (startswith v ''http://'' \<or> startswith v ''https://'') then
        Inl (ValueError (''CAPMESH_AUTHORITY_URL must be an absolute http(s) URL identifying the authoritative node; got '' @ repr_str v @ ''.''))
      else Inr v)"

definition is_authoritative_node :: "runtime \<Rightarrow> py_error + bool" where
  "is_authoritative_node rt = bind_sum (configured_node_role rt) (\<lambda>role. Inr (role = ''authoritative''))"

definition topology_payload :: "runtime \<Rightarrow> py_error + payload" where
  "topology_payload rt =
     bind_sum (configured_node_role rt) (\<lambda>role. bind_sum (configured_authority_url rt) (\<lambda>url.
       Inr [(''nodeRole'', JStr role), (''authoritative'', JBool (role = ''authoritative'')), (''authorityUrl'', JStr url),
         (''authorityMcpUrl'', JStr (url @ ''/mcp'')), (''readPolicy'', JStr ''local-allowed''),
         (''writePolicy'', JStr (env_or rt ''CAPMESH_WRITE_POLICY'' ''authoritative-only''))]))"

lemma configured_node_role_valid: "configured_node_role rt = Inr role \<Longrightarrow> role \<in> set VALID_NODE_ROLES"
  by (auto simp: configured_node_role_def VALID_NODE_ROLES_def Let_def split: if_splits)

section \<open>signed_allowlist.py\<close>

definition compute_binding_hash :: "string \<Rightarrow> string \<Rightarrow> string \<Rightarrow> string" where
  "compute_binding_hash uri entrypoint content_hash = sha256_hex (uri @ ''|'' @ entrypoint @ ''|'' @ content_hash)"

definition binding_matches :: "string \<Rightarrow> string \<Rightarrow> string \<Rightarrow> binding_row \<Rightarrow> bool" where
  "binding_matches tenant_id uri h r = (cb_tenant r = tenant_id \<and> cb_capability_uri r = uri \<and> cb_binding_hash r = h)"

definition approve_binding ::
  "runtime \<Rightarrow> string \<Rightarrow> string \<Rightarrow> string \<Rightarrow> string \<Rightarrow> string \<Rightarrow> string \<Rightarrow> bool \<Rightarrow> conn \<Rightarrow> payload \<times> conn" where
  "approve_binding rt uri h key_id sig approved_by tenant_id commits con0 =
     (let (entry_id, con) = new_id rt ''alw'' (ensure_table con0);
          con = with_db (\<lambda>d. d\<lparr>call_binding_allowlist :=
            (if list_ex (binding_matches tenant_id uri h) (call_binding_allowlist d)
             then update_where (binding_matches tenant_id uri h) (\<lambda>r. r\<lparr>cb_signing_key_id := key_id, cb_signature := sig,
               cb_approved_by := approved_by, cb_approved_at := utc_now rt, cb_revoked_at := None\<rparr>) (call_binding_allowlist d)
             else call_binding_allowlist d @ [\<lparr>cb_id = entry_id, cb_tenant = tenant_id, cb_capability_uri = uri, cb_binding_hash = h,
               cb_signing_key_id = key_id, cb_signature = sig, cb_approved_by = approved_by, cb_approved_at = utc_now rt,
               cb_revoked_at = None\<rparr>])\<rparr>) con
      in ([(''capabilityUri'', JStr uri), (''bindingHash'', JStr h), (''signingKeyId'', JStr key_id), (''approvedBy'', JStr approved_by),
           (''status'', JStr ''approved'')], commit_if commits con))"

definition revoke_binding :: "runtime \<Rightarrow> string \<Rightarrow> string \<Rightarrow> string \<Rightarrow> bool \<Rightarrow> conn \<Rightarrow> payload \<times> conn" where
  "revoke_binding rt uri h tenant_id commits con0 =
     (let con = with_db (\<lambda>d. d\<lparr>call_binding_allowlist := update_where (binding_matches tenant_id uri h)
            (\<lambda>r. r\<lparr>cb_revoked_at := Some (utc_now rt)\<rparr>) (call_binding_allowlist d)\<rparr>) (ensure_table con0)
      in ([(''capabilityUri'', JStr uri), (''bindingHash'', JStr h), (''status'', JStr ''revoked'')], commit_if commits con))"

definition is_binding_approved :: "string \<Rightarrow> string \<Rightarrow> string \<Rightarrow> conn \<Rightarrow> bool \<times> conn" where
  "is_binding_approved uri h tenant_id con0 =
     (let con = ensure_table con0 in
      (case find (binding_matches tenant_id uri h) (call_binding_allowlist (db con)) of None \<Rightarrow> False
        | Some r \<Rightarrow> cb_revoked_at r = None, con))"

definition list_approved_bindings :: "string \<Rightarrow> bool \<Rightarrow> conn \<Rightarrow> payload list \<times> conn" where
  "list_approved_bindings tenant_id active_only con0 =
     (let con = ensure_table con0 in
      (map (\<lambda>r. [(''capabilityUri'', JStr (cb_capability_uri r)), (''bindingHash'', JStr (cb_binding_hash r)),
          (''signingKeyId'', JStr (cb_signing_key_id r)), (''approvedBy'', JStr (cb_approved_by r)), (''approvedAt'', JStr (cb_approved_at r)),
          (''revokedAt'', if truthy (cb_revoked_at r) then json_opt (cb_revoked_at r) else JNull), (''active'', JBool (cb_revoked_at r = None))])
        (order_by_desc cb_approved_at (filter (\<lambda>r. cb_tenant r = tenant_id \<and> (active_only \<longrightarrow> cb_revoked_at r = None))
          (call_binding_allowlist (db con)))), con))"

section \<open>The allowlist as a set\<close>

text \<open>The abstract allowlist: the triples of tenant, address and hash that may run. An approval adds a
  triple, a revocation removes it, and a question tests membership.\<close>

type_synonym binding_key = "string \<times> string \<times> string"

definition runnable :: "database \<Rightarrow> binding_key set" where
  "runnable d = {(t, u, h). case find (binding_matches t u h) (call_binding_allowlist d) of None \<Rightarrow> False | Some r \<Rightarrow> cb_revoked_at r = None}"

lemma find_update_same:
  assumes "\<And>r. p r \<Longrightarrow> p (f r)"
  shows "find p (update_where p f xs) = map_option f (find p xs)"
  using assms by (induction xs) (auto simp: update_where_def)

lemma find_update_other:
  assumes "\<And>r. p r \<Longrightarrow> \<not> q r" "\<And>r. p r \<Longrightarrow> \<not> q (f r)"
  shows "find q (update_where p f xs) = find q xs"
  using assms by (induction xs) (auto simp: update_where_def)

locale decision_store =
  fixes perform :: "'op \<Rightarrow> 's \<Rightarrow> 's" and grants :: "'op \<Rightarrow> bool" and subject_of :: "'op \<Rightarrow> 'k" and abs :: "'s \<Rightarrow> 'k set"
  assumes grant_abs: "grants op \<Longrightarrow> abs (perform op s) = insert (subject_of op) (abs s)"
    and withdraw_abs: "\<not> grants op \<Longrightarrow> abs (perform op s) = abs s - {subject_of op}"
begin

lemma decided_by_last:
  "k \<in> abs (fold perform ops s) \<longleftrightarrow> (case find (\<lambda>op. subject_of op = k) (rev ops) of None \<Rightarrow> k \<in> abs s | Some op \<Rightarrow> grants op)"
proof (induction ops arbitrary: s rule: rev_induct)
  case (snoc op ops)
  then show ?case by (cases "grants op") (auto simp: grant_abs withdraw_abs)
qed simp

end

lemma approve_runnable:
  "runnable (db (snd (approve_binding rt u h key_id sig by_whom t commits con))) = insert (t, u, h) (runnable (db con))"
proof -
  let ?d = "db con" and ?p = "binding_matches t u h"
  let ?f = "\<lambda>r. r\<lparr>cb_signing_key_id := key_id, cb_signature := sig, cb_approved_by := by_whom, cb_approved_at := utc_now rt, cb_revoked_at := None\<rparr>"
  obtain i where d': "call_binding_allowlist (db (snd (approve_binding rt u h key_id sig by_whom t commits con))) =
    (if list_ex ?p (call_binding_allowlist ?d) then update_where ?p ?f (call_binding_allowlist ?d)
     else call_binding_allowlist ?d @ [\<lparr>cb_id = i, cb_tenant = t, cb_capability_uri = u, cb_binding_hash = h,
               cb_signing_key_id = key_id, cb_signature = sig, cb_approved_by = by_whom, cb_approved_at = utc_now rt, cb_revoked_at = None\<rparr>])"
    by (simp add: approve_binding_def Let_def case_prod_unfold cong: if_cong)
  have other: "find (binding_matches t' u' h') (update_where ?p ?f xs) = find (binding_matches t' u' h') xs" if "(t', u', h') \<noteq> (t, u, h)" for t' u' h' xs
    by (rule find_update_other) (use that in \<open>auto simp: binding_matches_def\<close>)
  have same: "find ?p (update_where ?p ?f xs) = map_option ?f (find ?p xs)" for xs
    by (rule find_update_same) (simp add: binding_matches_def)
  have some: "find ?p xs \<noteq> None" if "list_ex ?p xs" for xs using that by (auto simp: find_None_iff list_ex_iff)
  have none: "find ?p xs = None" if "\<not> list_ex ?p xs" for xs using that by (auto simp: find_None_iff list_ex_iff)
  show ?thesis
  proof (intro set_eqI)
    fix k :: binding_key
    obtain t' u' h' where k: "k = (t', u', h')" by (cases k)
    show "k \<in> runnable (db (snd (approve_binding rt u h key_id sig by_whom t commits con))) \<longleftrightarrow> k \<in> insert (t, u, h) (runnable ?d)"
    proof (cases "k = (t, u, h)")
      case True
      have "\<exists>r. find ?p (call_binding_allowlist (db (snd (approve_binding rt u h key_id sig by_whom t commits con)))) = Some r \<and> cb_revoked_at r = None"
      proof (cases "list_ex ?p (call_binding_allowlist ?d)")
        case True
        with some show ?thesis by (force simp: d' same)
      next
        case False
        with none [OF False] show ?thesis by (simp add: d' find_append binding_matches_def)
      qed
      with True k show ?thesis by (auto simp: runnable_def)
    next
      case False
      have "find (binding_matches t' u' h') (call_binding_allowlist (db (snd (approve_binding rt u h key_id sig by_whom t commits con))))
        = find (binding_matches t' u' h') (call_binding_allowlist ?d)"
        using False k other by (auto simp: d' find_append binding_matches_def split: option.split)
      with False k show ?thesis by (auto simp: runnable_def)
    qed
  qed
qed

lemma revoke_runnable: "runnable (db (snd (revoke_binding rt u h t commits con))) = runnable (db con) - {(t, u, h)}"
proof (intro set_eqI)
  fix k :: binding_key
  let ?p = "binding_matches t u h" and ?f = "\<lambda>r. r\<lparr>cb_revoked_at := Some (utc_now rt)\<rparr>"
  obtain t' u' h' where k: "k = (t', u', h')" by (cases k)
  have d': "call_binding_allowlist (db (snd (revoke_binding rt u h t commits con))) = update_where ?p ?f (call_binding_allowlist (db con))"
    by (simp add: revoke_binding_def Let_def)
  have same: "find ?p (update_where ?p ?f xs) = map_option ?f (find ?p xs)" for xs
    by (rule find_update_same) (simp add: binding_matches_def)
  have other: "find (binding_matches t' u' h') (update_where ?p ?f xs) = find (binding_matches t' u' h') xs" if "k \<noteq> (t, u, h)" for xs
    by (rule find_update_other) (use that k in \<open>auto simp: binding_matches_def\<close>)
  show "k \<in> runnable (db (snd (revoke_binding rt u h t commits con))) \<longleftrightarrow> k \<in> runnable (db con) - {(t, u, h)}"
  proof (cases "k = (t, u, h)")
    case True
    with same show ?thesis unfolding runnable_def d' by (auto split: option.splits)
  next
    case False
    with k other show ?thesis unfolding runnable_def d' by simp
  qed
qed

text \<open>A decision on a binding, each with its own time, approver, key identifier and signature.\<close>

datatype decision =
    Approve runtime binding_key string string string bool
  | Revoke runtime binding_key bool

fun decide_binding :: "decision \<Rightarrow> conn \<Rightarrow> conn" where
  "decide_binding (Approve rt (t, u, h) key_id sig by_whom commits) con = snd (approve_binding rt u h key_id sig by_whom t commits con)"
| "decide_binding (Revoke rt (t, u, h) commits) con = snd (revoke_binding rt u h t commits con)"

fun approves :: "decision \<Rightarrow> bool" where
  "approves (Approve rt k key_id sig by_whom commits) = True"
| "approves (Revoke rt k commits) = False"

fun decided_key :: "decision \<Rightarrow> binding_key" where
  "decided_key (Approve rt k key_id sig by_whom commits) = k"
| "decided_key (Revoke rt k commits) = k"

interpretation bindings: decision_store decide_binding approves decided_key "\<lambda>con. runnable (db con)"
proof unfold_locales
  show "runnable (db (decide_binding op con)) = insert (decided_key op) (runnable (db con))" if "approves op" for op con
    using that by (cases "(op, con)" rule: decide_binding.cases) (simp_all add: approve_runnable)
  show "runnable (db (decide_binding op con)) = runnable (db con) - {decided_key op}" if "\<not> approves op" for op con
    using that by (cases "(op, con)" rule: decide_binding.cases) (simp_all add: revoke_runnable)
qed

lemma approved_runnable: "fst (is_binding_approved u h t con) \<longleftrightarrow> (t, u, h) \<in> runnable (db con)"
  by (simp add: is_binding_approved_def runnable_def Let_def split: option.split)

text \<open>C36. The table of bindings implements a set of runnable bindings: after any sequence of approvals and
  revocations, by any approvers, with any key identifiers and signatures and at any times,
  is_binding_approved answers yes for a tenant, an address and a hash exactly when the last decision on this
  triple was an approval, or, when there was none, when it was approved before. Whether the recorded
  signature is valid plays no part: nothing in the module verifies it, although its docstring says so.\<close>

theorem binding_follows_last_decision:
  "fst (is_binding_approved u h t (fold decide_binding ops con))
    \<longleftrightarrow> (case find (\<lambda>op. decided_key op = (t, u, h)) (rev ops) of
          None \<Rightarrow> fst (is_binding_approved u h t con) | Some op \<Rightarrow> approves op)"
  unfolding approved_runnable by (rule bindings.decided_by_last)

text \<open>A binding is approved on the word of the caller: an empty key identifier and an empty signature will
  do.\<close>

theorem unsigned_binding_is_approved:
  "fst (is_binding_approved u h t (snd (approve_binding rt u h [] [] by_whom t commits con)))"
  by (simp add: approved_runnable approve_runnable)

end
