(* ===== verification/Request_Router.thy ===== *)
theory Request_Router
  imports Node_Role Access_Control Install_Admission Review_Gates Auth_Sessions Task_Runner "HOL-Library.Product_Lexorder"
begin

text \<open>
  The request router (\<^verbatim>\<open>router.py\<close>): the tools cap.load, cap.call, cap.list, cap.describe and cap.process,
  the loading of verified content, the cleaning of metadata and the mapping of exceptions to answers.

  An answer has a message, the structured data and an error flag; the rendering of the data as text is
  left out, as are log lines, spans and service levels. Loaded content is a list of code points beside
  the data. The ranked search, the delegation and the reports are arguments of the dispatch, as is the
  dispatcher of the system capabilities; the file system is the one of the admission guards with
  the bytes of a file.
\<close>

section \<open>Cleaning of metadata\<close>

definition csi_end :: "string \<Rightarrow> string option" where
  "csi_end s = (case s of a # b # rest \<Rightarrow>
       if of_char a = (27 :: nat) \<and> b = CHR ''['' then
         (case dropWhile (\<lambda>c. ascii_digit c \<or> c = CHR '';'') rest of c # t \<Rightarrow> if ascii_alpha c then Some t else None | [] \<Rightarrow> None)
       else None
     | _ \<Rightarrow> None)"

definition osc_end :: "string \<Rightarrow> string option" where
  "osc_end s = (case s of a # b # rest \<Rightarrow>
       if of_char a = (27 :: nat) \<and> b = CHR '']'' then
         (case dropWhile (\<lambda>c. of_char c \<noteq> (7 :: nat) \<and> of_char c \<noteq> (27 :: nat)) rest of
            c # t \<Rightarrow> if of_char c = (7 :: nat) then Some t
              else (case t of d # t' \<Rightarrow> if of_char d = (92 :: nat) then Some t' else None | [] \<Rightarrow> None)
          | [] \<Rightarrow> None)
       else None
     | _ \<Rightarrow> None)"

lemma dropWhile_rest: "dropWhile p xs = c # t \<Longrightarrow> length t < length xs"
  using length_dropWhile_le [of p xs] by simp

lemma csi_end_shorter: "csi_end s = Some t \<Longrightarrow> length t < length s"
  by (auto simp: csi_end_def split: list.splits if_splits dest: dropWhile_rest)

lemma osc_end_shorter: "osc_end s = Some t \<Longrightarrow> length t < length s"
  by (fastforce simp: osc_end_def split: list.splits if_splits dest: dropWhile_rest)

text \<open>\<^verbatim>\<open>re.sub(pattern, "", value)\<close> for a pattern whose match at a position is given by its end.\<close>

function remove_matches :: "(string \<Rightarrow> string option) \<Rightarrow> string \<Rightarrow> string" where
  "remove_matches m [] = []"
| "remove_matches m (c # s) = (case m (c # s) of Some t \<Rightarrow> if length t \<le> length s then remove_matches m t else c # remove_matches m s
     | None \<Rightarrow> c # remove_matches m s)"
  by pat_completeness auto
termination
  by (relation "measure (\<lambda>(m, s). length s)") auto

definition kept_char :: "char \<Rightarrow> bool" where
  "kept_char c = (let cp = of_char c :: nat in
     if cp = 9 \<or> cp = 10 \<or> cp = 13 \<or> cp = 32 then True
     else if 126 < cp then True else if cp < 32 then False else if 128 \<le> cp \<and> cp \<le> 159 then False else True)"

definition strip_control_sequences :: "string \<Rightarrow> string" where
  "strip_control_sequences v = filter kept_char (remove_matches osc_end (remove_matches csi_end v))"

definition METADATA_TEXT_FIELDS :: "string list" where
  "METADATA_TEXT_FIELDS = [''description'', ''title'', ''summary'', ''instructions'', ''system-prompt'', ''sourceSystem'']"

definition METADATA_FIELD_MAX :: nat where
  "METADATA_FIELD_MAX = 4000"

definition wrap_free_text :: "string \<Rightarrow> string" where
  "wrap_free_text v = (let escaped = strip_control_sequences v in
     if METADATA_FIELD_MAX < length escaped then take METADATA_FIELD_MAX escaped @ ''... [truncated]'' else escaped)"

definition clean_field :: "string \<times> json \<Rightarrow> string \<times> json" where
  "clean_field kv = (case kv of
     (k, JStr v) \<Rightarrow> (k, JStr (if k \<in> set METADATA_TEXT_FIELDS then wrap_free_text (strip_control_sequences v) else strip_control_sequences v))
   | (''keywords'', JList ws) \<Rightarrow> (''keywords'', JList (map (\<lambda>w. case w of
        JStr t \<Rightarrow> JStr (wrap_free_text (strip_control_sequences t)) | _ \<Rightarrow> w) ws))
   | _ \<Rightarrow> kv)"

definition sanitize_metadata :: "payload \<Rightarrow> payload" where
  "sanitize_metadata record = map clean_field record"

section \<open>Redaction\<close>

text \<open>The payload of an event of the audit file (\<^verbatim>\<open>audit.py\<close>).\<close>

definition SENSITIVE_KEYS :: "string list" where
  "SENSITIVE_KEYS = [''token'', ''access_token'', ''refresh_token'', ''password'', ''secret'', ''api_key'', ''authorization'']"

fun redact :: "json \<Rightarrow> json" where
  "redact (JObj kvs) = JObj (map (\<lambda>(k, v). (k, if py_lower k \<in> set SENSITIVE_KEYS then JStr ''[REDACTED]'' else redact v)) kvs)"
| "redact (JList xs) = JList (map redact xs)"
| "redact v = v"

text \<open>The values that stand under a sensitive key anywhere in a value.\<close>

fun sensitive_values :: "json \<Rightarrow> json list" where
  "sensitive_values (JObj kvs) = concat (map (\<lambda>(k, v). if py_lower k \<in> set SENSITIVE_KEYS then [v] else sensitive_values v) kvs)"
| "sensitive_values (JList xs) = concat (map sensitive_values xs)"
| "sensitive_values v = []"

lemma redact_hides: "set (sensitive_values (redact v)) \<subseteq> {JStr ''[REDACTED]''}"
  by (induction v rule: redact.induct) (fastforce split: prod.splits if_splits)+

lemma redact_idem: "redact (redact v) = redact v"
  by (induction v rule: redact.induct) auto

section \<open>Answers\<close>

record response =
  rs_message :: string
  rs_data :: payload
  rs_content :: "codepoints option"
  rs_error :: bool

definition ok_result :: "string \<Rightarrow> payload \<Rightarrow> response" where
  "ok_result msg data = \<lparr>rs_message = msg, rs_data = data, rs_content = None, rs_error = False\<rparr>"

definition error_result :: "string \<Rightarrow> string \<Rightarrow> payload \<Rightarrow> response" where
  "error_result msg code details =
     \<lparr>rs_message = msg, rs_data = [(''error'', JObj [(''code'', JStr code), (''message'', JStr msg), (''details'', JObj details)])],
      rs_content = None, rs_error = True\<rparr>"

definition MESH_ERROR :: string where
  "MESH_ERROR = ''CAPABILITY_MESH_ERROR''"

definition to_record :: "bool \<Rightarrow> bool \<Rightarrow> capability \<Rightarrow> payload" where
  "to_record stub include_paths c =
     [(''uri'', JStr (c_uri c)), (''type'', JStr (c_type c)), (''name'', JStr (c_name c)), (''version'', JStr (c_version c)),
      (''title'', JStr (c_title c)),
      (''description'', JStr (if stub then ''Capability exists but requires authorization to load.'' else c_description c)),
      (''visibility'', JStr (c_visibility c)), (''discoveryMode'', JStr (c_discovery_mode c)), (''owner'', JStr (c_owner c)),
      (''plugin'', json_opt (c_plugin c)), (''category'', json_opt (c_category c)), (''keywords'', JList (map JStr (c_keywords c))),
      (''riskTier'', JStr (c_risk_tier c)), (''mutating'', JBool (c_mutating c)), (''lifecycle'', JStr (c_lifecycle c)),
      (''tenantId'', JStr (c_tenant_id c)), (''storeId'', json_opt (c_store_id c)), (''namespaceId'', json_opt (c_namespace_id c)),
      (''createdBy'', json_opt (c_created_by c)), (''submittedBy'', json_opt (c_submitted_by c)),
      (''promotedFromUri'', json_opt (c_promoted_from_uri c)), (''approvalState'', JStr (c_approval_state c)),
      (''shareState'', JStr (c_share_state c)), (''signatureStatus'', JStr (c_signature_status c)),
      (''provenanceStatus'', JStr (c_provenance_status c)), (''riskReviewStatus'', JStr (c_risk_review_status c)),
      (''contentHash'', JStr (c_content_hash c)), (''sourceSystem'', JStr (c_source_system c)), (''sourceKind'', JStr (c_source_kind c)),
      (''sourceCommit'', json_opt (c_source_commit c)), (''license'', json_opt (c_license c))]
     @ (if include_paths \<and> \<not> stub then [(''packagePath'', JStr (c_package_path c)), (''entrypoint'', JStr (c_entrypoint c)),
          (''sourcePath'', JStr (c_source_path c))] else [])"

section \<open>Files of a capability\<close>

definition safe_file_target :: "file_system \<Rightarrow> string \<Rightarrow> string \<Rightarrow> string list option" where
  "safe_file_target fs package_path ref =
     (let root = file_system.resolve_path fs package_path; target = below fs root ref in
      if startswith target root \<and> file_system.is_file fs target then Some target else None)"

text \<open>The reader takes the file in chunks of one mebibyte.\<close>

definition CHUNK :: nat where
  "CHUNK = 1024 * 1024"

function chunks_of :: "nat \<Rightarrow> nat list \<Rightarrow> nat list list" where
  "chunks_of n bytes = (if bytes = [] \<or> n = 0 then [] else take n bytes # chunks_of n (drop n bytes))"
  by pat_completeness auto
termination
  by (relation "measure (\<lambda>(n, bytes). length bytes)") auto

declare chunks_of.simps [simp del]

fun capture :: "nat \<Rightarrow> nat list list \<Rightarrow> nat list \<times> bool \<Rightarrow> nat list \<times> bool" where
  "capture limit [] state = state"
| "capture limit (chunk # chunks) (captured, truncated) =
     (let remaining = limit - length captured in
      capture limit chunks (captured @ take remaining chunk, truncated \<or> remaining < length chunk))"

definition TRUNCATED_MARK :: string where
  "TRUNCATED_MARK = [CHR 0x0A, CHR 0x0A] @ ''[TRUNCATED: request detail=full for a larger bounded view.]''"

definition hash_and_read_content :: "nat list \<Rightarrow> string \<Rightarrow> string \<times> codepoints" where
  "hash_and_read_content bytes detail =
     (let limit = (if detail = ''full'' then 400000 else 80000);
          (captured, truncated) = capture limit (chunks_of CHUNK bytes) ([], False) in
      (''sha256:'' @ hexdigest_bytes bytes, utf8_decode captured @ (if truncated then codes TRUNCATED_MARK else [])))"

definition content_hash_for_target :: "file_system \<Rightarrow> capability \<Rightarrow> string list \<Rightarrow> string option \<Rightarrow> string option" where
  "content_hash_for_target fs cap target file_ref =
     (if target = file_system.resolve_path fs (c_source_path cap) \<or> \<not> truthy file_ref \<or> file_ref = Some (c_entrypoint cap) then Some (c_content_hash cap)
      else case json_or (pget (c_metadata cap) ''fileHashes'') (JObj []) of
        JObj hashes \<Rightarrow> (case pget hashes (the file_ref) of JStr h \<Rightarrow> if startswith h ''sha256:'' then Some h else None | _ \<Rightarrow> None)
      | _ \<Rightarrow> None)"

text \<open>\<^verbatim>\<open>hmac.compare_digest\<close> refuses text outside ASCII.\<close>

definition hmac_hash_equal :: "string \<Rightarrow> string \<Rightarrow> py_error + bool" where
  "hmac_hash_equal actual expected =
     (if list_ex (\<lambda>c. 128 \<le> (of_char c :: nat)) expected
      then Inl (TypeErr ''comparing strings with non-ASCII characters is not supported'') else Inr (actual = expected))"

definition resolve_capability :: "database \<Rightarrow> payload \<Rightarrow> capability option" where
  "resolve_capability d params =
     (let key = json_or (pget params ''uri'') (pget params ''name'') in
      if json_truthy key then get_capability d (py_str key) else None)"

definition can_load :: "runtime \<Rightarrow> capability \<Rightarrow> principal \<Rightarrow> string \<Rightarrow> bool \<Rightarrow> conn \<Rightarrow> (bool \<times> string option) \<times> conn" where
  "can_load rt cap p right audited con = evaluate_access rt p right (Some cap) None audited con"

definition can_discover :: "runtime \<Rightarrow> capability \<Rightarrow> principal \<Rightarrow> bool \<Rightarrow> conn \<Rightarrow> (bool \<times> bool) \<times> conn" where
  "can_discover rt cap p audited con =
     (let (hidden, con1) = (if c_discovery_mode cap = ''hidden''
            then (let ((allowed, _), c) = can_load rt cap p ''load'' audited con in (\<not> allowed, c)) else (False, con)) in
      if hidden then ((False, False), con1)
      else let ((allowed, _), con2) = can_load rt cap p ''load'' audited con1 in
        (if allowed then (True, False) else if c_discovery_mode cap = ''locked'' then (True, True) else (False, False), con2))"

section \<open>cap.load\<close>

type_synonym handler = "principal \<Rightarrow> conn \<Rightarrow> (conn, response) outcome"

definition with_scope :: "principal \<Rightarrow> string \<Rightarrow> (conn \<Rightarrow> (conn, response) outcome) \<Rightarrow> conn \<Rightarrow> (conn, response) outcome" where
  "with_scope p scope body con =
     (let (ok, why) = require_scope p scope in
      if \<not> ok then (Inr (error_result (or_else why ''Not authorized.'') ''INSUFFICIENT_SCOPE'' [(''requiredScope'', JStr scope)]), con)
      else body con)"

definition capability_not_found :: response where
  "capability_not_found = error_result ''Capability not found. Run cap.search first.'' ''CAPABILITY_NOT_FOUND'' []"

definition forbidden :: "capability \<Rightarrow> string option \<Rightarrow> response" where
  "forbidden cap why = error_result (or_else why ''Capability not authorized.'') ''FORBIDDEN'' [(''uri'', JStr (c_uri cap))]"

definition load_body ::
  "file_system \<Rightarrow> (string list \<Rightarrow> nat list) \<Rightarrow> capability \<Rightarrow> string \<Rightarrow> json \<Rightarrow> py_error + response" where
  "load_body fs content cap detail file_ref =
     (let loaded = ''Loaded '' @ c_uri cap @ '' ('' @ detail @ '').''; details = [(''uri'', JStr (c_uri cap))] in
      if detail \<notin> {''entrypoint'', ''full''} then Inr (ok_result loaded (to_record False True cap))
      else if c_source_kind cap = ''system_capability'' then Inr (error_result
        ''System capabilities expose metadata through cap.load and behavior through cap.call; server source bodies are not loadable.''
        ''SYSTEM_BODY_NOT_LOADABLE'' details)
      else case safe_file_target fs (c_package_path cap) (py_str (json_or file_ref (JStr (c_entrypoint cap)))) of
        None \<Rightarrow> Inr (error_result ''Requested file is outside the capability package.'' MESH_ERROR [])
      | Some target \<Rightarrow>
        (case content_hash_for_target fs cap target (if json_truthy file_ref then Some (py_str file_ref) else None) of
          None \<Rightarrow> Inr (error_result ''Referenced file has no indexed digest and cannot be loaded safely.'' ''UNVERIFIED_FILE_REFERENCE'' details)
        | Some expected_hash \<Rightarrow>
            let (actual_hash, verified_content) = hash_and_read_content (content target) detail in
            bind_sum (hmac_hash_equal actual_hash expected_hash) (\<lambda>same. Inr (if \<not> same then error_result
                ''Capability content no longer matches its indexed digest. Re-ingest from an authoritative source before loading.''
                ''CONTENT_HASH_MISMATCH'' details
              else (ok_result loaded (to_record False True cap @ [(''loadedFile'', JStr (path_text (True, target)))]))
                \<lparr>rs_content := Some verified_content\<rparr>))))"

definition cap_load :: "runtime \<Rightarrow> file_system \<Rightarrow> (string list \<Rightarrow> nat list) \<Rightarrow> payload \<Rightarrow> handler" where
  "cap_load rt fs content params p = with_scope p ''cap:load'' (\<lambda>con.
     case resolve_capability (db con) params of
       None \<Rightarrow> (Inr capability_not_found, con)
     | Some cap \<Rightarrow>
         let ((allowed, why), con1) = can_load rt cap p ''load'' True con in
         if \<not> allowed then (Inr (forbidden cap why), con1)
         else (load_body fs content cap (str_or params ''detail'' ''entrypoint'') (pget params ''fileRef''), con1))"

section \<open>cap.call\<close>

text \<open>\<^verbatim>\<open>bool(params.get(key, default))\<close>.\<close>

definition flag :: "payload \<Rightarrow> string \<Rightarrow> bool \<Rightarrow> bool" where
  "flag params k d = (case map_of params k of None \<Rightarrow> d | Some v \<Rightarrow> json_truthy v)"

definition call_system ::
  "(capability \<Rightarrow> json \<Rightarrow> principal \<Rightarrow> conn \<Rightarrow> (conn, payload) outcome) \<Rightarrow> capability \<Rightarrow> payload \<Rightarrow> bool \<Rightarrow> handler" where
  "call_system dispatch_system_capability cap params dry_run p con =
     (if dry_run then (Inr (ok_result ''System capability dry run accepted; execution skipped.''
        [(''mode'', JStr ''system_capability''), (''capability'', JObj (to_record False False cap)), (''dryRun'', JBool True)]), con)
      else case dispatch_system_capability cap (json_or (pget params ''args'') (JObj [])) p con of
        (Inl (PermissionError m), con1) \<Rightarrow> (Inr (error_result m ''FORBIDDEN'' [(''uri'', JStr (c_uri cap))]), con1)
      | (Inl (ValueError m), con1) \<Rightarrow> (Inr (error_result m ''INVALID_ARGUMENT'' [(''uri'', JStr (c_uri cap))]), con1)
      | (Inl e, con1) \<Rightarrow> (Inl e, con1)
      | (Inr data, con1) \<Rightarrow> (Inr (ok_result (''System capability '' @ c_name cap @ '' completed.'') data), con1))"

definition callable_of :: "capability \<Rightarrow> json" where
  "callable_of cap = json_or (pget (c_metadata cap) ''callable'') (pget (c_metadata cap) ''call'')"

definition call_binding :: "capability \<Rightarrow> bool \<Rightarrow> handler" where
  "call_binding cap dry_run p con =
     (if \<not> json_truthy (callable_of cap) then (Inr (ok_result ''Capability is registered and loadable but has no executable call binding.''
        [(''mode'', JStr ''metadata_only''), (''capability'', JObj (to_record False False cap)), (''dryRun'', JBool dry_run)]), con)
      else if dry_run then (Inr (ok_result ''Callable dry run accepted; execution skipped.''
        [(''callable'', callable_of cap), (''dryRun'', JBool True)]), con)
      else
        let binding_hash = compute_binding_hash (c_uri cap) (c_entrypoint cap) (c_content_hash cap);
            (approved, con1) = is_binding_approved (c_uri cap) binding_hash (or_else (Some (p_tenant_id p)) ''asg'') con in
        (Inr (if approved then ok_result ''Callable binding is allowlisted; execution permitted.''
            [(''callable'', callable_of cap), (''bindingHash'', JStr binding_hash), (''dryRun'', JBool False)]
          else error_result ''Executable call bindings are registered but disabled until allowlisted command execution is configured.''
            MESH_ERROR []), con1))"

definition run_call ::
  "(capability \<Rightarrow> json \<Rightarrow> principal \<Rightarrow> conn \<Rightarrow> (conn, payload) outcome) \<Rightarrow> (payload \<Rightarrow> handler) \<Rightarrow> capability \<Rightarrow> payload \<Rightarrow> bool \<Rightarrow> handler" where
  "run_call dispatch_system_capability cap_delegate cap params dry_run p con =
     (if json_truthy (pget (c_metadata cap) ''systemCapability'') then call_system dispatch_system_capability cap params dry_run p con
      else if c_type cap = ''skill'' then (Inr (ok_result
        ''Skill capability activation prepared. Load the entrypoint and follow its progressive disclosure instructions.''
        [(''mode'', JStr ''skill_activation''), (''capability'', JObj (to_record False False cap)), (''args'', json_or (pget params ''args'') (JObj []))]), con)
      else if c_type cap = ''agent'' then
        (case json_or (pget params ''args'') (JObj []) of
           JObj args \<Rightarrow> cap_delegate [(''uri'', JStr (c_uri cap)), (''task'', JStr (str_or args ''task'' ''Run delegated agent task.''))] p con
         | _ \<Rightarrow> (Inl (AttributeErr ''object has no attribute get''), con))
      else call_binding cap dry_run p con)"

definition not_authoritative :: "runtime \<Rightarrow> string \<Rightarrow> py_error + response" where
  "not_authoritative rt msg = bind_sum (topology_payload rt) (\<lambda>details. Inr (error_result msg ''NOT_AUTHORITATIVE'' details))"

definition cap_call ::
  "runtime \<Rightarrow> (capability \<Rightarrow> json \<Rightarrow> principal \<Rightarrow> conn \<Rightarrow> (conn, payload) outcome) \<Rightarrow> (payload \<Rightarrow> handler) \<Rightarrow> payload \<Rightarrow> handler" where
  "cap_call rt dispatch_system_capability cap_delegate params p = with_scope p ''cap:call'' (\<lambda>con.
     case resolve_capability (db con) params of
       None \<Rightarrow> (Inr capability_not_found, con)
     | Some cap \<Rightarrow>
         let ((allowed, why), con1) = can_load rt cap p ''call'' True con;
             dry_run = flag params ''dryRun'' True; confirm = flag params ''confirm'' False in
         if \<not> allowed then (Inr (forbidden cap why), con1)
         else and_then (lift_result (if c_mutating cap \<and> \<not> dry_run then is_authoritative_node rt else Inr True) con1) (\<lambda>authoritative con1.
           if \<not> authoritative then
             lift_result (not_authoritative rt ''Authoritative capability writes are served only by the authoritative node.'') con1
           else if c_mutating cap \<and> \<not> confirm then (Inr (error_result
             ''Mutating capability calls require confirm=true and should be dry-run first.'' ''CONFIRMATION_REQUIRED''
             [(''uri'', JStr (c_uri cap))]), con1)
           else run_call dispatch_system_capability cap_delegate cap params dry_run p con1))"

section \<open>cap.list and cap.describe\<close>

text \<open>SQLite sorts NULL first, and reads a negative offset as zero.\<close>

definition listing_key :: "capability \<Rightarrow> string \<times> (bool \<times> string) \<times> string" where
  "listing_key c = (c_type c, (c_plugin c \<noteq> None, case c_plugin c of None \<Rightarrow> [] | Some t \<Rightarrow> t), c_name c)"

definition listed_rows :: "string option \<Rightarrow> string option \<Rightarrow> database \<Rightarrow> capability list" where
  "listed_rows capability_type plugin d = order_by listing_key
     (filter (\<lambda>c. (truthy capability_type \<longrightarrow> Some (c_type c) = capability_type) \<and> (truthy plugin \<longrightarrow> c_plugin c = plugin)) (capabilities d))"

fun list_items :: "runtime \<Rightarrow> principal \<Rightarrow> capability list \<Rightarrow> conn \<Rightarrow> payload list \<times> conn" where
  "list_items rt p [] con = ([], con)"
| "list_items rt p (row # rows) con =
     (let cap = capability_from_row row in
      if capguard_is_held (db con) cap then list_items rt p rows con
      else let ((visible, locked), con1) = can_discover rt cap p False con; (items, con2) = list_items rt p rows con1 in
        (if visible then to_record locked False cap # items else items, con2))"

record listing =
  li_items :: "payload list"
  li_next_cursor :: "string option"
  li_page_size :: int

definition list_capabilities ::
  "runtime \<Rightarrow> principal \<Rightarrow> string option \<Rightarrow> string option \<Rightarrow> json \<Rightarrow> int \<Rightarrow> conn \<Rightarrow> (conn, listing) outcome" where
  "list_capabilities rt p capability_type plugin cursor page_size0 con =
     (let page_size = min (max page_size0 1) 100 in
      and_then (lift_result (to_int (json_or cursor (JStr ''0''))) con) (\<lambda>offset con.
        let rows = take (nat (page_size + 1)) (drop (nat offset) (listed_rows capability_type plugin (db con)));
            (items, con1) = list_items rt p (take (nat page_size) rows) con in
        (Inr \<lparr>li_items = items, li_next_cursor = (if page_size < int (length rows) then Some (str_of_int (offset + page_size)) else None),
           li_page_size = page_size\<rparr>, con1)))"

definition listing_data :: "listing \<Rightarrow> payload" where
  "listing_data l = [(''items'', JList (map JObj (li_items l))), (''nextCursor'', json_opt (li_next_cursor l)), (''pageSize'', JInt (li_page_size l))]"

text \<open>A filter value that the driver cannot bind is refused when the query runs, after the cursor is read.\<close>

definition cap_list :: "runtime \<Rightarrow> payload \<Rightarrow> handler" where
  "cap_list rt params p con =
     and_then (lift_result (to_int (json_or (pget params ''pageSize'') (JInt 50))) con) (\<lambda>page_size con.
     and_then (lift_result (to_int (json_or (pget params ''cursor'') (JStr ''0''))) con) (\<lambda>_ con.
     and_then (lift_result (bind_text (json_or (pget params ''type'') JNull)) con) (\<lambda>capability_type con.
     and_then (lift_result (bind_text (json_or (pget params ''plugin'') JNull)) con) (\<lambda>plugin con.
     and_then (list_capabilities rt p capability_type plugin (pget params ''cursor'') page_size con) (\<lambda>data con1.
       (Inr (ok_result (''Listed '' @ str_of_nat (length (li_items data)) @ '' capability record(s).'') (listing_data data)), con1))))))"

definition cap_describe :: "runtime \<Rightarrow> payload \<Rightarrow> handler" where
  "cap_describe rt params p con =
     (case resolve_capability (db con) params of
       None \<Rightarrow> (Inr capability_not_found, con)
     | Some cap \<Rightarrow>
         let ((allowed, why), con1) = can_load rt cap p ''load'' True con in
         (Inr (ok_result (''Described '' @ c_uri cap @ ''.'')
            (to_record (\<not> allowed) allowed cap @ (if \<not> allowed then [(''authorization'', json_opt why)] else []))), con1))"

section \<open>cap.process\<close>

definition cap_process :: "runtime \<Rightarrow> (string \<Rightarrow> json \<Rightarrow> gateway_reply) \<Rightarrow> payload \<Rightarrow> handler" where
  "cap_process rt gateway params p con0 =
     and_then (lift_result (is_authoritative_node rt) con0) (\<lambda>authoritative con.
       if \<not> authoritative then lift_result (not_authoritative rt ''Task processing is served only by the authoritative node.'') con
       else with_scope p ''cap:delegate'' (\<lambda>con.
         let task_id = py_strip (str_or params ''taskId'' []) in
         if task_id = [] then (Inr (error_result ''taskId is required.'' MESH_ERROR []), con)
         else case dispatch_queued_task rt gateway task_id (or_else (Some (p_tenant_id p)) ''asg'') None con of
           (Inl (ValueError m), con1) \<Rightarrow> (Inr (error_result m ''TASK_NOT_FOUND'' []), con1)
         | (Inl e, con1) \<Rightarrow> (Inr (error_result (''Task processing failed: '' @ error_text e) ''INTERNAL_ERROR'' []), con1)
         | (Inr result, con1) \<Rightarrow>
             (Inr (if get_of ''status'' result = JStr ''failed''
                then error_result (''Task dispatch failed: '' @ py_str (case map_of (envelope_dict result) ''error'' of
                    None \<Rightarrow> JStr ''unknown error'' | Some v \<Rightarrow> v)) ''DISPATCH_FAILED'' (envelope_dict result)
                else ok_result (''Task '' @ task_id @ '' processed via '' @ py_str (get_of ''backend'' result) @ ''.'') (envelope_dict result)), con1)) con)"

section \<open>The dispatch of a request\<close>

definition TOOL_NAMES :: "string list" where
  "TOOL_NAMES = [''cap.search'', ''cap.load'', ''cap.call'', ''cap.list'', ''cap.describe'', ''cap.delegate'', ''cap.process'', ''cap.report'']"

text \<open>The handlers and services of a router that are not modelled, and the files it reads.\<close>

record services =
  sv_files :: file_system
  sv_content :: "string list \<Rightarrow> nat list"
  sv_search :: "payload \<Rightarrow> handler"
  sv_delegate :: "payload \<Rightarrow> handler"
  sv_report :: "payload \<Rightarrow> handler"
  sv_dispatch_system_capability :: "capability \<Rightarrow> json \<Rightarrow> principal \<Rightarrow> conn \<Rightarrow> (conn, payload) outcome"
  sv_gateway :: "string \<Rightarrow> json \<Rightarrow> gateway_reply"

definition answer_error :: "string \<Rightarrow> py_error \<Rightarrow> response option" where
  "answer_error tool e = (let details = [(''tool'', JStr tool)] in case e of
     PermissionError _ \<Rightarrow> Some (error_result ''The authenticated principal is not authorized for this capability operation.'' ''FORBIDDEN'' details)
   | ValueError _ \<Rightarrow> Some (error_result (tool @ '' rejected the supplied arguments.'') ''INVALID_ARGUMENT'' details)
   | FileNotFoundErr _ \<Rightarrow> Some (error_result (tool @ '' could not find a required capability resource.'') ''RESOURCE_NOT_FOUND'' details)
   | IntegrityError _ \<Rightarrow> Some (error_result (tool @ '' failed because the capability store could not complete the operation.'') ''INTERNAL_ERROR'' details)
   | ProgrammingErr _ \<Rightarrow> Some (error_result (tool @ '' failed because the capability store could not complete the operation.'') ''INTERNAL_ERROR'' details)
   | _ \<Rightarrow> None)"

definition handle_tool :: "runtime \<Rightarrow> services \<Rightarrow> string \<Rightarrow> payload \<Rightarrow> handler" where
  "handle_tool rt sv tool params =
     (if tool = ''cap.search'' then sv_search sv params
      else if tool = ''cap.load'' then cap_load rt (sv_files sv) (sv_content sv) params
      else if tool = ''cap.call'' then cap_call rt (sv_dispatch_system_capability sv) (sv_delegate sv) params
      else if tool = ''cap.list'' then cap_list rt params
      else if tool = ''cap.describe'' then cap_describe rt params
      else if tool = ''cap.delegate'' then sv_delegate sv params
      else if tool = ''cap.process'' then cap_process rt (sv_gateway sv) params
      else if tool = ''cap.report'' then sv_report sv params
      else (\<lambda>p con. (Inr (error_result (''Unhandled tool '' @ [CHR 0x27] @ tool @ [CHR 0x27, CHR ''.'']) MESH_ERROR []), con)))"

definition request_principal :: "runtime \<Rightarrow> payload \<Rightarrow> py_error + principal" where
  "request_principal rt params = (case json_or (pget params ''principal'') (JObj []) of
     JObj raw \<Rightarrow> principal_from_dict rt raw | _ \<Rightarrow> Inl (AttributeErr ''object has no attribute get''))"

definition call :: "runtime \<Rightarrow> services \<Rightarrow> string \<Rightarrow> payload \<Rightarrow> conn \<Rightarrow> (conn, response) outcome" where
  "call rt sv tool params con =
     (if tool \<notin> set TOOL_NAMES then (Inr (error_result
        (''Unknown tool '' @ [CHR 0x27] @ tool @ [CHR 0x27] @ ''. Valid tools: '' @ join_with '', '' TOOL_NAMES) ''TOOL_NOT_FOUND''
        [(''tool'', JStr tool), (''validTools'', JList (map JStr TOOL_NAMES))]), con)
      else and_then (lift_result (request_principal rt params) con) (\<lambda>p con.
        case handle_tool rt sv tool params p con of
          (Inl e, con1) \<Rightarrow> (case answer_error tool e of None \<Rightarrow> Inl e | Some r \<Rightarrow> Inr r, con1)
        | (Inr r, con1) \<Rightarrow> (Inr r, con1)))"

section \<open>Reading in chunks reads the file\<close>

lemma concat_chunks_of: "0 < n \<Longrightarrow> concat (chunks_of n bytes) = bytes"
  by (induction n bytes rule: chunks_of.induct) (subst chunks_of.simps, simp)

lemma capture_take:
  "length captured \<le> limit \<Longrightarrow> capture limit chunks (captured, b)
     = (take limit (captured @ concat chunks), b \<or> limit < length captured + length (concat chunks))"
proof (induction chunks arbitrary: captured b)
  case (Cons chunk chunks)
  then show ?case by (cases "length chunk \<le> limit - length captured") (auto simp: Let_def min_def)
qed simp

definition read_limit :: "string \<Rightarrow> nat" where
  "read_limit detail = (if detail = ''full'' then 400000 else 80000)"

lemma hash_and_read_content_eq:
  "hash_and_read_content bytes detail = (''sha256:'' @ hexdigest_bytes bytes,
     utf8_decode (take (read_limit detail) bytes) @ (if read_limit detail < length bytes then codes TRUNCATED_MARK else []))"
  by (simp add: hash_and_read_content_def Let_def capture_take concat_chunks_of CHUNK_def read_limit_def)

lemma hex_digest_ascii: "c \<in> set (hexdigest_bytes m) \<Longrightarrow> (of_char c :: nat) < 128"
proof -
  have digit: "(of_char (hex_digit n) :: nat) < 128" if "n < 16" for n
    using that by (auto simp: hex_digit_def)
  assume "c \<in> set (hexdigest_bytes m)"
  then obtain b where b: "b \<in> set (sha256_bytes m)" "c \<in> set (hex_byte b)" by (auto simp: hexdigest_bytes_def)
  then have "b < 256" by (simp add: sha256_bytes_less)
  then have "b div 16 < 16" by (simp add: div_less_iff_less_mult)
  with b(2) digit show ?thesis by (auto simp: hex_byte_def)
qed

lemma hmac_hash_equal_true: "hmac_hash_equal actual expected = Inr True \<longleftrightarrow> actual = expected \<and> (\<forall>c \<in> set expected. (of_char c :: nat) < 128)"
  by (auto simp: hmac_hash_equal_def list_ex_iff linorder_not_less [symmetric])

lemma hmac_own_digest: "hmac_hash_equal (''sha256:'' @ hexdigest_bytes m) (''sha256:'' @ hexdigest_bytes m) = Inr True"
  by (auto simp: hmac_hash_equal_true hex_digest_ascii)

section \<open>Discovery and the walk over the pages\<close>

lemma int_text_str:
  assumes "0 \<le> i"
  shows "int_text (str_of_int i) = Some i"
proof -
  let ?s = "str_of_nat (nat i)"
  have digits: "list_all ascii_digit ?s" by (rule str_of_nat_digits)
  have space: "\<not> py_isspace c" "c \<noteq> CHR ''-''" "c \<noteq> CHR ''+''" "c \<noteq> CHR ''_''" if "ascii_digit c" for c
    using that by (auto simp: ascii_digit_def py_isspace_def Let_def)
  have keep: "dropWhile py_isspace xs = xs" if "list_all ascii_digit xs" for xs
    using that space by (cases xs) auto
  have "py_strip ?s = ?s" using digits keep [of "rev ?s"] keep [of ?s] by (simp add: py_strip_def py_lstrip_def py_rstrip_def)
  moreover have "split_on (CHR ''_'') ?s = [?s]"
    using str_of_nat_no_char [of "CHR ''_''"] space(4) by (intro split_on_no_sep) auto
  moreover have "\<not> startswith ?s ''-''" "\<not> startswith ?s ''+''"
    using digits space by (cases ?s; auto simp: startswith_def)+
  ultimately show ?thesis using assms digits by (simp add: int_text_def str_of_int_def Let_def)
qed

lemma str_of_int_neq_Nil: "str_of_int i \<noteq> []"
  by (simp add: str_of_int_def)

definition may_load :: "runtime \<Rightarrow> database \<Rightarrow> principal \<Rightarrow> capability \<Rightarrow> bool" where
  "may_load rt d p c = access_allowed rt d p ''load'' (Some c) None"

lemma can_discover_spec:
  assumes "cache_coherent (db con) (org_cache con)"
  shows "fst (can_discover rt cap p False con) =
      (may_load rt (db con) p cap \<or> c_discovery_mode cap = ''locked'', \<not> may_load rt (db con) p cap \<and> c_discovery_mode cap = ''locked'')"
    and "db (snd (can_discover rt cap p False con)) = db con"
    and "cache_coherent (db con) (org_cache (snd (can_discover rt cap p False con)))"
proof -
  let ?ask = "\<lambda>c. evaluate_access rt p ''load'' (Some cap) None False c"
  note one = evaluate_access_allowed [OF assms, of rt p "''load''" "Some cap" None False]
  have two: "fst (fst (?ask (snd (?ask con)))) = may_load rt (db con) p cap"
    "cache_coherent (db con) (org_cache (snd (?ask (snd (?ask con)))))"
    using evaluate_access_allowed [of "snd (?ask con)" rt p "''load''" "Some cap" None False] one by (simp_all add: may_load_def)
  show "fst (can_discover rt cap p False con) =
      (may_load rt (db con) p cap \<or> c_discovery_mode cap = ''locked'', \<not> may_load rt (db con) p cap \<and> c_discovery_mode cap = ''locked'')"
    using one two by (auto simp: can_discover_def can_load_def may_load_def case_prod_unfold Let_def)
  show "db (snd (can_discover rt cap p False con)) = db con"
    by (simp add: can_discover_def can_load_def case_prod_unfold Let_def)
  show "cache_coherent (db con) (org_cache (snd (can_discover rt cap p False con)))"
    using one two assms by (simp add: can_discover_def can_load_def case_prod_unfold Let_def)
qed

definition discoverable :: "runtime \<Rightarrow> database \<Rightarrow> principal \<Rightarrow> capability \<Rightarrow> bool" where
  "discoverable rt d p c = (\<not> capguard_is_held d c \<and> (may_load rt d p c \<or> c_discovery_mode c = ''locked''))"

definition catalog_entry :: "runtime \<Rightarrow> database \<Rightarrow> principal \<Rightarrow> capability \<Rightarrow> payload" where
  "catalog_entry rt d p c = to_record (\<not> may_load rt d p c) False c"

definition entries :: "runtime \<Rightarrow> database \<Rightarrow> principal \<Rightarrow> capability list \<Rightarrow> payload list" where
  "entries rt d p rows = map (catalog_entry rt d p) (filter (discoverable rt d p) (map capability_from_row rows))"

lemma list_items_spec:
  assumes "cache_coherent (db con) (org_cache con)"
  shows "fst (list_items rt p rows con) = entries rt (db con) p rows \<and> db (snd (list_items rt p rows con)) = db con
    \<and> cache_coherent (db con) (org_cache (snd (list_items rt p rows con)))"
  using assms
proof (induction rows arbitrary: con)
  case (Cons row rows)
  note spec = can_discover_spec [OF Cons.prems, of rt "capability_from_row row" p]
  show ?case
    using Cons.IH [of "snd (can_discover rt (capability_from_row row) p False con)"] Cons.IH [OF Cons.prems] spec Cons.prems
    by (auto simp: entries_def discoverable_def catalog_entry_def Let_def case_prod_unfold)
qed (simp add: entries_def)

lemma entries_append: "entries rt d p (xs @ ys) = entries rt d p xs @ entries rt d p ys"
  by (simp add: entries_def)

text \<open>A client that follows the cursors from the first page.\<close>

fun walk_pages :: "nat \<Rightarrow> runtime \<Rightarrow> principal \<Rightarrow> string option \<Rightarrow> string option \<Rightarrow> int \<Rightarrow> json \<Rightarrow> conn \<Rightarrow> payload list option" where
  "walk_pages 0 rt p ty pl psize cursor con = None"
| "walk_pages (Suc k) rt p ty pl psize cursor con = (case list_capabilities rt p ty pl cursor psize con of
     (Inl e, con1) \<Rightarrow> None
   | (Inr l, con1) \<Rightarrow> (case li_next_cursor l of None \<Rightarrow> Some (li_items l)
       | Some c \<Rightarrow> map_option ((@) (li_items l)) (walk_pages k rt p ty pl psize (JStr c) con1)))"

lemma walk_pages_from:
  assumes "cache_coherent (db con) (org_cache con)" "to_int (json_or cursor (JStr ''0'')) = Inr (int off)"
    "off \<le> length (listed_rows ty pl (db con))" "length (listed_rows ty pl (db con)) < off + k"
  shows "walk_pages k rt p ty pl psize cursor con = Some (entries rt (db con) p (drop off (listed_rows ty pl (db con))))"
  using assms
proof (induction k arbitrary: con cursor off)
  case (Suc k)
  define n where "n = nat (min (max psize 1) 100)"
  have n: "min (max psize 1) 100 = int n" "1 \<le> n" by (auto simp: n_def)
  let ?R = "listed_rows ty pl (db con)"
  let ?items = "list_items rt p (take n (drop off ?R)) con"
  note items = list_items_spec [OF Suc.prems(1), of rt p "take n (drop off ?R)"]
  have page: "list_capabilities rt p ty pl cursor psize con =
    (Inr \<lparr>li_items = fst ?items, li_next_cursor = (if off + n < length ?R then Some (str_of_int (int (off + n))) else None),
      li_page_size = int n\<rparr>, snd ?items)"
    using n Suc.prems(2) by (auto simp: list_capabilities_def Let_def and_then_def lift_result_def case_prod_unfold nat_add_distrib)
  show ?case
  proof (cases "off + n < length ?R")
    case True
    have "to_int (json_or (JStr (str_of_int (int (off + n)))) (JStr ''0'')) = Inr (int (off + n))"
      by (simp add: to_int_def py_int_def json_or_def json_truthy_def int_text_str str_of_int_neq_Nil del: of_nat_add)
    with Suc.IH [of "snd ?items" _ "off + n"] items Suc.prems(4) n(2) True have
      "walk_pages k rt p ty pl psize (JStr (str_of_int (int (off + n)))) (snd ?items) = Some (entries rt (db con) p (drop (off + n) ?R))"
      by simp
    moreover have "drop off ?R = take n (drop off ?R) @ drop (off + n) ?R"
      by (metis append_take_drop_id drop_drop add.commute)
    ultimately show ?thesis using True items by (simp add: page del: of_nat_add) (metis entries_append)
  qed (use items in \<open>simp add: page\<close>)
qed simp

lemma answers [simp]:
  "rs_error (ok_result m data) = False" "rs_content (ok_result m data) = None"
  "rs_error (error_result m c data) = True" "rs_content (error_result m c data) = None"
  by (simp_all add: ok_result_def error_result_def)

lemma load_body_content:
  assumes run: "load_body fs content cap detail ref = Inr r" and served: "rs_content r = Some t"
  shows "\<exists>target. safe_file_target fs (c_package_path cap) (py_str (json_or ref (JStr (c_entrypoint cap)))) = Some target
    \<and> content_hash_for_target fs cap target (if json_truthy ref then Some (py_str ref) else None) = Some (''sha256:'' @ hexdigest_bytes (content target))
    \<and> t = utf8_decode (take (read_limit detail) (content target))
        @ (if read_limit detail < length (content target) then codes TRUNCATED_MARK else [])"
proof -
  let ?ref = "if json_truthy ref then Some (py_str ref) else None"
  note run = run [unfolded load_body_def Let_def]
  have detail: "detail \<in> {''entrypoint'', ''full''}" and kind: "c_source_kind cap \<noteq> ''system_capability''"
    using run served by (cases "detail \<in> {''entrypoint'', ''full''}"; cases "c_source_kind cap = ''system_capability''"; force)+
  from detail kind have open_body: "(detail \<notin> {''entrypoint'', ''full''}) = False" "(c_source_kind cap = ''system_capability'') = False"
    by auto
  note run = run [unfolded open_body if_False]
  from run served obtain target where target:
    "safe_file_target fs (c_package_path cap) (py_str (json_or ref (JStr (c_entrypoint cap)))) = Some target"
    by (cases "safe_file_target fs (c_package_path cap) (py_str (json_or ref (JStr (c_entrypoint cap))))") auto
  from run target served obtain h where h: "content_hash_for_target fs cap target ?ref = Some h"
    by (cases "content_hash_for_target fs cap target ?ref") auto
  note run = run [unfolded target h option.case hash_and_read_content_eq prod.case]
  from run obtain same where same: "hmac_hash_equal (''sha256:'' @ hexdigest_bytes (content target)) h = Inr same"
    by (cases "hmac_hash_equal (''sha256:'' @ hexdigest_bytes (content target)) h") (simp_all add: bind_sum_def)
  note run = run [unfolded same bind_sum_def sum.case]
  from run served have "same" by (cases same) auto
  moreover from run \<open>same\<close> served have
    "t = utf8_decode (take (read_limit detail) (content target))
        @ (if read_limit detail < length (content target) then codes TRUNCATED_MARK else [])" by auto
  ultimately show ?thesis using same target h by (auto simp: hmac_hash_equal_true)
qed

lemma get_capability_unheld: "get_capability d k = Some cap \<Longrightarrow> \<not> capguard_is_held d cap"
  by (auto simp: get_capability_def Let_def split: option.splits if_splits)

lemma resolve_unheld: "resolve_capability d params = Some cap \<Longrightarrow> \<not> capguard_is_held d cap"
  by (auto simp: resolve_capability_def Let_def get_capability_unheld split: if_splits)

lemma with_scope_cases:
  "with_scope p scope body con = (if fst (require_scope p scope) then body con
     else (Inr (error_result (or_else (snd (require_scope p scope)) ''Not authorized.'') ''INSUFFICIENT_SCOPE'' [(''requiredScope'', JStr scope)]), con))"
  by (simp add: with_scope_def case_prod_unfold Let_def)

lemma answer_error_fails [simp]: "answer_error tool e = Some r \<Longrightarrow> rs_error r \<and> rs_content r = None"
  by (cases e) (auto simp: answer_error_def)

lemma call_answer:
  assumes "call rt sv tool params con = (Inr r, con')" "\<not> rs_error r"
  shows "\<exists>p. request_principal rt params = Inr p \<and> handle_tool rt sv tool params p con = (Inr r, con')"
  using assms
  by (auto simp: call_def and_then_def lift_result_def split: if_splits sum.splits prod.splits option.splits dest: answer_error_fails)

lemma cap_load_content:
  assumes run: "cap_load rt fs content params p con = (Inr r, con')" and served: "rs_content r = Some t"
    and coherent: "cache_coherent (db con) (org_cache con)"
  shows "\<exists>cap. resolve_capability (db con) params = Some cap \<and> fst (require_scope p ''cap:load'') \<and> may_load rt (db con) p cap
    \<and> load_body fs content cap (str_or params ''detail'' ''entrypoint'') (pget params ''fileRef'') = Inr r"
  using run served evaluate_access_allowed(1) [OF coherent]
  by (auto simp: cap_load_def with_scope_cases capability_not_found_def forbidden_def can_load_def may_load_def case_prod_unfold Let_def
      split: if_splits option.splits)

text \<open>C3. What cap.load serves is verified: when a request is answered with content, the principal of the
  request has the scope, the policy grants it the right to load the capability, the capability is not held in
  quarantine, the file lies inside its package, the bytes on disk have the digest recorded for this file, and
  the text is the decoding of the first bytes up to the limit of the requested detail, with the mark of
  truncation exactly when the file is longer.\<close>

theorem load_serves_verified_content:
  assumes run: "call rt sv ''cap.load'' params con = (Inr r, con')" and served: "rs_content r = Some t"
    and coherent: "cache_coherent (db con) (org_cache con)"
  shows "\<exists>p cap target. request_principal rt params = Inr p \<and> resolve_capability (db con) params = Some cap
    \<and> fst (require_scope p ''cap:load'') \<and> may_load rt (db con) p cap \<and> \<not> capguard_is_held (db con) cap
    \<and> startswith target (file_system.resolve_path (sv_files sv) (c_package_path cap)) \<and> file_system.is_file (sv_files sv) target
    \<and> content_hash_for_target (sv_files sv) cap target
        (if json_truthy (pget params ''fileRef'') then Some (py_str (pget params ''fileRef'')) else None)
        = Some (''sha256:'' @ hexdigest_bytes (sv_content sv target))
    \<and> t = utf8_decode (take (read_limit (str_or params ''detail'' ''entrypoint'')) (sv_content sv target))
        @ (if read_limit (str_or params ''detail'' ''entrypoint'') < length (sv_content sv target) then codes TRUNCATED_MARK else [])"
proof -
  have p: "\<exists>p. request_principal rt params = Inr p \<and> cap_load rt (sv_files sv) (sv_content sv) params p con = (Inr r, con')"
    using run served
    by (auto simp: call_def handle_tool_def TOOL_NAMES_def and_then_def lift_result_def split: sum.splits prod.splits option.splits
        dest: answer_error_fails)
  then obtain p where p: "request_principal rt params = Inr p" "cap_load rt (sv_files sv) (sv_content sv) params p con = (Inr r, con')" by blast
  from cap_load_content [OF p(2) served coherent] obtain cap where cap: "resolve_capability (db con) params = Some cap"
    "fst (require_scope p ''cap:load'')" "may_load rt (db con) p cap"
    "load_body (sv_files sv) (sv_content sv) cap (str_or params ''detail'' ''entrypoint'') (pget params ''fileRef'') = Inr r" by blast
  from load_body_content [OF cap(4) served] p cap resolve_unheld [OF cap(1)] show ?thesis
    unfolding safe_file_target_def Let_def by (auto split: if_splits)
qed

section \<open>Calls\<close>

lemma can_load_frame: "runnable (db (snd (can_load rt cap p right b con))) = runnable (db con)"
  using arg_cong [OF gate.gate_frame [of rt p right "Some cap" None b con], of call_binding_allowlist]
  by (simp add: can_load_def runnable_def unaudited_def)

lemma binding_approved_iff: "fst (is_binding_approved u h t con) \<longleftrightarrow> (t, u, h) \<in> runnable (db con)"
  by (simp add: is_binding_approved_def runnable_def Let_def split: option.split)

definition binding_of :: "principal \<Rightarrow> capability \<Rightarrow> binding_key" where
  "binding_of p cap = (or_else (Some (p_tenant_id p)) ''asg'', c_uri cap,
     compute_binding_hash (c_uri cap) (c_entrypoint cap) (c_content_hash cap))"

definition plain_callable :: "capability \<Rightarrow> bool" where
  "plain_callable cap = (\<not> json_truthy (pget (c_metadata cap) ''systemCapability'') \<and> c_type cap \<notin> {''skill'', ''agent''}
     \<and> json_truthy (callable_of cap))"

lemma run_call_plain:
  assumes "plain_callable cap" "run_call ds dg cap params False p con = (Inr r, con')" "\<not> rs_error r"
  shows "binding_of p cap \<in> runnable (db con)"
  using assms
  by (auto simp: plain_callable_def run_call_def call_binding_def binding_of_def Let_def case_prod_unfold
      binding_approved_iff [symmetric] split: if_splits)

lemma cap_call_plain:
  assumes run: "cap_call rt ds dg params p con = (Inr r, con')" and ok: "\<not> rs_error r"
    and cap: "resolve_capability (db con) params = Some cap" "plain_callable cap"
    and real: "\<not> flag params ''dryRun'' True" and coherent: "cache_coherent (db con) (org_cache con)"
  shows "fst (require_scope p ''cap:call'') \<and> access_allowed rt (db con) p ''call'' (Some cap) None
    \<and> binding_of p cap \<in> runnable (db con)
    \<and> (c_mutating cap \<longrightarrow> flag params ''confirm'' False \<and> configured_node_role rt = Inr ''authoritative'')"
proof -
  let ?con = "snd (can_load rt cap p ''call'' True con)"
  note run = run [unfolded cap_call_def with_scope_cases cap(1) option.case Let_def case_prod_unfold]
  have scope: "fst (require_scope p ''cap:call'')" and allowed: "fst (fst (can_load rt cap p ''call'' True con))"
    using run ok by (auto simp: forbidden_def split: if_splits)
  note flags = eqTrueI [OF scope] eqTrueI [OF allowed] eq_False [THEN iffD2, OF real]
  note run = run [unfolded flags if_True if_False not_True_eq_False not_False_eq_True simp_thms]
  have role: "configured_node_role rt = Inr ''authoritative''" if "c_mutating cap"
    using run ok that
    by (auto simp: and_then_def lift_result_def is_authoritative_node_def not_authoritative_def bind_sum_def split: sum.splits if_splits)
  have confirm: "flag params ''confirm'' False" if "c_mutating cap"
    using run ok that role [OF that] by (auto simp: and_then_def lift_result_def is_authoritative_node_def bind_sum_def split: if_splits)
  have "run_call ds dg cap params False p ?con = (Inr r, con')"
  proof (cases "c_mutating cap")
    case True
    with run role confirm show ?thesis by (simp add: and_then_def lift_result_def is_authoritative_node_def bind_sum_def)
  next
    case False
    with run show ?thesis by (simp add: and_then_def lift_result_def)
  qed
  from run_call_plain [OF cap(2) this ok] scope allowed role confirm evaluate_access_allowed(1) [OF coherent] show ?thesis
    by (simp add: can_load_frame [unfolded can_load_def] can_load_def)
qed

text \<open>C4. A binding runs only after an approval of exactly this content: when a call that is not a dry run of a
  capability with an executable binding succeeds, the principal has the scope and the right to call, the
  capability is not held, the allowlist has an unrevoked approval for the tenant, the address and the hash over
  its present content hash, and a mutating capability was confirmed and served by the authoritative node.\<close>

theorem call_runs_approved_bindings_only:
  assumes run: "call rt sv ''cap.call'' params con = (Inr r, con')" and ok: "\<not> rs_error r"
    and cap: "resolve_capability (db con) params = Some cap" "plain_callable cap"
    and real: "\<not> flag params ''dryRun'' True" and coherent: "cache_coherent (db con) (org_cache con)"
  shows "\<exists>p. request_principal rt params = Inr p \<and> fst (require_scope p ''cap:call'')
    \<and> access_allowed rt (db con) p ''call'' (Some cap) None \<and> \<not> capguard_is_held (db con) cap
    \<and> binding_of p cap \<in> runnable (db con)
    \<and> (c_mutating cap \<longrightarrow> flag params ''confirm'' False \<and> configured_node_role rt = Inr ''authoritative'')"
proof -
  from call_answer [OF run ok] obtain p where p: "request_principal rt params = Inr p"
    "cap_call rt (sv_dispatch_system_capability sv) (sv_delegate sv) params p con = (Inr r, con')"
    by (auto simp: handle_tool_def)
  with cap_call_plain [OF p(2) ok cap real coherent] resolve_unheld [OF cap(1)] show ?thesis by blast
qed

section \<open>A sample router\<close>

definition sample_files :: file_system where
  "sample_files = \<lparr>file_system.resolve_path = (\<lambda>t. filter (\<lambda>w. w \<noteq> []) (split_on (CHR ''/'') t)), is_file = (\<lambda>_. True)\<rparr>"

definition no_handler :: "payload \<Rightarrow> handler" where
  "no_handler params p con = (Inr capability_not_found, con)"

definition sample_services :: services where
  "sample_services = \<lparr>sv_files = sample_files, sv_content = (\<lambda>_. [104, 105]), sv_search = no_handler, sv_delegate = no_handler,
     sv_report = no_handler, sv_dispatch_system_capability = (\<lambda>cap args p con. (Inr [], con)), sv_gateway = (\<lambda>u v. Unreachable [])\<rparr>"

definition sample_tool :: "string \<Rightarrow> capability" where
  "sample_tool n = sample_capability\<lparr>c_uri := ''cap://all/asg/everyone/command/p.'' @ n, c_type := ''command'', c_name := n, c_title := n, c_mutating := True,
     c_metadata := [(''callable'', JStr ''run'')], c_content_hash := ''sha256:'' @ hexdigest_bytes [104, 105]\<rparr>"

definition sample_catalog :: database where
  "sample_catalog = empty_database\<lparr>capabilities := [sample_tool ''s'', sample_tool ''t''],
     call_binding_allowlist := [\<lparr>cb_id = ''alw_1'', cb_tenant = ''asg'', cb_capability_uri = c_uri (sample_tool ''s''),
       cb_binding_hash = compute_binding_hash (c_uri (sample_tool ''s'')) ''s'' (c_content_hash (sample_tool ''s'')), cb_signing_key_id = ''k'',
       cb_signature = [], cb_approved_by = ''ann'', cb_approved_at = [], cb_revoked_at = None\<rparr>]\<rparr>"

definition sample_params :: payload where
  "sample_params = [(''uri'', JStr (c_uri (sample_tool ''s''))), (''dryRun'', JBool False), (''confirm'', JBool True)]"

lemma sample_tool_fields [simp]:
  "c_uri (sample_tool n) = ''cap://all/asg/everyone/command/p.'' @ n" "c_type (sample_tool n) = ''command''" "c_name (sample_tool n) = n"
  "c_title (sample_tool n) = n" "c_plugin (sample_tool n) = Some ''p''"
  "c_entrypoint (sample_tool n) = ''s''" "c_source_kind (sample_tool n) = ''skill''" "c_package_path (sample_tool n) = ''/''"
  "c_mutating (sample_tool n)" "c_metadata (sample_tool n) = [(''callable'', JStr ''run'')]"
  "c_content_hash (sample_tool n) = ''sha256:'' @ hexdigest_bytes [104, 105]" "c_visibility (sample_tool n) = ''internal''"
  "c_discovery_mode (sample_tool n) = ''public''"
  by (simp_all add: sample_tool_def sample_capability_def)

lemma sample_tool_row: "capability_from_row (sample_tool n) = sample_tool n"
  by (simp add: capability_from_row_def sample_tool_def sample_capability_def DISCOVERY_MODES_def VISIBILITIES_def CAPABILITY_TYPES_def RISK_TIERS_def)

lemma sample_tables:
  "capabilities sample_catalog = [sample_tool ''s'', sample_tool ''t'']" "identities sample_catalog = []"
  "relationship_tuples sample_catalog = []" "stores sample_catalog = []" "\<not> capguard_is_held sample_catalog c"
  by (simp_all add: sample_catalog_def empty_database_def capguard_is_held_def)

lemma sample_right:
  assumes "right \<in> {''load'', ''call''}"
  shows "access_allowed sample_runtime sample_catalog (default_principal sample_runtime) right (Some (sample_tool n)) None"
proof (rule default_visibility_allowed)
  show "\<not> guard_denies sample_runtime sample_catalog (default_principal sample_runtime) right (Some (sample_tool n)) None"
    by (rule unguardedI) (use assms in \<open>auto simp: default_principal_def sample_tables capability_blocked_def blocked_states_def
      blocked_lifecycles_def sample_tool_def sample_capability_def requires_step_up_def STEP_UP_RIGHTS_def production_environment_def
      sample_runtime_def py_strip_def py_lstrip_def py_rstrip_def py_lower_def\<close>)
qed (use assms in \<open>auto simp: store_is_org_def sample_tables\<close>)

lemma sample_resolved: "resolve_capability sample_catalog sample_params = Some (sample_tool ''s'')"
  by (simp add: resolve_capability_def sample_params_def Let_def pget_def json_or_def json_truthy_def py_str_def get_capability_def
      sample_tables sample_tool_row)

abbreviation sample_state :: conn where
  "sample_state \<equiv> sample_conn sample_catalog"

lemma sample_state [simp]: "db sample_state = sample_catalog" "cache_coherent sample_catalog (org_cache sample_state)"
  by (simp_all add: sample_conn_def)

lemma sample_can_load:
  "right \<in> {''load'', ''call''} \<Longrightarrow> fst (fst (can_load sample_runtime (sample_tool n) (default_principal sample_runtime) right b sample_state))"
  using evaluate_access_allowed(1) [of sample_state sample_runtime "default_principal sample_runtime" right "Some (sample_tool n)" None b]
  by (simp add: can_load_def sample_right del: insert_iff)

lemma sample_request: "request_principal sample_runtime sample_params = Inr (default_principal sample_runtime)"
  by (simp add: request_principal_def sample_params_def pget_def json_or_def json_truthy_def principal_from_dict_def)

lemma sample_scope: "scope \<in> {''cap:load'', ''cap:call''} \<Longrightarrow> fst (require_scope (default_principal sample_runtime) scope)"
  by (auto simp: require_scope_def default_principal_def DEFAULT_BASIC_SCOPES_def Let_def)

lemma sample_call:
  assumes "tool \<in> set TOOL_NAMES"
    "handle_tool sample_runtime sample_services tool sample_params (default_principal sample_runtime) sample_state = (Inr r, con')"
  shows "call sample_runtime sample_services tool sample_params sample_state = (Inr r, con')"
  using assms by (simp add: call_def sample_request and_then_def lift_result_def)

lemma sample_load:
  "\<exists>r con'. call sample_runtime sample_services ''cap.load'' sample_params sample_state = (Inr r, con') \<and> rs_content r = Some (utf8_decode [104, 105])"
proof -
  have "safe_file_target sample_files ''/'' ''s'' = Some [''s'']"
    by (simp add: safe_file_target_def sample_files_def below_def Let_def path_text_def path_join_def parse_path_def startswith_def)
  moreover have "str_or sample_params ''detail'' ''entrypoint'' = ''entrypoint''" by (simp add: sample_params_def)
  ultimately obtain r where r: "load_body sample_files (\<lambda>_. [104, 105]) (sample_tool ''s'') (str_or sample_params ''detail'' ''entrypoint'')
     (pget sample_params ''fileRef'') = Inr r" "rs_content r = Some (utf8_decode [104, 105])"
    using hmac_own_digest [of "[104, 105]"]
    by (auto simp: load_body_def sample_params_def pget_def json_or_def json_truthy_def py_str_def Let_def content_hash_for_target_def
      hash_and_read_content_eq read_limit_def truthy_def bind_sum_def)
  then have "cap_load sample_runtime sample_files (\<lambda>_. [104, 105]) sample_params (default_principal sample_runtime) sample_state
     = (Inr r, snd (can_load sample_runtime (sample_tool ''s'') (default_principal sample_runtime) ''load'' True sample_state))"
    using sample_can_load [of "''load''" "''s''" True] sample_scope [of "''cap:load''"]
    by (simp add: cap_load_def with_scope_cases sample_resolved case_prod_unfold Let_def)
  with r sample_call [of "''cap.load''" r] show ?thesis by (auto simp: handle_tool_def sample_services_def TOOL_NAMES_def)
qed

lemma sample_binding: "binding_of (default_principal sample_runtime) (sample_tool ''s'') \<in> runnable sample_catalog"
  by (simp add: binding_of_def runnable_def sample_catalog_def binding_matches_def default_principal_def or_else_def)

lemma sample_flags: "\<not> flag sample_params ''dryRun'' True" "flag sample_params ''confirm'' False"
  by (simp_all add: flag_def sample_params_def json_truthy_def)

lemma sample_run:
  "\<exists>r con'. call sample_runtime sample_services ''cap.call'' sample_params sample_state = (Inr r, con') \<and> \<not> rs_error r"
proof -
  let ?p = "default_principal sample_runtime"
  let ?con = "snd (can_load sample_runtime (sample_tool ''s'') ?p ''call'' True sample_state)"
  have role: "is_authoritative_node sample_runtime = Inr True"
    by (simp add: is_authoritative_node_def configured_node_role_def env_or_def sample_runtime_def py_strip_def py_lstrip_def
        py_rstrip_def py_lower_def bind_sum_def)
  have "binding_of ?p (sample_tool ''s'') \<in> runnable (db ?con)" using sample_binding by (simp add: can_load_frame)
  then obtain r con' where r: "run_call (\<lambda>cap args p con. (Inr [], con)) no_handler (sample_tool ''s'') sample_params False ?p ?con = (Inr r, con')"
    "\<not> rs_error r"
    by (auto simp: run_call_def pget_def json_truthy_def call_binding_def callable_of_def json_or_def Let_def case_prod_unfold
        binding_of_def binding_approved_iff [symmetric])
  then have "cap_call sample_runtime (\<lambda>cap args p con. (Inr [], con)) no_handler sample_params ?p sample_state = (Inr r, con')"
    using sample_can_load [of "''call''" "''s''" True] sample_scope [of "''cap:call''"] role
    by (simp add: cap_call_def with_scope_cases sample_resolved case_prod_unfold Let_def and_then_def lift_result_def sample_flags)
  with r sample_call [of "''cap.call''" r con'] show ?thesis by (auto simp: handle_tool_def sample_services_def TOOL_NAMES_def)
qed

theorem load_serves_verified_content_witness:
  "\<exists>target. content_hash_for_target sample_files (sample_tool ''s'') target None = Some (''sha256:'' @ hexdigest_bytes [104, 105])
    \<and> file_system.is_file sample_files target"
proof -
  obtain r con' where run: "call sample_runtime sample_services ''cap.load'' sample_params sample_state = (Inr r, con')"
    "rs_content r = Some (utf8_decode [104, 105])" using sample_load by blast
  have "pget sample_params ''fileRef'' = JNull" by (simp add: sample_params_def pget_def)
  with load_serves_verified_content [OF run] sample_resolved show ?thesis by (auto simp: sample_services_def json_truthy_def)
qed

theorem call_runs_approved_bindings_only_witness:
  "binding_of (default_principal sample_runtime) (sample_tool ''s'') \<in> runnable sample_catalog
    \<and> configured_node_role sample_runtime = Inr ''authoritative''"
proof -
  obtain r con' where run: "call sample_runtime sample_services ''cap.call'' sample_params sample_state = (Inr r, con')" "\<not> rs_error r"
    using sample_run by blast
  have "plain_callable (sample_tool ''s'')"
    by (simp add: plain_callable_def pget_def json_truthy_def callable_of_def json_or_def)
  with call_runs_approved_bindings_only [OF run, of "sample_tool ''s''"] sample_resolved sample_flags sample_request show ?thesis by auto
qed

text \<open>C37. Paging is complete: a client that starts without a cursor and follows nextCursor reaches the last
  page in at most as many requests as there are rows plus one, whatever page size it asks for, and the pages
  together list, in the order of the query, exactly the capabilities that are not held in quarantine and that
  the principal may load or that are discoverable as locked, each once, the latter without their description.\<close>

theorem pages_list_each_capability_once:
  assumes "cache_coherent (db con) (org_cache con)"
  shows "walk_pages (Suc (length (listed_rows ty pl (db con)))) rt p ty pl psize JNull con
    = Some (map (catalog_entry rt (db con) p) (filter (discoverable rt (db con) p) (map capability_from_row (listed_rows ty pl (db con)))))"
proof -
  have "to_int (json_or JNull (JStr ''0'')) = Inr (int 0)"
    by code_simp
  from walk_pages_from [OF assms this, of ty pl "Suc (length (listed_rows ty pl (db con)))" rt p psize] show ?thesis
    by (simp add: entries_def del: walk_pages.simps)
qed

theorem pages_list_each_capability_once_witness:
  "walk_pages 3 sample_runtime (default_principal sample_runtime) (Some ''command'') None 1 JNull sample_state
    = Some [to_record False False (sample_tool ''s''), to_record False False (sample_tool ''t'')]"
proof -
  have rows: "listed_rows (Some ''command'') None sample_catalog = [sample_tool ''s'', sample_tool ''t'']"
    by (simp add: listed_rows_def sample_tables order_by_def listing_key_def truthy_def)
  have "discoverable sample_runtime sample_catalog (default_principal sample_runtime) (sample_tool n)"
    "catalog_entry sample_runtime sample_catalog (default_principal sample_runtime) (sample_tool n) = to_record False False (sample_tool n)" for n
    by (simp_all add: discoverable_def catalog_entry_def may_load_def sample_right sample_tables)
  with pages_list_each_capability_once [of sample_state "Some ''command''" None sample_runtime "default_principal sample_runtime" 1] rows
  show ?thesis by (simp add: sample_tool_row numeral_3_eq_3 del: walk_pages.simps)
qed

section \<open>Where the code differs from what is written\<close>

text \<open>Control characters above DEL stay in the metadata, although the comment says that they go: the test
  for code points above 126 comes first.\<close>

lemma c1_controls_are_kept: "128 \<le> (of_char c :: nat) \<Longrightarrow> kept_char c"
  by (simp add: kept_char_def)

lemma control_sequence_introducer_kept: "strip_control_sequences [CHR 0x9B, CHR ''2'', CHR ''J''] = [CHR 0x9B, CHR ''2'', CHR ''J'']"
  by (simp add: strip_control_sequences_def csi_end_def osc_end_def kept_char_def)

text \<open>cap.describe answers a principal that may not load a hidden capability with its record.\<close>

lemma describe_answers_for_hidden:
  assumes "resolve_capability (db con) params = Some cap"
  shows "\<exists>data con'. cap_describe rt params p con = (Inr (ok_result (''Described '' @ c_uri cap @ ''.'') data), con')
    \<and> pget data ''title'' = JStr (c_title cap) \<and> pget data ''contentHash'' = JStr (c_content_hash cap)"
proof -
  let ?asked = "can_load rt cap p ''load'' True con"
  let ?data = "to_record (\<not> fst (fst ?asked)) (fst (fst ?asked)) cap
    @ (if \<not> fst (fst ?asked) then [(''authorization'', json_opt (snd (fst ?asked)))] else [])"
  have "cap_describe rt params p con = (Inr (ok_result (''Described '' @ c_uri cap @ ''.'') ?data), snd ?asked)"
    using assms by (simp add: cap_describe_def case_prod_unfold Let_def)
  moreover have "pget ?data ''title'' = JStr (c_title cap)" "pget ?data ''contentHash'' = JStr (c_content_hash cap)"
    by (simp_all add: to_record_def pget_def)
  ultimately show ?thesis by blast
qed

text \<open>cap.process reports a task that is not queued as processed.\<close>

lemma process_of_finished_task_succeeds:
  assumes "is_authoritative_node rt = Inr True" "fst (require_scope p ''cap:delegate'')" "pget params ''taskId'' = JStr tid"
    "tid \<noteq> []" "py_strip tid = tid" "task_status tid (or_else (Some (p_tenant_id p)) ''asg'') con = (Inr row, con')"
    "tk_status row \<notin> {''queued'', ''failed''}"
  shows "\<exists>r. cap_process rt gateway params p con = (Inr r, con') \<and> \<not> rs_error r
    \<and> rs_message r = ''Task '' @ tid @ '' processed via None.''"
  using assms
  by (auto simp: cap_process_def and_then_def lift_result_def with_scope_cases str_or_def json_or_def json_truthy_def py_str_def Let_def
      dispatch_queued_task_def get_of_def pget_def envelope_dict_def ok_result_def)

end
