(* ===== verification/Report_Receipts.thy ===== *)
theory Report_Receipts
  imports Signing Install_Admission Registry_Log
begin

text \<open>
  The receipts of the authority: those of a delegated bundle (\<^verbatim>\<open>router._signed_bundle_receipt\<close> and
  \<^verbatim>\<open>_verify_bundle_receipt\<close>) and those of a workflow report (\<^verbatim>\<open>report_receipts.py\<close>), with the validators of the
  outcomes and of the scope that a receipt is issued for.

  The signature scheme is the record of parameters of \<^verbatim>\<open>Signing\<close>, with the additional documented fact that a
  signature has 64 bytes. The random texts of the module \<^verbatim>\<open>secrets\<close> and the current second are arguments.
\<close>

section \<open>Patterns\<close>

text \<open>\<^verbatim>\<open>re.fullmatch\<close> of a prefix and a repeated character class.\<close>

definition prefixed :: "string \<Rightarrow> (char \<Rightarrow> bool) \<Rightarrow> nat \<Rightarrow> nat \<Rightarrow> string \<Rightarrow> bool" where
  "prefixed pre p lo hi s = (let tail = drop (length pre) s in
     startswith s pre \<and> list_all p tail \<and> lo \<le> length tail \<and> length tail \<le> hi)"

definition hex_lower :: "char \<Rightarrow> bool" where
  "hex_lower c = (ascii_digit c \<or> (let n = code_point c in 97 \<le> n \<and> n \<le> 102))"

definition url_char :: "char \<Rightarrow> bool" where
  "url_char c = (ascii_alpha c \<or> ascii_digit c \<or> c = CHR ''_'' \<or> c = CHR ''-'')"

definition nonce_char :: "char \<Rightarrow> bool" where
  "nonce_char c = (url_char c \<or> c = CHR ''.'' \<or> c = CHR '':'')"

definition SHA256_RE :: "string \<Rightarrow> bool" where
  "SHA256_RE = prefixed ''sha256:'' hex_lower 64 64"

definition TASK_RE :: "string \<Rightarrow> bool" where
  "TASK_RE = prefixed ''cap-task-'' hex_lower 32 32"

definition REPORT_RE :: "string \<Rightarrow> bool" where
  "REPORT_RE = prefixed ''cap-report-'' hex_lower 32 32"

definition WORKFLOW_RE :: "string \<Rightarrow> bool" where
  "WORKFLOW_RE = prefixed ''wf_'' url_char 8 120"

definition NONCE_RE :: "string \<Rightarrow> bool" where
  "NONCE_RE = prefixed [] nonce_char 8 160"

definition KEY_ID_RE :: "string \<Rightarrow> bool" where
  "KEY_ID_RE = prefixed ''ed25519:sha256:'' hex_lower 64 64"

definition SIGNATURE_RE :: "string \<Rightarrow> bool" where
  "SIGNATURE_RE = prefixed [] url_char 86 86"

definition COMMIT_RE :: "string \<Rightarrow> bool" where
  "COMMIT_RE = prefixed [] hex_lower 40 40"

definition STAGE_RE :: "string \<Rightarrow> bool" where
  "STAGE_RE s = (case s of [] \<Rightarrow> False | c # t \<Rightarrow>
     (let lower = (\<lambda>d. ascii_digit d \<or> (97 \<le> code_point d \<and> code_point d \<le> 122)) in
      lower c \<and> list_all (\<lambda>d. lower d \<or> d = CHR ''_'' \<or> d = CHR ''.'' \<or> d = CHR ''-'') t \<and> length t \<le> 63))"

section \<open>Signatures in a receipt\<close>

definition to_url :: "char \<Rightarrow> char" where
  "to_url c = (if c = CHR ''+'' then CHR ''-'' else if c = CHR ''/'' then CHR ''_'' else c)"

definition from_url :: "char \<Rightarrow> char" where
  "from_url c = (if c = CHR ''-'' then CHR ''+'' else if c = CHR ''_'' then CHR ''/'' else c)"

definition signature_text :: "nat list \<Rightarrow> string" where
  "signature_text sig = rstrip_chars ''='' (map to_url (b64encode sig))"

definition signature_bytes :: "string \<Rightarrow> nat list option" where
  "signature_bytes t = b64decode (map from_url (t @ replicate ((4 - length t mod 4) mod 4) (CHR ''='')))"

definition authority_key_id :: "nat list \<Rightarrow> string" where
  "authority_key_id public_key = ''ed25519:sha256:'' @ hexdigest_bytes public_key"

definition without_signature :: "payload \<Rightarrow> payload" where
  "without_signature r = filter (\<lambda>(k, v). k \<noteq> ''signature'') r"

definition signed_payload :: "'k signer \<Rightarrow> 'k \<Rightarrow> nat list \<Rightarrow> payload \<Rightarrow> payload" where
  "signed_payload s key domain body =
     body @ [(''signature'', JStr (signature_text (ed_sign s key (domain @ canonical_json (JObj body)))))]"

definition signature_valid :: "'k signer \<Rightarrow> nat list \<Rightarrow> nat list \<Rightarrow> string \<Rightarrow> payload \<Rightarrow> bool" where
  "signature_valid s public_key domain t r = (case signature_bytes t of None \<Rightarrow> False
     | Some sig \<Rightarrow> ed_verify s public_key sig (domain @ canonical_json (JObj (without_signature r))))"

section \<open>Receipts of a bundle\<close>

definition CAPMESH_RECEIPT_DOMAIN :: "nat list" where
  "CAPMESH_RECEIPT_DOMAIN = map of_char ''ASGCODE:capmesh_bundle_receipt.v1'' @ [0]"

record bundle_binding =
  bb_task_id :: string
  bb_workflow_id :: string
  bb_bundle_hash :: string
  bb_binding_hash :: string

definition signed_bundle_receipt :: "'k signer \<Rightarrow> 'k \<Rightarrow> string \<Rightarrow> int \<Rightarrow> bundle_binding \<Rightarrow> payload" where
  "signed_bundle_receipt s key nonce issued b = signed_payload s key CAPMESH_RECEIPT_DOMAIN
     [(''schema'', JStr ''capmesh_bundle_receipt.v1''), (''task_id'', JStr (bb_task_id b)), (''workflow_id'', JStr (bb_workflow_id b)),
      (''bundle_hash'', JStr (bb_bundle_hash b)), (''binding_hash'', JStr (bb_binding_hash b)), (''issued_at'', JInt issued),
      (''expires_at'', JInt (issued + 1800)), (''nonce'', JStr nonce), (''key_id'', JStr (authority_key_id (ed_public s key)))]"

definition BUNDLE_RECEIPT_KEYS :: "string list" where
  "BUNDLE_RECEIPT_KEYS = [''schema'', ''task_id'', ''workflow_id'', ''bundle_hash'', ''binding_hash'', ''issued_at'', ''expires_at'',
     ''nonce'', ''key_id'', ''signature'']"

text \<open>A value that \<^verbatim>\<open>isinstance(value, int)\<close> accepts; comparing any other value with a number raises.\<close>

definition int_like :: "json \<Rightarrow> int option" where
  "int_like v = (case v of JInt i \<Rightarrow> Some i | JBool b \<Rightarrow> Some (if b then 1 else 0) | _ \<Rightarrow> None)"

definition bundle_bound :: "payload \<Rightarrow> bundle_binding \<Rightarrow> int \<Rightarrow> int \<Rightarrow> int \<Rightarrow> bool" where
  "bundle_bound r b now issued expires =
     (pget r ''schema'' = JStr ''capmesh_bundle_receipt.v1'' \<and> pget r ''task_id'' = JStr (bb_task_id b)
      \<and> pget r ''workflow_id'' = JStr (bb_workflow_id b) \<and> pget r ''bundle_hash'' = JStr (bb_bundle_hash b)
      \<and> pget r ''binding_hash'' = JStr (bb_binding_hash b) \<and> issued < expires \<and> issued \<le> now + 30 \<and> now < expires
      \<and> (case pget r ''nonce'' of JStr n \<Rightarrow> NONCE_RE n | _ \<Rightarrow> False) \<and> SIGNATURE_RE (str_or r ''signature'' []))"

definition verify_bundle_receipt ::
  "'k signer \<Rightarrow> py_error + 'k \<Rightarrow> json \<Rightarrow> bundle_binding \<Rightarrow> int \<Rightarrow> py_error + unit" where
  "verify_bundle_receipt s authority receipt b now =
     (let raise = (\<lambda>what. Inl (ValueError (''upstream CapMesh authority receipt '' @ what))) in
      case receipt of
        JObj r \<Rightarrow>
          if set (map fst r) \<noteq> set BUNDLE_RECEIPT_KEYS then raise ''is not canonical''
          else (case (int_like (pget r ''issued_at''), int_like (pget r ''expires_at'')) of
              (Some issued, Some expires) \<Rightarrow>
                if \<not> bundle_bound r b now issued expires then raise ''binding is invalid''
                else bind_sum authority (\<lambda>key.
                  if pget r ''key_id'' \<noteq> JStr (authority_key_id (ed_public s key)) then raise ''key id is invalid''
                  else if signature_valid s (ed_public s key) CAPMESH_RECEIPT_DOMAIN (py_str (pget r ''signature'')) r then Inr ()
                  else raise ''signature is invalid'')
            | _ \<Rightarrow> Inl (TypeErr ''values cannot be compared with a number''))
      | _ \<Rightarrow> raise ''is not canonical'')"

section \<open>Receipts of a report\<close>

definition REPORT_RECEIPT_SCHEMA :: string where
  "REPORT_RECEIPT_SCHEMA = ''capmesh.report.receipt.v1''"

definition REPORT_RECEIPT_DOMAIN :: "nat list" where
  "REPORT_RECEIPT_DOMAIN = map of_char ''ASGCODE:capmesh_report_receipt.v1'' @ [0]"

definition REPORT_PROVENANCE :: string where
  "REPORT_PROVENANCE = ''https://capmesh.asg.ts.net/tools/call#cap.report''"

definition REPORT_RECEIPT_KEYS :: "string list" where
  "REPORT_RECEIPT_KEYS = [''schema'', ''authoritative'', ''event'', ''taskId'', ''agentUri'', ''bundleDigest'', ''capabilityBindingDigest'',
     ''outcomeDigest'', ''outcomeStatus'', ''workflowId'', ''repo'', ''worktree'', ''baseCommit'', ''upstreamDelegationId'', ''reportId'',
     ''acceptedAt'', ''provenance'', ''issued_at'', ''expires_at'', ''nonce'', ''key_id'', ''signature'']"

definition OUTCOMES :: "string list" where
  "OUTCOMES = [''OK'', ''NEED_HELP'', ''BLOCKED'', ''FAILED_VERIFY'', ''INFRA_DOWN'', ''POLICY_DENIED'']"

text \<open>\<^verbatim>\<open>value in {...}\<close>: a list or a dictionary has no hash.\<close>

definition member_of :: "json \<Rightarrow> string list \<Rightarrow> py_error + bool" where
  "member_of v xs = (case v of JList _ \<Rightarrow> Inl (TypeErr ''unhashable type: list'') | JObj _ \<Rightarrow> Inl (TypeErr ''unhashable type: dict'')
     | _ \<Rightarrow> Inr (list_ex (\<lambda>x. v = JStr x) xs))"

definition nonempty_text :: "json \<Rightarrow> bool" where
  "nonempty_text v = (case v of JStr t \<Rightarrow> t \<noteq> [] | _ \<Rightarrow> False)"

definition is_text :: "json \<Rightarrow> bool" where
  "is_text v = (case v of JStr _ \<Rightarrow> True | _ \<Rightarrow> False)"

definition report_bound :: "payload \<Rightarrow> bool" where
  "report_bound r =
     (pget r ''schema'' = JStr REPORT_RECEIPT_SCHEMA \<and> pget r ''authoritative'' = JBool True
      \<and> pget r ''event'' = JStr ''asgcode.workflow.stage'' \<and> pget r ''provenance'' = JStr REPORT_PROVENANCE
      \<and> TASK_RE (str_or r ''taskId'' []) \<and> startswith (str_or r ''agentUri'' []) ''cap://''
      \<and> SHA256_RE (str_or r ''bundleDigest'' []) \<and> SHA256_RE (str_or r ''capabilityBindingDigest'' [])
      \<and> SHA256_RE (str_or r ''outcomeDigest'' []) \<and> WORKFLOW_RE (str_or r ''workflowId'' [])
      \<and> nonempty_text (pget r ''repo'') \<and> is_text (pget r ''worktree'') \<and> COMMIT_RE (str_or r ''baseCommit'' [])
      \<and> TASK_RE (str_or r ''upstreamDelegationId'' []) \<and> REPORT_RE (str_or r ''reportId'' [])
      \<and> nonempty_text (pget r ''acceptedAt'') \<and> NONCE_RE (str_or r ''nonce'' []) \<and> KEY_ID_RE (str_or r ''key_id'' [])
      \<and> SIGNATURE_RE (str_or r ''signature'' []))"

definition validate_unsigned :: "payload \<Rightarrow> int \<Rightarrow> bool \<Rightarrow> py_error + unit" where
  "validate_unsigned r now require_fresh =
     (if set (map fst r) \<noteq> set REPORT_RECEIPT_KEYS then Inl (ValueError ''report receipt fields are not canonical'')
      else bind_sum (member_of (pget r ''outcomeStatus'') OUTCOMES) (\<lambda>known.
        if \<not> (report_bound r \<and> known) then Inl (ValueError ''report receipt binding is malformed'')
        else (case (pget r ''issued_at'', pget r ''expires_at'') of
            (JInt issued, JInt expires) \<Rightarrow>
              if expires \<le> issued \<or> 86400 < expires - issued then Inl (ValueError ''report receipt validity interval is malformed'')
              else if require_fresh \<and> (now + 30 < issued \<or> expires \<le> now)
              then Inl (ValueError ''report receipt is expired or from the future'') else Inr ()
          | _ \<Rightarrow> Inl (ValueError ''report receipt validity interval is malformed''))))"

definition verify_report_receipt :: "'k signer \<Rightarrow> payload \<Rightarrow> nat list \<Rightarrow> int \<Rightarrow> bool \<Rightarrow> py_error + payload" where
  "verify_report_receipt s r public_key now require_fresh =
     bind_sum (validate_unsigned r now require_fresh) (\<lambda>_.
       if pget r ''key_id'' \<noteq> JStr (authority_key_id public_key) then Inl (ValueError ''report receipt key_id mismatch'')
       else (case pget r ''signature'' of
           JStr t \<Rightarrow> if signature_valid s public_key REPORT_RECEIPT_DOMAIN t r then Inr r
             else Inl (ValueError ''report receipt signature is invalid'')
         | _ \<Rightarrow> Inl (ValueError ''report receipt signature is invalid'')))"

record report_request =
  wr_task_id :: string
  wr_agent_uri :: string
  wr_bundle_digest :: string
  wr_capability_binding_digest :: string
  wr_outcome_digest :: string
  wr_outcome_status :: string
  wr_workflow_id :: string
  wr_repo :: string
  wr_worktree :: string
  wr_base_commit :: string
  wr_upstream_delegation_id :: string

text \<open>\<^verbatim>\<open>datetime.fromtimestamp(issued_at, UTC)\<close> raises outside the years 1 to 9999. A second before 1970 is written
  through the calendar 2000 years later, which is the same one: the calendar repeats every 400 years, that is every
  12622780800 seconds.\<close>

definition timestamp_text :: "int \<Rightarrow> string" where
  "timestamp_text issued = (if 0 \<le> issued then utc_text (nat issued)
     else (let c = civil_of_seconds (nat (issued + 5 * 12622780800)) in date_text (CHR ''T'') (c\<lparr>cv_year := cv_year c - 2000\<rparr>) @ ''Z''))"

definition accepted_at :: "int \<Rightarrow> py_error + string" where
  "accepted_at issued = (if issued < - 62135596800 \<or> 253402300799 < issued then Inl (ValueError ''year is out of range'')
     else Inr (timestamp_text issued))"

definition unsigned_report :: "string \<Rightarrow> string \<Rightarrow> string \<Rightarrow> string \<Rightarrow> int \<Rightarrow> int \<Rightarrow> report_request \<Rightarrow> payload" where
  "unsigned_report key_text token nonce accepted issued ttl q =
     [(''schema'', JStr REPORT_RECEIPT_SCHEMA), (''authoritative'', JBool True), (''event'', JStr ''asgcode.workflow.stage''),
      (''taskId'', JStr (wr_task_id q)), (''agentUri'', JStr (wr_agent_uri q)), (''bundleDigest'', JStr (wr_bundle_digest q)),
      (''capabilityBindingDigest'', JStr (wr_capability_binding_digest q)), (''outcomeDigest'', JStr (wr_outcome_digest q)),
      (''outcomeStatus'', JStr (wr_outcome_status q)), (''workflowId'', JStr (wr_workflow_id q)), (''repo'', JStr (wr_repo q)),
      (''worktree'', JStr (wr_worktree q)), (''baseCommit'', JStr (wr_base_commit q)),
      (''upstreamDelegationId'', JStr (wr_upstream_delegation_id q)), (''reportId'', JStr (''cap-report-'' @ token)),
      (''acceptedAt'', JStr accepted), (''provenance'', JStr REPORT_PROVENANCE), (''issued_at'', JInt issued),
      (''expires_at'', JInt (issued + ttl)), (''nonce'', JStr nonce), (''key_id'', JStr key_text)]"

definition issue_report_receipt ::
  "'k signer \<Rightarrow> 'k \<Rightarrow> string \<Rightarrow> string \<Rightarrow> int \<Rightarrow> int \<Rightarrow> report_request \<Rightarrow> py_error + payload" where
  "issue_report_receipt s key token nonce issued ttl q =
     (if \<not> (1 \<le> ttl \<and> ttl \<le> 86400) then Inl (ValueError ''report receipt ttl must be 1..86400 seconds'')
      else bind_sum (accepted_at issued) (\<lambda>accepted. verify_report_receipt s (signed_payload s key REPORT_RECEIPT_DOMAIN
          (unsigned_report (authority_key_id (ed_public s key)) token nonce accepted issued ttl q)) (ed_public s key) issued True))"

text \<open>\<^verbatim>\<open>audit.utc_now\<close> writes the zone as an offset.\<close>

definition offset_text :: "nat \<Rightarrow> string" where
  "offset_text seconds = butlast (utc_text seconds) @ ''+00:00''"

text \<open>The receipt of an advisory report (\<^verbatim>\<open>router._signed_advisory_report_receipt\<close>).\<close>

definition signed_advisory_report_receipt ::
  "'k signer \<Rightarrow> 'k \<Rightarrow> string \<Rightarrow> string \<Rightarrow> int \<Rightarrow> string \<Rightarrow> report_request \<Rightarrow> payload" where
  "signed_advisory_report_receipt s key uuid nonce issued event q = signed_payload s key REPORT_RECEIPT_DOMAIN
     [(''schema'', JStr ''capmesh.report.receipt.v1''), (''reportId'', JStr (''cap-report-'' @ uuid)), (''authoritative'', JBool True),
      (''authorization'', JStr ''advisory-audit-only''), (''event'', JStr event), (''taskId'', JStr (wr_task_id q)),
      (''agentUri'', JStr (wr_agent_uri q)), (''bundleDigest'', JStr (wr_bundle_digest q)),
      (''capabilityBindingDigest'', JStr (wr_capability_binding_digest q)), (''outcomeDigest'', JStr (wr_outcome_digest q)),
      (''outcomeStatus'', JStr (wr_outcome_status q)), (''acceptedAt'', JStr (offset_text (nat issued))),
      (''provenance'', JStr REPORT_PROVENANCE), (''issued_at'', JInt issued), (''expires_at'', JInt (issued + 1800)),
      (''nonce'', JStr nonce), (''key_id'', JStr (authority_key_id (ed_public s key)))]"

section \<open>Outcomes\<close>

definition text_between :: "nat \<Rightarrow> nat \<Rightarrow> json \<Rightarrow> bool" where
  "text_between lo hi v = (case v of JStr t \<Rightarrow> lo \<le> length t \<and> length t \<le> hi | _ \<Rightarrow> False)"

fun valid_evidence :: "json list \<Rightarrow> py_error + bool \<times> string" where
  "valid_evidence [] = Inr (True, [])"
| "valid_evidence (JObj item # items) =
     (if set (map fst item) \<noteq> {''kind'', ''ref'', ''digest''} then Inr (False, ''outcome evidence item is not canonical'')
      else bind_sum (member_of (pget item ''kind'') [''log'', ''test'', ''patch'', ''capmesh'', ''audit'', ''benchmark'']) (\<lambda>known.
        if \<not> known then Inr (False, ''outcome evidence kind is invalid'')
        else if \<not> nonempty_text (pget item ''ref'') then Inr (False, ''outcome evidence ref is invalid'')
        else if \<not> SHA256_RE (str_or item ''digest'' []) then Inr (False, ''outcome evidence digest is invalid'')
        else valid_evidence items))"
| "valid_evidence (_ # items) = Inr (False, ''outcome evidence item is not canonical'')"

definition TITRATION_REQUIRED :: "string list" where
  "TITRATION_REQUIRED = [''schema'', ''workflow_id'', ''stage_id'', ''attempts'', ''status'', ''summary'', ''evidence'']"

definition TITRATION_OPTIONAL :: "string list" where
  "TITRATION_OPTIONAL = [''files_changed'', ''unmet_capability'', ''blocker'', ''requested_assistance'', ''risks'']"

definition titration_fields :: "payload \<Rightarrow> py_error + bool \<times> string" where
  "titration_fields r =
     (if \<not> (case int_like (pget r ''attempts'') of None \<Rightarrow> False | Some n \<Rightarrow> 1 \<le> n \<and> n \<le> 3)
      then Inr (False, ''outcome attempts must be 1..3'')
      else if \<not> text_between 1 128 (pget r ''workflow_id'') then Inr (False, ''outcome workflow_id is invalid'')
      else if \<not> STAGE_RE (str_or r ''stage_id'' []) then Inr (False, ''outcome stage_id is invalid'')
      else if \<not> text_between 1 8000 (pget r ''summary'') then Inr (False, ''outcome summary is invalid'')
      else (case pget r ''evidence'' of
          JList items \<Rightarrow> bind_sum (valid_evidence items) (\<lambda>(ok, why).
            Inr (if \<not> ok then (False, why)
              else if pget r ''status'' = JStr ''BLOCKED'' \<and> json_truthy (pget r ''requested_assistance'')
              then (False, ''BLOCKED outcomes cannot request assistance'') else (True, [])))
        | _ \<Rightarrow> Inr (False, ''outcome evidence must be an array'')))"

definition valid_titration_outcome :: "json \<Rightarrow> py_error + bool \<times> string" where
  "valid_titration_outcome outcome = (case outcome of
     JObj r \<Rightarrow>
       if \<not> set (map fst r) \<subseteq> set (TITRATION_REQUIRED @ TITRATION_OPTIONAL) \<or> \<not> set TITRATION_REQUIRED \<subseteq> set (map fst r)
       then Inr (False, ''canonical asgcode.outcome.v2 fields are required'')
       else if pget r ''schema'' \<noteq> JStr ''asgcode.outcome.v2'' then Inr (False, ''canonical asgcode.outcome.v2 status is required'')
       else bind_sum (member_of (pget r ''status'') OUTCOMES) (\<lambda>known.
         if \<not> known then Inr (False, ''canonical asgcode.outcome.v2 status is required'') else titration_fields r)
   | _ \<Rightarrow> Inr (False, ''canonical asgcode.outcome.v2 fields are required''))"

definition STAGE_KEYS :: "string list" where
  "STAGE_KEYS = [''schema'', ''workflow_id'', ''stage_id'', ''attempt'', ''status'', ''task_id'', ''bundle_id'', ''routing'', ''coverage'', ''benchmark'']"

definition stage_bound :: "payload \<Rightarrow> string \<Rightarrow> string \<Rightarrow> bool \<Rightarrow> bool" where
  "stage_bound r task_id workflow_id known =
     (pget r ''schema'' = JStr ''asgcode.capmesh-stage-report.v2'' \<and> pget r ''workflow_id'' = JStr workflow_id
      \<and> pget r ''task_id'' = JStr task_id \<and> known
      \<and> (case pget r ''attempt'' of JInt n \<Rightarrow> 1 \<le> n \<and> n \<le> 3 | _ \<Rightarrow> False)
      \<and> STAGE_RE (str_or r ''stage_id'' []) \<and> text_between 1 160 (pget r ''bundle_id''))"

definition stage_routing :: "json \<Rightarrow> bool" where
  "stage_routing v = (case v of JObj r \<Rightarrow> set (map fst r) = {''role'', ''mode''}
     \<and> text_between 1 64 (pget r ''role'') \<and> text_between 1 64 (pget r ''mode'') | _ \<Rightarrow> False)"

definition stage_coverage :: "json \<Rightarrow> bool" where
  "stage_coverage v = (case v of JObj r \<Rightarrow> set (map fst r) = {''capability_bundle'', ''deterministic_evidence_items''}
     \<and> pget r ''capability_bundle'' = JBool True
     \<and> (case pget r ''deterministic_evidence_items'' of JInt n \<Rightarrow> 0 \<le> n \<and> n \<le> 10000 | _ \<Rightarrow> False) | _ \<Rightarrow> False)"

definition stage_benchmark :: "json \<Rightarrow> json \<Rightarrow> bool" where
  "stage_benchmark status v = (case v of JObj r \<Rightarrow> set (map fst r) = {''verified'', ''tests''}
     \<and> pget r ''verified'' = JBool (status = JStr ''OK'')
     \<and> (case pget r ''tests'' of JList ts \<Rightarrow> length ts \<le> 10000 | _ \<Rightarrow> False) | _ \<Rightarrow> False)"

definition valid_workflow_stage_outcome :: "json \<Rightarrow> string \<Rightarrow> string \<Rightarrow> py_error + bool \<times> string" where
  "valid_workflow_stage_outcome outcome task_id workflow_id = (case outcome of
     JObj r \<Rightarrow>
       if set (map fst r) \<noteq> set STAGE_KEYS then Inr (False, ''canonical asgcode.capmesh-stage-report.v2 fields are required'')
       else bind_sum (member_of (pget r ''status'') OUTCOMES) (\<lambda>known. Inr
         (if \<not> stage_bound r task_id workflow_id known then (False, ''workflow stage outcome binding is invalid'')
          else if \<not> stage_routing (pget r ''routing'') then (False, ''workflow stage routing evidence is invalid'')
          else if \<not> stage_coverage (pget r ''coverage'') then (False, ''workflow stage coverage evidence is invalid'')
          else if \<not> stage_benchmark (pget r ''status'') (pget r ''benchmark'') then (False, ''workflow stage benchmark evidence is invalid'')
          else (True, [])))
   | _ \<Rightarrow> Inr (False, ''canonical asgcode.capmesh-stage-report.v2 fields are required''))"

section \<open>The scope of a delegation\<close>

definition plain_item :: "string \<Rightarrow> bool" where
  "plain_item t = (t \<noteq> [] \<and> length t \<le> 4096 \<and> py_strip t = t \<and> char_of (0 :: nat) \<notin> set t \<and> char_of (92 :: nat) \<notin> set t
     \<and> \<not> (case t of c # d # _ \<Rightarrow> ascii_alpha c \<and> d = CHR '':'' | _ \<Rightarrow> False))"

definition canonical_item :: "string \<Rightarrow> bool" where
  "canonical_item t = (let path = parse_path t in
     \<not> fst path \<and> path_text path = t \<and> list_all (\<lambda>part. part \<noteq> [] \<and> part \<noteq> ''.'' \<and> part \<noteq> ''..'') (snd path) \<and> t \<noteq> ''**'')"

fun scope_items :: "string list \<Rightarrow> json list \<Rightarrow> bool" where
  "scope_items seen [] = True"
| "scope_items seen (JStr t # items) = (plain_item t \<and> canonical_item t \<and> t \<notin> set seen \<and> scope_items (t # seen) items)"
| "scope_items seen (_ # items) = False"

definition canonical_scope_files :: "json \<Rightarrow> json list option" where
  "canonical_scope_files v = (case v of
     JList xs \<Rightarrow> if xs = [] \<or> 256 < length xs then None else if xs = [JStr ''**''] then Some xs
       else if scope_items [] xs then Some xs else None
   | _ \<Rightarrow> None)"

section \<open>A signature survives its text\<close>

text \<open>The documented law of Ed25519 beside those of \<^verbatim>\<open>Signing\<close>: a signature has 64 bytes.\<close>

definition signature_size_ok :: "'k signer \<Rightarrow> bool" where
  "signature_size_ok s = (\<forall>k m. length (ed_sign s k m) = 64)"

definition b64_alphabet :: "char \<Rightarrow> bool" where
  "b64_alphabet c = (ascii_alpha c \<or> ascii_digit c \<or> c = CHR ''+'' \<or> c = CHR ''/'')"

lemma b64_char_alphabet: "b64_alphabet (b64_char n)"
proof -
  have "n mod 64 < 64" by simp
  then consider "n mod 64 < 26" | "26 \<le> n mod 64" "n mod 64 < 52" | "52 \<le> n mod 64" "n mod 64 < 62" | "n mod 64 = 62" | "n mod 64 = 63"
    by linarith
  moreover have "char_of (43 :: nat) = CHR ''+''" "char_of (47 :: nat) = CHR ''/''" by code_simp+
  ultimately show ?thesis by cases (auto simp: b64_alphabet_def b64_char_def ascii_alpha_def ascii_digit_def Let_def)
qed

lemma b64encode_one_over:
  "length bs mod 3 = 1 \<Longrightarrow> \<exists>t. b64encode bs = t @ ''=='' \<and> list_all b64_alphabet t \<and> length t = 4 * (length bs div 3) + 2"
proof (induction bs rule: b64encode.induct)
  case (4 a b c r)
  then have "length r mod 3 = 1" by (simp add: mod_Suc split: if_splits)
  with 4 obtain t where t: "b64encode r = t @ ''==''" "list_all b64_alphabet t" "length t = 4 * (length r div 3) + 2" by blast
  have "length (a # b # c # r) div 3 = Suc (length r div 3)" by simp
  with t b64_char_alphabet show ?case
    by (intro exI [of _ "[b64_char (a div 4), b64_char (a * 16 + b div 16), b64_char (b * 4 + c div 64), b64_char c] @ t"]) simp
qed (auto simp: b64_char_alphabet)

lemma url_alphabet:
  assumes "b64_alphabet c"
  shows "from_url (to_url c) = c" "url_char (to_url c)" "to_url c \<noteq> CHR ''=''"
  using assms by (auto simp: b64_alphabet_def from_url_def to_url_def url_char_def ascii_alpha_def ascii_digit_def Let_def)

lemma signature_text_roundtrip:
  assumes "length sig = 64" "list_all (\<lambda>b. b < 256) sig"
  shows "signature_bytes (signature_text sig) = Some sig" "SIGNATURE_RE (signature_text sig)"
proof -
  obtain t where t: "b64encode sig = t @ ''==''" "list_all b64_alphabet t" "length t = 86"
    using b64encode_one_over [of sig] assms(1) by auto
  have keep: "rstrip_chars ''='' (map to_url t @ ''=='') = map to_url t"
    using t(2) url_alphabet(3) by (cases t rule: rev_cases) (auto simp: rstrip_chars_def)
  have written: "signature_text sig = map to_url t"
    using keep by (simp add: signature_text_def t(1) to_url_def [of "CHR ''=''"])
  have "map from_url (map to_url t) = t" using t(2) by (induction t) (auto simp: url_alphabet)
  then show "signature_bytes (signature_text sig) = Some sig"
    using b64_roundtrip [OF assms(2)] t by (simp add: written signature_bytes_def from_url_def [of "CHR ''=''"] numeral_2_eq_2)
  show "SIGNATURE_RE (signature_text sig)"
    using t(2,3) url_alphabet(2) by (auto simp: written SIGNATURE_RE_def prefixed_def startswith_def list_all_iff)
qed

definition receipt_signer_ok :: "'k signer \<Rightarrow> bool" where
  "receipt_signer_ok s = (signer_ok s \<and> signature_size_ok s)"

lemma own_signature:
  assumes "receipt_signer_ok s"
  shows "signature_bytes (signature_text (ed_sign s key m)) = Some (ed_sign s key m)" "SIGNATURE_RE (signature_text (ed_sign s key m))"
  using assms signature_text_roundtrip [of "ed_sign s key m"] by (auto simp: receipt_signer_ok_def signer_ok_def signature_size_ok_def)

lemma signed_payload_valid:
  assumes "receipt_signer_ok s" "list_all (\<lambda>kv. fst kv \<noteq> ''signature'') body"
  shows "signature_valid s (ed_public s key) domain (signature_text (ed_sign s key (domain @ canonical_json (JObj body))))
    (signed_payload s key domain body)"
proof -
  have "filter (\<lambda>(k, v). k \<noteq> ''signature'') body = body"
    using assms(2) by (auto simp: list_all_iff intro!: filter_True)
  then have "without_signature (signed_payload s key domain body) = body"
    by (simp add: without_signature_def signed_payload_def)
  with assms(1) show ?thesis by (simp add: signature_valid_def own_signature receipt_signer_ok_def signer_ok_def)
qed

lemma hex_digest_shape: "list_all hex_lower (hexdigest_bytes m)" "length (hexdigest_bytes m) = 64"
proof -
  have digit: "hex_lower (hex_digit n)" if "n < 16" for n
    using that by (auto simp: hex_digit_def hex_lower_def ascii_digit_def Let_def)
  have "b div 16 < 16" if "b \<in> set (sha256_bytes m)" for b
    using sha256_bytes_less [OF that] by (simp add: div_less_iff_less_mult)
  then show "list_all hex_lower (hexdigest_bytes m)"
    using digit by (auto simp: hexdigest_bytes_def list_all_iff hex_byte_def)
  have "length (sha256_words m) = 8" by (simp add: sha256_words_def Let_def length_foldl_compress sha_h0_def)
  then have "length (sha256_bytes m) = 32" by (simp add: sha256_bytes_def length_concat_const [where k = 4] word_bytes_def)
  then show "length (hexdigest_bytes m) = 64" by (simp add: hexdigest_bytes_def length_concat_const [where k = 2] hex_byte_def)
qed

lemma own_key_id: "KEY_ID_RE (authority_key_id k)"
  using hex_digest_shape [of k] by (simp add: KEY_ID_RE_def prefixed_def authority_key_id_def startswith_def)

lemma authority_key_id_neq_Nil [simp]: "authority_key_id k \<noteq> []"
  by (simp add: authority_key_id_def)

section \<open>What a receipt proves\<close>

text \<open>C38. A receipt of the authority binds its delegation: the receipt that _signed_bundle_receipt makes is
  accepted for a task, workflow, bundle and binding exactly when they are the ones it was made for and the clock
  is from 30 seconds before its issue up to its expiry 1800 seconds later; a node with another authority key
  refuses it even then.\<close>

theorem bundle_receipt_binds:
  assumes ok: "receipt_signer_ok s" and nonce: "NONCE_RE nonce"
  shows "verify_bundle_receipt s (Inr key) (JObj (signed_bundle_receipt s key nonce issued b)) b' now
      = (if b' = b \<and> issued \<le> now + 30 \<and> now < issued + 1800 then Inr ()
         else Inl (ValueError ''upstream CapMesh authority receipt binding is invalid''))
    \<and> (authority_key_id (ed_public s other) \<noteq> authority_key_id (ed_public s key)
      \<longrightarrow> verify_bundle_receipt s (Inr other) (JObj (signed_bundle_receipt s key nonce issued b)) b' now \<noteq> Inr ())"
proof -
  let ?r = "signed_bundle_receipt s key nonce issued b"
  obtain sig where r: "?r = [(''schema'', JStr ''capmesh_bundle_receipt.v1''), (''task_id'', JStr (bb_task_id b)),
      (''workflow_id'', JStr (bb_workflow_id b)), (''bundle_hash'', JStr (bb_bundle_hash b)), (''binding_hash'', JStr (bb_binding_hash b)),
      (''issued_at'', JInt issued), (''expires_at'', JInt (issued + 1800)), (''nonce'', JStr nonce),
      (''key_id'', JStr (authority_key_id (ed_public s key))), (''signature'', JStr sig)]"
    and sig: "signature_valid s (ed_public s key) CAPMESH_RECEIPT_DOMAIN sig ?r" "SIGNATURE_RE sig"
    using signed_payload_valid [OF ok, of "butlast ?r" key CAPMESH_RECEIPT_DOMAIN] own_signature [OF ok]
    unfolding signed_bundle_receipt_def by (simp add: signed_payload_def butlast_append)
  have fields: "set (map fst ?r) = set BUNDLE_RECEIPT_KEYS" "int_like (pget ?r ''issued_at'') = Some issued"
    "int_like (pget ?r ''expires_at'') = Some (issued + 1800)" "pget ?r ''key_id'' = JStr (authority_key_id (ed_public s key))"
    "py_str (pget ?r ''signature'') = sig"
    by (simp_all add: r BUNDLE_RECEIPT_KEYS_def pget_def int_like_def py_str_def)
  have "sig \<noteq> []" using sig(2) by (auto simp: SIGNATURE_RE_def prefixed_def)
  moreover have "b' = b \<longleftrightarrow> bb_task_id b = bb_task_id b' \<and> bb_workflow_id b = bb_workflow_id b' \<and> bb_bundle_hash b = bb_bundle_hash b'
      \<and> bb_binding_hash b = bb_binding_hash b'"
    by (auto intro: bundle_binding.equality)
  ultimately have bound: "bundle_bound ?r b' now issued (issued + 1800) \<longleftrightarrow> b' = b \<and> issued \<le> now + 30 \<and> now < issued + 1800"
    using nonce sig(2) unfolding bundle_bound_def r by (auto simp: pget_def str_or_def json_or_def json_truthy_def py_str_def)
  show ?thesis
    unfolding verify_bundle_receipt_def Let_def json.case fields prod.case option.case bound bind_sum_def sum.case using sig(1) by simp
qed

definition well_formed_report :: "string \<Rightarrow> string \<Rightarrow> report_request \<Rightarrow> bool" where
  "well_formed_report token nonce q =
     (TASK_RE (wr_task_id q) \<and> startswith (wr_agent_uri q) ''cap://'' \<and> SHA256_RE (wr_bundle_digest q)
      \<and> SHA256_RE (wr_capability_binding_digest q) \<and> SHA256_RE (wr_outcome_digest q) \<and> wr_outcome_status q \<in> set OUTCOMES
      \<and> WORKFLOW_RE (wr_workflow_id q) \<and> wr_repo q \<noteq> [] \<and> COMMIT_RE (wr_base_commit q) \<and> TASK_RE (wr_upstream_delegation_id q)
      \<and> REPORT_RE (''cap-report-'' @ token) \<and> NONCE_RE nonce)"

lemma str_or_text: "map_of r k = Some (JStr t) \<Longrightarrow> str_or r k [] = t"
  by (simp add: str_or_def pget_def json_or_def json_truthy_def py_str_def)

definition report_receipt :: "'k signer \<Rightarrow> 'k \<Rightarrow> string \<Rightarrow> string \<Rightarrow> int \<Rightarrow> int \<Rightarrow> report_request \<Rightarrow> payload" where
  "report_receipt s key token nonce issued ttl q = signed_payload s key REPORT_RECEIPT_DOMAIN
     (unsigned_report (authority_key_id (ed_public s key)) token nonce (timestamp_text issued) issued ttl q)"

lemma report_receipt_field:
  assumes "(k, v) \<in> set (unsigned_report (authority_key_id (ed_public s key)) token nonce (timestamp_text issued) issued ttl q)"
  shows "map_of (report_receipt s key token nonce issued ttl q) k = Some v"
proof -
  have "distinct (map fst (unsigned_report (authority_key_id (ed_public s key)) token nonce (timestamp_text issued) issued ttl q))"
    by (simp add: unsigned_report_def)
  from map_of_is_SomeI [OF this assms] show ?thesis by (simp add: report_receipt_def signed_payload_def map_add_def)
qed

lemma report_receipt_shape:
  assumes "receipt_signer_ok s"
  shows "set (map fst (report_receipt s key token nonce issued ttl q)) = set REPORT_RECEIPT_KEYS"
    and "\<exists>sig. pget (report_receipt s key token nonce issued ttl q) ''signature'' = JStr sig \<and> SIGNATURE_RE sig
      \<and> signature_valid s (ed_public s key) REPORT_RECEIPT_DOMAIN sig (report_receipt s key token nonce issued ttl q)"
proof -
  let ?body = "unsigned_report (authority_key_id (ed_public s key)) token nonce (timestamp_text issued) issued ttl q"
  show "set (map fst (report_receipt s key token nonce issued ttl q)) = set REPORT_RECEIPT_KEYS"
    by (simp add: report_receipt_def signed_payload_def unsigned_report_def REPORT_RECEIPT_KEYS_def insert_commute)
  have none: "list_all (\<lambda>kv. fst kv \<noteq> ''signature'') ?body" by (simp add: unsigned_report_def)
  then have "map_of ?body ''signature'' = None" by (auto simp: list_all_iff map_of_eq_None_iff)
  then have "pget (report_receipt s key token nonce issued ttl q) ''signature''
      = JStr (signature_text (ed_sign s key (REPORT_RECEIPT_DOMAIN @ canonical_json (JObj ?body))))"
    by (simp add: report_receipt_def signed_payload_def pget_def map_add_def)
  with signed_payload_valid [OF assms none] own_signature(2) [OF assms]
  show "\<exists>sig. pget (report_receipt s key token nonce issued ttl q) ''signature'' = JStr sig \<and> SIGNATURE_RE sig
      \<and> signature_valid s (ed_public s key) REPORT_RECEIPT_DOMAIN sig (report_receipt s key token nonce issued ttl q)"
    by (auto simp: report_receipt_def)
qed

lemma report_receipt_bound:
  assumes "receipt_signer_ok s"
  shows "report_bound (report_receipt s key token nonce issued ttl q) \<and> wr_outcome_status q \<in> set OUTCOMES \<longleftrightarrow> well_formed_report token nonce q"
proof -
  let ?r = "report_receipt s key token nonce issued ttl q"
  note field = report_receipt_field [of _ _ s key token nonce issued ttl q]
  have text_field: "str_or ?r k [] = t" "pget ?r k = JStr t"
    if "(k, JStr t) \<in> set (unsigned_report (authority_key_id (ed_public s key)) token nonce (timestamp_text issued) issued ttl q)" for k t
    using field [OF that] by (simp_all add: str_or_text pget_def)
  have "pget ?r ''authoritative'' = JBool True" using field [of "''authoritative''" "JBool True"] by (simp add: pget_def unsigned_report_def)
  moreover have "SIGNATURE_RE (str_or ?r ''signature'' [])"
    using report_receipt_shape(2) [OF assms, of key token nonce issued ttl q]
    by (auto simp: str_or_def json_or_def json_truthy_def py_str_def SIGNATURE_RE_def prefixed_def)
  moreover have "timestamp_text issued \<noteq> []" by (simp add: timestamp_text_def utc_text_def Let_def)
  ultimately show ?thesis
    unfolding report_bound_def well_formed_report_def
    by (auto simp: text_field unsigned_report_def own_key_id nonempty_text_def is_text_def)
qed

text \<open>C39. Issuing and verifying a report receipt agree: for a well-formed request issue_report_receipt returns a
  receipt exactly when the time to live is between 1 and 86400 seconds and the clock is in the years 1 to 9999; the receipt carries every field of the
  request, and verify_report_receipt accepts it exactly from 30 seconds before its issue up to its expiry, and
  at any time when freshness is not asked for. Under a key with another identifier it is refused.\<close>

theorem report_receipt_roundtrip:
  assumes ok: "receipt_signer_ok s"
  shows "issue_report_receipt s key token nonce issued ttl q =
      (if ttl < 1 \<or> 86400 < ttl then Inl (ValueError ''report receipt ttl must be 1..86400 seconds'')
       else if issued < - 62135596800 \<or> 253402300799 < issued then Inl (ValueError ''year is out of range'')
       else if \<not> well_formed_report token nonce q then Inl (ValueError ''report receipt binding is malformed'')
       else Inr (report_receipt s key token nonce issued ttl q))
    \<and> (1 \<le> ttl \<and> ttl \<le> 86400 \<and> well_formed_report token nonce q \<longrightarrow>
        verify_report_receipt s (report_receipt s key token nonce issued ttl q) (ed_public s key) now fresh =
          (if fresh \<and> (now + 30 < issued \<or> issued + ttl \<le> now) then Inl (ValueError ''report receipt is expired or from the future'')
           else Inr (report_receipt s key token nonce issued ttl q)))
    \<and> (authority_key_id other \<noteq> authority_key_id (ed_public s key) \<longrightarrow>
        verify_report_receipt s (report_receipt s key token nonce issued ttl q) other now fresh \<noteq> Inr v)"
proof -
  let ?r = "report_receipt s key token nonce issued ttl q"
  note field = report_receipt_field [of _ _ s key token nonce issued ttl q]
  have vals: "pget ?r ''outcomeStatus'' = JStr (wr_outcome_status q)" "pget ?r ''issued_at'' = JInt issued"
    "pget ?r ''expires_at'' = JInt (issued + ttl)" "pget ?r ''key_id'' = JStr (authority_key_id (ed_public s key))"
    by (simp_all add: pget_def field unsigned_report_def)
  have known: "member_of (JStr x) OUTCOMES = Inr (x \<in> set OUTCOMES)" for x
    by (auto simp: member_of_def list_ex_iff)
  have valid: "validate_unsigned ?r now' fresh' = (if \<not> well_formed_report token nonce q then Inl (ValueError ''report receipt binding is malformed'')
      else if ttl < 1 \<or> 86400 < ttl then Inl (ValueError ''report receipt validity interval is malformed'')
      else if fresh' \<and> (now' + 30 < issued \<or> issued + ttl \<le> now') then Inl (ValueError ''report receipt is expired or from the future'')
      else Inr ())" for now' fresh'
    unfolding validate_unsigned_def report_receipt_shape(1) [OF ok] vals known bind_sum_def sum.case
    using report_receipt_bound [OF ok, of key token nonce issued ttl q] by (auto simp: not_less)
  obtain sig where sig: "pget ?r ''signature'' = JStr sig" "signature_valid s (ed_public s key) REPORT_RECEIPT_DOMAIN sig ?r"
    using report_receipt_shape(2) [OF ok] by blast
  have verify: "verify_report_receipt s ?r (ed_public s key) now' fresh' = bind_sum (validate_unsigned ?r now' fresh') (\<lambda>_. Inr ?r)" for now' fresh'
    by (simp add: verify_report_receipt_def vals sig)
  have "verify_report_receipt s ?r other now fresh \<noteq> Inr v" if "authority_key_id other \<noteq> authority_key_id (ed_public s key)"
    using that by (auto simp: verify_report_receipt_def vals bind_sum_def split: sum.splits)
  moreover have "issue_report_receipt s key token nonce issued ttl q =
      (if ttl < 1 \<or> 86400 < ttl then Inl (ValueError ''report receipt ttl must be 1..86400 seconds'')
       else if issued < - 62135596800 \<or> 253402300799 < issued then Inl (ValueError ''year is out of range'')
       else if \<not> well_formed_report token nonce q then Inl (ValueError ''report receipt binding is malformed'') else Inr ?r)"
    using verify [of issued True] valid [of issued True]
    by (simp add: issue_report_receipt_def report_receipt_def accepted_at_def bind_sum_def not_le)
  ultimately show ?thesis by (auto simp: verify valid bind_sum_def)
qed

text \<open>An advisory receipt is signed by the same key in the same domain, but its fields are not those of a
  report receipt, so it is never accepted as one.\<close>

lemma advisory_receipt_grants_nothing:
  "verify_report_receipt s (signed_advisory_report_receipt s key uuid nonce issued event q) public_key now fresh
     = Inl (ValueError ''report receipt fields are not canonical'')"
proof -
  have "''repo'' \<in> set REPORT_RECEIPT_KEYS" by (simp add: REPORT_RECEIPT_KEYS_def)
  moreover have "''repo'' \<notin> set (map fst (signed_advisory_report_receipt s key uuid nonce issued event q))"
    by (simp add: signed_advisory_report_receipt_def signed_payload_def)
  ultimately have "set (map fst (signed_advisory_report_receipt s key uuid nonce issued event q)) \<noteq> set REPORT_RECEIPT_KEYS" by blast
  then show ?thesis by (simp add: verify_report_receipt_def validate_unsigned_def bind_sum_def)
qed

section \<open>Witnesses\<close>

definition sample_authority :: "nat signer" where
  "sample_authority = \<lparr>key_file = Inr (Some 1), generated = 1, ed_public = (\<lambda>k. replicate 32 (k mod 256)), ed_sign = (\<lambda>k m. replicate 64 (k mod 256)),
     ed_verify = (\<lambda>pk sig m. sig = pk @ pk)\<rparr>"

lemma sample_authority_ok: "receipt_signer_ok sample_authority"
  by (simp add: receipt_signer_ok_def signer_ok_def signature_size_ok_def sample_authority_def list_all_iff replicate_add [symmetric])

definition sample_binding_of_task :: bundle_binding where
  "sample_binding_of_task = \<lparr>bb_task_id = ''cap-task-1'', bb_workflow_id = ''wf_12345678'', bb_bundle_hash = ''b'', bb_binding_hash = ''h''\<rparr>"

theorem bundle_receipt_binds_witness:
  "verify_bundle_receipt sample_authority (Inr 1) (JObj (signed_bundle_receipt sample_authority 1 ''abcdefgh'' 1000 sample_binding_of_task))
     sample_binding_of_task 2799 = Inr ()
   \<and> verify_bundle_receipt sample_authority (Inr 1) (JObj (signed_bundle_receipt sample_authority 1 ''abcdefgh'' 1000 sample_binding_of_task))
     sample_binding_of_task 2800 = Inl (ValueError ''upstream CapMesh authority receipt binding is invalid'')"
proof -
  have nonce: "NONCE_RE ''abcdefgh''" by code_simp
  show ?thesis
    using bundle_receipt_binds [OF sample_authority_ok nonce, of 1 1000 sample_binding_of_task sample_binding_of_task 2799]
      bundle_receipt_binds [OF sample_authority_ok nonce, of 1 1000 sample_binding_of_task sample_binding_of_task 2800] by simp
qed

definition sample_report :: report_request where
  "sample_report = \<lparr>wr_task_id = ''cap-task-'' @ replicate 32 (CHR ''0''), wr_agent_uri = ''cap://a'', wr_bundle_digest = ''sha256:'' @ replicate 64 (CHR ''1''),
     wr_capability_binding_digest = ''sha256:'' @ replicate 64 (CHR ''2''), wr_outcome_digest = ''sha256:'' @ replicate 64 (CHR ''3''),
     wr_outcome_status = ''OK'', wr_workflow_id = ''wf_12345678'', wr_repo = ''r'', wr_worktree = [], wr_base_commit = replicate 40 (CHR ''a''),
     wr_upstream_delegation_id = ''cap-task-'' @ replicate 32 (CHR ''4'')\<rparr>"

theorem report_receipt_roundtrip_witness:
  "issue_report_receipt sample_authority 1 (replicate 32 (CHR ''5'')) ''abcdefgh'' 1000 60 sample_report
     = Inr (report_receipt sample_authority 1 (replicate 32 (CHR ''5'')) ''abcdefgh'' 1000 60 sample_report)
   \<and> verify_report_receipt sample_authority (report_receipt sample_authority 1 (replicate 32 (CHR ''5'')) ''abcdefgh'' 1000 60 sample_report)
       (replicate 32 1) 1060 True = Inl (ValueError ''report receipt is expired or from the future'')"
proof -
  have "well_formed_report (replicate 32 (CHR ''5'')) ''abcdefgh'' sample_report" by code_simp
  moreover have "ed_public sample_authority 1 = replicate 32 1" by (simp add: sample_authority_def)
  ultimately show ?thesis
    using report_receipt_roundtrip [OF sample_authority_ok, of 1 "replicate 32 (CHR ''5'')" "''abcdefgh''" 1000 60 sample_report 1060 True] by simp
qed

section \<open>The scope stays inside the repository\<close>

lemma scope_items_spec:
  "scope_items seen xs \<Longrightarrow> \<exists>ts. xs = map JStr ts \<and> distinct ts \<and> set ts \<inter> set seen = {} \<and> list_all (\<lambda>t. plain_item t \<and> canonical_item t) ts"
proof (induction seen xs rule: scope_items.induct)
  case (2 seen t items)
  then obtain ts where "items = map JStr ts" "distinct ts" "set ts \<inter> set (t # seen) = {}" "list_all (\<lambda>t. plain_item t \<and> canonical_item t) ts"
    by auto
  with 2 show ?case by (intro exI [of _ "t # ts"]) auto
qed auto

text \<open>An accepted list of files names distinct relative paths in normal form without a parent segment.\<close>

lemma canonical_scope_inside:
  assumes "canonical_scope_files v = Some xs" "xs \<noteq> [JStr ''**'']"
  shows "\<exists>ts. v = JList (map JStr ts) \<and> xs = map JStr ts \<and> distinct ts \<and> 1 \<le> length ts \<and> length ts \<le> 256
    \<and> list_all (\<lambda>t. \<not> fst (parse_path t) \<and> path_text (parse_path t) = t \<and> ''..'' \<notin> set (snd (parse_path t))) ts"
proof -
  from assms obtain ys where v: "v = JList ys" "xs = ys" "scope_items [] ys" "ys \<noteq> []" "length ys \<le> 256"
    by (auto simp: canonical_scope_files_def split: json.splits if_splits)
  from scope_items_spec [OF v(3)] obtain ts where ts: "ys = map JStr ts" "distinct ts" "list_all (\<lambda>t. plain_item t \<and> canonical_item t) ts" by auto
  have "list_all (\<lambda>t. \<not> fst (parse_path t) \<and> path_text (parse_path t) = t \<and> ''..'' \<notin> set (snd (parse_path t))) ts"
    using ts(3) by (auto simp: list_all_iff canonical_item_def Let_def)
  with v ts show ?thesis by (intro exI [of _ ts]) (auto simp: Suc_le_eq)
qed

text \<open>The whole repository can also be named by a single dot, which has no segment to refuse.\<close>

lemma dot_is_canonical: "canonical_scope_files (JList [JStr ''.'']) = Some [JStr ''.'']"
  by code_simp

text \<open>A Boolean counts as a number of attempts.\<close>

lemma boolean_attempts_accepted:
  "valid_titration_outcome (JObj [(''schema'', JStr ''asgcode.outcome.v2''), (''workflow_id'', JStr ''w''), (''stage_id'', JStr ''s''),
     (''attempts'', JBool True), (''status'', JStr ''OK''), (''summary'', JStr ''done''), (''evidence'', JList [])]) = Inr (True, [])"
  by code_simp

end
