(* ===== verification/Draft_Editing.thy ===== *)
theory Draft_Editing
  imports Catalog_Ingest Request_Router Promotions Stores_Shares
begin

text \<open>
  The editing of drafts (\<^verbatim>\<open>governance.py\<close>, \<^verbatim>\<open>manage_capability\<close> and the operations it chooses from): creation,
  update, comparison, validation, private publication and the preparation of a pull request.

  The state is the connection with the files of the state directory, a map from normalized paths to
  texts; writing a file succeeds. The lines of a comparison are left out of its answer.
\<close>

section \<open>State\<close>

type_synonym desk = "conn \<times> (string \<rightharpoonup> string)"

definition on_conn :: "(conn \<Rightarrow> (conn, 'a) outcome) \<Rightarrow> desk \<Rightarrow> (desk, 'a) outcome" where
  "on_conn f desk = (case f (fst desk) of (r, con) \<Rightarrow> (r, (con, snd desk)))"

definition write_text :: "string \<Rightarrow> string \<Rightarrow> desk \<Rightarrow> desk" where
  "write_text path t desk = (fst desk, (snd desk)(path \<mapsto> t))"

definition read_text :: "string \<Rightarrow> desk \<Rightarrow> py_error + string" where
  "read_text path desk = (case snd desk path of None \<Rightarrow> Inl (FileNotFoundErr (''No such file or directory: '' @ path)) | Some t \<Rightarrow> Inr t)"

section \<open>Checks\<close>

definition validate_capability_payload :: "unicode \<Rightarrow> payload \<Rightarrow> string \<Rightarrow> payload" where
  "validate_capability_payload u payload content =
     (let given = (\<lambda>k. py_strip (str_or payload k []) \<noteq> []);
          found = scan_prompt_injection u (codes content);
          checks = [(''hasName'', given ''name''), (''hasTitle'', given ''title''), (''hasDescription'', given ''description''),
            (''hasContent'', py_strip content \<noteq> []), (''riskTierKnown'', str_or payload ''riskTier'' ''low'' \<in> set RISK_TIERS),
            (''promptInjectionScan'', found = [])]
      in [(''valid'', JBool (list_all snd checks)), (''checks'', JObj (map (\<lambda>(k, b). (k, JBool b)) checks)),
          (''warnings'', JList (if found = [] then []
             else [JStr (''Potential prompt-injection wording found: '' @ join_with '', '' found)]))])"

definition safe_entrypoint :: "string \<Rightarrow> py_error + string" where
  "safe_entrypoint v = (let path = parse_path v in
     if fst path \<or> ''..'' \<in> set (snd path) then Inl (ValueError ''entrypoint must be a relative path inside the draft package.'')
     else Inr (path_text path))"

definition edit_key :: "payload \<Rightarrow> string" where
  "edit_key payload = py_str (json_or (pget payload ''capabilityUri'') (json_or (pget payload ''uri'') (json_or (pget payload ''name'') (JStr []))))"

definition require_capability_for_edit :: "runtime \<Rightarrow> principal \<Rightarrow> payload \<Rightarrow> string \<Rightarrow> conn \<Rightarrow> (conn, capability) outcome" where
  "require_capability_for_edit rt p payload right con =
     (let key = edit_key payload in
      if key = [] then (Inl (ValueError ''capabilityUri is required.''), con)
      else case get_capability (db con) key of
        None \<Rightarrow> (Inl (ValueError ''Capability not found.''), con)
      | Some cap \<Rightarrow> require_access (evaluate_access rt p right (Some cap) None True) (\<lambda>con1.
          if right = ''manage'' \<and> c_approval_state cap = ''approved'' \<and> \<not> truthy (c_store_id cap)
          then (Inl (PermissionError ''Approved capabilities must be edited through prepare-pr.''), con1) else (Inr cap, con1)) con)"

section \<open>Operations\<close>

definition capability_template :: json where
  "capability_template = JObj
     [(''required'', JList (map JStr [''name'', ''title'', ''description'', ''content''])),
      (''optional'', JList (map JStr [''type'', ''version'', ''plugin'', ''category'', ''keywords'', ''riskTier'', ''entrypoint'', ''namespaceId'', ''storeId''])),
      (''defaults'', JObj [(''type'', JStr ''workflow''), (''version'', JStr ''0.1.0''), (''riskTier'', JStr ''low''), (''entrypoint'', JStr ''CAPABILITY.md'')]),
      (''actions'', JList (map JStr [''draft.create'', ''draft.update'', ''draft.diff'', ''validate'', ''publish-private'', ''share'', ''submit'', ''prepare-pr''])),
      (''notes'', JList (map JStr
        [''Private/shared draft edits are stored in the capmesh state directory and audited.'',
         ''Org namespace promotion must go through submit/approve and Git-backed review.'',
         ''On the authoritative node, a superadmin create is approved immediately when every mandatory gate passes; no second approval is requested.'']))]"

definition content_digest :: "string \<Rightarrow> string" where
  "content_digest t = ''sha256:'' @ sha256_hex t"

definition keywords_of :: "payload \<Rightarrow> string list \<Rightarrow> py_error + string list" where
  "keywords_of payload dflt = (if json_truthy (pget payload ''keywords'')
     then bind_sum (iterate (pget payload ''keywords'')) (\<lambda>xs. Inr (map py_str xs)) else Inr dflt)"

text \<open>The target of a new draft: its store, with the right to manage an organization or system store, and later its namespace.\<close>

definition draft_store :: "runtime \<Rightarrow> principal \<Rightarrow> string \<Rightarrow> conn \<Rightarrow> (conn, unit) outcome" where
  "draft_store rt p store_id con =
     (case find (\<lambda>s. st_id s = store_id \<and> st_tenant s = tenant_of rt p) (stores (db con)) of
        None \<Rightarrow> (Inl (ValueError ''Target store not found.''), con)
      | Some s \<Rightarrow> if st_kind s \<in> {''org'', ''system''}
          then require_access (evaluate_access rt p ''manage'' None (Some (''store:'' @ store_id)) True) (\<lambda>con. (Inr (), con)) con
          else (Inr (), con))"

definition draft_capability ::
  "runtime \<Rightarrow> file_system \<Rightarrow> unicode \<Rightarrow> principal \<Rightarrow> payload \<Rightarrow> string \<Rightarrow> string \<Rightarrow> string \<Rightarrow> string \<Rightarrow> namespace_row \<Rightarrow> py_error + capability" where
  "draft_capability rt fs u p payload store_id draft_dir entrypoint ctype ns =
     (let name = slug (str_or payload ''name'' []); content = str_or payload ''content'' [];
          version = normalize_version (str_or payload ''version'' ''0.1.0'');
          uri = str_or payload ''uri'' (rstrip_chars ''/'' (ns_uri_prefix ns) @ ''/'' @ ctype @ ''/'' @ name @ ''@'' @ version) in
      bind_sum (keywords_of payload [name]) (\<lambda>keywords.
      bind_sum (capability_post_init \<lparr>c_uri = uri, c_type = ctype, c_name = name, c_version = version,
          c_title = py_strip (str_or payload ''title'' []), c_description = py_strip (str_or payload ''description'' []),
          c_package_path = normalize_path fs draft_dir, c_entrypoint = entrypoint,
          c_source_path = normalize_path fs (draft_dir @ ''/'' @ entrypoint), c_source_kind = ''capmesh_draft'', c_source_system = ''capmesh.system'',
          c_canonical_key = ctype @ '':capmesh-draft:'' @ tenant_of rt p @ '':'' @ p_subject p @ '':'' @ name @ '':'' @ version,
          c_content_hash = content_digest content, c_visibility = str_or payload ''visibility'' ''protected'',
          c_discovery_mode = str_or payload ''discoveryMode'' ''hidden'', c_owner = p_subject p, c_plugin = None, c_category = None,
          c_keywords = keywords, c_required_scopes = [], c_allow_groups = [], c_allow_users = [],
          c_risk_tier = str_or payload ''riskTier'' ''low'', c_mutating = False, c_lifecycle = ''draft'', c_tenant_id = tenant_of rt p,
          c_store_id = Some store_id, c_namespace_id = Some (ns_id ns), c_created_by = Some (p_subject p), c_submitted_by = None,
          c_promoted_from_uri = None, c_approval_state = ''draft'', c_share_state = ''not_shared'', c_signature_status = ''unchecked'',
          c_provenance_status = ''unchecked'', c_risk_review_status = ''pending'',
          c_metadata = [(''draft'', JBool True), (''editable'', JBool True), (''source'', JStr ''system.capabilities''),
            (''validation'', JObj (validate_capability_payload u payload content))],
          c_source_commit = None, c_license = None, c_row_id = 0\<rparr>) (\<lambda>c.
      bind_sum (bind_text (pget payload ''plugin'')) (\<lambda>plugin. bind_sum (bind_text (pget payload ''category'')) (\<lambda>category.
        Inr (c\<lparr>c_plugin := plugin, c_category := category\<rparr>))))))"

definition draft_audit :: "runtime \<Rightarrow> principal \<Rightarrow> string \<Rightarrow> string \<Rightarrow> string \<Rightarrow> payload \<Rightarrow> conn \<Rightarrow> conn" where
  "draft_audit rt p event uri action payload con =
     commit (snd (audit_event rt event (p_subject p) (Some uri) (Some action) (Some ''allow'') None payload (tenant_of rt p) ''user'' con))"

definition store_draft :: "runtime \<Rightarrow> file_system \<Rightarrow> principal \<Rightarrow> string \<Rightarrow> string \<Rightarrow> payload \<Rightarrow> capability \<Rightarrow> conn \<Rightarrow> (conn, json) outcome" where
  "store_draft rt fs p event action details cap con =
     and_then (upsert_capability rt fs cap con) (\<lambda>_ con1.
       (Inr (JObj [(''capability'', JObj (to_record False True cap)), (''validation'', pget (c_metadata cap) ''validation'')]),
        draft_audit rt p event (c_uri cap) action details con1))"

definition create_capability_draft ::
  "runtime \<Rightarrow> file_system \<Rightarrow> unicode \<Rightarrow> string \<Rightarrow> principal \<Rightarrow> payload \<Rightarrow> desk \<Rightarrow> (desk, json) outcome" where
  "create_capability_draft rt fs u state_dir p payload desk =
     and_then (on_conn (ensure_identity_for_principal rt p) desk) (\<lambda>identity_id desk.
       let tenant_id = tenant_of rt p; name = slug (str_or payload ''name'' []); content = str_or payload ''content'' [];
           ctype = py_str (json_or (pget payload ''type'') (json_or (pget payload ''capabilityType'') (JStr ''workflow''))) in
       if name = [] \<or> py_strip (str_or payload ''title'' []) = [] \<or> py_strip (str_or payload ''description'' []) = [] \<or> content = []
       then (Inl (ValueError ''name, title, description, and content are required.''), desk)
       else if ctype \<notin> set CAPABILITY_TYPES then (Inl (ValueError ''Unsupported capability type.''), desk)
       else
         let store_id = str_or payload ''storeId'' (stable_id ''store'' [tenant_id, ''user_private'', identity_id]);
             namespace_id = str_or payload ''namespaceId'' (stable_id ''ns'' [tenant_id, store_id, ''personal'']) in
         and_then (on_conn (draft_store rt p store_id) desk) (\<lambda>_ desk.
         and_then (lift_result (safe_entrypoint (str_or payload ''entrypoint'' ''CAPABILITY.md'')) desk) (\<lambda>entrypoint desk.
           let draft_id = stable_id ''capdraft'' [tenant_id, p_subject p, ctype, name, str_or payload ''version'' ''0.1.0''];
               draft_dir = state_dir @ ''/drafts/'' @ draft_id;
               desk = write_text (normalize_path fs (draft_dir @ ''/'' @ entrypoint)) content desk in
           case find (\<lambda>n. ns_id n = namespace_id \<and> ns_tenant n = tenant_id) (namespaces (db (fst desk))) of
             None \<Rightarrow> (Inl (ValueError ''Target namespace not found.''), desk)
           | Some ns \<Rightarrow>
               and_then (lift_result (draft_capability rt fs u p payload store_id draft_dir entrypoint ctype ns) desk) (\<lambda>cap desk.
                 on_conn (store_draft rt fs p ''capability.draft.created'' ''draft.create'' [(''name'', JStr name)] cap) desk))))"

definition updated_draft :: "unicode \<Rightarrow> payload \<Rightarrow> string \<Rightarrow> capability \<Rightarrow> py_error + capability" where
  "updated_draft u payload content cap =
     bind_sum (keywords_of payload (c_keywords cap)) (\<lambda>keywords.
       capability_post_init (cap\<lparr>c_title := str_or payload ''title'' (c_title cap), c_description := str_or payload ''description'' (c_description cap),
         c_keywords := keywords, c_risk_tier := str_or payload ''riskTier'' (c_risk_tier cap), c_content_hash := content_digest content,
         c_metadata := dict_set ''validation'' (JObj (validate_capability_payload u
           [(''name'', json_or (pget payload ''name'') (JStr (c_name cap))), (''title'', json_or (pget payload ''title'') (JStr (c_title cap))),
            (''description'', json_or (pget payload ''description'') (JStr (c_description cap))),
            (''riskTier'', json_or (pget payload ''riskTier'') (JStr (c_risk_tier cap)))] content)) (c_metadata cap)\<rparr>))"

definition update_capability_draft ::
  "runtime \<Rightarrow> file_system \<Rightarrow> unicode \<Rightarrow> principal \<Rightarrow> payload \<Rightarrow> desk \<Rightarrow> (desk, json) outcome" where
  "update_capability_draft rt fs u p payload desk =
     and_then (on_conn (require_capability_for_edit rt p payload ''manage'') desk) (\<lambda>cap desk.
     and_then (lift_result (if json_truthy (pget payload ''content'') then Inr (py_str (pget payload ''content''))
         else read_text (normalize_path fs (c_source_path cap)) desk) desk) (\<lambda>content desk.
       let desk = (if pget payload ''content'' \<noteq> JNull then write_text (normalize_path fs (c_source_path cap)) content desk else desk) in
       and_then (lift_result (updated_draft u payload content cap) desk) (\<lambda>updated desk.
         on_conn (store_draft rt fs p ''capability.draft.updated'' ''draft.update'' [] updated) desk)))"

definition own_fields :: "capability \<Rightarrow> payload" where
  "own_fields cap = [(''name'', JStr (c_name cap)), (''title'', JStr (c_title cap)), (''description'', JStr (c_description cap)),
     (''riskTier'', JStr (c_risk_tier cap))]"

definition diff_capability_draft :: "runtime \<Rightarrow> file_system \<Rightarrow> principal \<Rightarrow> payload \<Rightarrow> desk \<Rightarrow> (desk, json) outcome" where
  "diff_capability_draft rt fs p payload desk =
     and_then (on_conn (require_capability_for_edit rt p payload ''load'') desk) (\<lambda>cap desk.
     and_then (lift_result (read_text (normalize_path fs (c_source_path cap)) desk) desk) (\<lambda>current desk.
       (Inr (JObj [(''capabilityUri'', JStr (c_uri cap)), (''changed'', JBool (current \<noteq> str_or payload ''content'' current))]), desk)))"

definition validate_capability_draft :: "runtime \<Rightarrow> file_system \<Rightarrow> unicode \<Rightarrow> principal \<Rightarrow> payload \<Rightarrow> desk \<Rightarrow> (desk, json) outcome" where
  "validate_capability_draft rt fs u p payload desk =
     and_then (on_conn (require_capability_for_edit rt p payload ''load'') desk) (\<lambda>cap desk.
     and_then (lift_result (read_text (normalize_path fs (c_source_path cap)) desk) desk) (\<lambda>content desk.
       (Inr (JObj ((''capabilityUri'', JStr (c_uri cap)) # validate_capability_payload u (own_fields cap) content)), desk)))"

definition publish_private_capability :: "runtime \<Rightarrow> principal \<Rightarrow> payload \<Rightarrow> conn \<Rightarrow> (conn, json) outcome" where
  "publish_private_capability rt p payload con =
     and_then (require_capability_for_edit rt p payload ''manage'' con) (\<lambda>cap con.
       (Inr (JObj [(''capabilityUri'', JStr (c_uri cap)), (''lifecycle'', JStr ''published''), (''approvalState'', JStr ''draft'')]),
        draft_audit rt p ''capability.private.published'' (c_uri cap) ''publish-private'' []
          (with_db (\<lambda>d. d\<lparr>capabilities := update_where (\<lambda>r. c_uri r = c_uri cap)
             (\<lambda>r. r\<lparr>c_lifecycle := ''published'', c_approval_state := ''draft''\<rparr>) (capabilities d)\<rparr>) con)))"

definition prepare_capability_pr ::
  "runtime \<Rightarrow> file_system \<Rightarrow> unicode \<Rightarrow> string \<Rightarrow> principal \<Rightarrow> payload \<Rightarrow> desk \<Rightarrow> (desk, json) outcome" where
  "prepare_capability_pr rt fs u state_dir p payload desk =
     and_then (on_conn (require_capability_for_edit rt p payload ''submit'') desk) (\<lambda>cap desk.
     and_then (lift_result (read_text (normalize_path fs (c_source_path cap)) desk) desk) (\<lambda>content desk.
       let artifact = state_dir @ ''/pr-prep/'' @ stable_id ''prprep'' [c_uri cap] @ ''.json'';
           data = [(''capabilityUri'', JStr (c_uri cap)), (''title'', JStr (str_or payload ''title'' (''Promote '' @ c_name cap))),
             (''branch'', JStr (str_or payload ''branch'' (''capmesh/'' @ slug (c_name cap)))), (''sourcePath'', JStr (c_source_path cap)),
             (''packagePath'', JStr (c_package_path cap)), (''requestedBy'', JStr (p_subject p)),
             (''checks'', JObj (validate_capability_payload u (own_fields cap) content)),
             (''nextCommands'', JList (map JStr [''Create a git branch from this artifact.'', ''Add/update the source capability files.'',
               ''Run capmesh ingest, tests, retrieval evals, and submit the PR for governed review.'']))];
           desk = write_text (normalize_path fs artifact) (json_dumps (JObj data)) desk in
       (Inr (JObj ((''artifact'', JStr artifact) # data)),
        (draft_audit rt p ''capability.pr.prepared'' (c_uri cap) ''prepare-pr'' [(''artifact'', JStr artifact)] (fst desk), snd desk))))"

definition manage_capability ::
  "runtime \<Rightarrow> file_system \<Rightarrow> unicode \<Rightarrow> string \<Rightarrow> principal \<Rightarrow> payload \<Rightarrow> desk \<Rightarrow> (desk, json) outcome" where
  "manage_capability rt fs u state_dir p args desk =
     (let action = str_or args ''action'' ''template'' in
      if action = ''template'' then (Inr capability_template, desk)
      else if action \<in> {''draft.create'', ''create''} then create_capability_draft rt fs u state_dir p args desk
      else if action \<in> {''draft.update'', ''update''} then update_capability_draft rt fs u p args desk
      else if action \<in> {''draft.diff'', ''diff''} then diff_capability_draft rt fs p args desk
      else if action \<in> {''validate'', ''draft.validate''} then validate_capability_draft rt fs u p args desk
      else if action \<in> {''publish-private'', ''draft.publish-private''} then on_conn (publish_private_capability rt p args) desk
      else if action = ''share'' then on_conn (create_share rt p args) desk
      else if action = ''submit'' then on_conn (submit_promotion rt p args) desk
      else if action \<in> {''prepare-pr'', ''git.pr.prepare''} then prepare_capability_pr rt fs u state_dir p args desk
      else (Inl (ValueError (''Unsupported capability action: '' @ action)), desk))"

section \<open>Edits are confined\<close>

lemma on_conn_eq: "on_conn f desk = (r, desk') \<longleftrightarrow> f (fst desk) = (r, fst desk') \<and> snd desk' = snd desk"
  by (cases "f (fst desk)"; cases desk') (auto simp: on_conn_def)

lemma get_capability_row:
  assumes "get_capability d key = Some cap"
  shows "\<exists>r \<in> set (capabilities d). cap = capability_from_row r" "\<not> capguard_is_held d cap"
  using assms find_SomeD by (fastforce simp: get_capability_def Let_def split: option.splits if_splits)+

lemma require_capability_for_edit_ok:
  assumes "require_capability_for_edit rt p payload right con = (Inr cap, con')" "cache_coherent (db con) (org_cache con)"
  shows "get_capability (db con) (edit_key payload) = Some cap" "access_allowed rt (db con) p right (Some cap) None"
    "capabilities (db con') = capabilities (db con)" "durable con' = durable con"
    "right = ''manage'' \<Longrightarrow> c_approval_state cap = ''approved'' \<Longrightarrow> truthy (c_store_id cap)"
proof -
  let ?ask = "evaluate_access rt p right (Some cap) None True con"
  have key: "get_capability (db con) (edit_key payload) = Some cap" and asked: "fst (fst ?ask)" "con' = snd ?ask"
    and store: "right = ''manage'' \<Longrightarrow> c_approval_state cap = ''approved'' \<Longrightarrow> truthy (c_store_id cap)"
    using assms(1)
    by (auto simp: require_capability_for_edit_def Let_def require_access_def case_prod_unfold split: if_splits option.splits)
  then show "get_capability (db con) (edit_key payload) = Some cap" "access_allowed rt (db con) p right (Some cap) None"
    using evaluate_access_allowed(1) [OF assms(2)] by auto
  show "capabilities (db con') = capabilities (db con)"
    using arg_cong [OF gate.gate_frame [of rt p right "Some cap" None True con], of capabilities] by (simp add: asked unaudited_def)
  show "durable con' = durable con" by (simp add: asked)
  show "right = ''manage'' \<Longrightarrow> c_approval_state cap = ''approved'' \<Longrightarrow> truthy (c_store_id cap)" by (rule store)
qed

text \<open>Every approved row was approved before, with the same content.\<close>

definition approvals_from :: "database \<Rightarrow> database \<Rightarrow> bool" where
  "approvals_from d d' = (\<forall>r \<in> set (capabilities d'). c_approval_state r = ''approved'' \<longrightarrow>
     (\<exists>r0 \<in> set (capabilities d). c_uri r0 = c_uri r \<and> c_content_hash r0 = c_content_hash r \<and> c_approval_state r0 = ''approved''))"

lemma upsert_row_approvals:
  assumes run: "upsert_row cap d = Inr d'" and uris: "distinct (map c_uri (capabilities d))"
    and known: "c_approval_state cap = ''approved'' \<Longrightarrow> \<exists>r \<in> set (capabilities d). c_uri r = c_uri cap \<and> c_approval_state r = ''approved''"
  shows "approvals_from d d'"
proof (cases "find (\<lambda>r. c_uri r = c_uri cap) (capabilities d)")
  case None
  then have "c_approval_state cap \<noteq> ''approved''" using known by (auto simp: find_None_iff)
  with None run show ?thesis by (auto simp: upsert_row_def approvals_from_def split: if_splits)
next
  case (Some row)
  then have row: "row \<in> set (capabilities d)" "c_uri row = c_uri cap" by (auto dest: find_SomeD)
  have same: "r = row" if "r \<in> set (capabilities d)" "c_uri r = c_uri cap" for r
    using that row uris by (auto simp: distinct_map inj_on_def)
  have merged: "c_content_hash (merge_row row cap) = c_content_hash row \<and> c_approval_state row = ''approved''"
    if "c_approval_state (merge_row row cap) = ''approved''"
    using that known same by (auto simp: merge_row_def Let_def downgrade_def split: if_splits)
  have uri: "c_uri (merge_row row cap) = c_uri cap" by (simp add: merge_row_def Let_def)
  have "r \<in> set (capabilities d) \<or> r = merge_row row cap" if "r \<in> set (capabilities d')" for r
    using that run Some same by (auto simp: upsert_row_def update_where_def split: if_splits)
  with merged uri row show ?thesis unfolding approvals_from_def by metis
qed

lemma default_namespace_key: "c_canonical_key (apply_default_user_namespace rt c) = c_canonical_key c"
proof -
  have "c_canonical_key (c\<lparr>c_uri := u, c_tenant_id := t, c_store_id := st, c_namespace_id := n, c_visibility := v,
      c_discovery_mode := dm, c_owner := w, c_created_by := b, c_approval_state := a, c_lifecycle := l, c_metadata := m\<rparr>) = c_canonical_key c"
    "c_canonical_key (c\<lparr>c_tenant_id := t\<rparr>) = c_canonical_key c" for u t st n v dm w b a l m
    by simp_all
  then show ?thesis by (simp only: apply_default_user_namespace_def Let_def if_distrib [of c_canonical_key] if_cancel)
qed

text \<open>An upsert of a capability whose canonical key is already in the catalog writes at most the row that has
  it: at another address the unique key refuses it.\<close>

lemma update_where_at:
  assumes "\<And>r. c_uri r = u \<Longrightarrow> c_uri (f r) = u"
  shows "filter (\<lambda>r. c_uri r \<noteq> u) (update_where (\<lambda>r. c_uri r = u) f t) = filter (\<lambda>r. c_uri r \<noteq> u) t"
    "map c_uri (update_where (\<lambda>r. c_uri r = u) f t) = map c_uri t"
  using assms by (induction t) (simp_all add: update_where_Cons)

lemma upsert_row_known_key:
  assumes run: "upsert_row cap d = Inr d'" and row: "row \<in> set (capabilities d)" "c_canonical_key row = c_canonical_key cap"
  shows "map c_uri (capabilities d') = map c_uri (capabilities d)
    \<and> filter (\<lambda>r. c_uri r \<noteq> c_uri row) (capabilities d') = filter (\<lambda>r. c_uri r \<noteq> c_uri row) (capabilities d)"
proof -
  have uri: "c_uri (merge_row r cap) = c_uri cap" for r by (simp add: merge_row_def Let_def)
  consider "d' = d" | "c_uri row = c_uri cap" "capabilities d' = update_where (\<lambda>r. c_uri r = c_uri cap) (\<lambda>r. merge_row r cap) (capabilities d)"
  proof (cases "find (\<lambda>r. c_uri r = c_uri cap) (capabilities d)")
    case None
    then have False using run row by (simp add: upsert_row_def list_ex_iff split: if_splits)
    then show thesis by simp
  next
    case (Some old)
    let ?taken = "list_ex (\<lambda>r. c_uri r \<noteq> c_uri cap \<and> c_canonical_key r = c_canonical_key cap) (capabilities d)"
    have here: "c_uri row = c_uri cap" if "\<not> ?taken" using that row by (auto simp: list_ex_iff)
    show thesis
    proof (cases "row_differs old cap")
      case False
      with Some run show thesis by (intro that(1)) (simp add: upsert_row_def split: if_split_asm)
    next
      case True
      with Some run have "\<not> ?taken" "d' = d\<lparr>capabilities := update_where (\<lambda>r. c_uri r = c_uri cap) (\<lambda>r. merge_row r cap) (capabilities d)\<rparr>"
        by (simp_all add: upsert_row_def split: if_split_asm)
      with here show thesis by (intro that(2)) simp_all
    qed
  qed
  then show ?thesis
  proof cases
    case 2
    then show ?thesis using update_where_at [of "c_uri cap" "\<lambda>r. merge_row r cap"] uri by simp
  qed simp
qed

lemma upsert_capability_confined:
  assumes run: "upsert_capability rt fs cap con = (Inr n, con')" and uris: "distinct (map c_uri (capabilities (db con)))"
    and known: "c_approval_state cap = ''approved'' \<Longrightarrow> \<exists>r \<in> set (capabilities (db con)). c_uri r = c_uri cap \<and> c_approval_state r = ''approved''"
  shows "approvals_from (db con) (db con')"
    and "\<And>row. row \<in> set (capabilities (db con)) \<Longrightarrow> c_canonical_key row = c_canonical_key cap \<Longrightarrow>
      map c_uri (capabilities (db con')) = map c_uri (capabilities (db con))
      \<and> filter (\<lambda>r. c_uri r \<noteq> c_uri row) (capabilities (db con')) = filter (\<lambda>r. c_uri r \<noteq> c_uri row) (capabilities (db con))"
proof -
  let ?c = "clamp_lifecycle (db con) (apply_default_user_namespace rt cap)"
  obtain d where d: "upsert_row ?c (db con) = Inr d" "capabilities (db con') = capabilities d"
    using run by (auto simp: upsert_capability_def Let_def and_then_eq_Inr lift_result_eq_Inr split: sum.splits option.splits)
  have c: "c_uri ?c = c_uri (apply_default_user_namespace rt cap)"
    "c_approval_state ?c = c_approval_state (apply_default_user_namespace rt cap)"
    by (simp_all add: clamp_lifecycle_def split: option.split)
  have "\<exists>r \<in> set (capabilities (db con)). c_uri r = c_uri ?c \<and> c_approval_state r = ''approved''" if "c_approval_state ?c = ''approved''"
    using that known unfolding c by (auto simp: apply_default_user_namespace_def Let_def split: if_splits)
  from upsert_row_approvals [OF d(1) uris this] show "approvals_from (db con) (db con')" by (simp add: approvals_from_def d(2))
  have "c_canonical_key ?c = c_canonical_key cap"
    using default_namespace_key [of rt cap] by (simp add: clamp_lifecycle_def split: option.split)
  then show "map c_uri (capabilities (db con')) = map c_uri (capabilities (db con))
      \<and> filter (\<lambda>r. c_uri r \<noteq> c_uri row) (capabilities (db con')) = filter (\<lambda>r. c_uri r \<noteq> c_uri row) (capabilities (db con))"
    if "row \<in> set (capabilities (db con))" "c_canonical_key row = c_canonical_key cap" for row
    using upsert_row_known_key [OF d(1) that(1)] that(2) by (simp add: d(2))
qed

lemma store_draft_ok:
  assumes "store_draft rt fs p event action details cap con = (Inr v, con')"
  obtains n con1 where "upsert_capability rt fs cap con = (Inr n, con1)" "capabilities (db con') = capabilities (db con1)" "durable con' = db con'"
  using assms by (auto simp: store_draft_def draft_audit_def and_then_eq_Inr commit_def)

lemma updated_draft_fields:
  assumes "updated_draft u payload content cap = Inr c"
  shows "c_uri c = c_uri cap" "c_approval_state c = c_approval_state cap" "c_canonical_key c = c_canonical_key cap"
proof -
  obtain words title descr risk h m where c: "c = cap\<lparr>c_title := title, c_description := descr, c_keywords := words,
      c_risk_tier := risk, c_content_hash := h, c_metadata := m\<rparr>"
    using assms by (auto simp: updated_draft_def bind_sum_Inr capability_post_init_def split: if_splits)
  show "c_uri c = c_uri cap" "c_approval_state c = c_approval_state cap" "c_canonical_key c = c_canonical_key cap" by (simp_all add: c)
qed

definition edits_confined :: "file_system \<Rightarrow> capability \<Rightarrow> desk \<Rightarrow> desk \<Rightarrow> bool" where
  "edits_confined fs cap desk desk' =
     (map c_uri (capabilities (db (fst desk'))) = map c_uri (capabilities (db (fst desk)))
      \<and> filter (\<lambda>r. c_uri r \<noteq> c_uri cap) (capabilities (db (fst desk'))) = filter (\<lambda>r. c_uri r \<noteq> c_uri cap) (capabilities (db (fst desk)))
      \<and> approvals_from (db (fst desk)) (db (fst desk'))
      \<and> (\<forall>path. path \<noteq> normalize_path fs (c_source_path cap) \<longrightarrow> snd desk' path = snd desk path)
      \<and> durable (fst desk') = db (fst desk'))"

lemma capability_from_row_approval [simp]:
  "c_approval_state (capability_from_row r) = c_approval_state r" "c_uri (capability_from_row r) = c_uri r"
  by (simp_all add: capability_from_row_def)

lemma capability_from_row_key: "c_canonical_key (capability_from_row r) = c_canonical_key r"
  by (simp add: capability_from_row_def)

lemma update_confined:
  assumes run: "update_capability_draft rt fs u p payload desk = (Inr v, desk')"
    and coherent: "cache_coherent (db (fst desk)) (org_cache (fst desk))" and uris: "distinct (map c_uri (capabilities (db (fst desk))))"
  shows "\<exists>cap. get_capability (db (fst desk)) (edit_key payload) = Some cap
    \<and> access_allowed rt (db (fst desk)) p ''manage'' (Some cap) None \<and> edits_confined fs cap desk desk'"
proof -
  obtain cap con1 content desk2 c where edit: "require_capability_for_edit rt p payload ''manage'' (fst desk) = (Inr cap, con1)"
    and desk2: "desk2 = (if pget payload ''content'' \<noteq> JNull then write_text (normalize_path fs (c_source_path cap)) content (con1, snd desk) else (con1, snd desk))"
    and c: "updated_draft u payload content cap = Inr c"
    and st: "store_draft rt fs p ''capability.draft.updated'' ''draft.update'' [] c con1 = (Inr v, fst desk')" "snd desk' = snd desk2"
    using run by (auto simp: update_capability_draft_def and_then_eq_Inr lift_result_eq_Inr on_conn_eq Let_def write_text_def split: if_splits)
  note ok = require_capability_for_edit_ok [OF edit coherent]
  obtain row where row: "row \<in> set (capabilities (db (fst desk)))" "cap = capability_from_row row" using get_capability_row(1) [OF ok(1)] by blast
  obtain n con2 where up: "upsert_capability rt fs c con1 = (Inr n, con2)" "capabilities (db (fst desk')) = capabilities (db con2)"
    "durable (fst desk') = db (fst desk')" using store_draft_ok [OF st(1)] by blast
  have "\<exists>r \<in> set (capabilities (db con1)). c_uri r = c_uri c \<and> c_approval_state r = ''approved''" if "c_approval_state c = ''approved''"
    using that row ok(3) updated_draft_fields [OF c] by (intro bexI [of _ row]) auto
  note kept = upsert_capability_confined [OF up(1) _ this]
  have "approvals_from (db con1) (db con2)" using kept(1) uris ok(3) by simp
  moreover have "map c_uri (capabilities (db con2)) = map c_uri (capabilities (db con1))
      \<and> filter (\<lambda>r. c_uri r \<noteq> c_uri row) (capabilities (db con2)) = filter (\<lambda>r. c_uri r \<noteq> c_uri row) (capabilities (db con1))"
    using kept(2) [of row] uris ok(3) row updated_draft_fields(3) [OF c] by (simp add: capability_from_row_key)
  ultimately have "edits_confined fs cap desk desk'"
    unfolding edits_confined_def approvals_from_def
    using up(2,3) ok(3) st(2) row(2) by (auto simp: desk2 write_text_def)
  with ok(1,2) show ?thesis by blast
qed

lemma publish_confined:
  assumes run: "publish_private_capability rt p payload con = (Inr v, con')"
    and coherent: "cache_coherent (db con) (org_cache con)"
  shows "\<exists>cap. get_capability (db con) (edit_key payload) = Some cap
    \<and> access_allowed rt (db con) p ''manage'' (Some cap) None \<and> edits_confined fs cap (con, files) (con', files)"
proof -
  obtain cap con1 where edit: "require_capability_for_edit rt p payload ''manage'' con = (Inr cap, con1)"
    and rows: "capabilities (db con') = update_where (\<lambda>r. c_uri r = c_uri cap)
      (\<lambda>r. r\<lparr>c_lifecycle := ''published'', c_approval_state := ''draft''\<rparr>) (capabilities (db con1))" and dur: "durable con' = db con'"
    using run by (auto simp: publish_private_capability_def and_then_eq_Inr draft_audit_def commit_def with_db_def)
  note ok = require_capability_for_edit_ok [OF edit coherent]
  have "edits_confined fs cap (con, files) (con', files)"
    unfolding edits_confined_def
  proof (intro conjI)
    show "approvals_from (db (fst (con, files))) (db (fst (con', files)))"
      unfolding approvals_from_def using rows ok(3) by (auto simp: update_where_def)
  qed (use rows ok(3) dur update_where_at [of "c_uri cap" "\<lambda>r. r\<lparr>c_lifecycle := ''published'', c_approval_state := ''draft''\<rparr>"] in simp_all)
  with ok(1,2) show ?thesis by blast
qed

text \<open>C40. Edits are confined: when an update or a private publication through manage_capability succeeds, the
  principal holds the right to manage the capability named by the request, which is not held in quarantine; the
  catalog has the same addresses in the same order as before and every row at another address than the one of
  the capability is unchanged, none added and none removed; of the files only its own source file may change;
  an approved row afterwards was approved before with the same content; and the whole change is committed.\<close>

theorem draft_edits_are_confined:
  assumes run: "manage_capability rt fs u state_dir p args desk = (Inr v, desk')"
    and action: "str_or args ''action'' ''template'' \<in> {''draft.update'', ''update'', ''publish-private'', ''draft.publish-private''}"
    and coherent: "cache_coherent (db (fst desk)) (org_cache (fst desk))" and uris: "distinct (map c_uri (capabilities (db (fst desk))))"
  shows "\<exists>cap. get_capability (db (fst desk)) (edit_key args) = Some cap \<and> \<not> capguard_is_held (db (fst desk)) cap
    \<and> access_allowed rt (db (fst desk)) p ''manage'' (Some cap) None \<and> edits_confined fs cap desk desk'"
proof (cases "str_or args ''action'' ''template'' \<in> {''draft.update'', ''update''}")
  case True
  then have "update_capability_draft rt fs u p args desk = (Inr v, desk')" using run by (auto simp: manage_capability_def)
  from update_confined [OF this coherent uris] get_capability_row(2) show ?thesis by blast
next
  case False
  with action run have "on_conn (publish_private_capability rt p args) desk = (Inr v, desk')" by (auto simp: manage_capability_def)
  then have "publish_private_capability rt p args (fst desk) = (Inr v, fst desk')" "snd desk' = snd desk" by (simp_all add: on_conn_eq)
  with publish_confined [OF this(1) coherent, of fs "snd desk"] get_capability_row(2) show ?thesis by (metis prod.collapse)
qed

section \<open>Validation and entrypoints\<close>

lemma validation_exact:
  "pget (validate_capability_payload u payload content) ''valid'' = JBool True \<longleftrightarrow>
     (\<forall>k \<in> {''name'', ''title'', ''description''}. py_strip (str_or payload k []) \<noteq> []) \<and> py_strip content \<noteq> []
     \<and> str_or payload ''riskTier'' ''low'' \<in> set RISK_TIERS \<and> scan_prompt_injection u (codes content) = []"
  by (simp add: validate_capability_payload_def Let_def pget_def conj_assoc)

lemma safe_entrypoint_relative:
  assumes "safe_entrypoint v = Inr e"
  shows "\<exists>segs. e = path_text (False, segs) \<and> ''..'' \<notin> set segs \<and> [] \<notin> set segs"
  using assms by (intro exI [of _ "snd (parse_path v)"]) (auto simp: safe_entrypoint_def Let_def parse_path_def path_text_def split: if_splits)

section \<open>A new draft at a taken address\<close>

text \<open>The address of a new draft may be given in the request, and nothing asks who owns the row that is
  already there: the row gets the new owner, and it stays approved when the content is the same.\<close>

lemma draft_takes_over_row:
  assumes run: "store_draft rt fs p event action details cap con = (Inr v, con')" and uris: "distinct (map c_uri (capabilities (db con)))"
    and row: "row \<in> set (capabilities (db con))" "c_uri row = c_uri cap" "c_content_hash row = c_content_hash cap"
      "c_approval_state row = ''approved''" and place: "namespaced_uri (c_uri cap)"
  shows "\<exists>r \<in> set (capabilities (db con')). c_uri r = c_uri cap \<and> c_owner r = c_owner cap \<and> c_source_path r = c_source_path cap
    \<and> c_approval_state r = ''approved''"
proof -
  let ?c = "clamp_lifecycle (db con) (apply_default_user_namespace rt cap)"
  from store_draft_ok [OF run] obtain n con1 where up: "upsert_capability rt fs cap con = (Inr n, con1)"
    "capabilities (db con') = capabilities (db con1)" by blast
  obtain d where d: "upsert_row ?c (db con) = Inr d" "capabilities (db con1) = capabilities d"
    using up(1) by (auto simp: upsert_capability_def Let_def and_then_eq_Inr lift_result_eq_Inr split: sum.splits option.splits)
  have c: "c_uri ?c = c_uri cap" "c_owner ?c = c_owner cap" "c_source_path ?c = c_source_path cap" "c_content_hash ?c = c_content_hash cap"
    using place by (auto simp: clamp_lifecycle_def apply_default_user_namespace_def Let_def split: option.split)
  have found: "find (\<lambda>r. c_uri r = c_uri cap) (capabilities (db con)) = Some row"
    using find_key_unique [of c_uri "capabilities (db con)" row] uris row by auto
  show ?thesis
  proof (cases "row_differs row ?c")
    case True
    with d(1) found c have "capabilities d = update_where (\<lambda>r. c_uri r = c_uri cap) (\<lambda>r. merge_row r ?c) (capabilities (db con))"
      by (auto simp: upsert_row_def split: if_splits)
    with row have "merge_row row ?c \<in> set (capabilities d)" by (auto simp: update_where_def)
    then show ?thesis using c row by (intro bexI [of _ "merge_row row ?c"]) (auto simp: up(2) d(2) merge_row_def Let_def downgrade_def)
  next
    case False
    with d(1) found c have "capabilities d = capabilities (db con)" by (auto simp: upsert_row_def split: if_splits)
    moreover from False have "c_owner row = c_owner ?c" "c_source_path row = c_source_path ?c"
      by (auto simp: row_differs_def source_columns_def)
    ultimately show ?thesis using row c by (intro bexI [of _ row]) (auto simp: up(2) d(2))
  qed
qed

section \<open>Witness\<close>

definition draft_admin :: principal where
  "draft_admin = sample_principal\<lparr>p_roles := [''platform_admin'']\<rparr>"

definition draft_catalog :: database where
  "draft_catalog = empty_database\<lparr>capabilities := [sample_capability]\<rparr>"

definition publish_args :: payload where
  "publish_args = [(''action'', JStr ''publish-private''), (''capabilityUri'', JStr (c_uri sample_capability))]"

lemma draft_admin_manages: "access_allowed sample_runtime draft_catalog draft_admin ''manage'' (Some sample_capability) None"
proof (rule global_admin_allowed)
  show "\<not> guard_denies sample_runtime draft_catalog draft_admin ''manage'' (Some sample_capability) None"
    by (rule unguardedI) (auto simp: draft_admin_def sample_principal_def draft_catalog_def empty_database_def capability_blocked_def
      blocked_states_def blocked_lifecycles_def sample_capability_def requires_step_up_def STEP_UP_RISK_TIERS_def production_environment_def
      sample_runtime_def py_strip_def py_lstrip_def py_rstrip_def py_lower_def)
qed (simp_all add: draft_admin_def RIGHTS_def)

lemma publish_key: "edit_key publish_args = c_uri sample_capability"
  by (simp add: edit_key_def publish_args_def pget_def json_or_def json_truthy_def py_str_def sample_capability_def)

lemma publish_target: "get_capability draft_catalog (c_uri sample_capability) = Some sample_capability"
proof -
  have "capability_from_row sample_capability = sample_capability"
    by (simp add: capability_from_row_def sample_capability_def DISCOVERY_MODES_def VISIBILITIES_def CAPABILITY_TYPES_def RISK_TIERS_def)
  then show ?thesis by (simp add: get_capability_def draft_catalog_def empty_database_def capguard_is_held_def)
qed

lemma sample_publish:
  "\<exists>v desk'. manage_capability sample_runtime sample_files plain_unicode ''/state'' draft_admin publish_args (sample_conn draft_catalog, Map.empty) = (Inr v, desk')"
proof -
  have "fst (fst (evaluate_access sample_runtime draft_admin ''manage'' (Some sample_capability) None True (sample_conn draft_catalog)))"
    using evaluate_access_allowed(1) [of "sample_conn draft_catalog"] draft_admin_manages by (simp add: sample_conn_def)
  then have "require_capability_for_edit sample_runtime draft_admin publish_args ''manage'' (sample_conn draft_catalog)
     = (Inr sample_capability, snd (evaluate_access sample_runtime draft_admin ''manage'' (Some sample_capability) None True (sample_conn draft_catalog)))"
    using publish_target by (simp add: require_capability_for_edit_def publish_key Let_def sample_conn_def require_access_def case_prod_unfold
        sample_capability_def [THEN arg_cong, of c_approval_state] sample_capability_def [THEN arg_cong, of c_uri])
  moreover have "str_or publish_args ''action'' ''template'' = ''publish-private''" by (simp add: publish_args_def)
  ultimately show ?thesis by (simp add: manage_capability_def on_conn_def publish_private_capability_def and_then_def)
qed

theorem draft_edits_are_confined_witness:
  "\<exists>v desk'. manage_capability sample_runtime sample_files plain_unicode ''/state'' draft_admin publish_args
       (sample_conn draft_catalog, Map.empty) = (Inr v, desk')
     \<and> edits_confined sample_files sample_capability (sample_conn draft_catalog, Map.empty) desk'"
proof -
  obtain v desk' where run: "manage_capability sample_runtime sample_files plain_unicode ''/state'' draft_admin publish_args
     (sample_conn draft_catalog, Map.empty) = (Inr v, desk')" using sample_publish by blast
  have "str_or publish_args ''action'' ''template'' = ''publish-private''" by (simp add: publish_args_def)
  moreover have "cache_coherent (db (sample_conn draft_catalog)) (org_cache (sample_conn draft_catalog))"
    "distinct (map c_uri (capabilities (db (sample_conn draft_catalog))))" "db (sample_conn draft_catalog) = draft_catalog"
    by (simp_all add: sample_conn_def draft_catalog_def empty_database_def)
  ultimately have "edits_confined sample_files sample_capability (sample_conn draft_catalog, Map.empty) desk'"
    using draft_edits_are_confined [OF run] publish_target by (auto simp: publish_key)
  with run show ?thesis by blast
qed

end
