(* ===== verification/Spec2Isabelle.thy ===== *)
theory Spec2Isabelle
  imports Semver_Policy Dependency_Graph Lifecycle_Transitions Registry_Log Break_Glass Provisioning Roles_Orgs
    Catalog_Names Stores_Shares Task_Runner Injection_Scan Signing Review_Gates Promotions
    Cap_Guard Malware_Scan Quarantine_Store Auth_Sessions Vault_Placement Install_Admission Source_Merge
    Catalog_Ingest Directory_Sync Node_Role Request_Router Report_Receipts
    Draft_Editing
begin

text \<open>
  A verification development for the capability mesh (\<^verbatim>\<open>capmesh/\<close>), a registry of agent capabilities.
  The service keeps its state in one SQLite database. Every request carries a principal; the
  authorization cascade decides what the principal may do, the operations of the governance modules
  change the tables in a transaction, and every mutation is recorded in an audit table and in a
  hash-chained log.

  \<^bold>\<open>State.\<close> The theory \<^verbatim>\<open>Capmesh_Schema\<close> has one record per table (governance.init_governance_schema,
  registry_log, dependency_graph, task_runner, capguard, malware_scan, entra_groups), the record \<^verbatim>\<open>database\<close> of all tables, and the
  record \<^verbatim>\<open>conn\<close>: the tables as the open transaction sees them (\<^verbatim>\<open>db\<close>), the tables as last committed
  (\<^verbatim>\<open>durable\<close>), the number of identifiers drawn, and the process-wide organization cache of
  access_control.py. A table is a list of rows in insertion order. The record \<^verbatim>\<open>runtime\<close> holds what the
  process reads from outside: the environment variables, the clock in microseconds and the source of
  uuid4. An operation takes and returns a connection; one that can raise returns a sum with the
  exception on the left, and the connection after the raise, since SQLite keeps the statements that
  were executed. Foreign keys of the tenant are checked by the provisioning statements only.

  \<^bold>\<open>Language and library.\<close> \<^verbatim>\<open>Py_Prelude\<close> has Python strings (as Latin-1 character lists), exceptions,
  sequencing, and the SQL statements as list functions; \<^verbatim>\<open>Py_Time\<close> the clock texts and that comparing
  them as strings compares the instants; \<^verbatim>\<open>Py_Json\<close> and \<^verbatim>\<open>Py_Payload\<close> JSON values and request payloads;
  \<^verbatim>\<open>Sha256\<close> the digest, on 32-bit words.

  \<^bold>\<open>Components.\<close> Each theory follows the order of its source file.
  \<^item> \<^verbatim>\<open>Access_Control\<close> (access_control.py): the cascade of evaluate_access with its cache, proved equal to
    an order-free policy; guards win over grants. The locale access_gate states what a caller may rely
    on, and the operations of all other theories use it.
  \<^item> \<^verbatim>\<open>Semver_Policy\<close> (semver_policy.py): versions, their order through keys of class linorder, conflicts.
  \<^item> \<^verbatim>\<open>Dependency_Graph\<close> (dependency_graph.py): the table, cycle detection, Kahn's order, constraints.
  \<^item> \<^verbatim>\<open>Lifecycle_Transitions\<close> (lifecycle_transitions.py, namespace_owners.py): the transition tables as a
    locale, the operations, and the invariant of every history.
  \<^item> \<^verbatim>\<open>Registry_Log\<close> (registry_log.py, governance.audit_event): the hash chain as a locale over any hash
    function, interpreted by SHA-256; every history verifies, and a verified log is tamper evident.
  \<^item> \<^verbatim>\<open>Break_Glass\<close> (break_glass.py): sessions, their term and revocation.
  \<^item> \<^verbatim>\<open>Provisioning\<close> (governance.py, bootstrap): the statements of the tenant and identity bootstrap,
    table invariants carried by a locale over statements, idempotence.
  \<^item> \<^verbatim>\<open>Roles_Orgs\<close> (roles_orgs.py): role assignments and organization membership, and their effect on the
    decisions of the cascade.
  \<^item> \<^verbatim>\<open>Catalog_Names\<close> (governance.slug and the default namespace), \<^verbatim>\<open>Stores_Shares\<close> (stores.py).
  \<^item> \<^verbatim>\<open>Task_Runner\<close> (task_runner.py, model_router.py, task_dispatcher.py): the queue as a step relation
    in which the reads and writes of any number of workers interleave, routing and dispatch.
  \<^item> \<^verbatim>\<open>Injection_Scan\<close> (prompt_injection.py, injection_allowlist.py, risk_policy.py): the scanner on code
    points, proved equal to a search in the visible letters.
  \<^item> \<^verbatim>\<open>Signing\<close> (signing.py): base64, canonical JSON, attestations and their round trip.
  \<^item> \<^verbatim>\<open>Review_Gates\<close> (lifecycle.py, provenance.py): the seven gates, reviews, batches with savepoints,
    the catalog approval and its paging loop, promotion gate runs, status and verification.
  \<^item> \<^verbatim>\<open>Promotions\<close> (promotions.py): submission and the decisions on a request, through checks and writes.
  \<^item> \<^verbatim>\<open>Cap_Guard\<close> (cap_guard.py): the controls and the verdict of the runtime guard, a pure decision; it
    allows only what every blocking control passed, and isolates by risk tier.
  \<^item> \<^verbatim>\<open>Py_Regex\<close> and \<^verbatim>\<open>Malware_Scan\<close> (malware_scan.py): regular expressions with a search proved to decide
    the language of the pattern, the signatures written in it, and the scan of a file.
  \<^item> \<^verbatim>\<open>Quarantine_Store\<close> (capguard.py, capguard_api.py): held items, signed evidence, release and
    rejection; an abstract machine of item lives (item_step), which every sequence of operations refines.
  \<^item> \<^verbatim>\<open>Auth_Sessions\<close> (tokens.py, token_validation.py, entra_groups.py, auth.py): bearer sessions and their
    term, sign-in flows, the checks on identity tokens, and group bindings, as a step relation.
  \<^item> \<^verbatim>\<open>Vault_Placement\<close> (vault_placement.py), \<^verbatim>\<open>Install_Admission\<close> (install_policy.py, install_guards.py) and
    \<^verbatim>\<open>Source_Merge\<close> (manifest.merge_duplicate_capabilities, index._merge_by_effective_uri): where a discovered
    package may come from, which of several copies wins, and under which address it is filed.
  \<^item> \<^verbatim>\<open>Catalog_Ingest\<close> (index.py, ingest): the guards, the quarantine before indexing, the upsert of a row
    with its governance state, the move of a row, orphans, the transaction around them, and the scans and
    dependencies recorded after its commit; when a raise leaves the old catalog and when the new one.
  \<^item> \<^verbatim>\<open>Directory_Sync\<close> (scim.py, scim_sync.py): users, groups and members of the SCIM interface, paging,
    and the mapping of directory groups.
  \<^item> \<^verbatim>\<open>Node_Role\<close> (node_role.py, signed_allowlist.py): the role of a node, and the table of approved
    bindings as a locale of decisions over a set.
  \<^item> \<^verbatim>\<open>Request_Router\<close> (router.py, index.list_capabilities, auth.py): the dispatch of a request through the
    components above: content verified before it is served, bindings run after approval, pages that
    cover the catalog, and the mapping of exceptions to answers.
  \<^item> \<^verbatim>\<open>Draft_Editing\<close> (governance.py, manage_capability): drafts with their files, edited under the right to
    manage; edits are confined to the row of one address and one file and never approve content.
  \<^item> \<^verbatim>\<open>Report_Receipts\<close> (report_receipts.py, receipts and validators of router.py): signed receipts of bundles
    and reports, what they bind and how long, outcomes and scopes.

  \<^bold>\<open>Parameters.\<close> Code outside the repository enters as an argument: the handler of a task, the gateway of
  a dispatch, the tables of Unicode (NFKC and lower case, with ASCII fixed by the hypothesis unicode_ok),
  the Ed25519 signer (with correctness of its own signatures as signer_ok, and 64-byte signatures for receipts), the files and the JSON parser
  of the review gates, the character classes of the regular expressions, the decoding and
  verification of a JSON web token (jwt_ops), the file system of the admission guards, and for the ingest
  the discovered capabilities, the vault manifest, the success of an embedding, the outcome of the coverage
  report and whether the repair of the vectors commits; for the router the
  bytes of a file, the dispatcher of the system capabilities, and the handlers of search, delegation and
  report, which are not modelled.

  \<^bold>\<open>Loops.\<close> Every loop of the source is a total function here: structural recursion, or a measure (the
  text left to read, the addresses above the cursor in approve_pages, the days left in year_split). The
  depth-first search and Kahn's loop of the dependency graph run on fuel, the number of nodes and of
  edges, and the theorems show that it is enough. No property says only what holds if a loop ends.

  \<^bold>\<open>Not modelled.\<close> Transports (server.py, streamable_http.py, mcp_sdk_wrapper.py), the command line, the
  crawler (manifest.py beyond the merge), the ranked search and the rebuild (index.py), the
  delegation bundles and reports of the router, the clients of the directories (sync.py, tailscale_sync.py),
  observability, the external scanners, and the clients of the sign-in providers; they read files and sockets or call
  services. Metrics, log lines and spans inside modelled operations are left out. Three refusal messages
  of promotions.py have a dash outside Latin-1, written with two hyphens.
\<close>

end
